(* ===== verification/Prelude.thy ===== *)
theory Prelude
  imports Main "HOL-Library.Char_ord"
begin

text \<open>
  Shared ground of the development: the collections of simplification rules, JavaScript strings
  and the string operations the web client uses, thrown values and results of asynchronous calls,
  and the tree of rendered nodes that the page models return.

  Strings are lists of bytes (the UTF-8 form of the JavaScript string); character classes and case
  mapping are those of ASCII, and a character beyond ASCII is a run of bytes that no ASCII class
  contains.
\<close>

named_theorems wire_simps \<open>requests and responses of the API client\<close>
named_theorems view_simps \<open>rendered nodes\<close>
named_theorems page_defs \<open>definitions of page states and handlers\<close>

section \<open>Characters and numbers as text\<close>

abbreviation code_of :: "char \<Rightarrow> nat" where
  "code_of c \<equiv> of_char c"

definition is_lower :: "char \<Rightarrow> bool" where
  "is_lower c = (97 \<le> code_of c \<and> code_of c \<le> 122)"

definition is_upper :: "char \<Rightarrow> bool" where
  "is_upper c = (65 \<le> code_of c \<and> code_of c \<le> 90)"

definition is_digit :: "char \<Rightarrow> bool" where
  "is_digit c = (48 \<le> code_of c \<and> code_of c \<le> 57)"

definition is_alnum :: "char \<Rightarrow> bool" where
  "is_alnum c = (is_lower c \<or> is_upper c \<or> is_digit c)"

definition lower_char :: "char \<Rightarrow> char" where
  "lower_char c = (if is_upper c then char_of (code_of c + 32) else c)"

fun show_nat :: "nat \<Rightarrow> string" where
  "show_nat n =
     (if n < 10 then [char_of (48 + n)] else show_nat (n div 10) @ [char_of (48 + n mod 10)])"

declare show_nat.simps [simp del]

definition show_int :: "int \<Rightarrow> string" where
  "show_int i = (if i < 0 then CHR ''-'' # show_nat (nat (- i)) else show_nat (nat i))"

lemma code_of_bound: "code_of c < 256"
  by simp

lemma char_eq_code: "c = d \<longleftrightarrow> code_of c = code_of d"
  by (metis char_of_char)

lemma eq_char_of: "n < 256 \<Longrightarrow> c = char_of n \<longleftrightarrow> code_of c = n"
  by (metis char_of_char mod_less of_char_of)

lemma show_nat_digits: "\<forall>c \<in> set (show_nat n). is_digit c"
proof (induction n rule: show_nat.induct)
  case (1 n)
  then show ?case
    by (subst show_nat.simps) (auto simp: is_digit_def)
qed

lemma show_nat_nonempty [simp]: "show_nat n \<noteq> []"
  by (subst show_nat.simps) simp

section \<open>String operations of the language\<close>

fun starts_with :: "string \<Rightarrow> string \<Rightarrow> bool" where
  "starts_with s [] = True"
| "starts_with [] (p # ps) = False"
| "starts_with (c # cs) (p # ps) = (c = p \<and> starts_with cs ps)"

lemma starts_with_iff: "starts_with s p \<longleftrightarrow> (\<exists>t. s = p @ t)"
  by (induction s p rule: starts_with.induct) auto

lemma starts_with_append [simp]: "starts_with (p @ s) (p @ q) = starts_with s q"
  by (induction p) auto

text \<open>\<open>s.split(sep)\<close> for a one-character separator: always at least one piece.\<close>

fun split_on :: "char \<Rightarrow> string \<Rightarrow> string list" where
  "split_on c [] = [[]]"
| "split_on c (x # xs) =
     (if x = c then [] # split_on c xs
      else (case split_on c xs of [] \<Rightarrow> [[x]] | w # ws \<Rightarrow> (x # w) # ws))"

lemma split_on_nonempty [simp]: "split_on c s \<noteq> []"
  by (induction s) (auto split: list.splits)

lemma split_on_no_sep: "c \<notin> set s \<Longrightarrow> split_on c s = [s]"
  by (induction s) auto

lemma split_on_append_sep:
  "c \<notin> set s \<Longrightarrow> split_on c (s @ c # t) = s # split_on c t"
  by (induction s) auto

fun join_with :: "string \<Rightarrow> string list \<Rightarrow> string" where
  "join_with sep [] = []"
| "join_with sep [s] = s"
| "join_with sep (s # t # ss) = s @ sep @ join_with sep (t # ss)"

lemma split_on_join:
  assumes "ss \<noteq> []" and "\<forall>s \<in> set ss. c \<notin> set s"
  shows "split_on c (join_with [c] ss) = ss"
  using assms
proof (induction "[c]" ss rule: join_with.induct)
  case (2 s)
  then show ?case by (simp add: split_on_no_sep)
next
  case (3 s t ss)
  then show ?case by (simp add: split_on_append_sep)
qed simp

text \<open>\<open>s.replace(/x+$/, "")\<close>: the run of one character at the end is removed.\<close>

definition strip_trailing :: "char \<Rightarrow> string \<Rightarrow> string" where
  "strip_trailing c s = rev (dropWhile (\<lambda>x. x = c) (rev s))"

lemma strip_trailing_last: "strip_trailing c s \<noteq> [] \<Longrightarrow> last (strip_trailing c s) \<noteq> c"
proof -
  assume "strip_trailing c s \<noteq> []"
  then have ne: "dropWhile (\<lambda>x. x = c) (rev s) \<noteq> []"
    by (simp add: strip_trailing_def)
  then have "hd (dropWhile (\<lambda>x. x = c) (rev s)) \<noteq> c"
    using hd_dropWhile [OF ne] by simp
  with ne show ?thesis
    by (simp add: strip_trailing_def last_rev)
qed

lemma strip_trailing_id: "s = [] \<or> last s \<noteq> c \<Longrightarrow> strip_trailing c s = s"
  by (cases s rule: rev_cases) (auto simp: strip_trailing_def)

text \<open>\<open>s.trim()\<close>: white space at both ends (the ASCII part of the language's white space).\<close>

definition is_space :: "char \<Rightarrow> bool" where
  "is_space c = (code_of c \<in> {9, 10, 11, 12, 13, 32})"

definition trim :: "string \<Rightarrow> string" where
  "trim s = rev (dropWhile is_space (rev (dropWhile is_space s)))"

lemma trim_nonempty_hd: "trim s \<noteq> [] \<Longrightarrow> \<not> is_space (hd (dropWhile is_space s))"
  by (metis dropWhile.simps(1) hd_dropWhile rev.simps(1) trim_def)

text \<open>
  \<open>s.toLowerCase()\<close>. Two characters beyond ASCII have ASCII letters in their lower case: the Kelvin
  sign (U+212A) and the dotted capital I (U+0130); they are written out, so that the ASCII letters
  of the result are exactly those of the language. Other characters beyond ASCII stay as they are
  (their lower case is again beyond ASCII).
\<close>

definition kelvin :: string where
  "kelvin = map char_of [226, 132, 170 :: nat]"

definition dotted_i :: string where
  "dotted_i = map char_of [196, 176 :: nat]"

fun to_lower :: "string \<Rightarrow> string" where
  "to_lower [] = []"
| "to_lower (c # cs) =
     (if take 3 (c # cs) = kelvin then CHR ''k'' # to_lower (drop 2 cs)
      else if take 2 (c # cs) = dotted_i
      then CHR ''i'' # char_of (204 :: nat) # char_of (135 :: nat) # to_lower (drop 1 cs)
      else lower_char c # to_lower cs)"

text \<open>Text of the characters beyond ASCII that the pages render.\<close>

definition mdash :: string where
  "mdash = map char_of [226, 128, 148 :: nat]"

definition middot :: string where
  "middot = map char_of [194, 183 :: nat]"

definition hellip :: string where
  "hellip = map char_of [226, 128, 166 :: nat]"

section \<open>Absent and null fields\<close>

text \<open>An optional field \<open>x?: T | null\<close> of a TypeScript interface.\<close>

datatype 'a jsopt = Undefined | Null | Defined 'a

text \<open>Truthiness of a string, and \<open>s || undefined\<close>.\<close>

definition truthy :: "string \<Rightarrow> bool" where
  "truthy s = (s \<noteq> [])"

definition or_undefined :: "string \<Rightarrow> string option" where
  "or_undefined s = (if truthy s then Some s else None)"

section \<open>Pages of a listing\<close>

text \<open>\<open>Math.ceil(total / limit)\<close> of two whole numbers, and the two paging buttons.\<close>

definition total_pages :: "int \<Rightarrow> int \<Rightarrow> int" where
  "total_pages n limit = - ((- n) div limit)"

definition prev_page :: "int \<Rightarrow> int" where
  "prev_page p = max 0 (p - 1)"

definition next_page :: "int \<Rightarrow> int \<Rightarrow> int" where
  "next_page tp p = min (tp - 1) (p + 1)"

lemma total_pages_bounds:
  assumes "0 < limit"
  shows "n \<le> total_pages n limit * limit"
    and "total_pages n limit * limit < n + limit"
proof -
  have eq: "(- n) div limit * limit + (- n) mod limit = - n"
    by simp
  have lo: "0 \<le> (- n) mod limit" and hi: "(- n) mod limit < limit"
    using assms by simp_all
  have tp: "total_pages n limit * limit = - ((- n) div limit * limit)"
    by (simp add: total_pages_def)
  show "n \<le> total_pages n limit * limit" and "total_pages n limit * limit < n + limit"
    using eq lo hi unfolding tp by linarith+
qed

lemma total_pages_pos:
  assumes "0 < limit" and "0 < n"
  shows "0 < total_pages n limit"
proof (rule ccontr)
  assume "\<not> 0 < total_pages n limit"
  then have "total_pages n limit * limit \<le> 0"
    using assms(1) by (simp add: mult_nonpos_nonneg)
  with total_pages_bounds(1) [OF assms(1), of n] assms(2) show False
    by linarith
qed

lemma prev_page_nonneg [simp]: "0 \<le> prev_page p"
  by (simp add: prev_page_def)

lemma next_page_bound: "p < tp - 1 \<Longrightarrow> next_page tp p = p + 1"
  by (simp add: next_page_def)

end
