(* ===== verification/Platform.thy ===== *)
theory Platform
  imports Prelude
begin

text \<open>
  The part of the JavaScript and browser platform that the client code touches: JSON values with
  \<open>JSON.stringify\<close> and \<open>String\<close>, thrown values, the rendered node tree, and the asynchronous world
  of a mounted component: its state, the requests still in flight, and the two kinds of step (the
  user acts on a control that is on screen, a request is answered).
\<close>

section \<open>JSON values\<close>

text \<open>
  A number is kept as its canonical decimal text (the result of \<open>Number.prototype.toString\<close>): the
  client never computes with a number that it reads as untyped JSON. An object keeps its fields in
  insertion order.
\<close>

datatype json =
    JNull
  | JBool bool
  | JNum string
  | JStr string
  | JArr "json list"
  | JObj "(string \<times> json) list"

definition hex_digit :: "nat \<Rightarrow> char" where
  "hex_digit n = (if n < 10 then char_of (48 + n) else char_of (87 + n))"

definition json_escape :: "char \<Rightarrow> string" where
  "json_escape c =
     (if c = CHR 0x22 then [CHR 0x5C, CHR 0x22]
      else if c = CHR 0x5C then [CHR 0x5C, CHR 0x5C]
      else if c = CHR 0x08 then [CHR 0x5C, CHR ''b'']
      else if c = CHR 0x0C then [CHR 0x5C, CHR ''f'']
      else if c = CHR 0x0A then [CHR 0x5C, CHR ''n'']
      else if c = CHR 0x0D then [CHR 0x5C, CHR ''r'']
      else if c = CHR 0x09 then [CHR 0x5C, CHR ''t'']
      else if code_of c < 32
      then CHR 0x5C # ''u00'' @ [hex_digit (code_of c div 16), hex_digit (code_of c mod 16)]
      else [c])"

definition json_quote :: "string \<Rightarrow> string" where
  "json_quote s = CHR 0x22 # concat (map json_escape s) @ [CHR 0x22]"

fun stringify :: "json \<Rightarrow> string" where
  "stringify JNull = ''null''"
| "stringify (JBool b) = (if b then ''true'' else ''false'')"
| "stringify (JNum t) = t"
| "stringify (JStr s) = json_quote s"
| "stringify (JArr vs) = ''['' @ join_with '','' (map stringify vs) @ '']''"
| "stringify (JObj fs) =
     ''{'' @ join_with '','' (map (\<lambda>(k, v). json_quote k @ '':'' @ stringify v) fs) @ ''}''"

text \<open>\<open>String(v)\<close>, the conversion that \<open>Error\<close> applies to its message.\<close>

fun to_js_string :: "json \<Rightarrow> string" where
  "to_js_string JNull = ''null''"
| "to_js_string (JBool b) = (if b then ''true'' else ''false'')"
| "to_js_string (JNum t) = t"
| "to_js_string (JStr s) = s"
| "to_js_string (JArr vs) =
     join_with '','' (map (\<lambda>v. if v = JNull then [] else to_js_string v) vs)"
| "to_js_string (JObj fs) = ''[object Object]''"

text \<open>Property access \<open>v.k\<close> on a parsed value that is not null (the last binding of a key wins).\<close>

definition field :: "json \<Rightarrow> string \<Rightarrow> json option" where
  "field v k = (case v of JObj fs \<Rightarrow> map_of (rev fs) k | _ \<Rightarrow> None)"

text \<open>
  What React does with a value in a text position: strings and numbers are text, null and booleans
  render nothing, an array renders its elements, and any other object makes the render throw.
\<close>

fun renderable :: "json \<Rightarrow> bool" where
  "renderable (JObj fs) = False"
| "renderable (JArr vs) = (\<forall>v \<in> set vs. renderable v)"
| "renderable _ = True"

section \<open>Thrown values\<close>

text \<open>
  A rejected promise of the client: an \<open>ApiError\<close> with its status and detail, another \<open>Error\<close> with
  its message, or a thrown value that is no \<open>Error\<close>.
\<close>

datatype js_exn = ApiErr int json | JsErr string | NotAnError

text \<open>The idiom \<open>err instanceof Error ? err.message : fallback\<close>.\<close>

fun message_or :: "string \<Rightarrow> js_exn \<Rightarrow> string" where
  "message_or fallback (ApiErr st d) = to_js_string d"
| "message_or fallback (JsErr m) = m"
| "message_or fallback NotAnError = fallback"

type_synonym 'a outcome = "js_exn + 'a"

section \<open>Rendered nodes\<close>

text \<open>
  The tree a component renders, without styling: text, an element with its tag, a fragment, a link,
  a button (disabled or not; no handler of its own means it submits its form), a text field with
  its kind, value and placeholder, a selection with its value and options, a checkbox, a form, and a
  child that React refuses (an object), on which the render throws.
  \<open>'e\<close> is the type of the events that the handlers of the page stand for.
\<close>

datatype 'e view =
    Txt string
  | El string "'e view list"
  | Frag "'e view list"
  | Lnk string "'e view list"
  | Btn bool "'e option" "'e view list"
  | Inp string string string "string \<Rightarrow> 'e"
  | Sel string "(string \<times> string) list" "string \<Rightarrow> 'e"
  | Chk bool "bool \<Rightarrow> 'e"
  | Frm 'e "'e view list"
  | Refused

text \<open>\<open>cond && node\<close>\<close>

definition when_view :: "bool \<Rightarrow> 'e view \<Rightarrow> 'e view" where
  "when_view b v = (if b then v else Frag [])"

fun submits :: "'e view \<Rightarrow> bool" where
  "submits (El t vs) = (\<exists>v \<in> set vs. submits v)"
| "submits (Frag vs) = (\<exists>v \<in> set vs. submits v)"
| "submits (Lnk h vs) = (\<exists>v \<in> set vs. submits v)"
| "submits (Btn d e vs) = (\<not> d \<and> e = None)"
| "submits _ = False"

text \<open>The events of the enabled buttons, and of the forms that an enabled button submits.\<close>

fun clicks :: "'e view \<Rightarrow> 'e list" where
  "clicks (Txt s) = []"
| "clicks (El t vs) = concat (map clicks vs)"
| "clicks (Frag vs) = concat (map clicks vs)"
| "clicks (Lnk h vs) = concat (map clicks vs)"
| "clicks (Btn d e vs) = (if d then [] else case e of None \<Rightarrow> [] | Some x \<Rightarrow> [x])"
| "clicks (Inp k v p f) = []"
| "clicks (Sel v os f) = []"
| "clicks (Chk b f) = []"
| "clicks Refused = []"
| "clicks (Frm e vs) =
     (if \<exists>v \<in> set vs. submits v then [e] else []) @ concat (map clicks vs)"

text \<open>The events that typing or choosing can raise: the text is any, a choice is one of the options.\<close>

inductive edits :: "'e view \<Rightarrow> 'e \<Rightarrow> bool" where
  edit_el: "v \<in> set vs \<Longrightarrow> edits v e \<Longrightarrow> edits (El t vs) e"
| edit_frag: "v \<in> set vs \<Longrightarrow> edits v e \<Longrightarrow> edits (Frag vs) e"
| edit_lnk: "v \<in> set vs \<Longrightarrow> edits v e \<Longrightarrow> edits (Lnk h vs) e"
| edit_frm: "v \<in> set vs \<Longrightarrow> edits v e \<Longrightarrow> edits (Frm x vs) e"
| edit_inp: "edits (Inp k v p f) (f s)"
| edit_sel: "(x, l) \<in> set os \<Longrightarrow> edits (Sel v os f) (f x)"
| edit_chk: "edits (Chk b f) (f (\<not> b))"

inductive_simps edits_simps [simp]:
  "edits (Txt s) e"
  "edits (El t vs) e"
  "edits (Frag vs) e"
  "edits (Lnk h vs) e"
  "edits (Btn d x vs) e"
  "edits (Inp k v p f) e"
  "edits (Sel v os f) e"
  "edits (Chk b f) e"
  "edits (Frm x vs) e"
  "edits Refused e"

text \<open>An event is on offer when an enabled control on screen raises it.\<close>

definition offers :: "'e view \<Rightarrow> 'e \<Rightarrow> bool" where
  "offers v e = (e \<in> set (clicks v) \<or> edits v e)"

text \<open>All the text of a tree, in order.\<close>

fun texts :: "'e view \<Rightarrow> string list" where
  "texts (Txt s) = [s]"
| "texts (El t vs) = concat (map texts vs)"
| "texts (Frag vs) = concat (map texts vs)"
| "texts (Lnk h vs) = concat (map texts vs)"
| "texts (Btn d e vs) = concat (map texts vs)"
| "texts (Frm e vs) = concat (map texts vs)"
| "texts _ = []"

text \<open>The render throws when any child in it is refused.\<close>

fun crashes :: "'e view \<Rightarrow> bool" where
  "crashes (El t vs) = (\<exists>v \<in> set vs. crashes v)"
| "crashes (Frag vs) = (\<exists>v \<in> set vs. crashes v)"
| "crashes (Lnk h vs) = (\<exists>v \<in> set vs. crashes v)"
| "crashes (Btn d e vs) = (\<exists>v \<in> set vs. crashes v)"
| "crashes (Frm e vs) = (\<exists>v \<in> set vs. crashes v)"
| "crashes Refused = True"
| "crashes _ = False"

text \<open>A JSON value as a child, and its truthiness.\<close>

fun json_child :: "json \<Rightarrow> 'e view" where
  "json_child JNull = Frag []"
| "json_child (JBool b) = Frag []"
| "json_child (JNum t) = Txt t"
| "json_child (JStr s) = Txt s"
| "json_child (JArr vs) = Frag (map json_child vs)"
| "json_child (JObj fs) = Refused"

fun truthy_json :: "json \<Rightarrow> bool" where
  "truthy_json JNull = False"
| "truthy_json (JBool b) = b"
| "truthy_json (JNum t) = (t \<noteq> ''0'')"
| "truthy_json (JStr s) = truthy s"
| "truthy_json _ = True"

lemma crashes_json_child [simp]: "crashes (json_child v) = (\<not> renderable v)"
  by (induction v rule: json_child.induct) auto

lemma clicks_when_view [simp]: "clicks (when_view b v) = (if b then clicks v else [])"
  by (simp add: when_view_def)

lemma texts_when_view [simp]: "texts (when_view b v) = (if b then texts v else [])"
  by (simp add: when_view_def)

lemma edits_when_view [simp]: "edits (when_view b v) e = (b \<and> edits v e)"
  by (simp add: when_view_def)

lemma offers_txt [simp]: "\<not> offers (Txt s) e"
  by (simp add: offers_def)

lemma offers_el [simp]: "offers (El t vs) e = (\<exists>v \<in> set vs. offers v e)"
  by (auto simp: offers_def)

lemma offers_frag [simp]: "offers (Frag vs) e = (\<exists>v \<in> set vs. offers v e)"
  by (auto simp: offers_def)

lemma offers_lnk [simp]: "offers (Lnk h vs) e = (\<exists>v \<in> set vs. offers v e)"
  by (auto simp: offers_def)

lemma offers_btn [simp]: "offers (Btn d x vs) e = (\<not> d \<and> x = Some e)"
  by (auto simp: offers_def split: option.splits)

lemma offers_inp [simp]: "offers (Inp k v p f) e = (\<exists>s. e = f s)"
  by (auto simp: offers_def)

lemma offers_sel [simp]: "offers (Sel v os f) e = (\<exists>x l. (x, l) \<in> set os \<and> e = f x)"
  by (auto simp: offers_def)

lemma offers_chk [simp]: "offers (Chk b f) e = (e = f (\<not> b))"
  by (auto simp: offers_def)

lemma offers_frm [simp]:
  "offers (Frm x vs) e =
     ((e = x \<and> (\<exists>v \<in> set vs. submits v)) \<or> (\<exists>v \<in> set vs. offers v e))"
  unfolding offers_def by (cases "\<exists>v \<in> set vs. submits v") (simp; blast)+

lemma offers_refused [simp]: "\<not> offers Refused e"
  by (simp add: offers_def)

lemma submits_json_child [simp]: "\<not> submits (json_child v)"
  by (induction v rule: json_child.induct) auto

lemma offers_json_child [simp]: "\<not> offers (json_child v) e"
  by (induction v rule: json_child.induct) auto

lemma crashes_when_view [simp]: "crashes (when_view b v) = (b \<and> crashes v)"
  by (simp add: when_view_def)

lemma offers_when_view [simp]: "offers (when_view b v) e = (b \<and> offers v e)"
  by (auto simp: offers_def)

text \<open>A component rendered inside another: its events become events of the parent.\<close>

lemma submits_map_view [simp]: "submits (map_view f v) = submits v"
  by (induction v rule: submits.induct) auto

lemma clicks_map_view [simp]: "clicks (map_view f v) = map f (clicks v)"
  by (induction v rule: clicks.induct) (auto simp: map_concat comp_def cong: map_cong split: option.splits)

lemma texts_map_view [simp]: "texts (map_view f v) = texts v"
  by (induction v rule: texts.induct) (auto simp: comp_def cong: map_cong)

lemma edits_map_viewI: "edits v e \<Longrightarrow> edits (map_view f v) (f e)"
  by (induction rule: edits.induct) auto

lemma edits_map_viewD: "edits (map_view f v) e \<Longrightarrow> \<exists>e'. e = f e' \<and> edits v e'"
  by (induction v) fastforce+

lemma offers_map_view [simp]: "offers (map_view f v) e \<longleftrightarrow> (\<exists>e'. e = f e' \<and> offers v e')"
  unfolding offers_def using edits_map_viewI [of v _ f] edits_map_viewD [of f v e] by auto

subsection \<open>Objects used as dictionaries\<close>

text \<open>
  \<open>d[k]\<close> on an object literal: its own entry, else what it inherits from \<open>Object.prototype\<close> (eleven
  functions and one object), else undefined. \<open>d[k] ?? k\<close> as a child renders the entry or the key;
  an inherited function renders nothing, and the inherited object is refused.
\<close>

datatype dict_value = Own string | Inherited_function | Inherited_object | Missing

definition prototype_functions :: "string list" where
  "prototype_functions =
     [''constructor'', ''__defineGetter__'', ''__defineSetter__'', ''hasOwnProperty'',
      ''__lookupGetter__'', ''__lookupSetter__'', ''isPrototypeOf'', ''propertyIsEnumerable'',
      ''toString'', ''valueOf'', ''toLocaleString'']"

definition dict_get :: "(string \<times> string) list \<Rightarrow> string \<Rightarrow> dict_value" where
  "dict_get d k =
     (case map_of d k of
        Some v \<Rightarrow> Own v
      | None \<Rightarrow> if k \<in> set prototype_functions then Inherited_function
                else if k = ''__proto__'' then Inherited_object else Missing)"

definition dict_child :: "(string \<times> string) list \<Rightarrow> string \<Rightarrow> 'e view" where
  "dict_child d k =
     (case dict_get d k of
        Own v \<Rightarrow> Txt v | Missing \<Rightarrow> Txt k | Inherited_function \<Rightarrow> Frag [] | Inherited_object \<Rightarrow> Refused)"

lemma offers_dict_child [simp]: "\<not> offers (dict_child d k) e"
  by (simp add: dict_child_def split: dict_value.split)

section \<open>A mounted component and its requests in flight\<close>

text \<open>
  \<open>handle\<close> is what an event does (the handler, then the effects whose dependencies changed),
  \<open>resume\<close> is what the code after an \<open>await\<close> does with the answer; both return the new state and the
  requests they send. Requests carry no cancellation, so any one in flight may be answered next;
  \<open>answers\<close> says which answers a request can have.
\<close>

type_synonym ('s, 'c) world = "'s \<times> 'c list"

inductive wstep ::
  "('s \<Rightarrow> 'e \<Rightarrow> bool) \<Rightarrow> ('e \<Rightarrow> 's \<Rightarrow> 's \<times> 'c list) \<Rightarrow> ('c \<Rightarrow> 'r \<Rightarrow> 's \<Rightarrow> 's \<times> 'c list) \<Rightarrow>
   ('c \<Rightarrow> 'r \<Rightarrow> bool) \<Rightarrow> ('s, 'c) world \<Rightarrow> ('s, 'c) world \<Rightarrow> bool"
  for offered handle resume answers where
  act: "offered s e \<Longrightarrow> handle e s = (s', cs) \<Longrightarrow>
     wstep offered handle resume answers (s, fl) (s', fl @ cs)"
| reply: "answers c r \<Longrightarrow> resume c r s = (s', cs) \<Longrightarrow>
     wstep offered handle resume answers (s, xs @ c # ys) (s', xs @ ys @ cs)"

inductive_cases wstepE: "wstep offered handle resume answers w w'"

text \<open>The same world when answers arrive in the order of the requests.\<close>

inductive fstep ::
  "('s \<Rightarrow> 'e \<Rightarrow> bool) \<Rightarrow> ('e \<Rightarrow> 's \<Rightarrow> 's \<times> 'c list) \<Rightarrow> ('c \<Rightarrow> 'r \<Rightarrow> 's \<Rightarrow> 's \<times> 'c list) \<Rightarrow>
   ('c \<Rightarrow> 'r \<Rightarrow> bool) \<Rightarrow> ('s, 'c) world \<Rightarrow> ('s, 'c) world \<Rightarrow> bool"
  for offered handle resume answers where
  fact: "offered s e \<Longrightarrow> handle e s = (s', cs) \<Longrightarrow>
     fstep offered handle resume answers (s, fl) (s', fl @ cs)"
| freply: "answers c r \<Longrightarrow> resume c r s = (s', cs) \<Longrightarrow>
     fstep offered handle resume answers (s, c # ys) (s', ys @ cs)"

lemma fstep_imp_wstep:
  "fstep offered handle resume answers w w' \<Longrightarrow> wstep offered handle resume answers w w'"
proof (induction rule: fstep.induct)
  case (fact s e s' cs fl)
  then show ?case by (rule wstep.act)
next
  case (freply c r s s' cs ys)
  then show ?case
    using wstep.reply [of answers c r resume s s' cs offered handle "[]" ys] by simp
qed

text \<open>
  Events and answers as a script, to run a concrete interleaving: \<open>Inl e\<close> is a user event, \<open>Inr
  (i, r)\<close> answers the \<open>i\<close>-th request in flight with \<open>r\<close>.
\<close>

fun run_script ::
  "('e \<Rightarrow> 's \<Rightarrow> 's \<times> 'c list) \<Rightarrow> ('c \<Rightarrow> 'r \<Rightarrow> 's \<Rightarrow> 's \<times> 'c list) \<Rightarrow>
   ('e + nat \<times> 'r) list \<Rightarrow> ('s, 'c) world \<Rightarrow> ('s, 'c) world" where
  "run_script handle resume [] w = w"
| "run_script handle resume (Inl e # as) (s, fl) =
     (let (s', cs) = handle e s in run_script handle resume as (s', fl @ cs))"
| "run_script handle resume (Inr (i, r) # as) (s, fl) =
     (if i < length fl
      then let (s', cs) = resume (fl ! i) r s
           in run_script handle resume as (s', take i fl @ drop (Suc i) fl @ cs)
      else (s, fl))"

text \<open>The script is playable when each event is on offer and each answer is possible.\<close>

fun playable ::
  "('s \<Rightarrow> 'e \<Rightarrow> bool) \<Rightarrow> ('e \<Rightarrow> 's \<Rightarrow> 's \<times> 'c list) \<Rightarrow> ('c \<Rightarrow> 'r \<Rightarrow> 's \<Rightarrow> 's \<times> 'c list) \<Rightarrow>
   ('c \<Rightarrow> 'r \<Rightarrow> bool) \<Rightarrow> ('e + nat \<times> 'r) list \<Rightarrow> ('s, 'c) world \<Rightarrow> bool" where
  "playable offered handle resume answers [] w = True"
| "playable offered handle resume answers (Inl e # as) (s, fl) =
     (offered s e \<and>
      (let (s', cs) = handle e s in playable offered handle resume answers as (s', fl @ cs)))"
| "playable offered handle resume answers (Inr (i, r) # as) (s, fl) =
     (i < length fl \<and> answers (fl ! i) r \<and>
      (let (s', cs) = resume (fl ! i) r s
       in playable offered handle resume answers as (s', take i fl @ drop (Suc i) fl @ cs)))"

lemma run_script_reaches:
  "playable offered handle resume answers as w \<Longrightarrow>
   (wstep offered handle resume answers)\<^sup>*\<^sup>* w (run_script handle resume as w)"
proof (induction handle resume as w rule: run_script.induct)
  case (2 handle resume e as s fl)
  obtain s' cs where h: "handle e s = (s', cs)" by (cases "handle e s")
  with "2.prems" have "wstep offered handle resume answers (s, fl) (s', fl @ cs)"
    by (auto intro: wstep.act)
  moreover have "(wstep offered handle resume answers)\<^sup>*\<^sup>* (s', fl @ cs)
      (run_script handle resume as (s', fl @ cs))"
    using "2.IH" [OF h [symmetric] refl] "2.prems" h by simp
  ultimately show ?case
    using h by (simp add: converse_rtranclp_into_rtranclp)
next
  case (3 handle resume i r as s fl)
  obtain s' cs where h: "resume (fl ! i) r s = (s', cs)" by (cases "resume (fl ! i) r s")
  from "3.prems" have i: "i < length fl" and a: "answers (fl ! i) r" by auto
  have "wstep offered handle resume answers (s, take i fl @ (fl ! i) # drop (Suc i) fl)
      (s', take i fl @ drop (Suc i) fl @ cs)"
    using a h by (rule wstep.reply)
  then have "wstep offered handle resume answers (s, fl) (s', take i fl @ drop (Suc i) fl @ cs)"
    using i by (simp add: id_take_nth_drop [symmetric])
  moreover have "(wstep offered handle resume answers)\<^sup>*\<^sup>*
      (s', take i fl @ drop (Suc i) fl @ cs)
      (run_script handle resume as (s', take i fl @ drop (Suc i) fl @ cs))"
    using "3.IH" [OF i h [symmetric] refl] "3.prems" h by simp
  ultimately show ?case
    using h i by (simp add: converse_rtranclp_into_rtranclp)
qed simp

text \<open>A script whose answers arrive in the order of the requests.\<close>

fun in_order :: "('e + nat \<times> 'r) list \<Rightarrow> bool" where
  "in_order [] = True"
| "in_order (Inl e # as) = in_order as"
| "in_order (Inr (i, r) # as) = (i = 0 \<and> in_order as)"

lemma run_script_reaches_in_order:
  "playable offered handle resume answers as w \<Longrightarrow> in_order as \<Longrightarrow>
   (fstep offered handle resume answers)\<^sup>*\<^sup>* w (run_script handle resume as w)"
proof (induction handle resume as w rule: run_script.induct)
  case (2 handle resume e as s fl)
  obtain s' cs where h: "handle e s = (s', cs)" by (cases "handle e s")
  with "2.prems" have "fstep offered handle resume answers (s, fl) (s', fl @ cs)"
    by (auto intro: fstep.fact)
  moreover have "(fstep offered handle resume answers)\<^sup>*\<^sup>* (s', fl @ cs)
      (run_script handle resume as (s', fl @ cs))"
    using "2.IH" [OF h [symmetric] refl] "2.prems" h by simp
  ultimately show ?case
    using h by (simp add: converse_rtranclp_into_rtranclp)
next
  case (3 handle resume i r as s fl)
  obtain s' cs where h: "resume (fl ! i) r s = (s', cs)" by (cases "resume (fl ! i) r s")
  from "3.prems" have i: "i < length fl" and a: "answers (fl ! i) r" and z: "i = 0" by auto
  from i z obtain c ys where fl: "fl = c # ys" by (cases fl) auto
  have "fstep offered handle resume answers (s, c # ys) (s', ys @ cs)"
    using a h fl z by (auto intro: fstep.freply)
  moreover have "(fstep offered handle resume answers)\<^sup>*\<^sup>* (s', take i fl @ drop (Suc i) fl @ cs)
      (run_script handle resume as (s', take i fl @ drop (Suc i) fl @ cs))"
    using "3.IH" [OF i h [symmetric] refl] "3.prems" h by simp
  ultimately show ?case
    using h fl z by (simp add: converse_rtranclp_into_rtranclp)
qed simp

subsection \<open>The contract of an invariant\<close>

locale world_invariant =
  fixes offered :: "'s \<Rightarrow> 'e \<Rightarrow> bool"
    and handle :: "'e \<Rightarrow> 's \<Rightarrow> 's \<times> 'c list"
    and resume :: "'c \<Rightarrow> 'r \<Rightarrow> 's \<Rightarrow> 's \<times> 'c list"
    and answers :: "'c \<Rightarrow> 'r \<Rightarrow> bool"
    and start :: "('s, 'c) world"
    and inv :: "'s \<Rightarrow> 'c list \<Rightarrow> bool"
  assumes inv_start: "inv (fst start) (snd start)"
    and inv_act: "inv s fl \<Longrightarrow> offered s e \<Longrightarrow> handle e s = (s', cs) \<Longrightarrow> inv s' (fl @ cs)"
    and inv_reply: "inv s (xs @ c # ys) \<Longrightarrow> answers c r \<Longrightarrow> resume c r s = (s', cs) \<Longrightarrow>
      inv s' (xs @ ys @ cs)"
begin

lemma step_inv:
  "wstep offered handle resume answers w w' \<Longrightarrow> inv (fst w) (snd w) \<Longrightarrow> inv (fst w') (snd w')"
  by (erule wstep.cases) (auto intro: inv_act inv_reply)

lemma reach_inv:
  "(wstep offered handle resume answers)\<^sup>*\<^sup>* start w \<Longrightarrow> inv (fst w) (snd w)"
  by (induction rule: rtranclp_induct) (auto intro: inv_start step_inv)

lemma reach_state_inv:
  "(wstep offered handle resume answers)\<^sup>*\<^sup>* start (s, fl) \<Longrightarrow> inv s fl"
  using reach_inv by fastforce

end

subsection \<open>The contract of a page that only fetches\<close>

text \<open>
  Every request is the fetch of a query; an event that changes the query sends exactly one fetch of
  the new query, and an answer is put on display. Then, when answers arrive in order and nothing is
  in flight, what is on display answers the query that the controls show.
\<close>

locale fetch_page =
  fixes offered :: "'s \<Rightarrow> 'e \<Rightarrow> bool"
    and handle :: "'e \<Rightarrow> 's \<Rightarrow> 's \<times> 'c list"
    and resume :: "'c \<Rightarrow> 'r \<Rightarrow> 's \<Rightarrow> 's \<times> 'c list"
    and answers :: "'c \<Rightarrow> 'r \<Rightarrow> bool"
    and query :: "'s \<Rightarrow> 'c"
    and displays :: "'s \<Rightarrow> 'r \<Rightarrow> bool"
    and s0 :: "'s"
  assumes act_fetches: "handle e s = (s', cs) \<Longrightarrow>
      cs = [query s'] \<or> (cs = [] \<and> query s' = query s \<and> (\<forall>r. displays s r \<longrightarrow> displays s' r))"
    and reply_displays: "resume c r s = (s', cs) \<Longrightarrow> cs = [] \<and> query s' = query s \<and> displays s' r"
begin

definition settled :: "'s \<Rightarrow> 'c list \<Rightarrow> bool" where
  "settled s fl = (if fl = [] then \<exists>r. answers (query s) r \<and> displays s r else last fl = query s)"

lemma fstep_settled:
  "fstep offered handle resume answers w w' \<Longrightarrow>
   settled (fst w) (snd w) \<Longrightarrow> settled (fst w') (snd w')"
proof (induction rule: fstep.induct)
  case (fact s e s' cs fl)
  from act_fetches [OF fact.hyps(2)] fact.prems show ?case
    by (auto simp: settled_def split: if_splits)
next
  case (freply c r s s' cs ys)
  from reply_displays [OF freply.hyps(2)] freply.hyps(1) freply.prems show ?case
    by (auto simp: settled_def split: if_splits)
qed

lemma reach_settled:
  "(fstep offered handle resume answers)\<^sup>*\<^sup>* (s0, [query s0]) w \<Longrightarrow> settled (fst w) (snd w)"
  by (induction rule: rtranclp_induct) (auto simp: settled_def fstep_settled [unfolded settled_def])

lemma quiet_display:
  assumes "(fstep offered handle resume answers)\<^sup>*\<^sup>* (s0, [query s0]) (s, [])"
  obtains r where "answers (query s) r" and "displays s r"
  using reach_settled [OF assms] by (auto simp: settled_def)

end

end
