(* ===== verification/Encoding.thy ===== *)
theory Encoding
  imports Prelude "HOL-Library.Word"
begin

text \<open>
  The text encodings of the platform that the client uses: percent encoding (\<open>encodeURIComponent\<close>),
  form encoding (\<open>URLSearchParams\<close>), and base64 (\<open>btoa\<close>, \<open>Buffer.from\<close>), each with the decoder and
  the round trip.
\<close>

section \<open>Percent encoding\<close>

definition hex_upper :: "nat \<Rightarrow> char" where
  "hex_upper n = (if n < 10 then char_of (48 + n) else char_of (55 + n))"

definition hex_value :: "char \<Rightarrow> nat option" where
  "hex_value c =
     (if is_digit c then Some (code_of c - 48)
      else if 65 \<le> code_of c \<and> code_of c \<le> 70 then Some (code_of c - 55)
      else if 97 \<le> code_of c \<and> code_of c \<le> 102 then Some (code_of c - 87)
      else None)"

definition percent :: "char \<Rightarrow> string" where
  "percent c = [CHR ''%'', hex_upper (code_of c div 16), hex_upper (code_of c mod 16)]"

fun percent_decode :: "string \<Rightarrow> string" where
  "percent_decode (a # h # l # cs) =
     (if a = CHR ''%''
      then (case (hex_value h, hex_value l) of
              (Some m, Some n) \<Rightarrow> char_of (16 * m + n) # percent_decode cs
            | _ \<Rightarrow> a # percent_decode (h # l # cs))
      else a # percent_decode (h # l # cs))"
| "percent_decode cs = cs"

definition uri_unreserved :: "char \<Rightarrow> bool" where
  "uri_unreserved c = (is_alnum c \<or> code_of c \<in> {45, 95, 46, 33, 126, 42, 39, 40, 41})"

definition encode_uri_component :: "string \<Rightarrow> string" where
  "encode_uri_component s = concat (map (\<lambda>c. if uri_unreserved c then [c] else percent c) s)"

lemma hex_value_upper [simp]: "n < 16 \<Longrightarrow> hex_value (hex_upper n) = Some n"
  by (auto simp: hex_value_def hex_upper_def is_digit_def)

lemma percent_decode_percent [simp]: "percent_decode (percent c @ s) = c # percent_decode s"
proof -
  have "code_of c div 16 < 16" and "code_of c mod 16 < 16"
    using code_of_bound [of c] by (auto simp: less_mult_imp_div_less)
  then show ?thesis
    by (simp add: percent_def)
qed

lemma percent_decode_other [simp]: "c \<noteq> CHR ''%'' \<Longrightarrow> percent_decode (c # s) = c # percent_decode s"
  by (cases s; cases "tl s") auto

lemma uri_unreserved_not_percent: "uri_unreserved c \<Longrightarrow> c \<noteq> CHR ''%''"
  by (auto simp: uri_unreserved_def is_alnum_def is_lower_def is_upper_def is_digit_def)

lemma percent_decode_encode_uri: "percent_decode (encode_uri_component s) = s"
  by (induction s)
     (auto simp: encode_uri_component_def dest: uri_unreserved_not_percent)

lemma hex_upper_unreserved: "n < 16 \<Longrightarrow> is_digit (hex_upper n) \<or> is_upper (hex_upper n)"
  by (auto simp: hex_upper_def is_digit_def is_upper_def)

lemma set_encode_uri:
  assumes "d \<in> set (encode_uri_component s)"
  shows "uri_unreserved d \<or> d = CHR ''%''"
proof -
  from assms obtain c where
    "d \<in> set (if uri_unreserved c then [c] else percent c)"
    by (fastforce simp: encode_uri_component_def)
  moreover have "code_of c div 16 < 16" and "code_of c mod 16 < 16"
    using code_of_bound [of c] by (auto simp: less_mult_imp_div_less)
  ultimately show ?thesis
    using hex_upper_unreserved [of "code_of c div 16"] hex_upper_unreserved [of "code_of c mod 16"]
    by (auto simp: percent_def uri_unreserved_def is_alnum_def split: if_splits)
qed

section \<open>Form encoding: URLSearchParams\<close>

text \<open>
  The parameters are an association list in insertion order. \<open>set\<close> replaces the first binding of a
  name and drops its others, or appends; \<open>get\<close> is the first binding.
\<close>

type_synonym search_params = "(string \<times> string) list"

fun params_set :: "search_params \<Rightarrow> string \<Rightarrow> string \<Rightarrow> search_params" where
  "params_set [] k v = [(k, v)]"
| "params_set ((k', v') # ps) k v =
     (if k' = k then (k, v) # filter (\<lambda>p. fst p \<noteq> k) ps else (k', v') # params_set ps k v)"

definition params_get :: "search_params \<Rightarrow> string \<Rightarrow> string option" where
  "params_get ps k = map_of ps k"

definition form_unreserved :: "char \<Rightarrow> bool" where
  "form_unreserved c = (is_alnum c \<or> code_of c \<in> {42, 45, 46, 95})"

definition form_encode_char :: "char \<Rightarrow> string" where
  "form_encode_char c =
     (if form_unreserved c then [c] else if c = CHR '' '' then ''+'' else percent c)"

definition form_encode :: "string \<Rightarrow> string" where
  "form_encode s = concat (map form_encode_char s)"

definition form_decode :: "string \<Rightarrow> string" where
  "form_decode s = percent_decode (map (\<lambda>c. if c = CHR ''+'' then CHR '' '' else c) s)"

definition params_to_string :: "search_params \<Rightarrow> string" where
  "params_to_string ps =
     join_with ''&'' (map (\<lambda>(k, v). form_encode k @ CHR ''='' # form_encode v) ps)"

fun split_first :: "char \<Rightarrow> string \<Rightarrow> string \<times> string" where
  "split_first c [] = ([], [])"
| "split_first c (x # xs) =
     (if x = c then ([], xs) else let (a, b) = split_first c xs in (x # a, b))"

definition parse_params :: "string \<Rightarrow> search_params" where
  "parse_params s =
     map (\<lambda>piece. let (k, v) = split_first (CHR ''='') piece in (form_decode k, form_decode v))
       (filter (\<lambda>piece. piece \<noteq> []) (split_on (CHR ''&'') s))"

lemma form_unreserved_facts:
  "form_unreserved c \<Longrightarrow> c \<noteq> CHR ''%'' \<and> c \<noteq> CHR ''+'' \<and> c \<noteq> CHR ''&'' \<and> c \<noteq> CHR ''=''"
  by (auto simp: form_unreserved_def is_alnum_def is_lower_def is_upper_def is_digit_def)

lemma hex_upper_facts:
  "n < 16 \<Longrightarrow> hex_upper n \<noteq> CHR ''+'' \<and> hex_upper n \<noteq> CHR ''&'' \<and> hex_upper n \<noteq> CHR ''=''"
  using hex_upper_unreserved [of n] by (auto simp: is_digit_def is_upper_def)

lemma percent_set: "d \<in> set (percent c) \<Longrightarrow> d \<noteq> CHR ''+'' \<and> d \<noteq> CHR ''&'' \<and> d \<noteq> CHR ''=''"
proof -
  have "code_of c div 16 < 16" and "code_of c mod 16 < 16"
    using code_of_bound [of c] by (auto simp: less_mult_imp_div_less)
  then show "d \<in> set (percent c) \<Longrightarrow> d \<noteq> CHR ''+'' \<and> d \<noteq> CHR ''&'' \<and> d \<noteq> CHR ''=''"
    using hex_upper_facts [of "code_of c div 16"] hex_upper_facts [of "code_of c mod 16"]
    by (auto simp: percent_def)
qed

lemma form_encode_separators:
  "CHR ''&'' \<notin> set (form_encode s)" "CHR ''='' \<notin> set (form_encode s)"
  by (auto simp: form_encode_def form_encode_char_def dest: percent_set form_unreserved_facts
           split: if_splits)

lemma form_decode_encode_char:
  "form_decode (form_encode_char c @ s) = c # form_decode s"
proof -
  have "map (\<lambda>c. if c = CHR ''+'' then CHR '' '' else c) (percent c) = percent c"
    by (rule map_idI) (auto dest: percent_set)
  then show ?thesis
    by (auto simp: form_decode_def form_encode_char_def dest: form_unreserved_facts)
qed

lemma form_decode_encode [simp]: "form_decode (form_encode s) = s"
proof (induction s)
  case Nil
  show ?case by (simp add: form_encode_def form_decode_def)
next
  case (Cons c s)
  have "form_encode (c # s) = form_encode_char c @ form_encode s"
    by (simp add: form_encode_def)
  with Cons show ?case
    by (simp add: form_decode_encode_char)
qed

lemma split_first_append: "c \<notin> set s \<Longrightarrow> split_first c (s @ c # t) = (s, t)"
  by (induction s) auto

lemma parse_params_to_string: "parse_params (params_to_string ps) = ps"
proof (cases "ps = []")
  case True
  then show ?thesis by (simp add: parse_params_def params_to_string_def)
next
  case False
  let ?enc = "\<lambda>(k, v). form_encode k @ CHR ''='' # form_encode v"
  have sep: "\<forall>s \<in> set (map ?enc ps). CHR ''&'' \<notin> set s"
    by (auto simp: form_encode_separators)
  have "split_on (CHR ''&'') (params_to_string ps) = map ?enc ps"
    unfolding params_to_string_def using False sep by (intro split_on_join) auto
  moreover have "filter (\<lambda>piece. piece \<noteq> []) (map ?enc ps) = map ?enc ps"
    by (auto simp: filter_id_conv)
  ultimately show ?thesis
    by (simp add: parse_params_def split_first_append form_encode_separators
        prod.case_distrib [where h = "\<lambda>x. split_first c x" for c] case_prod_unfold map_idI)
qed

lemma params_get_set: "params_get (params_set ps k v) k' = (if k' = k then Some v else params_get ps k')"
proof (induction ps)
  case Nil
  then show ?case by (simp add: params_get_def)
next
  case (Cons p ps)
  have "k' \<noteq> k \<Longrightarrow> map_of (filter (\<lambda>p. fst p \<noteq> k) ps) k' = map_of ps k'"
    by (induction ps) auto
  with Cons show ?case by (cases p) (auto simp: params_get_def)
qed

section \<open>Base64\<close>

type_synonym byte = "8 word"

definition b64_char :: "nat \<Rightarrow> char" where
  "b64_char n =
     (if n < 26 then char_of (65 + n)
      else if n < 52 then char_of (71 + n)
      else if n < 62 then char_of (n - 4)
      else if n = 62 then CHR ''+''
      else CHR ''/'')"

text \<open>The digit of a character, in either alphabet.\<close>

definition b64_value :: "char \<Rightarrow> nat option" where
  "b64_value c =
     (if is_upper c then Some (code_of c - 65)
      else if is_lower c then Some (code_of c - 71)
      else if is_digit c then Some (code_of c + 4)
      else if c = CHR ''+'' \<or> c = CHR ''-'' then Some 62
      else if c = CHR ''/'' \<or> c = CHR ''_'' then Some 63
      else None)"

text \<open>\<open>btoa\<close> of a binary string.\<close>

fun btoa :: "string \<Rightarrow> string" where
  "btoa [] = []"
| "btoa [a] =
     [b64_char (code_of a div 4), b64_char (code_of a mod 4 * 16), CHR ''='', CHR ''='']"
| "btoa [a, b] =
     [b64_char (code_of a div 4), b64_char (code_of a mod 4 * 16 + code_of b div 16),
      b64_char (code_of b mod 16 * 4), CHR ''='']"
| "btoa (a # b # c # cs) =
     b64_char (code_of a div 4) # b64_char (code_of a mod 4 * 16 + code_of b div 16) #
     b64_char (code_of b mod 16 * 4 + code_of c div 64) # b64_char (code_of c mod 64) # btoa cs"

text \<open>
  \<open>Buffer.from(s, "base64url")\<close>: both alphabets, other characters skipped, the first \<open>=\<close> ends the
  input, and a last group of one digit is dropped.
\<close>

fun b64_groups :: "nat list \<Rightarrow> byte list" where
  "b64_groups (a # b # c # d # ds) =
     of_nat (a * 4 + b div 16) # of_nat (b mod 16 * 16 + c div 4) # of_nat (c mod 4 * 64 + d) #
     b64_groups ds"
| "b64_groups [a, b, c] = [of_nat (a * 4 + b div 16), of_nat (b mod 16 * 16 + c div 4)]"
| "b64_groups [a, b] = [of_nat (a * 4 + b div 16)]"
| "b64_groups _ = []"

definition b64_digits :: "string \<Rightarrow> nat list" where
  "b64_digits s = List.map_filter b64_value (takeWhile (\<lambda>c. c \<noteq> CHR ''='') s)"

definition buffer_from_base64url :: "string \<Rightarrow> byte list" where
  "buffer_from_base64url s = b64_groups (b64_digits s)"

end
