(* ===== verification/ApiTypes.thy ===== *)
theory ApiTypes
  imports Prelude Complex_Main
begin

text \<open>
  The types of \<open>web/src/lib/types.ts\<close>: one record per interface, its fields prefixed by the
  interface's initials, one datatype per union of string literals with the literal of each
  constructor. A field \<open>T | null\<close> is \<open>T option\<close> (None is null), \<open>x?: T\<close> is \<open>T option\<close> (None is absent),
  and \<open>x?: T | null\<close> is \<open>T jsopt\<close>. Dates are the ISO strings of the wire; the numbers are whole, but
  for the success rate.
\<close>

section \<open>Unions of literals\<close>

datatype role = JAS_Developer | JAS_Staff | JAS_Faculty

fun role_text :: "role \<Rightarrow> string" where
  "role_text JAS_Developer = ''JAS_Developer''"
| "role_text JAS_Staff = ''JAS-Staff''"
| "role_text JAS_Faculty = ''JAS-Faculty''"

datatype env_type = Production | Staging | Preview

fun env_type_text :: "env_type \<Rightarrow> string" where
  "env_type_text Production = ''production''"
| "env_type_text Staging = ''staging''"
| "env_type_text Preview = ''preview''"

datatype secret_scope = ScopeProject | ScopeProduction | ScopeStaging | ScopePreview

fun secret_scope_text :: "secret_scope \<Rightarrow> string" where
  "secret_scope_text ScopeProject = ''project''"
| "secret_scope_text ScopeProduction = ''production''"
| "secret_scope_text ScopeStaging = ''staging''"
| "secret_scope_text ScopePreview = ''preview''"

datatype direction = Egress | Ingress

fun direction_text :: "direction \<Rightarrow> string" where
  "direction_text Egress = ''egress''"
| "direction_text Ingress = ''ingress''"

datatype protocol = Tcp | Udp | Icmp | AnyProtocol

fun protocol_text :: "protocol \<Rightarrow> string" where
  "protocol_text Tcp = ''tcp''"
| "protocol_text Udp = ''udp''"
| "protocol_text Icmp = ''icmp''"
| "protocol_text AnyProtocol = ''any''"

datatype policy_action = Allow | Deny

fun policy_action_text :: "policy_action \<Rightarrow> string" where
  "policy_action_text Allow = ''allow''"
| "policy_action_text Deny = ''deny''"

section \<open>Listings\<close>

text \<open>The shape \<open>{ items: T[]; total: number }\<close> that every list response has.\<close>

record 'a listing =
  ls_items :: "'a list"
  ls_total :: "int"

section \<open>Auth\<close>

record login_request =
  lr_username :: "string"
  lr_password :: "string"

record token_response =
  tk_access_token :: "string"
  tk_token_type :: "string"
  tk_expires_in :: "int"

record user_info =
  ui_id :: "string"
  ui_username :: "string"
  ui_display_name :: "string"
  ui_email :: "string"
  ui_role :: "role"
  ui_github_username :: "string option"
  ui_created_at :: "string"

section \<open>Projects\<close>

record repo =
  rp_id :: "string"
  rp_provider :: "string"
  rp_repo_id :: "string"
  rp_repo_full_name :: "string option"
  rp_default_branch :: "string"
  rp_install_id :: "string option"

record project =
  pj_id :: "string"
  pj_name :: "string"
  pj_slug :: "string"
  pj_repo_url :: "string option"
  pj_owner_id :: "string"
  pj_default_env :: "string"
  pj_auto_deploy :: "bool"
  pj_framework :: "string option"
  pj_root_directory :: "string option"
  pj_build_command :: "string option"
  pj_install_command :: "string option"
  pj_output_directory :: "string option"
  pj_health_check_path :: "string option"
  pj_health_check_timeout :: "int option"
  pj_webhook_url :: "string option"
  pj_deploy_locked :: "bool"
  pj_expires_at :: "string option"
  pj_production_url :: "string option"
  pj_custom_subdomain :: "string option"
  pj_repo :: "repo option"
  pj_created_at :: "string"

record project_create =
  pc_name :: "string"
  pc_slug :: "string"
  pc_repo_url :: "string jsopt"
  pc_default_env :: "string option"
  pc_custom_subdomain :: "string jsopt"

record project_update =
  pu_name :: "string jsopt"
  pu_repo_url :: "string jsopt"
  pu_default_env :: "string jsopt"
  pu_auto_deploy :: "bool jsopt"
  pu_framework :: "string jsopt"
  pu_root_directory :: "string jsopt"
  pu_build_command :: "string jsopt"
  pu_install_command :: "string jsopt"
  pu_output_directory :: "string jsopt"
  pu_health_check_path :: "string jsopt"
  pu_health_check_timeout :: "int jsopt"
  pu_webhook_url :: "string jsopt"
  pu_deploy_locked :: "bool jsopt"
  pu_expires_at :: "string jsopt"
  pu_custom_subdomain :: "string jsopt"

type_synonym project_list_response = "project listing"

section \<open>Project Members\<close>

record project_member =
  pm_id :: "string"
  pm_project_id :: "string"
  pm_user_id :: "string"
  pm_role :: "string"
  pm_username :: "string"
  pm_display_name :: "string"
  pm_email :: "string"
  pm_created_at :: "string"

record project_member_add =
  pma_user_id :: "string"
  pma_role :: "string option"

type_synonym project_member_list_response = "project_member listing"

section \<open>User Search\<close>

record user_search_result =
  us_id :: "string"
  us_username :: "string"
  us_display_name :: "string"
  us_email :: "string"

type_synonym user_search_response = "user_search_result listing"

section \<open>Environments\<close>

record environment =
  ev_id :: "string"
  ev_project_id :: "string"
  ev_name :: "string"
  ev_type :: "env_type"
  ev_vlan_id :: "string option"
  ev_created_at :: "string"

record environment_create =
  ec_name :: "string"
  ec_type :: "env_type"

type_synonym environment_list_response = "environment listing"

section \<open>Builds\<close>

record build =
  bd_id :: "string"
  bd_project_id :: "string"
  bd_commit_sha :: "string"
  bd_image_ref :: "string option"
  bd_status :: "string"
  bd_trigger :: "string"
  bd_branch :: "string option"
  bd_started_at :: "string option"
  bd_finished_at :: "string option"

record build_logs_response =
  bl_build_id :: "string"
  bl_status :: "string"
  bl_logs :: "string option"

type_synonym build_list_response = "build listing"

section \<open>Deploys\<close>

datatype deploy_status =
    Queued
  | Building
  | Artifact_ready
  | Provisioning
  | Healthy
  | Active
  | Stopped
  | Failed
  | Rolled_back
  | Superseded

record deploy =
  dp_id :: "string"
  dp_env_id :: "string"
  dp_artifact_id :: "string option"
  dp_build_id :: "string option"
  dp_commit_sha :: "string option"
  dp_status :: "deploy_status"
  dp_url :: "string option"
  dp_created_at :: "string"
  dp_promoted_at :: "string option"
  dp_is_production :: "bool"
  dp_container_ip :: "string option"
  dp_container_vmid :: "int option"

type_synonym deploy_list_response = "deploy listing"

record deploy_logs_response =
  dl_deploy_id :: "string"
  dl_status :: "string"
  dl_logs :: "string option"

record deploy_trigger_response =
  dt_deploy_id :: "string"
  dt_build_id :: "string"
  dt_artifact_id :: "string"
  dt_env :: "string"
  dt_status :: "string"
  dt_url :: "string option"

section \<open>Secrets\<close>

record secret =
  sc_id :: "string"
  sc_project_id :: "string"
  sc_scope :: "secret_scope"
  sc_key :: "string"
  sc_created_at :: "string"

record secret_create =
  scc_key :: "string"
  scc_value :: "string"
  scc_scope :: "secret_scope option"

type_synonym secret_list_response = "secret listing"

section \<open>Networks / VLANs\<close>

record vlan =
  vl_id :: "string"
  vl_vlan_tag :: "int"
  vl_subnet_cidr :: "string"
  vl_reserved_by_project_id :: "string option"

type_synonym vlan_list_response = "vlan listing"

section \<open>Audit\<close>

record audit_log_entry =
  al_id :: "string"
  al_actor_user_id :: "string option"
  al_action :: "string"
  al_target_type :: "string"
  al_target_id :: "string"
  al_payload :: "string option"
  al_created_at :: "string"

type_synonym audit_log_list_response = "audit_log_entry listing"

section \<open>Queue status\<close>

record queue_status =
  qs_env_id :: "string"
  qs_queued :: "int"
  qs_in_progress :: "int"
  qs_active :: "int"
  qs_max_concurrent :: "int"
  qs_max_queue_size :: "int"

section \<open>GitHub integration\<close>

record github_repo =
  gr_id :: "int"
  gr_full_name :: "string"
  gr_name :: "string"
  gr_private :: "bool"
  gr_default_branch :: "string"
  gr_description :: "string option"
  gr_html_url :: "string"
  gr_install_id :: "int option"

record connect_repo_request =
  cr_install_id :: "int jsopt"
  cr_repo_id :: "int"
  cr_repo_full_name :: "string"
  cr_default_branch :: "string"

section \<open>Quotas\<close>

record quota =
  qt_id :: "string"
  qt_project_id :: "string"
  qt_cpu_limit :: "int"
  qt_ram_limit :: "int"
  qt_disk_limit :: "int"

record quota_with_project =
  qp_id :: "string"
  qp_project_id :: "string"
  qp_project_name :: "string"
  qp_project_slug :: "string"
  qp_owner_username :: "string"
  qp_cpu_limit :: "int"
  qp_ram_limit :: "int"
  qp_disk_limit :: "int"

record quota_update =
  qu_cpu_limit :: "int option"
  qu_ram_limit :: "int option"
  qu_disk_limit :: "int option"

type_synonym quota_list_response = "quota_with_project listing"

section \<open>User management (admin)\<close>

record admin_user =
  au_id :: "string"
  au_username :: "string"
  au_display_name :: "string"
  au_email :: "string"
  au_role :: "string"
  au_github_username :: "string option"
  au_project_count :: "int"
  au_created_at :: "string"

type_synonym admin_user_list_response = "admin_user listing"

record user_role_update =
  uru_role :: "role"

section \<open>Network policies\<close>

record network_policy =
  np_id :: "string"
  np_project_id :: "string"
  np_project_name :: "string option"
  np_name :: "string"
  np_direction :: "direction"
  np_protocol :: "protocol"
  np_port :: "int option"
  np_destination :: "string"
  np_action :: "policy_action"
  np_enabled :: "bool"
  np_created_at :: "string"

record network_policy_create =
  npc_project_id :: "string"
  npc_name :: "string"
  npc_direction :: "direction option"
  npc_protocol :: "protocol option"
  npc_port :: "int jsopt"
  npc_destination :: "string"
  npc_action :: "policy_action option"

record network_policy_update =
  npu_name :: "string option"
  npu_protocol :: "protocol option"
  npu_port :: "int jsopt"
  npu_destination :: "string option"
  npu_action :: "policy_action option"
  npu_enabled :: "bool option"

type_synonym network_policy_list_response = "network_policy listing"

section \<open>Admin dashboard stats\<close>

record admin_stats =
  ast_total_users :: "int"
  ast_total_projects :: "int"
  ast_total_deploys :: "int"
  ast_active_deploys :: "int"
  ast_total_builds :: "int"
  ast_vlans_allocated :: "int"
  ast_vlans_available :: "int"
  ast_total_network_policies :: "int"

section \<open>Admin trends (time-series)\<close>

record trend_point =
  tp_date :: "string"
  tp_deploys :: "int"
  tp_builds :: "int"
  tp_failed_deploys :: "int"
  tp_failed_builds :: "int"

record trend_response =
  tr_points :: "trend_point list"
  tr_period_days :: "int"

section \<open>Admin activity feed\<close>

record activity_event =
  ae_id :: "string"
  ae_type :: "string"
  ae_timestamp :: "string"
  ae_actor_name :: "string option"
  ae_actor_username :: "string option"
  ae_project_name :: "string option"
  ae_project_id :: "string option"
  ae_status :: "string option"
  ae_detail :: "string option"

type_synonym activity_response = "activity_event listing"

section \<open>Admin all-projects listing\<close>

record admin_project_item =
  ap_id :: "string"
  ap_name :: "string"
  ap_slug :: "string"
  ap_owner_id :: "string"
  ap_owner_username :: "string"
  ap_owner_display_name :: "string"
  ap_framework :: "string option"
  ap_repo_url :: "string option"
  ap_repo_full_name :: "string option"
  ap_production_url :: "string option"
  ap_deploy_locked :: "bool"
  ap_expires_at :: "string option"
  ap_created_at :: "string"
  ap_latest_deploy_status :: "string option"
  ap_total_deploys :: "int"
  ap_total_builds :: "int"
  ap_member_count :: "int"
  ap_tags :: "string list"

type_synonym admin_project_list_response = "admin_project_item listing"

section \<open>Student (developer) summaries\<close>

record student_summary =
  ss_id :: "string"
  ss_username :: "string"
  ss_display_name :: "string"
  ss_email :: "string"
  ss_role :: "string"
  ss_github_username :: "string option"
  ss_created_at :: "string"
  ss_project_count :: "int"
  ss_total_builds :: "int"
  ss_total_deploys :: "int"
  ss_active_deploys :: "int"
  ss_last_activity :: "string option"

type_synonym student_list_response = "student_summary listing"

section \<open>Student detail\<close>

record student_detail =
  sd_id :: "string"
  sd_username :: "string"
  sd_display_name :: "string"
  sd_email :: "string"
  sd_role :: "string"
  sd_github_username :: "string option"
  sd_created_at :: "string"
  sd_projects :: "admin_project_item list"
  sd_total_builds :: "int"
  sd_total_deploys :: "int"
  sd_active_deploys :: "int"
  sd_failed_deploys :: "int"
  sd_success_rate :: "rat"
  sd_last_activity :: "string option"

section \<open>Templates\<close>

record template =
  tm_id :: "string"
  tm_name :: "string"
  tm_slug :: "string"
  tm_description :: "string"
  tm_framework :: "string"
  tm_github_owner :: "string"
  tm_github_repo :: "string"
  tm_icon_url :: "string option"
  tm_tags :: "string list"
  tm_sort_order :: "int"
  tm_active :: "bool"
  tm_created_at :: "string"

type_synonym template_list_response = "template listing"

record template_deploy_request =
  tdr_repo_name :: "string"
  tdr_description :: "string option"
  tdr_private :: "bool option"

record template_deploy_response =
  tds_project_id :: "string"
  tds_project_slug :: "string"
  tds_repo_full_name :: "string"
  tds_repo_html_url :: "string"
  tds_build_id :: "string option"
  tds_message :: "string"

section \<open>Finite enumerations and the texts of the unions\<close>

instantiation role :: enum
begin

definition enum_role :: "role list" where
  "enum_role = [JAS_Developer, JAS_Staff, JAS_Faculty]"

definition enum_all_role :: "(role \<Rightarrow> bool) \<Rightarrow> bool" where
  "enum_all_role P = (P JAS_Developer \<and> P JAS_Staff \<and> P JAS_Faculty)"

definition enum_ex_role :: "(role \<Rightarrow> bool) \<Rightarrow> bool" where
  "enum_ex_role P = (P JAS_Developer \<or> P JAS_Staff \<or> P JAS_Faculty)"

instance
proof
  show univ: "(UNIV :: role set) = set enum_class.enum"
    by (auto simp: enum_role_def) (metis role.exhaust)
  show "distinct (enum_class.enum :: role list)"
    by (simp add: enum_role_def)
  show "enum_class.enum_all P = Ball UNIV P" for P :: "role \<Rightarrow> bool"
    by (auto simp: enum_all_role_def) (metis role.exhaust)
  show "enum_class.enum_ex P = Bex UNIV P" for P :: "role \<Rightarrow> bool"
    by (auto simp: enum_ex_role_def) (metis role.exhaust)
qed

end

instantiation deploy_status :: enum
begin

definition enum_deploy_status :: "deploy_status list" where
  "enum_deploy_status =
     [Queued, Building, Artifact_ready, Provisioning, Healthy, Active, Stopped, Failed,
      Rolled_back, Superseded]"

definition enum_all_deploy_status :: "(deploy_status \<Rightarrow> bool) \<Rightarrow> bool" where
  "enum_all_deploy_status P = list_all P enum_class.enum"

definition enum_ex_deploy_status :: "(deploy_status \<Rightarrow> bool) \<Rightarrow> bool" where
  "enum_ex_deploy_status P = list_ex P enum_class.enum"

instance
proof
  have all: "x \<in> set enum_class.enum" for x :: deploy_status
    by (cases x) (simp_all add: enum_deploy_status_def)
  show "(UNIV :: deploy_status set) = set enum_class.enum"
    using all by auto
  show "distinct (enum_class.enum :: deploy_status list)"
    by (simp add: enum_deploy_status_def)
  show "enum_class.enum_all P = Ball UNIV P" for P :: "deploy_status \<Rightarrow> bool"
    using all by (auto simp: enum_all_deploy_status_def list_all_iff)
  show "enum_class.enum_ex P = Bex UNIV P" for P :: "deploy_status \<Rightarrow> bool"
    using all by (auto simp: enum_ex_deploy_status_def list_ex_iff)
qed

end

lemma all_deploy_status:
  "(\<forall>s. P s) \<longleftrightarrow> P Queued \<and> P Building \<and> P Artifact_ready \<and> P Provisioning \<and> P Healthy \<and>
     P Active \<and> P Stopped \<and> P Failed \<and> P Rolled_back \<and> P Superseded"
proof (intro iffI allI)
  fix s
  assume "P Queued \<and> P Building \<and> P Artifact_ready \<and> P Provisioning \<and> P Healthy \<and>
     P Active \<and> P Stopped \<and> P Failed \<and> P Rolled_back \<and> P Superseded"
  then show "P s" by (cases s) simp_all
qed simp

lemma inj_role_text: "role_text r = role_text r' \<longleftrightarrow> r = r'"
  by (cases r; cases r') simp_all

fun deploy_status_text :: "deploy_status \<Rightarrow> string" where
  "deploy_status_text Queued = ''queued''"
| "deploy_status_text Building = ''building''"
| "deploy_status_text Artifact_ready = ''artifact_ready''"
| "deploy_status_text Provisioning = ''provisioning''"
| "deploy_status_text Healthy = ''healthy''"
| "deploy_status_text Active = ''active''"
| "deploy_status_text Stopped = ''stopped''"
| "deploy_status_text Failed = ''failed''"
| "deploy_status_text Rolled_back = ''rolled_back''"
| "deploy_status_text Superseded = ''superseded''"

end
