(* ===== verification/ApiClient.thy ===== *)
theory ApiClient
  imports Platform Encoding ApiTypes
begin

text \<open>
  The API client of \<open>web/src/lib/api.ts\<close>: the token store, the request wrapper with its error
  handling, the bodies it serialises, and one definition per API method giving the path, the HTTP
  method and the body it sends. The server's answer is a parameter (an HTTP response, or a rejected
  \<open>fetch\<close>).
\<close>

section \<open>The token store\<close>

text \<open>Local storage is a map; \<open>browser\<close> says whether \<open>window\<close> exists (it does not on the server).\<close>

type_synonym storage = "string \<rightharpoonup> string"

definition token_key :: string where
  "token_key = ''tbd_token''"

definition get_token :: "bool \<Rightarrow> storage \<Rightarrow> string option" where
  "get_token browser st = (if \<not> browser then None else st token_key)"

definition set_token :: "string \<Rightarrow> storage \<Rightarrow> storage" where
  "set_token t st = st(token_key \<mapsto> t)"

definition clear_token :: "storage \<Rightarrow> storage" where
  "clear_token st = st(token_key := None)"

section \<open>The request wrapper\<close>

text \<open>What an API method passes to the wrapper: a path, a method and a body.\<close>

datatype http_method = GET | POST | PATCH | DELETE

record api_call =
  ac_path :: string
  ac_method :: http_method
  ac_body :: "json option"

definition call :: "string \<Rightarrow> api_call" where
  "call path = \<lparr>ac_path = path, ac_method = GET, ac_body = None\<rparr>"

definition call_with :: "http_method \<Rightarrow> string \<Rightarrow> json option \<Rightarrow> api_call" where
  "call_with m path body = \<lparr>ac_path = path, ac_method = m, ac_body = body\<rparr>"

record http_request =
  rq_url :: string
  rq_method :: http_method
  rq_headers :: "(string \<times> string) list"
  rq_body :: "string option"

record http_response =
  rs_status :: int
  rs_status_text :: string
  rs_json :: "json outcome"

text \<open>\<open>process.env.NEXT_PUBLIC_API_URL ?? "/api"\<close>\<close>

definition api_base :: "string option \<Rightarrow> string" where
  "api_base env = (case env of None \<Rightarrow> ''/api'' | Some u \<Rightarrow> u)"

definition rs_ok :: "http_response \<Rightarrow> bool" where
  "rs_ok res = (200 \<le> rs_status res \<and> rs_status res \<le> 299)"

text \<open>The headers object: no caller passes headers of its own; a non-empty token adds the last one.\<close>

definition request_headers :: "string option \<Rightarrow> (string \<times> string) list" where
  "request_headers token =
     (let headers = [(''Content-Type'', ''application/json'')]
      in case token of
           None \<Rightarrow> headers
         | Some t \<Rightarrow> if truthy t then params_set headers ''Authorization'' (''Bearer '' @ t)
                     else headers)"

definition build_request :: "string option \<Rightarrow> string option \<Rightarrow> api_call \<Rightarrow> http_request" where
  "build_request env token c =
     \<lparr>rq_url = api_base env @ ac_path c, rq_method = ac_method c,
      rq_headers = request_headers token, rq_body = map_option stringify (ac_body c)\<rparr>"

text \<open>
  The detail of an error response: the field \<open>detail\<close> of the body where it is neither absent nor
  null, else the body as text; where the body is no JSON or is null (reading a field of null
  throws inside the same \<open>try\<close>), the status text.
\<close>

definition error_detail :: "http_response \<Rightarrow> json" where
  "error_detail res =
     (case rs_json res of
        Inl _ \<Rightarrow> JStr (rs_status_text res)
      | Inr body \<Rightarrow>
          (if body = JNull then JStr (rs_status_text res)
           else case field body ''detail'' of
                  Some d \<Rightarrow> if d = JNull then JStr (stringify body) else d
                | None \<Rightarrow> JStr (stringify body)))"

definition handle_response :: "http_response \<Rightarrow> json option outcome" where
  "handle_response res =
     (if \<not> rs_ok res then Inl (ApiErr (rs_status res) (error_detail res))
      else if rs_status res = 204 then Inr None
      else (case rs_json res of Inl e \<Rightarrow> Inl e | Inr v \<Rightarrow> Inr (Some v)))"

definition request_result :: "http_response outcome \<Rightarrow> json option outcome" where
  "request_result fetched = (case fetched of Inl e \<Rightarrow> Inl e | Inr res \<Rightarrow> handle_response res)"

section \<open>Request bodies\<close>

text \<open>\<open>JSON.stringify\<close> drops the fields that are undefined and keeps the null ones.\<close>

definition jint :: "int \<Rightarrow> json" where
  "jint n = JNum (show_int n)"

definition fld :: "string \<Rightarrow> json \<Rightarrow> (string \<times> json) list" where
  "fld k v = [(k, v)]"

definition opt_fld :: "string \<Rightarrow> ('a \<Rightarrow> json) \<Rightarrow> 'a option \<Rightarrow> (string \<times> json) list" where
  "opt_fld k f v = (case v of None \<Rightarrow> [] | Some x \<Rightarrow> [(k, f x)])"

definition null_fld :: "string \<Rightarrow> ('a \<Rightarrow> json) \<Rightarrow> 'a option \<Rightarrow> (string \<times> json) list" where
  "null_fld k f v = [(k, case v of None \<Rightarrow> JNull | Some x \<Rightarrow> f x)]"

definition jsopt_fld :: "string \<Rightarrow> ('a \<Rightarrow> json) \<Rightarrow> 'a jsopt \<Rightarrow> (string \<times> json) list" where
  "jsopt_fld k f v =
     (case v of Undefined \<Rightarrow> [] | Null \<Rightarrow> [(k, JNull)] | Defined x \<Rightarrow> [(k, f x)])"

definition login_request_json :: "login_request \<Rightarrow> json" where
  "login_request_json b =
     JObj (fld ''username'' (JStr (lr_username b)) @ fld ''password'' (JStr (lr_password b)))"

definition project_create_json :: "project_create \<Rightarrow> json" where
  "project_create_json b =
     JObj (fld ''name'' (JStr (pc_name b)) @ fld ''slug'' (JStr (pc_slug b)) @
       jsopt_fld ''repo_url'' JStr (pc_repo_url b) @
       opt_fld ''default_env'' JStr (pc_default_env b) @
       jsopt_fld ''custom_subdomain'' JStr (pc_custom_subdomain b))"

definition project_update_json :: "project_update \<Rightarrow> json" where
  "project_update_json b =
     JObj (jsopt_fld ''name'' JStr (pu_name b) @
       jsopt_fld ''repo_url'' JStr (pu_repo_url b) @
       jsopt_fld ''default_env'' JStr (pu_default_env b) @
       jsopt_fld ''auto_deploy'' JBool (pu_auto_deploy b) @
       jsopt_fld ''framework'' JStr (pu_framework b) @
       jsopt_fld ''root_directory'' JStr (pu_root_directory b) @
       jsopt_fld ''build_command'' JStr (pu_build_command b) @
       jsopt_fld ''install_command'' JStr (pu_install_command b) @
       jsopt_fld ''output_directory'' JStr (pu_output_directory b) @
       jsopt_fld ''health_check_path'' JStr (pu_health_check_path b) @
       jsopt_fld ''health_check_timeout'' jint (pu_health_check_timeout b) @
       jsopt_fld ''webhook_url'' JStr (pu_webhook_url b) @
       jsopt_fld ''deploy_locked'' JBool (pu_deploy_locked b) @
       jsopt_fld ''expires_at'' JStr (pu_expires_at b) @
       jsopt_fld ''custom_subdomain'' JStr (pu_custom_subdomain b))"

definition connect_repo_json :: "connect_repo_request \<Rightarrow> json" where
  "connect_repo_json b =
     JObj (jsopt_fld ''install_id'' jint (cr_install_id b) @ fld ''repo_id'' (jint (cr_repo_id b)) @
       fld ''repo_full_name'' (JStr (cr_repo_full_name b)) @
       fld ''default_branch'' (JStr (cr_default_branch b)))"

definition project_member_add_json :: "project_member_add \<Rightarrow> json" where
  "project_member_add_json b =
     JObj (fld ''user_id'' (JStr (pma_user_id b)) @ opt_fld ''role'' JStr (pma_role b))"

definition environment_create_json :: "environment_create \<Rightarrow> json" where
  "environment_create_json b =
     JObj (fld ''name'' (JStr (ec_name b)) @ fld ''type'' (JStr (env_type_text (ec_type b))))"

definition secret_create_json :: "secret_create \<Rightarrow> json" where
  "secret_create_json b =
     JObj (fld ''key'' (JStr (scc_key b)) @ fld ''value'' (JStr (scc_value b)) @
       opt_fld ''scope'' (JStr \<circ> secret_scope_text) (scc_scope b))"

definition template_deploy_json :: "template_deploy_request \<Rightarrow> json" where
  "template_deploy_json b =
     JObj (fld ''repo_name'' (JStr (tdr_repo_name b)) @
       opt_fld ''description'' JStr (tdr_description b) @
       opt_fld ''private'' JBool (tdr_private b))"

definition quota_update_json :: "quota_update \<Rightarrow> json" where
  "quota_update_json b =
     JObj (opt_fld ''cpu_limit'' jint (qu_cpu_limit b) @ opt_fld ''ram_limit'' jint (qu_ram_limit b) @
       opt_fld ''disk_limit'' jint (qu_disk_limit b))"

definition network_policy_create_json :: "network_policy_create \<Rightarrow> json" where
  "network_policy_create_json b =
     JObj (fld ''project_id'' (JStr (npc_project_id b)) @ fld ''name'' (JStr (npc_name b)) @
       opt_fld ''direction'' (JStr \<circ> direction_text) (npc_direction b) @
       opt_fld ''protocol'' (JStr \<circ> protocol_text) (npc_protocol b) @
       jsopt_fld ''port'' jint (npc_port b) @
       fld ''destination'' (JStr (npc_destination b)) @
       opt_fld ''action'' (JStr \<circ> policy_action_text) (npc_action b))"

definition network_policy_update_json :: "network_policy_update \<Rightarrow> json" where
  "network_policy_update_json b =
     JObj (opt_fld ''name'' JStr (npu_name b) @
       opt_fld ''protocol'' (JStr \<circ> protocol_text) (npu_protocol b) @
       jsopt_fld ''port'' jint (npu_port b) @
       opt_fld ''destination'' JStr (npu_destination b) @
       opt_fld ''action'' (JStr \<circ> policy_action_text) (npu_action b) @
       opt_fld ''enabled'' JBool (npu_enabled b))"

section \<open>Methods: accounts and projects\<close>

definition auth_logout :: api_call where
  "auth_logout = call_with POST ''/auth/logout'' None"

definition auth_login :: "login_request \<Rightarrow> api_call" where
  "auth_login b = call_with POST ''/auth/login'' (Some (login_request_json b))"

definition auth_me :: api_call where
  "auth_me = call ''/auth/me''"

definition auth_github_authorize_url :: api_call where
  "auth_github_authorize_url = call ''/auth/github''"

definition auth_github_unlink :: api_call where
  "auth_github_unlink = call_with DELETE ''/auth/github/link'' None"

definition page_query :: "int \<Rightarrow> int \<Rightarrow> string" where
  "page_query skip limit = ''?skip='' @ show_int skip @ ''&limit='' @ show_int limit"

definition projects_list :: "int \<Rightarrow> int \<Rightarrow> api_call" where
  "projects_list skip limit = call (''/projects'' @ page_query skip limit)"

definition project_path :: "string \<Rightarrow> string \<Rightarrow> string" where
  "project_path pid rest = ''/projects/'' @ pid @ rest"

definition projects_get :: "string \<Rightarrow> api_call" where
  "projects_get pid = call (project_path pid '''')"

definition projects_create :: "project_create \<Rightarrow> api_call" where
  "projects_create b = call_with POST ''/projects'' (Some (project_create_json b))"

definition projects_update :: "string \<Rightarrow> project_update \<Rightarrow> api_call" where
  "projects_update pid b = call_with PATCH (project_path pid '''') (Some (project_update_json b))"

definition projects_connect_repo :: "string \<Rightarrow> connect_repo_request \<Rightarrow> api_call" where
  "projects_connect_repo pid b =
     call_with POST (project_path pid ''/repo'') (Some (connect_repo_json b))"

definition projects_disconnect_repo :: "string \<Rightarrow> api_call" where
  "projects_disconnect_repo pid = call_with DELETE (project_path pid ''/repo'') None"

definition projects_delete :: "string \<Rightarrow> api_call" where
  "projects_delete pid = call_with DELETE (project_path pid '''') None"

definition members_list :: "string \<Rightarrow> api_call" where
  "members_list pid = call (project_path pid ''/members'')"

definition members_add :: "string \<Rightarrow> project_member_add \<Rightarrow> api_call" where
  "members_add pid b =
     call_with POST (project_path pid ''/members'') (Some (project_member_add_json b))"

definition members_remove :: "string \<Rightarrow> string \<Rightarrow> api_call" where
  "members_remove pid uid = call_with DELETE (project_path pid (''/members/'' @ uid)) None"

definition users_search :: "string \<Rightarrow> int \<Rightarrow> api_call" where
  "users_search q limit =
     call (''/users/search?q='' @ encode_uri_component q @ ''&limit='' @ show_int limit)"

definition environments_list :: "string \<Rightarrow> api_call" where
  "environments_list pid = call (project_path pid ''/environments'')"

definition environments_create :: "string \<Rightarrow> environment_create \<Rightarrow> api_call" where
  "environments_create pid b =
     call_with POST (project_path pid ''/environments'') (Some (environment_create_json b))"

definition environments_delete :: "string \<Rightarrow> string \<Rightarrow> api_call" where
  "environments_delete pid eid = call_with DELETE (project_path pid (''/environments/'' @ eid)) None"

section \<open>Methods: builds, deploys, secrets, networks\<close>

definition builds_list :: "string \<Rightarrow> int \<Rightarrow> int \<Rightarrow> api_call" where
  "builds_list pid skip limit = call (project_path pid (''/builds'' @ page_query skip limit))"

definition build_path :: "string \<Rightarrow> string \<Rightarrow> string \<Rightarrow> string" where
  "build_path pid bid rest = project_path pid (''/builds/'' @ bid @ rest)"

definition builds_get :: "string \<Rightarrow> string \<Rightarrow> api_call" where
  "builds_get pid bid = call (build_path pid bid '''')"

definition builds_logs :: "string \<Rightarrow> string \<Rightarrow> api_call" where
  "builds_logs pid bid = call (build_path pid bid ''/logs'')"

definition builds_logs_stream_url :: "string option \<Rightarrow> string \<Rightarrow> string \<Rightarrow> string" where
  "builds_logs_stream_url env pid bid = api_base env @ build_path pid bid ''/logs/stream''"

definition builds_trigger :: "string \<Rightarrow> api_call" where
  "builds_trigger pid = call_with POST (project_path pid ''/builds/trigger'') None"

definition builds_deploy :: "string \<Rightarrow> string \<Rightarrow> string \<Rightarrow> api_call" where
  "builds_deploy pid bid env =
     call_with POST (build_path pid bid ''/deploy'') (Some (JObj (fld ''env'' (JStr env))))"

definition deploys_list :: "string \<Rightarrow> int \<Rightarrow> int \<Rightarrow> api_call" where
  "deploys_list pid skip limit = call (project_path pid (''/deploys'' @ page_query skip limit))"

definition deploys_logs :: "string \<Rightarrow> string \<Rightarrow> api_call" where
  "deploys_logs pid did = call (project_path pid (''/deploys/'' @ did @ ''/logs''))"

definition deploys_logs_stream_url :: "string option \<Rightarrow> string \<Rightarrow> string \<Rightarrow> string" where
  "deploys_logs_stream_url env pid did =
     api_base env @ project_path pid (''/deploys/'' @ did @ ''/logs/stream'')"

definition deploys_rollback :: "string \<Rightarrow> string option \<Rightarrow> api_call" where
  "deploys_rollback did reason =
     call_with POST (''/deploys/'' @ did @ ''/rollback'') (Some (JObj (opt_fld ''reason'' JStr reason)))"

definition deploys_promote :: "string \<Rightarrow> api_call" where
  "deploys_promote did = call_with POST (''/deploys/'' @ did @ ''/promote'') None"

definition deploys_destroy :: "string \<Rightarrow> api_call" where
  "deploys_destroy did = call_with DELETE (''/deploys/'' @ did) None"

definition deploys_stop :: "string \<Rightarrow> api_call" where
  "deploys_stop did = call_with POST (''/deploys/'' @ did @ ''/stop'') None"

definition deploys_start :: "string \<Rightarrow> api_call" where
  "deploys_start did = call_with POST (''/deploys/'' @ did @ ''/start'') None"

definition deploys_queue_status :: "string \<Rightarrow> string \<Rightarrow> api_call" where
  "deploys_queue_status pid eid = call (project_path pid (''/environments/'' @ eid @ ''/queue''))"

definition secrets_list :: "string \<Rightarrow> api_call" where
  "secrets_list pid = call (project_path pid ''/secrets'')"

definition secrets_create :: "string \<Rightarrow> secret_create \<Rightarrow> api_call" where
  "secrets_create pid b =
     call_with POST (project_path pid ''/secrets'') (Some (secret_create_json b))"

definition secrets_delete :: "string \<Rightarrow> string \<Rightarrow> api_call" where
  "secrets_delete pid key = call_with DELETE (project_path pid (''/secrets/'' @ key)) None"

definition networks_list_vlans :: api_call where
  "networks_list_vlans = call ''/networks/vlans''"

definition networks_get_project_vlan :: "string \<Rightarrow> api_call" where
  "networks_get_project_vlan pid = call (''/networks/vlans/'' @ pid)"

definition networks_reserve_vlan :: "string \<Rightarrow> api_call" where
  "networks_reserve_vlan pid =
     call_with POST ''/networks/vlans/reserve'' (Some (JObj (fld ''project_id'' (JStr pid))))"

definition networks_release_vlan :: "string \<Rightarrow> api_call" where
  "networks_release_vlan pid = call_with DELETE (''/networks/vlans/'' @ pid) None"

section \<open>Methods with search parameters\<close>

text \<open>\<open>if (params?.n !== undefined) qs.set(...)\<close> and \<open>if (params?.s) qs.set(...)\<close>\<close>

definition qs_num :: "string \<Rightarrow> int option \<Rightarrow> search_params \<Rightarrow> search_params" where
  "qs_num k v qs = (case v of None \<Rightarrow> qs | Some n \<Rightarrow> params_set qs k (show_int n))"

definition qs_str :: "string \<Rightarrow> string option \<Rightarrow> search_params \<Rightarrow> search_params" where
  "qs_str k v qs = (case v of None \<Rightarrow> qs | Some s \<Rightarrow> if truthy s then params_set qs k s else qs)"

record audit_params =
  aq_skip :: "int option"
  aq_limit :: "int option"
  aq_action :: "string option"
  aq_target_type :: "string option"
  aq_actor_user_id :: "string option"
  aq_since :: "string option"

definition audit_list :: "audit_params \<Rightarrow> api_call" where
  "audit_list p =
     (let qs = qs_num ''skip'' (aq_skip p) [];
          qs = qs_num ''limit'' (aq_limit p) qs;
          qs = qs_str ''action'' (aq_action p) qs;
          qs = qs_str ''target_type'' (aq_target_type p) qs;
          qs = qs_str ''actor_user_id'' (aq_actor_user_id p) qs;
          qs = qs_str ''since'' (aq_since p) qs
      in call (''/audits?'' @ params_to_string qs))"

definition github_list_repos :: api_call where
  "github_list_repos = call ''/auth/github/repos''"

definition templates_list :: api_call where
  "templates_list = call ''/templates''"

definition templates_get :: "string \<Rightarrow> api_call" where
  "templates_get slug = call (''/templates/'' @ slug)"

definition templates_deploy :: "string \<Rightarrow> template_deploy_request \<Rightarrow> api_call" where
  "templates_deploy slug b =
     call_with POST (''/templates/'' @ slug @ ''/deploy'') (Some (template_deploy_json b))"

section \<open>Methods: administration\<close>

definition admin_stats :: api_call where
  "admin_stats = call ''/admin/stats''"

definition admin_trends :: "int \<Rightarrow> api_call" where
  "admin_trends days = call (''/admin/stats/trends?days='' @ show_int days)"

definition admin_activity :: "int \<Rightarrow> api_call" where
  "admin_activity limit = call (''/admin/activity?limit='' @ show_int limit)"

text \<open>The parameters of the administration listings; each listing uses the fields of its interface.\<close>

record admin_params =
  q_skip :: "int option"
  q_limit :: "int option"
  q_search :: "string option"
  q_status :: "string option"
  q_tag :: "string option"
  q_sort :: "string option"
  q_order :: "string option"
  q_role :: "string option"
  q_project_id :: "string option"
  q_direction :: "string option"

definition no_params :: admin_params where
  "no_params =
     \<lparr>q_skip = None, q_limit = None, q_search = None, q_status = None, q_tag = None,
      q_sort = None, q_order = None, q_role = None, q_project_id = None, q_direction = None\<rparr>"

definition admin_projects :: "admin_params \<Rightarrow> api_call" where
  "admin_projects p =
     (let qs = qs_num ''skip'' (q_skip p) [];
          qs = qs_num ''limit'' (q_limit p) qs;
          qs = qs_str ''search'' (q_search p) qs;
          qs = qs_str ''status'' (q_status p) qs;
          qs = qs_str ''tag'' (q_tag p) qs;
          qs = qs_str ''sort'' (q_sort p) qs;
          qs = qs_str ''order'' (q_order p) qs
      in call (''/admin/projects?'' @ params_to_string qs))"

definition students_list :: "admin_params \<Rightarrow> api_call" where
  "students_list p =
     (let qs = qs_num ''skip'' (q_skip p) [];
          qs = qs_num ''limit'' (q_limit p) qs;
          qs = qs_str ''search'' (q_search p) qs;
          qs = qs_str ''sort'' (q_sort p) qs;
          qs = qs_str ''order'' (q_order p) qs
      in call (''/admin/students?'' @ params_to_string qs))"

definition students_get :: "string \<Rightarrow> api_call" where
  "students_get uid = call (''/admin/students/'' @ uid)"

definition quotas_list :: "admin_params \<Rightarrow> api_call" where
  "quotas_list p =
     (let qs = qs_num ''skip'' (q_skip p) [];
          qs = qs_num ''limit'' (q_limit p) qs;
          qs = qs_str ''search'' (q_search p) qs
      in call (''/admin/quotas?'' @ params_to_string qs))"

definition quotas_get :: "string \<Rightarrow> api_call" where
  "quotas_get pid = call (''/admin/quotas/'' @ pid)"

definition quotas_update :: "string \<Rightarrow> quota_update \<Rightarrow> api_call" where
  "quotas_update pid b =
     call_with PATCH (''/admin/quotas/'' @ pid) (Some (quota_update_json b))"

definition admin_users_list :: "admin_params \<Rightarrow> api_call" where
  "admin_users_list p =
     (let qs = qs_num ''skip'' (q_skip p) [];
          qs = qs_num ''limit'' (q_limit p) qs;
          qs = qs_str ''search'' (q_search p) qs;
          qs = qs_str ''role'' (q_role p) qs
      in call (''/admin/users?'' @ params_to_string qs))"

definition admin_users_get :: "string \<Rightarrow> api_call" where
  "admin_users_get uid = call (''/admin/users/'' @ uid)"

definition admin_users_update_role :: "string \<Rightarrow> string \<Rightarrow> api_call" where
  "admin_users_update_role uid r =
     call_with PATCH (''/admin/users/'' @ uid @ ''/role'') (Some (JObj (fld ''role'' (JStr r))))"

definition network_policies_list :: "admin_params \<Rightarrow> api_call" where
  "network_policies_list p =
     (let qs = qs_num ''skip'' (q_skip p) [];
          qs = qs_num ''limit'' (q_limit p) qs;
          qs = qs_str ''project_id'' (q_project_id p) qs;
          qs = qs_str ''direction'' (q_direction p) qs
      in call (''/admin/network-policies?'' @ params_to_string qs))"

definition network_policies_create :: "network_policy_create \<Rightarrow> api_call" where
  "network_policies_create b =
     call_with POST ''/admin/network-policies'' (Some (network_policy_create_json b))"

definition network_policies_update :: "string \<Rightarrow> network_policy_update \<Rightarrow> api_call" where
  "network_policies_update nid b =
     call_with PATCH (''/admin/network-policies/'' @ nid) (Some (network_policy_update_json b))"

definition network_policies_delete :: "string \<Rightarrow> api_call" where
  "network_policies_delete nid = call_with DELETE (''/admin/network-policies/'' @ nid) None"

section \<open>What the wrapper guarantees\<close>

lemma error_detail_not_null: "error_detail res \<noteq> JNull"
  by (auto simp: error_detail_def split: sum.splits option.splits)

lemma handle_response_Inr:
  "(\<exists>v. handle_response res = Inr v) \<longleftrightarrow>
   rs_ok res \<and> (rs_status res = 204 \<or> (\<exists>j. rs_json res = Inr j))"
  by (auto simp: handle_response_def split: sum.splits)

lemma handle_response_error:
  "\<not> rs_ok res \<Longrightarrow> handle_response res = Inl (ApiErr (rs_status res) (error_detail res))"
  by (simp add: handle_response_def)

text \<open>
  C24: a call fails with an API error exactly when the server answered outside the 2xx range; the
  error carries that status and a detail that is never null.
\<close>

theorem request_result_api_error:
  assumes "\<forall>e. fetched = Inl e \<longrightarrow> (\<forall>st d. e \<noteq> ApiErr st d)"
    and "\<forall>res e. fetched = Inr res \<longrightarrow> rs_json res = Inl e \<longrightarrow> (\<forall>st d. e \<noteq> ApiErr st d)"
  shows "request_result fetched = Inl (ApiErr st d) \<longleftrightarrow>
    (\<exists>res. fetched = Inr res \<and> \<not> rs_ok res \<and> st = rs_status res \<and> d = error_detail res \<and> d \<noteq> JNull)"
proof (cases fetched)
  case (Inl e)
  with assms(1) show ?thesis by (auto simp: request_result_def)
next
  case (Inr res)
  with assms(2) show ?thesis
    by (auto simp: request_result_def handle_response_def error_detail_not_null split: sum.splits)
qed

definition sample_failure :: http_response where
  "sample_failure =
     \<lparr>rs_status = 404, rs_status_text = ''Not Found'',
      rs_json = Inr (JObj [(''detail'', JStr ''Project not found'')])\<rparr>"

theorem request_result_api_error_witness:
  "request_result (Inr sample_failure) = Inl (ApiErr 404 (JStr ''Project not found''))"
proof -
  have d: "error_detail sample_failure = JStr ''Project not found''"
    by (simp add: error_detail_def sample_failure_def field_def)
  have "request_result (Inr sample_failure) = Inl (ApiErr 404 (error_detail sample_failure))"
    by (subst request_result_api_error)
       (auto simp: sample_failure_def rs_ok_def error_detail_def field_def)
  with d show ?thesis by simp
qed

text \<open>
  Every request names the JSON content type, and carries the bearer header exactly when a
  non-empty token is stored; no other header is ever sent.
\<close>

lemma build_request_headers:
  "params_get (rq_headers (build_request env token c)) ''Content-Type'' = Some ''application/json'' \<and>
   params_get (rq_headers (build_request env token c)) ''Authorization'' =
     (case token of None \<Rightarrow> None | Some t \<Rightarrow> if t = [] then None else Some (''Bearer '' @ t)) \<and>
   fst ` set (rq_headers (build_request env token c)) \<subseteq> {''Content-Type'', ''Authorization''}"
  by (simp add: build_request_def request_headers_def params_get_def truthy_def split: option.split)

lemma params_set_fresh: "k \<notin> fst ` set ps \<Longrightarrow> params_set ps k v = ps @ [(k, v)]"
  by (induction ps k v rule: params_set.induct) auto

text \<open>The parameters that a caller gave: whole numbers where present, strings where not empty.\<close>

definition given_num :: "string \<Rightarrow> int option \<Rightarrow> search_params" where
  "given_num k v = (case v of None \<Rightarrow> [] | Some n \<Rightarrow> [(k, show_int n)])"

definition given_str :: "string \<Rightarrow> string option \<Rightarrow> search_params" where
  "given_str k v = (case v of None \<Rightarrow> [] | Some s \<Rightarrow> if s = [] then [] else [(k, s)])"

lemma qs_num_fresh: "k \<notin> fst ` set qs \<Longrightarrow> qs_num k v qs = qs @ given_num k v"
  by (simp add: qs_num_def given_num_def params_set_fresh split: option.split)

lemma qs_str_fresh: "k \<notin> fst ` set qs \<Longrightarrow> qs_str k v qs = qs @ given_str k v"
  by (simp add: qs_str_def given_str_def params_set_fresh truthy_def split: option.split)

lemma fst_given [simp]:
  "fst ` set (given_num k v) = (if v = None then {} else {k})"
  "fst ` set (given_str k w) = (if w = None \<or> w = Some [] then {} else {k})"
  by (cases v; simp add: given_num_def) (cases w; simp add: given_str_def)

text \<open>The query of a path, as the server reads it.\<close>

definition query_of :: "string \<Rightarrow> string" where
  "query_of path = snd (split_first (CHR ''?'') path)"

lemma query_of_append [simp]: "CHR ''?'' \<notin> set p \<Longrightarrow> query_of (p @ CHR ''?'' # q) = q"
  by (simp add: query_of_def split_first_append)

lemmas listing_query = qs_num_fresh qs_str_fresh image_Un call_def query_of_def

text \<open>
  The server reads back from the query of an audit listing exactly the parameters given, in
  order: numbers where present, strings where non-empty, whatever characters they contain.
\<close>

lemma audit_list_query:
  "parse_params (query_of (ac_path (audit_list p))) =
     given_num ''skip'' (aq_skip p) @ given_num ''limit'' (aq_limit p) @
     given_str ''action'' (aq_action p) @ given_str ''target_type'' (aq_target_type p) @
     given_str ''actor_user_id'' (aq_actor_user_id p) @ given_str ''since'' (aq_since p)"
  by (simp add: audit_list_def Let_def listing_query parse_params_to_string)

lemma admin_projects_query:
  "parse_params (query_of (ac_path (admin_projects p))) =
     given_num ''skip'' (q_skip p) @ given_num ''limit'' (q_limit p) @
     given_str ''search'' (q_search p) @ given_str ''status'' (q_status p) @
     given_str ''tag'' (q_tag p) @ given_str ''sort'' (q_sort p) @ given_str ''order'' (q_order p)"
  by (simp add: admin_projects_def Let_def listing_query parse_params_to_string)

lemma students_list_query:
  "parse_params (query_of (ac_path (students_list p))) =
     given_num ''skip'' (q_skip p) @ given_num ''limit'' (q_limit p) @
     given_str ''search'' (q_search p) @ given_str ''sort'' (q_sort p) @
     given_str ''order'' (q_order p)"
  by (simp add: students_list_def Let_def listing_query parse_params_to_string)

lemma quotas_list_query:
  "parse_params (query_of (ac_path (quotas_list p))) =
     given_num ''skip'' (q_skip p) @ given_num ''limit'' (q_limit p) @
     given_str ''search'' (q_search p)"
  by (simp add: quotas_list_def Let_def listing_query parse_params_to_string)

lemma admin_users_list_query:
  "parse_params (query_of (ac_path (admin_users_list p))) =
     given_num ''skip'' (q_skip p) @ given_num ''limit'' (q_limit p) @
     given_str ''search'' (q_search p) @ given_str ''role'' (q_role p)"
  by (simp add: admin_users_list_def Let_def listing_query parse_params_to_string)

lemma network_policies_list_query:
  "parse_params (query_of (ac_path (network_policies_list p))) =
     given_num ''skip'' (q_skip p) @ given_num ''limit'' (q_limit p) @
     given_str ''project_id'' (q_project_id p) @ given_str ''direction'' (q_direction p)"
  by (simp add: network_policies_list_def Let_def listing_query parse_params_to_string)

text \<open>Values that the client writes into a query by hand.\<close>

lemma show_int_chars: "c \<in> set (show_int n) \<Longrightarrow> is_digit c \<or> c = CHR ''-''"
  using show_nat_digits by (auto simp: show_int_def split: if_splits)

lemma form_decode_plain:
  assumes "\<forall>c \<in> set s. c \<noteq> CHR ''%'' \<and> c \<noteq> CHR ''+''"
  shows "form_decode s = s"
  using assms
proof (induction s)
  case Nil
  show ?case by (simp add: form_decode_def)
next
  case (Cons c s)
  then show ?case by (simp add: form_decode_def)
qed

lemma show_int_plain:
  "c \<in> set (show_int n) \<Longrightarrow>
   c \<noteq> CHR ''%'' \<and> c \<noteq> CHR ''+'' \<and> c \<noteq> CHR ''&'' \<and> c \<noteq> CHR ''=''"
  using show_int_chars [of c n] by (auto simp: is_digit_def)

lemma encode_uri_plain:
  "c \<in> set (encode_uri_component s) \<Longrightarrow> c \<noteq> CHR ''+'' \<and> c \<noteq> CHR ''&'' \<and> c \<noteq> CHR ''=''"
  using set_encode_uri [of c s]
  by (auto simp: uri_unreserved_def is_alnum_def is_lower_def is_upper_def is_digit_def)

lemma form_decode_encode_uri: "form_decode (encode_uri_component s) = s"
proof -
  have "map (\<lambda>c. if c = CHR ''+'' then CHR '' '' else c) (encode_uri_component s) =
      encode_uri_component s"
    by (rule map_idI) (auto dest: encode_uri_plain)
  then show ?thesis
    by (simp add: form_decode_def percent_decode_encode_uri)
qed

lemma parse_two_params:
  assumes "CHR ''='' \<notin> set k" and "CHR ''='' \<notin> set l"
    and "CHR ''&'' \<notin> set (k @ a)" and "CHR ''&'' \<notin> set (l @ b)"
  shows "parse_params (k @ CHR ''='' # a @ CHR ''&'' # l @ CHR ''='' # b) =
    [(form_decode k, form_decode a), (form_decode l, form_decode b)]"
proof -
  have "split_on (CHR ''&'') ((k @ CHR ''='' # a) @ CHR ''&'' # (l @ CHR ''='' # b)) =
      [k @ CHR ''='' # a, l @ CHR ''='' # b]"
    using assms(3,4) by (subst split_on_append_sep) (auto intro: split_on_no_sep)
  then show ?thesis
    using assms(1,2) by (simp add: parse_params_def split_first_append)
qed

text \<open>
  A user search reaches the server as typed: whatever the search text contains, the server
  reads it back as the parameter \<open>q\<close>, next to the limit.
\<close>

lemma users_search_query:
  "parse_params (query_of (ac_path (users_search q limit))) =
     [(''q'', q), (''limit'', show_int limit)]"
proof -
  have "parse_params (''q'' @ CHR ''='' # encode_uri_component q @ CHR ''&'' #
      ''limit'' @ CHR ''='' # show_int limit) =
    [(form_decode ''q'', form_decode (encode_uri_component q)),
     (form_decode ''limit'', form_decode (show_int limit))]"
    by (rule parse_two_params) (auto dest: encode_uri_plain show_int_plain)
  moreover have "form_decode (show_int limit) = show_int limit"
    by (rule form_decode_plain) (auto dest: show_int_plain)
  moreover have "form_decode ''q'' = ''q''" and "form_decode ''limit'' = ''limit''"
    by (simp_all add: form_decode_plain)
  ultimately show ?thesis
    by (simp add: users_search_def call_def query_of_def form_decode_encode_uri)
qed

lemma page_query_params:
  "parse_params (query_of (ac_path (projects_list skip limit))) =
     [(''skip'', show_int skip), (''limit'', show_int limit)]"
proof -
  have "parse_params (''skip'' @ CHR ''='' # show_int skip @ CHR ''&'' #
      ''limit'' @ CHR ''='' # show_int limit) =
    [(form_decode ''skip'', form_decode (show_int skip)),
     (form_decode ''limit'', form_decode (show_int limit))]"
    by (rule parse_two_params) (auto dest: show_int_plain)
  moreover have "form_decode (show_int n) = show_int n" for n
    by (rule form_decode_plain) (auto dest: show_int_plain)
  moreover have "form_decode ''skip'' = ''skip''" and "form_decode ''limit'' = ''limit''"
    by (simp_all add: form_decode_plain)
  ultimately show ?thesis
    by (simp add: projects_list_def page_query_def call_def query_of_def)
qed

end
