(* ===== verification/Utils.thy ===== *)
theory Utils
  imports Prelude
begin

text \<open>
  The helpers of \<open>web/src/lib/utils.ts\<close>. The clock, the parser of date strings and the locale
  formatter of the platform are parameters: \<open>parse_date\<close> gives the milliseconds of a date string
  (None is the invalid date, whose arithmetic is NaN).
\<close>

section \<open>Dates\<close>

definition format_date :: "(string \<Rightarrow> string) \<Rightarrow> string option \<Rightarrow> string" where
  "format_date locale_string stamp =
     (case stamp of None \<Rightarrow> mdash | Some s \<Rightarrow> if truthy s then locale_string s else mdash)"

definition time_ago :: "(string \<Rightarrow> int option) \<Rightarrow> int \<Rightarrow> string \<Rightarrow> string" where
  "time_ago parse_date now stamp =
     (case parse_date stamp of
        None \<Rightarrow> ''NaNd ago''
      | Some t \<Rightarrow>
          (let seconds = (now - t) div 1000
           in if seconds < 60 then ''just now''
              else let minutes = seconds div 60
                in if minutes < 60 then show_int minutes @ ''m ago''
                   else let hours = minutes div 60
                     in if hours < 24 then show_int hours @ ''h ago''
                        else let days = hours div 24 in show_int days @ ''d ago''))"

text \<open>
  The relative time is the whole number of minutes, hours or days since the date, in the first
  unit whose count is below the next unit; anything under a minute, and any date in the future, is
  "just now".
\<close>

lemma time_ago_units:
  assumes "parse_date stamp = Some t" and "s = (now - t) div 1000"
  shows "time_ago parse_date now stamp =
    (if s < 60 then ''just now''
     else if s < 3600 then show_int (s div 60) @ ''m ago''
     else if s < 86400 then show_int (s div 3600) @ ''h ago''
     else show_int (s div 86400) @ ''d ago'')"
proof -
  have "s div 60 div 60 = s div 3600" and "s div 60 div 60 div 24 = s div 86400"
    by (simp_all add: zdiv_zmult2_eq [symmetric])
  moreover have "s div 60 < 60 \<longleftrightarrow> s < 3600" and "s div 3600 < 24 \<longleftrightarrow> s < 86400"
    by linarith+
  ultimately show ?thesis
    using assms by (simp add: time_ago_def Let_def)
qed

section \<open>Slugs\<close>

definition slug_char :: "char \<Rightarrow> bool" where
  "slug_char c = (is_lower c \<or> is_digit c)"

text \<open>\<open>.replace(/[^a-z0-9]+/g, "-")\<close>\<close>

function collapse :: "string \<Rightarrow> string" where
  "collapse [] = []"
| "collapse (c # cs) =
     (if slug_char c then c # collapse cs
      else CHR ''-'' # collapse (dropWhile (\<lambda>x. \<not> slug_char x) cs))"
  by pat_completeness auto
termination
  by (relation "measure length") (auto simp: le_imp_less_Suc length_dropWhile_le)

text \<open>\<open>.replace(/^-|-$/g, "")\<close>: one dash at each end; a single dash is both and goes once.\<close>

definition strip_dashes :: "string \<Rightarrow> string" where
  "strip_dashes s =
     (let t = (case s of c # cs \<Rightarrow> if c = CHR ''-'' then cs else s | [] \<Rightarrow> [])
      in if t \<noteq> [] \<and> last t = CHR ''-'' then butlast t else t)"

definition slugify :: "string \<Rightarrow> string" where
  "slugify name = strip_dashes (collapse (to_lower name))"

fun no_double_dash :: "string \<Rightarrow> bool" where
  "no_double_dash (a # b # cs) = (\<not> (a = CHR ''-'' \<and> b = CHR ''-'') \<and> no_double_dash (b # cs))"
| "no_double_dash _ = True"

definition is_slug :: "string \<Rightarrow> bool" where
  "is_slug s =
     ((\<forall>c \<in> set s. slug_char c \<or> c = CHR ''-'') \<and> no_double_dash s \<and>
      (s = [] \<or> hd s \<noteq> CHR ''-'' \<and> last s \<noteq> CHR ''-''))"

lemma slug_char_not_dash [simp]: "\<not> slug_char (CHR ''-'')"
  by (simp add: slug_char_def is_lower_def is_digit_def)

lemma collapse_chars: "\<forall>c \<in> set (collapse s). slug_char c \<or> c = CHR ''-''"
  by (induction s rule: collapse.induct) auto

lemma hd_collapse_dropWhile:
  "collapse (dropWhile (\<lambda>x. \<not> slug_char x) s) \<noteq> [] \<Longrightarrow>
   hd (collapse (dropWhile (\<lambda>x. \<not> slug_char x) s)) \<noteq> CHR ''-''"
  by (induction s) auto

lemma no_double_dash_Cons:
  "no_double_dash (c # s) = (no_double_dash s \<and> (s = [] \<or> c \<noteq> CHR ''-'' \<or> hd s \<noteq> CHR ''-''))"
  by (cases s) auto

lemma collapse_no_double: "no_double_dash (collapse s)"
  by (induction s rule: collapse.induct)
     (auto simp: no_double_dash_Cons dest: hd_collapse_dropWhile)

lemma no_double_dash_butlast: "no_double_dash s \<Longrightarrow> no_double_dash (butlast s)"
  by (induction s rule: no_double_dash.induct) (auto simp: no_double_dash_Cons neq_Nil_conv)

lemma no_double_dash_last:
  "no_double_dash s \<Longrightarrow> s \<noteq> [] \<Longrightarrow> last s = CHR ''-'' \<Longrightarrow> butlast s \<noteq> [] \<Longrightarrow>
   last (butlast s) \<noteq> CHR ''-''"
  by (induction s rule: no_double_dash.induct) (auto split: if_splits)

lemma trailing_dash_slug:
  assumes "\<forall>c \<in> set t. slug_char c \<or> c = CHR ''-''" and "no_double_dash t"
    and "t = [] \<or> hd t \<noteq> CHR ''-''"
  shows "is_slug (if t \<noteq> [] \<and> last t = CHR ''-'' then butlast t else t)"
proof -
  have "butlast t = [] \<or> hd (butlast t) = hd t"
    by (cases t) auto
  with assms show ?thesis
    by (auto simp: is_slug_def no_double_dash_butlast no_double_dash_last dest: in_set_butlastD)
qed

lemma strip_dashes_slug:
  assumes "\<forall>c \<in> set s. slug_char c \<or> c = CHR ''-''" and "no_double_dash s"
  shows "is_slug (strip_dashes s)"
  unfolding strip_dashes_def Let_def
  by (rule trailing_dash_slug; use assms in \<open>auto simp: no_double_dash_Cons split: list.splits\<close>)

lemma slug_char_lower: "slug_char c \<or> c = CHR ''-'' \<Longrightarrow> lower_char c = c"
  by (auto simp: slug_char_def lower_char_def is_lower_def is_upper_def is_digit_def)

lemma slug_char_plain:
  "slug_char c \<or> c = CHR ''-'' \<Longrightarrow> take 3 (c # s) \<noteq> kelvin \<and> take 2 (c # s) \<noteq> dotted_i"
  by (auto simp: slug_char_def is_lower_def is_digit_def kelvin_def dotted_i_def eq_char_of)

lemma to_lower_slug: "\<forall>c \<in> set s. slug_char c \<or> c = CHR ''-'' \<Longrightarrow> to_lower s = s"
proof (induction s)
  case (Cons c s)
  then have "slug_char c \<or> c = CHR ''-''" by simp
  from slug_char_plain [OF this, of s] slug_char_lower [OF this] Cons show ?case
    by simp
qed simp

lemma collapse_slug:
  "\<forall>c \<in> set s. slug_char c \<or> c = CHR ''-'' \<Longrightarrow> no_double_dash s \<Longrightarrow> collapse s = s"
proof (induction s)
  case (Cons c s)
  then have IH: "collapse s = s" by (simp add: no_double_dash_Cons)
  show ?case
  proof (cases "slug_char c")
    case True
    with IH show ?thesis by simp
  next
    case False
    with Cons.prems have "s = [] \<or> slug_char (hd s)"
      by (cases s) (auto simp: no_double_dash_Cons)
    then have "dropWhile (\<lambda>x. \<not> slug_char x) s = s"
      by (cases s) auto
    with False Cons.prems IH show ?thesis by simp
  qed
qed simp

lemma strip_dashes_id: "is_slug s \<Longrightarrow> strip_dashes s = s"
  by (auto simp: is_slug_def strip_dashes_def split: list.splits)

lemma slugify_is_slug: "is_slug (slugify name)"
  unfolding slugify_def by (rule strip_dashes_slug [OF collapse_chars collapse_no_double])

lemma slugify_id: "is_slug s \<Longrightarrow> slugify s = s"
  using to_lower_slug [of s] collapse_slug [of s] strip_dashes_id [of s]
  by (simp add: slugify_def is_slug_def)

text \<open>Letters and digits survive, so a name has an empty slug exactly when it has none.\<close>

lemma collapse_slug_chars: "slug_char c \<Longrightarrow> c \<in> set (collapse s) \<longleftrightarrow> c \<in> set s"
proof (induction s rule: collapse.induct)
  case (2 a cs)
  have "c \<in> set (dropWhile (\<lambda>x. \<not> slug_char x) cs) \<longleftrightarrow> c \<in> set cs"
    using 2(3) by (induction cs) auto
  with 2 show ?case by auto
qed simp

lemma strip_dashes_chars:
  assumes "c \<noteq> CHR ''-''"
  shows "c \<in> set (strip_dashes s) \<longleftrightarrow> c \<in> set s"
proof -
  have last: "c \<in> set (if t \<noteq> [] \<and> last t = CHR ''-'' then butlast t else t) \<longleftrightarrow> c \<in> set t" for t
    using assms by (cases t rule: rev_cases) simp_all
  show ?thesis
  proof (cases s)
    case (Cons x xs)
    show ?thesis unfolding strip_dashes_def Let_def last using Cons assms by simp
  qed (simp add: strip_dashes_def)
qed

lemma slugify_nonempty: "slugify name \<noteq> [] \<longleftrightarrow> (\<exists>c \<in> set (to_lower name). slug_char c)"
proof -
  have "slugify name \<noteq> [] \<longleftrightarrow> (\<exists>c \<in> set (slugify name). slug_char c)"
    using slugify_is_slug [of name] hd_in_set [of "slugify name"] by (fastforce simp: is_slug_def)
  moreover have "c \<in> set (slugify name) \<longleftrightarrow> c \<in> set (to_lower name)" if "slug_char c" for c
  proof -
    from that have "c \<noteq> CHR ''-''" using slug_char_not_dash by blast
    with that show ?thesis by (simp add: slugify_def strip_dashes_chars collapse_slug_chars)
  qed
  ultimately show ?thesis by auto
qed

text \<open>
  The slug of any name is well formed (lower case letters, digits and single dashes between
  them), and a name is its own slug exactly when it is well formed, so slugs are stable.
\<close>

lemma slugify_normal_form:
  "is_slug (slugify name) \<and> (slugify name = name \<longleftrightarrow> is_slug name)"
  using slugify_is_slug [of name] slugify_id [of name] by metis

section \<open>Deploy activity\<close>

text \<open>
  The loop over the days back from now fills the list of buckets and the dictionary from a date to
  the bucket pushed last under it (an index: the dictionary and the list share the bucket object).
  \<open>iso_day i\<close> is the date text of the day \<open>i\<close> days back.
\<close>

record bucket =
  bk_date :: string
  bk_count :: int

fun make_buckets ::
  "(nat \<Rightarrow> string) \<Rightarrow> nat \<Rightarrow> bucket list \<Rightarrow> (string \<rightharpoonup> nat) \<Rightarrow> bucket list \<times> (string \<rightharpoonup> nat)" where
  "make_buckets iso_day 0 buckets bucket_map = (buckets, bucket_map)"
| "make_buckets iso_day (Suc i) buckets bucket_map =
     (let date_str = iso_day i
      in make_buckets iso_day i (buckets @ [\<lparr>bk_date = date_str, bk_count = 0\<rparr>])
           (bucket_map(date_str \<mapsto> length buckets)))"

fun count_deploys ::
  "(string \<rightharpoonup> nat) \<Rightarrow> string list \<Rightarrow> bucket list \<Rightarrow> bucket list" where
  "count_deploys bucket_map [] buckets = buckets"
| "count_deploys bucket_map (created_at # rest) buckets =
     count_deploys bucket_map rest
       (case bucket_map (take 10 created_at) of
          None \<Rightarrow> buckets
        | Some j \<Rightarrow> buckets[j := (buckets ! j)\<lparr>bk_count := bk_count (buckets ! j) + 1\<rparr>])"

definition get_deploy_activity :: "(nat \<Rightarrow> string) \<Rightarrow> string list \<Rightarrow> nat \<Rightarrow> bucket list" where
  "get_deploy_activity iso_day deploys days =
     (let (buckets, bucket_map) = make_buckets iso_day days [] Map.empty
      in count_deploys bucket_map deploys buckets)"

lemma fst_make_buckets:
  "fst (make_buckets iso_day n bs m) =
   bs @ map (\<lambda>i. \<lparr>bk_date = iso_day i, bk_count = 0\<rparr>) (rev [0..<n])"
  by (induction n arbitrary: bs m) (auto simp: Let_def)

lemma snd_make_buckets_other:
  "d \<notin> iso_day ` {..<n} \<Longrightarrow> snd (make_buckets iso_day n bs m) d = m d"
  by (induction n arbitrary: bs m) (auto simp: lessThan_Suc Let_def)

text \<open>The dictionary keeps the bucket that was pushed last under a date, the one of the fewest days back.\<close>

lemma snd_make_buckets:
  assumes "\<forall>j < i. iso_day j \<noteq> iso_day i" and "i < n"
  shows "snd (make_buckets iso_day n bs m) (iso_day i) = Some (length bs + (n - 1 - i))"
  using assms(2)
proof (induction n arbitrary: bs m)
  case (Suc n)
  show ?case
  proof (cases "i = n")
    case True
    with assms(1) have "iso_day n \<notin> iso_day ` {..<n}" by auto
    with True show ?thesis
      by (simp add: snd_make_buckets_other Let_def)
  next
    case False
    with Suc.prems have "i < n" by simp
    from Suc.IH [OF this] this show ?thesis by (simp add: Let_def Suc_diff_Suc)
  qed
qed simp

lemma least_day:
  fixes iso_day :: "nat \<Rightarrow> string" and i :: nat
  obtains k where "k \<le> i" and "iso_day k = iso_day i" and "\<forall>j < k. iso_day j \<noteq> iso_day k"
proof
  let ?k = "LEAST k. iso_day k = iso_day i"
  show eq: "iso_day ?k = iso_day i" by (rule LeastI) simp
  show "?k \<le> i" by (rule Least_le) simp
  show "\<forall>j < ?k. iso_day j \<noteq> iso_day ?k" unfolding eq by (auto dest: not_less_Least)
qed

definition tally :: "string list \<Rightarrow> string \<Rightarrow> int" where
  "tally deploys day = int (length (filter (\<lambda>d. take 10 d = day) deploys))"

lemma length_count_deploys [simp]: "length (count_deploys m ds bs) = length bs"
  by (induction ds arbitrary: bs) (auto split: option.splits)

lemma nth_count_deploys:
  assumes "\<And>d i. m d = Some i \<Longrightarrow> i < length bs \<and> bk_date (bs ! i) = d" and "i < length bs"
  shows "count_deploys m ds bs ! i =
    (bs ! i)\<lparr>bk_count := bk_count (bs ! i) +
      (if m (bk_date (bs ! i)) = Some i then tally ds (bk_date (bs ! i)) else 0)\<rparr>"
  using assms
proof (induction ds arbitrary: bs)
  case Nil
  show ?case by (simp add: tally_def)
next
  case (Cons d ds)
  show ?case
  proof (cases "m (take 10 d)")
    case None
    with Cons.IH [OF Cons.prems] show ?thesis
      by (auto simp: tally_def)
  next
    case (Some j)
    let ?bs = "bs[j := (bs ! j)\<lparr>bk_count := bk_count (bs ! j) + 1\<rparr>]"
    from Some Cons.prems(1) have j: "j < length bs" "bk_date (bs ! j) = take 10 d"
      by auto
    have date: "bk_date (?bs ! k) = bk_date (bs ! k)" if "k < length bs" for k
      using that j(1) by (cases "k = j") auto
    have "k < length ?bs \<and> bk_date (?bs ! k) = d'" if "m d' = Some k" for d' k
      using Cons.prems(1) [OF that] date [of k] by auto
    from Cons.IH [OF this] Cons.prems(2)
    have step: "count_deploys m ds ?bs ! i =
        (?bs ! i)\<lparr>bk_count := bk_count (?bs ! i) +
          (if m (bk_date (?bs ! i)) = Some i then tally ds (bk_date (?bs ! i)) else 0)\<rparr>"
      by simp
    have "m (bk_date (bs ! i)) = Some i \<and> take 10 d = bk_date (bs ! i) \<longleftrightarrow> i = j"
      using Some j by auto
    with step Some j Cons.prems(2) date [of i] show ?thesis
      by (cases "i = j") (auto simp: tally_def)
  qed
qed

lemma deploy_activity_all:
  "get_deploy_activity iso_day deploys days =
    map (\<lambda>i. \<lparr>bk_date = iso_day i,
              bk_count = (if iso_day i \<in> iso_day ` {..<i} then 0 else tally deploys (iso_day i))\<rparr>)
      (rev [0..<days])" (is "_ = map ?bucket _")
proof -
  obtain bs m where mk: "make_buckets iso_day days [] Map.empty = (bs, m)"
    by (cases "make_buckets iso_day days [] Map.empty")
  have bs: "bs = map (\<lambda>i. \<lparr>bk_date = iso_day i, bk_count = 0\<rparr>) (rev [0..<days])"
    using fst_make_buckets [of iso_day days "[]" Map.empty] mk by simp
  have nth: "bs ! i = \<lparr>bk_date = iso_day (days - 1 - i), bk_count = 0\<rparr>" if "i < days" for i
    using that by (simp add: bs rev_nth)
  have len: "length bs = days" by (simp add: bs)
  have least: "m (iso_day k) = Some (days - 1 - k)" if "k < days" and "\<forall>j < k. iso_day j \<noteq> iso_day k" for k
    using snd_make_buckets [OF that(2,1), of "[]" Map.empty] mk by simp
  have m: "i < length bs \<and> bk_date (bs ! i) = d" if "m d = Some i" for d i
  proof (cases "d \<in> iso_day ` {..<days}")
    case True
    then obtain k where "k < days" "d = iso_day k" by auto
    with least_day [of k iso_day] obtain l where "l < days" "d = iso_day l" "\<forall>j < l. iso_day j \<noteq> iso_day l"
      by (metis le_less_trans)
    with that least [of l] nth [of i] show ?thesis by (auto simp: len)
  next
    case False
    then show ?thesis
      using snd_make_buckets_other [OF False, of "[]" Map.empty] mk that by simp
  qed
  have first: "m (iso_day i) = Some (days - 1 - i) \<longleftrightarrow> iso_day i \<notin> iso_day ` {..<i}" if "i < days" for i
  proof
    assume "iso_day i \<notin> iso_day ` {..<i}"
    then have "\<forall>j < i. iso_day j \<noteq> iso_day i" by (metis imageI lessThan_iff)
    then show "m (iso_day i) = Some (days - 1 - i)" by (rule least [OF that])
  next
    assume own: "m (iso_day i) = Some (days - 1 - i)"
    obtain l where l: "l \<le> i" "iso_day l = iso_day i" "\<forall>j < l. iso_day j \<noteq> iso_day l"
      using least_day .
    with own least [of l] that have "l = i" by auto
    with l(3) show "iso_day i \<notin> iso_day ` {..<i}" by auto
  qed
  have "get_deploy_activity iso_day deploys days = count_deploys m deploys bs"
    by (simp add: get_deploy_activity_def mk)
  also have "\<dots> = map ?bucket (rev [0..<days])"
  proof (rule nth_equalityI)
    show "length (count_deploys m deploys bs) = length (map ?bucket (rev [0..<days]))"
      using len by simp
    fix i
    assume "i < length (count_deploys m deploys bs)"
    then have i: "i < days" using len by simp
    have "count_deploys m deploys bs ! i =
        (bs ! i)\<lparr>bk_count := bk_count (bs ! i) +
          (if m (bk_date (bs ! i)) = Some i then tally deploys (bk_date (bs ! i)) else 0)\<rparr>"
      using nth_count_deploys [OF m] i len by simp
    then show "count_deploys m deploys bs ! i = map ?bucket (rev [0..<days]) ! i"
      using i first [of "days - 1 - i"] by (simp add: nth rev_nth)
  qed
  finally show ?thesis .
qed

lemma deploy_activity_buckets:
  assumes "inj_on iso_day {..<days}"
  shows "get_deploy_activity iso_day deploys days =
    map (\<lambda>i. \<lparr>bk_date = iso_day i, bk_count = tally deploys (iso_day i)\<rparr>) (rev [0..<days])"
  unfolding deploy_activity_all
  by (rule map_cong) (auto dest: inj_onD [OF assms])

text \<open>
  C30: the activity is one bucket per day, oldest first, each counting the deploys created on that day;
  deploys outside the window are in no bucket. Should several days back have one date, as they can where
  the local clock was changed, the latest of these buckets counts for all of them.
\<close>

theorem get_deploy_activity_spec:
  "get_deploy_activity iso_day deploys days =
    map (\<lambda>i. \<lparr>bk_date = iso_day i,
              bk_count = (if iso_day i \<in> iso_day ` {..<i} then 0 else tally deploys (iso_day i))\<rparr>)
      (rev [0..<days])"
  by (rule deploy_activity_all)

definition sample_day :: "nat \<Rightarrow> string" where
  "sample_day i = (if i = 0 then ''2026-01-03'' else ''2026-01-02'')"

lemma deploy_activity_run:
  "get_deploy_activity sample_day [''2026-01-03T10:00:00Z'', ''2025-12-31T10:00:00Z''] 3 =
   [\<lparr>bk_date = ''2026-01-02'', bk_count = 0\<rparr>, \<lparr>bk_date = ''2026-01-02'', bk_count = 0\<rparr>,
    \<lparr>bk_date = ''2026-01-03'', bk_count = 1\<rparr>]"
  by code_simp

end
