(* ===== verification/Sso.thy ===== *)
theory Sso
  imports Platform Encoding
begin

text \<open>
  The server-side helpers of the single sign-on flow, \<open>web/src/lib/sso.ts\<close>: configuration, the public
  origin of a request, the PKCE pair, discovery, the code exchange and the reading of an ID token.
  Environment variables, random bytes, SHA-256, the JSON parser, the parser of absolute origins and
  the answers of the provider are parameters.
\<close>

section \<open>URLs\<close>

record url =
  u_origin :: string
  u_pathname :: string
  u_search :: string

text \<open>
  \<open>new URL(ref, base)\<close> for a reference that begins with a slash and an http or https base. Tabs and
  line ends are dropped; a backslash counts as a slash; two leading slashes (or more) begin another
  authority, whose host ends at the next slash, question mark or hash. The host is kept as written.
  None is the thrown error (an empty authority).
\<close>

definition slash_like :: "char \<Rightarrow> bool" where
  "slash_like c = (c = CHR ''/'' \<or> c = CHR 0x5C)"

definition drop_controls :: "string \<Rightarrow> string" where
  "drop_controls s = filter (\<lambda>c. code_of c \<notin> {9, 10, 13}) s"

definition scheme_of :: "string \<Rightarrow> string" where
  "scheme_of origin = takeWhile (\<lambda>c. c \<noteq> CHR '':'') origin"

definition after_userinfo :: "string \<Rightarrow> string" where
  "after_userinfo authority = rev (takeWhile (\<lambda>c. c \<noteq> CHR ''@'') (rev authority))"

definition split_path :: "string \<Rightarrow> string \<times> string" where
  "split_path s =
     (let s = takeWhile (\<lambda>c. c \<noteq> CHR ''#'') s
      in (takeWhile (\<lambda>c. c \<noteq> CHR ''?'') s, dropWhile (\<lambda>c. c \<noteq> CHR ''?'') s))"

definition url_at :: "string \<Rightarrow> string \<Rightarrow> url" where
  "url_at origin path =
     (let (p, q) = split_path path
      in \<lparr>u_origin = origin, u_pathname = (if p = [] then ''/'' else p), u_search = q\<rparr>)"

definition resolve_ref :: "string \<Rightarrow> string \<Rightarrow> url option" where
  "resolve_ref origin ref =
     (let r = drop_controls ref
      in if 2 \<le> length (takeWhile slash_like r)
         then let rest = dropWhile slash_like r;
                  ends = (\<lambda>c. slash_like c \<or> c = CHR ''?'' \<or> c = CHR ''#'');
                  authority = takeWhile (\<lambda>c. \<not> ends c) rest;
                  host = after_userinfo authority
              in if host = [] then None
                 else Some (url_at (scheme_of origin @ ''://'' @ host) (dropWhile (\<lambda>c. \<not> ends c) rest))
         else Some (url_at origin r))"

section \<open>Configuration\<close>

record sso_env =
  auth_issuer :: "string option"
  oidc_client_id :: "string option"
  oidc_client_secret :: "string option"
  api_internal_url :: "string option"
  next_public_api_url :: "string option"
  sso_public_origin :: "string option"
  node_env :: "string option"

definition or_empty :: "string option \<Rightarrow> string" where
  "or_empty v = (case v of None \<Rightarrow> [] | Some s \<Rightarrow> s)"

definition ISSUER :: "sso_env \<Rightarrow> string" where
  "ISSUER env = strip_trailing (CHR ''/'') (or_empty (auth_issuer env))"

definition CLIENT_ID :: "sso_env \<Rightarrow> string" where
  "CLIENT_ID env = or_empty (oidc_client_id env)"

definition CLIENT_SECRET :: "sso_env \<Rightarrow> string" where
  "CLIENT_SECRET env = or_empty (oidc_client_secret env)"

definition is_http_url :: "string \<Rightarrow> bool" where
  "is_http_url s = (starts_with s ''http://'' \<or> starts_with s ''https://'')"

definition internal_api_base :: "sso_env \<Rightarrow> string" where
  "internal_api_base env =
     (let direct = or_empty (api_internal_url env); pub = or_empty (next_public_api_url env)
      in if truthy direct then strip_trailing (CHR ''/'') direct
         else if is_http_url pub then strip_trailing (CHR ''/'') pub
         else ''http://localhost:8000'')"

definition sso_configured :: "sso_env \<Rightarrow> bool" where
  "sso_configured env = (truthy (ISSUER env) \<and> truthy (CLIENT_ID env) \<and> truthy (CLIENT_SECRET env))"

section \<open>The public origin of a request\<close>

text \<open>A request is its parsed URL and its headers; \<open>parse_origin\<close> reads an absolute base URL.\<close>

record http_in =
  in_url :: url
  in_headers :: "string \<Rightarrow> string option"

definition first_of_list :: "string option \<Rightarrow> string option" where
  "first_of_list v = (case v of None \<Rightarrow> None | Some s \<Rightarrow> Some (trim (hd (split_on (CHR '','') s))))"

definition request_origin ::
  "(string \<Rightarrow> string option) \<Rightarrow> sso_env \<Rightarrow> http_in \<Rightarrow> url option" where
  "request_origin parse_origin env req =
     (let request_url = in_url req;
          request_path = u_pathname request_url @ u_search request_url;
          configured = or_empty (sso_public_origin env);
          at = (\<lambda>base. case parse_origin base of None \<Rightarrow> None | Some o' \<Rightarrow> resolve_ref o' request_path)
      in if truthy configured then at configured
         else
           let h = in_headers req;
               proto = or_empty (first_of_list (h ''x-forwarded-proto''));
               fwd = or_empty (first_of_list (h ''x-forwarded-host''));
               host = (if truthy fwd then fwd else or_empty (h ''host''))
           in if truthy host \<and> (proto = ''http'' \<or> proto = ''https'')
              then at (proto @ ''://'' @ host)
              else Some request_url)"

section \<open>The PKCE pair\<close>

record pkce_pair =
  pk_verifier :: string
  pk_challenge :: string

text \<open>\<open>String.fromCharCode\<close> over the bytes, \<open>btoa\<close>, and the three replacements.\<close>

definition b64url :: "byte list \<Rightarrow> string" where
  "b64url buffer =
     (let binary = map (\<lambda>w. char_of (unat w)) buffer
      in strip_trailing (CHR ''='')
           (map (\<lambda>c. if c = CHR ''/'' then CHR ''_'' else c)
             (map (\<lambda>c. if c = CHR ''+'' then CHR ''-'' else c) (btoa binary))))"

definition text_bytes :: "string \<Rightarrow> byte list" where
  "text_bytes s = map (\<lambda>c. of_nat (code_of c)) s"

definition bytes_text :: "byte list \<Rightarrow> string" where
  "bytes_text bs = map (\<lambda>w. char_of (unat w)) bs"

definition create_pkce_pair :: "(byte list \<Rightarrow> byte list) \<Rightarrow> byte list \<Rightarrow> pkce_pair" where
  "create_pkce_pair sha256 randoms =
     (let v = b64url randoms; digest = sha256 (text_bytes v)
      in \<lparr>pk_verifier = v, pk_challenge = b64url digest\<rparr>)"

section \<open>Discovery, code exchange, ID token\<close>

definition json_truthy :: "json \<Rightarrow> bool" where
  "json_truthy v =
     (case v of
        JNull \<Rightarrow> False | JBool b \<Rightarrow> b | JNum t \<Rightarrow> t \<noteq> ''0'' | JStr s \<Rightarrow> truthy s
      | JArr _ \<Rightarrow> True | JObj _ \<Rightarrow> True)"

text \<open>An answer of the provider or the API: whether it is ok, its status, and its parsed body.\<close>

record answer =
  an_ok :: bool
  an_status :: int
  an_json :: "json outcome"

definition authorize_endpoint :: "sso_env \<Rightarrow> answer outcome \<Rightarrow> string" where
  "authorize_endpoint env discovery =
     (let fallback = ISSUER env @ ''/auth''
      in case discovery of
           Inl _ \<Rightarrow> fallback
         | Inr res \<Rightarrow>
             (if an_ok res
              then case an_json res of
                     Inl _ \<Rightarrow> fallback
                   | Inr doc \<Rightarrow>
                       (case field doc ''authorization_endpoint'' of
                          Some e \<Rightarrow> if json_truthy e then to_js_string e else fallback
                        | None \<Rightarrow> fallback)
              else fallback))"

record exchange_request =
  xr_url :: string
  xr_authorization :: string
  xr_body :: search_params

definition exchange_code_request ::
  "sso_env \<Rightarrow> string \<Rightarrow> string \<Rightarrow> string \<Rightarrow> exchange_request" where
  "exchange_code_request env code redirect_uri v =
     \<lparr>xr_url = ISSUER env @ ''/token'',
      xr_authorization = ''Basic '' @ btoa (CLIENT_ID env @ '':'' @ CLIENT_SECRET env),
      xr_body = [(''grant_type'', ''authorization_code''), (''code'', code),
        (''redirect_uri'', redirect_uri), (''code_verifier'', v)]\<rparr>"

definition exchange_code_result :: "answer outcome \<Rightarrow> json outcome" where
  "exchange_code_result fetched =
     (case fetched of
        Inl e \<Rightarrow> Inl e
      | Inr res \<Rightarrow>
          (if \<not> an_ok res
           then Inl (JsErr (''token exchange failed ('' @ show_int (an_status res) @ '')''))
           else an_json res))"

definition decode_id_token_claims :: "(string \<Rightarrow> json option) \<Rightarrow> string \<Rightarrow> json option" where
  "decode_id_token_claims json_parse id_token =
     (case split_on (CHR ''.'') id_token of
        _ # payload_b64 # _ \<Rightarrow>
          (if truthy payload_b64
           then case json_parse (bytes_text (buffer_from_base64url payload_b64)) of
                  Some JNull \<Rightarrow> None
                | r \<Rightarrow> r
           else None)
      | _ \<Rightarrow> None)"

section \<open>Base64 of bytes\<close>

text \<open>The six-bit digits of a list of bytes, and the characters of the URL alphabet.\<close>

fun sextets :: "byte list \<Rightarrow> nat list" where
  "sextets [] = []"
| "sextets [a] = [unat a div 4, unat a mod 4 * 16]"
| "sextets [a, b] = [unat a div 4, unat a mod 4 * 16 + unat b div 16, unat b mod 16 * 4]"
| "sextets (a # b # c # bs) =
     unat a div 4 # (unat a mod 4 * 16 + unat b div 16) # (unat b mod 16 * 4 + unat c div 64) #
     (unat c mod 64) # sextets bs"

definition b64url_char :: "nat \<Rightarrow> char" where
  "b64url_char n =
     (let c = b64_char n
      in if c = CHR ''+'' then CHR ''-'' else if c = CHR ''/'' then CHR ''_'' else c)"

lemma unat_byte [simp]: "unat (w :: byte) < 256"
  using unsigned_less [of w, where 'a = nat] by simp

lemma byte_parts [simp]:
  "unat (w :: byte) div 4 < 64" "unat w div 16 < 16" "unat w div 64 < 4"
  using unat_byte [of w] by (simp_all add: less_mult_imp_div_less del: unat_byte)

lemma two_parts: "a < 4 \<Longrightarrow> b < 16 \<Longrightarrow> a * 16 + b < (64 :: nat)"
  "a < 16 \<Longrightarrow> b < 4 \<Longrightarrow> a * 4 + b < (64 :: nat)"
  by linarith+

lemma sextets_less: "\<forall>n \<in> set (sextets bs). n < 64"
  by (induction bs rule: sextets.induct) (auto intro: two_parts)

lemma length_sextets: "length (sextets bs) = (4 * length bs + 2) div 3"
  by (induction bs rule: sextets.induct) auto

lemma code_b64_char:
  assumes "n < 64"
  shows "code_of (b64_char n) =
    (if n < 26 then 65 + n else if n < 52 then 71 + n else if n < 62 then n - 4
     else if n = 62 then 43 else 47)"
  using assms by (simp add: b64_char_def)

lemma code_b64url_char:
  assumes "n < 64"
  shows "code_of (b64url_char n) =
    (if n < 26 then 65 + n else if n < 52 then 71 + n else if n < 62 then n - 4
     else if n = 62 then 45 else 95)"
  using assms code_b64_char [OF assms] by (auto simp: b64url_char_def Let_def char_eq_code)

lemma b64_char_facts:
  assumes "n < 64"
  shows "b64_value (b64url_char n) = Some n" and "b64url_char n \<noteq> CHR ''=''"
    and "b64_char n \<noteq> CHR ''=''"
    and "is_alnum (b64url_char n) \<or> b64url_char n = CHR ''-'' \<or> b64url_char n = CHR ''_''"
proof -
  note c = code_b64_char [OF assms] code_b64url_char [OF assms]
  note classes = b64_value_def is_alnum_def is_upper_def is_lower_def is_digit_def char_eq_code
  consider "n < 26" | "26 \<le> n" "n < 52" | "52 \<le> n" "n < 62" | "n = 62" | "n = 63"
    using assms by linarith
  then have "b64_value (b64url_char n) = Some n \<and>
      (is_alnum (b64url_char n) \<or> b64url_char n = CHR ''-'' \<or> b64url_char n = CHR ''_'')"
    by cases (use c(2) in \<open>auto simp: classes\<close>)
  then show "b64_value (b64url_char n) = Some n"
    and "is_alnum (b64url_char n) \<or> b64url_char n = CHR ''-'' \<or> b64url_char n = CHR ''_''"
    by simp_all
  show "b64url_char n \<noteq> CHR ''=''" and "b64_char n \<noteq> CHR ''=''"
    using assms c unfolding char_eq_code by (auto split: if_splits)
qed

definition b64_pad :: "byte list \<Rightarrow> nat" where
  "b64_pad bs = (3 - length bs mod 3) mod 3"

lemma btoa_sextets:
  "btoa (map (\<lambda>w. char_of (unat w)) bs) =
   map b64_char (sextets bs) @ replicate (b64_pad bs) (CHR ''='')"
  by (induction bs rule: sextets.induct)
     (auto simp: b64_pad_def numeral_2_eq_2 mod_Suc)

lemma strip_trailing_pad: "c \<notin> set s \<Longrightarrow> strip_trailing c (s @ replicate k c) = s"
proof -
  assume c: "c \<notin> set s"
  have "dropWhile (\<lambda>x. x = c) (replicate k c @ t) = dropWhile (\<lambda>x. x = c) t" for t
    by (induction k) auto
  moreover have "dropWhile (\<lambda>x. x = c) (rev s) = rev s"
    using c by (cases s rule: rev_cases) auto
  ultimately show ?thesis by (simp add: strip_trailing_def)
qed

lemma b64url_sextets: "b64url bs = map b64url_char (sextets bs)"
proof -
  let ?r = "(\<lambda>c. if c = CHR ''/'' then CHR ''_'' else c) \<circ> (\<lambda>c. if c = CHR ''+'' then CHR ''-'' else c)"
  have "map ?r (btoa (map (\<lambda>w. char_of (unat w)) bs)) =
      map b64url_char (sextets bs) @ replicate (b64_pad bs) (CHR ''='')"
    by (auto simp: btoa_sextets b64url_char_def Let_def)
  moreover have "CHR ''='' \<notin> set (map b64url_char (sextets bs))"
    using sextets_less [of bs] b64_char_facts(2) by fastforce
  ultimately show ?thesis
    by (simp add: b64url_def strip_trailing_pad)
qed

lemma b64_groups_sextets: "b64_groups (sextets bs) = bs"
  by (induction bs rule: sextets.induct) simp_all

lemma map_filter_all: "\<forall>x \<in> set xs. f (g x) = Some x \<Longrightarrow> List.map_filter f (map g xs) = xs"
  by (induction xs) auto

lemma b64_digits_url: "\<forall>n \<in> set ns. n < 64 \<Longrightarrow> b64_digits (map b64url_char ns) = ns"
  using b64_char_facts(1,2)
  by (simp add: b64_digits_def takeWhile_eq_all_conv [THEN iffD2] map_filter_all)

text \<open>
  C31: the base64url text of any bytes is decoded to the same bytes, so no two verifiers or digests
  share a text.
\<close>

theorem b64url_roundtrip: "buffer_from_base64url (b64url bs) = bs"
  by (simp add: buffer_from_base64url_def b64url_sextets b64_digits_url sextets_less
      b64_groups_sextets)

text \<open>The characters that RFC 7636 allows in a verifier.\<close>

definition pkce_char :: "char \<Rightarrow> bool" where
  "pkce_char c = (is_alnum c \<or> c \<in> set ''-._~'')"

lemma length_b64url: "length (b64url bs) = (4 * length bs + 2) div 3"
  by (simp add: b64url_sextets length_sextets)

lemma pkce_char_b64url: "\<forall>c \<in> set (b64url bs). pkce_char c"
  using sextets_less [of bs] b64_char_facts(4)
  by (fastforce simp: b64url_sextets pkce_char_def)

text \<open>
  From 32 random bytes and a 32-byte digest, the verifier and the challenge have 43 characters
  of the set the PKCE standard allows (its minimum length), and the challenge is the digest of the
  verifier.
\<close>

lemma create_pkce_pair_valid:
  assumes "length randoms = 32" and "\<And>m. length (sha256 m) = 32"
  shows "length (pk_verifier (create_pkce_pair sha256 randoms)) = 43 \<and>
    (\<forall>c \<in> set (pk_verifier (create_pkce_pair sha256 randoms)). pkce_char c) \<and>
    length (pk_challenge (create_pkce_pair sha256 randoms)) = 43 \<and>
    buffer_from_base64url (pk_challenge (create_pkce_pair sha256 randoms)) =
      sha256 (text_bytes (pk_verifier (create_pkce_pair sha256 randoms)))"
  using assms
  by (simp add: create_pkce_pair_def Let_def length_b64url pkce_char_b64url b64url_roundtrip)

lemma create_pkce_pair_valid_witness:
  "length (pk_verifier (create_pkce_pair (\<lambda>_. replicate 32 7) (replicate 32 255))) = 43"
  using create_pkce_pair_valid [of "replicate 32 255" "\<lambda>_. replicate 32 7"] by simp

end
