(* ===== verification/OidcRoutes.thy ===== *)
theory OidcRoutes
  imports Sso ApiClient
begin

text \<open>
  The two route handlers of the sign-on flow, \<open>web/src/app/api/auth/oidc/login/route.ts\<close> and
  \<open>callback/route.ts\<close>: a request becomes a redirect with cookies. The URL passed in is the one that
  \<open>request_origin\<close> computes; the answers of the provider and of the API are parameters.
\<close>

section \<open>Redirects and cookies\<close>

record cookie =
  ck_name :: string
  ck_value :: string
  ck_http_only :: bool
  ck_same_site :: "string option"
  ck_path :: string
  ck_max_age :: int
  ck_secure :: bool

record redirect =
  rd_location :: string
  rd_cookies :: "cookie list"

definition FLOW_COOKIES :: "string list" where
  "FLOW_COOKIES = [''oidc_state'', ''oidc_verifier'', ''oidc_nonce'', ''oidc_redirect'']"

section \<open>The login route\<close>

definition flow_cookie :: "sso_env \<Rightarrow> string \<Rightarrow> string \<Rightarrow> cookie" where
  "flow_cookie env name value =
     \<lparr>ck_name = name, ck_value = value, ck_http_only = True, ck_same_site = Some ''lax'',
      ck_path = ''/'', ck_max_age = 600, ck_secure = (node_env env = Some ''production'')\<rparr>"

text \<open>\<open>url.searchParams\<close>\<close>

definition search_params_of :: "url \<Rightarrow> search_params" where
  "search_params_of u = parse_params (drop 1 (u_search u))"

definition login_redirect_param :: "url \<Rightarrow> string" where
  "login_redirect_param u =
     (let redirect_param = (case params_get (search_params_of u) ''redirect'' of
                              None \<Rightarrow> ''/dashboard'' | Some r \<Rightarrow> r)
      in if starts_with redirect_param ''/'' then redirect_param else ''/dashboard'')"

definition authorize_params :: "sso_env \<Rightarrow> url \<Rightarrow> string \<Rightarrow> string \<Rightarrow> string \<Rightarrow> search_params" where
  "authorize_params env u state nonce challenge =
     [(''response_type'', ''code''),
      (''client_id'', CLIENT_ID env),
      (''redirect_uri'', u_origin u @ ''/api/auth/oidc/callback''),
      (''scope'', ''openid email profile amr groups''),
      (''state'', state),
      (''nonce'', nonce),
      (''code_challenge'', challenge),
      (''code_challenge_method'', ''S256'')]"

definition login_get ::
  "(byte list \<Rightarrow> byte list) \<Rightarrow> sso_env \<Rightarrow> answer outcome \<Rightarrow> url \<Rightarrow> string \<Rightarrow> string \<Rightarrow> byte list \<Rightarrow>
   redirect" where
  "login_get sha256 env discovery u state nonce randoms =
     (let redirect = login_redirect_param u
      in if \<not> sso_configured env
         then \<lparr>rd_location = u_origin u @ ''/login?sso_error=not_configured'', rd_cookies = []\<rparr>
         else
           let pkce = create_pkce_pair sha256 randoms;
               params = authorize_params env u state nonce (pk_challenge pkce)
           in \<lparr>rd_location = authorize_endpoint env discovery @ ''?'' @ params_to_string params,
               rd_cookies =
                 [flow_cookie env ''oidc_state'' state,
                  flow_cookie env ''oidc_verifier'' (pk_verifier pkce),
                  flow_cookie env ''oidc_nonce'' nonce,
                  flow_cookie env ''oidc_redirect'' redirect]\<rparr>)"

section \<open>The callback route\<close>

definition cleared_cookie :: "string \<Rightarrow> cookie" where
  "cleared_cookie name =
     \<lparr>ck_name = name, ck_value = [], ck_http_only = False, ck_same_site = None,
      ck_path = ''/'', ck_max_age = 0, ck_secure = False\<rparr>"

definition cleared_cookies :: "cookie list" where
  "cleared_cookies = map cleared_cookie FLOW_COOKIES"

definition fail :: "url \<Rightarrow> string \<Rightarrow> redirect" where
  "fail u reason =
     \<lparr>rd_location = u_origin u @ ''/login?sso_error='' @ encode_uri_component reason,
      rd_cookies = cleared_cookies\<rparr>"

text \<open>The body of the request that swaps the ID token for a session token.\<close>

definition swap_body :: "json \<Rightarrow> json \<Rightarrow> json" where
  "swap_body id_token tokens =
     JObj (fld ''id_token'' id_token @ opt_fld ''access_token'' (\<lambda>v. v) (field tokens ''access_token''))"

text \<open>A field that is truthy, if there is one.\<close>

definition truthy_field :: "json \<Rightarrow> string \<Rightarrow> json option" where
  "truthy_field v k =
     (case field v k of Some x \<Rightarrow> if json_truthy x then Some x else None | None \<Rightarrow> None)"

definition bridge_fragment :: "string \<Rightarrow> string \<Rightarrow> string" where
  "bridge_fragment access_token redirect =
     ''token='' @ encode_uri_component access_token @ ''&redirect='' @ encode_uri_component redirect"

text \<open>
  The handler up to its result: the reason of the failure, an error that the handler does not catch
  (reading a token of a null answer), or the session token and the path to go on to. \<open>jar\<close> holds the
  cookies of the request, \<open>exchange\<close> answers the code exchange, \<open>swap\<close> answers the API for the body
  with the ID token.
\<close>

datatype callback_result = Failed_with string | Uncaught | Session string string

definition swap_outcome :: "answer outcome \<Rightarrow> string \<Rightarrow> callback_result" where
  "swap_outcome swapped redirect =
     (case swapped of
        Inl _ \<Rightarrow> Failed_with ''exchange_failed''
      | Inr res \<Rightarrow>
          if \<not> an_ok res then Failed_with ''exchange_rejected''
          else
            (case an_json res of
               Inl _ \<Rightarrow> Failed_with ''exchange_failed''
             | Inr data \<Rightarrow>
                 if data = JNull then Failed_with ''exchange_failed''
                 else
                   (case truthy_field data ''access_token'' of
                      None \<Rightarrow> Failed_with ''no_session_token''
                    | Some t \<Rightarrow> Session (to_js_string t) redirect)))"

definition id_token_outcome ::
  "(string \<Rightarrow> json option) \<Rightarrow> (json \<Rightarrow> answer outcome) \<Rightarrow> json \<Rightarrow> string \<Rightarrow> string \<Rightarrow> callback_result" where
  "id_token_outcome json_parse swap tokens nonce redirect =
     (if tokens = JNull then Uncaught
      else
        (case truthy_field tokens ''id_token'' of
           None \<Rightarrow> Failed_with ''missing_id_token''
         | Some id_token \<Rightarrow>
             (case (case id_token of JStr s \<Rightarrow> decode_id_token_claims json_parse s | _ \<Rightarrow> None) of
                None \<Rightarrow> Failed_with ''bad_id_token''
              | Some claims \<Rightarrow>
                  if \<not> json_truthy claims then Failed_with ''bad_id_token''
                  else if truthy nonce \<and> field claims ''nonce'' \<noteq> Some (JStr nonce)
                  then Failed_with ''nonce_mismatch''
                  else swap_outcome (swap (swap_body id_token tokens)) redirect)))"

definition callback_outcome ::
  "(string \<Rightarrow> json option) \<Rightarrow> sso_env \<Rightarrow> url \<Rightarrow> (string \<Rightarrow> string option) \<Rightarrow>
   (exchange_request \<Rightarrow> answer outcome) \<Rightarrow> (json \<Rightarrow> answer outcome) \<Rightarrow> callback_result" where
  "callback_outcome json_parse env u jar exchange swap =
     (let params = search_params_of u;
          error = or_empty (params_get params ''error'');
          code = or_empty (params_get params ''code'');
          state = or_empty (params_get params ''state'');
          expected_state = or_empty (jar ''oidc_state'');
          v = or_empty (jar ''oidc_verifier'');
          nonce = or_empty (jar ''oidc_nonce'');
          redirect = (if truthy (or_empty (jar ''oidc_redirect''))
                      then or_empty (jar ''oidc_redirect'') else ''/dashboard'')
      in if \<not> sso_configured env then Failed_with ''not_configured''
         else if truthy error then Failed_with error
         else if \<not> truthy code \<or> \<not> truthy state then Failed_with ''invalid_callback''
         else if \<not> truthy expected_state then Failed_with ''missing_flow_cookie''
         else if state \<noteq> expected_state then Failed_with ''state_mismatch''
         else if \<not> truthy v \<or> \<not> truthy nonce then Failed_with ''missing_flow_cookie''
         else
           (case exchange_code_result (exchange
                   (exchange_code_request env code (u_origin u @ ''/api/auth/oidc/callback'') v)) of
              Inl _ \<Rightarrow> Failed_with ''token_exchange_failed''
            | Inr tokens \<Rightarrow> id_token_outcome json_parse swap tokens nonce redirect))"

text \<open>The response; None is the uncaught error.\<close>

definition callback_get ::
  "(string \<Rightarrow> json option) \<Rightarrow> sso_env \<Rightarrow> url \<Rightarrow> (string \<Rightarrow> string option) \<Rightarrow>
   (exchange_request \<Rightarrow> answer outcome) \<Rightarrow> (json \<Rightarrow> answer outcome) \<Rightarrow> redirect option" where
  "callback_get json_parse env u jar exchange swap =
     (case callback_outcome json_parse env u jar exchange swap of
        Failed_with reason \<Rightarrow> Some (fail u reason)
      | Uncaught \<Rightarrow> None
      | Session access_token redirect \<Rightarrow>
          Some \<lparr>rd_location =
              u_origin u @ ''/auth/sso-bridge#'' @ bridge_fragment access_token redirect,
            rd_cookies = cleared_cookies\<rparr>)"

section \<open>The login route: what the provider is asked and what the browser keeps\<close>

definition cookie_value :: "redirect \<Rightarrow> string \<Rightarrow> string option" where
  "cookie_value r name = map_of (map (\<lambda>c. (ck_name c, ck_value c)) (rd_cookies r)) name"

lemma parse_authorize_params:
  "CHR ''?'' \<notin> set e \<Longrightarrow> parse_params (query_of (e @ ''?'' @ params_to_string ps)) = ps"
  by (simp add: parse_params_to_string)

text \<open>
  C10: the authorization request carries the state and the nonce that the browser keeps in its
  cookies and the digest of the verifier it keeps; the four flow cookies are http-only, last ten
  minutes, and hold a path that begins with a slash.
\<close>

theorem login_get_flow:
  assumes "sso_configured env" and "CHR ''?'' \<notin> set (authorize_endpoint env discovery)"
    and "r = login_get sha256 env discovery u state nonce randoms"
    and "q = parse_params (query_of (rd_location r))"
  shows "params_get q ''state'' = cookie_value r ''oidc_state'' \<and>
    params_get q ''nonce'' = cookie_value r ''oidc_nonce'' \<and>
    params_get q ''code_challenge'' =
      map_option (\<lambda>v. b64url (sha256 (text_bytes v))) (cookie_value r ''oidc_verifier'') \<and>
    map ck_name (rd_cookies r) = FLOW_COOKIES \<and>
    list_all (\<lambda>c. ck_http_only c \<and> ck_max_age c = 600) (rd_cookies r) \<and>
    (\<exists>p. cookie_value r ''oidc_redirect'' = Some p \<and> starts_with p ''/'')"
proof -
  let ?pkce = "create_pkce_pair sha256 randoms"
  have r: "r = \<lparr>rd_location = authorize_endpoint env discovery @ ''?'' @
         params_to_string (authorize_params env u state nonce (pk_challenge ?pkce)),
       rd_cookies =
         [flow_cookie env ''oidc_state'' state, flow_cookie env ''oidc_verifier'' (pk_verifier ?pkce),
          flow_cookie env ''oidc_nonce'' nonce,
          flow_cookie env ''oidc_redirect'' (login_redirect_param u)]\<rparr>"
    using assms(1,3) by (simp add: login_get_def Let_def)
  have q: "q = authorize_params env u state nonce (pk_challenge ?pkce)"
    unfolding assms(4) r using parse_authorize_params [OF assms(2)] by simp
  have "params_get q ''state'' = cookie_value r ''oidc_state''"
    and "params_get q ''nonce'' = cookie_value r ''oidc_nonce''"
    and "params_get q ''code_challenge'' =
      map_option (\<lambda>v. b64url (sha256 (text_bytes v))) (cookie_value r ''oidc_verifier'')"
    and "map ck_name (rd_cookies r) = FLOW_COOKIES"
    and "list_all (\<lambda>c. ck_http_only c \<and> ck_max_age c = 600) (rd_cookies r)"
    unfolding q r
    by (simp_all add: authorize_params_def params_get_def cookie_value_def flow_cookie_def
        FLOW_COOKIES_def create_pkce_pair_def Let_def)
  moreover have "starts_with (login_redirect_param u) ''/''"
    by (simp add: login_redirect_param_def Let_def)
  then have "\<exists>p. cookie_value r ''oidc_redirect'' = Some p \<and> starts_with p ''/''"
    unfolding r by (simp add: cookie_value_def flow_cookie_def)
  ultimately show ?thesis by (intro conjI)
qed

section \<open>The callback route\<close>

text \<open>
  C2: a session is handed out only to a complete flow: sign-on is configured, the provider reported
  no error, the state of the query is the one of the cookie, the verifier of the cookie exchanged
  the code, the ID token carries the nonce of the cookie, and the API accepted that very token.
\<close>

theorem callback_session_sound:
  assumes "callback_outcome json_parse env u jar exchange swap = Session t r"
  shows "\<exists>code state v nonce tokens id_token claims res data.
    sso_configured env \<and> or_empty (params_get (search_params_of u) ''error'') = [] \<and>
    params_get (search_params_of u) ''code'' = Some code \<and> code \<noteq> [] \<and>
    params_get (search_params_of u) ''state'' = Some state \<and> jar ''oidc_state'' = Some state \<and>
    state \<noteq> [] \<and> jar ''oidc_verifier'' = Some v \<and> v \<noteq> [] \<and>
    jar ''oidc_nonce'' = Some nonce \<and> nonce \<noteq> [] \<and>
    exchange_code_result (exchange
      (exchange_code_request env code (u_origin u @ ''/api/auth/oidc/callback'') v)) = Inr tokens \<and>
    field tokens ''id_token'' = Some (JStr id_token) \<and>
    decode_id_token_claims json_parse id_token = Some claims \<and>
    field claims ''nonce'' = Some (JStr nonce) \<and>
    swap (swap_body (JStr id_token) tokens) = Inr res \<and> an_ok res \<and> an_json res = Inr data \<and>
    map_option to_js_string (field data ''access_token'') = Some t"
proof -
  have nonempty: "\<exists>s. v = Some s \<and> s \<noteq> [] \<and> or_empty v = s" if "or_empty v \<noteq> []" for v
    using that by (cases v) (auto simp: or_empty_def)
  let ?params = "search_params_of u"
  have guards: "sso_configured env" "or_empty (params_get ?params ''error'') = []"
    "or_empty (params_get ?params ''code'') \<noteq> []" "or_empty (params_get ?params ''state'') \<noteq> []"
    "or_empty (params_get ?params ''state'') = or_empty (jar ''oidc_state'')"
    "or_empty (jar ''oidc_verifier'') \<noteq> []" "or_empty (jar ''oidc_nonce'') \<noteq> []"
    using assms by (auto simp: callback_outcome_def Let_def truthy_def split: if_splits)
  obtain code where code: "params_get ?params ''code'' = Some code" "code \<noteq> []"
    "or_empty (params_get ?params ''code'') = code"
    using nonempty [OF guards(3)] by blast
  obtain state where state: "params_get ?params ''state'' = Some state" "state \<noteq> []"
    "or_empty (params_get ?params ''state'') = state"
    using nonempty [OF guards(4)] by blast
  have st: "jar ''oidc_state'' = Some state"
    using nonempty [of "jar ''oidc_state''"] guards(4,5) state(3) by auto
  obtain v where v: "jar ''oidc_verifier'' = Some v" "v \<noteq> []" "or_empty (jar ''oidc_verifier'') = v"
    using nonempty [OF guards(6)] by blast
  obtain nonce where nonce: "jar ''oidc_nonce'' = Some nonce" "nonce \<noteq> []"
    "or_empty (jar ''oidc_nonce'') = nonce"
    using nonempty [OF guards(7)] by blast
  obtain tokens redirect where ex: "exchange_code_result (exchange
      (exchange_code_request env code (u_origin u @ ''/api/auth/oidc/callback'') v)) = Inr tokens"
    and id_out: "id_token_outcome json_parse swap tokens nonce redirect = Session t r"
    using assms code(3) v(3) nonce(3)
    by (auto simp: callback_outcome_def Let_def split: if_splits sum.splits)
  obtain id_token claims where idt: "field tokens ''id_token'' = Some (JStr id_token)"
    "decode_id_token_claims json_parse id_token = Some claims"
    "field claims ''nonce'' = Some (JStr nonce)"
    and sw: "swap_outcome (swap (swap_body (JStr id_token) tokens)) redirect = Session t r"
    using id_out nonce(2)
    by (auto simp: id_token_outcome_def truthy_field_def truthy_def
        split: if_splits option.splits json.splits)
  obtain res data where res: "swap (swap_body (JStr id_token) tokens) = Inr res" "an_ok res"
    "an_json res = Inr data" "map_option to_js_string (field data ''access_token'') = Some t"
    using sw by (auto simp: swap_outcome_def truthy_field_def
        split: sum.splits if_splits option.splits)
  show ?thesis
    by (rule exI [of _ code], rule exI [of _ state], rule exI [of _ v], rule exI [of _ nonce],
        rule exI [of _ tokens], rule exI [of _ id_token], rule exI [of _ claims],
        rule exI [of _ res], rule exI [of _ data])
       (simp only: guards code state st v nonce ex idt res simp_thms)
qed

definition failure_reasons :: "string list" where
  "failure_reasons =
     [''not_configured'', ''invalid_callback'', ''missing_flow_cookie'', ''state_mismatch'',
      ''token_exchange_failed'', ''missing_id_token'', ''bad_id_token'', ''nonce_mismatch'',
      ''exchange_failed'', ''exchange_rejected'', ''no_session_token'']"

lemma swap_outcome_reason:
  "swap_outcome swapped redirect = Failed_with reason \<Longrightarrow> reason \<in> set failure_reasons"
  by (auto simp: swap_outcome_def failure_reasons_def split: sum.splits if_splits option.splits)

lemma id_token_outcome_reason:
  "id_token_outcome json_parse swap tokens nonce redirect = Failed_with reason \<Longrightarrow>
   reason \<in> set failure_reasons"
  by (auto simp: id_token_outcome_def split: if_splits option.splits json.splits
      dest: swap_outcome_reason) (simp_all add: failure_reasons_def)

text \<open>
  A failing callback names one of the eleven reasons of the client, or passes on the error the
  provider reported.
\<close>

lemma callback_failure_reason:
  assumes "callback_outcome json_parse env u jar exchange swap = Failed_with reason"
  shows "reason \<in> set failure_reasons \<or>
    params_get (search_params_of u) ''error'' = Some reason \<and> reason \<noteq> []"
proof -
  have err: "params_get (search_params_of u) ''error'' = Some e"
    if "e = or_empty (params_get (search_params_of u) ''error'')" and "truthy e" for e
    using that by (cases "params_get (search_params_of u) ''error''") (auto simp: or_empty_def truthy_def)
  show ?thesis
    using assms id_token_outcome_reason err
    unfolding callback_outcome_def Let_def
    by (auto simp: truthy_def split: if_splits sum.splits) (simp_all add: failure_reasons_def)
qed

text \<open>
  Whatever happens, a response of the callback clears all four flow cookies, so that a state, a
  nonce or a verifier is used once, and it stays on the origin of the request.
\<close>

lemma callback_clears_flow:
  assumes "callback_get json_parse env u jar exchange swap = Some r"
  shows "map ck_name (rd_cookies r) = FLOW_COOKIES \<and>
    list_all (\<lambda>c. ck_value c = [] \<and> ck_max_age c = 0 \<and> ck_path c = ''/'') (rd_cookies r) \<and>
    (starts_with (rd_location r) (u_origin u @ ''/login?sso_error='') \<or>
      starts_with (rd_location r) (u_origin u @ ''/auth/sso-bridge#token=''))"
proof -
  have "rd_cookies r = cleared_cookies"
    using assms by (auto simp: callback_get_def fail_def split: callback_result.splits)
  then have "map ck_name (rd_cookies r) = FLOW_COOKIES"
    and "list_all (\<lambda>c. ck_value c = [] \<and> ck_max_age c = 0 \<and> ck_path c = ''/'') (rd_cookies r)"
    by (simp_all add: cleared_cookies_def cleared_cookie_def FLOW_COOKIES_def)
  moreover have "starts_with (rd_location r) (u_origin u @ ''/login?sso_error='') \<or>
      starts_with (rd_location r) (u_origin u @ ''/auth/sso-bridge#token='')"
    using assms
    by (auto simp: callback_get_def fail_def bridge_fragment_def starts_with_iff
        split: callback_result.splits)
  ultimately show ?thesis by (intro conjI)
qed

section \<open>A sample flow\<close>

definition sample_env :: sso_env where
  "sample_env =
     \<lparr>auth_issuer = Some ''https://auth.sdc.cpp/'', oidc_client_id = Some ''tbd'',
      oidc_client_secret = Some ''s3cret'', api_internal_url = None, next_public_api_url = None,
      sso_public_origin = None, node_env = Some ''production''\<rparr>"

definition sample_origin :: string where
  "sample_origin = ''https://tbd.dev.sdc.cpp''"

definition sample_login_url :: url where
  "sample_login_url =
     \<lparr>u_origin = sample_origin, u_pathname = ''/api/auth/oidc/login'',
      u_search = ''?redirect=%2Fsettings''\<rparr>"

definition sample_callback_url :: url where
  "sample_callback_url =
     \<lparr>u_origin = sample_origin, u_pathname = ''/api/auth/oidc/callback'',
      u_search = ''?code=c1&state=st''\<rparr>"

definition sample_jar :: "string \<Rightarrow> string option" where
  "sample_jar =
     map_of [(''oidc_state'', ''st''), (''oidc_verifier'', ''v''), (''oidc_nonce'', ''n''),
       (''oidc_redirect'', ''/settings'')]"

definition sample_json_parse :: "string \<Rightarrow> json option" where
  "sample_json_parse s = Some (JObj [(''nonce'', JStr ''n'')])"

definition sample_exchange :: "exchange_request \<Rightarrow> answer outcome" where
  "sample_exchange r =
     Inr \<lparr>an_ok = True, an_status = 200, an_json = Inr (JObj [(''id_token'', JStr ''h.e30.s'')])\<rparr>"

definition sample_swap :: "json \<Rightarrow> answer outcome" where
  "sample_swap b =
     Inr \<lparr>an_ok = True, an_status = 200, an_json = Inr (JObj [(''access_token'', JStr ''jwt'')])\<rparr>"

lemma sample_configured: "sso_configured sample_env"
  by (simp add: sso_configured_def sample_env_def ISSUER_def CLIENT_ID_def CLIENT_SECRET_def
      or_empty_def truthy_def strip_trailing_def)

lemma sample_session:
  "callback_outcome sample_json_parse sample_env sample_callback_url sample_jar
     sample_exchange sample_swap = Session ''jwt'' ''/settings''"
  by code_simp

lemma sample_rejected:
  "callback_outcome sample_json_parse sample_env sample_callback_url Map.empty
     sample_exchange sample_swap = Failed_with ''missing_flow_cookie''"
  by code_simp

theorem login_get_flow_witness:
  "params_get (parse_params (query_of (rd_location
      (login_get (\<lambda>_. replicate 32 7) sample_env (Inl NotAnError) sample_login_url ''st'' ''n''
         (replicate 32 255))))) ''state'' = Some ''st''"
proof -
  have e: "CHR ''?'' \<notin> set (authorize_endpoint sample_env (Inl NotAnError))"
    by (simp add: authorize_endpoint_def Let_def ISSUER_def sample_env_def or_empty_def
        strip_trailing_def)
  show ?thesis
    using login_get_flow [OF sample_configured e refl refl] sample_configured
    by (simp add: login_get_def Let_def cookie_value_def flow_cookie_def)
qed

theorem callback_session_sound_witness:
  "\<exists>state. sample_jar ''oidc_state'' = Some state \<and>
     params_get (search_params_of sample_callback_url) ''state'' = Some state"
  using callback_session_sound [OF sample_session] by blast

lemma callback_failure_reason_witness:
  "''missing_flow_cookie'' \<in> set failure_reasons \<or>
   params_get (search_params_of sample_callback_url) ''error'' = Some ''missing_flow_cookie'' \<and>
   ''missing_flow_cookie'' \<noteq> []"
  by (rule callback_failure_reason [OF sample_rejected])

lemma callback_clears_flow_witness:
  "\<exists>r. callback_get sample_json_parse sample_env sample_callback_url sample_jar
       sample_exchange sample_swap = Some r \<and> map ck_name (rd_cookies r) = FLOW_COOKIES"
proof -
  obtain r where r: "callback_get sample_json_parse sample_env sample_callback_url sample_jar
      sample_exchange sample_swap = Some r"
    by (simp add: callback_get_def sample_session)
  from callback_clears_flow [OF r] r show ?thesis by blast
qed

section \<open>The whole flow\<close>

lemma b64url_nonempty: "bs \<noteq> [] \<Longrightarrow> b64url bs \<noteq> []"
  using length_b64url [of bs] by (cases bs) auto

text \<open>The cookies of a redirect, as the browser sends them back.\<close>

definition jar_of :: "redirect \<Rightarrow> string \<Rightarrow> string option" where
  "jar_of r name = cookie_value r name"

lemma json_truthy_string: "json_truthy (JStr s) \<longleftrightarrow> s \<noteq> []"
  by (simp add: json_truthy_def truthy_def)

text \<open>
  A flow that the provider and the API complete is completed by the client: when the browser
  comes back with its cookies, the state it was given and a code, and the ID token carries the nonce
  of the login, the callback hands out the session token and the path the login was asked for.
\<close>

lemma oidc_flow_completes:
  assumes conf: "sso_configured env"
    and start: "r = login_get sha256 env discovery u state nonce randoms"
    and given: "state \<noteq> []" "nonce \<noteq> []" "randoms \<noteq> []" "code \<noteq> []"
    and returned: "search_params_of u' = [(''code'', code), (''state'', state)]"
    and tokens: "\<And>x. exchange_code_result (exchange x) = Inr tokens"
      "field tokens ''id_token'' = Some (JStr id_token)" "id_token \<noteq> []"
    and claims: "decode_id_token_claims json_parse id_token = Some claims"
      "field claims ''nonce'' = Some (JStr nonce)"
    and swapped: "\<And>b. swap b = Inr \<lparr>an_ok = True, an_status = 200, an_json = Inr data\<rparr>"
      "field data ''access_token'' = Some (JStr t)" "t \<noteq> []"
  shows "callback_outcome json_parse env u' (jar_of r) exchange swap =
    Session t (login_redirect_param u)"
proof -
  have jar: "jar_of r ''oidc_state'' = Some state" "jar_of r ''oidc_nonce'' = Some nonce"
    "jar_of r ''oidc_verifier'' = Some (b64url randoms)"
    "jar_of r ''oidc_redirect'' = Some (login_redirect_param u)"
    using conf unfolding start
    by (simp_all add: jar_of_def cookie_value_def login_get_def Let_def flow_cookie_def
        create_pkce_pair_def)
  have "login_redirect_param u \<noteq> []"
    by (auto simp: login_redirect_param_def Let_def)
  moreover have "tokens \<noteq> JNull" and "data \<noteq> JNull"
    using tokens(2) swapped(2) by (auto simp: field_def)
  moreover have "json_truthy claims"
    using claims(2) by (auto simp: field_def json_truthy_def split: json.splits)
  ultimately show ?thesis
    using conf given jar returned tokens claims swapped b64url_nonempty [OF given(3)]
    by (simp add: callback_outcome_def Let_def or_empty_def truthy_def params_get_def
        id_token_outcome_def truthy_field_def json_truthy_string swap_outcome_def)
qed

section \<open>Where the flow goes on to\<close>

lemma takeWhile_slash_host:
  "\<forall>c \<in> set h. \<not> slash_like c \<Longrightarrow> h \<noteq> [] \<Longrightarrow>
   takeWhile slash_like (''//'' @ h) = ''//'' \<and> dropWhile slash_like (''//'' @ h) = h"
  by (cases h) (auto simp: slash_like_def)

lemma takeWhile_not_at:
  "CHR ''@'' \<notin> set h \<Longrightarrow> after_userinfo h = h"
proof -
  assume "CHR ''@'' \<notin> set h"
  then have "takeWhile (\<lambda>c. c \<noteq> CHR ''@'') (rev h) = rev h"
    by (subst takeWhile_eq_all_conv) auto
  then show ?thesis by (simp only: after_userinfo_def rev_rev_ident)
qed

text \<open>
  The check that the requested path begins with a slash does not keep the browser on the site:
  a request for two slashes and a host name is accepted, and resolves to that host.
\<close>

lemma login_redirect_foreign:
  assumes "params_get (search_params_of u) ''redirect'' = Some (''//'' @ h)" and "h \<noteq> []"
    and "\<forall>c \<in> set h. is_alnum c \<or> c = CHR ''.'' \<or> c = CHR ''-''"
  shows "login_redirect_param u = ''//'' @ h \<and>
    resolve_ref (u_origin u) (login_redirect_param u) =
      Some \<lparr>u_origin = scheme_of (u_origin u) @ ''://'' @ h, u_pathname = ''/'', u_search = []\<rparr>"
proof -
  have plain: "\<forall>c \<in> set h. \<not> slash_like c \<and> code_of c \<notin> {9, 10, 13} \<and> c \<noteq> CHR ''@'' \<and>
      c \<noteq> CHR ''?'' \<and> c \<noteq> CHR ''#''"
    using assms(3)
    by (auto simp: slash_like_def is_alnum_def is_lower_def is_upper_def is_digit_def)
  have param: "login_redirect_param u = ''//'' @ h"
    using assms(1) by (simp add: login_redirect_param_def Let_def)
  have ctl: "drop_controls (''//'' @ h) = ''//'' @ h"
    using plain by (auto simp: drop_controls_def filter_id_conv)
  have ends: "takeWhile (\<lambda>c. \<not> (slash_like c \<or> c = CHR ''?'' \<or> c = CHR ''#'')) h = h"
    "dropWhile (\<lambda>c. \<not> (slash_like c \<or> c = CHR ''?'' \<or> c = CHR ''#'')) h = []"
    using plain by (auto simp: takeWhile_eq_all_conv dropWhile_eq_Nil_conv)
  have user: "after_userinfo h = h"
    using plain by (intro takeWhile_not_at) auto
  have slashes: "takeWhile slash_like (''//'' @ h) = ''//''" "dropWhile slash_like (''//'' @ h) = h"
    using takeWhile_slash_host [of h] plain assms(2) by auto
  show ?thesis
    unfolding param resolve_ref_def Let_def ctl slashes ends user
    using assms(2) by (simp add: url_at_def split_path_def)
qed

lemma login_redirect_foreign_witness:
  "login_redirect_param (sample_login_url\<lparr>u_search := ''?redirect=%2F%2Fevil.example''\<rparr>) =
     ''//evil.example'' \<and>
   map_option u_origin (resolve_ref sample_origin ''//evil.example'') = Some ''https://evil.example''"
proof -
  let ?u = "sample_login_url\<lparr>u_search := ''?redirect=%2F%2Fevil.example''\<rparr>"
  have p: "params_get (search_params_of ?u) ''redirect'' = Some (''//'' @ ''evil.example'')"
    by code_simp
  have "scheme_of sample_origin = ''https''"
    by (simp add: scheme_of_def sample_origin_def)
  moreover have o: "u_origin ?u = sample_origin" by (simp add: sample_login_url_def)
  moreover have plain: "\<forall>c \<in> set ''evil.example''. is_alnum c \<or> c = CHR ''.'' \<or> c = CHR ''-''"
    by (simp add: is_alnum_def is_lower_def is_upper_def is_digit_def)
  have "login_redirect_param ?u = ''//'' @ ''evil.example'' \<and>
      resolve_ref (u_origin ?u) (login_redirect_param ?u) =
      Some \<lparr>u_origin = scheme_of (u_origin ?u) @ ''://'' @ ''evil.example'',
        u_pathname = ''/'', u_search = []\<rparr>"
    by (rule login_redirect_foreign [OF p _ plain]) simp
  then have param: "login_redirect_param ?u = ''//'' @ ''evil.example''"
    and "resolve_ref (u_origin ?u) (login_redirect_param ?u) =
      Some \<lparr>u_origin = scheme_of (u_origin ?u) @ ''://'' @ ''evil.example'',
        u_pathname = ''/'', u_search = []\<rparr>"
    by (rule conjunct1, rule conjunct2)
  ultimately show ?thesis
    by (simp only: param o) simp
qed

end
