(* ===== verification/AuthContext.thy ===== *)
theory AuthContext
  imports ApiClient
begin

text \<open>
  The authentication context of \<open>web/src/contexts/auth.tsx\<close>: the signed-in user, the loading flag,
  the error of the last sign-out and the stored token, as a machine whose events are the calls of
  the context's operations (and what other tabs do to the shared storage) and whose requests in
  flight are the awaits of those operations. A call that settles tells its caller the result.
\<close>

section \<open>State, requests and results\<close>

record auth_state =
  as_user :: "user_info option"
  as_loading :: bool
  as_logout_error :: "string option"
  as_storage :: storage

text \<open>The await an answer comes back to.\<close>

datatype auth_wait = MountMe | LoginPost | LoginMe | LogoutPost | RefreshMe | ApplyMe

type_synonym auth_cmd = "auth_wait \<times> http_request"

datatype auth_reply =
    MeReply "user_info outcome"
  | LoginReply "token_response outcome"
  | LogoutReply "unit outcome"

datatype auth_event =
    Mounted
  | CallLogin string string
  | CallLogout
  | CallRefreshUser
  | CallApplySession string
  | OtherTabWrites "string option"
  | StorageEvent string "string option"

text \<open>What the caller of an operation gets: \<open>login\<close> returns or throws, \<open>applySession\<close> returns a flag.\<close>

datatype settled = LoginDone "js_exn option" | ApplyDone bool | NothingSettled

definition auth_initial :: "storage \<Rightarrow> auth_state" where
  "auth_initial st =
     \<lparr>as_user = None, as_loading = True, as_logout_error = None, as_storage = st\<rparr>"

definition send :: "string option \<Rightarrow> auth_state \<Rightarrow> auth_wait \<Rightarrow> api_call \<Rightarrow> auth_cmd" where
  "send env s w c = (w, build_request env (get_token True (as_storage s)) c)"

section \<open>Operations up to their first await\<close>

definition on_mount :: "string option \<Rightarrow> auth_state \<Rightarrow> auth_state \<times> auth_cmd list" where
  "on_mount env s =
     (case as_storage s token_key of
        None \<Rightarrow> (s\<lparr>as_loading := False\<rparr>, [])
      | Some t \<Rightarrow> if truthy t then (s, [send env s MountMe auth_me])
                  else (s\<lparr>as_loading := False\<rparr>, []))"

definition login :: "string option \<Rightarrow> string \<Rightarrow> string \<Rightarrow> auth_state \<Rightarrow> auth_state \<times> auth_cmd list" where
  "login env username password s =
     (s, [send env s LoginPost (auth_login \<lparr>lr_username = username, lr_password = password\<rparr>)])"

definition logout :: "string option \<Rightarrow> auth_state \<Rightarrow> auth_state \<times> auth_cmd list" where
  "logout env s = (s\<lparr>as_logout_error := None\<rparr>, [send env s LogoutPost auth_logout])"

definition refresh_user :: "string option \<Rightarrow> auth_state \<Rightarrow> auth_state \<times> auth_cmd list" where
  "refresh_user env s = (s, [send env s RefreshMe auth_me])"

definition apply_session :: "string option \<Rightarrow> string \<Rightarrow> auth_state \<Rightarrow> auth_state \<times> auth_cmd list" where
  "apply_session env token s =
     (let s = s\<lparr>as_storage := set_token token (as_storage s)\<rparr>
      in (s, [send env s ApplyMe auth_me]))"

text \<open>The listener for changes that other tabs make.\<close>

definition sync :: "string \<Rightarrow> string option \<Rightarrow> auth_state \<Rightarrow> auth_state" where
  "sync key new_value s =
     (if key = token_key \<and> (new_value = None \<or> new_value = Some []) then s\<lparr>as_user := None\<rparr> else s)"

fun auth_handle :: "string option \<Rightarrow> auth_event \<Rightarrow> auth_state \<Rightarrow> auth_state \<times> auth_cmd list" where
  "auth_handle env Mounted s = on_mount env s"
| "auth_handle env (CallLogin u p) s = login env u p s"
| "auth_handle env CallLogout s = logout env s"
| "auth_handle env CallRefreshUser s = refresh_user env s"
| "auth_handle env (CallApplySession t) s = apply_session env t s"
| "auth_handle env (OtherTabWrites v) s = (s\<lparr>as_storage := (as_storage s)(token_key := v)\<rparr>, [])"
| "auth_handle env (StorageEvent k v) s = (sync k v s, [])"

section \<open>Operations after an await\<close>

definition clear_session :: "auth_state \<Rightarrow> auth_state" where
  "clear_session s = s\<lparr>as_storage := clear_token (as_storage s)\<rparr>"

fun after_mount_me :: "user_info outcome \<Rightarrow> auth_state \<Rightarrow> auth_state" where
  "after_mount_me (Inr u) s = s\<lparr>as_user := Some u, as_loading := False\<rparr>"
| "after_mount_me (Inl e) s = (clear_session s)\<lparr>as_loading := False\<rparr>"

fun after_login_post ::
  "string option \<Rightarrow> token_response outcome \<Rightarrow> auth_state \<Rightarrow> auth_state \<times> auth_cmd list \<times> settled" where
  "after_login_post env (Inr r) s =
     (let s = s\<lparr>as_storage := set_token (tk_access_token r) (as_storage s)\<rparr>
      in (s, [send env s LoginMe auth_me], NothingSettled))"
| "after_login_post env (Inl e) s = (s, [], LoginDone (Some e))"

fun after_login_me :: "user_info outcome \<Rightarrow> auth_state \<Rightarrow> auth_state \<times> settled" where
  "after_login_me (Inr u) s = (s\<lparr>as_user := Some u\<rparr>, LoginDone None)"
| "after_login_me (Inl e) s = (s, LoginDone (Some e))"

fun after_logout :: "unit outcome \<Rightarrow> auth_state \<Rightarrow> auth_state" where
  "after_logout (Inr _) s = (clear_session s)\<lparr>as_user := None\<rparr>"
| "after_logout (Inl e) s =
     s\<lparr>as_logout_error := Some ''Sign-out was not confirmed. Please retry.''\<rparr>"

fun after_refresh :: "user_info outcome \<Rightarrow> auth_state \<Rightarrow> auth_state" where
  "after_refresh (Inr u) s = s\<lparr>as_user := Some u\<rparr>"
| "after_refresh (Inl (ApiErr st d)) s =
     (if st = 401 then (clear_session s)\<lparr>as_user := None\<rparr> else s)"
| "after_refresh (Inl e) s = s"

fun after_apply :: "user_info outcome \<Rightarrow> auth_state \<Rightarrow> auth_state \<times> settled" where
  "after_apply (Inr u) s = (s\<lparr>as_user := Some u\<rparr>, ApplyDone True)"
| "after_apply (Inl e) s = (clear_session s, ApplyDone False)"

fun auth_settle ::
  "string option \<Rightarrow> auth_cmd \<Rightarrow> auth_reply \<Rightarrow> auth_state \<Rightarrow> auth_state \<times> auth_cmd list \<times> settled" where
  "auth_settle env (MountMe, rq) (MeReply r) s = (after_mount_me r s, [], NothingSettled)"
| "auth_settle env (LoginPost, rq) (LoginReply r) s = after_login_post env r s"
| "auth_settle env (LoginMe, rq) (MeReply r) s = (let (s, d) = after_login_me r s in (s, [], d))"
| "auth_settle env (LogoutPost, rq) (LogoutReply r) s = (after_logout r s, [], NothingSettled)"
| "auth_settle env (RefreshMe, rq) (MeReply r) s = (after_refresh r s, [], NothingSettled)"
| "auth_settle env (ApplyMe, rq) (MeReply r) s = (let (s, d) = after_apply r s in (s, [], d))"
| "auth_settle env c r s = (s, [], NothingSettled)"

definition auth_resume ::
  "string option \<Rightarrow> auth_cmd \<Rightarrow> auth_reply \<Rightarrow> auth_state \<Rightarrow> auth_state \<times> auth_cmd list" where
  "auth_resume env c r s = (let (s', cs, d) = auth_settle env c r s in (s', cs))"

section \<open>The world of the context\<close>

text \<open>
  \<open>accepts t u\<close> says that the server answers a request with the authorization header \<open>t\<close> for the
  account \<open>u\<close>; any request may fail. The component mounts once, first.
\<close>

definition bearer_of :: "http_request \<Rightarrow> string option" where
  "bearer_of rq = params_get (rq_headers rq) ''Authorization''"

fun auth_answers :: "(string option \<Rightarrow> user_info \<Rightarrow> bool) \<Rightarrow> auth_cmd \<Rightarrow> auth_reply \<Rightarrow> bool" where
  "auth_answers accepts (w, rq) (MeReply r) =
     (w \<in> {MountMe, LoginMe, RefreshMe, ApplyMe} \<and>
      (case r of Inl _ \<Rightarrow> True | Inr u \<Rightarrow> accepts (bearer_of rq) u))"
| "auth_answers accepts (w, rq) (LoginReply r) = (w = LoginPost)"
| "auth_answers accepts (w, rq) (LogoutReply r) = (w = LogoutPost)"

definition auth_offered :: "auth_state \<Rightarrow> auth_event \<Rightarrow> bool" where
  "auth_offered s e = (e \<noteq> Mounted)"

definition auth_start :: "string option \<Rightarrow> storage \<Rightarrow> (auth_state, auth_cmd) world" where
  "auth_start env st = on_mount env (auth_initial st)"

abbreviation auth_steps where
  "auth_steps env accepts \<equiv> wstep auth_offered (auth_handle env) (auth_resume env) (auth_answers accepts)"

lemmas auth_ops = on_mount_def login_def logout_def refresh_user_def apply_session_def sync_def
  clear_session_def send_def auth_start_def auth_initial_def auth_resume_def auth_offered_def Let_def

fun_cases auth_handle_pair: "auth_handle env e s = (s', cs)"

section \<open>Invariants\<close>

text \<open>
  The invariant of the context: the page is loading only while the check of the stored token is in
  flight, and a user on screen is one that the server answered for.
\<close>

definition auth_inv :: "(string option \<Rightarrow> user_info \<Rightarrow> bool) \<Rightarrow> auth_state \<Rightarrow> auth_cmd list \<Rightarrow> bool" where
  "auth_inv accepts s fl =
     ((as_loading s \<longrightarrow> (\<exists>rq. (MountMe, rq) \<in> set fl)) \<and>
      length (filter (\<lambda>c. fst c = MountMe) fl) \<le> 1 \<and>
      (\<forall>u. as_user s = Some u \<longrightarrow> (\<exists>t. accepts t u)))"

lemma auth_handle_inv:
  assumes "auth_inv accepts s fl" and "auth_offered s e" and "auth_handle env e s = (s', cs)"
  shows "auth_inv accepts s' (fl @ cs)"
  using assms by (cases e) (auto simp: auth_inv_def auth_ops split: if_splits)

lemma after_refresh_Inl:
  "after_refresh (Inl e) s =
     (if \<exists>d. e = ApiErr 401 d then (clear_session s)\<lparr>as_user := None\<rparr> else s)"
  by (cases e) auto

lemma auth_settle_cases:
  assumes "auth_answers accepts (w, rq) r" and "auth_resume env (w, rq) r s = (s', cs)"
  shows "as_loading s' = (as_loading s \<and> w \<noteq> MountMe) \<and>
    (\<forall>c \<in> set cs. fst c \<noteq> MountMe) \<and>
    (\<forall>u. as_user s' = Some u \<longrightarrow> as_user s = Some u \<or> (\<exists>t. accepts t u))"
proof (cases r)
  case (MeReply m)
  with assms show ?thesis
    by (cases m; cases w) (auto simp: auth_ops after_refresh_Inl split: if_splits)
next
  case (LoginReply m)
  with assms(1) have "w = LoginPost" by simp
  with LoginReply assms(2) show ?thesis
    by (cases m) (auto simp: auth_resume_def send_def Let_def)
next
  case (LogoutReply m)
  with assms(1) have "w = LogoutPost" by simp
  with LogoutReply assms(2) show ?thesis
    by (cases m) (auto simp: auth_resume_def clear_session_def)
qed

lemma auth_resume_inv:
  assumes "auth_inv accepts s (xs @ c # ys)" and "auth_answers accepts c r"
    and "auth_resume env c r s = (s', cs)"
  shows "auth_inv accepts s' (xs @ ys @ cs)"
proof -
  obtain w rq where c: "c = (w, rq)" by (cases c)
  note facts = auth_settle_cases [OF assms(2,3) [unfolded c]]
  have none: "filter (\<lambda>c. fst c = MountMe) cs = []"
    using facts by (simp add: filter_empty_conv)
  show ?thesis
    using assms(1) facts none unfolding auth_inv_def c by (auto split: if_splits)
qed

lemma auth_start_inv: "auth_inv accepts (fst (auth_start env st)) (snd (auth_start env st))"
  by (auto simp: auth_inv_def auth_ops split: option.splits)

interpretation auth: world_invariant auth_offered "auth_handle env" "auth_resume env"
  "auth_answers accepts" "auth_start env st" "auth_inv accepts" for env accepts st
  by unfold_locales (rule auth_start_inv, erule (2) auth_handle_inv, erule (2) auth_resume_inv)

text \<open>
  C3: in every interleaving of calls, answers and other tabs, the user on screen is one that the
  server answered for, and once no request is in flight the page is no longer loading.
\<close>

theorem auth_reachable:
  assumes "(auth_steps env accepts)\<^sup>*\<^sup>* (auth_start env st) (s, fl)"
  shows "(\<forall>u. as_user s = Some u \<longrightarrow> (\<exists>t. accepts t u)) \<and> (fl = [] \<longrightarrow> \<not> as_loading s)"
  using auth.reach_state_inv [OF assms] by (auto simp: auth_inv_def)

text \<open>
  C26: an answer signs the user out only when it confirms a sign-out or is a 401 to a refresh, and
  then the stored token is gone as well; every other failure keeps the user on screen.
\<close>

theorem session_ends_only:
  assumes "auth_answers accepts (w, rq) r" and "auth_resume env (w, rq) r s = (s', cs)"
    and "as_user s \<noteq> None" and "as_user s' = None"
  shows "(w = LogoutPost \<and> r = LogoutReply (Inr ()) \<or>
      w = RefreshMe \<and> (\<exists>d. r = MeReply (Inl (ApiErr 401 d)))) \<and>
    get_token True (as_storage s') = None"
proof (cases r)
  case (MeReply m)
  with assms show ?thesis
    by (cases m; cases w)
       (auto simp: auth_resume_def clear_session_def Let_def after_refresh_Inl get_token_def
         clear_token_def split: if_splits)
next
  case (LoginReply m)
  with assms(1) have "w = LoginPost" by simp
  with LoginReply assms(2-4) show ?thesis
    by (cases m) (auto simp: auth_resume_def send_def Let_def)
next
  case (LogoutReply m)
  with assms(1) have "w = LogoutPost" by simp
  with LogoutReply assms(2-4) show ?thesis
    by (cases m) (auto simp: auth_resume_def clear_session_def get_token_def clear_token_def)
qed

definition sample_user :: user_info where
  "sample_user =
     \<lparr>ui_id = ''u1'', ui_username = ''jdoe'', ui_display_name = ''J Doe'', ui_email = ''j@cpp.edu'',
      ui_role = JAS_Developer, ui_github_username = None, ui_created_at = ''2026-01-01''\<rparr>"

definition signed_in :: auth_state where
  "signed_in =
     \<lparr>as_user = Some sample_user, as_loading = False, as_logout_error = None,
      as_storage = [token_key \<mapsto> ''t'']\<rparr>"

theorem session_ends_only_witness:
  "get_token True (as_storage (fst (auth_resume None (LogoutPost, build_request None None auth_logout)
     (LogoutReply (Inr ())) signed_in))) = None"
proof -
  let ?c = "(LogoutPost, build_request None None auth_logout)"
  obtain s' cs where r: "auth_resume None ?c (LogoutReply (Inr ())) signed_in = (s', cs)"
    by fastforce
  then have n: "as_user s' = None"
    by (auto simp: auth_resume_def)
  have y: "as_user signed_in \<noteq> None"
    by (simp add: signed_in_def)
  have "auth_answers (\<lambda>t u. True) ?c (LogoutReply (Inr ()))"
    by simp
  from session_ends_only [OF this r y n] r show ?thesis by simp
qed

section \<open>A late answer to the check of the stored token\<close>

text \<open>
  The interleaving: the stored token has expired; while its check is in flight the user signs in and
  the login completes; then the check fails, and its handler erases whatever token is stored.
\<close>

definition sample_token_response :: token_response where
  "sample_token_response =
     \<lparr>tk_access_token = ''new'', tk_token_type = ''bearer'', tk_expires_in = 3600\<rparr>"

definition late_failure :: "(auth_event + nat \<times> auth_reply) list" where
  "late_failure =
     [Inl (CallLogin ''jdoe'' ''pw''),
      Inr (1, LoginReply (Inr sample_token_response)),
      Inr (1, MeReply (Inr sample_user)),
      Inr (0, MeReply (Inl (ApiErr 401 (JStr ''expired''))))]"

definition expired_storage :: storage where
  "expired_storage = [token_key \<mapsto> ''old'']"

definition accepts_new :: "string option \<Rightarrow> user_info \<Rightarrow> bool" where
  "accepts_new t u = (t = Some ''Bearer new'' \<and> u = sample_user)"

lemma late_failure_playable:
  "playable auth_offered (auth_handle None) (auth_resume None) (auth_answers accepts_new)
     late_failure (auth_start None expired_storage)"
  by code_simp

lemma late_failure_result:
  "(let w = run_script (auth_handle None) (auth_resume None) late_failure
        (auth_start None expired_storage)
    in as_user (fst w) = Some sample_user \<and> get_token True (as_storage (fst w)) = None \<and> snd w = [])"
  by code_simp

lemma late_failure_state:
  "\<exists>s. (auth_steps None accepts_new)\<^sup>*\<^sup>* (auth_start None expired_storage) (s, []) \<and>
     as_user s = Some sample_user \<and> get_token True (as_storage s) = None"
proof -
  let ?w = "run_script (auth_handle None) (auth_resume None) late_failure
    (auth_start None expired_storage)"
  have "(auth_steps None accepts_new)\<^sup>*\<^sup>* (auth_start None expired_storage) ?w"
    by (rule run_script_reaches [OF late_failure_playable])
  moreover have "as_user (fst ?w) = Some sample_user" "get_token True (as_storage (fst ?w)) = None"
    "snd ?w = []"
    using late_failure_result by (simp_all add: Let_def)
  ultimately show ?thesis by (metis prod.collapse)
qed

text \<open>
  A state is reachable in which a user is on screen, nothing is in flight, and no token is
  stored, although no sign-out happened and the server accepts the token of the login: the failing
  check of the old token erased the new one.
\<close>

lemma late_check_erases_login:
  "\<exists>s. (auth_steps None accepts_new)\<^sup>*\<^sup>* (auth_start None expired_storage) (s, []) \<and>
     as_user s = Some sample_user \<and> get_token True (as_storage s) = None"
  by (rule late_failure_state)

theorem auth_reachable_witness:
  "\<exists>s. (auth_steps None accepts_new)\<^sup>*\<^sup>* (auth_start None expired_storage) (s, []) \<and>
     as_user s = Some sample_user \<and> \<not> as_loading s \<and> (\<exists>t. accepts_new t sample_user)"
proof -
  obtain s where w: "(auth_steps None accepts_new)\<^sup>*\<^sup>* (auth_start None expired_storage) (s, [])"
    and u: "as_user s = Some sample_user"
    using late_failure_state by blast
  from auth_reachable [OF w] w u show ?thesis by blast
qed

end
