(* ===== verification/LogStream.thy ===== *)
theory LogStream
  imports Platform
begin

text \<open>
  The log-stream hook of \<open>web/src/hooks/useLogStream.ts\<close>: a machine over the connections it opens.
  A connection is the number it was opened under; the events are a change of the hook's arguments
  (the effect runs: its cleanup, then its body), the two kinds of server message, the error event
  with the ready state the connection is in, and the unmount. Messages reach the handlers only while
  the connection is open and its listeners are attached.
\<close>

section \<open>State\<close>

record log_state =
  lg_logs :: "string option"
  lg_status :: "string option"
  lg_streaming :: bool
  lg_error :: "string option"

record stream_hook =
  sh_state :: log_state
  sh_ref :: "nat option"            \<comment> \<open>the connection in \<open>esRef\<close>\<close>
  sh_listening :: "nat option"      \<comment> \<open>the connection whose listeners are attached\<close>
  sh_open :: "nat set"              \<comment> \<open>the connections that are not closed\<close>
  sh_next :: nat
  sh_url :: "string option"         \<comment> \<open>the URL of the last connection\<close>

datatype ready_state = CONNECTING | OPEN | CLOSED

text \<open>\<open>JSON.parse\<close> of the data and the two fields; None is malformed data.\<close>

datatype stream_event =
    Args "string option" "string option"
  | LogMessage nat "(string \<times> string) option"
  | DoneMessage nat "(string \<times> string) option"
  | ErrorEvent nat ready_state
  | Unmount

definition idle :: log_state where
  "idle = \<lparr>lg_logs = None, lg_status = None, lg_streaming = False, lg_error = None\<rparr>"

definition hook_initial :: stream_hook where
  "hook_initial =
     \<lparr>sh_state = idle, sh_ref = None, sh_listening = None, sh_open = {}, sh_next = 0, sh_url = None\<rparr>"

section \<open>Operations\<close>

definition close :: "stream_hook \<Rightarrow> stream_hook" where
  "close h =
     (case sh_ref h of None \<Rightarrow> h | Some es \<Rightarrow> h\<lparr>sh_open := sh_open h - {es}, sh_ref := None\<rparr>)"

definition cleanup :: "stream_hook \<Rightarrow> stream_hook" where
  "cleanup h = (case sh_listening h of None \<Rightarrow> h | Some _ \<Rightarrow> close (h\<lparr>sh_listening := None\<rparr>))"

definition stream_url :: "string \<Rightarrow> string option \<Rightarrow> string" where
  "stream_url url token =
     (let separator = (if CHR ''?'' \<in> set url then ''&'' else ''?'')
      in case token of
           None \<Rightarrow> url
         | Some t \<Rightarrow> if truthy t then url @ separator @ ''token='' @ t else url)"

definition connect :: "string option \<Rightarrow> string option \<Rightarrow> stream_hook \<Rightarrow> stream_hook" where
  "connect url token h =
     (case url of
        None \<Rightarrow> (close h)\<lparr>sh_state := idle\<rparr>
      | Some u \<Rightarrow>
          (if \<not> truthy u then (close h)\<lparr>sh_state := idle\<rparr>
           else
             let h = close h; es = sh_next h
             in h\<lparr>sh_ref := Some es, sh_listening := Some es, sh_open := insert es (sh_open h),
                  sh_next := Suc es, sh_url := Some (stream_url u token),
                  sh_state := (sh_state h)\<lparr>lg_streaming := True, lg_error := None\<rparr>\<rparr>))"

definition handle_log :: "(string \<times> string) option \<Rightarrow> stream_hook \<Rightarrow> stream_hook" where
  "handle_log payload h =
     (case payload of
        None \<Rightarrow> h
      | Some (logs, status) \<Rightarrow>
          h\<lparr>sh_state := \<lparr>lg_logs = Some logs, lg_status = Some status, lg_streaming = True,
                         lg_error = None\<rparr>\<rparr>)"

definition handle_done :: "(string \<times> string) option \<Rightarrow> stream_hook \<Rightarrow> stream_hook" where
  "handle_done payload h =
     close (case payload of
        None \<Rightarrow> h
      | Some (logs, status) \<Rightarrow>
          h\<lparr>sh_state := \<lparr>lg_logs = Some logs, lg_status = Some status, lg_streaming = False,
                         lg_error = None\<rparr>\<rparr>)"

definition handle_error :: "ready_state \<Rightarrow> stream_hook \<Rightarrow> stream_hook" where
  "handle_error ready h =
     close (if ready = CLOSED then h\<lparr>sh_state := (sh_state h)\<lparr>lg_streaming := False\<rparr>\<rparr>
            else h\<lparr>sh_state := (sh_state h)\<lparr>lg_streaming := False,
                                lg_error := Some ''Log stream connection lost''\<rparr>\<rparr>)"

text \<open>A message or an error of a connection that is closed or not listened to is not delivered.\<close>

definition delivered :: "nat \<Rightarrow> stream_hook \<Rightarrow> bool" where
  "delivered es h = (sh_listening h = Some es \<and> es \<in> sh_open h)"

fun stream_step :: "stream_event \<Rightarrow> stream_hook \<Rightarrow> stream_hook" where
  "stream_step (Args url token) h = connect url token (cleanup h)"
| "stream_step (LogMessage es p) h = (if delivered es h then handle_log p h else h)"
| "stream_step (DoneMessage es p) h = (if delivered es h then handle_done p h else h)"
| "stream_step (ErrorEvent es r) h = (if delivered es h then handle_error r h else h)"
| "stream_step Unmount h = cleanup h"

definition stream_run :: "stream_event list \<Rightarrow> stream_hook" where
  "stream_run es = fold stream_step es hook_initial"

lemmas stream_defs = close_def cleanup_def connect_def handle_log_def handle_done_def
  handle_error_def delivered_def idle_def Let_def truthy_def

section \<open>Invariant\<close>

text \<open>
  The open connection, if any, is the one in the reference and the one listened to; a reference
  never points at a closed connection; connections are numbered below the counter; a hook that
  shows an error is not streaming.
\<close>

definition stream_inv :: "stream_hook \<Rightarrow> bool" where
  "stream_inv h =
     (sh_open h = set_option (sh_ref h) \<and>
      (\<forall>es. sh_ref h = Some es \<longrightarrow> sh_listening h = Some es \<and> es < sh_next h) \<and>
      (lg_error (sh_state h) \<noteq> None \<longrightarrow> \<not> lg_streaming (sh_state h)))"

lemma stream_inv_initial: "stream_inv hook_initial"
  by (simp add: stream_inv_def hook_initial_def idle_def)

lemma stream_inv_close: "stream_inv h \<Longrightarrow> stream_inv (close h)"
  by (auto simp: stream_inv_def close_def split: option.splits)

lemma stream_inv_cleanup: "stream_inv h \<Longrightarrow> stream_inv (cleanup h)"
  by (auto simp: stream_inv_def cleanup_def close_def split: option.splits)

lemma close_fields [simp]:
  "sh_state (close h) = sh_state h" "sh_next (close h) = sh_next h" "sh_url (close h) = sh_url h"
  "sh_listening (close h) = sh_listening h" "sh_ref (close h) = None"
  by (simp_all add: close_def split: option.splits)

lemma open_close: "stream_inv h \<Longrightarrow> sh_open (close h) = {}"
  by (auto simp: stream_inv_def close_def split: option.splits)

lemma stream_inv_state:
  "stream_inv h \<Longrightarrow> (lg_error st \<noteq> None \<longrightarrow> \<not> lg_streaming st) \<Longrightarrow> stream_inv (h\<lparr>sh_state := st\<rparr>)"
  by (simp add: stream_inv_def)

lemma stream_inv_connect: "stream_inv h \<Longrightarrow> stream_inv (connect url token h)"
  using stream_inv_close [of h] open_close [of h]
  by (auto simp: connect_def Let_def stream_inv_def idle_def split: option.splits)

lemma stream_inv_step: "stream_inv h \<Longrightarrow> stream_inv (stream_step e h)"
  by (cases e)
     (auto intro!: stream_inv_connect stream_inv_cleanup stream_inv_close stream_inv_state
       simp: handle_log_def handle_done_def handle_error_def split: option.splits)

lemma stream_run_inv: "stream_inv (stream_run es)"
proof -
  have "stream_inv h \<Longrightarrow> stream_inv (fold stream_step es h)" for h
    by (induction es arbitrary: h) (auto intro: stream_inv_step)
  then show ?thesis
    by (simp add: stream_run_def stream_inv_initial)
qed

text \<open>
  C29: whatever arrives, at most one connection is open, it is the one the hook holds and listens
  to, and the hook never shows an error while it claims to stream.
\<close>

theorem stream_single_connection:
  "(sh_open (stream_run es) = {} \<or>
    (\<exists>c. sh_open (stream_run es) = {c} \<and> sh_ref (stream_run es) = Some c \<and>
       sh_listening (stream_run es) = Some c)) \<and>
   \<not> (lg_streaming (sh_state (stream_run es)) \<and> lg_error (sh_state (stream_run es)) \<noteq> None)"
  using stream_run_inv [of es] by (cases "sh_ref (stream_run es)") (auto simp: stream_inv_def)

text \<open>
  A message of a connection that the hook replaced changes nothing: after the arguments change,
  only the new connection (the one opened last) can alter what is shown.
\<close>

lemma stale_messages_ignored:
  assumes "c < sh_next (stream_run es)" and "h = stream_run (es @ [Args url token])"
  shows "stream_step (LogMessage c p) h = h \<and> stream_step (DoneMessage c p) h = h \<and>
    stream_step (ErrorEvent c r) h = h"
proof -
  let ?h = "stream_run es"
  have next_cleanup: "sh_next (cleanup h) = sh_next h" for h
    by (simp add: cleanup_def split: option.splits)
  have "\<not> delivered c (connect url token (cleanup ?h))"
    using assms(1) open_close [OF stream_inv_cleanup [OF stream_run_inv [of es]]]
    by (auto simp: delivered_def connect_def Let_def next_cleanup split: option.splits)
  moreover have "h = connect url token (cleanup ?h)"
    by (simp add: assms(2) stream_run_def)
  ultimately show ?thesis by simp
qed

lemma stale_messages_ignored_witness:
  "stream_step (LogMessage 0 (Some (''old'', ''building'')))
     (stream_run ([Args (Some ''/a'') None] @ [Args (Some ''/b'') None])) =
   stream_run ([Args (Some ''/a'') None] @ [Args (Some ''/b'') None])"
proof -
  have "0 < sh_next (stream_run [Args (Some ''/a'') None])"
    by (simp add: stream_run_def connect_def cleanup_def hook_initial_def truthy_def Let_def)
  from stale_messages_ignored [OF this refl] show ?thesis by blast
qed

text \<open>
  The last message of the stream, when its data is malformed, closes the connection and leaves
  the hook claiming to stream, with no connection that could ever end it.
\<close>

lemma malformed_done_sticks:
  assumes "delivered c h" and "stream_inv h" and "lg_streaming (sh_state h)"
    and "\<forall>e \<in> set later. \<forall>u t. e \<noteq> Args u t"
  shows "lg_streaming (sh_state (fold stream_step later (stream_step (DoneMessage c None) h))) \<and>
    sh_open (fold stream_step later (stream_step (DoneMessage c None) h)) = {}"
proof -
  let ?stuck = "\<lambda>h. lg_streaming (sh_state h) \<and> sh_open h = {} \<and> sh_ref h = None"
  have start: "?stuck (stream_step (DoneMessage c None) h)"
    using assms(1-3) by (simp add: handle_done_def open_close)
  have step: "?stuck (stream_step e h)" if "?stuck h" and "\<forall>u t. e \<noteq> Args u t" for e h
    using that by (cases e) (auto simp: delivered_def cleanup_def close_def split: option.splits)
  have "?stuck (fold stream_step later h)"
    if "?stuck h" and "\<forall>e \<in> set later. \<forall>u t. e \<noteq> Args u t" for h
    using that
  proof (induction later arbitrary: h)
    case (Cons e later)
    from Cons.prems have "?stuck (stream_step e h)" by (intro step) auto
    with Cons.IH [of "stream_step e h"] Cons.prems(2) show ?case by simp
  qed simp
  from this [OF start assms(4)] show ?thesis by blast
qed

lemma malformed_done_sticks_witness:
  "lg_streaming (sh_state (fold stream_step [Unmount]
     (stream_step (DoneMessage 0 None) (stream_run [Args (Some ''/a'') None]))))"
proof -
  let ?h = "stream_run [Args (Some ''/a'') None]"
  have "delivered 0 ?h" and "lg_streaming (sh_state ?h)"
    by (simp_all add: stream_run_def connect_def cleanup_def hook_initial_def truthy_def Let_def
        delivered_def)
  from malformed_done_sticks [OF this(1) stream_run_inv this(2), of "[Unmount]"] show ?thesis
    by simp
qed

section \<open>A stream that follows a URL\<close>

text \<open>What a connection delivers.\<close>

fun is_message :: "stream_event \<Rightarrow> bool" where
  "is_message (LogMessage c m) = True"
| "is_message (DoneMessage c m) = True"
| "is_message (ErrorEvent c r) = True"
| "is_message e = False"

text \<open>A hook whose open connection, if any, is to the URL it was last given.\<close>

definition stream_for :: "string option \<Rightarrow> string option \<Rightarrow> stream_hook \<Rightarrow> bool" where
  "stream_for token url h =
     (stream_inv h \<and>
      (sh_open h \<noteq> {} \<longrightarrow> (\<exists>u. url = Some u \<and> sh_url h = Some (stream_url u token))))"

lemma stream_for_initial: "stream_for token url hook_initial"
  using stream_inv_initial by (simp add: stream_for_def hook_initial_def)

lemma stream_for_args:
  assumes "stream_inv h"
  shows "stream_for token url (stream_step (Args url token) h)"
proof -
  have "sh_open (close (cleanup h)) = {}"
    using assms by (intro open_close stream_inv_cleanup)
  then have "sh_open (connect url token (cleanup h)) \<noteq> {} \<longrightarrow>
      (\<exists>u. url = Some u \<and> sh_url (connect url token (cleanup h)) = Some (stream_url u token))"
    by (auto simp: connect_def Let_def split: option.splits)
  then show ?thesis
    using stream_inv_step [OF assms, of "Args url token"] by (simp add: stream_for_def)
qed

lemma stream_for_message:
  assumes "stream_for token url h" and "is_message e"
  shows "stream_for token url (stream_step e h)"
proof -
  have "sh_url (stream_step e h) = sh_url h \<and> sh_open (stream_step e h) \<subseteq> sh_open h"
    using assms(2) by (cases e)
      (auto simp: handle_log_def handle_done_def handle_error_def close_def split: option.splits)
  with assms(1) stream_inv_step [of h e] show ?thesis
    by (auto simp: stream_for_def)
qed

lemma stream_for_url:
  assumes "stream_for token url h" and "sh_open h \<noteq> {}"
  shows "\<exists>u c. url = Some u \<and> sh_open h = {c} \<and> sh_url h = Some (stream_url u token)"
  using assms by (cases "sh_ref h") (auto simp: stream_for_def stream_inv_def)

end
