(* ===== verification/Widgets.thy ===== *)
theory Widgets
  imports ApiTypes Platform
begin

text \<open>
  The shared components of \<open>web/src/components/\<close>: the status badge, the deploy pipeline, the error
  boundary, and the modal dialog with its keyboard and focus handling. A conditional class that
  carries meaning is kept as the tag of the element.
\<close>

section \<open>Status badge\<close>

definition status_labels :: "(string \<times> string) list" where
  "status_labels =
     [(''queued'', ''Queued''), (''building'', ''Building''),
      (''artifact_ready'', ''Artifact Ready''), (''provisioning'', ''Provisioning''),
      (''healthy'', ''Healthy''), (''active'', ''Active''), (''stopped'', ''Stopped''),
      (''failed'', ''Failed''), (''rolled_back'', ''Rolled Back''), (''superseded'', ''Active'')]"

definition status_badge :: "string \<Rightarrow> 'e view" where
  "status_badge status = El (''span.status-'' @ status) [dict_child status_labels status]"

section \<open>Deploy pipeline\<close>

definition pipeline_steps :: "deploy_status list" where
  "pipeline_steps = [Queued, Building, Artifact_ready, Provisioning, Healthy, Active]"

definition terminal_states :: "deploy_status list" where
  "terminal_states = [Failed, Rolled_back, Stopped]"

fun step_label :: "deploy_status \<Rightarrow> string" where
  "step_label Queued = ''Queued''"
| "step_label Building = ''Building''"
| "step_label Artifact_ready = ''Artifact Ready''"
| "step_label Provisioning = ''Provisioning''"
| "step_label Healthy = ''Healthy''"
| "step_label Active = ''Active''"
| "step_label Failed = ''Failed''"
| "step_label Rolled_back = ''Rolled Back''"
| "step_label Superseded = ''Active''"
| "step_label Stopped = ''Stopped''"

datatype step_state = Step_completed | Step_current | Step_pending | Step_failed

text \<open>\<open>xs.indexOf(x)\<close>\<close>

fun index_of :: "'a list \<Rightarrow> 'a \<Rightarrow> int" where
  "index_of [] x = -1"
| "index_of (y # ys) x = (if y = x then 0 else let i = index_of ys x in if i = -1 then -1 else i + 1)"

definition get_step_state :: "deploy_status \<Rightarrow> deploy_status \<Rightarrow> step_state" where
  "get_step_state step current =
     (let step_idx = index_of pipeline_steps step;
          current_idx = index_of pipeline_steps current
      in if current \<in> set terminal_states \<and> current_idx = -1
         then if step = current then Step_failed else Step_pending
         else if current_idx = -1 then Step_pending
         else if step_idx < current_idx then Step_completed
         else if step_idx = current_idx then Step_current
         else Step_pending)"

text \<open>
  What the pipeline shows: for each step its state, its label, the mark in the circle (None is the
  check icon), and, but for the last step, whether the line to the next step is lit; then the badge
  of a terminal status.
\<close>

record step_shown =
  sw_state :: step_state
  sw_mark :: "string option"
  sw_label :: string
  sw_line :: "bool option"

definition effective_status :: "deploy_status \<Rightarrow> deploy_status" where
  "effective_status status = (if status = Superseded then Active else status)"

definition show_step :: "deploy_status \<Rightarrow> nat \<Rightarrow> step_shown" where
  "show_step effective i =
     (let step = pipeline_steps ! i; state = get_step_state step effective
      in \<lparr>sw_state = state,
          sw_mark = (if state = Step_completed then None else Some (show_nat (i + 1))),
          sw_label = step_label step,
          sw_line = (if i < length pipeline_steps - 1
                     then Some (get_step_state (pipeline_steps ! (i + 1)) effective \<noteq> Step_pending)
                     else None)\<rparr>)"

record pipeline_shown =
  pw_steps :: "step_shown list"
  pw_badge :: "string option"

definition deploy_pipeline :: "deploy_status \<Rightarrow> pipeline_shown" where
  "deploy_pipeline status =
     \<lparr>pw_steps = map (show_step (effective_status status)) [0..<length pipeline_steps],
      pw_badge = (if status \<in> set terminal_states then Some (step_label status) else None)\<rparr>"

lemma show_step_label: "i < 6 \<Longrightarrow> sw_label (show_step e i) = step_label (pipeline_steps ! i)"
  by (simp add: show_step_def Let_def)

lemmas pipeline_defs = deploy_pipeline_def show_step_def get_step_state_def effective_status_def
  pipeline_steps_def terminal_states_def upt_rec Let_def

text \<open>How many steps a status has behind it.\<close>

fun progress :: "deploy_status \<Rightarrow> nat" where
  "progress Queued = 0"
| "progress Building = 1"
| "progress Artifact_ready = 2"
| "progress Provisioning = 3"
| "progress Healthy = 4"
| "progress Active = 5"
| "progress Superseded = 5"
| "progress _ = 0"

text \<open>
  A running or finished deploy shows its \<open>k\<close> passed steps as completed, the next as current and
  the rest as pending, with exactly the lines before the current step lit and no badge; a failed,
  rolled-back or stopped deploy shows no progress at all, only its badge.
\<close>

lemma deploy_pipeline_shape:
  "map sw_state (pw_steps (deploy_pipeline status)) =
     (if status \<in> {Failed, Rolled_back, Stopped} then replicate 6 Step_pending
      else replicate (progress status) Step_completed @ Step_current #
           replicate (5 - progress status) Step_pending) \<and>
   map sw_line (pw_steps (deploy_pipeline status)) =
     map (\<lambda>i. Some (i < progress status)) [0..<5] @ [None] \<and>
   pw_badge (deploy_pipeline status) =
     (if status \<in> {Failed, Rolled_back, Stopped} then Some (step_label status) else None)"
  by (cases status) (simp_all add: pipeline_defs numeral_eq_Suc)

text \<open>
  The badge of each status of the API is the label that the pipeline gives the status, so the two
  components never name a deploy differently.
\<close>

lemma status_badge_label:
  "status_badge (deploy_status_text s) = El (''span.status-'' @ deploy_status_text s) [Txt (step_label s)]"
  by (cases s) (simp_all add: status_badge_def dict_child_def dict_get_def status_labels_def)

section \<open>Error boundary\<close>

text \<open>The state is the caught error's message; the children throw when their tree has a refused child.\<close>

type_synonym boundary = "string option"

definition boundary_caught :: "string \<Rightarrow> boundary \<Rightarrow> boundary" where
  "boundary_caught message b = Some message"

definition boundary_reset :: "boundary \<Rightarrow> boundary" where
  "boundary_reset b = None"

definition boundary_render :: "'e \<Rightarrow> boundary \<Rightarrow> 'e view \<Rightarrow> 'e view" where
  "boundary_render reset b children =
     (case b of
        None \<Rightarrow> children
      | Some message \<Rightarrow>
          El ''div''
            [El ''h3'' [Txt ''Something went wrong''],
             El ''p'' [Txt (if truthy message then message else ''An unexpected error occurred.'')],
             Btn False (Some reset) [Txt ''Try again'']])"

text \<open>Rendering until nothing throws: one failed attempt, then the fallback.\<close>

definition boundary_mount :: "'e \<Rightarrow> string \<Rightarrow> boundary \<Rightarrow> 'e view \<Rightarrow> boundary \<times> 'e view" where
  "boundary_mount reset message b children =
     (if crashes (boundary_render reset b children)
      then (boundary_caught message b, boundary_render reset (boundary_caught message b) children)
      else (b, boundary_render reset b children))"

lemma boundary_never_crashes:
  "\<not> crashes (snd (boundary_mount reset message b children))"
  by (simp add: boundary_mount_def boundary_render_def boundary_caught_def)

section \<open>Modal dialog\<close>

text \<open>
  What has the keyboard focus: nothing (the document's body), an element outside the panel, the
  panel, or the panel's \<open>i\<close>-th focusable element.
\<close>

datatype focus = Body | Outside nat | Panel | Inside nat

record modal =
  md_open :: bool
  md_on_close :: nat                \<comment> \<open>identity of the \<open>onClose\<close> of the last render\<close>
  md_focusables :: nat              \<comment> \<open>focusable elements in the panel\<close>
  md_active :: focus
  md_previous :: "focus option"     \<comment> \<open>\<open>previousFocusRef\<close>\<close>
  md_listening :: bool
  md_scroll_locked :: bool
  md_frame :: bool                  \<comment> \<open>an animation frame is requested\<close>

text \<open>\<open>el.focus()\<close>: an element of a panel that is not in the document cannot take the focus.\<close>

definition give_focus :: "focus \<Rightarrow> modal \<Rightarrow> modal" where
  "give_focus f m =
     (case f of
        Body \<Rightarrow> m
      | Outside i \<Rightarrow> m\<lparr>md_active := f\<rparr>
      | _ \<Rightarrow> if md_open m then m\<lparr>md_active := f\<rparr> else m)"

definition modal_effect :: "modal \<Rightarrow> modal" where
  "modal_effect m =
     (if md_open m
      then m\<lparr>md_previous := Some (md_active m), md_listening := True, md_scroll_locked := True,
             md_frame := True\<rparr>
      else m)"

definition modal_cleanup :: "modal \<Rightarrow> modal" where
  "modal_cleanup m =
     (let m = m\<lparr>md_listening := False, md_scroll_locked := False\<rparr>
      in case md_previous m of None \<Rightarrow> m | Some f \<Rightarrow> give_focus f m)"

text \<open>
  A render with new properties: the panel leaves the document with the focus in it, then the effect
  runs again when \<open>open\<close> or \<open>handleKeyDown\<close> (that is, \<open>onClose\<close>) changed.
\<close>

definition modal_render :: "bool \<Rightarrow> nat \<Rightarrow> nat \<Rightarrow> modal \<Rightarrow> modal" where
  "modal_render is_open on_close focusables m =
     (let changed = (is_open \<noteq> md_open m \<or> on_close \<noteq> md_on_close m);
          active = (case md_active m of
                      Panel \<Rightarrow> if is_open then Panel else Body
                    | Inside i \<Rightarrow> if is_open then Inside i else Body
                    | f \<Rightarrow> f);
          m = m\<lparr>md_open := is_open, md_on_close := on_close, md_focusables := focusables,
                md_active := active\<rparr>
      in if changed then modal_effect (modal_cleanup m) else m)"

definition modal_mount :: "bool \<Rightarrow> nat \<Rightarrow> nat \<Rightarrow> focus \<Rightarrow> modal" where
  "modal_mount is_open on_close focusables active =
     modal_effect
       \<lparr>md_open = is_open, md_on_close = on_close, md_focusables = focusables, md_active = active,
        md_previous = None, md_listening = False, md_scroll_locked = False, md_frame = False\<rparr>"

definition modal_frame :: "modal \<Rightarrow> modal" where
  "modal_frame m =
     (if md_frame m
      then let m = m\<lparr>md_frame := False\<rparr>
           in if md_open m then give_focus (if md_focusables m > 0 then Inside 0 else Panel) m else m
      else m)"

text \<open>
  The key handler: whether \<open>onClose\<close> is called, and the state. \<open>away\<close> is where the browser would
  move the focus on Tab; among the panel's elements that is the neighbour.
\<close>

datatype key = Escape | Tab bool | OtherKey

definition tab_default :: "bool \<Rightarrow> focus \<Rightarrow> modal \<Rightarrow> focus" where
  "tab_default shift away m =
     (case md_active m of
        Inside i \<Rightarrow>
          (if shift then if i > 0 then Inside (i - 1) else away
           else if i + 1 < md_focusables m then Inside (i + 1) else away)
      | _ \<Rightarrow> away)"

definition handle_tab :: "bool \<Rightarrow> focus \<Rightarrow> modal \<Rightarrow> modal" where
  "handle_tab shift away m =
     (let moved = m\<lparr>md_active := tab_default shift away m\<rparr>
      in if \<not> md_open m \<or> md_focusables m = 0 then moved
         else if shift
         then if md_active m = Inside 0 then give_focus (Inside (md_focusables m - 1)) m else moved
         else if md_active m = Inside (md_focusables m - 1) then give_focus (Inside 0) m else moved)"

fun modal_key :: "key \<Rightarrow> focus \<Rightarrow> modal \<Rightarrow> bool \<times> modal" where
  "modal_key Escape away m = (md_listening m, m)"
| "modal_key (Tab shift) away m =
     (False, if md_listening m then handle_tab shift away m
             else m\<lparr>md_active := tab_default shift away m\<rparr>)"
| "modal_key OtherKey away m = (False, m)"

text \<open>A click on the backdrop closes; a click inside the panel does not.\<close>

definition overlay_click :: "bool \<Rightarrow> modal \<Rightarrow> bool" where
  "overlay_click on_backdrop m = (md_open m \<and> on_backdrop)"

lemmas modal_defs = modal_mount_def modal_render_def modal_frame_def modal_effect_def
  modal_cleanup_def give_focus_def handle_tab_def tab_default_def Let_def

text \<open>The confirmation dialog.\<close>

record confirm_props =
  cp_title :: string
  cp_description :: "string option"
  cp_confirm_label :: "string option"
  cp_cancel_label :: "string option"
  cp_loading :: bool

definition confirm_modal :: "bool \<Rightarrow> 'e \<Rightarrow> 'e \<Rightarrow> confirm_props \<Rightarrow> 'e view" where
  "confirm_modal is_open on_close on_confirm p =
     when_view is_open
       (El ''dialog''
          [El ''h3'' [Txt (cp_title p)],
           (case cp_description p of
              None \<Rightarrow> Frag []
            | Some d \<Rightarrow> when_view (truthy d) (El ''p'' [Txt d])),
           Btn (cp_loading p) (Some on_close)
             [Txt (case cp_cancel_label p of None \<Rightarrow> ''Cancel'' | Some l \<Rightarrow> l)],
           Btn (cp_loading p) (Some on_confirm)
             [Txt (if cp_loading p then ''...''
                   else case cp_confirm_label p of None \<Rightarrow> ''Confirm'' | Some l \<Rightarrow> l)]])"

lemma offers_confirm_modal [simp]:
  "offers (confirm_modal is_open on_close on_confirm p) e \<longleftrightarrow>
     is_open \<and> \<not> cp_loading p \<and> (e = on_close \<or> e = on_confirm)"
  by (auto simp: confirm_modal_def split: option.split)

text \<open>
  While the dialog is open, Tab and Shift+Tab move the focus around the panel's elements in a
  cycle and never out of it, wherever the browser itself would have gone.
\<close>

lemma modal_focus_cycle:
  assumes "md_open m" and "md_listening m" and "md_active m = Inside i" and "i < md_focusables m"
  shows "md_active (snd (modal_key (Tab False) away m)) = Inside (Suc i mod md_focusables m) \<and>
    md_active (snd (modal_key (Tab True) away m)) =
      Inside ((i + (md_focusables m - 1)) mod md_focusables m)"
proof
  show "md_active (snd (modal_key (Tab False) away m)) = Inside (Suc i mod md_focusables m)"
    using assms by (auto simp: modal_defs)
  have "(i + (md_focusables m - 1)) mod md_focusables m = i - 1" if "0 < i"
    using that assms(4) by (simp add: mod_if)
  then show "md_active (snd (modal_key (Tab True) away m)) =
      Inside ((i + (md_focusables m - 1)) mod md_focusables m)"
    using assms by (auto simp: modal_defs)
qed

lemma modal_focus_cycle_witness:
  "md_active (snd (modal_key (Tab True) Body (modal_frame (modal_mount True 0 3 (Outside 7))))) =
     Inside 2"
proof -
  let ?m = "modal_frame (modal_mount True 0 3 (Outside 7))"
  have "md_open ?m" "md_listening ?m" "md_active ?m = Inside 0" "0 < md_focusables ?m"
    "md_focusables ?m = 3"
    by (simp_all add: modal_defs)
  from modal_focus_cycle [OF this(1-4)] this(5) show ?thesis by simp
qed

text \<open>
  The first time the dialog closes it gives the focus back to the element that had it, unlocks
  the scrolling and drops the key listener, whatever happened to the focus and the panel meanwhile.
\<close>

lemma modal_close_restores:
  assumes "\<not> md_open m" and "md_previous m = None" and "md_active m = Outside a"
    and "m1 = modal_frame (modal_render True h n m)"
    and "m2 = modal_render False h' n' (m1\<lparr>md_active := f, md_focusables := k\<rparr>)"
  shows "md_active m2 = Outside a \<and> \<not> md_listening m2 \<and> \<not> md_scroll_locked m2"
  using assms(1-3) unfolding assms(4,5) by (auto simp: modal_defs split: focus.splits)

text \<open>
  Once it has been closed, every further render of its parent with a new \<open>onClose\<close> (all callers
  pass a fresh function) takes the focus from whatever has it and gives it to the element that
  opened the dialog, although the dialog stays closed.
\<close>

lemma closed_modal_steals_focus:
  assumes "\<not> md_open m" and "md_previous m = Some (Outside p)" and "h \<noteq> md_on_close m"
  shows "md_active (modal_render False h n (m\<lparr>md_active := f\<rparr>)) = Outside p \<and>
    md_previous (modal_render False h n (m\<lparr>md_active := f\<rparr>)) = Some (Outside p)"
  using assms by (auto simp: modal_defs split: focus.splits)

lemma closed_modal_steals_focus_witness:
  "md_active (modal_render False 3 0 ((modal_render False 2 0 (modal_frame (modal_render True 1 2
     (modal_mount False 0 0 (Outside 7)))))\<lparr>md_active := Outside 9\<rparr>)) = Outside 7"
proof -
  let ?m = "modal_render False 2 0 (modal_frame (modal_render True 1 2
     (modal_mount False 0 0 (Outside 7))))"
  have "\<not> md_open ?m" "md_previous ?m = Some (Outside 7)" "3 \<noteq> md_on_close ?m"
    by (simp_all add: modal_defs)
  from closed_modal_steals_focus [OF this] show ?thesis by blast
qed

end
