(* ===== verification/Navigation.thy ===== *)
theory Navigation
  imports Widgets AuthContext
begin

text \<open>
  Who sees what: the navigation items and the sidebar of \<open>web/src/components/sidebar.tsx\<close>, the shell
  of the signed-in pages (\<open>app-shell.tsx\<close>), and the layouts of the route groups under \<open>web/src/app/\<close>
  with the redirects their effects ask for.
\<close>

section \<open>Navigation items\<close>

record nav_item =
  ni_href :: string
  ni_label :: string
  ni_roles :: "role list"
  ni_exact :: bool
  ni_section :: "string option"
  ni_indent :: bool

definition top_item :: "string \<Rightarrow> string \<Rightarrow> role list \<Rightarrow> nav_item" where
  "top_item href label roles =
     \<lparr>ni_href = href, ni_label = label, ni_roles = roles, ni_exact = False, ni_section = None,
      ni_indent = False\<rparr>"

definition section_item :: "string \<Rightarrow> string \<Rightarrow> role list \<Rightarrow> string \<Rightarrow> nav_item" where
  "section_item href label roles sec =
     \<lparr>ni_href = href, ni_label = label, ni_roles = roles, ni_exact = True, ni_section = Some sec,
      ni_indent = False\<rparr>"

definition sub_item :: "string \<Rightarrow> string \<Rightarrow> role list \<Rightarrow> nav_item" where
  "sub_item href label roles =
     \<lparr>ni_href = href, ni_label = label, ni_roles = roles, ni_exact = False, ni_section = None,
      ni_indent = True\<rparr>"

definition NAV_ITEMS :: "nav_item list" where
  "NAV_ITEMS =
    [top_item ''/dashboard'' ''Projects'' [JAS_Developer, JAS_Staff, JAS_Faculty],
     top_item ''/settings'' ''Settings'' [JAS_Developer, JAS_Staff, JAS_Faculty],
     section_item ''/staff'' ''Overview'' [JAS_Staff] ''staff'',
     sub_item ''/staff/projects'' ''All Projects'' [JAS_Staff],
     sub_item ''/staff/students'' ''Students'' [JAS_Staff],
     sub_item ''/staff/tags'' ''Tags'' [JAS_Staff],
     sub_item ''/staff/quotas'' ''Quotas'' [JAS_Staff],
     sub_item ''/staff/vlans'' ''VLANs'' [JAS_Staff],
     sub_item ''/staff/audit'' ''Audit Log'' [JAS_Staff],
     section_item ''/faculty'' ''Overview'' [JAS_Faculty] ''faculty'',
     sub_item ''/faculty/projects'' ''All Projects'' [JAS_Faculty],
     sub_item ''/faculty/students'' ''Students'' [JAS_Faculty],
     sub_item ''/faculty/tags'' ''Tags'' [JAS_Faculty],
     (sub_item ''/faculty/users'' ''Users'' [JAS_Faculty])\<lparr>ni_section := Some ''management''\<rparr>,
     sub_item ''/faculty/quotas'' ''Quotas'' [JAS_Faculty],
     sub_item ''/faculty/network-policies'' ''Network Policies'' [JAS_Faculty],
     sub_item ''/faculty/vlans'' ''VLANs'' [JAS_Faculty],
     sub_item ''/faculty/audit'' ''Audit Log'' [JAS_Faculty],
     section_item ''/admin'' ''Admin'' [JAS_Staff, JAS_Faculty] ''admin'',
     sub_item ''/admin/users'' ''Users'' [JAS_Staff, JAS_Faculty],
     sub_item ''/admin/quotas'' ''Quotas'' [JAS_Staff, JAS_Faculty],
     sub_item ''/admin/network-policies'' ''Network Policies'' [JAS_Staff, JAS_Faculty],
     sub_item ''/admin/vlans'' ''VLANs'' [JAS_Staff, JAS_Faculty],
     sub_item ''/admin/audit'' ''Audit Log'' [JAS_Staff, JAS_Faculty]]"

definition visible_items :: "role \<Rightarrow> nav_item list" where
  "visible_items r = filter (\<lambda>item. r \<in> set (ni_roles item)) NAV_ITEMS"

definition is_active :: "string \<Rightarrow> nav_item \<Rightarrow> bool" where
  "is_active pathname item =
     (if ni_exact item then pathname = ni_href item else starts_with pathname (ni_href item))"

section \<open>Sidebar\<close>

datatype shell_event = OpenDrawer | CloseDrawer | SignOut | PathChanged string
  | PageThrew string    \<comment> \<open>the page threw an error with this message while it rendered\<close>
  | TryAgain

definition section_title :: "string \<Rightarrow> string" where
  "section_title sec =
     (if sec = ''staff'' then ''Staff''
      else if sec = ''faculty'' then ''Faculty''
      else if sec = ''management'' then ''Management''
      else ''Admin'')"

definition nav_entry :: "string \<Rightarrow> nav_item \<Rightarrow> 'e view" where
  "nav_entry pathname item =
     El ''div''
       [(case ni_section item of
           None \<Rightarrow> Frag []
         | Some sec \<Rightarrow> when_view (truthy sec) (El ''p'' [Txt (section_title sec)])),
        Lnk (ni_href item) [El (if is_active pathname item then ''active'' else ''inactive'')
          [Txt (ni_label item)]]]"

definition sidebar_content :: "user_info option \<Rightarrow> string option \<Rightarrow> string \<Rightarrow> shell_event view" where
  "sidebar_content user logout_error pathname =
     (case user of
        None \<Rightarrow> Frag []
      | Some u \<Rightarrow>
          Frag
            [Lnk ''/dashboard'' [Txt ''tbd''], El ''span'' [Txt (role_text (ui_role u))],
             El ''nav'' (map (nav_entry pathname) (visible_items (ui_role u))),
             El ''p'' [Txt (ui_display_name u)], El ''p'' [Txt (ui_email u)],
             Btn False (Some SignOut) [Txt ''Sign out''],
             (case logout_error of
                None \<Rightarrow> Frag []
              | Some e \<Rightarrow> when_view (truthy e) (El ''p'' [Txt e]))])"

text \<open>The desktop sidebar and the mobile drawer with its backdrop; a closed drawer stays in the tree
  (transparent, without pointer events).\<close>

definition sidebar ::
  "user_info option \<Rightarrow> string option \<Rightarrow> string \<Rightarrow> bool \<Rightarrow> shell_event view" where
  "sidebar user logout_error pathname mobile_open =
     Frag
       [El ''aside'' [sidebar_content user logout_error pathname],
        El (if mobile_open then ''drawer.open'' else ''drawer.closed'')
          [Btn False (Some CloseDrawer) [],
           El ''aside''
             [Btn False (Some CloseDrawer) [], sidebar_content user logout_error pathname]]]"

section \<open>Shell\<close>

record shell =
  sl_drawer :: bool
  sl_path :: string
  sl_failure :: boundary    \<comment> \<open>the state of the \<open>ErrorBoundary\<close> around the page\<close>

definition shell_initial :: "string \<Rightarrow> shell" where
  "shell_initial path = \<lparr>sl_drawer = False, sl_path = path, sl_failure = None\<rparr>"

text \<open>A change of route closes the drawer; signing out is an operation of the context.\<close>

fun shell_step :: "shell_event \<Rightarrow> shell \<Rightarrow> shell" where
  "shell_step OpenDrawer s = s\<lparr>sl_drawer := True\<rparr>"
| "shell_step CloseDrawer s = s\<lparr>sl_drawer := False\<rparr>"
| "shell_step SignOut s = s"
| "shell_step (PathChanged p) s =
     (if p \<noteq> sl_path s then s\<lparr>sl_path := p, sl_drawer := False\<rparr> else s)"
| "shell_step (PageThrew m) s = s\<lparr>sl_failure := boundary_caught m (sl_failure s)\<rparr>"
| "shell_step TryAgain s = s\<lparr>sl_failure := boundary_reset (sl_failure s)\<rparr>"

definition app_shell_redirect :: "user_info option \<Rightarrow> bool \<Rightarrow> string option" where
  "app_shell_redirect user loading = (if \<not> loading \<and> user = None then Some ''/login'' else None)"

definition app_shell ::
  "user_info option \<Rightarrow> bool \<Rightarrow> string option \<Rightarrow> shell \<Rightarrow> shell_event view \<Rightarrow> shell_event view" where
  "app_shell user loading logout_error s children =
     (if loading then El ''div'' [El ''p'' [Txt ''Loading...'']]
      else if user = None then Frag []
      else El ''div''
        [sidebar user logout_error (sl_path s) (sl_drawer s),
         El ''header'' [Btn False (Some OpenDrawer) [], El ''span'' [Txt ''tbd'']],
         El ''main'' [boundary_render TryAgain (sl_failure s) children]])"

text \<open>
  The shell survives a change of route, and the boundary with it: once a page threw, every page
  opened later in the same layout is replaced by the fallback, until the user tries again.
\<close>

lemma failure_survives_navigation:
  assumes "sl_failure s \<noteq> None" and "TryAgain \<notin> set es"
  shows "sl_failure (fold shell_step es s) \<noteq> None \<and>
    boundary_render TryAgain (sl_failure (fold shell_step es s)) page =
    boundary_render TryAgain (sl_failure (fold shell_step es s)) page'"
proof -
  have "sl_failure (shell_step e s) \<noteq> None" if "sl_failure s \<noteq> None" "e \<noteq> TryAgain" for e s
    using that by (cases e) (auto simp: boundary_caught_def)
  with assms have "sl_failure (fold shell_step es s) \<noteq> None"
    by (induction es arbitrary: s) auto
  then show ?thesis by (auto simp: boundary_render_def)
qed

section \<open>Layouts\<close>

text \<open>
  A layout renders nothing, or the shell around the page; the effects of the layout, and of the
  shell when it is mounted, ask for redirects.
\<close>

record layout_result =
  ly_shell :: bool
  ly_redirects :: "string list"

definition shell_result :: "user_info option \<Rightarrow> bool \<Rightarrow> layout_result" where
  "shell_result user loading =
     \<lparr>ly_shell = True,
      ly_redirects = (case app_shell_redirect user loading of None \<Rightarrow> [] | Some r \<Rightarrow> [r])\<rparr>"

definition plain_layout :: "user_info option \<Rightarrow> bool \<Rightarrow> layout_result" where
  "plain_layout user loading = shell_result user loading"

definition admin_layout :: "user_info option \<Rightarrow> bool \<Rightarrow> layout_result" where
  "admin_layout user loading = shell_result user loading"

definition staff_layout :: "user_info option \<Rightarrow> bool \<Rightarrow> layout_result" where
  "staff_layout user loading =
     (let turned_away = (\<lambda>u. ui_role u \<noteq> JAS_Staff \<and> ui_role u \<noteq> JAS_Faculty);
          redirects = (case user of
                         None \<Rightarrow> []
                       | Some u \<Rightarrow> if \<not> loading \<and> turned_away u then [''/dashboard''] else [])
      in if loading then \<lparr>ly_shell = False, ly_redirects = redirects\<rparr>
         else case user of
                None \<Rightarrow> \<lparr>ly_shell = False, ly_redirects = redirects\<rparr>
              | Some u \<Rightarrow>
                  if turned_away u then \<lparr>ly_shell = False, ly_redirects = redirects\<rparr>
                  else (shell_result user loading)
                    \<lparr>ly_redirects := ly_redirects (shell_result user loading) @ redirects\<rparr>)"

definition faculty_layout :: "user_info option \<Rightarrow> bool \<Rightarrow> layout_result" where
  "faculty_layout user loading =
     (let turned_away = (\<lambda>u. ui_role u \<noteq> JAS_Faculty);
          redirects = (case user of
                         None \<Rightarrow> []
                       | Some u \<Rightarrow> if \<not> loading \<and> turned_away u then [''/dashboard''] else [])
      in if loading then \<lparr>ly_shell = False, ly_redirects = redirects\<rparr>
         else case user of
                None \<Rightarrow> \<lparr>ly_shell = False, ly_redirects = redirects\<rparr>
              | Some u \<Rightarrow>
                  if turned_away u then \<lparr>ly_shell = False, ly_redirects = redirects\<rparr>
                  else (shell_result user loading)
                    \<lparr>ly_redirects := ly_redirects (shell_result user loading) @ redirects\<rparr>)"

text \<open>
  The layout of a route, by the first directory of the path. The other routes (the landing page,
  the login page, the hand-off page) have no layout of their own: their page is always shown.
\<close>

definition route_group :: "string \<Rightarrow> string" where
  "route_group path = (case split_on (CHR ''/'') path of [] # d # ds \<Rightarrow> d | _ \<Rightarrow> [])"

definition group_layouts :: "(string \<times> (user_info option \<Rightarrow> bool \<Rightarrow> layout_result)) list" where
  "group_layouts =
     [(''dashboard'', plain_layout), (''settings'', plain_layout), (''admin'', admin_layout),
      (''staff'', staff_layout), (''faculty'', faculty_layout)]"

definition layout_of :: "string \<Rightarrow> user_info option \<Rightarrow> bool \<Rightarrow> layout_result option" where
  "layout_of path user loading =
     map_option (\<lambda>layout. layout user loading) (map_of group_layouts (route_group path))"

lemmas layout_defs = plain_layout_def admin_layout_def staff_layout_def faculty_layout_def
  shell_result_def app_shell_redirect_def Let_def

section \<open>What each role gets\<close>

lemmas nav_defs = NAV_ITEMS_def visible_items_def top_item_def section_item_def sub_item_def

text \<open>Two items can be active on one path only when one of the two paths starts with the other.\<close>

definition overlap :: "nav_item \<Rightarrow> nav_item \<Rightarrow> bool" where
  "overlap x y =
     (if ni_exact x then is_active (ni_href x) y
      else if ni_exact y then is_active (ni_href y) x
      else starts_with (ni_href x) (ni_href y) \<or> starts_with (ni_href y) (ni_href x))"

lemma starts_with_both:
  assumes "starts_with p a" and "starts_with p b"
  shows "starts_with a b \<or> starts_with b a"
proof -
  obtain s where "p = a @ s"
    using assms(1) by (auto simp: starts_with_iff)
  moreover obtain t where "p = b @ t"
    using assms(2) by (auto simp: starts_with_iff)
  ultimately have "(\<exists>u. a = b @ u) \<or> (\<exists>u. b = a @ u)"
    by (metis append_eq_append_conv2)
  then show ?thesis by (auto simp: starts_with_iff)
qed

lemma active_overlap: "is_active p x \<Longrightarrow> is_active p y \<Longrightarrow> overlap x y"
  using starts_with_both [of p "ni_href x" "ni_href y"]
  by (auto simp: overlap_def is_active_def split: if_splits)

fun pairwise_apart :: "nav_item list \<Rightarrow> bool" where
  "pairwise_apart [] = True"
| "pairwise_apart (x # xs) = (list_all (\<lambda>y. \<not> overlap x y) xs \<and> pairwise_apart xs)"

lemma nav_items_apart: "pairwise_apart NAV_ITEMS"
  by code_simp

lemma apart_filter: "pairwise_apart xs \<Longrightarrow> pairwise_apart (filter P xs)"
  by (induction xs) (auto simp: list_all_iff)

lemma apart_single: "pairwise_apart xs \<Longrightarrow> length (filter (is_active p) xs) \<le> 1"
proof (induction xs)
  case (Cons x xs)
  then show ?case
    by (auto simp: list_all_iff filter_empty_conv dest: active_overlap)
qed simp

text \<open>
  On every path at most one of the items a user sees is marked as active.
\<close>

lemma one_active_item:
  "length (filter (is_active pathname) (visible_items r)) \<le> 1"
  unfolding visible_items_def by (intro apart_single apart_filter nav_items_apart)

definition admitted :: "role \<Rightarrow> string \<Rightarrow> bool" where
  "admitted r path =
     list_all (\<lambda>g. route_group path = fst g \<longrightarrow> r \<in> set (snd g))
       [(''staff'', [JAS_Staff, JAS_Faculty]), (''faculty'', [JAS_Faculty])]"

lemma layout_admits:
  "layout_of path (Some u) False =
     (if route_group path \<in> set (map fst group_layouts)
      then Some (if admitted (ui_role u) path then \<lparr>ly_shell = True, ly_redirects = []\<rparr>
                 else \<lparr>ly_shell = False, ly_redirects = [''/dashboard'']\<rparr>)
      else None)"
  by (cases "ui_role u") (auto simp: layout_of_def group_layouts_def admitted_def layout_defs)

lemma all_role: "(\<forall>r. P r) \<longleftrightarrow> P JAS_Developer \<and> P JAS_Staff \<and> P JAS_Faculty"
  by (metis role.exhaust)

lemma visible_admitted:
  "\<forall>r. list_all (\<lambda>item. route_group (ni_href item) \<in> set (map fst group_layouts) \<and>
     admitted r (ni_href item)) (visible_items r)"
proof -
  have "list_all (\<lambda>r. list_all (\<lambda>item. route_group (ni_href item) \<in> set (map fst group_layouts) \<and>
     admitted r (ni_href item)) (visible_items r)) [JAS_Developer, JAS_Staff, JAS_Faculty]"
    by code_simp
  then show ?thesis by (simp add: all_role)
qed

text \<open>
  The sidebar never sends a user to a route that turns the user away: the layout behind every
  visible item shows its page to that user and asks for no redirect.
\<close>

lemma sidebar_links_admitted:
  assumes "item \<in> set (visible_items (ui_role u))"
  shows "layout_of (ni_href item) (Some u) False = Some \<lparr>ly_shell = True, ly_redirects = []\<rparr>"
proof -
  have "route_group (ni_href item) \<in> set (map fst group_layouts) \<and> admitted (ui_role u) (ni_href item)"
    using assms visible_admitted by (simp only: list_all_iff)
  then show ?thesis by (simp only: layout_admits if_True)
qed

lemma sidebar_links_admitted_witness:
  "\<exists>item. item \<in> set (visible_items (ui_role sample_user)) \<and>
     layout_of (ni_href item) (Some sample_user) False = Some \<lparr>ly_shell = True, ly_redirects = []\<rparr>"
proof -
  have "hd (visible_items (ui_role sample_user)) \<in> set (visible_items (ui_role sample_user))"
    by code_simp
  from this sidebar_links_admitted [OF this] show ?thesis by blast
qed

text \<open>
  A signed-in user who opens a route of another role's group gets an empty page and is sent
  to the dashboard: developers from the staff and faculty routes, staff from the faculty routes.
\<close>

lemma route_gate:
  "(layout_of path (Some u) False = Some \<lparr>ly_shell = False, ly_redirects = [''/dashboard'']\<rparr>) \<longleftrightarrow>
     (route_group path = ''staff'' \<and> ui_role u = JAS_Developer \<or>
      route_group path = ''faculty'' \<and> ui_role u \<noteq> JAS_Faculty)"
  unfolding layout_admits
  by (cases "ui_role u") (auto simp: admitted_def group_layouts_def)

text \<open>
  A visitor without a session is sent to the login page from the routes of the dashboard, the
  settings and the administration, but on the staff and faculty routes nothing is shown and no
  redirect ever happens, as the layout never mounts the shell whose effect would redirect.
\<close>

lemma signed_out_visitor:
  "layout_of path None False =
     (if route_group path \<in> {''staff'', ''faculty''} then Some \<lparr>ly_shell = False, ly_redirects = []\<rparr>
      else if route_group path \<in> {''dashboard'', ''settings'', ''admin''}
      then Some \<lparr>ly_shell = True, ly_redirects = [''/login'']\<rparr>
      else None)"
  by (simp add: layout_of_def group_layouts_def layout_defs)

end
