(* ===== verification/SignIn.thy ===== *)
theory SignIn
  imports OidcRoutes AuthContext
begin

text \<open>
  The two client pages of signing in: the login page (\<open>web/src/app/login/page.tsx\<close>) as a machine
  over its form, and the hand-off page of the sign-on flow (\<open>web/src/app/auth/sso-bridge/page.tsx\<close>).
  The login page calls the context's \<open>login\<close>, the bridge calls \<open>applySession\<close>; what those calls
  return is the answer to the request in flight.
\<close>

section \<open>Login page: state and the sign-on error\<close>

definition SSO_ERROR_MESSAGES :: "(string \<times> string) list" where
  "SSO_ERROR_MESSAGES =
    [(''not_configured'', ''SSO is not configured for this environment.''),
     (''invalid_callback'', ''The auth service returned an incomplete sign-in response.''),
     (''missing_flow_cookie'',
      ''Your browser did not return the sign-in cookie. Please retry with cookies enabled.''),
     (''state_mismatch'', ''Sign-in session expired or invalid. Please try again.''),
     (''nonce_mismatch'', ''Sign-in could not be verified. Please try again.''),
     (''token_exchange_failed'', ''Could not complete sign-in with the auth service.''),
     (''missing_id_token'', ''Auth service did not return a sign-in token.''),
     (''bad_id_token'', ''Auth service returned an unreadable sign-in token.''),
     (''exchange_rejected'', ''The platform rejected the SSO sign-in.''),
     (''exchange_failed'', ''Could not reach the API to complete SSO sign-in.''),
     (''no_session_token'', ''SSO sign-in did not produce a session token.'')]"

text \<open>The value of the error state; None is an update that throws when React applies it.\<close>

record login_page =
  lp_username :: string
  lp_password :: string
  lp_error :: "json option"
  lp_loading :: bool
  lp_redirects :: "string list"

text \<open>
  \<open>setError(f)\<close> with a function calls \<open>f("")\<close> without a receiver: the functions of
  \<open>Object.prototype\<close> then throw, but for the constructor (an empty \<open>String\<close> object, which renders as
  a list of nothing), \<open>toString\<close> and \<open>isPrototypeOf\<close>.
\<close>

definition updater_value :: "string \<Rightarrow> json option" where
  "updater_value name =
     (if name = ''constructor'' then Some (JArr [])
      else if name = ''toString'' then Some (JStr ''[object Undefined]'')
      else if name = ''isPrototypeOf'' then Some (JBool False)
      else None)"

definition sso_error_state :: "string \<Rightarrow> json option" where
  "sso_error_state sso_error =
     (case dict_get SSO_ERROR_MESSAGES sso_error of
        Own m \<Rightarrow> Some (JStr m)
      | Missing \<Rightarrow> Some (JStr (''SSO sign-in failed ('' @ sso_error @ '').''))
      | Inherited_function \<Rightarrow> updater_value sso_error
      | Inherited_object \<Rightarrow> Some (JObj []))"

text \<open>Mounting on the query of the address: the effect reads the error and scrubs the address.\<close>

definition login_mount :: "string \<Rightarrow> login_page" where
  "login_mount query =
     \<lparr>lp_username = [], lp_password = [],
      lp_error = (case params_get (parse_params query) ''sso_error'' of
                    None \<Rightarrow> Some (JStr [])
                  | Some e \<Rightarrow> if truthy e then sso_error_state e else Some (JStr [])),
      lp_loading = False, lp_redirects = []\<rparr>"

section \<open>Login page: the form\<close>

datatype login_event = SetUsername string | SetPassword string | SubmitLogin

datatype login_cmd = LoginCall string string

fun login_handle :: "login_event \<Rightarrow> login_page \<Rightarrow> login_page \<times> login_cmd list" where
  "login_handle (SetUsername v) s = (s\<lparr>lp_username := v\<rparr>, [])"
| "login_handle (SetPassword v) s = (s\<lparr>lp_password := v\<rparr>, [])"
| "login_handle SubmitLogin s =
     (s\<lparr>lp_error := Some (JStr []), lp_loading := True\<rparr>, [LoginCall (lp_username s) (lp_password s)])"

fun login_failed :: "js_exn \<Rightarrow> json" where
  "login_failed (ApiErr st detail) = detail"
| "login_failed e = JStr ''An unexpected error occurred.''"

fun login_resume :: "login_cmd \<Rightarrow> js_exn option \<Rightarrow> login_page \<Rightarrow> login_page \<times> login_cmd list" where
  "login_resume c None s =
     (s\<lparr>lp_redirects := lp_redirects s @ [''/dashboard''], lp_loading := False\<rparr>, [])"
| "login_resume c (Some e) s = (s\<lparr>lp_error := Some (login_failed e), lp_loading := False\<rparr>, [])"

definition login_error_box :: "json option \<Rightarrow> 'e view" where
  "login_error_box err =
     (case err of
        None \<Rightarrow> Refused
      | Some e \<Rightarrow>
          if truthy_json e then El ''div.error'' [json_child e] else json_child e)"

definition login_form :: "login_page \<Rightarrow> login_event view" where
  "login_form s =
     Frm SubmitLogin
       [El ''label'' [Txt ''Username''], Inp ''text'' (lp_username s) ''jdoe'' SetUsername,
        El ''label'' [Txt ''Password''], Inp ''password'' (lp_password s) [] SetPassword,
        login_error_box (lp_error s),
        Btn (lp_loading s) None
          [Txt (if lp_loading s then ''Authenticating...'' else ''Sign in'')]]"

definition login_view :: "string \<Rightarrow> user_info option \<Rightarrow> login_page \<Rightarrow> login_event view" where
  "login_view year user s =
     (if user \<noteq> None then Frag []
      else El ''div''
        [Lnk ''/'' [Txt ''tbd''],
         El ''h1'' [El ''span'' [Txt ''>''], Txt '' authenticate''],
         El ''p'' [Txt ''Sign in via SSO or with your Active Directory credentials''],
         Lnk ''/api/auth/oidc/login?redirect=/dashboard'' [Txt ''Sign in with SSO''],
         El ''span'' [Txt ''or AD credentials''],
         login_form s,
         El ''p'' [Txt year, Txt ('' SDC '' @ middot @ '' TBD Platform'')]])"

text \<open>The redirect of a render with a user.\<close>

definition login_render_redirect :: "user_info option \<Rightarrow> string option" where
  "login_render_redirect user = (case user of None \<Rightarrow> None | Some u \<Rightarrow> Some ''/dashboard'')"

text \<open>Both fields are required: the browser does not submit the form while one is empty.\<close>

definition login_offered :: "login_page \<Rightarrow> login_event \<Rightarrow> bool" where
  "login_offered s e =
     (\<not> crashes (login_view [] None s) \<and> offers (login_view [] None s) e \<and>
      (e = SubmitLogin \<longrightarrow> lp_username s \<noteq> [] \<and> lp_password s \<noteq> []))"

definition any_reply :: "'c \<Rightarrow> 'r \<Rightarrow> bool" where
  "any_reply c r = True"

lemma login_offered_simps [simp]:
  "login_offered s SubmitLogin \<longleftrightarrow>
     \<not> crashes (login_view [] None s) \<and> \<not> lp_loading s \<and> lp_username s \<noteq> [] \<and> lp_password s \<noteq> []"
  "login_offered s (SetUsername v) \<longleftrightarrow> \<not> crashes (login_view [] None s)"
  "login_offered s (SetPassword v) \<longleftrightarrow> \<not> crashes (login_view [] None s)"
  by (auto simp: login_offered_def login_view_def login_form_def login_error_box_def
      split: option.splits)

lemma login_view_crashes:
  "crashes (login_view year None s) \<longleftrightarrow>
     (case lp_error s of None \<Rightarrow> True | Some e \<Rightarrow> \<not> renderable e)"
  by (simp add: login_view_def login_form_def login_error_box_def split: option.splits)

text \<open>One attempt at a time: the form is loading exactly while its call is in flight.\<close>

definition login_inv :: "login_page \<Rightarrow> login_cmd list \<Rightarrow> bool" where
  "login_inv s fl = (length fl = (if lp_loading s then 1 else 0))"

lemma login_handle_inv:
  "login_inv s fl \<Longrightarrow> login_offered s e \<Longrightarrow> login_handle e s = (s', cs) \<Longrightarrow> login_inv s' (fl @ cs)"
  by (cases e) (auto simp: login_inv_def)

lemma login_resume_inv:
  "login_inv s (xs @ c # ys) \<Longrightarrow> login_resume c r s = (s', cs) \<Longrightarrow> login_inv s' (xs @ ys @ cs)"
  by (cases r) (auto simp: login_inv_def split: if_splits)

lemma login_mount_idle: "lp_loading (login_mount query) = False"
  by (simp add: login_mount_def)

interpretation login_form: world_invariant login_offered login_handle login_resume any_reply
  "(login_mount query, [])" login_inv for query
proof unfold_locales
  show "login_inv (fst (login_mount query, [])) (snd (login_mount query, []))"
    by (simp add: login_inv_def login_mount_idle)
qed (erule (2) login_handle_inv, erule login_resume_inv)

abbreviation login_steps where
  "login_steps \<equiv> wstep login_offered login_handle login_resume any_reply"

text \<open>
  The login page never has two sign-in attempts in flight, and while it has one, its button is
  disabled and the form cannot be submitted again.
\<close>

lemma login_single_attempt:
  assumes "login_steps\<^sup>*\<^sup>* (login_mount query, []) (s, fl)"
  shows "length fl \<le> 1 \<and> (fl \<noteq> [] \<longrightarrow> \<not> login_offered s SubmitLogin) \<and> (fl = [] \<longrightarrow> \<not> lp_loading s)"
  using login_form.reach_state_inv [OF assms] by (auto simp: login_inv_def split: if_splits)

lemma login_single_attempt_witness:
  "\<not> login_offered ((login_mount [])\<lparr>lp_username := ''u'', lp_password := ''p'',
      lp_loading := True\<rparr>) SubmitLogin"
proof -
  let ?acts = "[Inl (SetUsername ''u''), Inl (SetPassword ''p''), Inl SubmitLogin] ::
    (login_event + nat \<times> js_exn option) list"
  let ?s = "(login_mount [])\<lparr>lp_username := ''u'', lp_password := ''p'', lp_loading := True\<rparr>"
  have "playable login_offered login_handle login_resume any_reply ?acts (login_mount [], [])"
    by (simp add: login_mount_def login_view_crashes parse_params_def params_get_def truthy_def)
  from run_script_reaches [OF this]
  have "login_steps\<^sup>*\<^sup>* (login_mount [], []) (?s, [LoginCall ''u'' ''p''])"
    by (simp add: login_mount_def params_get_def parse_params_def)
  from login_single_attempt [OF this] show ?thesis by blast
qed

section \<open>What the page shows of a failure\<close>

lemma callback_messages:
  "list_all (\<lambda>r. case map_of SSO_ERROR_MESSAGES r of
       None \<Rightarrow> False
     | Some m \<Rightarrow> m \<noteq> [] \<and> sso_error_state r = Some (JStr m)) failure_reasons"
  by code_simp

lemma form_decode_sso_error: "form_decode ''sso_error'' = ''sso_error''"
  by (simp add: form_decode_plain)

lemma parse_sso_error: "parse_params (''sso_error='' @ encode_uri_component e) = [(''sso_error'', e)]"
proof -
  have "CHR ''&'' \<notin> set (''sso_error='' @ encode_uri_component e)"
    by (auto dest: encode_uri_plain)
  from split_on_no_sep [OF this]
  have "split_on (CHR ''&'') (''sso_error='' @ encode_uri_component e) =
      [''sso_error'' @ CHR ''='' # encode_uri_component e]"
    by simp
  moreover have "split_first (CHR ''='') (''sso_error'' @ CHR ''='' # encode_uri_component e) =
      (''sso_error'', encode_uri_component e)"
    by (rule split_first_append) simp
  ultimately show ?thesis
    by (simp add: parse_params_def form_decode_sso_error form_decode_encode_uri)
qed

text \<open>
  When the client's callback refuses a sign-on for one of its own reasons, the login page it
  redirects to shows the message written for that reason.
\<close>

lemma callback_failure_shown:
  assumes "callback_outcome json_parse env u jar exchange swap = Failed_with reason"
    and "reason \<in> set failure_reasons"
    and "callback_get json_parse env u jar exchange swap = Some r"
  shows "\<exists>query m. rd_location r = u_origin u @ ''/login?'' @ query \<and>
    map_of SSO_ERROR_MESSAGES reason = Some m \<and>
    m \<in> set (texts (login_view year None (login_mount query)))"
proof -
  have "case map_of SSO_ERROR_MESSAGES reason of None \<Rightarrow> False
      | Some m \<Rightarrow> m \<noteq> [] \<and> sso_error_state reason = Some (JStr m)"
    using callback_messages assms(2) by (simp only: list_all_iff)
  then obtain m where own: "map_of SSO_ERROR_MESSAGES reason = Some m"
    and m: "sso_error_state reason = Some (JStr m)" "m \<noteq> []"
    by (cases "map_of SSO_ERROR_MESSAGES reason") simp_all
  have "reason \<noteq> []"
    using assms(2) by (auto simp: failure_reasons_def)
  then have "lp_error (login_mount (''sso_error='' @ encode_uri_component reason)) = Some (JStr m)"
    using m by (simp add: login_mount_def parse_sso_error params_get_def truthy_def del: append.simps)
  then have "m \<in> set (texts (login_view year None
      (login_mount (''sso_error='' @ encode_uri_component reason))))"
    using m(2) by (simp add: login_view_def login_form_def login_error_box_def truthy_def
        del: append.simps)
  moreover have "rd_location r = u_origin u @ ''/login?'' @ ''sso_error='' @ encode_uri_component reason"
    using assms(1,3) by (auto simp: callback_get_def fail_def)
  ultimately show ?thesis using own by blast
qed

lemma callback_failure_shown_witness:
  "\<exists>r query m. callback_get sample_json_parse sample_env sample_callback_url Map.empty
       sample_exchange sample_swap = Some r \<and>
     rd_location r = u_origin sample_callback_url @ ''/login?'' @ query \<and>
     map_of SSO_ERROR_MESSAGES ''missing_flow_cookie'' = Some m \<and>
     m \<in> set (texts (login_view ''2026'' None (login_mount query)))"
proof -
  obtain r where r: "callback_get sample_json_parse sample_env sample_callback_url Map.empty
      sample_exchange sample_swap = Some r"
    by (simp add: callback_get_def sample_rejected)
  have "''missing_flow_cookie'' \<in> set failure_reasons"
    by (simp add: failure_reasons_def)
  from callback_failure_shown [OF sample_rejected this r] r show ?thesis by blast
qed

definition crash_value :: "json option \<Rightarrow> bool" where
  "crash_value v = (case v of None \<Rightarrow> True | Some e \<Rightarrow> \<not> renderable e)"

lemma sso_messages_not_inherited:
  "list_all (\<lambda>k. map_of SSO_ERROR_MESSAGES k = None) (''__proto__'' # prototype_functions)"
  by code_simp

definition crashing_names :: "string list" where
  "crashing_names =
     [''__defineGetter__'', ''__defineSetter__'', ''hasOwnProperty'', ''__lookupGetter__'',
      ''__lookupSetter__'', ''propertyIsEnumerable'', ''valueOf'', ''toLocaleString'',
      ''__proto__'']"

lemma sso_error_state_crash: "crash_value (sso_error_state e) \<longleftrightarrow> e \<in> set crashing_names"
proof (cases "e \<in> set (''__proto__'' # prototype_functions)")
  case True
  have "list_all (\<lambda>e. crash_value (sso_error_state e) \<longleftrightarrow> list_ex (\<lambda>n. n = e) crashing_names)
      (''__proto__'' # prototype_functions)"
    by code_simp
  with True have "crash_value (sso_error_state e) \<longleftrightarrow> list_ex (\<lambda>n. n = e) crashing_names"
    by (simp only: list_all_iff)
  then show ?thesis by (simp only: list_ex_iff) blast
next
  case False
  then have "\<not> crash_value (sso_error_state e)"
    by (auto simp: sso_error_state_def dict_get_def crash_value_def split: option.split)
  moreover have "set crashing_names \<subseteq> set (''__proto__'' # prototype_functions)"
    by (simp add: crashing_names_def prototype_functions_def)
  ultimately show ?thesis using False by blast
qed

text \<open>
  An error name in the address breaks the page (the render throws, with no boundary above it)
  exactly when it is one of nine names that every object inherits; any other address renders.
\<close>

lemma login_address_crash:
  "crashes (login_view year None (login_mount query)) \<longleftrightarrow>
     (\<exists>e \<in> set crashing_names. params_get (parse_params query) ''sso_error'' = Some e)"
proof -
  have "crashes (login_view year None (login_mount query)) \<longleftrightarrow> crash_value (lp_error (login_mount query))"
    by (simp add: login_view_crashes crash_value_def)
  also have "\<dots> \<longleftrightarrow> (case params_get (parse_params query) ''sso_error'' of
      None \<Rightarrow> False | Some e \<Rightarrow> e \<in> set crashing_names)"
  proof (cases "params_get (parse_params query) ''sso_error''")
    case None
    then show ?thesis by (simp add: login_mount_def crash_value_def)
  next
    case (Some e)
    have "[] \<notin> set crashing_names" by (simp add: crashing_names_def)
    with Some show ?thesis
      using sso_error_state_crash [of e]
      by (cases "e = []") (simp_all add: login_mount_def truthy_def crash_value_def)
  qed
  finally show ?thesis
    by (simp split: option.split)
qed

text \<open>
  After a failed sign-in the page renders exactly when the detail of the error can be rendered:
  a detail that is a list of objects, as the API answers with to a request it finds invalid, breaks
  the login page instead of being shown.
\<close>

lemma login_failure_render:
  assumes "login_resume c (Some (ApiErr st detail)) s = (s', cs)"
  shows "(crashes (login_view year None s') \<longleftrightarrow> \<not> renderable detail) \<and>
    (\<forall>m. detail = JStr m \<and> m \<noteq> [] \<longrightarrow> m \<in> set (texts (login_view year None s')))"
proof -
  have s': "lp_error s' = Some detail"
    using assms by auto
  then have "crashes (login_view year None s') \<longleftrightarrow> \<not> renderable detail"
    by (simp add: login_view_crashes)
  moreover have "m \<in> set (texts (login_view year None s'))" if "detail = JStr m" and "m \<noteq> []" for m
    using s' that by (simp add: login_view_def login_form_def login_error_box_def truthy_def)
  ultimately show ?thesis by blast
qed

text \<open>The answer of the API's validation to a user name of more than 255 characters.\<close>

definition validation_detail :: json where
  "validation_detail =
     JArr [JObj [(''type'', JStr ''string_too_long''),
       (''loc'', JArr [JStr ''body'', JStr ''username'']),
       (''msg'', JStr ''String should have at most 255 characters'')]]"

lemma login_failure_render_witness:
  "crashes (login_view ''2026'' None
     (fst (login_resume (LoginCall ''u'' ''p'') (Some (ApiErr 422 validation_detail)) (login_mount []))))"
proof -
  obtain s' cs where r: "login_resume (LoginCall ''u'' ''p'') (Some (ApiErr 422 validation_detail))
      (login_mount []) = (s', cs)"
    by fastforce
  have "\<not> renderable validation_detail"
    by (simp add: validation_detail_def)
  with login_failure_render [OF r] r show ?thesis by simp
qed

section \<open>The hand-off page\<close>

text \<open>
  The effect on the fragment of the address (with its number sign): a redirect to the login page, or
  a session to adopt and where to go then.
\<close>

datatype bridge_action = Bridge_login string | Bridge_apply string string

definition strip_hash :: "string \<Rightarrow> string" where
  "strip_hash s = (case s of [] \<Rightarrow> [] | c # cs \<Rightarrow> if c = CHR ''#'' then cs else s)"

definition bridge_login_path :: "string option \<Rightarrow> string" where
  "bridge_login_path error_param =
     ''/login'' @
     (case error_param of
        Some e \<Rightarrow> if truthy e then ''?sso_error='' @ encode_uri_component e else []
      | None \<Rightarrow> [])"

definition bridge_mount :: "string \<Rightarrow> bridge_action" where
  "bridge_mount hash =
     (let params = parse_params (strip_hash hash);
          token = params_get params ''token'';
          redirect_param = params_get params ''redirect'';
          error_param = params_get params ''error''
      in case token of
           Some t \<Rightarrow>
             if truthy t
             then Bridge_apply t
               (case redirect_param of
                  Some r \<Rightarrow> if truthy r \<and> starts_with r ''/'' then r else ''/dashboard''
                | None \<Rightarrow> ''/dashboard'')
             else Bridge_login (bridge_login_path error_param)
         | None \<Rightarrow> Bridge_login (bridge_login_path error_param))"

text \<open>The page after the answer of \<open>applySession\<close>: where it goes, and the error it shows.\<close>

fun bridge_resume :: "string \<Rightarrow> bool \<Rightarrow> string option \<times> string" where
  "bridge_resume redirect ok =
     (if ok then (Some redirect, [])
      else (None, ''SSO session could not be established. Please try signing in again.''))"

definition bridge_view :: "string \<Rightarrow> 'e view" where
  "bridge_view err =
     (if truthy err
      then Frag [El ''p'' [Txt err], Lnk ''/login'' [Txt ''Back to sign in'']]
      else El ''p'' [Txt (''completing sign-in'' @ hellip)])"

lemma parse_bridge_fragment:
  "parse_params (bridge_fragment t r) = [(''token'', t), (''redirect'', r)]"
proof -
  have "parse_params (''token'' @ CHR ''='' # encode_uri_component t @ CHR ''&'' #
      ''redirect'' @ CHR ''='' # encode_uri_component r) =
    [(form_decode ''token'', form_decode (encode_uri_component t)),
     (form_decode ''redirect'', form_decode (encode_uri_component r))]"
    by (rule parse_two_params) (auto dest: encode_uri_plain)
  moreover have "form_decode ''token'' = ''token''" and "form_decode ''redirect'' = ''redirect''"
    by (simp_all add: form_decode_plain)
  ultimately show ?thesis
    by (simp add: bridge_fragment_def form_decode_encode_uri)
qed

lemma bridge_reads_fragment:
  "t \<noteq> [] \<Longrightarrow> bridge_mount (CHR ''#'' # bridge_fragment t redirect) =
     Bridge_apply t (if starts_with redirect ''/'' then redirect else ''/dashboard'')"
  by (cases redirect)
     (auto simp: bridge_mount_def strip_hash_def parse_bridge_fragment params_get_def truthy_def)

text \<open>
  C25: the hand-off page adopts exactly the session token that the callback put into the fragment,
  whatever its characters, and takes as the path to go on to exactly the redirect of the callback when
  that begins with a slash, and the dashboard otherwise.
\<close>

theorem bridge_adopts_session:
  assumes "callback_outcome json_parse env u jar exchange swap = Session t redirect" and "t \<noteq> []"
    and "callback_get json_parse env u jar exchange swap = Some r"
  shows "\<exists>hash. rd_location r = u_origin u @ ''/auth/sso-bridge'' @ hash \<and>
    bridge_mount hash =
      Bridge_apply t (if starts_with redirect ''/'' then redirect else ''/dashboard'')"
proof (intro exI conjI)
  show "rd_location r = u_origin u @ ''/auth/sso-bridge'' @ (CHR ''#'' # bridge_fragment t redirect)"
    using assms(1,3) by (auto simp: callback_get_def)
  show "bridge_mount (CHR ''#'' # bridge_fragment t redirect) =
      Bridge_apply t (if starts_with redirect ''/'' then redirect else ''/dashboard'')"
    by (rule bridge_reads_fragment [OF assms(2)])
qed

theorem bridge_adopts_session_witness:
  "bridge_mount ''#token=jwt&redirect=%2Fsettings'' = Bridge_apply ''jwt'' ''/settings'' \<and>
   (\<exists>r hash. callback_get sample_json_parse sample_env sample_callback_url sample_jar
       sample_exchange sample_swap = Some r \<and>
     rd_location r = u_origin sample_callback_url @ ''/auth/sso-bridge'' @ hash \<and>
     bridge_mount hash = Bridge_apply ''jwt'' ''/settings'')"
proof -
  obtain r where r: "callback_get sample_json_parse sample_env sample_callback_url sample_jar
      sample_exchange sample_swap = Some r"
    by (simp add: callback_get_def sample_session)
  have "bridge_mount ''#token=jwt&redirect=%2Fsettings'' = Bridge_apply ''jwt'' ''/settings''"
    by code_simp
  moreover from bridge_adopts_session [OF sample_session _ r]
  have "\<exists>hash. rd_location r = u_origin sample_callback_url @ ''/auth/sso-bridge'' @ hash \<and>
      bridge_mount hash = Bridge_apply ''jwt'' ''/settings''"
    by simp
  ultimately show ?thesis using r by blast
qed

end
