(* ===== verification/PageKit.thy ===== *)
theory PageKit
  imports ApiClient Utils Widgets
begin

text \<open>
  What the listing pages of the administration share: the page size, the refusal of developers, the
  summary cards, tables and paging buttons, and the way an effect runs again when one of its
  dependencies changed.
\<close>

section \<open>Page size and paging buttons\<close>

definition limit :: int where
  "limit = 25"

definition pages_of :: "int \<Rightarrow> int" where
  "pages_of n = total_pages n limit"

definition pager :: "string \<Rightarrow> 'e \<Rightarrow> 'e \<Rightarrow> int \<Rightarrow> int \<Rightarrow> 'e view" where
  "pager extra prev nxt page tp =
     El ''div''
       [El ''p'' [Txt (''Page '' @ show_int (page + 1) @ '' of '' @ show_int tp @ extra)],
        Btn (page = 0) (Some prev) [Txt ''Previous''],
        Btn (tp - 1 \<le> page) (Some nxt) [Txt ''Next'']]"

lemma offers_pager [simp]:
  "offers (pager extra prev nxt page tp) e \<longleftrightarrow>
     (page \<noteq> 0 \<and> e = prev) \<or> (page < tp - 1 \<and> e = nxt)"
  by (auto simp: pager_def)

text \<open>A page that the Next button leads to begins before the end of the listing.\<close>

lemma next_page_start:
  assumes "p < pages_of n - 1"
  shows "next_page (pages_of n) p = p + 1" and "(p + 1) * limit < n"
proof -
  show "next_page (pages_of n) p = p + 1"
    using assms by (rule next_page_bound)
  have "(p + 1) * limit \<le> (pages_of n - 1) * limit"
    using assms by (simp add: limit_def)
  also have "\<dots> = pages_of n * limit - limit"
    by (simp add: algebra_simps)
  also have "\<dots> < n"
    using total_pages_bounds(2) [of limit n] by (simp add: pages_of_def limit_def)
  finally show "(p + 1) * limit < n" .
qed

section \<open>Refusal, cards and tables\<close>

definition is_developer :: "user_info option \<Rightarrow> bool" where
  "is_developer user = (case user of None \<Rightarrow> False | Some u \<Rightarrow> ui_role u = JAS_Developer)"

definition denied_view :: "'e view" where
  "denied_view = El ''p'' [Txt ''You do not have permission to view this page.'']"

definition summary_card :: "string \<Rightarrow> int \<Rightarrow> string option \<Rightarrow> 'e view" where
  "summary_card label value sub =
     El ''div''
       [El ''p'' [Txt label,
          (case sub of None \<Rightarrow> Frag []
           | Some t \<Rightarrow> when_view (truthy t) (El ''span'' [Txt (''('' @ t @ '')'')]))],
        El ''p'' [Txt (show_int value)]]"

definition data_table :: "string list \<Rightarrow> 'e view list \<Rightarrow> 'e view" where
  "data_table heads rows =
     El ''table'' [El ''thead'' [El ''tr'' (map (\<lambda>h. El ''th'' [Txt h]) heads)], El ''tbody'' rows]"

definition td :: "'e view list \<Rightarrow> 'e view" where
  "td vs = El ''td'' vs"

definition para :: "string \<Rightarrow> 'e view" where
  "para t = El ''p'' [Txt t]"

definition labelled :: "string \<Rightarrow> 'e view \<Rightarrow> 'e view" where
  "labelled label control = El ''div'' [El ''label'' [Txt label], control]"

text \<open>\<open>error && ...\<close> for an error state that is a message or null.\<close>

definition error_box :: "string option \<Rightarrow> 'e view" where
  "error_box err =
     (case err of None \<Rightarrow> Frag [] | Some m \<Rightarrow> when_view (truthy m) (El ''p'' [Txt m]))"

definition has_error :: "string option \<Rightarrow> bool" where
  "has_error err = (case err of None \<Rightarrow> False | Some m \<Rightarrow> truthy m)"

lemma offers_summary_card [simp]: "\<not> offers (summary_card label value sub) e"
  by (simp add: summary_card_def split: option.split)

lemma offers_denied_view [simp]: "\<not> offers denied_view e"
  by (simp add: denied_view_def)

lemma offers_data_table [simp]: "offers (data_table heads rows) e \<longleftrightarrow> (\<exists>r \<in> set rows. offers r e)"
  by (auto simp: data_table_def)

lemma offers_td [simp]: "offers (td vs) e \<longleftrightarrow> (\<exists>v \<in> set vs. offers v e)"
  by (simp add: td_def)

lemma offers_para [simp]: "\<not> offers (para t) e"
  by (simp add: para_def)

lemma offers_labelled [simp]: "offers (labelled label control) e = offers control e"
  by (simp add: labelled_def)

lemma offers_error_box [simp]: "\<not> offers (error_box err) e"
  by (simp add: error_box_def split: option.split)

lemma texts_para [simp]: "texts (para t) = [t]"
  by (simp add: para_def)

lemma texts_error_box [simp]: "texts (error_box err) = (if has_error err then [the err] else [])"
  by (simp add: error_box_def has_error_def split: option.split)

lemma texts_data_table [simp]: "texts (data_table heads rows) = heads @ concat (map texts rows)"
  by (simp add: data_table_def comp_def)

lemma texts_td [simp]: "texts (td vs) = concat (map texts vs)"
  by (simp add: td_def)

section \<open>Role names\<close>

definition ROLE_LABELS :: "(string \<times> string) list" where
  "ROLE_LABELS =
     [(''JAS_Developer'', ''Developer''), (''JAS-Staff'', ''Staff''), (''JAS-Faculty'', ''Faculty'')]"

section \<open>Effects and their dependencies\<close>

text \<open>
  After the state updates of an event, the fetching effect runs when its dependencies changed:
  \<open>begin\<close> is what the fetch does before its await, \<open>query\<close> the request it sends.
\<close>

definition with_effect ::
  "('s \<Rightarrow> 'd) \<Rightarrow> ('s \<Rightarrow> 's) \<Rightarrow> ('s \<Rightarrow> 'c) \<Rightarrow> ('s \<Rightarrow> 's) \<Rightarrow> 's \<Rightarrow> 's \<times> 'c list" where
  "with_effect deps start query update s =
     (let s' = update s
      in if deps s' = deps s then (s', []) else (start s', [query (start s')]))"

lemma with_effect_cases:
  assumes "with_effect deps start query update s = (s', cs)"
  obtains "deps (update s) = deps s" "s' = update s" "cs = []"
  | "deps (update s) \<noteq> deps s" "s' = start (update s)" "cs = [query s']"
  using assms by (auto simp: with_effect_def Let_def split: if_splits)

section \<open>The contract of a page with an editor\<close>

text \<open>
  A page has a flag for the save that is running and a flag for the listing that is loading. Its
  requests in flight are saves (the update of the server, then the fetch that follows it) or not,
  and fetches of the listing or not. What a page promises of single steps gives that never two saves
  run at once, and that the page shows it is loading only while a listing is on its way.
\<close>

locale saving_page =
  fixes offered :: "'s \<Rightarrow> 'e \<Rightarrow> bool"
    and handle :: "'e \<Rightarrow> 's \<Rightarrow> 's \<times> 'c list"
    and resume :: "'c \<Rightarrow> 'r \<Rightarrow> 's \<Rightarrow> 's \<times> 'c list"
    and answers :: "'c \<Rightarrow> 'r \<Rightarrow> bool"
    and start :: "('s, 'c) world"
    and saving :: "'s \<Rightarrow> bool"
    and loading :: "'s \<Rightarrow> bool"
    and is_save :: "'c \<Rightarrow> bool"
    and is_listing :: "'c \<Rightarrow> bool"
  assumes start_saving: "length (filter is_save (snd start)) = of_bool (saving (fst start))"
    and start_loading: "loading (fst start) \<Longrightarrow> \<exists>c \<in> set (snd start). is_listing c"
    and act_saving: "offered s e \<Longrightarrow> handle e s = (s', cs) \<Longrightarrow>
      of_bool (saving s') = of_bool (saving s) + length (filter is_save cs)"
    and act_loading: "offered s e \<Longrightarrow> handle e s = (s', cs) \<Longrightarrow> loading s' \<Longrightarrow>
      loading s \<or> (\<exists>c \<in> set cs. is_listing c)"
    and reply_saving: "answers c r \<Longrightarrow> resume c r s = (s', cs) \<Longrightarrow> (is_save c \<longrightarrow> saving s) \<Longrightarrow>
      of_bool (saving s') + of_bool (is_save c) = of_bool (saving s) + length (filter is_save cs)"
    and reply_loading: "answers c r \<Longrightarrow> resume c r s = (s', cs) \<Longrightarrow> loading s' \<Longrightarrow>
      (loading s \<and> \<not> is_listing c) \<or> (\<exists>c \<in> set cs. is_listing c)"
begin

definition saving_inv :: "'s \<Rightarrow> 'c list \<Rightarrow> bool" where
  "saving_inv s fl =
     (length (filter is_save fl) = of_bool (saving s) \<and>
      (loading s \<longrightarrow> (\<exists>c \<in> set fl. is_listing c)))"

lemma saving_inv_act:
  assumes "saving_inv s fl" and "offered s e" and "handle e s = (s', cs)"
  shows "saving_inv s' (fl @ cs)"
  using assms(1) act_saving [OF assms(2,3)] act_loading [OF assms(2,3)]
  by (auto simp: saving_inv_def)

lemma saving_inv_reply:
  assumes "saving_inv s (xs @ c # ys)" and "answers c r" and "resume c r s = (s', cs)"
  shows "saving_inv s' (xs @ ys @ cs)"
proof -
  have sv: "is_save c \<longrightarrow> saving s"
    using assms(1) by (cases "saving s") (auto simp: saving_inv_def)
  have "length (filter is_save xs) + of_bool (is_save c) + length (filter is_save ys) =
      of_bool (saving s)"
    using assms(1) by (cases "is_save c") (simp_all add: saving_inv_def)
  with reply_saving [OF assms(2,3) sv]
  have "length (filter is_save xs) + length (filter is_save ys) + length (filter is_save cs) =
      of_bool (saving s')"
    by linarith
  then have "length (filter is_save (xs @ ys @ cs)) = of_bool (saving s')"
    by (simp only: filter_append length_append add.assoc)
  then show ?thesis
    using assms(1) reply_loading [OF assms(2,3)] by (auto simp: saving_inv_def)
qed

end

sublocale saving_page \<subseteq> save_world: world_invariant offered handle resume answers start saving_inv
proof unfold_locales
  show "saving_inv (fst start) (snd start)"
    using start_saving start_loading by (simp add: saving_inv_def)
qed (erule (2) saving_inv_act, erule (2) saving_inv_reply)

context saving_page
begin

lemma single_save:
  assumes "(wstep offered handle resume answers)\<^sup>*\<^sup>* start (s, fl)"
  shows "length (filter is_save fl) \<le> 1" and "fl = [] \<Longrightarrow> \<not> saving s \<and> \<not> loading s"
  using save_world.reach_state_inv [OF assms]
  by (cases "saving s"; auto simp: saving_inv_def)+

end

end
