(* ===== verification/AuditPage.thy ===== *)
theory AuditPage
  imports PageKit
begin

text \<open>
  The three audit-log pages (\<open>web/src/app/{admin,staff,faculty}/audit/page.tsx\<close>): one machine over
  the filters, the page and the answers of the listing, and a view per page. The pages keep the
  latest answer to arrive; nothing ties an answer to the filters it was asked for.
\<close>

section \<open>State\<close>

record audit_page =
  ad_entries :: "audit_log_entry list"
  ad_total :: int
  ad_loading :: bool
  ad_error :: "string option"
  ad_page :: int
  ad_filter_action :: string
  ad_filter_target :: string

definition audit_initial :: audit_page where
  "audit_initial =
     \<lparr>ad_entries = [], ad_total = 0, ad_loading = True, ad_error = None, ad_page = 0,
      ad_filter_action = [], ad_filter_target = []\<rparr>"

section \<open>Fetching\<close>

definition audit_query :: "audit_page \<Rightarrow> audit_params" where
  "audit_query s =
     \<lparr>aq_skip = Some (ad_page s * limit), aq_limit = Some limit,
      aq_action = or_undefined (ad_filter_action s), aq_target_type = or_undefined (ad_filter_target s),
      aq_actor_user_id = None, aq_since = None\<rparr>"

definition fetch_audit :: "audit_page \<Rightarrow> audit_page" where
  "fetch_audit s = s\<lparr>ad_loading := True, ad_error := None\<rparr>"

fun audit_resume ::
  "audit_params \<Rightarrow> audit_log_list_response outcome \<Rightarrow> audit_page \<Rightarrow> audit_page \<times> audit_params list" where
  "audit_resume c (Inr res) s =
     (s\<lparr>ad_entries := ls_items res, ad_total := ls_total res, ad_loading := False\<rparr>, [])"
| "audit_resume c (Inl e) s =
     (s\<lparr>ad_error := Some (message_or ''Failed to load audit log'' e), ad_loading := False\<rparr>, [])"

definition audit_deps :: "audit_page \<Rightarrow> int \<times> string \<times> string" where
  "audit_deps s = (ad_page s, ad_filter_action s, ad_filter_target s)"

section \<open>Events\<close>

datatype audit_event = SetAction string | SetTarget string | AuditPrev | AuditNext

fun audit_update :: "audit_event \<Rightarrow> audit_page \<Rightarrow> audit_page" where
  "audit_update (SetAction v) s = s\<lparr>ad_filter_action := v, ad_page := 0\<rparr>"
| "audit_update (SetTarget v) s = s\<lparr>ad_filter_target := v, ad_page := 0\<rparr>"
| "audit_update AuditPrev s = s\<lparr>ad_page := prev_page (ad_page s)\<rparr>"
| "audit_update AuditNext s = s\<lparr>ad_page := next_page (pages_of (ad_total s)) (ad_page s)\<rparr>"

definition audit_handle :: "audit_event \<Rightarrow> audit_page \<Rightarrow> audit_page \<times> audit_params list" where
  "audit_handle e s = with_effect audit_deps fetch_audit audit_query (audit_update e) s"

section \<open>Views\<close>

definition audit_filters :: "audit_page \<Rightarrow> audit_event view" where
  "audit_filters s =
     El ''div''
       [labelled ''Action''
          (Inp ''text'' (ad_filter_action s) ''e.g. deploy.create'' SetAction),
        labelled ''Target type''
          (Inp ''text'' (ad_filter_target s) ''e.g. project'' SetTarget)]"

definition audit_row :: "(string \<Rightarrow> string) \<Rightarrow> audit_log_entry \<Rightarrow> 'e view" where
  "audit_row locale_string e =
     El ''tr''
       [td [Txt (format_date locale_string (Some (al_created_at e)))],
        td [El ''span'' [Txt (al_action e)]],
        td [Txt (al_target_type e @ '':'' @ take 8 (al_target_id e))],
        td [Txt (case al_actor_user_id e of
                   Some a \<Rightarrow> if truthy a then take 8 a else ''system''
                 | None \<Rightarrow> ''system'')],
        td [Txt (case al_payload e of Some p \<Rightarrow> p | None \<Rightarrow> mdash)]]"

definition audit_heads :: "string list" where
  "audit_heads = [''Time'', ''Action'', ''Target'', ''Actor'', ''Payload'']"

definition audit_table :: "(string \<Rightarrow> string) \<Rightarrow> audit_page \<Rightarrow> 'e view" where
  "audit_table locale_string s = data_table audit_heads (map (audit_row locale_string) (ad_entries s))"

definition audit_title :: "audit_page \<Rightarrow> 'e view" where
  "audit_title s =
     El ''div''
       [El ''h1'' [Txt ''Audit Log''],
        El ''p'' [Txt (''Platform activity trail '' @ mdash @ '' '' @ show_int (ad_total s) @ '' total entries'')]]"

definition admin_audit_view ::
  "(string \<Rightarrow> string) \<Rightarrow> user_info option \<Rightarrow> audit_page \<Rightarrow> audit_event view" where
  "admin_audit_view locale_string user s =
     (if is_developer user then denied_view
      else El ''div''
        [audit_title s, audit_filters s,
         if ad_loading s then para ''Loading...''
         else if has_error (ad_error s) then error_box (ad_error s)
         else if ad_entries s = [] then para ''No audit entries found.''
         else Frag
           [audit_table locale_string s,
            pager [] AuditPrev AuditNext (ad_page s) (pages_of (ad_total s))]])"

definition staff_audit_view ::
  "(string \<Rightarrow> string) \<Rightarrow> audit_page \<Rightarrow> audit_event view" where
  "staff_audit_view locale_string s =
     El ''div''
       [audit_title s, audit_filters s,
        if ad_loading s then para ''Loading...''
        else if has_error (ad_error s) then error_box (ad_error s)
        else if ad_entries s = [] then para ''No audit entries found.''
        else Frag
          [audit_table locale_string s,
           pager [] AuditPrev AuditNext (ad_page s) (pages_of (ad_total s))]]"

definition faculty_audit_view ::
  "(string \<Rightarrow> string) \<Rightarrow> audit_page \<Rightarrow> audit_event view" where
  "faculty_audit_view locale_string s =
     El ''div''
       [audit_title s, audit_filters s, error_box (ad_error s),
        if ad_loading s then para ''Loading audit log...''
        else if ad_entries s = [] then para ''No audit entries found.''
        else Frag
          [audit_table locale_string s,
           when_view (1 < pages_of (ad_total s))
             (pager ('' ('' @ show_int (ad_total s) @ '' entries)'') AuditPrev AuditNext
                (ad_page s) (pages_of (ad_total s)))]]"

lemmas audit_views = admin_audit_view_def staff_audit_view_def faculty_audit_view_def
  audit_filters_def audit_title_def audit_table_def audit_row_def

lemma offers_audit_row [simp]: "\<not> offers (audit_row locale_string e) ev"
  by (simp add: audit_row_def)

lemma offers_audit_parts [simp]:
  "\<not> offers (audit_title s) e" "\<not> offers (audit_table locale_string s) e"
  "offers (audit_filters s) e \<longleftrightarrow> (\<exists>v. e = SetAction v \<or> e = SetTarget v)"
  by (auto simp: audit_title_def audit_table_def audit_filters_def)

section \<open>The machine of a page\<close>

text \<open>
  \<open>serves c r\<close> says that the request with the query \<open>c\<close> may have the outcome \<open>r\<close>, a listing or a failure.
\<close>

definition audit_offered :: "audit_page \<Rightarrow> audit_event \<Rightarrow> bool" where
  "audit_offered s e = offers (staff_audit_view (\<lambda>d. d) s) e"

definition audit_shows :: "audit_page \<Rightarrow> audit_log_list_response outcome \<Rightarrow> bool" where
  "audit_shows s r =
     (case r of
        Inr res \<Rightarrow> ad_entries s = ls_items res \<and> ad_total s = ls_total res
      | Inl e \<Rightarrow> ad_error s = Some (message_or ''Failed to load audit log'' e))"

lemma audit_update_keeps [simp]:
  "ad_entries (audit_update e s) = ad_entries s" "ad_total (audit_update e s) = ad_total s"
  "ad_error (audit_update e s) = ad_error s" "ad_loading (audit_update e s) = ad_loading s"
  by (cases e; simp)+

lemma audit_query_deps: "audit_deps s = audit_deps s' \<Longrightarrow> audit_query s = audit_query s'"
  by (simp add: audit_deps_def audit_query_def)

interpretation audit_fetch: fetch_page audit_offered audit_handle audit_resume
  serves audit_query audit_shows audit_initial for serves
proof unfold_locales
  fix e s s' cs
  assume "audit_handle e s = (s', cs)"
  then show "cs = [audit_query s'] \<or>
      (cs = [] \<and> audit_query s' = audit_query s \<and> (\<forall>r. audit_shows s r \<longrightarrow> audit_shows s' r))"
    unfolding audit_handle_def
    by (rule with_effect_cases) (auto simp: audit_shows_def dest: audit_query_deps split: sum.splits)
next
  fix c r s s' cs
  assume "audit_resume c r s = (s', cs)"
  then show "cs = [] \<and> audit_query s' = audit_query s \<and> audit_shows s' r"
    by (cases r) (auto simp: audit_query_def audit_shows_def)
qed

abbreviation audit_steps where
  "audit_steps serves \<equiv> wstep audit_offered audit_handle audit_resume serves"

abbreviation audit_fifo_steps where
  "audit_fifo_steps serves \<equiv> fstep audit_offered audit_handle audit_resume serves"

text \<open>
  C27: when answers arrive in the order of the requests and none is outstanding, the listing on the
  page is the server's answer for exactly the filters and the page that the controls show, or the
  page holds the message of a failure that exactly this request may have had. (The listing may be hidden
  by an older failure, \<open>audit_stale_error\<close>.)
\<close>

theorem audit_settled_display:
  assumes "(audit_fifo_steps serves)\<^sup>*\<^sup>* (audit_initial, [audit_query audit_initial]) (s, [])"
  shows "(\<exists>res. serves (audit_query s) (Inr res) \<and> ad_entries s = ls_items res \<and> ad_total s = ls_total res) \<or>
    (\<exists>e. serves (audit_query s) (Inl e) \<and> ad_error s = Some (message_or ''Failed to load audit log'' e))"
  using assms
proof (rule audit_fetch.quiet_display)
  fix r
  assume "serves (audit_query s) r" and "audit_shows s r"
  then show ?thesis
    by (cases r) (auto simp: audit_shows_def)
qed

text \<open>
  Every request asks for 25 entries from a page that is not negative, and the page is loading only
  while a request is in flight.
\<close>

definition audit_inv :: "audit_page \<Rightarrow> audit_params list \<Rightarrow> bool" where
  "audit_inv s fl =
     (0 \<le> ad_page s \<and> (ad_loading s \<longrightarrow> fl \<noteq> []) \<and>
      list_all (\<lambda>c. aq_limit c = Some limit \<and> (\<exists>k \<ge> 0. aq_skip c = Some (k * limit))) fl)"

lemma next_page_nonneg: "0 \<le> p \<Longrightarrow> p < tp - 1 \<Longrightarrow> 0 \<le> next_page tp p"
  by (simp add: next_page_def)

lemma audit_handle_inv:
  assumes "audit_inv s fl" and "audit_offered s e" and "audit_handle e s = (s', cs)"
  shows "audit_inv s' (fl @ cs)"
proof -
  have page: "0 \<le> ad_page (audit_update e s)"
    using assms(1,2)
    by (cases e) (auto simp: audit_inv_def audit_offered_def staff_audit_view_def next_page_nonneg
        split: if_splits)
  from assms(3) show ?thesis
    unfolding audit_handle_def
  proof (rule with_effect_cases)
    assume "s' = audit_update e s" and "cs = []"
    with page assms(1) show ?thesis by (simp add: audit_inv_def)
  next
    assume "s' = fetch_audit (audit_update e s)" and "cs = [audit_query s']"
    with page assms(1) show ?thesis
      by (auto simp: audit_inv_def audit_query_def fetch_audit_def)
  qed
qed

lemma audit_resume_inv:
  "audit_inv s (xs @ c # ys) \<Longrightarrow> audit_resume c r s = (s', cs) \<Longrightarrow> audit_inv s' (xs @ ys @ cs)"
  by (cases r) (auto simp: audit_inv_def)

interpretation audit_world: world_invariant audit_offered audit_handle audit_resume
  serves "(audit_initial, [audit_query audit_initial])" audit_inv for serves
proof unfold_locales
  show "audit_inv (fst (audit_initial, [audit_query audit_initial]))
      (snd (audit_initial, [audit_query audit_initial]))"
    by (auto simp: audit_inv_def audit_initial_def audit_query_def intro: exI [of _ 0])
qed (erule (2) audit_handle_inv, erule audit_resume_inv)

text \<open>
  In every reachable state, the Next button, where it is on offer, sends the same filters with
  the start of the next page, and that start lies before the end of the listing.
\<close>

lemma audit_paging_in_range:
  assumes "(audit_steps serves)\<^sup>*\<^sup>* (audit_initial, [audit_query audit_initial]) (s, fl)"
    and "offers (staff_audit_view locale_string s) AuditNext"
  shows "0 \<le> ad_page s \<and> (ad_page s + 1) * limit < ad_total s \<and>
    snd (audit_handle AuditNext s) =
      [(audit_query s)\<lparr>aq_skip := Some ((ad_page s + 1) * limit)\<rparr>]"
proof -
  have "0 \<le> ad_page s"
    using audit_world.reach_state_inv [OF assms(1)] by (simp add: audit_inv_def)
  moreover have p: "ad_page s < pages_of (ad_total s) - 1"
    using assms(2) by (auto simp: staff_audit_view_def split: if_splits)
  ultimately show ?thesis
    using next_page_start [OF p]
    by (simp add: audit_handle_def with_effect_def Let_def audit_deps_def audit_query_def
        fetch_audit_def)
qed

section \<open>A sample server and two interleavings\<close>

definition sample_entry :: "string \<Rightarrow> audit_log_entry" where
  "sample_entry act =
     \<lparr>al_id = ''1'', al_actor_user_id = None, al_action = act, al_target_type = ''project'',
      al_target_id = ''0123456789'', al_payload = None, al_created_at = ''2026-01-01''\<rparr>"

text \<open>
  The server lists, for each action asked for, one entry with that action; a request without an action fails
  at times, others never.
\<close>

definition sample_listing :: "audit_params \<Rightarrow> audit_log_list_response" where
  "sample_listing c =
     \<lparr>ls_items = [sample_entry (case aq_action c of None \<Rightarrow> ''any'' | Some a \<Rightarrow> a)], ls_total = 26\<rparr>"

definition sample_serves :: "audit_params \<Rightarrow> audit_log_list_response outcome \<Rightarrow> bool" where
  "sample_serves c r =
     (case r of Inr res \<Rightarrow> res = sample_listing c | Inl e \<Rightarrow> aq_action c = None)"

text \<open>The answer to a filter arrives after the answer to the filter typed next.\<close>

definition asked :: "string \<Rightarrow> audit_params" where
  "asked act = audit_query (audit_initial\<lparr>ad_filter_action := act\<rparr>)"

type_synonym audit_script = "(audit_event + nat \<times> audit_log_list_response outcome) list"

definition overtaken :: audit_script where
  "overtaken =
     [Inr (0, Inr (sample_listing (asked []))),
      Inl (SetAction ''a''), Inl (SetAction ''ab''),
      Inr (1, Inr (sample_listing (asked ''ab''))), Inr (0, Inr (sample_listing (asked ''a'')))]"

text \<open>The first request fails after the next one was sent, and the next one succeeds.\<close>

definition failed_then_served :: audit_script where
  "failed_then_served =
     [Inl (SetAction ''a''), Inr (0, Inl (JsErr ''Failed to fetch'')),
      Inr (0, Inr (sample_listing (asked ''a'')))]"

definition audit_play :: "audit_script \<Rightarrow> (audit_page, audit_params) world" where
  "audit_play as = run_script audit_handle audit_resume as (audit_initial, [audit_query audit_initial])"

lemma audit_offered_simps [simp]:
  "audit_offered s (SetAction v)" "audit_offered s (SetTarget v)"
  by (auto simp: audit_offered_def staff_audit_view_def)

lemmas audit_run = audit_handle_def with_effect_def Let_def audit_deps_def fetch_audit_def
  audit_query_def audit_initial_def asked_def sample_listing_def or_undefined_def truthy_def

lemma overtaken_playable:
  "playable audit_offered audit_handle audit_resume sample_serves overtaken
     (audit_initial, [audit_query audit_initial])"
  by (simp add: overtaken_def audit_run sample_serves_def)

lemma failed_then_served_playable:
  "playable audit_offered audit_handle audit_resume sample_serves failed_then_served
     (audit_initial, [audit_query audit_initial])"
  by (simp add: failed_then_served_def audit_run sample_serves_def)

lemma failed_then_served_result:
  "audit_play failed_then_served =
     (audit_initial\<lparr>ad_entries := [sample_entry ''a''], ad_total := 26, ad_loading := False,
        ad_error := Some ''Failed to fetch'', ad_filter_action := ''a''\<rparr>, [])"
  by code_simp

lemma overtaken_result:
  "audit_play overtaken =
     (audit_initial\<lparr>ad_entries := [sample_entry ''a''], ad_total := 26, ad_loading := False,
        ad_filter_action := ''ab''\<rparr>, [])"
  by code_simp

text \<open>
  A slow answer wins over the answer to a newer filter: a state is reachable with nothing in
  flight in which the filter field says one action and the table lists the entries of another.
\<close>

lemma audit_overtaken_answer:
  "\<exists>s. (audit_steps sample_serves)\<^sup>*\<^sup>* (audit_initial, [audit_query audit_initial]) (s, []) \<and>
     ad_filter_action s = ''ab'' \<and> ad_error s = None \<and> \<not> ad_loading s \<and>
     map al_action (ad_entries s) = [''a'']"
proof -
  have "(audit_steps sample_serves)\<^sup>*\<^sup>* (audit_initial, [audit_query audit_initial]) (audit_play overtaken)"
    unfolding audit_play_def by (rule run_script_reaches [OF overtaken_playable])
  then show ?thesis
    unfolding overtaken_result
    by (intro exI conjI) (assumption, simp_all add: audit_initial_def sample_entry_def)
qed

text \<open>
  Even when the answers arrive in order, the failure of an older request hides the answer to
  the newer one: a settled state is reachable whose entries answer the filter on screen, and the
  page shows the old error instead of them.
\<close>

lemma audit_stale_error:
  "\<exists>s. (audit_fifo_steps sample_serves)\<^sup>*\<^sup>* (audit_initial, [audit_query audit_initial]) (s, []) \<and>
     sample_serves (audit_query s) (Inr \<lparr>ls_items = ad_entries s, ls_total = ad_total s\<rparr>) \<and>
     ''Failed to fetch'' \<in> set (texts (staff_audit_view locale_string s)) \<and>
     ''a'' \<notin> set (texts (staff_audit_view locale_string s))"
proof -
  let ?s = "audit_initial\<lparr>ad_entries := [sample_entry ''a''], ad_total := 26, ad_loading := False,
        ad_error := Some ''Failed to fetch'', ad_filter_action := ''a''\<rparr>"
  have "(audit_fifo_steps sample_serves)\<^sup>*\<^sup>* (audit_initial, [audit_query audit_initial])
      (audit_play failed_then_served)"
    unfolding audit_play_def
    by (rule run_script_reaches_in_order [OF failed_then_served_playable])
       (simp add: failed_then_served_def)
  then have "(audit_fifo_steps sample_serves)\<^sup>*\<^sup>* (audit_initial, [audit_query audit_initial]) (?s, [])"
    unfolding failed_then_served_result .
  moreover have "sample_serves (audit_query ?s) (Inr \<lparr>ls_items = ad_entries ?s, ls_total = ad_total ?s\<rparr>)"
    by (simp add: sample_serves_def sample_listing_def audit_query_def or_undefined_def truthy_def)
  moreover have "''Failed to fetch'' \<in> set (texts (staff_audit_view locale_string ?s))"
    and "''a'' \<notin> set (texts (staff_audit_view locale_string ?s))"
    by (simp_all add: staff_audit_view_def audit_title_def audit_filters_def labelled_def
        has_error_def truthy_def audit_initial_def)
  ultimately show ?thesis by blast
qed

theorem audit_settled_display_witness:
  "\<exists>s. (audit_fifo_steps sample_serves)\<^sup>*\<^sup>* (audit_initial, [audit_query audit_initial]) (s, []) \<and>
     ad_filter_action s = ''a'' \<and>
     ((\<exists>res. sample_serves (audit_query s) (Inr res) \<and> ad_entries s = ls_items res \<and> ad_total s = ls_total res) \<or>
     (\<exists>e. sample_serves (audit_query s) (Inl e) \<and>
        ad_error s = Some (message_or ''Failed to load audit log'' e)))"
proof -
  have "(audit_fifo_steps sample_serves)\<^sup>*\<^sup>* (audit_initial, [audit_query audit_initial])
      (audit_play failed_then_served)"
    unfolding audit_play_def
    by (rule run_script_reaches_in_order [OF failed_then_served_playable])
       (simp add: failed_then_served_def)
  note reached = this [unfolded failed_then_served_result]
  show ?thesis
    by (intro exI conjI, rule reached, simp, rule audit_settled_display [OF reached])
qed

end
