(* ===== verification/VlansPage.thy ===== *)
theory VlansPage
  imports PageKit
begin

text \<open>
  The three VLAN pages (\<open>web/src/app/{admin,staff,faculty}/vlans/page.tsx\<close>): one fetch when the page
  mounts, the counts of allocated and available networks, and the table.
\<close>

section \<open>State\<close>

record vlans_page =
  vp_vlans :: "vlan list"
  vp_loading :: bool
  vp_error :: "string option"

definition vlans_initial :: vlans_page where
  "vlans_initial = \<lparr>vp_vlans = [], vp_loading = True, vp_error = None\<rparr>"

fun vlans_received :: "vlan_list_response outcome \<Rightarrow> vlans_page \<Rightarrow> vlans_page" where
  "vlans_received (Inr res) s = s\<lparr>vp_vlans := ls_items res, vp_loading := False\<rparr>"
| "vlans_received (Inl e) s =
     s\<lparr>vp_error := Some (message_or ''Failed to load VLANs'' e), vp_loading := False\<rparr>"

section \<open>Views\<close>

definition reserved :: "vlan \<Rightarrow> bool" where
  "reserved v = (case vl_reserved_by_project_id v of None \<Rightarrow> False | Some p \<Rightarrow> truthy p)"

definition vlan_row :: "vlan \<Rightarrow> 'e view" where
  "vlan_row v =
     El ''tr''
       [td [Txt (show_int (vl_vlan_tag v))],
        td [Txt (vl_subnet_cidr v)],
        td [if reserved v
            then El ''code'' [Txt (take 8 (the (vl_reserved_by_project_id v)) @ ''...'')]
            else El ''span'' [Txt ''Unassigned'']],
        td [El ''span'' [Txt (if reserved v then ''Allocated'' else ''Available'')]]]"

definition vlan_table :: "vlans_page \<Rightarrow> 'e view" where
  "vlan_table s =
     data_table [''VLAN Tag'', ''Subnet CIDR'', ''Project'', ''Status''] (map vlan_row (vp_vlans s))"

definition vlan_cards :: "vlans_page \<Rightarrow> 'e view" where
  "vlan_cards s =
     El ''div''
       [summary_card ''Total VLANs'' (int (length (vp_vlans s))) None,
        summary_card ''Allocated'' (int (length (filter reserved (vp_vlans s)))) None,
        summary_card ''Available'' (int (length (filter (\<lambda>v. \<not> reserved v) (vp_vlans s)))) None]"

definition vlan_title :: "string \<Rightarrow> 'e view" where
  "vlan_title t =
     El ''div''
       [El ''h1'' [Txt t],
        El ''p'' [Txt ''Network segmentation: VLAN tag = 1000+N, subnet = 172.16.N.0/25'']]"

definition no_vlans :: "'e view" where
  "no_vlans =
     para ''No VLANs allocated yet. VLANs are auto-allocated when projects are created.''"

definition admin_vlans_view :: "user_info option \<Rightarrow> vlans_page \<Rightarrow> 'e view" where
  "admin_vlans_view user s =
     (if is_developer user then denied_view
      else El ''div''
        [vlan_title ''VLAN Management'', vlan_cards s,
         if vp_loading s then para ''Loading VLANs...''
         else if has_error (vp_error s) then error_box (vp_error s)
         else if vp_vlans s = [] then no_vlans
         else vlan_table s])"

definition staff_vlans_view :: "vlans_page \<Rightarrow> 'e view" where
  "staff_vlans_view s =
     El ''div''
       [vlan_title ''VLANs'', vlan_cards s,
        if vp_loading s then para ''Loading VLANs...''
        else if has_error (vp_error s) then error_box (vp_error s)
        else if vp_vlans s = [] then no_vlans
        else vlan_table s]"

definition faculty_vlans_view :: "vlans_page \<Rightarrow> 'e view" where
  "faculty_vlans_view s =
     El ''div''
       [vlan_title ''VLAN Management'', vlan_cards s, error_box (vp_error s),
        if vp_loading s then para ''Loading VLANs...''
        else if vp_vlans s = [] then no_vlans
        else vlan_table s]"

section \<open>Counts\<close>

lemma vlan_row_status:
  "texts (vlan_row v) =
     [show_int (vl_vlan_tag v), vl_subnet_cidr v] @
     (if reserved v then [take 8 (the (vl_reserved_by_project_id v)) @ ''...'', ''Allocated'']
      else [''Unassigned'', ''Available''])"
  by (simp add: vlan_row_def)

lemma vlan_cards_partition:
  "length (filter reserved vs) + length (filter (\<lambda>v. \<not> reserved v) vs) = length vs"
  by (rule sum_length_filter_compl)

text \<open>
  What the page shows after its one fetch: the cards and one row per network, whose last cell agrees
  with the count it belongs to.
\<close>

lemma vlans_page_rows:
  assumes "s = vlans_received (Inr res) vlans_initial" and "ls_items res \<noteq> []"
  shows "texts (staff_vlans_view s :: 'e view) =
    texts (vlan_title ''VLANs'' :: 'e view) @ texts (vlan_cards s :: 'e view) @
    [''VLAN Tag'', ''Subnet CIDR'', ''Project'', ''Status''] @
    concat (map (\<lambda>v. texts (vlan_row v :: 'e view)) (ls_items res))"
  using assms
  by (simp add: staff_vlans_view_def vlan_table_def vlans_initial_def has_error_def comp_def)

text \<open>A page whose fetch failed shows the error and neither the table nor the empty-list text.\<close>

lemma vlans_page_error:
  assumes "s = vlans_received (Inl e) vlans_initial" and "message_or ''Failed to load VLANs'' e \<noteq> []"
  shows "offers (staff_vlans_view s) ev = False"
    and "message_or ''Failed to load VLANs'' e \<in> set (texts (staff_vlans_view s))"
  using assms
  by (simp_all add: staff_vlans_view_def vlans_initial_def has_error_def truthy_def vlan_title_def
      vlan_cards_def)

end
