(* ===== verification/UsersPage.thy ===== *)
theory UsersPage
  imports PageKit
begin

text \<open>
  The two user-management pages (\<open>web/src/app/admin/users/page.tsx\<close> and
  \<open>web/src/app/faculty/users/page.tsx\<close>): filters and paging over the listing of users, and the role
  editor of a row, whose Save updates the role and then fetches the listing again. That second fetch
  is the closure of the render in which Save was clicked: it asks for the filters of that moment.
\<close>

section \<open>State\<close>

record users_page =
  up_users :: "admin_user list"
  up_total :: int
  up_loading :: bool
  up_search :: string
  up_role_filter :: string
  up_page :: int
  up_edit_id :: "string option"
  up_edit_value :: string
  up_saving :: bool
  up_error :: "string option"

definition users_initial :: users_page where
  "users_initial =
     \<lparr>up_users = [], up_total = 0, up_loading = True, up_search = [], up_role_filter = [],
      up_page = 0, up_edit_id = None, up_edit_value = [], up_saving = False, up_error = None\<rparr>"

section \<open>Fetching\<close>

definition users_query :: "users_page \<Rightarrow> admin_params" where
  "users_query s =
     no_params\<lparr>q_skip := Some (up_page s * limit), q_limit := Some limit,
       q_search := or_undefined (up_search s), q_role := or_undefined (up_role_filter s)\<rparr>"

definition fetch_users :: "users_page \<Rightarrow> users_page" where
  "fetch_users s = s\<lparr>up_loading := True, up_error := None\<rparr>"

definition users_deps :: "users_page \<Rightarrow> int \<times> string \<times> string" where
  "users_deps s = (up_page s, up_search s, up_role_filter s)"

text \<open>
  The requests in flight: a listing, fetched by the effect or (the flag) by a save; or the update of
  a role, with the query that its save will fetch.
\<close>

datatype users_cmd = FetchUsers admin_params bool | UpdateRole string string admin_params

datatype users_reply =
    UsersReply "admin_user_list_response outcome"
  | RoleReply "admin_user outcome"

definition users_received :: "admin_user_list_response outcome \<Rightarrow> users_page \<Rightarrow> users_page" where
  "users_received r s =
     (case r of
        Inr res \<Rightarrow> s\<lparr>up_users := ls_items res, up_total := ls_total res, up_loading := False\<rparr>
      | Inl e \<Rightarrow> s\<lparr>up_error := Some (message_or ''Failed to load users'' e), up_loading := False\<rparr>)"

section \<open>Role editor\<close>

definition start_role_edit :: "admin_user \<Rightarrow> users_page \<Rightarrow> users_page" where
  "start_role_edit u s = s\<lparr>up_edit_id := Some (au_id u), up_edit_value := au_role u\<rparr>"

definition cancel_role_edit :: "users_page \<Rightarrow> users_page" where
  "cancel_role_edit s = s\<lparr>up_edit_id := None, up_edit_value := []\<rparr>"

definition save_role :: "string \<Rightarrow> users_page \<Rightarrow> users_page \<times> users_cmd list" where
  "save_role uid s = (s\<lparr>up_saving := True\<rparr>, [UpdateRole uid (up_edit_value s) (users_query s)])"

fun users_resume :: "users_cmd \<Rightarrow> users_reply \<Rightarrow> users_page \<Rightarrow> users_page \<times> users_cmd list" where
  "users_resume (FetchUsers q saving) (UsersReply r) s =
     ((if saving then (users_received r s)\<lparr>up_saving := False\<rparr> else users_received r s), [])"
| "users_resume (UpdateRole uid v q) (RoleReply (Inr u)) s =
     (fetch_users (cancel_role_edit s), [FetchUsers q True])"
| "users_resume (UpdateRole uid v q) (RoleReply (Inl e)) s =
     (s\<lparr>up_error := Some (message_or ''Failed to update role'' e), up_saving := False\<rparr>, [])"
| "users_resume c r s = (s, [])"

section \<open>Events\<close>

datatype users_event =
    SetSearch string
  | SetRoleFilter string
  | UsersPrev
  | UsersNext
  | EditRole admin_user
  | SetRoleValue string
  | CancelRole
  | SaveRole string

fun users_update :: "users_event \<Rightarrow> users_page \<Rightarrow> users_page" where
  "users_update (SetSearch v) s = s\<lparr>up_search := v, up_page := 0\<rparr>"
| "users_update (SetRoleFilter v) s = s\<lparr>up_role_filter := v, up_page := 0\<rparr>"
| "users_update UsersPrev s = s\<lparr>up_page := prev_page (up_page s)\<rparr>"
| "users_update UsersNext s = s\<lparr>up_page := next_page (pages_of (up_total s)) (up_page s)\<rparr>"
| "users_update (EditRole u) s = start_role_edit u s"
| "users_update (SetRoleValue v) s = s\<lparr>up_edit_value := v\<rparr>"
| "users_update CancelRole s = cancel_role_edit s"
| "users_update (SaveRole uid) s = s"

fun users_handle :: "users_event \<Rightarrow> users_page \<Rightarrow> users_page \<times> users_cmd list" where
  "users_handle (SaveRole uid) s = save_role uid s"
| "users_handle e s =
     with_effect users_deps fetch_users (\<lambda>s. FetchUsers (users_query s) False) (users_update e) s"

section \<open>Views\<close>

definition role_options :: "(string \<times> string) list" where
  "role_options = ([], ''All Roles'') # ROLE_LABELS"

definition count_role :: "string \<Rightarrow> users_page \<Rightarrow> int" where
  "count_role r s = int (length (filter (\<lambda>u. au_role u = r) (up_users s)))"

definition users_title :: "string \<Rightarrow> users_page \<Rightarrow> 'e view" where
  "users_title prefix s =
     El ''div''
       [El ''h1'' [Txt ''User Management''],
        El ''p'' [Txt (prefix @ '' '' @ mdash @ '' '' @ show_int (up_total s) @ '' total users'')]]"

definition users_cards :: "users_page \<Rightarrow> 'e view" where
  "users_cards s =
     El ''div''
       [summary_card ''Total Users'' (up_total s) None,
        summary_card ''Developers'' (count_role ''JAS_Developer'' s) (Some ''this page''),
        summary_card ''Staff'' (count_role ''JAS-Staff'' s) (Some ''this page''),
        summary_card ''Faculty'' (count_role ''JAS-Faculty'' s) (Some ''this page'')]"

definition users_filters :: "users_page \<Rightarrow> users_event view" where
  "users_filters s =
     El ''div''
       [labelled ''Search'' (Inp ''text'' (up_search s) ''Username or name...'' SetSearch),
        labelled ''Role'' (Sel (up_role_filter s) role_options SetRoleFilter)]"

definition is_self :: "user_info option \<Rightarrow> admin_user \<Rightarrow> bool" where
  "is_self user u = (case user of None \<Rightarrow> False | Some me \<Rightarrow> au_id u = ui_id me)"

definition user_cells ::
  "(string \<Rightarrow> string) \<Rightarrow> user_info option \<Rightarrow> users_page \<Rightarrow> admin_user \<Rightarrow> users_event view list" where
  "user_cells locale_string user s u =
     [td [El ''p'' [Txt (au_display_name u), when_view (is_self user u) (El ''span'' [Txt ''(you)''])],
          El ''p'' [Txt (au_username u)]],
      td [Txt (au_email u)],
      td [if up_edit_id s = Some (au_id u)
          then Sel (up_edit_value s) ROLE_LABELS SetRoleValue
          else El ''span'' [dict_child ROLE_LABELS (au_role u)]],
      td [case au_github_username u of
            Some g \<Rightarrow> if truthy g then El ''span'' [Txt (''@'' @ g)] else El ''span'' [Txt ''Not linked'']
          | None \<Rightarrow> El ''span'' [Txt ''Not linked'']],
      td [Txt (show_int (au_project_count u))],
      td [Txt (format_date locale_string (Some (au_created_at u)))]]"

definition user_actions :: "user_info option \<Rightarrow> users_page \<Rightarrow> admin_user \<Rightarrow> users_event view" where
  "user_actions user s u =
     td [if is_self user u then El ''span'' [Txt mdash]
         else if up_edit_id s = Some (au_id u)
         then El ''div''
           [Btn (up_saving s) (Some (SaveRole (au_id u)))
              [Txt (if up_saving s then ''Saving...'' else ''Save'')],
            Btn False (Some CancelRole) [Txt ''Cancel'']]
         else Btn False (Some (EditRole u)) [Txt ''Edit Role'']]"

definition user_heads :: "string list" where
  "user_heads = [''User'', ''Email'', ''Role'', ''GitHub'', ''Projects'', ''Joined'']"

definition users_table ::
  "(string \<Rightarrow> string) \<Rightarrow> user_info option \<Rightarrow> bool \<Rightarrow> users_page \<Rightarrow> users_event view" where
  "users_table locale_string user with_actions s =
     data_table (user_heads @ (if with_actions then [''Actions''] else []))
       (map (\<lambda>u. El ''tr''
          (user_cells locale_string user s u @ (if with_actions then [user_actions user s u] else [])))
        (up_users s))"

definition is_faculty :: "user_info option \<Rightarrow> bool" where
  "is_faculty user = (case user of None \<Rightarrow> False | Some u \<Rightarrow> ui_role u = JAS_Faculty)"

definition admin_users_view ::
  "(string \<Rightarrow> string) \<Rightarrow> user_info option \<Rightarrow> users_page \<Rightarrow> users_event view" where
  "admin_users_view locale_string user s =
     (if is_developer user then denied_view
      else El ''div''
        [users_title ''Platform users and role assignments'' s, users_cards s, users_filters s,
         error_box (up_error s),
         if up_loading s then para ''Loading users...''
         else if up_users s = [] then para ''No users found.''
         else Frag
           [users_table locale_string user (is_faculty user) s,
            when_view (1 < pages_of (up_total s))
              (pager [] UsersPrev UsersNext (up_page s) (pages_of (up_total s)))]])"

definition faculty_users_view ::
  "(string \<Rightarrow> string) \<Rightarrow> user_info option \<Rightarrow> users_page \<Rightarrow> users_event view" where
  "faculty_users_view locale_string user s =
     El ''div''
       [users_title ''Manage platform users and role assignments'' s, users_cards s, users_filters s,
        error_box (up_error s),
        if up_loading s then para ''Loading users...''
        else if up_users s = [] then para ''No users found.''
        else Frag
          [users_table locale_string user True s,
           when_view (1 < pages_of (up_total s))
             (pager ('' ('' @ show_int (up_total s) @ '' users)'') UsersPrev UsersNext (up_page s)
                (pages_of (up_total s)))]]"

lemma offers_users_parts [simp]:
  "\<not> offers (users_title prefix s) e" "\<not> offers (users_cards s) e"
  "offers (users_filters s) e \<longleftrightarrow>
     (\<exists>v. e = SetSearch v) \<or> (\<exists>v l. (v, l) \<in> set role_options \<and> e = SetRoleFilter v)"
  by (auto simp: users_title_def users_cards_def users_filters_def)

lemma offers_user_cells [simp]:
  "(\<exists>v \<in> set (user_cells locale_string user s u). offers v e) \<longleftrightarrow>
     up_edit_id s = Some (au_id u) \<and> (\<exists>v l. (v, l) \<in> set ROLE_LABELS \<and> e = SetRoleValue v)"
  by (auto simp: user_cells_def split: option.splits)

lemma offers_user_actions:
  "offers (user_actions user s u) e \<longleftrightarrow>
     \<not> is_self user u \<and>
     (if up_edit_id s = Some (au_id u)
      then (\<not> up_saving s \<and> e = SaveRole (au_id u)) \<or> e = CancelRole
      else e = EditRole u)"
  by (auto simp: user_actions_def)

lemma offers_user_row [simp]:
  "(\<exists>v \<in> set (user_cells locale_string user s u @ (if acts then [user_actions user s u] else [])).
      offers v e) \<longleftrightarrow>
     (up_edit_id s = Some (au_id u) \<and> (\<exists>v l. (v, l) \<in> set ROLE_LABELS \<and> e = SetRoleValue v)) \<or>
     acts \<and> offers (user_actions user s u) e"
  unfolding set_append bex_Un offers_user_cells by auto

lemma offers_users_table:
  "offers (users_table locale_string user acts s) e \<longleftrightarrow>
     (\<exists>u \<in> set (up_users s).
        (up_edit_id s = Some (au_id u) \<and> (\<exists>v l. (v, l) \<in> set ROLE_LABELS \<and> e = SetRoleValue v)) \<or>
        acts \<and> offers (user_actions user s u) e)"
  by (simp add: users_table_def del: set_append)

section \<open>The machine of a page\<close>

fun users_answers ::
  "(admin_params \<Rightarrow> admin_user_list_response \<Rightarrow> bool) \<Rightarrow> users_cmd \<Rightarrow> users_reply \<Rightarrow> bool" where
  "users_answers serves (FetchUsers q saving) (UsersReply r) =
     (case r of Inr res \<Rightarrow> serves q res | Inl e \<Rightarrow> True)"
| "users_answers serves (UpdateRole uid v q) (RoleReply r) = True"
| "users_answers serves c r = False"

fun saving_cmd :: "users_cmd \<Rightarrow> bool" where
  "saving_cmd (FetchUsers q saving) = saving"
| "saving_cmd (UpdateRole uid v q) = True"

fun is_fetch :: "users_cmd \<Rightarrow> bool" where
  "is_fetch (FetchUsers q saving) = True"
| "is_fetch (UpdateRole uid v q) = False"

lemma is_fetch_iff: "is_fetch c \<longleftrightarrow> (\<exists>q saving. c = FetchUsers q saving)"
  by (cases c) auto

text \<open>
  What the page guarantees of its role editor, for a view that offers Save only while nothing is
  being saved, and never for the own account.
\<close>

definition users_inv :: "user_info option \<Rightarrow> bool \<Rightarrow> users_page \<Rightarrow> users_cmd list \<Rightarrow> bool" where
  "users_inv user editor s fl =
     (0 \<le> up_page s \<and>
      length (filter saving_cmd fl) = (if up_saving s then 1 else 0) \<and>
      (up_loading s \<longrightarrow> (\<exists>c \<in> set fl. is_fetch c)) \<and>
      (\<forall>me. user = Some me \<longrightarrow> (\<forall>v q. UpdateRole (ui_id me) v q \<notin> set fl)) \<and>
      (\<forall>uid v q. UpdateRole uid v q \<in> set fl \<longrightarrow> editor))"

lemma users_resume_role:
  "users_resume (UpdateRole uid v q) (RoleReply r) s =
     (case r of
        Inr u \<Rightarrow> (fetch_users (cancel_role_edit s), [FetchUsers q True])
      | Inl e \<Rightarrow> (s\<lparr>up_error := Some (message_or ''Failed to update role'' e), up_saving := False\<rparr>, []))"
  by (cases r) auto

lemma page_fields [simp]:
  "up_page (fetch_users s) = up_page s" "up_saving (fetch_users s) = up_saving s"
  "up_loading (fetch_users s)" "up_error (fetch_users s) = None"
  "up_users (fetch_users s) = up_users s" "up_total (fetch_users s) = up_total s"
  "up_page (cancel_role_edit s) = up_page s" "up_saving (cancel_role_edit s) = up_saving s"
  "up_page (users_received r s) = up_page s" "up_saving (users_received r s) = up_saving s"
  "\<not> up_loading (users_received r s)"
  by (simp_all add: fetch_users_def cancel_role_edit_def users_received_def split: sum.splits)

locale users_view =
  fixes user :: "user_info option"
    and editor :: bool
    and view :: "users_page \<Rightarrow> users_event view"
  assumes save_offered: "offers (view s) (SaveRole uid) \<Longrightarrow>
      \<not> up_saving s \<and> editor \<and> (\<forall>me. user = Some me \<longrightarrow> uid \<noteq> ui_id me)"
    and next_offered: "offers (view s) UsersNext \<Longrightarrow> up_page s < pages_of (up_total s) - 1"
begin

lemma users_update_inv:
  assumes "users_inv user editor s fl" and "offers (view s) e" and "e \<noteq> SaveRole uid"
  shows "users_inv user editor (users_update e s) fl"
  using assms next_offered [of s]
  by (cases e) (auto simp: users_inv_def start_role_edit_def cancel_role_edit_def
      next_page_def)

lemma users_handle_inv:
  assumes "users_inv user editor s fl" and "offers (view s) e" and "users_handle e s = (s', cs)"
  shows "users_inv user editor s' (fl @ cs)"
proof (cases "\<exists>uid. e = SaveRole uid")
  case True
  then obtain uid where e: "e = SaveRole uid" ..
  from assms(2) have "\<not> up_saving s" editor "\<forall>me. user = Some me \<longrightarrow> uid \<noteq> ui_id me"
    using save_offered [of s uid] by (auto simp: e)
  with assms(1,3) show ?thesis
    by (auto simp: users_inv_def e save_role_def)
next
  case False
  then have upd: "users_inv user editor (users_update e s) fl"
    using users_update_inv [OF assms(1,2)] by blast
  from False have "users_handle e s =
      with_effect users_deps fetch_users (\<lambda>s. FetchUsers (users_query s) False) (users_update e) s"
    by (cases e) auto
  with assms(3) have "with_effect users_deps fetch_users (\<lambda>s. FetchUsers (users_query s) False)
      (users_update e) s = (s', cs)"
    by simp
  then show ?thesis
    by (rule with_effect_cases) (use upd in \<open>auto simp: users_inv_def fetch_users_def\<close>)
qed

lemma users_resume_inv:
  assumes "users_inv user editor s (xs @ c # ys)" and "users_answers serves c r"
    and "users_resume c r s = (s', cs)"
  shows "users_inv user editor s' (xs @ ys @ cs)"
proof (cases c)
  case (FetchUsers q b)
  with assms(2) obtain m where r: "r = UsersReply m" by (cases r) auto
  from assms(1,3) show ?thesis
    unfolding FetchUsers r by (cases b) (auto simp: users_inv_def split: if_splits)
next
  case (UpdateRole uid v q)
  with assms(2) obtain m where r: "r = RoleReply m" by (cases r) auto
  from assms(1,3) show ?thesis
    unfolding UpdateRole r
    by (cases m) (auto simp: users_inv_def users_resume_role split: if_splits)
qed

end

definition users_start :: "(users_page, users_cmd) world" where
  "users_start = (users_initial, [FetchUsers (users_query users_initial) False])"

lemma users_start_inv: "users_inv user editor (fst users_start) (snd users_start)"
  by (auto simp: users_inv_def users_start_def users_initial_def)

sublocale users_view \<subseteq> world_invariant "\<lambda>s. offers (view s)" users_handle users_resume "users_answers serves"
  users_start "users_inv user editor" for serves
  by unfold_locales
    (rule users_start_inv, erule (2) users_handle_inv, erule (2) users_resume_inv)

lemma save_in_table:
  "offers (users_table locale_string user acts s) (SaveRole uid) \<Longrightarrow>
   \<not> up_saving s \<and> acts \<and> (\<forall>me. user = Some me \<longrightarrow> uid \<noteq> ui_id me)"
  by (auto simp: offers_users_table offers_user_actions is_self_def split: if_splits)

lemma next_not_in_table [simp]: "\<not> offers (users_table locale_string user acts s) UsersNext"
  by (auto simp: offers_users_table offers_user_actions)

interpretation admin_users: users_view user "is_faculty user" "admin_users_view locale_string user"
  for locale_string user
  by unfold_locales (auto simp: admin_users_view_def split: if_splits dest: save_in_table)

interpretation faculty_users: users_view user True "faculty_users_view locale_string user"
  for locale_string user
  by unfold_locales (auto simp: faculty_users_view_def split: if_splits dest: save_in_table)

abbreviation admin_users_steps where
  "admin_users_steps locale_string user serves \<equiv>
     wstep (\<lambda>s. offers (admin_users_view locale_string user s)) users_handle users_resume
       (users_answers serves)"

abbreviation faculty_users_steps where
  "faculty_users_steps locale_string user serves \<equiv>
     wstep (\<lambda>s. offers (faculty_users_view locale_string user s)) users_handle users_resume
       (users_answers serves)"

text \<open>
  C28: on the administration's page at most one role is being saved at a time, exactly while the page
  shows it, only by a member of the faculty and never for the own account; and the page shows that it is
  loading only while a request for a listing is in flight.
\<close>

theorem admin_users_saving:
  assumes "(admin_users_steps locale_string user serves)\<^sup>*\<^sup>* users_start (s, fl)"
  shows "length (filter saving_cmd fl) = (if up_saving s then 1 else 0) \<and>
    (\<forall>uid v q. UpdateRole uid v q \<in> set fl \<longrightarrow> is_faculty user \<and> user \<noteq> None \<and>
       (\<forall>me. user = Some me \<longrightarrow> uid \<noteq> ui_id me)) \<and>
    (up_loading s \<longrightarrow> (\<exists>q saving. FetchUsers q saving \<in> set fl)) \<and>
    (fl = [] \<longrightarrow> \<not> up_loading s \<and> \<not> up_saving s)"
proof -
  have "users_inv user (is_faculty user) s fl"
    by (rule admin_users.reach_state_inv [OF assms])
  then show ?thesis
    by (auto simp: users_inv_def is_faculty_def is_fetch_iff split: if_splits option.splits)
qed

section \<open>A save that overtakes a search\<close>

definition sample_account :: "string \<Rightarrow> admin_user" where
  "sample_account name =
     \<lparr>au_id = ''u2'', au_username = name, au_display_name = ''A B'', au_email = ''a@cpp.edu'',
      au_role = ''JAS_Developer'', au_github_username = None, au_project_count = 0,
      au_created_at = ''2026-01-01''\<rparr>"

definition sample_faculty :: user_info where
  "sample_faculty =
     \<lparr>ui_id = ''u1'', ui_username = ''prof'', ui_display_name = ''P F'', ui_email = ''p@cpp.edu'',
      ui_role = JAS_Faculty, ui_github_username = None, ui_created_at = ''2026-01-01''\<rparr>"

text \<open>The server lists one account, named by the search text (or ''all'' when there is none).\<close>

definition accounts_for :: "admin_params \<Rightarrow> admin_user_list_response" where
  "accounts_for q =
     \<lparr>ls_items = [sample_account (case q_search q of None \<Rightarrow> ''all'' | Some t \<Rightarrow> t)], ls_total = 1\<rparr>"

definition accounts_serves :: "admin_params \<Rightarrow> admin_user_list_response \<Rightarrow> bool" where
  "accounts_serves q res = (res = accounts_for q)"

definition search_query :: "string \<Rightarrow> admin_params" where
  "search_query t = users_query (users_initial\<lparr>up_search := t\<rparr>)"

definition save_then_search :: "(users_event + nat \<times> users_reply) list" where
  "save_then_search =
     [Inr (0, UsersReply (Inr (accounts_for (search_query [])))),
      Inl (EditRole (sample_account ''all'')), Inl (SetRoleValue ''JAS-Staff''), Inl (SaveRole ''u2''),
      Inl (SetSearch ''x''),
      Inr (0, RoleReply (Inr (sample_account ''all''))),
      Inr (0, UsersReply (Inr (accounts_for (search_query ''x'')))),
      Inr (0, UsersReply (Inr (accounts_for (search_query []))))]"

lemmas users_run = users_start_def users_initial_def with_effect_def Let_def users_deps_def
  fetch_users_def users_query_def search_query_def or_undefined_def truthy_def save_role_def
  start_role_edit_def cancel_role_edit_def users_received_def accounts_for_def accounts_serves_def

lemma save_then_search_playable:
  "playable (\<lambda>s. offers (admin_users_view locale_string (Some sample_faculty) s)) users_handle
     users_resume (users_answers accounts_serves) save_then_search users_start"
  by (simp add: save_then_search_def users_run admin_users_view_def offers_users_table
      offers_user_actions is_self_def is_faculty_def is_developer_def sample_faculty_def
      sample_account_def ROLE_LABELS_def)

lemma save_then_search_result:
  "run_script users_handle users_resume save_then_search users_start =
     (users_initial\<lparr>up_users := [sample_account ''all''], up_total := 1, up_loading := False,
        up_search := ''x''\<rparr>, [])"
  by code_simp

text \<open>
  Saving a role can undo a later search: even with answers in the order of the requests, a
  state is reachable with nothing in flight in which the search field says one text and the table
  lists the accounts of another, because the save fetches the listing for the filters it was clicked
  with.
\<close>

lemma save_undoes_search:
  "\<exists>s. (fstep (\<lambda>s. offers (admin_users_view locale_string (Some sample_faculty) s)) users_handle
        users_resume (users_answers accounts_serves))\<^sup>*\<^sup>* users_start (s, []) \<and>
     up_search s = ''x'' \<and> up_error s = None \<and> up_users s = ls_items (accounts_for (search_query [])) \<and>
     up_users s \<noteq> ls_items (accounts_for (users_query s))"
proof -
  have "(fstep (\<lambda>s. offers (admin_users_view locale_string (Some sample_faculty) s)) users_handle
        users_resume (users_answers accounts_serves))\<^sup>*\<^sup>* users_start
      (run_script users_handle users_resume save_then_search users_start)"
    by (rule run_script_reaches_in_order [OF save_then_search_playable])
       (simp add: save_then_search_def)
  then show ?thesis
    unfolding save_then_search_result
    by (intro exI conjI) (assumption, simp_all add: users_initial_def accounts_for_def
        search_query_def users_query_def or_undefined_def truthy_def sample_account_def no_params_def)
qed

lemma save_in_flight:
  "\<exists>s q. (admin_users_steps locale_string (Some sample_faculty) accounts_serves)\<^sup>*\<^sup>* users_start
     (s, [UpdateRole ''u2'' ''JAS-Staff'' q])"
proof -
  let ?as = "take 4 save_then_search"
  have "playable (\<lambda>s. offers (admin_users_view locale_string (Some sample_faculty) s)) users_handle
      users_resume (users_answers accounts_serves) ?as users_start"
    by (simp add: save_then_search_def users_run admin_users_view_def offers_users_table
        offers_user_actions is_self_def is_faculty_def is_developer_def sample_faculty_def
        sample_account_def ROLE_LABELS_def)
  from run_script_reaches [OF this] show ?thesis
    by (auto simp: save_then_search_def users_run)
qed

theorem admin_users_saving_witness:
  "\<exists>s q. (admin_users_steps (\<lambda>d. d) (Some sample_faculty) accounts_serves)\<^sup>*\<^sup>* users_start
     (s, [UpdateRole ''u2'' ''JAS-Staff'' q]) \<and>
     is_faculty (Some sample_faculty) \<and> ''u2'' \<noteq> ui_id sample_faculty"
proof -
  obtain s q where w: "(admin_users_steps (\<lambda>d. d) (Some sample_faculty) accounts_serves)\<^sup>*\<^sup>* users_start
     (s, [UpdateRole ''u2'' ''JAS-Staff'' q])"
    using save_in_flight by blast
  from admin_users_saving [OF this] have "is_faculty (Some sample_faculty) \<and> ''u2'' \<noteq> ui_id sample_faculty"
    by simp
  with w show ?thesis by blast
qed

end
