(* ===== verification/QuotasPage.thy ===== *)
theory QuotasPage
  imports PageKit
begin

text \<open>
  The three quota pages (\<open>web/src/app/{admin,staff,faculty}/quotas/page.tsx\<close>): search and paging over
  the quotas, their sums, and (not for staff) the editor of a row, whose Save updates the quota and
  fetches the listing again with the search and page it was clicked with. \<open>number\<close> stands for the
  language's \<open>Number(text)\<close> on what a number field holds, restricted to whole numbers.
\<close>

section \<open>State\<close>

record quotas_page =
  qg_quotas :: "quota_with_project list"
  qg_total :: int
  qg_loading :: bool
  qg_search :: string
  qg_page :: int
  qg_edit_id :: "string option"
  qg_edit_values :: quota_update
  qg_saving :: bool
  qg_error :: "string option"

definition no_values :: quota_update where
  "no_values = \<lparr>qu_cpu_limit = None, qu_ram_limit = None, qu_disk_limit = None\<rparr>"

definition quotas_initial :: quotas_page where
  "quotas_initial =
     \<lparr>qg_quotas = [], qg_total = 0, qg_loading = True, qg_search = [], qg_page = 0,
      qg_edit_id = None, qg_edit_values = no_values, qg_saving = False, qg_error = None\<rparr>"

section \<open>Fetching\<close>

definition quotas_query :: "quotas_page \<Rightarrow> admin_params" where
  "quotas_query s =
     no_params\<lparr>q_skip := Some (qg_page s * limit), q_limit := Some limit,
       q_search := or_undefined (qg_search s)\<rparr>"

definition fetch_quotas :: "quotas_page \<Rightarrow> quotas_page" where
  "fetch_quotas s = s\<lparr>qg_loading := True, qg_error := None\<rparr>"

definition quotas_deps :: "quotas_page \<Rightarrow> int \<times> string" where
  "quotas_deps s = (qg_page s, qg_search s)"

datatype quotas_cmd = FetchQuotas admin_params bool | UpdateQuota string quota_update admin_params

datatype quotas_reply =
    QuotasReply "quota_list_response outcome"
  | QuotaReply "quota outcome"

definition quotas_received :: "quota_list_response outcome \<Rightarrow> quotas_page \<Rightarrow> quotas_page" where
  "quotas_received r s =
     (case r of
        Inr res \<Rightarrow> s\<lparr>qg_quotas := ls_items res, qg_total := ls_total res, qg_loading := False\<rparr>
      | Inl e \<Rightarrow> s\<lparr>qg_error := Some (message_or ''Failed to load quotas'' e), qg_loading := False\<rparr>)"

section \<open>Editor\<close>

definition start_editing :: "quota_with_project \<Rightarrow> quotas_page \<Rightarrow> quotas_page" where
  "start_editing q s =
     s\<lparr>qg_edit_id := Some (qp_project_id q),
       qg_edit_values := \<lparr>qu_cpu_limit = Some (qp_cpu_limit q), qu_ram_limit = Some (qp_ram_limit q),
         qu_disk_limit = Some (qp_disk_limit q)\<rparr>\<rparr>"

definition cancel_editing :: "quotas_page \<Rightarrow> quotas_page" where
  "cancel_editing s = s\<lparr>qg_edit_id := None, qg_edit_values := no_values\<rparr>"

definition save_quota :: "string \<Rightarrow> quotas_page \<Rightarrow> quotas_page \<times> quotas_cmd list" where
  "save_quota pid s =
     (s\<lparr>qg_saving := True\<rparr>, [UpdateQuota pid (qg_edit_values s) (quotas_query s)])"

fun quotas_resume :: "quotas_cmd \<Rightarrow> quotas_reply \<Rightarrow> quotas_page \<Rightarrow> quotas_page \<times> quotas_cmd list" where
  "quotas_resume (FetchQuotas q saving) (QuotasReply r) s =
     ((if saving then (quotas_received r s)\<lparr>qg_saving := False\<rparr> else quotas_received r s), [])"
| "quotas_resume (UpdateQuota pid v q) (QuotaReply (Inr u)) s =
     (fetch_quotas (cancel_editing s), [FetchQuotas q True])"
| "quotas_resume (UpdateQuota pid v q) (QuotaReply (Inl e)) s =
     (s\<lparr>qg_error := Some (message_or ''Failed to update quota'' e), qg_saving := False\<rparr>, [])"
| "quotas_resume c r s = (s, [])"

section \<open>Events\<close>

datatype quotas_event =
    SearchProjects string
  | QuotasPrev
  | QuotasNext
  | EditQuota quota_with_project
  | SetCpu int
  | SetRam int
  | SetDisk int
  | CancelQuota
  | SaveQuota string

fun quotas_update :: "quotas_event \<Rightarrow> quotas_page \<Rightarrow> quotas_page" where
  "quotas_update (SearchProjects v) s = s\<lparr>qg_search := v, qg_page := 0\<rparr>"
| "quotas_update QuotasPrev s = s\<lparr>qg_page := prev_page (qg_page s)\<rparr>"
| "quotas_update QuotasNext s = s\<lparr>qg_page := next_page (pages_of (qg_total s)) (qg_page s)\<rparr>"
| "quotas_update (EditQuota q) s = start_editing q s"
| "quotas_update (SetCpu n) s = s\<lparr>qg_edit_values := (qg_edit_values s)\<lparr>qu_cpu_limit := Some n\<rparr>\<rparr>"
| "quotas_update (SetRam n) s = s\<lparr>qg_edit_values := (qg_edit_values s)\<lparr>qu_ram_limit := Some n\<rparr>\<rparr>"
| "quotas_update (SetDisk n) s = s\<lparr>qg_edit_values := (qg_edit_values s)\<lparr>qu_disk_limit := Some n\<rparr>\<rparr>"
| "quotas_update CancelQuota s = cancel_editing s"
| "quotas_update (SaveQuota pid) s = s"

fun quotas_handle :: "quotas_event \<Rightarrow> quotas_page \<Rightarrow> quotas_page \<times> quotas_cmd list" where
  "quotas_handle (SaveQuota pid) s = save_quota pid s"
| "quotas_handle e s =
     with_effect quotas_deps fetch_quotas (\<lambda>s. FetchQuotas (quotas_query s) False)
       (quotas_update e) s"

section \<open>Views\<close>

definition sum_of :: "(quota_with_project \<Rightarrow> int) \<Rightarrow> quotas_page \<Rightarrow> int" where
  "sum_of f s = foldl (\<lambda>n q. n + f q) 0 (qg_quotas s)"

text \<open>\<open>(mb / 1024).toFixed(1)\<close>: the nearest tenth, the larger one of two that are equally near.\<close>

definition to_fixed_gb :: "int \<Rightarrow> string" where
  "to_fixed_gb mb =
     (let tenths = (20 * \<bar>mb\<bar> + 1024) div 2048
      in (if mb < 0 then ''-'' else []) @ show_int (tenths div 10) @ ''.'' @ show_int (tenths mod 10))"

definition text_card :: "string \<Rightarrow> string \<Rightarrow> string option \<Rightarrow> 'e view" where
  "text_card label value sub =
     El ''div''
       [El ''p'' [Txt label,
          (case sub of None \<Rightarrow> Frag []
           | Some t \<Rightarrow> when_view (truthy t) (El ''span'' [Txt (''('' @ t @ '')'')]))],
        El ''p'' [Txt value]]"

definition quotas_cards :: "quotas_page \<Rightarrow> 'e view" where
  "quotas_cards s =
     El ''div''
       [text_card ''Projects'' (show_int (qg_total s)) None,
        text_card ''Total vCPUs'' (show_int (sum_of qp_cpu_limit s)) (Some ''this page''),
        text_card ''Total RAM'' (to_fixed_gb (sum_of qp_ram_limit s) @ '' GB'') (Some ''this page''),
        text_card ''Total Disk'' (to_fixed_gb (sum_of qp_disk_limit s) @ '' GB'') (Some ''this page'')]"

definition quotas_title :: "string \<Rightarrow> quotas_page \<Rightarrow> 'e view" where
  "quotas_title t s =
     El ''div''
       [El ''h1'' [Txt t],
        El ''p'' [Txt (''Resource limits per project '' @ mdash @ '' '' @ show_int (qg_total s) @
          '' projects with quotas'')]]"

definition quotas_search :: "quotas_page \<Rightarrow> quotas_event view" where
  "quotas_search s = El ''div'' [Inp ''text'' (qg_search s) ''Search projects...'' SearchProjects]"

definition number_text :: "int option \<Rightarrow> string" where
  "number_text v = (case v of None \<Rightarrow> [] | Some n \<Rightarrow> show_int n)"

definition limit_cell ::
  "(string \<Rightarrow> int) \<Rightarrow> bool \<Rightarrow> int option \<Rightarrow> (int \<Rightarrow> quotas_event) \<Rightarrow> int \<Rightarrow> quotas_event view" where
  "limit_cell number editing value assign shown =
     td [if editing then Inp ''number'' (number_text value) [] (\<lambda>t. assign (number t))
         else El ''span'' [Txt (show_int shown)]]"

definition name_cells :: "quota_with_project \<Rightarrow> 'e view list" where
  "name_cells q =
     [td [El ''p'' [Txt (qp_project_name q)], El ''p'' [Txt (qp_project_slug q)]],
      td [Txt (qp_owner_username q)]]"

definition quota_cells ::
  "(string \<Rightarrow> int) \<Rightarrow> quotas_page \<Rightarrow> quota_with_project \<Rightarrow> quotas_event view list" where
  "quota_cells number s q =
     (let editing = (qg_edit_id s = Some (qp_project_id q)); v = qg_edit_values s
      in name_cells q @
         [limit_cell number editing (qu_cpu_limit v) SetCpu (qp_cpu_limit q),
          limit_cell number editing (qu_ram_limit v) SetRam (qp_ram_limit q),
          limit_cell number editing (qu_disk_limit v) SetDisk (qp_disk_limit q)])"

definition quota_actions :: "quotas_page \<Rightarrow> quota_with_project \<Rightarrow> quotas_event view" where
  "quota_actions s q =
     td [if qg_edit_id s = Some (qp_project_id q)
         then El ''div''
           [Btn (qg_saving s) (Some (SaveQuota (qp_project_id q)))
              [Txt (if qg_saving s then ''Saving...'' else ''Save'')],
            Btn False (Some CancelQuota) [Txt ''Cancel'']]
         else Btn False (Some (EditQuota q)) [Txt ''Edit'']]"

definition quota_heads :: "string list" where
  "quota_heads = [''Project'', ''Owner'', ''CPU (vCPU)'', ''RAM (MB)'', ''Disk (MB)'']"

definition quotas_table :: "(string \<Rightarrow> int) \<Rightarrow> bool \<Rightarrow> quotas_page \<Rightarrow> quotas_event view" where
  "quotas_table number acts s =
     data_table (quota_heads @ (if acts then [''Actions''] else []))
       (map (\<lambda>q. El ''tr'' (quota_cells number s q @ (if acts then [quota_actions s q] else [])))
         (qg_quotas s))"

definition quotas_faculty :: "user_info option \<Rightarrow> bool" where
  "quotas_faculty user = (case user of None \<Rightarrow> False | Some u \<Rightarrow> ui_role u = JAS_Faculty)"

definition admin_quotas_view ::
  "(string \<Rightarrow> int) \<Rightarrow> user_info option \<Rightarrow> quotas_page \<Rightarrow> quotas_event view" where
  "admin_quotas_view number user s =
     (if is_developer user then denied_view
      else El ''div''
        [quotas_title ''Quota Management'' s, quotas_cards s, quotas_search s, error_box (qg_error s),
         if qg_loading s then para ''Loading quotas...''
         else if qg_quotas s = [] then para ''No quotas found.''
         else Frag
           [quotas_table number (quotas_faculty user) s,
            when_view (1 < pages_of (qg_total s))
              (pager [] QuotasPrev QuotasNext (qg_page s) (pages_of (qg_total s)))]])"

definition faculty_quotas_view ::
  "(string \<Rightarrow> int) \<Rightarrow> quotas_page \<Rightarrow> quotas_event view" where
  "faculty_quotas_view number s =
     El ''div''
       [quotas_title ''Quota Management'' s, quotas_cards s, quotas_search s, error_box (qg_error s),
        if qg_loading s then para ''Loading quotas...''
        else if qg_quotas s = [] then para ''No quotas found.''
        else Frag
          [quotas_table number True s,
           when_view (1 < pages_of (qg_total s))
             (pager [] QuotasPrev QuotasNext (qg_page s) (pages_of (qg_total s)))]]"

text \<open>The staff page has the same state but for the editor, and shows the limits only.\<close>

definition staff_quota_row :: "quota_with_project \<Rightarrow> 'e view" where
  "staff_quota_row q =
     El ''tr''
       (name_cells q @
        [td [El ''span'' [Txt (show_int (qp_cpu_limit q))]],
         td [El ''span'' [Txt (show_int (qp_ram_limit q))]],
         td [El ''span'' [Txt (show_int (qp_disk_limit q))]]])"

definition staff_quotas_view :: "quotas_page \<Rightarrow> quotas_event view" where
  "staff_quotas_view s =
     El ''div''
       [quotas_title ''Quotas'' s, quotas_cards s, quotas_search s, error_box (qg_error s),
        if qg_loading s then para ''Loading quotas...''
        else if qg_quotas s = [] then para ''No quotas found.''
        else Frag
          [data_table quota_heads (map staff_quota_row (qg_quotas s)),
           when_view (1 < pages_of (qg_total s))
             (pager [] QuotasPrev QuotasNext (qg_page s) (pages_of (qg_total s)))]]"

section \<open>What the controls offer\<close>

lemma offers_text_card [simp]: "\<not> offers (text_card label value sub) e"
  by (simp add: text_card_def split: option.split)

lemma offers_quotas_parts [simp]:
  "\<not> offers (quotas_title t s) e" "\<not> offers (quotas_cards s) e"
  "offers (quotas_search s) e \<longleftrightarrow> (\<exists>v. e = SearchProjects v)"
  by (auto simp: quotas_title_def quotas_cards_def quotas_search_def)

lemma offers_name_cells [simp]: "v \<in> set (name_cells q) \<Longrightarrow> \<not> offers v e"
  by (auto simp: name_cells_def)

lemma offers_staff_quota_row [simp]: "\<not> offers (staff_quota_row q) e"
  by (auto simp: staff_quota_row_def)

lemma save_in_quotas_table:
  "offers (quotas_table number acts s) (SaveQuota pid) \<longleftrightarrow>
     acts \<and> \<not> qg_saving s \<and> qg_edit_id s = Some pid \<and> pid \<in> qp_project_id ` set (qg_quotas s)"
  unfolding quotas_table_def offers_data_table
  by (auto simp: quota_cells_def Let_def limit_cell_def quota_actions_def split: if_splits)

lemma paging_not_in_quotas_table [simp]:
  "\<not> offers (quotas_table number acts s) QuotasNext" "\<not> offers (quotas_table number acts s) QuotasPrev"
  unfolding quotas_table_def offers_data_table
  by (auto simp: quota_cells_def Let_def limit_cell_def quota_actions_def split: if_splits)

section \<open>The machine of a page\<close>

fun quotas_answers ::
  "(admin_params \<Rightarrow> quota_list_response \<Rightarrow> bool) \<Rightarrow> quotas_cmd \<Rightarrow> quotas_reply \<Rightarrow> bool" where
  "quotas_answers serves (FetchQuotas q saving) (QuotasReply r) =
     (case r of Inr res \<Rightarrow> serves q res | Inl e \<Rightarrow> True)"
| "quotas_answers serves (UpdateQuota pid v q) (QuotaReply r) = True"
| "quotas_answers serves c r = False"

fun quota_save :: "quotas_cmd \<Rightarrow> bool" where
  "quota_save (FetchQuotas q saving) = saving"
| "quota_save (UpdateQuota pid v q) = True"

fun quota_listing :: "quotas_cmd \<Rightarrow> bool" where
  "quota_listing (FetchQuotas q saving) = True"
| "quota_listing (UpdateQuota pid v q) = False"

definition quotas_start :: "(quotas_page, quotas_cmd) world" where
  "quotas_start = (quotas_initial, [FetchQuotas (quotas_query quotas_initial) False])"

lemma quotas_fields [simp]:
  "qg_saving (fetch_quotas s) = qg_saving s" "qg_loading (fetch_quotas s)"
  "qg_saving (cancel_editing s) = qg_saving s" "qg_loading (cancel_editing s) = qg_loading s"
  "qg_saving (quotas_received r s) = qg_saving s" "\<not> qg_loading (quotas_received r s)"
  "qg_saving (start_editing q s) = qg_saving s" "qg_loading (start_editing q s) = qg_loading s"
  by (simp_all add: fetch_quotas_def cancel_editing_def quotas_received_def start_editing_def
      split: sum.splits)

lemma quotas_update_fields [simp]:
  "qg_saving (quotas_update e s) = qg_saving s" "qg_loading (quotas_update e s) = qg_loading s"
  by (cases e; simp)+

lemma quotas_handle_flags:
  assumes "quotas_handle e s = (s', cs)" and "\<And>pid. e = SaveQuota pid \<Longrightarrow> \<not> qg_saving s"
  shows "of_bool (qg_saving s') = of_bool (qg_saving s) + length (filter quota_save cs)"
    and "qg_loading s' \<Longrightarrow> qg_loading s \<or> (\<exists>c \<in> set cs. quota_listing c)"
proof -
  have "of_bool (qg_saving s') = of_bool (qg_saving s) + length (filter quota_save cs) \<and>
    (qg_loading s' \<longrightarrow> qg_loading s \<or> (\<exists>c \<in> set cs. quota_listing c))"
  proof (cases "\<exists>pid. e = SaveQuota pid")
    case True
    with assms show ?thesis by (auto simp: save_quota_def)
  next
    case False
    then have "quotas_handle e s = with_effect quotas_deps fetch_quotas
        (\<lambda>s. FetchQuotas (quotas_query s) False) (quotas_update e) s"
      by (cases e) auto
    with assms(1) have "with_effect quotas_deps fetch_quotas
        (\<lambda>s. FetchQuotas (quotas_query s) False) (quotas_update e) s = (s', cs)"
      by simp
    then show ?thesis by (rule with_effect_cases) auto
  qed
  then show "of_bool (qg_saving s') = of_bool (qg_saving s) + length (filter quota_save cs)"
    and "qg_loading s' \<Longrightarrow> qg_loading s \<or> (\<exists>c \<in> set cs. quota_listing c)"
    by blast+
qed

lemma quotas_resume_flags:
  assumes "quotas_answers serves c r" and "quotas_resume c r s = (s', cs)"
    and "quota_save c \<longrightarrow> qg_saving s"
  shows "of_bool (qg_saving s') + of_bool (quota_save c) =
      of_bool (qg_saving s) + length (filter quota_save cs)"
  using assms
  by (cases "(c, r, s)" rule: quotas_resume.cases) (auto split: if_splits)

lemma quotas_resume_loading:
  assumes "quotas_answers serves c r" and "quotas_resume c r s = (s', cs)" and "qg_loading s'"
  shows "qg_loading s \<and> \<not> quota_listing c \<or> (\<exists>c \<in> set cs. quota_listing c)"
  using assms
  by (cases "(c, r, s)" rule: quotas_resume.cases) (auto split: if_splits)

lemma save_quota_not_saving:
  "offers (admin_quotas_view number user s) (SaveQuota pid) \<Longrightarrow> \<not> qg_saving s"
  "offers (faculty_quotas_view number s) (SaveQuota pid) \<Longrightarrow> \<not> qg_saving s"
  by (auto simp: admin_quotas_view_def faculty_quotas_view_def save_in_quotas_table split: if_splits)

lemma quotas_saving_page:
  assumes "\<And>s pid. offers (view s) (SaveQuota pid) \<Longrightarrow> \<not> qg_saving s"
  shows "saving_page (\<lambda>s. offers (view s)) quotas_handle quotas_resume (quotas_answers serves)
    quotas_start qg_saving qg_loading quota_save quota_listing"
proof
  show "length (filter quota_save (snd quotas_start)) = of_bool (qg_saving (fst quotas_start))"
    by (simp add: quotas_start_def quotas_initial_def)
  show "\<exists>c \<in> set (snd quotas_start). quota_listing c"
    by (simp add: quotas_start_def)
next
  fix s e s' cs
  assume o: "offers (view s) e" and h: "quotas_handle e s = (s', cs)"
  have n: "\<And>pid. e = SaveQuota pid \<Longrightarrow> \<not> qg_saving s"
    using o assms by blast
  show "of_bool (qg_saving s') = of_bool (qg_saving s) + length (filter quota_save cs)"
    by (rule quotas_handle_flags(1) [OF h n])
  show "qg_loading s \<or> (\<exists>c \<in> set cs. quota_listing c)" if "qg_loading s'"
    by (rule quotas_handle_flags(2) [OF h n that])
qed (erule (2) quotas_resume_flags, erule (2) quotas_resume_loading)

interpretation admin_quotas: saving_page "\<lambda>s. offers (admin_quotas_view number user s)"
  quotas_handle quotas_resume "quotas_answers serves" quotas_start qg_saving qg_loading
  quota_save quota_listing for number user serves
  by (rule quotas_saving_page) (erule save_quota_not_saving(1))

interpretation faculty_quotas: saving_page "\<lambda>s. offers (faculty_quotas_view number s)"
  quotas_handle quotas_resume "quotas_answers serves" quotas_start qg_saving qg_loading
  quota_save quota_listing for number serves
  by (rule quotas_saving_page) (erule save_quota_not_saving(2))

abbreviation faculty_quotas_steps where
  "faculty_quotas_steps number serves \<equiv>
     wstep (\<lambda>s. offers (faculty_quotas_view number s)) quotas_handle quotas_resume
       (quotas_answers serves)"

section \<open>Sizes in gigabytes\<close>

text \<open>
  The text of a size is within a twentieth of a gigabyte of it, on the side of the larger tenth
  when two are equally near.
\<close>

definition tenths_of :: "int \<Rightarrow> int" where
  "tenths_of mb = (20 * mb + 1024) div 2048"

lemma tenths_nearest:
  "10 * mb - 512 < 1024 * tenths_of mb" "1024 * tenths_of mb \<le> 10 * mb + 512"
  unfolding tenths_of_def by linarith+

text \<open>
  The cards of the quota pages show each sum in gigabytes with one decimal, rounded to the
  nearest tenth (up, when two are equally near).
\<close>

lemma quota_card_rounding:
  assumes "0 \<le> mb"
  shows "\<exists>w t. to_fixed_gb mb = show_int w @ ''.'' @ show_int t \<and> 0 \<le> w \<and> 0 \<le> t \<and> t \<le> 9 \<and>
    10 * mb - 512 < 1024 * (10 * w + t) \<and> 1024 * (10 * w + t) \<le> 10 * mb + 512"
proof (intro exI conjI)
  let ?n = "tenths_of mb"
  show "to_fixed_gb mb = show_int (?n div 10) @ ''.'' @ show_int (?n mod 10)"
    using assms by (simp add: to_fixed_gb_def tenths_of_def Let_def)
  have "0 \<le> ?n" using assms by (simp add: tenths_of_def)
  then show "0 \<le> ?n div 10" "0 \<le> ?n mod 10" "?n mod 10 \<le> 9"
    by simp_all
  have "10 * (?n div 10) + ?n mod 10 = ?n" by simp
  then show "10 * mb - 512 < 1024 * (10 * (?n div 10) + ?n mod 10)"
    and "1024 * (10 * (?n div 10) + ?n mod 10) \<le> 10 * mb + 512"
    using tenths_nearest [of mb] by simp_all
qed

text \<open>
  On the faculty's quota page one save runs at a time, and with nothing in flight the page is
  neither saving nor loading.
\<close>

lemma faculty_quotas_saving:
  assumes "(faculty_quotas_steps number serves)\<^sup>*\<^sup>* quotas_start (s, fl)"
  shows "length (filter quota_save fl) \<le> 1 \<and> (fl = [] \<longrightarrow> \<not> qg_saving s \<and> \<not> qg_loading s)"
  using faculty_quotas.single_save [OF assms] by simp

section \<open>Staff on the administration's page\<close>

definition read_only :: "quotas_page \<Rightarrow> quotas_cmd list \<Rightarrow> bool" where
  "read_only s fl = (qg_edit_id s = None \<and> list_all (\<lambda>c. \<not> quota_save c) fl)"

lemma staff_offers:
  assumes "ui_role u \<noteq> JAS_Faculty" and "offers (admin_quotas_view number (Some u) s) e"
    and "qg_edit_id s = None"
  shows "(\<exists>v. e = SearchProjects v) \<or> e = QuotasPrev \<or> e = QuotasNext"
  using assms unfolding admin_quotas_view_def quotas_table_def offers_data_table
  by (auto simp: quotas_faculty_def quota_cells_def limit_cell_def Let_def split: if_splits)

lemma read_only_reply:
  assumes "read_only s (xs @ c # ys)" and "quotas_answers serves c r"
    and "quotas_resume c r s = (s', cs)"
  shows "read_only s' (xs @ ys @ cs)"
proof (cases c)
  case (FetchQuotas q b)
  with assms(2) obtain m where "r = QuotasReply m" by (cases r) auto
  with FetchQuotas assms show ?thesis
    by (auto simp: read_only_def quotas_received_def split: sum.splits)
qed (use assms in \<open>simp add: read_only_def\<close>)

lemma read_only_act:
  assumes "ui_role u \<noteq> JAS_Faculty" and "read_only s fl"
    and "offers (admin_quotas_view number (Some u) s) e" and "quotas_handle e s = (s', cs)"
  shows "read_only s' (fl @ cs)"
  using staff_offers [OF assms(1,3)] assms(2,4)
  by (auto simp: read_only_def with_effect_def fetch_quotas_def Let_def split: if_splits)

lemma staff_quotas_world:
  assumes "ui_role u \<noteq> JAS_Faculty"
  shows "world_invariant (\<lambda>s. offers (admin_quotas_view number (Some u) s)) quotas_handle
    quotas_resume (quotas_answers serves) quotas_start read_only"
proof
  show "read_only (fst quotas_start) (snd quotas_start)"
    by (simp add: read_only_def quotas_start_def quotas_initial_def)
qed (erule (2) read_only_act [OF assms], erule (2) read_only_reply)

text \<open>
  On the administration's quota page a user who is not of the faculty only reads: in every
  reachable state no update of a quota is in flight, no editor is open, and the page offers the
  search and the paging only.
\<close>

lemma staff_only_reads_quotas:
  assumes "ui_role u \<noteq> JAS_Faculty"
    and "(wstep (\<lambda>s. offers (admin_quotas_view number (Some u) s)) quotas_handle quotas_resume
      (quotas_answers serves))\<^sup>*\<^sup>* quotas_start (s, fl)"
  shows "(\<forall>pid v q. UpdateQuota pid v q \<notin> set fl) \<and> qg_edit_id s = None \<and>
    (\<forall>e. offers (admin_quotas_view number (Some u) s) e \<longrightarrow>
       (\<exists>v. e = SearchProjects v) \<or> e = QuotasPrev \<or> e = QuotasNext)"
proof -
  have "read_only s fl"
    by (rule world_invariant.reach_state_inv [OF staff_quotas_world [OF assms(1)] assms(2)])
  then show ?thesis
    using staff_offers [OF assms(1)] by (auto simp: read_only_def list_all_iff)
qed

definition sample_staff :: user_info where
  "sample_staff =
     \<lparr>ui_id = ''u3'', ui_username = ''aide'', ui_display_name = ''S A'', ui_email = ''s@cpp.edu'',
      ui_role = JAS_Staff, ui_github_username = None, ui_created_at = ''2026-01-01''\<rparr>"

definition sample_quota :: quota_with_project where
  "sample_quota =
     \<lparr>qp_id = ''q1'', qp_project_id = ''p1'', qp_project_name = ''Site'', qp_project_slug = ''site'',
      qp_owner_username = ''jdoe'', qp_cpu_limit = 2, qp_ram_limit = 2048, qp_disk_limit = 10240\<rparr>"

lemma staff_only_reads_quotas_witness:
  "\<exists>s. (wstep (\<lambda>s. offers (admin_quotas_view (\<lambda>_. 0) (Some sample_staff) s)) quotas_handle
       quotas_resume (quotas_answers (\<lambda>_ _. True)))\<^sup>*\<^sup>* quotas_start (s, []) \<and>
     qg_quotas s = [sample_quota] \<and>
     \<not> offers (admin_quotas_view (\<lambda>_. 0) (Some sample_staff) s) (EditQuota sample_quota)"
proof -
  let ?as = "[Inr (0, QuotasReply (Inr \<lparr>ls_items = [sample_quota], ls_total = 1\<rparr>))]"
  let ?s = "quotas_initial\<lparr>qg_quotas := [sample_quota], qg_total := 1, qg_loading := False\<rparr>"
  have r: "ui_role sample_staff \<noteq> JAS_Faculty" by (simp add: sample_staff_def)
  have "playable (\<lambda>s. offers (admin_quotas_view (\<lambda>_. 0) (Some sample_staff) s)) quotas_handle
      quotas_resume (quotas_answers (\<lambda>_ _. True)) ?as quotas_start"
    by (simp add: quotas_start_def)
  from run_script_reaches [OF this]
  have reached: "(wstep (\<lambda>s. offers (admin_quotas_view (\<lambda>_. 0) (Some sample_staff) s)) quotas_handle
      quotas_resume (quotas_answers (\<lambda>_ _. True)))\<^sup>*\<^sup>* quotas_start (?s, [])"
    by (simp add: quotas_start_def quotas_received_def)
  from staff_only_reads_quotas [OF r reached]
  have "\<not> offers (admin_quotas_view (\<lambda>_. 0) (Some sample_staff) ?s) (EditQuota sample_quota)"
    by blast
  moreover have "qg_quotas ?s = [sample_quota]" by simp
  ultimately show ?thesis using reached by blast
qed

end
