(* ===== verification/PoliciesPage.thy ===== *)
theory PoliciesPage
  imports PageKit
begin

text \<open>
  The two network-policy pages (\<open>web/src/app/admin/network-policies/page.tsx\<close> and
  \<open>web/src/app/faculty/network-policies/page.tsx\<close>): the listing with its direction filter, the form
  that creates a policy (with the projects it offers), and the row actions that switch a policy on
  and off and delete it after a confirmation. Each of the three changes fetches the listing again,
  with the filter and page of the moment it was clicked. \<open>number\<close> is \<open>Number(text)\<close> on what a number
  field holds, restricted to whole numbers.
\<close>

section \<open>State\<close>

record policies_page =
  nq_policies :: "network_policy list"
  nq_total :: int
  nq_loading :: bool
  nq_dir_filter :: string
  nq_page :: int
  nq_show_create :: bool
  nq_projects :: "project list"
  nq_saving :: bool
  nq_deleting :: "string option"
  nq_toggling :: "string option"
  nq_error :: "string option"
  nq_confirm :: "string option"
  nq_form :: network_policy_create

definition empty_form :: network_policy_create where
  "empty_form =
     \<lparr>npc_project_id = [], npc_name = [], npc_direction = Some Egress, npc_protocol = Some Tcp,
      npc_port = Undefined, npc_destination = [], npc_action = Some Allow\<rparr>"

definition policies_initial :: policies_page where
  "policies_initial =
     \<lparr>nq_policies = [], nq_total = 0, nq_loading = True, nq_dir_filter = [], nq_page = 0,
      nq_show_create = False, nq_projects = [], nq_saving = False, nq_deleting = None,
      nq_toggling = None, nq_error = None, nq_confirm = None, nq_form = empty_form\<rparr>"

section \<open>Requests\<close>

definition policies_query :: "policies_page \<Rightarrow> admin_params" where
  "policies_query s =
     no_params\<lparr>q_skip := Some (nq_page s * limit), q_limit := Some limit,
       q_direction := or_undefined (nq_dir_filter s)\<rparr>"

text \<open>What runs when the fetch of a listing ends: nothing, or the end of a change.\<close>

datatype after_fetch = AfterEffect | AfterCreate | AfterDelete | AfterToggle

datatype policies_cmd =
    FetchPolicies admin_params after_fetch
  | FetchProjects int int
  | CreatePolicy network_policy_create admin_params
  | DeletePolicy string admin_params
  | TogglePolicy string bool admin_params

datatype policies_reply =
    PoliciesReply "network_policy_list_response outcome"
  | ProjectsReply "project_list_response outcome"
  | ChangeReply "unit outcome"

fun finish :: "after_fetch \<Rightarrow> policies_page \<Rightarrow> policies_page" where
  "finish AfterEffect s = s"
| "finish AfterCreate s = s\<lparr>nq_saving := False\<rparr>"
| "finish AfterDelete s = s\<lparr>nq_deleting := None\<rparr>"
| "finish AfterToggle s = s\<lparr>nq_toggling := None\<rparr>"

definition fetch_policies :: "policies_page \<Rightarrow> policies_page" where
  "fetch_policies s = s\<lparr>nq_loading := True, nq_error := None\<rparr>"

definition policies_received ::
  "network_policy_list_response outcome \<Rightarrow> policies_page \<Rightarrow> policies_page" where
  "policies_received r s =
     (case r of
        Inr res \<Rightarrow> s\<lparr>nq_policies := ls_items res, nq_total := ls_total res, nq_loading := False\<rparr>
      | Inl e \<Rightarrow>
          s\<lparr>nq_error := Some (message_or ''Failed to load network policies'' e), nq_loading := False\<rparr>)"

section \<open>Effects\<close>

definition policies_deps :: "policies_page \<Rightarrow> int \<times> string" where
  "policies_deps s = (nq_page s, nq_dir_filter s)"

definition projects_deps :: "policies_page \<Rightarrow> bool \<times> nat" where
  "projects_deps s = (nq_show_create s, length (nq_projects s))"

definition fetch_projects :: "policies_page \<Rightarrow> policies_cmd list" where
  "fetch_projects s = (if nq_show_create s \<and> nq_projects s = [] then [FetchProjects 0 200] else [])"

text \<open>The effects after an update from \<open>s\<close> to \<open>s'\<close>, in the order the page declares them.\<close>

definition run_effects :: "policies_page \<Rightarrow> policies_page \<Rightarrow> policies_page \<times> policies_cmd list" where
  "run_effects s s' =
     (let projects = (if projects_deps s' \<noteq> projects_deps s then fetch_projects s' else [])
      in if policies_deps s' \<noteq> policies_deps s
         then (fetch_policies s', FetchPolicies (policies_query s') AfterEffect # projects)
         else (s', projects))"

section \<open>Changes\<close>

definition handle_create :: "policies_page \<Rightarrow> policies_page \<times> policies_cmd list" where
  "handle_create s =
     (let f = nq_form s
      in if \<not> truthy (npc_project_id f) \<or> \<not> truthy (npc_name f) \<or> \<not> truthy (npc_destination f)
         then (s, [])
         else (s\<lparr>nq_saving := True\<rparr>, [CreatePolicy f (policies_query s)]))"

definition handle_delete :: "string \<Rightarrow> policies_page \<Rightarrow> policies_page \<times> policies_cmd list" where
  "handle_delete pid s =
     (s\<lparr>nq_confirm := None, nq_deleting := Some pid\<rparr>, [DeletePolicy pid (policies_query s)])"

definition handle_toggle :: "network_policy \<Rightarrow> policies_page \<Rightarrow> policies_page \<times> policies_cmd list" where
  "handle_toggle p s =
     (s\<lparr>nq_toggling := Some (np_id p)\<rparr>, [TogglePolicy (np_id p) (\<not> np_enabled p) (policies_query s)])"

fun policies_resume ::
  "policies_cmd \<Rightarrow> policies_reply \<Rightarrow> policies_page \<Rightarrow> policies_page \<times> policies_cmd list" where
  "policies_resume (FetchPolicies q k) (PoliciesReply r) s = (finish k (policies_received r s), [])"
| "policies_resume (FetchProjects n m) (ProjectsReply (Inr res)) s =
     run_effects s (s\<lparr>nq_projects := ls_items res\<rparr>)"
| "policies_resume (FetchProjects n m) (ProjectsReply (Inl e)) s =
     (s\<lparr>nq_error := Some (message_or ''Failed to load projects'' e)\<rparr>, [])"
| "policies_resume (CreatePolicy b q) (ChangeReply (Inr u)) s =
     (fetch_policies (s\<lparr>nq_show_create := False, nq_form := empty_form\<rparr>),
      [FetchPolicies q AfterCreate])"
| "policies_resume (CreatePolicy b q) (ChangeReply (Inl e)) s =
     (s\<lparr>nq_error := Some (message_or ''Failed to create policy'' e), nq_saving := False\<rparr>, [])"
| "policies_resume (DeletePolicy i q) (ChangeReply (Inr u)) s =
     (fetch_policies s, [FetchPolicies q AfterDelete])"
| "policies_resume (DeletePolicy i q) (ChangeReply (Inl e)) s =
     (s\<lparr>nq_error := Some (message_or ''Failed to delete policy'' e), nq_deleting := None\<rparr>, [])"
| "policies_resume (TogglePolicy i b q) (ChangeReply (Inr u)) s =
     (fetch_policies s, [FetchPolicies q AfterToggle])"
| "policies_resume (TogglePolicy i b q) (ChangeReply (Inl e)) s =
     (s\<lparr>nq_error := Some (message_or ''Failed to toggle policy'' e), nq_toggling := None\<rparr>, [])"
| "policies_resume c r s = (s, [])"

section \<open>Events\<close>

datatype policies_event =
    FilterDirection string
  | PoliciesPrev
  | PoliciesNext
  | ToggleCreateForm
  | FormProject string
  | FormName string
  | FormDirection direction
  | FormProtocol protocol
  | FormPort "int option"
  | FormDestination string
  | FormAction policy_action
  | ClickCreate
  | AskDelete string
  | CloseConfirm
  | ConfirmDelete
  | ClickToggle network_policy

abbreviation in_form :: "(network_policy_create \<Rightarrow> network_policy_create) \<Rightarrow> policies_page \<Rightarrow> policies_page" where
  "in_form f s \<equiv> s\<lparr>nq_form := f (nq_form s)\<rparr>"

fun policies_update :: "policies_event \<Rightarrow> policies_page \<Rightarrow> policies_page" where
  "policies_update (FilterDirection v) s = s\<lparr>nq_dir_filter := v, nq_page := 0\<rparr>"
| "policies_update PoliciesPrev s = s\<lparr>nq_page := prev_page (nq_page s)\<rparr>"
| "policies_update PoliciesNext s = s\<lparr>nq_page := next_page (pages_of (nq_total s)) (nq_page s)\<rparr>"
| "policies_update ToggleCreateForm s = s\<lparr>nq_show_create := \<not> nq_show_create s\<rparr>"
| "policies_update (FormProject v) s = in_form (\<lambda>f. f\<lparr>npc_project_id := v\<rparr>) s"
| "policies_update (FormName v) s = in_form (\<lambda>f. f\<lparr>npc_name := v\<rparr>) s"
| "policies_update (FormDirection v) s = in_form (\<lambda>f. f\<lparr>npc_direction := Some v\<rparr>) s"
| "policies_update (FormProtocol v) s = in_form (\<lambda>f. f\<lparr>npc_protocol := Some v\<rparr>) s"
| "policies_update (FormPort v) s =
     in_form (\<lambda>f. f\<lparr>npc_port := (case v of None \<Rightarrow> Undefined | Some n \<Rightarrow> Defined n)\<rparr>) s"
| "policies_update (FormDestination v) s = in_form (\<lambda>f. f\<lparr>npc_destination := v\<rparr>) s"
| "policies_update (FormAction v) s = in_form (\<lambda>f. f\<lparr>npc_action := Some v\<rparr>) s"
| "policies_update (AskDelete i) s = s\<lparr>nq_confirm := Some i\<rparr>"
| "policies_update CloseConfirm s = s\<lparr>nq_confirm := None\<rparr>"
| "policies_update e s = s"

fun policies_handle :: "policies_event \<Rightarrow> policies_page \<Rightarrow> policies_page \<times> policies_cmd list" where
  "policies_handle ClickCreate s = handle_create s"
| "policies_handle (ClickToggle p) s = handle_toggle p s"
| "policies_handle ConfirmDelete s =
     (case nq_confirm s of
        None \<Rightarrow> (s, [])
      | Some pid \<Rightarrow> if truthy pid then handle_delete pid s else (s, []))"
| "policies_handle e s = run_effects s (policies_update e s)"

section \<open>Views: the form\<close>

definition DIRECTION_OPTIONS :: "(string \<times> string) list" where
  "DIRECTION_OPTIONS = [([], ''All Directions''), (''egress'', ''Egress''), (''ingress'', ''Ingress'')]"

definition port_of :: "(string \<Rightarrow> int) \<Rightarrow> string \<Rightarrow> int option" where
  "port_of number t = (if truthy t then Some (number t) else None)"

definition shown_port :: "int jsopt \<Rightarrow> string" where
  "shown_port p = (case p of Defined n \<Rightarrow> show_int n | _ \<Rightarrow> [])"

definition shown_opt :: "('a \<Rightarrow> string) \<Rightarrow> 'a option \<Rightarrow> string" where
  "shown_opt f v = (case v of None \<Rightarrow> [] | Some x \<Rightarrow> f x)"

definition direction_of :: "string \<Rightarrow> direction" where
  "direction_of t = (if t = ''ingress'' then Ingress else Egress)"

definition protocol_of :: "string \<Rightarrow> protocol" where
  "protocol_of t =
     (if t = ''tcp'' then Tcp else if t = ''udp'' then Udp else if t = ''icmp'' then Icmp
      else AnyProtocol)"

definition action_of :: "string \<Rightarrow> policy_action" where
  "action_of t = (if t = ''deny'' then Deny else Allow)"

definition create_disabled :: "policies_page \<Rightarrow> bool" where
  "create_disabled s =
     (nq_saving s \<or> \<not> truthy (npc_project_id (nq_form s)) \<or> \<not> truthy (npc_name (nq_form s)) \<or>
      \<not> truthy (npc_destination (nq_form s)))"

definition project_options :: "policies_page \<Rightarrow> (string \<times> string) list" where
  "project_options s = ([], ''Select project...'') # map (\<lambda>p. (pj_id p, pj_name p)) (nq_projects s)"

definition create_form :: "(string \<Rightarrow> int) \<Rightarrow> policies_page \<Rightarrow> policies_event view" where
  "create_form number s =
     (let f = nq_form s
      in El ''div''
        [El ''h3'' [Txt ''Create Network Policy''],
         labelled ''Project'' (Sel (npc_project_id f) (project_options s) FormProject),
         labelled ''Name'' (Inp ''text'' (npc_name f) ''e.g. Allow HTTPS'' FormName),
         labelled ''Direction''
           (Sel (shown_opt direction_text (npc_direction f))
              [(''egress'', ''Egress''), (''ingress'', ''Ingress'')] (\<lambda>t. FormDirection (direction_of t))),
         labelled ''Protocol''
           (Sel (shown_opt protocol_text (npc_protocol f))
              [(''tcp'', ''TCP''), (''udp'', ''UDP''), (''icmp'', ''ICMP''), (''any'', ''Any'')]
              (\<lambda>t. FormProtocol (protocol_of t))),
         labelled ''Port''
           (Inp ''number'' (shown_port (npc_port f)) ''e.g. 443'' (\<lambda>t. FormPort (port_of number t))),
         labelled ''Destination'' (Inp ''text'' (npc_destination f) ''e.g. 0.0.0.0/0'' FormDestination),
         labelled ''Action''
           (Sel (shown_opt policy_action_text (npc_action f))
              [(''allow'', ''Allow''), (''deny'', ''Deny'')] (\<lambda>t. FormAction (action_of t))),
         Btn (create_disabled s) (Some ClickCreate)
           [Txt (if nq_saving s then ''Creating...'' else ''Create Policy'')]])"

section \<open>Views: the listing\<close>

definition count_policies :: "(network_policy \<Rightarrow> bool) \<Rightarrow> policies_page \<Rightarrow> int" where
  "count_policies P s = int (length (filter P (nq_policies s)))"

definition policies_cards :: "policies_page \<Rightarrow> 'e view" where
  "policies_cards s =
     El ''div''
       [summary_card ''Total Policies'' (nq_total s) None,
        summary_card ''Egress Rules'' (count_policies (\<lambda>p. np_direction p = Egress) s) (Some ''this page''),
        summary_card ''Ingress Rules'' (count_policies (\<lambda>p. np_direction p = Ingress) s) (Some ''this page''),
        summary_card ''Enabled'' (count_policies np_enabled s) (Some ''this page'')]"

definition policies_header :: "bool \<Rightarrow> policies_page \<Rightarrow> policies_event view" where
  "policies_header editor s =
     El ''div''
       [El ''h1'' [Txt ''Network Policies''],
        El ''p'' [Txt (''Firewall rules per project '' @ mdash @ '' default posture is deny-all egress'')],
        when_view editor
          (Btn False (Some ToggleCreateForm)
             [Txt (if nq_show_create s then ''Cancel'' else ''New Policy'')])]"

definition direction_filter :: "policies_page \<Rightarrow> policies_event view" where
  "direction_filter s = labelled ''Direction'' (Sel (nq_dir_filter s) DIRECTION_OPTIONS FilterDirection)"

definition arrow :: string where
  "arrow = map char_of [226, 134, 146 :: nat]"

fun protocol_upper :: "protocol \<Rightarrow> string" where
  "protocol_upper Tcp = ''TCP''"
| "protocol_upper Udp = ''UDP''"
| "protocol_upper Icmp = ''ICMP''"
| "protocol_upper AnyProtocol = ''ANY''"

definition rule_text :: "network_policy \<Rightarrow> string" where
  "rule_text p =
     protocol_upper (np_protocol p) @
     (case np_port p of None \<Rightarrow> [] | Some n \<Rightarrow> if n = 0 then [] else '':'' @ show_int n) @
     '' '' @ arrow @ '' '' @ np_destination p"

definition policy_cells :: "(string \<Rightarrow> string) \<Rightarrow> network_policy \<Rightarrow> 'e view list" where
  "policy_cells locale_string p =
     [td [Txt (np_name p)],
      td [Txt (case np_project_name p of Some n \<Rightarrow> n | None \<Rightarrow> take 8 (np_project_id p))],
      td [El ''span'' [Txt (direction_text (np_direction p))]],
      td [El ''code'' [Txt (rule_text p)]],
      td [El ''span'' [Txt (policy_action_text (np_action p))]],
      td [El ''span'' [Txt (if np_enabled p then ''Active'' else ''Disabled'')]],
      td [Txt (format_date locale_string (Some (np_created_at p)))]]"

definition policy_actions :: "policies_page \<Rightarrow> network_policy \<Rightarrow> policies_event view" where
  "policy_actions s p =
     td [Btn (nq_toggling s = Some (np_id p)) (Some (ClickToggle p))
           [Txt (if nq_toggling s = Some (np_id p) then ''...''
                 else if np_enabled p then ''Disable'' else ''Enable'')],
         Btn (nq_deleting s = Some (np_id p)) (Some (AskDelete (np_id p)))
           [Txt (if nq_deleting s = Some (np_id p) then ''...'' else ''Delete'')]]"

definition policy_heads :: "string list" where
  "policy_heads = [''Name'', ''Project'', ''Direction'', ''Rule'', ''Action'', ''Status'', ''Created'']"

definition policies_table ::
  "(string \<Rightarrow> string) \<Rightarrow> bool \<Rightarrow> policies_page \<Rightarrow> policies_event view" where
  "policies_table locale_string editor s =
     data_table (policy_heads @ (if editor then [''Actions''] else []))
       (map (\<lambda>p. El ''tr''
          (policy_cells locale_string p @ (if editor then [policy_actions s p] else [])))
        (nq_policies s))"

definition delete_dialog :: "policies_page \<Rightarrow> policies_event view" where
  "delete_dialog s =
     confirm_modal (nq_confirm s \<noteq> None) CloseConfirm ConfirmDelete
       \<lparr>cp_title = ''Delete Network Policy'',
        cp_description = Some ''Are you sure you want to delete this network policy? This action cannot be undone.'',
        cp_confirm_label = Some ''Delete'', cp_cancel_label = None,
        cp_loading = (nq_deleting s \<noteq> None)\<rparr>"

definition no_policies :: "'e view" where
  "no_policies =
     para ''No network policies configured yet. All projects use the default deny-all egress posture.''"

definition policies_body ::
  "(string \<Rightarrow> string) \<Rightarrow> (string \<Rightarrow> int) \<Rightarrow> bool \<Rightarrow> policies_page \<Rightarrow> policies_event view" where
  "policies_body locale_string number editor s =
     El ''div''
       [policies_header editor s, policies_cards s,
        when_view (nq_show_create s \<and> editor) (create_form number s),
        direction_filter s, error_box (nq_error s),
        if nq_loading s then para ''Loading policies...''
        else if nq_policies s = [] then no_policies
        else Frag
          [policies_table locale_string editor s,
           when_view (1 < pages_of (nq_total s))
             (pager [] PoliciesPrev PoliciesNext (nq_page s) (pages_of (nq_total s)))],
        delete_dialog s]"

definition admin_policies_view ::
  "(string \<Rightarrow> string) \<Rightarrow> (string \<Rightarrow> int) \<Rightarrow> user_info option \<Rightarrow> policies_page \<Rightarrow> policies_event view" where
  "admin_policies_view locale_string number user s =
     (if is_developer user then denied_view
      else policies_body locale_string number
        (case user of None \<Rightarrow> False | Some u \<Rightarrow> ui_role u = JAS_Faculty) s)"

definition faculty_policies_view ::
  "(string \<Rightarrow> string) \<Rightarrow> (string \<Rightarrow> int) \<Rightarrow> policies_page \<Rightarrow> policies_event view" where
  "faculty_policies_view locale_string number s = policies_body locale_string number True s"

section \<open>What the controls offer\<close>

lemma offers_policies_parts [simp]:
  "\<not> offers (policies_cards s) e" "\<not> offers no_policies e"
  "offers (policies_header editor s) e \<longleftrightarrow> editor \<and> e = ToggleCreateForm"
  "offers (direction_filter s) e \<longleftrightarrow> (\<exists>v l. (v, l) \<in> set DIRECTION_OPTIONS \<and> e = FilterDirection v)"
  "offers (delete_dialog s) e \<longleftrightarrow>
     nq_confirm s \<noteq> None \<and> nq_deleting s = None \<and> (e = CloseConfirm \<or> e = ConfirmDelete)"
  by (auto simp: policies_cards_def no_policies_def policies_header_def direction_filter_def
      delete_dialog_def)

lemma offers_policy_cells [simp]: "v \<in> set (policy_cells locale_string p) \<Longrightarrow> \<not> offers v e"
  by (auto simp: policy_cells_def)

lemma offers_policy_actions [simp]:
  "offers (policy_actions s p) e \<longleftrightarrow>
     (nq_toggling s \<noteq> Some (np_id p) \<and> e = ClickToggle p) \<or>
     (nq_deleting s \<noteq> Some (np_id p) \<and> e = AskDelete (np_id p))"
  by (auto simp: policy_actions_def)

lemma offers_policies_table [simp]:
  "offers (policies_table locale_string editor s) e \<longleftrightarrow>
     editor \<and> (\<exists>p \<in> set (nq_policies s). offers (policy_actions s p) e)"
  unfolding policies_table_def offers_data_table by (auto split: if_splits)

lemma create_form_offers:
  "offers (create_form number s) ClickCreate \<longleftrightarrow> \<not> create_disabled s"
  "offers (create_form number s) (FormProject v) \<longleftrightarrow> v \<in> fst ` set (project_options s)"
  "\<not> offers (create_form number s) ConfirmDelete"
  "\<not> offers (create_form number s) PoliciesNext"
  by (force simp: create_form_def Let_def)+

text \<open>The controls, and the Escape key or a click on the backdrop of the open dialog.\<close>

definition policies_offered ::
  "(policies_page \<Rightarrow> policies_event view) \<Rightarrow> policies_page \<Rightarrow> policies_event \<Rightarrow> bool" where
  "policies_offered view s e =
     (offers (view s) e \<or> nq_confirm s \<noteq> None \<and> e = CloseConfirm)"

lemma body_offers:
  "policies_offered (policies_body locale_string number editor) s ClickCreate \<Longrightarrow> \<not> create_disabled s"
  "policies_offered (policies_body locale_string number editor) s ConfirmDelete \<Longrightarrow> nq_deleting s = None"
  "policies_offered (policies_body locale_string number editor) s (FormProject v) \<Longrightarrow>
     v \<in> fst ` set (project_options s)"
  by (auto simp: policies_offered_def policies_body_def create_form_offers split: if_splits)

section \<open>Flags of the changes\<close>

fun policies_answers ::
  "(admin_params \<Rightarrow> network_policy_list_response \<Rightarrow> bool) \<Rightarrow>
   (int \<Rightarrow> int \<Rightarrow> project_list_response \<Rightarrow> bool) \<Rightarrow> policies_cmd \<Rightarrow> policies_reply \<Rightarrow> bool" where
  "policies_answers serves offers_projects (FetchPolicies q k) (PoliciesReply r) =
     (case r of Inr res \<Rightarrow> serves q res | Inl e \<Rightarrow> True)"
| "policies_answers serves offers_projects (FetchProjects n m) (ProjectsReply r) =
     (case r of Inr res \<Rightarrow> offers_projects n m res | Inl e \<Rightarrow> True)"
| "policies_answers serves offers_projects (CreatePolicy b q) (ChangeReply r) = True"
| "policies_answers serves offers_projects (DeletePolicy i q) (ChangeReply r) = True"
| "policies_answers serves offers_projects (TogglePolicy i b q) (ChangeReply r) = True"
| "policies_answers serves offers_projects c r = False"

fun creating :: "policies_cmd \<Rightarrow> bool" where
  "creating (CreatePolicy b q) = True"
| "creating (FetchPolicies q k) = (k = AfterCreate)"
| "creating _ = False"

fun removing :: "policies_cmd \<Rightarrow> bool" where
  "removing (DeletePolicy i q) = True"
| "removing (FetchPolicies q k) = (k = AfterDelete)"
| "removing _ = False"

fun listing :: "policies_cmd \<Rightarrow> bool" where
  "listing (FetchPolicies q k) = True"
| "listing _ = False"

definition is_deleting :: "policies_page \<Rightarrow> bool" where
  "is_deleting s = (nq_deleting s \<noteq> None)"

definition policies_start :: "(policies_page, policies_cmd) world" where
  "policies_start = (policies_initial, [FetchPolicies (policies_query policies_initial) AfterEffect])"

lemma policies_fields [simp]:
  "nq_saving (fetch_policies s) = nq_saving s" "is_deleting (fetch_policies s) = is_deleting s"
  "nq_loading (fetch_policies s)"
  "nq_saving (policies_received r s) = nq_saving s"
  "is_deleting (policies_received r s) = is_deleting s" "\<not> nq_loading (policies_received r s)"
  "nq_saving (finish k s) = (nq_saving s \<and> k \<noteq> AfterCreate)"
  "is_deleting (finish k s) = (is_deleting s \<and> k \<noteq> AfterDelete)"
  "nq_loading (finish k s) = nq_loading s"
  by (cases k; simp add: fetch_policies_def policies_received_def is_deleting_def split: sum.splits)+

lemma is_deleting_update [simp]:
  "is_deleting (s\<lparr>nq_deleting := d\<rparr>) = (d \<noteq> None)"
  "is_deleting (s\<lparr>nq_error := x\<rparr>) = is_deleting s"
  "is_deleting (s\<lparr>nq_saving := b\<rparr>) = is_deleting s"
  "is_deleting (s\<lparr>nq_toggling := x\<rparr>) = is_deleting s"
  "is_deleting (s\<lparr>nq_form := g\<rparr>) = is_deleting s"
  "is_deleting (s\<lparr>nq_show_create := b\<rparr>) = is_deleting s"
  "is_deleting (s\<lparr>nq_projects := ps\<rparr>) = is_deleting s"
  "is_deleting (s\<lparr>nq_confirm := x\<rparr>) = is_deleting s"
  by (simp_all add: is_deleting_def)

lemma policies_update_fields [simp]:
  "nq_saving (policies_update e s) = nq_saving s"
  "is_deleting (policies_update e s) = is_deleting s"
  "nq_loading (policies_update e s) = nq_loading s"
  by (cases e; simp add: is_deleting_def)+

lemma fetch_projects_kind [simp]:
  "filter creating (fetch_projects s) = []" "filter removing (fetch_projects s) = []"
  by (simp_all add: fetch_projects_def)

lemma run_effects_flags:
  assumes "run_effects s s' = (t, cs)"
  shows "nq_saving t = nq_saving s'" "is_deleting t = is_deleting s'"
    "filter creating cs = []" "filter removing cs = []"
    "nq_loading t \<Longrightarrow> nq_loading s' \<or> (\<exists>c \<in> set cs. listing c)"
  using assms by (auto simp: run_effects_def Let_def split: if_splits)

text \<open>Every event that is not one of the three changes only updates the state and runs the effects.\<close>

lemma policies_handle_cases:
  assumes "policies_handle e s = (s', cs)"
  obtains (create) "e = ClickCreate" "handle_create s = (s', cs)"
  | (toggle) p where "e = ClickToggle p" "handle_toggle p s = (s', cs)"
  | (delete) pid where "e = ConfirmDelete" "nq_confirm s = Some pid" "handle_delete pid s = (s', cs)"
  | (skip) "e = ConfirmDelete" "s' = s" "cs = []"
  | (update) "run_effects s (policies_update e s) = (s', cs)"
proof (cases "e = ClickCreate \<or> e = ConfirmDelete \<or> (\<exists>p. e = ClickToggle p)")
  case True
  then consider "e = ClickCreate" | "e = ConfirmDelete" | p where "e = ClickToggle p" by blast
  then show thesis
  proof cases
    case 1
    with assms create show thesis by simp
  next
    case 2
    from assms have "(\<exists>pid. nq_confirm s = Some pid \<and> handle_delete pid s = (s', cs)) \<or>
        (s' = s \<and> cs = [])"
      unfolding 2 by (auto split: option.splits if_splits)
    with 2 delete skip show thesis by blast
  next
    case 3
    with assms toggle show thesis by simp
  qed
next
  case False
  then have "policies_handle e s = run_effects s (policies_update e s)"
    by (cases e) simp_all
  with assms update show thesis by simp
qed

lemma policies_handle_flags:
  assumes "policies_handle e s = (s', cs)"
    and "e = ClickCreate \<Longrightarrow> \<not> nq_saving s" and "e = ConfirmDelete \<Longrightarrow> \<not> is_deleting s"
  shows "of_bool (nq_saving s') = of_bool (nq_saving s) + length (filter creating cs) \<and>
    of_bool (is_deleting s') = of_bool (is_deleting s) + length (filter removing cs) \<and>
    (nq_loading s' \<longrightarrow> nq_loading s \<or> (\<exists>c \<in> set cs. listing c))"
  using assms(1)
proof (cases rule: policies_handle_cases)
  case create
  then show ?thesis
    using assms(2) by (auto simp: handle_create_def Let_def is_deleting_def split: if_splits)
next
  case (toggle p)
  then show ?thesis by (auto simp: handle_toggle_def is_deleting_def)
next
  case (delete pid)
  then show ?thesis using assms(3) by (auto simp: handle_delete_def is_deleting_def)
next
  case skip
  then show ?thesis by simp
next
  case update
  then show ?thesis using run_effects_flags [OF update] by simp
qed

lemma policies_resume_flags:
  assumes "policies_answers serves offers_projects c r" and "policies_resume c r s = (s', cs)"
  shows "(creating c \<longrightarrow> nq_saving s) \<Longrightarrow>
      of_bool (nq_saving s') + of_bool (creating c) = of_bool (nq_saving s) + length (filter creating cs)"
    and "(removing c \<longrightarrow> is_deleting s) \<Longrightarrow>
      of_bool (is_deleting s') + of_bool (removing c) =
      of_bool (is_deleting s) + length (filter removing cs)"
    and "nq_loading s' \<Longrightarrow> (nq_loading s \<and> \<not> listing c) \<or> (\<exists>c \<in> set cs. listing c)"
proof -
  show "of_bool (nq_saving s') + of_bool (creating c) =
      of_bool (nq_saving s) + length (filter creating cs)" if "creating c \<longrightarrow> nq_saving s"
    using assms that
    by (cases "(c, r, s)" rule: policies_resume.cases) (auto dest: run_effects_flags)
  show "of_bool (is_deleting s') + of_bool (removing c) =
      of_bool (is_deleting s) + length (filter removing cs)" if "removing c \<longrightarrow> is_deleting s"
    using assms that
    by (cases "(c, r, s)" rule: policies_resume.cases) (auto dest: run_effects_flags)
  show "(nq_loading s \<and> \<not> listing c) \<or> (\<exists>c \<in> set cs. listing c)" if "nq_loading s'"
    using assms that
    by (cases "(c, r, s)" rule: policies_resume.cases) (auto dest: run_effects_flags)
qed

text \<open>A view that offers Create and the confirmation only while no such change is running.\<close>

definition guards_changes :: "(policies_page \<Rightarrow> policies_event view) \<Rightarrow> bool" where
  "guards_changes view =
     (\<forall>s e. policies_offered view s e \<longrightarrow>
        (e = ClickCreate \<longrightarrow> \<not> create_disabled s) \<and> (e = ConfirmDelete \<longrightarrow> nq_deleting s = None))"

lemma offered_flags:
  assumes "guards_changes view"
    and "policies_offered view s e" and "policies_handle e s = (s', cs)"
  shows "of_bool (nq_saving s') = of_bool (nq_saving s) + length (filter creating cs)"
    and "of_bool (is_deleting s') = of_bool (is_deleting s) + length (filter removing cs)"
    and "nq_loading s' \<Longrightarrow> nq_loading s \<or> (\<exists>c \<in> set cs. listing c)"
proof -
  have "e = ClickCreate \<Longrightarrow> \<not> nq_saving s" and "e = ConfirmDelete \<Longrightarrow> \<not> is_deleting s"
    using assms(1,2) by (auto simp: guards_changes_def create_disabled_def is_deleting_def)
  from policies_handle_flags [OF assms(3) this]
  show "of_bool (nq_saving s') = of_bool (nq_saving s) + length (filter creating cs)"
    and "of_bool (is_deleting s') = of_bool (is_deleting s) + length (filter removing cs)"
    and "nq_loading s' \<Longrightarrow> nq_loading s \<or> (\<exists>c \<in> set cs. listing c)"
    by blast+
qed

lemma policies_saving_page:
  assumes "guards_changes view"
  shows "saving_page (policies_offered view) policies_handle policies_resume
      (policies_answers serves offers_projects) policies_start nq_saving nq_loading creating listing"
    and "saving_page (policies_offered view) policies_handle policies_resume
      (policies_answers serves offers_projects) policies_start is_deleting nq_loading removing listing"
proof -
  note act = offered_flags [OF assms]
  have start: "length (filter creating (snd policies_start)) = of_bool (nq_saving (fst policies_start))"
    "length (filter removing (snd policies_start)) = of_bool (is_deleting (fst policies_start))"
    "\<exists>c \<in> set (snd policies_start). listing c"
    by (simp_all add: policies_start_def policies_initial_def is_deleting_def)
  show "saving_page (policies_offered view) policies_handle policies_resume
      (policies_answers serves offers_projects) policies_start nq_saving nq_loading creating listing"
    by (rule saving_page.intro)
      (rule start | erule (2) act(3) | erule (1) act(1) | erule (2) policies_resume_flags(1) |
       erule (2) policies_resume_flags(3))+
  show "saving_page (policies_offered view) policies_handle policies_resume
      (policies_answers serves offers_projects) policies_start is_deleting nq_loading removing listing"
    by (rule saving_page.intro)
      (rule start | erule (2) act(3) | erule (1) act(2) | erule (2) policies_resume_flags(2) |
       erule (2) policies_resume_flags(3))+
qed

lemma view_guards:
  "guards_changes (faculty_policies_view locale_string number)"
  "guards_changes (admin_policies_view locale_string number user)"
proof -
  have body: "guards_changes (policies_body locale_string number editor)" for editor
    using body_offers by (auto simp: guards_changes_def)
  then show "guards_changes (faculty_policies_view locale_string number)"
    by (simp add: faculty_policies_view_def [abs_def])
  show "guards_changes (admin_policies_view locale_string number user)"
    using body by (auto simp: guards_changes_def admin_policies_view_def policies_offered_def)
qed

interpretation faculty_create: saving_page
  "policies_offered (faculty_policies_view locale_string number)" policies_handle policies_resume
  "policies_answers serves offers_projects" policies_start nq_saving nq_loading creating listing
  for locale_string number serves offers_projects
  by (rule policies_saving_page(1)) (rule view_guards(1))

interpretation faculty_delete: saving_page
  "policies_offered (faculty_policies_view locale_string number)" policies_handle policies_resume
  "policies_answers serves offers_projects" policies_start is_deleting nq_loading removing listing
  for locale_string number serves offers_projects
  by (rule policies_saving_page(2)) (rule view_guards(1))

interpretation admin_create: saving_page
  "policies_offered (admin_policies_view locale_string number user)" policies_handle policies_resume
  "policies_answers serves offers_projects" policies_start nq_saving nq_loading creating listing
  for locale_string number user serves offers_projects
  by (rule policies_saving_page(1)) (rule view_guards(2))

interpretation admin_delete: saving_page
  "policies_offered (admin_policies_view locale_string number user)" policies_handle policies_resume
  "policies_answers serves offers_projects" policies_start is_deleting nq_loading removing listing
  for locale_string number user serves offers_projects
  by (rule policies_saving_page(2)) (rule view_guards(2))

abbreviation faculty_policies_steps where
  "faculty_policies_steps locale_string number serves offers_projects \<equiv>
     wstep (policies_offered (faculty_policies_view locale_string number)) policies_handle
       policies_resume (policies_answers serves offers_projects)"

text \<open>
  On the faculty's network-policy page at most one creation and at most one deletion run at a
  time, and with nothing in flight the page is neither creating, deleting nor loading.
\<close>

lemma faculty_policies_changes:
  assumes "(faculty_policies_steps locale_string number serves offers_projects)\<^sup>*\<^sup>* policies_start (s, fl)"
  shows "length (filter creating fl) \<le> 1 \<and> length (filter removing fl) \<le> 1 \<and>
    (fl = [] \<longrightarrow> \<not> nq_saving s \<and> nq_deleting s = None \<and> \<not> nq_loading s)"
  using faculty_create.single_save [OF assms] faculty_delete.single_save [OF assms]
  by (auto simp: is_deleting_def)

section \<open>The projects of the form\<close>

definition no_projects :: "policies_page \<Rightarrow> policies_cmd list \<Rightarrow> bool" where
  "no_projects s fl =
     (nq_projects s = [] \<and> npc_project_id (nq_form s) = [] \<and>
      list_all (\<lambda>c. \<not> creating c \<and> (\<forall>n m. c = FetchProjects n m \<longrightarrow> m = 200)) fl)"

lemma run_effects_fields:
  assumes "run_effects s s' = (t, cs)"
  shows "nq_projects t = nq_projects s'" "nq_form t = nq_form s'"
    "list_all (\<lambda>c. \<not> creating c \<and> (\<forall>n m. c = FetchProjects n m \<longrightarrow> m = 200)) cs"
  using assms
  by (auto simp: run_effects_def Let_def fetch_policies_def fetch_projects_def split: if_splits)

lemma update_no_projects:
  assumes "nq_projects s = []" and "npc_project_id (nq_form s) = []"
    and "\<And>v. e = FormProject v \<Longrightarrow> v = []"
  shows "nq_projects (policies_update e s) = [] \<and> npc_project_id (nq_form (policies_update e s)) = []"
  using assms by (cases e) auto

lemma no_projects_act:
  assumes "no_projects s fl"
    and "policies_offered (policies_body locale_string number editor) s e"
    and "policies_handle e s = (s', cs)"
  shows "no_projects s' (fl @ cs)"
  using assms(3)
proof (cases rule: policies_handle_cases)
  case create
  have "create_disabled s"
    using assms(1) by (simp add: no_projects_def create_disabled_def truthy_def)
  with body_offers(1) assms(2) create(1) show ?thesis by blast
next
  case (toggle p)
  with assms(1) show ?thesis by (auto simp: no_projects_def handle_toggle_def)
next
  case (delete pid)
  with assms(1) show ?thesis by (auto simp: no_projects_def handle_delete_def)
next
  case skip
  with assms(1) show ?thesis by simp
next
  case update
  have "v = []" if "e = FormProject v" for v
    using body_offers(3) assms(1,2) that by (fastforce simp: no_projects_def project_options_def)
  with assms(1) have "nq_projects (policies_update e s) = [] \<and>
      npc_project_id (nq_form (policies_update e s)) = []"
    by (intro update_no_projects) (auto simp: no_projects_def)
  with run_effects_fields [OF update] assms(1) show ?thesis
    by (simp add: no_projects_def)
qed

lemma finish_fields [simp]:
  "nq_projects (finish k s) = nq_projects s" "nq_form (finish k s) = nq_form s"
  "nq_projects (policies_received r s) = nq_projects s" "nq_form (policies_received r s) = nq_form s"
  "nq_projects (fetch_policies s) = nq_projects s" "nq_form (fetch_policies s) = nq_form s"
  by (cases k; simp add: policies_received_def fetch_policies_def split: sum.splits)+

lemma no_projects_reply:
  assumes "\<forall>skip m res. offers_projects skip m res \<longrightarrow> m \<le> 100"
    and "no_projects s (xs @ c # ys)" and "policies_answers serves offers_projects c r"
    and "policies_resume c r s = (s', cs)"
  shows "no_projects s' (xs @ ys @ cs)"
proof (cases "\<exists>n m. c = FetchProjects n m")
  case True
  then obtain n m where c: "c = FetchProjects n m" by blast
  with assms(2) have "m = 200" by (simp add: no_projects_def)
  moreover obtain x where r: "r = ProjectsReply x"
    using assms(3) c by (cases r) auto
  ultimately obtain e where "x = Inl e"
    using assms(1,3) c by (cases x) force+
  with assms(2,4) c r show ?thesis
    by (auto simp: no_projects_def)
next
  case False
  with assms(2-4) show ?thesis
    by (cases "(c, r, s)" rule: policies_resume.cases) (auto simp: no_projects_def)
qed

text \<open>
  The creation form cannot create anything: the page asks for 200 projects, and an API that
  answers only requests for at most 100 (as this one does) leaves the form without a project to
  choose, so in every reachable state its button is disabled and no policy is ever created.
\<close>

lemma policy_creation_blocked:
  assumes api_page_limit: "\<forall>skip m res. offers_projects skip m res \<longrightarrow> m \<le> 100"
    and "(faculty_policies_steps locale_string number serves offers_projects)\<^sup>*\<^sup>* policies_start (s, fl)"
  shows "\<not> policies_offered (faculty_policies_view locale_string number) s ClickCreate \<and>
    (\<forall>b q. CreatePolicy b q \<notin> set fl) \<and> nq_projects s = []"
proof -
  have "world_invariant (policies_offered (faculty_policies_view locale_string number))
    policies_handle policies_resume (policies_answers serves offers_projects) policies_start no_projects"
  proof
    show "no_projects (fst policies_start) (snd policies_start)"
      by (simp add: no_projects_def policies_start_def policies_initial_def empty_form_def)
    show "no_projects s' (fl @ cs)" if "no_projects s fl"
      and "policies_offered (faculty_policies_view locale_string number) s e"
      and "policies_handle e s = (s', cs)" for s fl e s' cs
      using no_projects_act [OF that(1) _ that(3), of locale_string number True] that(2)
      by (simp add: faculty_policies_view_def policies_offered_def)
  qed (erule (2) no_projects_reply [OF api_page_limit])
  then have inv: "no_projects s fl"
    using assms(2) by (rule world_invariant.reach_state_inv)
  then have "create_disabled s"
    by (simp add: no_projects_def create_disabled_def truthy_def)
  then have "\<not> policies_offered (faculty_policies_view locale_string number) s ClickCreate"
    using view_guards(1) by (auto simp: guards_changes_def)
  with inv show ?thesis
    by (fastforce simp: no_projects_def list_all_iff)
qed

section \<open>Deleting the last policy of the last page\<close>

definition sample_policy :: "string \<Rightarrow> network_policy" where
  "sample_policy i =
     \<lparr>np_id = i, np_project_id = ''p1'', np_project_name = Some ''Site'', np_name = ''https'',
      np_direction = Egress, np_protocol = Tcp, np_port = Some 443, np_destination = ''0.0.0.0/0'',
      np_action = Allow, np_enabled = True, np_created_at = ''2026-01-01''\<rparr>"

text \<open>26 policies before the deletion and 25 after it: the first page has some, the second the last one.\<close>

definition shrinking :: "admin_params \<Rightarrow> network_policy_list_response \<Rightarrow> bool" where
  "shrinking q res =
     (q_skip q = Some 0 \<and> ls_items res = [sample_policy ''a''] \<and> ls_total res \<in> {25, 26} \<or>
      q_skip q = Some 25 \<and> ls_items res = [sample_policy ''z''] \<and> ls_total res = 26 \<or>
      q_skip q = Some 25 \<and> ls_items res = [] \<and> ls_total res = 25)"

definition delete_last :: "(policies_event + nat \<times> policies_reply) list" where
  "delete_last =
     [Inr (0, PoliciesReply (Inr \<lparr>ls_items = [sample_policy ''a''], ls_total = 26\<rparr>)),
      Inl PoliciesNext,
      Inr (0, PoliciesReply (Inr \<lparr>ls_items = [sample_policy ''z''], ls_total = 26\<rparr>)),
      Inl (AskDelete ''z''), Inl ConfirmDelete,
      Inr (0, ChangeReply (Inr ())),
      Inr (0, PoliciesReply (Inr \<lparr>ls_items = [], ls_total = 25\<rparr>))]"

lemmas policies_run = policies_start_def policies_initial_def run_effects_def Let_def
  policies_deps_def projects_deps_def fetch_policies_def fetch_projects_def policies_query_def
  policies_received_def handle_delete_def truthy_def empty_form_def no_params_def
  pages_of_def total_pages_def limit_def next_page_def or_undefined_def

lemma delete_last_playable:
  "playable (policies_offered (faculty_policies_view locale_string number)) policies_handle
     policies_resume (policies_answers shrinking (\<lambda>_ _ _. False)) delete_last policies_start"
  by (simp add: delete_last_def policies_run shrinking_def policies_offered_def
      faculty_policies_view_def policies_body_def sample_policy_def)

lemma delete_last_result:
  "run_script policies_handle policies_resume delete_last policies_start =
     (policies_initial\<lparr>nq_total := 25, nq_loading := False, nq_page := 1\<rparr>, [])"
  by code_simp

text \<open>
  Deleting the only policy of the last page strands the user: a settled state is reachable in
  which 25 policies exist, the page says that none is configured, and neither paging button is on
  screen to go back to them.
\<close>

lemma delete_strands_user:
  "\<exists>s. (faculty_policies_steps locale_string number shrinking (\<lambda>_ _ _. False))\<^sup>*\<^sup>* policies_start (s, []) \<and>
     nq_total s = 25 \<and> nq_page s = 1 \<and> nq_error s = None \<and>
     \<not> policies_offered (faculty_policies_view locale_string number) s PoliciesPrev \<and>
     \<not> policies_offered (faculty_policies_view locale_string number) s PoliciesNext \<and>
     set (texts (no_policies :: policies_event view)) \<subseteq>
       set (texts (faculty_policies_view locale_string number s))"
proof -
  let ?s = "policies_initial\<lparr>nq_total := 25, nq_loading := False, nq_page := 1\<rparr>"
  have "(faculty_policies_steps locale_string number shrinking (\<lambda>_ _ _. False))\<^sup>*\<^sup>* policies_start
      (run_script policies_handle policies_resume delete_last policies_start)"
    by (rule run_script_reaches [OF delete_last_playable])
  then have "(faculty_policies_steps locale_string number shrinking (\<lambda>_ _ _. False))\<^sup>*\<^sup>* policies_start (?s, [])"
    unfolding delete_last_result .
  moreover have "\<not> policies_offered (faculty_policies_view locale_string number) ?s PoliciesPrev"
    "\<not> policies_offered (faculty_policies_view locale_string number) ?s PoliciesNext"
    by (simp_all add: policies_initial_def policies_offered_def faculty_policies_view_def
        policies_body_def)
  moreover have "set (texts (no_policies :: policies_event view)) \<subseteq>
      set (texts (faculty_policies_view locale_string number ?s))"
    by (simp add: policies_initial_def faculty_policies_view_def policies_body_def no_policies_def)
  moreover have "nq_total ?s = 25 \<and> nq_page ?s = 1 \<and> nq_error ?s = None"
    by (simp add: policies_initial_def)
  ultimately show ?thesis by blast
qed

lemma faculty_policies_changes_witness:
  "\<exists>s. (faculty_policies_steps (\<lambda>d. d) (\<lambda>_. 0) shrinking (\<lambda>_ _ _. False))\<^sup>*\<^sup>* policies_start (s, []) \<and>
     nq_total s = 25 \<and> \<not> nq_saving s \<and> nq_deleting s = None \<and> \<not> nq_loading s"
proof -
  let ?s = "policies_initial\<lparr>nq_total := 25, nq_loading := False, nq_page := 1\<rparr>"
  have reached: "(faculty_policies_steps (\<lambda>d. d) (\<lambda>_. 0) shrinking (\<lambda>_ _ _. False))\<^sup>*\<^sup>* policies_start (?s, [])"
    using run_script_reaches [OF delete_last_playable] unfolding delete_last_result .
  from faculty_policies_changes [OF this] have "\<not> nq_saving ?s \<and> nq_deleting ?s = None \<and> \<not> nq_loading ?s"
    by blast
  moreover have "nq_total ?s = 25" by simp
  ultimately show ?thesis using reached by blast
qed

text \<open>An API that answers with one project, to requests within its limit, and a user who opens the form.\<close>

definition limited_projects :: "int \<Rightarrow> int \<Rightarrow> project_list_response \<Rightarrow> bool" where
  "limited_projects skip m res = (m \<le> 100 \<and> length (ls_items res) = 1)"

lemma policy_creation_blocked_witness:
  "\<exists>s fl. (faculty_policies_steps (\<lambda>d. d) (\<lambda>_. 0) shrinking limited_projects)\<^sup>*\<^sup>* policies_start (s, fl) \<and>
     nq_show_create s \<and> nq_projects s = [] \<and>
     \<not> policies_offered (faculty_policies_view (\<lambda>d. d) (\<lambda>_. 0)) s ClickCreate"
proof -
  let ?as = "[Inl ToggleCreateForm, Inr (1, ProjectsReply (Inl (ApiErr 422 (JStr ''limit''))))]"
  let ?s = "policies_initial\<lparr>nq_show_create := True, nq_error := Some ''limit''\<rparr>"
  have "playable (policies_offered (faculty_policies_view (\<lambda>d. d) (\<lambda>_. 0))) policies_handle
      policies_resume (policies_answers shrinking limited_projects) ?as policies_start"
    by (simp add: policies_run policies_offered_def faculty_policies_view_def policies_body_def)
  from run_script_reaches [OF this]
  have r: "(faculty_policies_steps (\<lambda>d. d) (\<lambda>_. 0) shrinking limited_projects)\<^sup>*\<^sup>* policies_start
      (?s, [FetchPolicies (policies_query policies_initial) AfterEffect])"
    by (simp add: policies_run)
  have "\<forall>skip m res. limited_projects skip m res \<longrightarrow> m \<le> 100"
    by (simp add: limited_projects_def)
  from policy_creation_blocked [OF this r]
  have "nq_projects ?s = []"
    "\<not> policies_offered (faculty_policies_view (\<lambda>d. d) (\<lambda>_. 0)) ?s ClickCreate"
    by blast+
  moreover have "nq_show_create ?s" by simp
  ultimately show ?thesis using r by blast
qed

end
