(* ===== verification/DateTime.thy ===== *)
theory DateTime
  imports Platform
begin

text \<open>
  Dates as the settings form uses them: \<open>Date.prototype.toISOString\<close>, the parser of dates applied to
  the value of a \<open>datetime-local\<close> field (\<open>YYYY-MM-DDTHH:MM\<close>, in local time), and \<open>parseInt(s, 10)\<close>.
  Times are milliseconds since the start of the year 0, of which the epoch is \<open>epoch_ms\<close>.
\<close>

section \<open>Digits\<close>

definition digit :: "nat \<Rightarrow> char" where
  "digit n = char_of (48 + n mod 10)"

definition digit_value :: "char \<Rightarrow> nat" where
  "digit_value c = code_of c - 48"

definition number_of :: "string \<Rightarrow> nat" where
  "number_of ds = foldl (\<lambda>n c. 10 * n + digit_value c) 0 ds"

fun pad :: "nat \<Rightarrow> nat \<Rightarrow> string" where
  "pad 0 n = []"
| "pad (Suc k) n = pad k (n div 10) @ [digit n]"

lemma digit_value_digit [simp]: "digit_value (digit n) = n mod 10"
  by (simp add: digit_value_def digit_def)

lemma is_digit_digit [simp]: "is_digit (digit n)"
  by (simp add: is_digit_def digit_def)

lemma length_pad [simp]: "length (pad k n) = k"
  by (induction k arbitrary: n) simp_all

lemma pad_digits: "\<forall>c \<in> set (pad k n). is_digit c"
  by (induction k arbitrary: n) auto

lemma number_of_snoc: "number_of (ds @ [c]) = 10 * number_of ds + digit_value c"
  by (simp add: number_of_def)

lemma number_of_pad: "n < 10 ^ k \<Longrightarrow> number_of (pad k n) = n"
proof (induction k arbitrary: n)
  case (Suc k)
  then have "n div 10 < 10 ^ k" by auto
  with Suc.IH [of "n div 10"] show ?case by (simp add: number_of_snoc)
qed (simp add: number_of_def)

lemma number_of_show_nat: "number_of (show_nat n) = n"
proof (induction n rule: show_nat.induct)
  case (1 n)
  have d: "digit_value (char_of (48 + m)) = m" if "m < 10" for m :: nat
    using that by (simp add: digit_value_def)
  show ?case
  proof (cases "n < 10")
    case True
    then show ?thesis by (subst show_nat.simps) (simp add: number_of_def d)
  next
    case False
    with 1 show ?thesis by (subst show_nat.simps) (simp add: number_of_snoc d)
  qed
qed

text \<open>
  \<open>parseInt(s, 10)\<close>: leading white space and a sign, then the digits up to the first other character;
  None is not a number.
\<close>

definition parse_int :: "string \<Rightarrow> int option" where
  "parse_int s =
     (let t = dropWhile is_space s;
          neg = starts_with t ''-'';
          u = (if neg \<or> starts_with t ''+'' then tl t else t);
          ds = takeWhile is_digit u
      in if ds = [] then None else Some (if neg then - int (number_of ds) else int (number_of ds)))"

lemma show_nat_hd: "\<exists>c cs. show_nat n = c # cs \<and> is_digit c"
  using show_nat_digits [of n] show_nat_nonempty [of n] by (cases "show_nat n") auto

lemma takeWhile_digits: "takeWhile is_digit (show_nat n) = show_nat n"
  by (simp add: show_nat_digits)

lemma parse_show_int: "parse_int (show_int i) = Some i"
proof (cases "i < 0")
  case True
  then have "show_int i = CHR ''-'' # show_nat (nat (- i))" by (simp add: show_int_def)
  moreover have "\<not> is_space (CHR ''-'')" by (simp add: is_space_def)
  ultimately show ?thesis
    using True by (simp add: parse_int_def takeWhile_digits number_of_show_nat)
next
  case False
  obtain c cs where s: "show_nat (nat i) = c # cs" and c: "is_digit c"
    using show_nat_hd by blast
  from c have "\<not> is_space c" "c \<noteq> CHR ''-''" "c \<noteq> CHR ''+''"
    by (auto simp: is_digit_def is_space_def)
  with False s show ?thesis
    using takeWhile_digits [of "nat i"] number_of_show_nat [of "nat i"]
    by (auto simp: parse_int_def show_int_def)
qed

section \<open>The calendar\<close>

definition leap :: "nat \<Rightarrow> bool" where
  "leap y = (y mod 4 = 0 \<and> (y mod 100 \<noteq> 0 \<or> y mod 400 = 0))"

definition year_length :: "nat \<Rightarrow> nat" where
  "year_length y = (if leap y then 366 else 365)"

definition month_lengths :: "nat \<Rightarrow> nat list" where
  "month_lengths y = [31, if leap y then 29 else 28, 31, 30, 31, 30, 31, 31, 30, 31, 30, 31]"

definition days_before :: "nat \<Rightarrow> nat" where
  "days_before y = 365 * y + (y + 3) div 4 + (y + 399) div 400 - (y + 99) div 100"

lemma days_before_Suc: "days_before (Suc y) = days_before y + year_length y"
proof -
  have up: "(y + k) div Suc k = (if y mod Suc k = 0 then y div Suc k else Suc (y div Suc k))" for k
  proof -
    have "y + k = Suc k * (y div Suc k) + (y mod Suc k + k)"
      using mult_div_mod_eq [of "Suc k" y] by linarith
    then have "(y + k) div Suc k = y div Suc k + (y mod Suc k + k) div Suc k"
      by (metis add.commute div_mult_self1 nat.distinct(1) mult.commute add.assoc)
    moreover have "(y mod Suc k + k) div Suc k = (if y mod Suc k = 0 then 0 else 1)"
    proof (cases "y mod Suc k = 0")
      case False
      have one: "(m + k) div Suc k = 1" if "0 < m" and "m \<le> k" for m
        using that by (intro div_nat_eqI) simp_all
      have "(y mod Suc k + k) div Suc k = 1"
        using \<open>y mod Suc k \<noteq> 0\<close> by (intro one) simp_all
      with False show ?thesis by simp
    qed simp
    ultimately show ?thesis by simp
  qed
  have u4: "(y + 3) div 4 = (if y mod 4 = 0 then y div 4 else Suc (y div 4))"
    using up [of 3] by simp
  have u100: "(y + 99) div 100 = (if y mod 100 = 0 then y div 100 else Suc (y div 100))"
    using up [of 99] by simp
  have u400: "(y + 399) div 400 = (if y mod 400 = 0 then y div 400 else Suc (y div 400))"
    using up [of 399] by simp
  have s: "Suc y + 3 = y + 4" "Suc y + 99 = y + 100" "Suc y + 399 = y + 400" by simp_all
  have d: "(y + 4) div 4 = Suc (y div 4)" "(y + 100) div 100 = Suc (y div 100)"
    "(y + 400) div 400 = Suc (y div 400)" by simp_all
  have m: "y mod 400 = 0 \<Longrightarrow> y mod 100 = 0" "y mod 100 = 0 \<Longrightarrow> y mod 4 = 0"
    using mod_mod_cancel [of 100 400 y] mod_mod_cancel [of 4 100 y] by simp_all
  have le: "y div 100 \<le> y" by simp
  show ?thesis
  proof (cases "y mod 4 = 0")
    case False
    then have "y mod 100 \<noteq> 0" "y mod 400 \<noteq> 0" using m by metis+
    moreover have "0 < y" using False by (cases y) simp_all
    ultimately show ?thesis
      using False le unfolding days_before_def year_length_def leap_def s d u4 u100 u400 by simp
  next
    case True
    then show ?thesis
      using m le unfolding days_before_def year_length_def leap_def s d u4 u100 u400
      by (cases "y mod 100 = 0"; cases "y mod 400 = 0") (simp_all add: ac_simps)
  qed
qed

lemma days_before_era: "days_before (400 * k) = 146097 * k"
proof -
  have "(400 * k + 3) div 4 = 100 * k" "(400 * k + 99) div 100 = 4 * k" "(400 * k + 399) div 400 = k"
    by simp_all
  then show ?thesis by (simp add: days_before_def)
qed

text \<open>The year of a day, counted from the start of a year, and the month of a day of the year.\<close>

function year_of :: "nat \<Rightarrow> nat \<Rightarrow> nat \<times> nat" where
  "year_of y d = (if d < year_length y then (y, d) else year_of (Suc y) (d - year_length y))"
  by auto
termination
  by (relation "measure snd") (auto simp: year_length_def split: if_splits)

declare year_of.simps [simp del]

lemma year_of_days:
  "year_of y d = (y', r) \<Longrightarrow> days_before y + d = days_before y' + r \<and> r < year_length y'"
proof (induction y d rule: year_of.induct)
  case (1 y d)
  then show ?case
    by (cases "d < year_length y") (auto simp: year_of.simps [of y d] days_before_Suc)
qed

definition civil_year :: "nat \<Rightarrow> nat \<times> nat" where
  "civil_year d = year_of (400 * (d div 146097)) (d mod 146097)"

lemma civil_year_days:
  assumes "civil_year d = (y, r)"
  shows "d = days_before y + r" and "r < year_length y"
  using year_of_days [OF assms [unfolded civil_year_def]] by (simp_all add: days_before_era)

fun month_of :: "nat \<Rightarrow> nat list \<Rightarrow> nat \<Rightarrow> nat \<times> nat" where
  "month_of m [] d = (m, d)"
| "month_of m (l # ls) d = (if d < l then (m, d) else month_of (Suc m) ls (d - l))"

lemma month_of_days:
  "month_of m ls d = (m', r) \<Longrightarrow> d < sum_list ls \<Longrightarrow>
   m \<le> m' \<and> m' < m + length ls \<and> r < ls ! (m' - m) \<and> d = sum_list (take (m' - m) ls) + r"
proof (induction m ls d rule: month_of.induct)
  case (2 m l ls d)
  show ?case
  proof (cases "d < l")
    case True
    with "2.prems" show ?thesis by auto
  next
    case False
    with "2.prems" "2.IH" have "Suc m \<le> m'" "m' < Suc m + length ls" "r < ls ! (m' - Suc m)"
      "d - l = sum_list (take (m' - Suc m) ls) + r"
      by auto
    moreover from this have "m' - m = Suc (m' - Suc m)" by simp
    ultimately show ?thesis using False by auto
  qed
qed simp

lemma month_lengths_sum: "sum_list (month_lengths y) = year_length y"
  by (simp add: month_lengths_def year_length_def)

lemma month_lengths_bound: "m < 12 \<Longrightarrow> month_lengths y ! m \<le> 31"
  by (auto simp: month_lengths_def less_Suc_eq numeral_eq_Suc)

section \<open>Texts of dates\<close>

definition epoch_ms :: int where
  "epoch_ms = 719528 * 86400000"

text \<open>
  \<open>toISOString\<close>, for the years that have four digits (a year beyond has the extended form), from the
  milliseconds since the epoch. \<open>iso_from\<close> is the text of a time given from the start of year 0.
\<close>

definition iso_minute :: "nat \<Rightarrow> string" where
  "iso_minute t =
     (let days = t div 1440; r = t mod 1440;
          (y, day) = civil_year days;
          (m, d) = month_of 1 (month_lengths y) day
      in (if y < 10000 then pad 4 y else CHR ''+'' # pad 6 y) @ ''-'' @ pad 2 m @ ''-'' @ pad 2 (Suc d) @
         ''T'' @ pad 2 (r div 60) @ '':'' @ pad 2 (r mod 60))"

definition to_iso :: "int \<Rightarrow> string" where
  "to_iso ms =
     (let t = nat (ms + epoch_ms); r = t mod 60000
      in iso_minute (t div 60000) @ '':'' @ pad 2 (r div 1000) @ ''.'' @ pad 3 (r mod 1000) @ ''Z'')"

text \<open>
  The minutes from the start of year 0 that a text of the form \<open>YYYY-MM-DDTHH:MM\<close> says; None for any
  other text (a \<open>datetime-local\<close> field has only such values, except for years of more digits).
\<close>

definition read_minute :: "string \<Rightarrow> nat option" where
  "read_minute s =
     (let y = take 4 s; m = take 2 (drop 5 s); d = take 2 (drop 8 s); h = take 2 (drop 11 s);
          mi = take 2 (drop 14 s);
          year = number_of y; month = number_of m; day = number_of d
      in if length s = 16 \<and> s ! 4 = CHR ''-'' \<and> s ! 7 = CHR ''-'' \<and> s ! 10 = CHR ''T'' \<and> s ! 13 = CHR '':'' \<and>
            (\<forall>c \<in> set (y @ m @ d @ h @ mi). is_digit c) \<and> 1 \<le> month \<and> month \<le> 12 \<and> 1 \<le> day \<and>
            day \<le> month_lengths year ! (month - 1) \<and> number_of h < 24 \<and> number_of mi < 60
         then Some (1440 * (days_before year + sum_list (take (month - 1) (month_lengths year)) +
                day - 1) + 60 * number_of h + number_of mi)
         else None)"

lemma read_iso_minute:
  assumes "t < 1440 * days_before 10000"
  shows "length (iso_minute t) = 16 \<and> read_minute (iso_minute t) = Some t"
proof -
  obtain y day where yd: "civil_year (t div 1440) = (y, day)" by fastforce
  obtain m d where md: "month_of 1 (month_lengths y) day = (m, d)" by fastforce
  have days: "t div 1440 = days_before y + day" "day < year_length y"
    using civil_year_days [OF yd] by simp_all
  have mono: "days_before a \<le> days_before b" if "a \<le> b" for a b
    using that by (induction rule: dec_induct) (simp_all add: days_before_Suc)
  have y: "y < 10000"
  proof (rule ccontr)
    assume "\<not> y < 10000"
    then have "days_before 10000 \<le> days_before y" by (intro mono) simp
    with days(1) assms show False by linarith
  qed
  have months: "length (month_lengths y) = 12" by (simp add: month_lengths_def)
  have m: "1 \<le> m" "m < 13" "d < month_lengths y ! (m - 1)"
    "day = sum_list (take (m - 1) (month_lengths y)) + d"
    using month_of_days [OF md] days(2) by (simp_all add: month_lengths_sum months)
  have "m - 1 < 12" using m(2) by linarith
  with m(3) month_lengths_bound have d: "d < 31" by (metis less_le_trans)
  let ?r = "t mod 1440"
  have iso: "iso_minute t = pad 4 y @ ''-'' @ pad 2 m @ ''-'' @ pad 2 (Suc d) @ ''T'' @
      pad 2 (?r div 60) @ '':'' @ pad 2 (?r mod 60)"
    using y by (simp add: iso_minute_def Let_def yd md [unfolded One_nat_def])
  have len: "length (iso_minute t) = 16" by (simp add: iso)
  have nums: "number_of (pad 4 y) = y" "number_of (pad 2 m) = m" "number_of (pad 2 (Suc d)) = Suc d"
    "number_of (pad 2 (?r div 60)) = ?r div 60" "number_of (pad 2 (?r mod 60)) = ?r mod 60"
    using y m(2) d by (auto intro!: number_of_pad)
  have r: "?r div 60 < 24" "?r mod 60 < 60" by auto
  have t: "t = 1440 * (days_before y + day) + 60 * (?r div 60) + ?r mod 60"
    using days(1) by (metis add.assoc mult_div_mod_eq)
  have parts: "take 4 (iso_minute t) = pad 4 y" "take 2 (drop 5 (iso_minute t)) = pad 2 m"
    "take 2 (drop 8 (iso_minute t)) = pad 2 (Suc d)"
    "take 2 (drop 11 (iso_minute t)) = pad 2 (?r div 60)"
    "take 2 (drop 14 (iso_minute t)) = pad 2 (?r mod 60)"
    "iso_minute t ! 4 = CHR ''-''" "iso_minute t ! 7 = CHR ''-''" "iso_minute t ! 10 = CHR ''T''"
    "iso_minute t ! 13 = CHR '':''"
    by (simp_all only: iso) (simp_all add: nth_append)
  have digits: "\<forall>c \<in> set (pad 4 y @ pad 2 m @ pad 2 (Suc d) @ pad 2 (?r div 60) @ pad 2 (?r mod 60)).
      is_digit c"
    using pad_digits by auto
  have "read_minute (iso_minute t) = Some (1440 * (days_before y +
      sum_list (take (m - 1) (month_lengths y)) + Suc d - 1) + 60 * (?r div 60) + ?r mod 60)"
    using len digits m r unfolding read_minute_def Let_def parts nums by auto
  also have "\<dots> = Some t"
    using t m(4) by simp
  finally show ?thesis using len by blast
qed

text \<open>To evaluate a text.\<close>

lemma pad_numerals:
  "pad 2 n = [digit (n div 10), digit n]"
  "pad 4 n = [digit (n div 10 div 10 div 10), digit (n div 10 div 10), digit (n div 10), digit n]"
proof -
  have four: "4 = Suc (Suc (Suc (Suc 0)))" and two: "2 = Suc (Suc 0)" by simp_all
  show "pad 2 n = [digit (n div 10), digit n]"
    unfolding two by simp
  show "pad 4 n = [digit (n div 10 div 10 div 10), digit (n div 10 div 10), digit (n div 10), digit n]"
    unfolding four pad.simps append_Nil append_Cons by (rule refl)
qed

lemmas iso_run = iso_minute_def civil_year_def year_of.simps year_length_def leap_def
  month_lengths_def pad_numerals digit_def char_eq_code

end
