(* ===== verification/ProjectKit.thy ===== *)
theory ProjectKit
  imports PageKit
begin

text \<open>
  What the pages of a project share: errors kept as the detail of the API's error, links to URLs,
  the name of an environment, and durations.
\<close>

section \<open>Errors as their detail\<close>

text \<open>\<open>if (err instanceof ApiError) setError(err.detail); else setError(fallback)\<close>\<close>

definition detail_or :: "string \<Rightarrow> js_exn \<Rightarrow> json" where
  "detail_or fallback e = (case e of ApiErr st d \<Rightarrow> d | _ \<Rightarrow> JStr fallback)"

text \<open>\<open>{error && <p>{error}</p>}\<close> for a state that holds whatever the detail was.\<close>

definition json_error :: "json \<Rightarrow> 'e view" where
  "json_error v = (if truthy_json v then El ''p'' [json_child v] else json_child v)"

lemma crashes_json_error [simp]: "crashes (json_error v) = (\<not> renderable v)"
  by (simp add: json_error_def)

lemma offers_json_error [simp]: "\<not> offers (json_error v) e"
  by (simp add: json_error_def)

lemma submits_json_error [simp]: "\<not> submits (json_error v)"
  by (simp add: json_error_def)

lemma json_error_empty [simp]: "json_error (JStr []) = Txt []"
  by (simp add: json_error_def truthy_def)

section \<open>Texts\<close>

text \<open>\<open>url.replace(/^https?:\/\//, "")\<close>\<close>

definition no_scheme :: "string \<Rightarrow> string" where
  "no_scheme s =
     (if starts_with s ''https://'' then drop 8 s
      else if starts_with s ''http://'' then drop 7 s else s)"

text \<open>
  \<open>s.charAt(0).toUpperCase()\<close>: the first character, in upper case when it is an ASCII letter.
  (A character beyond ASCII is kept as it is.)
\<close>

definition initial :: "string \<Rightarrow> string" where
  "initial s =
     (case s of
        [] \<Rightarrow> []
      | c # cs \<Rightarrow>
          if code_of c < 128 then [if is_lower c then char_of (code_of c - 32) else c]
          else c # takeWhile (\<lambda>d. 128 \<le> code_of d \<and> code_of d < 192) cs)"

definition plural :: "int \<Rightarrow> string \<Rightarrow> string" where
  "plural n word = show_int n @ '' '' @ word @ (if n \<noteq> 1 then ''s'' else [])"

definition or_text :: "string option \<Rightarrow> string \<Rightarrow> string" where
  "or_text v fallback = (case v of None \<Rightarrow> fallback | Some t \<Rightarrow> t)"

definition truthy_opt :: "string option \<Rightarrow> bool" where
  "truthy_opt v = (case v of None \<Rightarrow> False | Some t \<Rightarrow> truthy t)"

text \<open>A child that is shown when an optional text is truthy.\<close>

definition given :: "string option \<Rightarrow> (string \<Rightarrow> 'e view) \<Rightarrow> 'e view" where
  "given v f = (case v of None \<Rightarrow> Frag [] | Some t \<Rightarrow> when_view (truthy t) (f t))"

definition url_link :: "string \<Rightarrow> 'e view" where
  "url_link url = Lnk url [Txt (no_scheme url)]"

text \<open>
  \<open>Object.fromEntries(environments.map((e) => [e.id, e]))[id]\<close>: the last one with the id. (The ids
  are UUIDs, so never the name of an inherited property.)
\<close>

definition env_of :: "environment list \<Rightarrow> string \<Rightarrow> environment option" where
  "env_of envs i = map_of (rev (map (\<lambda>e. (ev_id e, e)) envs)) i"

definition env_name :: "environment list \<Rightarrow> string \<Rightarrow> string \<Rightarrow> string" where
  "env_name envs i fallback = (case env_of envs i of None \<Rightarrow> fallback | Some e \<Rightarrow> ev_name e)"

definition running :: "deploy_status \<Rightarrow> bool" where
  "running st = (st = Active \<or> st = Healthy)"

lemma offers_given [simp]: "offers (given v f) e = (\<exists>t. v = Some t \<and> truthy t \<and> offers (f t) e)"
  by (auto simp: given_def split: option.splits)

lemma offers_url_link [simp]: "\<not> offers (url_link u) e"
  by (simp add: url_link_def)

lemma texts_url_link [simp]: "texts (url_link u) = [no_scheme u]"
  by (simp add: url_link_def)

lemma offers_status_badge [simp]: "\<not> offers (status_badge st) e"
  by (simp add: status_badge_def)

section \<open>Durations\<close>

text \<open>Whole seconds as minutes and seconds.\<close>

definition show_secs :: "int \<Rightarrow> string" where
  "show_secs secs =
     (if secs < 60 then show_int secs @ ''s''
      else show_int (secs div 60) @ ''m '' @ show_int (secs mod 60) @ ''s'')"

text \<open>
  \<open>formatDuration\<close>, from the two times in milliseconds: a run that ended at its start took \<open>0s\<close>.
\<close>

definition format_duration :: "int \<Rightarrow> int \<Rightarrow> string" where
  "format_duration start end_ms =
     (let ms = end_ms - start in if ms < 0 then mdash else show_secs (ms div 1000))"

text \<open>
  \<open>formatDurationMs\<close> of the mean of \<open>n\<close> durations with the given sum (the mean of none is zero).
\<close>

definition format_mean :: "int \<Rightarrow> int \<Rightarrow> string" where
  "format_mean sum_ms n = (if n = 0 \<or> sum_ms \<le> 0 then mdash else show_secs (sum_ms div (n * 1000)))"

text \<open>
  What a view reads of its surroundings: the parser of dates (None is an invalid date), the clock, and
  the format of dates.
\<close>

record ambient =
  am_parse :: "string \<Rightarrow> int option"
  am_now :: int
  am_locale :: "string \<Rightarrow> string"

definition ago :: "ambient \<Rightarrow> string \<Rightarrow> string" where
  "ago am created = time_ago (am_parse am) (am_now am) created"

text \<open>\<open>formatDuration(start, end)\<close>; the difference with an invalid date is not a number.\<close>

definition duration :: "ambient \<Rightarrow> string \<Rightarrow> string \<Rightarrow> string" where
  "duration am start finish =
     (case (am_parse am start, am_parse am finish) of
        (Some a, Some b) \<Rightarrow> format_duration a b
      | _ \<Rightarrow> ''NaNm NaNs'')"

text \<open>What is shown is the whole seconds of the duration, split without loss.\<close>

lemma show_secs_split:
  assumes "0 \<le> secs"
  shows "\<exists>m r. secs = 60 * m + r \<and> 0 \<le> r \<and> r < 60 \<and> 0 \<le> m \<and>
    show_secs secs = (if m = 0 then show_int r @ ''s'' else show_int m @ ''m '' @ show_int r @ ''s'')"
proof (intro exI conjI)
  show "secs = 60 * (secs div 60) + secs mod 60" by simp
  show "show_secs secs = (if secs div 60 = 0 then show_int (secs mod 60) @ ''s''
      else show_int (secs div 60) @ ''m '' @ show_int (secs mod 60) @ ''s'')"
    using assms by (auto simp: show_secs_def)
qed (use assms in auto)

end
