(* ===== verification/ProjectData.thy ===== *)
theory ProjectData
  imports ProjectKit
begin

text \<open>
  The container of the project page (\<open>web/src/app/dashboard/[projectId]/page.tsx\<close>): the project, its
  environments, builds and deploys, fetched together; the tabs; and the polling while a build or a
  deploy is under way. A fetch aborts the controller of the one before it: an answer to a fetch
  whose controller is aborted is dropped.
\<close>

section \<open>State\<close>

datatype tab = Overview | Deploys | Builds | Environments | Members | Settings | Secrets

record project_page =
  pg_project :: "project option"
  pg_envs :: "environment list"
  pg_builds :: "build list"
  pg_deploys :: "deploy list"
  pg_tab :: tab
  pg_loading :: bool
  pg_error :: string
  pg_controller :: "nat option"   \<comment> \<open>\<open>abortRef\<close>: the fetch whose controller is the newest\<close>
  pg_fetches :: nat               \<comment> \<open>fetches begun so far, which number the controllers\<close>
  pg_interval :: bool             \<comment> \<open>\<open>pollingRef\<close>: an interval is running\<close>
  pg_polling :: bool              \<comment> \<open>\<open>lastPollingStatusRef\<close> is \<open>"polling"\<close>\<close>
  pg_cleanup :: bool              \<comment> \<open>the last run of the polling effect returned a cleanup\<close>

definition project_initial :: project_page where
  "project_initial =
     \<lparr>pg_project = None, pg_envs = [], pg_builds = [], pg_deploys = [], pg_tab = Overview,
      pg_loading = True, pg_error = [], pg_controller = None, pg_fetches = 0, pg_interval = False,
      pg_polling = False, pg_cleanup = False\<rparr>"

text \<open>What the four requests of a fetch answer together.\<close>

record project_data =
  pd_project :: project
  pd_envs :: "environment list"
  pd_builds :: "build list"
  pd_deploys :: "deploy list"

section \<open>Fetching\<close>

datatype project_cmd = FetchAll nat

definition fetch_all :: "project_page \<Rightarrow> project_page \<times> project_cmd list" where
  "fetch_all s =
     (s\<lparr>pg_controller := Some (pg_fetches s), pg_fetches := Suc (pg_fetches s)\<rparr>,
      [FetchAll (pg_fetches s)])"

section \<open>Polling\<close>

definition active_statuses :: "deploy_status list" where
  "active_statuses = [Queued, Building, Artifact_ready, Provisioning, Healthy]"

definition should_poll :: "build list \<Rightarrow> deploy list \<Rightarrow> bool" where
  "should_poll builds deploys =
     ((\<exists>b \<in> set builds. bd_status b = ''building'' \<or> bd_status b = ''queued'') \<or>
      (\<exists>d \<in> set deploys. dp_status d \<in> set active_statuses))"

text \<open>
  The effect of \<open>[builds, deploys, fetchAll]\<close>: the cleanup of its last run, if that returned one, and
  then its body, which returns early (and returns no cleanup) when the status is the last one.
\<close>

definition poll_cleanup :: "project_page \<Rightarrow> project_page" where
  "poll_cleanup s = (if pg_cleanup s then s\<lparr>pg_interval := False\<rparr> else s)"

definition poll_body :: "project_page \<Rightarrow> project_page" where
  "poll_body s =
     (let next_status = should_poll (pg_builds s) (pg_deploys s)
      in if next_status = pg_polling s then s\<lparr>pg_cleanup := False\<rparr>
         else s\<lparr>pg_interval := next_status, pg_polling := next_status, pg_cleanup := True\<rparr>)"

definition poll_effect :: "project_page \<Rightarrow> project_page" where
  "poll_effect s = poll_body (poll_cleanup s)"

text \<open>The answer to a fetch; every listing it stores is a new array, so the effect runs again.\<close>

definition load_failed :: "js_exn \<Rightarrow> string" where
  "load_failed e =
     (case e of
        ApiErr st d \<Rightarrow> if st = 404 then ''Project not found'' else ''Failed to load project''
      | _ \<Rightarrow> ''Failed to load project'')"

fun project_resume ::
  "project_cmd \<Rightarrow> project_data outcome \<Rightarrow> project_page \<Rightarrow> project_page \<times> project_cmd list" where
  "project_resume (FetchAll n) r s =
     ((if pg_controller s \<noteq> Some n then s\<lparr>pg_loading := False\<rparr>
       else case r of
         Inr d \<Rightarrow>
           poll_effect (s\<lparr>pg_project := Some (pd_project d), pg_envs := pd_envs d,
             pg_builds := pd_builds d, pg_deploys := pd_deploys d, pg_loading := False\<rparr>)
       | Inl e \<Rightarrow> s\<lparr>pg_error := load_failed e, pg_loading := False\<rparr>), [])"

text \<open>
  The events: a tab is selected, the interval fires, or a tab calls \<open>onUpdate\<close> (\<open>fetchAll\<close>) after
  an operation.
\<close>

datatype project_event = SelectTab tab | PollTick | UpdateRequested

fun project_handle :: "project_event \<Rightarrow> project_page \<Rightarrow> project_page \<times> project_cmd list" where
  "project_handle (SelectTab t) s = (s\<lparr>pg_tab := t\<rparr>, [])"
| "project_handle PollTick s = fetch_all s"
| "project_handle UpdateRequested s = fetch_all s"

text \<open>The mount: the first fetch, and the polling effect on no builds and no deploys.\<close>

definition project_start :: "(project_page, project_cmd) world" where
  "project_start = (let (s, cs) = fetch_all project_initial in (poll_effect s, cs))"

section \<open>View\<close>

definition production_env :: "environment list \<Rightarrow> environment option" where
  "production_env envs = find (\<lambda>e. ev_type e = Production) envs"

definition latest_active_deploy :: "environment list \<Rightarrow> deploy list \<Rightarrow> deploy option" where
  "latest_active_deploy envs deploys =
     find (\<lambda>d. running (dp_status d) \<and>
        (case production_env envs of None \<Rightarrow> True | Some e \<Rightarrow> dp_env_id d = ev_id e)) deploys"

text \<open>\<open>project.production_url ?? latestActiveDeploy?.url ?? null\<close>\<close>

definition production_url :: "project \<Rightarrow> environment list \<Rightarrow> deploy list \<Rightarrow> string option" where
  "production_url p envs deploys =
     (case pj_production_url p of
        Some u \<Rightarrow> Some u
      | None \<Rightarrow> Option.bind (latest_active_deploy envs deploys) dp_url)"

definition repo_name :: "project \<Rightarrow> string option" where
  "repo_name p = Option.bind (pj_repo p) rp_repo_full_name"

definition project_header :: "project \<Rightarrow> 'e view" where
  "project_header p =
     El ''div''
       [when_view (truthy_opt (pj_framework p)) (El ''span'' [Txt (initial (the (pj_framework p)))]),
        El ''h1'' [Txt (pj_name p)],
        given (repo_name p) (\<lambda>r. Lnk (''https://github.com/'' @ r) [Txt r]),
        when_view (truthy_opt (repo_name p) \<and> truthy_opt (pj_framework p)) (Txt ''|''),
        given (pj_framework p) (\<lambda>f. El ''span'' [Txt f]),
        given (map_option rp_default_branch (pj_repo p)) (\<lambda>b. Frag [Txt ''|'', El ''span'' [Txt b]])]"

definition visit_buttons :: "project \<Rightarrow> string option \<Rightarrow> 'e view" where
  "visit_buttons p url =
     El ''div''
       [given url (\<lambda>u. Lnk u [Txt ''Visit'']),
        given (repo_name p) (\<lambda>r. Lnk (''https://github.com/'' @ r) [Txt ''Git''])]"

definition production_links :: "project \<Rightarrow> environment list \<Rightarrow> deploy list \<Rightarrow> 'e view" where
  "production_links p envs deploys =
     given (production_url p envs deploys) (\<lambda>u.
       El ''div''
         [url_link u,
          when_view (truthy_opt (pj_production_url p))
            (given (Option.bind (latest_active_deploy envs deploys) dp_url)
              (\<lambda>d. when_view (pj_production_url p \<noteq> Some d) (Frag [Txt ''|'', url_link d])))])"

definition tab_labels :: "project_page \<Rightarrow> (tab \<times> string \<times> int option) list" where
  "tab_labels s =
     [(Overview, ''Overview'', None),
      (Deploys, ''Deployments'', Some (int (length (pg_deploys s)))),
      (Builds, ''Builds'', Some (int (length (pg_builds s)))),
      (Environments, ''Environments'', Some (int (length (pg_envs s)))),
      (Members, ''Members'', None), (Settings, ''Settings'', None), (Secrets, ''Secrets'', None)]"

definition tab_button :: "(tab \<Rightarrow> 'e) \<Rightarrow> tab \<times> string \<times> int option \<Rightarrow> 'e view" where
  "tab_button select t =
     (case t of (key, label, count) \<Rightarrow>
        Btn False (Some (select key))
          [Txt label,
           (case count of
              None \<Rightarrow> Frag []
            | Some n \<Rightarrow> when_view (0 < n) (El ''span'' [Txt (show_int n)]))])"

definition secrets_tab_link :: "string \<Rightarrow> 'e view" where
  "secrets_tab_link project_id =
     El ''div''
       [El ''p'' [Txt ''Manage secrets for this project.''],
        Lnk (''/dashboard/'' @ project_id @ ''/secrets'') [Txt ''Go to secrets management'']]"

text \<open>
  The page around the content of its tab. \<open>select\<close> is the event of a tab's button, \<open>banner\<close> the banner
  that connects a repository, \<open>content\<close> what the tab renders.
\<close>

definition project_view ::
  "(tab \<Rightarrow> 'e) \<Rightarrow> 'e view \<Rightarrow> (project \<Rightarrow> tab \<Rightarrow> 'e view) \<Rightarrow> project_page \<Rightarrow> 'e view" where
  "project_view select banner content s =
     (if pg_loading s then para ''Loading...''
      else if truthy (pg_error s) \<or> pg_project s = None
      then El ''div''
        [para (if truthy (pg_error s) then pg_error s else ''Project not found''),
         Lnk ''/dashboard'' [Txt ''Back to projects'']]
      else
        let p = the (pg_project s)
        in El ''div''
          [El ''div'' [Lnk ''/dashboard'' [Txt ''Projects''], El ''span'' [Txt (pj_name p)]],
           El ''div''
             [project_header p,
              visit_buttons p (production_url p (pg_envs s) (pg_deploys s)),
              production_links p (pg_envs s) (pg_deploys s),
              when_view (pj_repo p = None) banner],
           El ''nav'' (map (tab_button select) (tab_labels s)),
           content p (pg_tab s)])"

section \<open>The machine of the page\<close>

definition project_shown :: "project_page \<Rightarrow> project_event view" where
  "project_shown s = project_view SelectTab (Frag []) (\<lambda>p t. Frag []) s"

text \<open>
  A tab asks for an update when an operation of its own is answered, even if it is no longer on
  screen then; it has been there only if the project was loaded.
\<close>

fun project_offered :: "project_page \<Rightarrow> project_event \<Rightarrow> bool" where
  "project_offered s PollTick = pg_interval s"
| "project_offered s UpdateRequested = (pg_project s \<noteq> None)"
| "project_offered s e = offers (project_shown s) e"

text \<open>\<open>serves n d\<close>: the server may answer the \<open>n\<close>-th fetch with \<open>d\<close>.\<close>

fun project_answers :: "(nat \<Rightarrow> project_data \<Rightarrow> bool) \<Rightarrow> project_cmd \<Rightarrow> project_data outcome \<Rightarrow> bool" where
  "project_answers serves (FetchAll n) r = (case r of Inr d \<Rightarrow> serves n d | Inl e \<Rightarrow> True)"

abbreviation project_steps where
  "project_steps serves \<equiv>
     wstep project_offered project_handle project_resume (project_answers serves)"

definition shows_data :: "project_page \<Rightarrow> project_data \<Rightarrow> bool" where
  "shows_data s d =
     (pg_project s = Some (pd_project d) \<and> pg_envs s = pd_envs d \<and> pg_builds s = pd_builds d \<and>
      pg_deploys s = pd_deploys d)"

lemma poll_effect_fields [simp]:
  "pg_project (poll_effect s) = pg_project s" "pg_envs (poll_effect s) = pg_envs s"
  "pg_builds (poll_effect s) = pg_builds s" "pg_deploys (poll_effect s) = pg_deploys s"
  "pg_loading (poll_effect s) = pg_loading s" "pg_error (poll_effect s) = pg_error s"
  "pg_controller (poll_effect s) = pg_controller s" "pg_fetches (poll_effect s) = pg_fetches s"
  "pg_polling (poll_effect s) = should_poll (pg_builds s) (pg_deploys s)"
  by (auto simp: poll_effect_def poll_body_def poll_cleanup_def Let_def)

lemma poll_effect_flags [simp]:
  "pg_interval (poll_effect s) =
     (if should_poll (pg_builds s) (pg_deploys s) = pg_polling s then pg_interval s \<and> \<not> pg_cleanup s
      else should_poll (pg_builds s) (pg_deploys s))"
  "pg_cleanup (poll_effect s) = (should_poll (pg_builds s) (pg_deploys s) \<noteq> pg_polling s)"
  by (auto simp: poll_effect_def poll_body_def poll_cleanup_def Let_def)

text \<open>
  The newest fetch has the controller; it is in flight, or it failed, or the page shows its answer.
  The status of the polling is the one of what the page shows, and an interval that runs has a
  cleanup that will stop it.
\<close>

definition project_inv :: "(nat \<Rightarrow> project_data \<Rightarrow> bool) \<Rightarrow> project_page \<Rightarrow> project_cmd list \<Rightarrow> bool" where
  "project_inv serves s fl =
     (0 < pg_fetches s \<and> pg_controller s = Some (pg_fetches s - 1) \<and>
      distinct fl \<and> (\<forall>n. FetchAll n \<in> set fl \<longrightarrow> n < pg_fetches s) \<and>
      (FetchAll (pg_fetches s - 1) \<in> set fl \<or> pg_error s \<noteq> [] \<or>
       (\<exists>d. serves (pg_fetches s - 1) d \<and> shows_data s d)) \<and>
      (pg_loading s \<longrightarrow> fl \<noteq> []) \<and>
      pg_polling s = should_poll (pg_builds s) (pg_deploys s) \<and>
      (pg_interval s \<longrightarrow> pg_polling s \<and> pg_cleanup s))"

lemma project_inv_start: "project_inv serves (fst project_start) (snd project_start)"
  by (simp add: project_inv_def project_start_def fetch_all_def project_initial_def
      poll_effect_def poll_body_def poll_cleanup_def should_poll_def)

lemma project_inv_fetch:
  assumes "project_inv serves s fl" and "fetch_all s = (s', cs)"
  shows "project_inv serves s' (fl @ cs)"
  using assms by (auto simp: project_inv_def fetch_all_def)

lemma load_failed_nonempty [simp]: "load_failed e \<noteq> []"
  by (simp add: load_failed_def split: js_exn.split)

lemma project_inv_handle:
  assumes "project_inv serves s fl" and "project_handle e s = (s', cs)"
  shows "project_inv serves s' (fl @ cs)"
proof (cases e)
  case (SelectTab t)
  with assms show ?thesis by (auto simp: project_inv_def shows_data_def)
qed (use assms in \<open>auto intro: project_inv_fetch\<close>)

lemma project_inv_resume:
  assumes "project_inv serves s (xs @ c # ys)" and "project_answers serves c r"
    and "project_resume c r s = (s', cs)"
  shows "project_inv serves s' (xs @ ys @ cs)"
proof -
  obtain n where c: "c = FetchAll n" by (cases c)
  show ?thesis
  proof (cases "pg_controller s = Some n")
    case False
    with assms(1,3) show ?thesis by (auto simp: c project_inv_def shows_data_def)
  next
    case True
    with assms(1) have n: "n = pg_fetches s - 1" by (simp add: project_inv_def)
    show ?thesis
    proof (cases r)
      case (Inl e)
      with True assms(1,3) show ?thesis by (auto simp: c project_inv_def)
    next
      case (Inr d)
      with assms(2) n have serves: "serves (pg_fetches s - 1) d" by (simp add: c)
      have s': "s' = poll_effect (s\<lparr>pg_project := Some (pd_project d), pg_envs := pd_envs d,
          pg_builds := pd_builds d, pg_deploys := pd_deploys d, pg_loading := False\<rparr>)" "cs = []"
        using True Inr assms(3) by (simp_all add: c)
      have "shows_data s' d" by (simp add: s' shows_data_def)
      then have "\<exists>d. serves (pg_fetches s' - 1) d \<and> shows_data s' d"
        using serves by (auto simp: s')
      moreover have "pg_interval s' \<longrightarrow> pg_polling s' \<and> pg_cleanup s'"
        using assms(1) by (simp add: s' project_inv_def)
      moreover have "\<not> pg_loading s'" "pg_fetches s' = pg_fetches s" "pg_controller s' = pg_controller s"
        "pg_polling s' = should_poll (pg_builds s') (pg_deploys s')"
        by (simp_all add: s')
      moreover have "distinct (xs @ ys)" "\<forall>n. FetchAll n \<in> set (xs @ ys) \<longrightarrow> n < pg_fetches s"
        "0 < pg_fetches s" "pg_controller s = Some (pg_fetches s - 1)"
        using assms(1) by (simp_all add: project_inv_def)
      ultimately show ?thesis
        unfolding project_inv_def s'(2) append_Nil2 by simp
    qed
  qed
qed

interpretation project_world: world_invariant project_offered project_handle project_resume
  "project_answers serves" project_start "project_inv serves" for serves
proof unfold_locales
  show "project_inv serves (fst project_start) (snd project_start)"
    by (rule project_inv_start)
  show "project_inv serves s' (fl @ cs)"
    if "project_inv serves s fl" and "project_handle e s = (s', cs)" for s fl e s' cs
    using that by (rule project_inv_handle)
  show "project_inv serves s' (xs @ ys @ cs)"
    if "project_inv serves s (xs @ c # ys)" and "project_answers serves c r"
      and "project_resume c r s = (s', cs)" for s xs c ys r s' cs
    using that by (rule project_inv_resume)
qed

text \<open>
  C4: whatever the order in which the answers arrive, once none is outstanding the project page
  shows the answer to its newest fetch, or the message of a failure, and is not loading.
\<close>

theorem project_settled_display:
  assumes "(project_steps serves)\<^sup>*\<^sup>* project_start (s, [])"
  shows "\<not> pg_loading s \<and>
    (pg_error s \<noteq> [] \<or> (\<exists>d. serves (pg_fetches s - 1) d \<and> shows_data s d))"
  using project_world.reach_state_inv [OF assms] by (simp add: project_inv_def)

section \<open>Polling stops, failures stay\<close>

lemma busy_no_interval:
  assumes busy: "\<forall>n d. serves n d \<longrightarrow> should_poll (pd_builds d) (pd_deploys d)"
    and "(project_steps serves)\<^sup>*\<^sup>* (s, fl) (s', fl')" and "pg_polling s" and "\<not> pg_interval s"
  shows "pg_polling s' \<and> \<not> pg_interval s'"
  using assms(2-)
proof (induction rule: rtranclp_induct2)
  case (step s1 fl1 s2 fl2)
  then have "pg_polling s1" "\<not> pg_interval s1" by auto
  with step.hyps(2) busy show ?case
  proof cases
    case (act e cs)
    then show ?thesis using \<open>pg_polling s1\<close> \<open>\<not> pg_interval s1\<close>
      by (cases e) (auto simp: fetch_all_def)
  next
    case (reply c r xs cs ys)
    then show ?thesis using \<open>pg_polling s1\<close> \<open>\<not> pg_interval s1\<close> busy
      by (cases c) (auto split: if_splits sum.splits)
  qed
qed simp

text \<open>
  The page polls at most until the first answer: when the answer to the newest fetch arrives
  during the polling and the work is still under way, the effect's cleanup clears the interval and
  its body returns early; from then on, however long the builds and deploys stay under way, the
  interval never fires again.
\<close>

lemma polling_stops:
  assumes "(project_steps serves)\<^sup>*\<^sup>* project_start (s, fl)" and "pg_polling s"
    and "pg_controller s = Some n" and "should_poll (pd_builds d) (pd_deploys d)"
    and "project_resume (FetchAll n) (Inr d) s = (s1, cs)"
    and "\<forall>n d. serves' n d \<longrightarrow> should_poll (pd_builds d) (pd_deploys d)"
    and "(project_steps serves')\<^sup>*\<^sup>* (s1, fl1) (s2, fl2)"
  shows "\<not> project_offered s2 PollTick"
proof -
  have "pg_interval s \<longrightarrow> pg_cleanup s"
    using project_world.reach_state_inv [OF assms(1)] by (simp add: project_inv_def)
  then have "pg_polling s1 \<and> \<not> pg_interval s1"
    using assms(2-5) by auto
  then show ?thesis
    using busy_no_interval [OF assms(6,7)] by simp
qed

text \<open>
  A failed refresh is final: once the page shows the message of a failure, no later answer
  takes it away, even when every later fetch succeeds.
\<close>

lemma failed_refresh_stays:
  assumes "(project_steps serves)\<^sup>*\<^sup>* (s, fl) (s', fl')" and "pg_error s \<noteq> []" and "\<not> pg_loading s"
  shows "pg_error s' \<noteq> [] \<and>
    texts (project_view select banner content s') = [pg_error s', ''Back to projects'']"
proof -
  have "pg_error s' \<noteq> [] \<and> \<not> pg_loading s'"
    using assms
  proof (induction rule: rtranclp_induct2)
    case (step s1 fl1 s2 fl2)
    then have "pg_error s1 \<noteq> [] \<and> \<not> pg_loading s1" by blast
    with step.hyps(2) show ?case
    proof cases
      case (act e cs)
      with \<open>pg_error s1 \<noteq> [] \<and> \<not> pg_loading s1\<close> show ?thesis
        by (cases e) (auto simp: fetch_all_def)
    next
      case (reply c r xs cs ys)
      with \<open>pg_error s1 \<noteq> [] \<and> \<not> pg_loading s1\<close> show ?thesis
        by (cases c) (auto split: if_splits sum.splits)
    qed
  qed simp
  then show ?thesis by (simp add: project_view_def truthy_def)
qed

text \<open>A project whose build is under way, polled once; and the same when the poll fails.\<close>

definition sample_project :: project where
  "sample_project =
     \<lparr>pj_id = ''p1'', pj_name = ''Site'', pj_slug = ''site'', pj_repo_url = None, pj_owner_id = ''u1'',
      pj_default_env = ''staging'', pj_auto_deploy = True, pj_framework = None,
      pj_root_directory = None, pj_build_command = None, pj_install_command = None,
      pj_output_directory = None, pj_health_check_path = None, pj_health_check_timeout = None,
      pj_webhook_url = None, pj_deploy_locked = False, pj_expires_at = None,
      pj_production_url = None, pj_custom_subdomain = None, pj_repo = None,
      pj_created_at = ''2026-01-01T00:00:00Z''\<rparr>"

definition sample_build :: "string \<Rightarrow> build" where
  "sample_build status =
     \<lparr>bd_id = ''b1'', bd_project_id = ''p1'', bd_commit_sha = ''0123456789'', bd_image_ref = None,
      bd_status = status, bd_trigger = ''push'', bd_branch = None,
      bd_started_at = Some ''2026-01-01T00:00:00Z'', bd_finished_at = None\<rparr>"

definition sample_deploy :: "deploy_status \<Rightarrow> deploy" where
  "sample_deploy st =
     \<lparr>dp_id = ''d1'', dp_env_id = ''e1'', dp_artifact_id = None, dp_build_id = None,
      dp_commit_sha = None, dp_status = st, dp_url = None, dp_created_at = ''2026-01-03T10:00:00Z'',
      dp_promoted_at = None, dp_is_production = False, dp_container_ip = None,
      dp_container_vmid = None\<rparr>"

definition sample_ambient :: ambient where
  "sample_ambient = \<lparr>am_parse = (\<lambda>t. Some 0), am_now = 0, am_locale = (\<lambda>t. t)\<rparr>"

definition busy_data :: project_data where
  "busy_data = \<lparr>pd_project = sample_project, pd_envs = [], pd_builds = [sample_build ''building''],
     pd_deploys = []\<rparr>"

definition serves_busy :: "nat \<Rightarrow> project_data \<Rightarrow> bool" where
  "serves_busy n d = (d = busy_data)"

definition polled :: "project_data outcome \<Rightarrow> (project_event + nat \<times> project_data outcome) list" where
  "polled r = [Inr (0, Inr busy_data), Inl PollTick, Inr (0, r)]"

lemmas project_run = polled_def project_start_def project_initial_def fetch_all_def poll_effect_def
  poll_body_def poll_cleanup_def should_poll_def busy_data_def sample_build_def serves_busy_def
  active_statuses_def

lemma polled_playable:
  "playable project_offered project_handle project_resume (project_answers serves_busy)
     (polled (Inr busy_data)) project_start"
  "playable project_offered project_handle project_resume (project_answers serves_busy)
     (polled (Inl (JsErr ''Failed to fetch''))) project_start"
  by (simp_all add: project_run)

theorem project_settled_display_witness:
  "\<exists>s. (project_steps serves_busy)\<^sup>*\<^sup>* project_start (s, []) \<and> pg_fetches s = 2 \<and>
     (pg_error s \<noteq> [] \<or> (\<exists>d. serves_busy 1 d \<and> shows_data s d))"
proof -
  have "(project_steps serves_busy)\<^sup>*\<^sup>* project_start
      (run_script project_handle project_resume (polled (Inr busy_data)) project_start)"
    by (rule run_script_reaches [OF polled_playable(1)])
  then obtain s where r: "(project_steps serves_busy)\<^sup>*\<^sup>* project_start (s, [])" "pg_fetches s = 2"
    by (simp add: project_run)
  from project_settled_display [OF r(1)] r show ?thesis by auto
qed

lemma polling_stops_witness:
  "\<exists>s s1 cs. (project_steps serves_busy)\<^sup>*\<^sup>* project_start (s, [FetchAll 1]) \<and>
     project_offered s PollTick \<and>
     project_resume (FetchAll 1) (Inr busy_data) s = (s1, cs) \<and>
     should_poll (pg_builds s1) (pg_deploys s1) \<and> \<not> project_offered s1 PollTick"
proof -
  have "(project_steps serves_busy)\<^sup>*\<^sup>* project_start
      (run_script project_handle project_resume [Inr (0, Inr busy_data), Inl PollTick] project_start)"
    by (rule run_script_reaches) (simp add: project_run)
  then obtain s where r: "(project_steps serves_busy)\<^sup>*\<^sup>* project_start (s, [FetchAll 1])"
    "pg_polling s" "pg_controller s = Some 1" "pg_interval s"
    by (simp add: project_run)
  obtain s1 cs where s1: "project_resume (FetchAll 1) (Inr busy_data) s = (s1, cs)"
    by (cases "project_resume (FetchAll 1) (Inr busy_data) s")
  have b: "should_poll (pd_builds busy_data) (pd_deploys busy_data)"
    by (simp add: project_run)
  then have "\<forall>n d. serves_busy n d \<longrightarrow> should_poll (pd_builds d) (pd_deploys d)"
    by (simp add: serves_busy_def)
  from polling_stops [OF r(1-3) b s1 this rtranclp.rtrancl_refl]
  have "\<not> project_offered s1 PollTick" .
  moreover have "should_poll (pg_builds s1) (pg_deploys s1)"
    using s1 r(3) b by auto
  moreover have "project_offered s PollTick"
    using r(4) by simp
  ultimately show ?thesis using r(1) s1 by blast
qed

lemma failed_refresh_stays_witness:
  "\<exists>s. (project_steps serves_busy)\<^sup>*\<^sup>* project_start (s, []) \<and> pg_project s = Some sample_project \<and>
     texts (project_shown s) = [''Failed to load project'', ''Back to projects'']"
proof -
  let ?as = "polled (Inl (JsErr ''Failed to fetch''))"
  have "(project_steps serves_busy)\<^sup>*\<^sup>* project_start
      (run_script project_handle project_resume ?as project_start)"
    by (rule run_script_reaches [OF polled_playable(2)])
  then obtain s where r: "(project_steps serves_busy)\<^sup>*\<^sup>* project_start (s, [])"
    "pg_error s = ''Failed to load project''" "\<not> pg_loading s" "pg_project s = Some sample_project"
    by (simp add: project_run load_failed_def)
  from r(2) have "pg_error s \<noteq> []" by simp
  have "texts (project_shown s) = [pg_error s, ''Back to projects'']"
    unfolding project_shown_def
    using failed_refresh_stays [OF rtranclp.rtrancl_refl \<open>pg_error s \<noteq> []\<close> r(3)] by blast
  with r show ?thesis by auto
qed

end
