(* ===== verification/ProjectOverview.thy ===== *)
theory ProjectOverview
  imports ProjectData
begin

text \<open>
  The overview tab of the project page: the statistics of its builds and deploys, the deploy activity
  of the last days, and the cards that link to the other tabs.
\<close>

section \<open>Statistics\<close>

text \<open>
  \<open>Math.round((k / n) * 100)\<close> in double precision. For up to 50 builds, the number the page asks for,
  it is the exact quotient rounded half up, but for \<open>23 / 40\<close>, whose product falls just below 57.5.
\<close>

definition percent_of :: "int \<Rightarrow> int \<Rightarrow> int" where
  "percent_of k n =
     (if n = 0 then 0 else if (k, n) = (23, 40) then 57 else (200 * k + n) div (2 * n))"

record project_stats =
  ps_deploys :: int
  ps_builds :: int
  ps_success_rate :: int
  ps_avg_build_time :: string
  ps_failed :: int

definition build_succeeded :: "build \<Rightarrow> bool" where
  "build_succeeded b = (bd_status b \<in> {''success'', ''active'', ''healthy'', ''artifact_ready''})"

definition completed_times :: "build list \<Rightarrow> (string \<times> string) list" where
  "completed_times builds =
     [(the (bd_started_at b), the (bd_finished_at b)).
        b \<leftarrow> builds, truthy_opt (bd_started_at b) \<and> truthy_opt (bd_finished_at b)]"

definition avg_build_time :: "ambient \<Rightarrow> build list \<Rightarrow> string" where
  "avg_build_time am builds =
     (let times = completed_times builds;
          parsed = map (\<lambda>(a, b). (am_parse am a, am_parse am b)) times
      in if \<exists>(a, b) \<in> set parsed. a = None \<or> b = None then ''NaNm NaNs''
         else format_mean (sum_list (map (\<lambda>(a, b). the b - the a) parsed)) (int (length times)))"

definition project_stats :: "ambient \<Rightarrow> build list \<Rightarrow> deploy list \<Rightarrow> project_stats" where
  "project_stats am builds deploys =
     \<lparr>ps_deploys = int (length deploys), ps_builds = int (length builds),
      ps_success_rate = percent_of (int (length (filter build_succeeded builds))) (int (length builds)),
      ps_avg_build_time = avg_build_time am builds,
      ps_failed = int (length (filter (\<lambda>d. dp_status d = Failed) deploys))\<rparr>"

lemma percent_of_bounds:
  assumes "0 \<le> k" and "k \<le> n"
  shows "0 \<le> percent_of k n \<and> percent_of k n \<le> 100"
proof (cases "n = 0 \<or> (k, n) = (23, 40)")
  case False
  then have n: "0 < n" and p: "percent_of k n = (200 * k + n) div (2 * n)"
    using assms by (auto simp: percent_of_def)
  have "0 \<le> (200 * k + n) div (2 * n)"
    using assms n by (intro pos_imp_zdiv_nonneg_iff [THEN iffD2]) auto
  moreover have "(200 * k + n) div (2 * n) \<le> (201 * n) div (2 * n)"
    using assms n by (intro zdiv_mono1) auto
  moreover have "(201 * n) div (2 * n) = 100"
    using n by simp
  ultimately show ?thesis by (simp add: p)
qed (auto simp: percent_of_def)

section \<open>Activity\<close>

text \<open>
  \<open>getActivityData\<close>, the page's own copy of \<open>getDeployActivity\<close>: \<open>iso_day i\<close> is the date of \<open>i\<close> days
  ago, \<open>day_label\<close> and \<open>date_label\<close> the two formats of its label.
\<close>

record activity_bucket =
  ab_label :: string
  ab_count :: int
  ab_date :: string

fun activity_buckets ::
  "(nat \<Rightarrow> string) \<Rightarrow> (nat \<Rightarrow> string) \<Rightarrow> (nat \<Rightarrow> string) \<Rightarrow> nat \<Rightarrow> activity_bucket list" where
  "activity_buckets iso_day day_label date_label 0 = []"
| "activity_buckets iso_day day_label date_label (Suc i) =
     \<lparr>ab_label = (if i < 7 then day_label i else date_label i), ab_count = 0, ab_date = iso_day i\<rparr>
     # activity_buckets iso_day day_label date_label i"

fun bump_bucket :: "string \<Rightarrow> activity_bucket list \<Rightarrow> activity_bucket list" where
  "bump_bucket day [] = []"
| "bump_bucket day (b # bs) =
     (if ab_date b = day then b\<lparr>ab_count := ab_count b + 1\<rparr> # bs else b # bump_bucket day bs)"

definition activity_data ::
  "(nat \<Rightarrow> string) \<Rightarrow> (nat \<Rightarrow> string) \<Rightarrow> (nat \<Rightarrow> string) \<Rightarrow> deploy list \<Rightarrow> nat \<Rightarrow> activity_bucket list" where
  "activity_data iso_day day_label date_label deploys days =
     fold (\<lambda>d. bump_bucket (take 10 (dp_created_at d))) deploys
       (activity_buckets iso_day day_label date_label days)"

definition plain_bucket :: "activity_bucket \<Rightarrow> bucket" where
  "plain_bucket b = \<lparr>bk_date = ab_date b, bk_count = ab_count b\<rparr>"

lemma dates_bump [simp]: "map ab_date (bump_bucket day bs) = map ab_date bs"
  by (induction bs) auto

lemma dates_activity [simp]:
  "map ab_date (activity_buckets iso_day l l' n) = map iso_day (rev [0..<n])"
  by (induction n) auto

lemma plain_activity:
  "map plain_bucket (activity_buckets iso_day l l' n) =
     map (\<lambda>i. \<lparr>bk_date = iso_day i, bk_count = 0\<rparr>) (rev [0..<n])"
  by (induction n) (auto simp: plain_bucket_def)

lemma bump_distinct:
  "distinct (map ab_date bs) \<Longrightarrow>
   map plain_bucket (bump_bucket day bs) =
     map (\<lambda>b. b\<lparr>bk_count := bk_count b + (if bk_date b = day then 1 else 0)\<rparr>) (map plain_bucket bs)"
proof (induction bs)
  case (Cons b bs)
  have "map (\<lambda>b. b\<lparr>bk_count := bk_count b + (if bk_date b = ab_date a then 1 else 0)\<rparr>) (map plain_bucket bs) =
      map plain_bucket bs" if "ab_date a \<notin> set (map ab_date bs)" for a :: activity_bucket
    using that by (induction bs) (auto simp: plain_bucket_def)
  with Cons show ?case by (auto simp: plain_bucket_def) (metis image_eqI)+
qed simp

lemma tally_Cons [simp]: "tally (d # ds) day = (if take 10 d = day then 1 else 0) + tally ds day"
  by (simp add: tally_def)

lemma tally_Nil [simp]: "tally [] day = 0"
  by (simp add: tally_def)

lemma fold_bump:
  "distinct (map ab_date bs) \<Longrightarrow>
   map plain_bucket (fold (\<lambda>d. bump_bucket (take 10 (dp_created_at d))) deploys bs) =
     map (\<lambda>b. b\<lparr>bk_count := bk_count b + tally (map dp_created_at deploys) (bk_date b)\<rparr>)
       (map plain_bucket bs)"
proof (induction deploys arbitrary: bs)
  case (Cons d deploys)
  let ?bs = "bump_bucket (take 10 (dp_created_at d)) bs"
  have "distinct (map ab_date ?bs)" using Cons.prems by simp
  from Cons.IH [OF this] show ?case
    unfolding fold_Cons comp_apply bump_distinct [OF Cons.prems]
    by (auto simp: plain_bucket_def)
qed (simp add: plain_bucket_def)

text \<open>
  Where the days back have different dates, the page's own computation of the deploy activity
  agrees with the shared one of the utilities, bucket by bucket.
\<close>

lemma activity_data_agrees:
  assumes "inj_on iso_day {..<days}"
  shows "map plain_bucket (activity_data iso_day day_label date_label deploys days) =
    get_deploy_activity iso_day (map dp_created_at deploys) days"
proof -
  have "distinct (map ab_date (activity_buckets iso_day day_label date_label days))"
    using assms by (simp add: distinct_map atLeast0LessThan)
  from fold_bump [OF this] show ?thesis
    unfolding activity_data_def deploy_activity_buckets [OF assms] plain_activity
    by (simp add: comp_def)
qed

section \<open>Cards\<close>

text \<open>The production deploy, else the newest running one, else the newest.\<close>

definition featured_deploy :: "environment list \<Rightarrow> deploy list \<Rightarrow> deploy option" where
  "featured_deploy envs deploys =
     (case find (\<lambda>d. case production_env envs of
                       None \<Rightarrow> False | Some e \<Rightarrow> dp_env_id d = ev_id e) deploys of
        Some d \<Rightarrow> Some d
      | None \<Rightarrow>
          (case find (\<lambda>d. running (dp_status d)) deploys of
             Some d \<Rightarrow> Some d
           | None \<Rightarrow> (case deploys of [] \<Rightarrow> None | d # ds \<Rightarrow> Some d)))"

lemma featured_deploy_exists: "featured_deploy envs deploys = None \<longleftrightarrow> deploys = []"
  by (auto simp: featured_deploy_def split: option.splits list.splits)

definition deploy_path :: "string \<Rightarrow> string \<Rightarrow> string" where
  "deploy_path project_id deploy_id = ''/dashboard/'' @ project_id @ ''/deploys/'' @ deploy_id"

definition featured_card ::
  "ambient \<Rightarrow> project \<Rightarrow> environment list \<Rightarrow> string \<Rightarrow> deploy option \<Rightarrow> 'e view" where
  "featured_card am p envs project_id featured =
     (case featured of
        None \<Rightarrow>
          El ''div''
            [para ''No deployments yet'',
             para ''Push to your connected repository to trigger the first deployment.'']
      | Some d \<Rightarrow>
          El ''div''
            [El ''h3'' [Txt (if production_env envs = None then ''Latest Deployment''
                             else ''Production Deployment'')],
             Lnk (deploy_path project_id (dp_id d)) [Txt ''View Details''],
             status_badge (deploy_status_text (dp_status d)),
             El ''span'' [Txt (env_name envs (dp_env_id d) ''Unknown'')],
             (if truthy_opt (dp_url d) then url_link (the (dp_url d)) else para ''No URL assigned''),
             given (pj_production_url p) (\<lambda>u. when_view (dp_url d \<noteq> Some u) (url_link u)),
             para (ago am (dp_created_at d)),
             para (format_date (am_locale am) (Some (dp_created_at d)))])"

definition stats_cards :: "(tab \<Rightarrow> 'e) \<Rightarrow> project_stats \<Rightarrow> 'e view" where
  "stats_cards navigate st =
     El ''div''
       [Btn False (Some (navigate Deploys))
          [para ''Total Deploys'', para (show_int (ps_deploys st)),
           when_view (0 < ps_failed st) (para (show_int (ps_failed st) @ '' failed''))],
        Btn False (Some (navigate Builds))
          [para ''Total Builds'', para (show_int (ps_builds st))],
        El ''div''
          [para ''Success Rate'',
           para (if 0 < ps_builds st then show_int (ps_success_rate st) @ ''%'' else mdash)],
        El ''div'' [para ''Avg Build Time'', para (ps_avg_build_time st)]]"

definition activity_chart :: "activity_bucket list \<Rightarrow> 'e view" where
  "activity_chart buckets =
     El ''div''
       [El ''h3'' [Txt ''Deploy Activity''],
        El ''div'' (map (\<lambda>b. El ''div'' [Txt (plural (ab_count b) ''deploy'')]) buckets),
        El ''span'' (case buckets of [] \<Rightarrow> [] | b # bs \<Rightarrow> [Txt (ab_label b)]),
        El ''span'' [Txt ''Today'']]"

definition activity_feed ::
  "(tab \<Rightarrow> 'e) \<Rightarrow> ambient \<Rightarrow> environment list \<Rightarrow> string \<Rightarrow> deploy list \<Rightarrow> 'e view" where
  "activity_feed navigate am envs project_id recent =
     El ''div''
       [El ''h3'' [Txt ''Recent Activity''],
        Btn False (Some (navigate Deploys)) [Txt ''View all''],
        (if recent = [] then para ''No recent activity''
         else El ''div'' (map (\<lambda>d.
           Lnk (deploy_path project_id (dp_id d))
             [El ''span'' [Txt (env_name envs (dp_env_id d) ''Deploy'')],
              status_badge (deploy_status_text (dp_status d)),
              given (dp_url d) (\<lambda>u. para (no_scheme u)),
              El ''span'' [Txt (ago am (dp_created_at d))]]) recent))]"

definition recent_builds_card :: "(tab \<Rightarrow> 'e) \<Rightarrow> ambient \<Rightarrow> build list \<Rightarrow> 'e view" where
  "recent_builds_card navigate am recent =
     when_view (recent \<noteq> [])
       (El ''div''
         [El ''h3'' [Txt ''Recent Builds''],
          Btn False (Some (navigate Builds)) [Txt ''View all''],
          El ''div'' (map (\<lambda>b.
            El ''div''
              [status_badge (bd_status b),
               El ''span'' [Txt (take 8 (bd_commit_sha b))],
               given (bd_branch b) (\<lambda>br. El ''span'' [Txt br]),
               when_view (truthy (bd_trigger b))
                 (El ''span'' [Txt (if bd_trigger b = ''pull_request'' then ''PR'' else bd_trigger b)]),
               para (if truthy_opt (bd_started_at b) then ago am (the (bd_started_at b)) else mdash),
               given (bd_started_at b) (\<lambda>st. given (bd_finished_at b) (\<lambda>fin.
                 para (duration am st fin)))]) recent)])"

definition environments_card ::
  "(tab \<Rightarrow> 'e) \<Rightarrow> environment list \<Rightarrow> deploy list \<Rightarrow> 'e view" where
  "environments_card navigate envs deploys =
     when_view (envs \<noteq> [])
       (El ''div''
         [El ''h3'' [Txt ''Environments''],
          Btn False (Some (navigate Environments)) [Txt ''Manage''],
          El ''div'' (map (\<lambda>env.
            let env_deploys = filter (\<lambda>d. dp_env_id d = ev_id env) deploys;
                active = find (\<lambda>d. running (dp_status d)) env_deploys
            in El ''div''
              [El (if active = None then ''dot.idle'' else ''dot.live'') [],
               El ''span'' [Txt (ev_name env)],
               El ''span'' [Txt (env_type_text (ev_type env))],
               El ''p'' [Txt (plural (int (length env_deploys)) ''deploy''),
                 given (Option.bind active dp_url) (\<lambda>u.
                   Frag [Txt ('' '' @ middot @ '' ''), url_link u])]]) envs)])"

text \<open>The tab, with the activity of the last 14 days.\<close>

definition overview_tab ::
  "(tab \<Rightarrow> 'e) \<Rightarrow> ambient \<Rightarrow> (nat \<Rightarrow> string) \<Rightarrow> (nat \<Rightarrow> string) \<Rightarrow> (nat \<Rightarrow> string) \<Rightarrow> project \<Rightarrow>
   deploy list \<Rightarrow> build list \<Rightarrow> environment list \<Rightarrow> string \<Rightarrow> 'e view" where
  "overview_tab navigate am iso_day day_label date_label p deploys builds envs project_id =
     El ''div''
       [featured_card am p envs project_id (featured_deploy envs deploys),
        stats_cards navigate (project_stats am builds deploys),
        activity_chart (activity_data iso_day day_label date_label deploys 14),
        activity_feed navigate am envs project_id (take 5 deploys),
        recent_builds_card navigate am (take 5 builds),
        environments_card navigate envs deploys]"

text \<open>Whatever it is given, the overview only navigates, and its statistics are those of its data.\<close>

lemma overview_tab_offers:
  "offers (overview_tab navigate am iso_day l l' p deploys builds envs project_id) e \<Longrightarrow>
   e \<in> {navigate Deploys, navigate Builds, navigate Environments}"
  by (auto simp: overview_tab_def featured_card_def stats_cards_def activity_chart_def
      activity_feed_def recent_builds_card_def environments_card_def Let_def
      split: option.splits if_splits list.splits)

lemma activity_data_agrees_witness:
  "map plain_bucket (activity_data sample_day (\<lambda>_. ''Mon'') (\<lambda>_. ''Jan 1'') [] 2) =
     get_deploy_activity sample_day [] 2"
proof -
  have "inj_on sample_day {..<2}"
    by (rule inj_onI) (auto simp: sample_day_def less_Suc_eq numeral_2_eq_2)
  from activity_data_agrees [OF this, of _ _ "[]"] show ?thesis by simp
qed

end
