(* ===== verification/ProjectDeploys.thy ===== *)
theory ProjectDeploys
  imports ProjectData
begin

text \<open>
  Two parts of the project page: the banner that connects a repository, and the deploys tab with the
  operations on a deploy. Both call their parent's \<open>onUpdate\<close> (\<open>onConnected\<close>) after an operation;
  that call is the request \<open>NotifyParent\<close>, for which the container begins a fetch.
\<close>

section \<open>Repository banner\<close>

record banner =
  bn_show_picker :: bool
  bn_repos :: "github_repo list"
  bn_loading_repos :: bool
  bn_connecting :: bool
  bn_error :: json
  bn_search :: string

definition banner_initial :: banner where
  "banner_initial =
     \<lparr>bn_show_picker = False, bn_repos = [], bn_loading_repos = False, bn_connecting = False,
      bn_error = JStr [], bn_search = []\<rparr>"

datatype banner_event = OpenPicker | ClosePicker | SetRepoSearch string | ConnectTo github_repo

datatype banner_cmd = ListRepos | ConnectRepo connect_repo_request | NotifyConnected

datatype banner_reply = ReposReply "github_repo list outcome" | ConnectReply "project outcome" | Notified

definition load_repos :: "banner \<Rightarrow> banner \<times> banner_cmd list" where
  "load_repos s = (s\<lparr>bn_loading_repos := True, bn_error := JStr []\<rparr>, [ListRepos])"

definition handle_connect :: "github_repo \<Rightarrow> banner \<Rightarrow> banner \<times> banner_cmd list" where
  "handle_connect r s =
     (s\<lparr>bn_connecting := True, bn_error := JStr []\<rparr>,
      [ConnectRepo \<lparr>cr_install_id = Undefined, cr_repo_id = gr_id r, cr_repo_full_name = gr_full_name r,
         cr_default_branch = gr_default_branch r\<rparr>])"

fun banner_handle :: "banner_event \<Rightarrow> banner \<Rightarrow> banner \<times> banner_cmd list" where
  "banner_handle OpenPicker s = load_repos (s\<lparr>bn_show_picker := True\<rparr>)"
| "banner_handle ClosePicker s = (s\<lparr>bn_show_picker := False\<rparr>, [])"
| "banner_handle (SetRepoSearch v) s = (s\<lparr>bn_search := v\<rparr>, [])"
| "banner_handle (ConnectTo r) s = handle_connect r s"

fun banner_resume :: "banner_cmd \<Rightarrow> banner_reply \<Rightarrow> banner \<Rightarrow> banner \<times> banner_cmd list" where
  "banner_resume ListRepos (ReposReply (Inr rs)) s = (s\<lparr>bn_repos := rs, bn_loading_repos := False\<rparr>, [])"
| "banner_resume ListRepos (ReposReply (Inl e)) s =
     (s\<lparr>bn_error := detail_or ''Failed to load GitHub repos'' e, bn_loading_repos := False\<rparr>, [])"
| "banner_resume (ConnectRepo b) (ConnectReply (Inr p)) s =
     (s\<lparr>bn_show_picker := False, bn_connecting := False\<rparr>, [NotifyConnected])"
| "banner_resume (ConnectRepo b) (ConnectReply (Inl e)) s =
     (s\<lparr>bn_error := detail_or ''Failed to connect repository'' e, bn_connecting := False\<rparr>, [])"
| "banner_resume c r s = (s, [])"

text \<open>\<open>s.includes(t)\<close>\<close>

fun has_text :: "string \<Rightarrow> string \<Rightarrow> bool" where
  "has_text [] t = (t = [])"
| "has_text (c # cs) t = (starts_with (c # cs) t \<or> has_text cs t)"

definition filtered_repos :: "banner \<Rightarrow> github_repo list" where
  "filtered_repos s =
     filter (\<lambda>r. has_text (to_lower (gr_full_name r)) (to_lower (bn_search s))) (bn_repos s)"

definition repo_button :: "banner \<Rightarrow> github_repo \<Rightarrow> banner_event view" where
  "repo_button s r =
     Btn (bn_connecting s) (Some (ConnectTo r))
       [para (gr_full_name r), given (gr_description r) para,
        when_view (gr_private r) (El ''span'' [Txt ''private'']),
        El ''span'' [Txt (gr_default_branch r)]]"

definition banner_view :: "banner \<Rightarrow> banner_event view" where
  "banner_view s =
     (if \<not> bn_show_picker s
      then El ''div''
        [para ''Connect a GitHub repository to enable automatic builds and deploys.'',
         Btn False (Some OpenPicker) [Txt ''Connect repository'']]
      else El ''div''
        [El ''h3'' [Txt ''Select a repository''], Btn False (Some ClosePicker) [Txt ''Cancel''],
         json_error (bn_error s),
         (if bn_loading_repos s then para ''Loading repositories...''
          else Frag
            [Inp ''text'' (bn_search s) ''Search repositories...'' SetRepoSearch,
             (if filtered_repos s = []
              then para (if bn_repos s = []
                then ''No repositories found. Connect your GitHub account in Settings first.''
                else ''No matching repositories.'')
              else El ''div'' (map (repo_button s) (filtered_repos s)))])])"

lemma includes_iff: "has_text s t \<longleftrightarrow> (\<exists>xs ys. s = xs @ t @ ys)"
proof (induction s)
  case (Cons c cs)
  have "starts_with (c # cs) t \<longleftrightarrow> (\<exists>ys. c # cs = t @ ys)"
    by (simp add: starts_with_iff)
  moreover have "(\<exists>xs ys. c # cs = xs @ t @ ys) \<longleftrightarrow>
      (\<exists>ys. c # cs = t @ ys) \<or> (\<exists>xs ys. cs = xs @ t @ ys)"
    by (auto simp: Cons_eq_append_conv)
  ultimately show ?case using Cons.IH by auto
qed auto

text \<open>Connecting is on offer for exactly the listed repositories whose name has the search text.\<close>

lemma banner_connect_offers:
  "offers (banner_view s) (ConnectTo r) \<longleftrightarrow>
     bn_show_picker s \<and> \<not> bn_loading_repos s \<and> \<not> bn_connecting s \<and> r \<in> set (bn_repos s) \<and>
     has_text (to_lower (gr_full_name r)) (to_lower (bn_search s))"
  by (auto simp: banner_view_def repo_button_def filtered_repos_def para_def filter_empty_conv)

section \<open>Deploys tab\<close>

datatype deploy_op = Op_rollback | Op_stop | Op_start | Op_promote | Op_destroy

record deploys_tab =
  tb_rolling :: "string option"
  tb_stopping :: "string option"
  tb_starting :: "string option"
  tb_promoting :: "string option"
  tb_destroy_target :: "deploy option"
  tb_destroying :: bool
  tb_error :: json

definition deploys_initial :: deploys_tab where
  "deploys_initial =
     \<lparr>tb_rolling = None, tb_stopping = None, tb_starting = None, tb_promoting = None,
      tb_destroy_target = None, tb_destroying = False, tb_error = JStr []\<rparr>"

datatype deploys_cmd = DeployCall deploy_op string | NotifyParent

definition handle_rollback :: "string \<Rightarrow> deploys_tab \<Rightarrow> deploys_tab \<times> deploys_cmd list" where
  "handle_rollback i s =
     (if truthy_opt (tb_rolling s) then (s, [])
      else (s\<lparr>tb_rolling := Some i, tb_error := JStr []\<rparr>, [DeployCall Op_rollback i]))"

definition handle_stop :: "string \<Rightarrow> deploys_tab \<Rightarrow> deploys_tab \<times> deploys_cmd list" where
  "handle_stop i s =
     (if truthy_opt (tb_stopping s) then (s, [])
      else (s\<lparr>tb_stopping := Some i, tb_error := JStr []\<rparr>, [DeployCall Op_stop i]))"

definition handle_start :: "string \<Rightarrow> deploys_tab \<Rightarrow> deploys_tab \<times> deploys_cmd list" where
  "handle_start i s =
     (if truthy_opt (tb_starting s) then (s, [])
      else (s\<lparr>tb_starting := Some i, tb_error := JStr []\<rparr>, [DeployCall Op_start i]))"

definition handle_promote :: "string \<Rightarrow> deploys_tab \<Rightarrow> deploys_tab \<times> deploys_cmd list" where
  "handle_promote i s =
     (if truthy_opt (tb_promoting s) then (s, [])
      else (s\<lparr>tb_promoting := Some i, tb_error := JStr []\<rparr>, [DeployCall Op_promote i]))"

definition handle_destroy :: "deploys_tab \<Rightarrow> deploys_tab \<times> deploys_cmd list" where
  "handle_destroy s =
     (case tb_destroy_target s of
        None \<Rightarrow> (s, [])
      | Some d \<Rightarrow>
          if tb_destroying s then (s, [])
          else (s\<lparr>tb_destroying := True, tb_error := JStr []\<rparr>, [DeployCall Op_destroy (dp_id d)]))"

text \<open>The answer: an \<open>ApiError\<close> is shown, any other failure is not; the flag is reset in both cases.\<close>

definition operation_failed :: "js_exn \<Rightarrow> deploys_tab \<Rightarrow> deploys_tab" where
  "operation_failed e s = (case e of ApiErr st d \<Rightarrow> s\<lparr>tb_error := d\<rparr> | _ \<Rightarrow> s)"

fun operation_done :: "deploy_op \<Rightarrow> deploys_tab \<Rightarrow> deploys_tab" where
  "operation_done Op_rollback s = s\<lparr>tb_rolling := None\<rparr>"
| "operation_done Op_stop s = s\<lparr>tb_stopping := None\<rparr>"
| "operation_done Op_start s = s\<lparr>tb_starting := None\<rparr>"
| "operation_done Op_promote s = s\<lparr>tb_promoting := None\<rparr>"
| "operation_done Op_destroy s = s\<lparr>tb_destroying := False\<rparr>"

fun deploys_resume :: "deploys_cmd \<Rightarrow> unit outcome \<Rightarrow> deploys_tab \<Rightarrow> deploys_tab \<times> deploys_cmd list" where
  "deploys_resume (DeployCall k i) (Inr u) s =
     (operation_done k (if k = Op_destroy then s\<lparr>tb_destroy_target := None\<rparr> else s), [NotifyParent])"
| "deploys_resume (DeployCall k i) (Inl e) s = (operation_done k (operation_failed e s), [])"
| "deploys_resume NotifyParent r s = (s, [])"

datatype deploys_event =
    Rollback string
  | StopDeploy string
  | StartDeploy string
  | Promote string
  | AskDestroy deploy
  | CancelDestroy
  | ConfirmDestroy

fun deploys_handle :: "deploys_event \<Rightarrow> deploys_tab \<Rightarrow> deploys_tab \<times> deploys_cmd list" where
  "deploys_handle (Rollback i) s = handle_rollback i s"
| "deploys_handle (StopDeploy i) s = handle_stop i s"
| "deploys_handle (StartDeploy i) s = handle_start i s"
| "deploys_handle (Promote i) s = handle_promote i s"
| "deploys_handle (AskDestroy d) s = (s\<lparr>tb_destroy_target := Some d\<rparr>, [])"
| "deploys_handle CancelDestroy s = (s\<lparr>tb_destroy_target := None\<rparr>, [])"
| "deploys_handle ConfirmDestroy s = handle_destroy s"

section \<open>The table\<close>

definition has_container :: "deploy \<Rightarrow> bool" where
  "has_container d = (running (dp_status d) \<or> dp_status d = Superseded)"

definition can_rollback :: "deploy \<Rightarrow> bool" where
  "can_rollback d = (running (dp_status d) \<and> dp_is_production d)"

definition can_promote :: "deploy \<Rightarrow> bool" where
  "can_promote d = (has_container d \<and> \<not> dp_is_production d)"

definition can_destroy :: "deploy \<Rightarrow> bool" where
  "can_destroy d = (dp_status d \<noteq> Rolled_back)"

text \<open>A button that shows a progress text, and is disabled, while the operation runs on its deploy.\<close>

definition op_button ::
  "bool \<Rightarrow> string option \<Rightarrow> deploy \<Rightarrow> deploys_event \<Rightarrow> string \<Rightarrow> string \<Rightarrow> deploys_event view" where
  "op_button can current d e label busy_text =
     when_view can (Btn (current = Some (dp_id d)) (Some e)
       [Txt (if current = Some (dp_id d) then busy_text else label)])"

definition deploy_actions :: "deploys_tab \<Rightarrow> deploy \<Rightarrow> deploys_event view" where
  "deploy_actions s d =
     td [op_button (dp_status d = Stopped) (tb_starting s) d (StartDeploy (dp_id d)) ''Start'' ''Starting...'',
         op_button (can_promote d) (tb_promoting s) d (Promote (dp_id d)) ''Set Main URL'' ''Promoting...'',
         op_button (has_container d) (tb_stopping s) d (StopDeploy (dp_id d)) ''Stop'' ''Stopping...'',
         op_button (can_rollback d) (tb_rolling s) d (Rollback (dp_id d)) ''Rollback'' ''Rolling back...'',
         when_view (can_destroy d) (Btn False (Some (AskDestroy d)) [Txt ''Destroy''])]"

definition deploy_cells :: "ambient \<Rightarrow> project \<Rightarrow> environment list \<Rightarrow> string \<Rightarrow> deploy \<Rightarrow> 'e view list" where
  "deploy_cells am p envs project_id d =
     [td [Lnk (''/dashboard/'' @ project_id @ ''/deploys/'' @ dp_id d)
            [status_badge (deploy_status_text (dp_status d))],
          when_view (dp_is_production d) (El ''span'' [Txt ''main''])],
      td [if truthy_opt (dp_commit_sha d) then El ''code'' [Txt (take 7 (the (dp_commit_sha d)))]
          else Txt mdash],
      td [Txt (env_name envs (dp_env_id d) (take 8 (dp_env_id d)))],
      td [if truthy_opt (dp_url d)
          then Frag [url_link (the (dp_url d)),
            when_view (dp_is_production d) (given (pj_production_url p) url_link)]
          else Txt mdash],
      td [Txt (ago am (dp_created_at d))]]"

definition deploys_table ::
  "ambient \<Rightarrow> project \<Rightarrow> environment list \<Rightarrow> string \<Rightarrow> deploy list \<Rightarrow> deploys_tab \<Rightarrow> deploys_event view" where
  "deploys_table am p envs project_id deploys s =
     data_table [''Status'', ''Build'', ''Environment'', ''URLs'', ''Created'', ''Actions'']
       (map (\<lambda>d. El ''tr'' (deploy_cells am p envs project_id d @ [deploy_actions s d])) deploys)"

definition production_banner :: "project \<Rightarrow> 'e view" where
  "production_banner p =
     given (pj_production_url p) (\<lambda>u.
       El ''div'' [para ''Production URL'', url_link u,
         El ''span'' [Txt ''Always points to active deploy'']])"

definition destroy_dialog :: "deploys_tab \<Rightarrow> deploys_event view" where
  "destroy_dialog s =
     confirm_modal (tb_destroy_target s \<noteq> None) CancelDestroy ConfirmDestroy
       \<lparr>cp_title = ''Destroy deployment'',
        cp_description = Some (''Permanently destroy this deployment? This will stop and remove the container, Nginx routing, and DNS entry. The deploy will be marked as rolled back.'' @
          (if map_option dp_status (tb_destroy_target s) = Some Active
           then '' WARNING: This is the active production deploy '' @ mdash @
             '' the production URL will stop working.''
           else [])),
        cp_confirm_label = Some ''Destroy'', cp_cancel_label = None, cp_loading = tb_destroying s\<rparr>"

definition deploys_view ::
  "ambient \<Rightarrow> project \<Rightarrow> environment list \<Rightarrow> string \<Rightarrow> deploy list \<Rightarrow> deploys_tab \<Rightarrow> deploys_event view" where
  "deploys_view am p envs project_id deploys s =
     (if deploys = []
      then para ''No deploys yet. Push to your connected repo to trigger a deploy.''
      else El ''div''
        [production_banner p, json_error (tb_error s),
         deploys_table am p envs project_id deploys s, destroy_dialog s])"

section \<open>What is on offer\<close>

lemma offers_op_button [simp]:
  "offers (op_button can current d x label busy_text) e \<longleftrightarrow> can \<and> current \<noteq> Some (dp_id d) \<and> e = x"
  by (auto simp: op_button_def)

lemma offers_deploy_cells [simp]: "v \<in> set (deploy_cells am p envs project_id d) \<Longrightarrow> \<not> offers v e"
  by (auto simp: deploy_cells_def split: if_splits)

lemma offers_deploys_table:
  "offers (deploys_table am p envs project_id deploys s) e \<longleftrightarrow>
     (\<exists>d \<in> set deploys. offers (deploy_actions s d) e)"
  by (auto simp: deploys_table_def)

lemma offers_production_banner [simp]: "\<not> offers (production_banner p) e"
  by (simp add: production_banner_def)

lemma offers_deploys_view:
  "offers (deploys_view am p envs project_id deploys s) e \<longleftrightarrow>
     (\<exists>d \<in> set deploys. offers (deploy_actions s d) e) \<or>
     deploys \<noteq> [] \<and> tb_destroy_target s \<noteq> None \<and> \<not> tb_destroying s \<and>
       (e = CancelDestroy \<or> e = ConfirmDestroy)"
  by (auto simp: deploys_view_def offers_deploys_table destroy_dialog_def)

section \<open>What the API permits\<close>

text \<open>
  A deploy as the API (\<open>src/api/app/routers/deploys.py\<close>) stores it, with the two columns that its checks
  read and its response leaves out or gives as a text; the production deploy of a project, the latest
  promoted of its active deploys; and the response, which says whether the deploy is that one.
\<close>

record deploy_row = deploy +
  dr_container_node :: "string option"
  dr_promoted :: "nat option"

definition production_deploy_id :: "deploy_row list \<Rightarrow> string option" where
  "production_deploy_id rows =
     (case sort_key (\<lambda>r. case dr_promoted r of Some t \<Rightarrow> - int (t + 1) | None \<Rightarrow> 0)
             (filter (\<lambda>r. dp_status r = Active) rows) of
        [] \<Rightarrow> None
      | r # _ \<Rightarrow> Some (dp_id r))"

definition deploy_to_response :: "string option \<Rightarrow> deploy_row \<Rightarrow> deploy" where
  "deploy_to_response production r =
     (deploy.truncate r)\<lparr>dp_is_production := (production = Some (dp_id r))\<rparr>"

definition MAX_RUNNING_PER_PROJECT :: nat where
  "MAX_RUNNING_PER_PROJECT = 3"

definition count_running_deploys :: "deploy_row list \<Rightarrow> nat" where
  "count_running_deploys rows =
     length (filter (\<lambda>r. (dp_status r = Active \<or> dp_status r = Superseded) \<and>
       dp_container_vmid r \<noteq> None) rows)"

definition container_room :: "deploy_row list \<Rightarrow> bool" where
  "container_room rows = (\<not> MAX_RUNNING_PER_PROJECT \<le> count_running_deploys rows)"

definition stored_vmid :: "deploy_row \<Rightarrow> bool" where
  "stored_vmid r = (case dp_container_vmid r of Some n \<Rightarrow> n \<noteq> 0 | None \<Rightarrow> False)"

text \<open>
  The checks on the stored deploys that come before each operation, for a user who may perform it; where
  one fails the answer is 409. \<open>rows\<close> are the deploys of the project. What the host of the containers
  answers to a stop or a start is not among them.
\<close>

definition rollback_permitted :: "'a deploy_scheme \<Rightarrow> bool" where
  "rollback_permitted r = (dp_status r = Active)"

definition promote_permitted :: "deploy_row list \<Rightarrow> deploy_row \<Rightarrow> bool" where
  "promote_permitted rows r =
     ((dp_status r = Active \<or> dp_status r = Superseded) \<and>
      truthy_opt (dp_container_ip r) \<and> stored_vmid r \<and>
      production_deploy_id rows \<noteq> Some (dp_id r))"

definition destroy_permitted :: "deploy_row \<Rightarrow> bool" where
  "destroy_permitted r = (dp_status r \<noteq> Rolled_back)"

definition stop_permitted :: "deploy_row \<Rightarrow> bool" where
  "stop_permitted r = (dp_status r = Active \<or> dp_status r = Superseded)"

definition start_permitted :: "deploy_row list \<Rightarrow> deploy_row \<Rightarrow> bool" where
  "start_permitted rows r =
     (dp_status r = Stopped \<and> container_room rows \<and>
      stored_vmid r \<and> truthy_opt (dr_container_node r))"

lemma production_deploy_active:
  assumes "production_deploy_id rows = Some (dp_id r)" and "r \<in> set rows" and "distinct (map dp_id rows)"
  shows "dp_status r = Active"
proof -
  let ?as = "sort_key (\<lambda>r. case dr_promoted r of Some t \<Rightarrow> - int (t + 1) | None \<Rightarrow> 0)
    (filter (\<lambda>r. dp_status r = Active) rows)"
  obtain x xs where as: "?as = x # xs" and x: "dp_id x = dp_id r"
    using assms(1) by (auto simp: production_deploy_id_def split: list.splits)
  have "x \<in> set ?as" unfolding as by simp
  then have "x \<in> set rows" and "dp_status x = Active" by simp_all
  then show ?thesis using x assms(2,3) by (metis distinct_map inj_on_eq_iff)
qed

lemma deploy_to_response_fields [simp]:
  "dp_id (deploy_to_response q r) = dp_id r" "dp_status (deploy_to_response q r) = dp_status r"
  "dp_is_production (deploy_to_response q r) = (q = Some (dp_id r))"
  by (simp_all add: deploy_to_response_def deploy.truncate_def)


section \<open>One operation of a kind at a time\<close>

fun op_busy :: "deploy_op \<Rightarrow> deploys_tab \<Rightarrow> bool" where
  "op_busy Op_rollback s = truthy_opt (tb_rolling s)"
| "op_busy Op_stop s = truthy_opt (tb_stopping s)"
| "op_busy Op_start s = truthy_opt (tb_starting s)"
| "op_busy Op_promote s = truthy_opt (tb_promoting s)"
| "op_busy Op_destroy s = tb_destroying s"

fun is_op :: "deploy_op \<Rightarrow> deploys_cmd \<Rightarrow> bool" where
  "is_op k (DeployCall k' i) = (k = k')"
| "is_op k NotifyParent = False"

text \<open>
  The parent may pass other deploys at any time (their ids are not empty), and the Escape key and
  the backdrop close the dialog even while the deploy is being destroyed.
\<close>

definition deploys_offered :: "ambient \<Rightarrow> string \<Rightarrow> deploys_tab \<Rightarrow> deploys_event \<Rightarrow> bool" where
  "deploys_offered am project_id s e =
     ((\<exists>p envs deploys. (\<forall>d \<in> set deploys. dp_id d \<noteq> []) \<and>
         offers (deploys_view am p envs project_id deploys s) e) \<or>
      e = CancelDestroy \<and> tb_destroy_target s \<noteq> None)"

lemma deploys_offered_ids:
  assumes "deploys_offered am project_id s e"
  shows "e \<in> {Rollback i, StopDeploy i, StartDeploy i, Promote i} \<Longrightarrow> i \<noteq> []"
  using assms by (auto simp: deploys_offered_def offers_deploys_view deploy_actions_def)

lemma operation_failed_fields [simp]:
  "op_busy k (operation_failed e s) = op_busy k s"
  "tb_destroy_target (operation_failed e s) = tb_destroy_target s"
  by (cases k; cases e; simp add: operation_failed_def)+

lemma op_busy_done [simp]: "op_busy k (operation_done k' s) \<longleftrightarrow> k \<noteq> k' \<and> op_busy k s"
  by (cases k; cases k') (auto simp: truthy_opt_def)

lemma op_busy_target [simp]: "op_busy k (s\<lparr>tb_destroy_target := t\<rparr>) = op_busy k s"
  by (cases k) auto

lemma deploys_resume_flags:
  "op_busy k (fst (deploys_resume c r s)) \<longleftrightarrow> op_busy k s \<and> \<not> is_op k c"
  "filter (is_op k) (snd (deploys_resume c r s)) = []"
proof -
  show "op_busy k (fst (deploys_resume c r s)) \<longleftrightarrow> op_busy k s \<and> \<not> is_op k c"
  proof (cases c)
    case (DeployCall k' i)
    have "op_busy k (if b then s\<lparr>tb_destroy_target := None\<rparr> else s) = op_busy k s" for b
      by simp
    then show ?thesis unfolding DeployCall by (cases r) auto
  qed simp
  show "filter (is_op k) (snd (deploys_resume c r s)) = []"
    by (cases c; cases r) simp_all
qed

lemma deploys_handle_flags:
  assumes "deploys_offered am project_id s e" and "deploys_handle e s = (s', cs)"
  shows "of_bool (op_busy k s') = of_bool (op_busy k s) + length (filter (is_op k) cs)"
  using assms(2) deploys_offered_ids [OF assms(1)]
  by (cases e; cases k) (auto simp: handle_rollback_def handle_stop_def handle_start_def
      handle_promote_def handle_destroy_def truthy_opt_def truthy_def split: if_splits option.splits)

interpretation deploy_ops: saving_page "deploys_offered am project_id" deploys_handle deploys_resume
  "\<lambda>c r. True" "(deploys_initial, [])" "op_busy k" "\<lambda>s. False" "is_op k" "\<lambda>c. False"
  for am project_id k
proof unfold_locales
  show "length (filter (is_op k) (snd (deploys_initial, []))) =
      of_bool (op_busy k (fst (deploys_initial, [])))"
    by (cases k) (simp_all add: deploys_initial_def truthy_opt_def)
next
  fix s e s' cs
  assume "deploys_offered am project_id s e" and "deploys_handle e s = (s', cs)"
  then show "of_bool (op_busy k s') = of_bool (op_busy k s) + length (filter (is_op k) cs)"
    by (rule deploys_handle_flags)
next
  fix c :: deploys_cmd and r s s' cs
  assume r: "deploys_resume c r s = (s', cs)" and c: "is_op k c \<longrightarrow> op_busy k s"
  show "of_bool (op_busy k s') + of_bool (is_op k c) =
      of_bool (op_busy k s) + length (filter (is_op k) cs)"
    using deploys_resume_flags [of k c r s] c by (auto simp: r)
qed simp_all

text \<open>
  Whatever deploys the parent passes meanwhile, the deploys tab never has two operations of the
  same kind in flight, and with none in flight none of its buttons shows one as running.
\<close>

lemma deploys_single_operation:
  assumes "(wstep (deploys_offered am project_id) deploys_handle deploys_resume (\<lambda>c r. True))\<^sup>*\<^sup>*
      (deploys_initial, []) (s, fl)"
  shows "length (filter (is_op k) fl) \<le> 1 \<and> (fl = [] \<longrightarrow> \<not> op_busy k s)"
  using deploy_ops.single_save [OF assms, of k] by blast

definition sample_row :: "string \<Rightarrow> deploy_status \<Rightarrow> deploy_row" where
  "sample_row i st = deploy.extend ((sample_deploy st)\<lparr>dp_id := i, dp_container_vmid := Some 101,
       dp_container_ip := Some ''10.0.0.5''\<rparr>)
     \<lparr>dr_container_node = Some ''pve1'', dr_promoted = Some 5\<rparr>"


lemma deploys_single_operation_witness:
  "\<exists>s. (wstep (deploys_offered sample_ambient ''p1'') deploys_handle deploys_resume (\<lambda>c r. True))\<^sup>*\<^sup>*
      (deploys_initial, []) (s, [DeployCall Op_stop ''d1'']) \<and>
     length (filter (is_op Op_stop) [DeployCall Op_stop ''d1'']) \<le> 1"
proof -
  let ?as = "[Inl (StopDeploy ''d1'')] :: (deploys_event + nat \<times> unit outcome) list"
  have "offers (deploys_view sample_ambient sample_project [] ''p1'' [sample_deploy Active] deploys_initial)
      (StopDeploy ''d1'')"
    by (simp add: offers_deploys_view deploy_actions_def sample_deploy_def has_container_def
        running_def deploys_initial_def)
  then have "deploys_offered sample_ambient ''p1'' deploys_initial (StopDeploy ''d1'')"
    unfolding deploys_offered_def
    by (intro disjI1 exI [of _ sample_project] exI [of _ "[]"] exI [of _ "[sample_deploy Active]"])
       (simp add: sample_deploy_def)
  then have "playable (deploys_offered sample_ambient ''p1'') deploys_handle deploys_resume (\<lambda>c r. True)
      ?as (deploys_initial, [])"
    by (simp add: handle_stop_def deploys_initial_def truthy_opt_def)
  from run_script_reaches [OF this]
  obtain s where r: "(wstep (deploys_offered sample_ambient ''p1'') deploys_handle deploys_resume
      (\<lambda>c r. True))\<^sup>*\<^sup>* (deploys_initial, []) (s, [DeployCall Op_stop ''d1''])"
    by (simp add: handle_stop_def deploys_initial_def truthy_opt_def)
  from deploys_single_operation [OF r, of Op_stop] r show ?thesis by blast
qed

end
