(* ===== verification/ProjectBuilds.thy ===== *)
theory ProjectBuilds
  imports ProjectData LogStream
begin

text \<open>
  The builds tab of the project page: the table of builds, and the viewer of a build's logs with its
  two log streams (the hook of \<open>LogStream\<close>, used twice): one for the logs of the viewed build while
  it runs, one for a deploy under way. The effects run when a render is committed; a commit is an
  event of its own, so that answers and messages may come between an update and its commit.
\<close>

section \<open>State\<close>

text \<open>The values that the effects depend on.\<close>

record builds_deps =
  bp_build_url :: "string option"
  bp_viewing :: "string option"
  bp_deploy_url :: "string option"
  bp_linked :: "string option"
  bp_streaming :: bool

record builds_tab =
  bt_builds :: "build list"                      \<comment> \<open>the builds of the last render\<close>
  bt_viewing :: "string option"
  bt_rest_logs :: "build_logs_response option"
  bt_loading_logs :: bool
  bt_rebuilding :: bool
  bt_rebuild_error :: json
  bt_deploying :: "string option"
  bt_deploy_error :: json
  bt_deploy_logs :: "deploy_logs_response option"
  bt_linked :: "string option"                   \<comment> \<open>\<open>linkedDeployId\<close>\<close>
  bt_build_stream :: stream_hook
  bt_deploy_stream :: stream_hook
  bt_committed :: "builds_deps option"           \<comment> \<open>of the last commit\<close>

definition builds_initial :: "build list \<Rightarrow> builds_tab" where
  "builds_initial builds =
     \<lparr>bt_builds = builds, bt_viewing = None, bt_rest_logs = None, bt_loading_logs = False,
      bt_rebuilding = False, bt_rebuild_error = JStr [], bt_deploying = None,
      bt_deploy_error = JStr [], bt_deploy_logs = None, bt_linked = None,
      bt_build_stream = hook_initial, bt_deploy_stream = hook_initial, bt_committed = None\<rparr>"

section \<open>The build on view\<close>

definition build_running :: "build \<Rightarrow> bool" where
  "build_running b = (bd_status b = ''building'' \<or> bd_status b = ''queued'')"

definition viewed_build :: "builds_tab \<Rightarrow> build option" where
  "viewed_build s =
     (if truthy_opt (bt_viewing s) then find (\<lambda>b. Some (bd_id b) = bt_viewing s) (bt_builds s) else None)"

definition viewed_running :: "builds_tab \<Rightarrow> bool" where
  "viewed_running s = (case viewed_build s of None \<Rightarrow> False | Some b \<Rightarrow> build_running b)"

definition build_stream_url :: "string option \<Rightarrow> string \<Rightarrow> builds_tab \<Rightarrow> string option" where
  "build_stream_url api project_id s =
     (if \<not> truthy_opt (bt_viewing s) \<or> \<not> viewed_running s then None
      else Some (builds_logs_stream_url api project_id (the (bt_viewing s))))"

definition deploy_stream_url :: "string option \<Rightarrow> string \<Rightarrow> builds_tab \<Rightarrow> string option" where
  "deploy_stream_url api project_id s =
     (if \<not> truthy_opt (bt_linked s) then None
      else Some (deploys_logs_stream_url api project_id (the (bt_linked s))))"

definition display_build_logs :: "builds_tab \<Rightarrow> string option" where
  "display_build_logs s =
     (let rest = Option.bind (bt_rest_logs s) bl_logs
      in if viewed_running s
         then case lg_logs (sh_state (bt_build_stream s)) of Some l \<Rightarrow> Some l | None \<Rightarrow> rest
         else rest)"

definition display_deploy_logs :: "builds_tab \<Rightarrow> string option" where
  "display_deploy_logs s =
     (case lg_logs (sh_state (bt_deploy_stream s)) of
        Some l \<Rightarrow> Some l
      | None \<Rightarrow> Option.bind (bt_deploy_logs s) dl_logs)"

section \<open>Operations\<close>

datatype builds_cmd =
    FetchBuildLogs string
  | TriggerBuild
  | DeployBuild string string
  | ListDeploysFor string
  | FetchDeployLogs string
  | NotifyBuilds

datatype builds_reply =
    BuildLogsReply "build_logs_response outcome"
  | OperationReply "unit outcome"
  | DeploysReply "deploy_list_response outcome"
  | DeployLogsReply "deploy_logs_response outcome"

definition close_viewer :: "builds_tab \<Rightarrow> builds_tab" where
  "close_viewer s =
     s\<lparr>bt_viewing := None, bt_rest_logs := None, bt_linked := None, bt_deploy_logs := None\<rparr>"

definition handle_view_logs :: "string \<Rightarrow> builds_tab \<Rightarrow> builds_tab \<times> builds_cmd list" where
  "handle_view_logs i s =
     (if bt_viewing s = Some i then (close_viewer s, [])
      else (s\<lparr>bt_viewing := Some i, bt_loading_logs := True\<rparr>, [FetchBuildLogs i]))"

definition handle_rebuild :: "builds_tab \<Rightarrow> builds_tab \<times> builds_cmd list" where
  "handle_rebuild s = (s\<lparr>bt_rebuilding := True, bt_rebuild_error := JStr []\<rparr>, [TriggerBuild])"

definition handle_deploy_build :: "project \<Rightarrow> string \<Rightarrow> builds_tab \<Rightarrow> builds_tab \<times> builds_cmd list" where
  "handle_deploy_build p i s =
     (s\<lparr>bt_deploying := Some i, bt_deploy_error := JStr []\<rparr>, [DeployBuild i (pj_default_env p)])"

text \<open>The statuses of a deploy that is not in progress, for the deploy shown beside the build.\<close>

definition settled_statuses :: "deploy_status list" where
  "settled_statuses = [Active, Stopped, Failed, Rolled_back, Superseded]"

definition link_deploy :: "deploy_list_response \<Rightarrow> builds_tab \<Rightarrow> builds_tab" where
  "link_deploy res s =
     (case find (\<lambda>d. dp_status d \<notin> set settled_statuses) (ls_items res) of
        None \<Rightarrow> s
      | Some d \<Rightarrow> s\<lparr>bt_linked := Some (dp_id d)\<rparr>)"

fun builds_resume :: "builds_cmd \<Rightarrow> builds_reply \<Rightarrow> builds_tab \<Rightarrow> builds_tab \<times> builds_cmd list" where
  "builds_resume (FetchBuildLogs i) (BuildLogsReply (Inr d)) s =
     (s\<lparr>bt_rest_logs := Some d, bt_loading_logs := False\<rparr>, [])"
| "builds_resume (FetchBuildLogs i) (BuildLogsReply (Inl e)) s =
     (s\<lparr>bt_rest_logs := None, bt_loading_logs := False\<rparr>, [])"
| "builds_resume TriggerBuild (OperationReply (Inr u)) s = (s\<lparr>bt_rebuilding := False\<rparr>, [NotifyBuilds])"
| "builds_resume TriggerBuild (OperationReply (Inl e)) s =
     (s\<lparr>bt_rebuild_error := detail_or ''Failed to trigger rebuild'' e, bt_rebuilding := False\<rparr>, [])"
| "builds_resume (DeployBuild i env) (OperationReply (Inr u)) s =
     (s\<lparr>bt_deploying := None\<rparr>, [NotifyBuilds])"
| "builds_resume (DeployBuild i env) (OperationReply (Inl e)) s =
     (s\<lparr>bt_deploy_error := detail_or ''Failed to trigger deploy'' e, bt_deploying := None\<rparr>, [])"
| "builds_resume (ListDeploysFor i) (DeploysReply (Inr res)) s = (link_deploy res s, [])"
| "builds_resume (FetchDeployLogs i) (DeployLogsReply (Inr res)) s = (s\<lparr>bt_deploy_logs := Some res\<rparr>, [])"
| "builds_resume c r s = (s, [])"

section \<open>Effects\<close>

definition builds_deps :: "string option \<Rightarrow> string \<Rightarrow> builds_tab \<Rightarrow> builds_deps" where
  "builds_deps api project_id s =
     \<lparr>bp_build_url = build_stream_url api project_id s, bp_viewing = bt_viewing s,
      bp_deploy_url = deploy_stream_url api project_id s, bp_linked = bt_linked s,
      bp_streaming = lg_streaming (sh_state (bt_deploy_stream s))\<rparr>"

definition changed :: "(builds_deps \<Rightarrow> 'a) \<Rightarrow> builds_deps option \<Rightarrow> builds_deps \<Rightarrow> bool" where
  "changed f old new = (case old of None \<Rightarrow> True | Some d \<Rightarrow> f d \<noteq> f new)"

definition link_effect :: "builds_deps \<Rightarrow> builds_tab \<Rightarrow> builds_tab \<times> builds_cmd list" where
  "link_effect d s =
     (if \<not> truthy_opt (bp_viewing d) then (s\<lparr>bt_linked := None, bt_deploy_logs := None\<rparr>, [])
      else (s, [ListDeploysFor (the (bp_viewing d))]))"

definition deploy_logs_effect :: "builds_deps \<Rightarrow> builds_cmd list" where
  "deploy_logs_effect d =
     (if \<not> truthy_opt (bp_linked d) \<or> bp_streaming d then [] else [FetchDeployLogs (the (bp_linked d))])"

definition commit :: "string option \<Rightarrow> string \<Rightarrow> string option \<Rightarrow> builds_tab \<Rightarrow> builds_tab \<times> builds_cmd list" where
  "commit api project_id token s =
     (let old = bt_committed s; d = builds_deps api project_id s;
          s = (if changed bp_build_url old d
               then s\<lparr>bt_build_stream := stream_step (Args (bp_build_url d) token) (bt_build_stream s)\<rparr>
               else s);
          (s, cs) = (if changed bp_viewing old d then link_effect d s else (s, []));
          s = (if changed bp_deploy_url old d
               then s\<lparr>bt_deploy_stream := stream_step (Args (bp_deploy_url d) token) (bt_deploy_stream s)\<rparr>
               else s);
          ds = (if changed (\<lambda>d. (bp_linked d, bp_streaming d)) old d then deploy_logs_effect d else [])
      in (s\<lparr>bt_committed := Some d\<rparr>, cs @ ds))"

text \<open>
  The events of the user, a render with new builds, a commit, and what the two connections deliver.
\<close>

datatype builds_event =
    ViewLogs string
  | CloseLogs
  | Rebuild
  | DeployTo string
  | NewBuilds "build list"
  | Commit
  | BuildStream stream_event
  | DeployStream stream_event

fun builds_handle ::
  "string option \<Rightarrow> string \<Rightarrow> string option \<Rightarrow> project \<Rightarrow> builds_event \<Rightarrow> builds_tab \<Rightarrow>
   builds_tab \<times> builds_cmd list" where
  "builds_handle api project_id token p (ViewLogs i) s = handle_view_logs i s"
| "builds_handle api project_id token p CloseLogs s = (close_viewer s, [])"
| "builds_handle api project_id token p Rebuild s = handle_rebuild s"
| "builds_handle api project_id token p (DeployTo i) s = handle_deploy_build p i s"
| "builds_handle api project_id token p (NewBuilds bs) s = (s\<lparr>bt_builds := bs\<rparr>, [])"
| "builds_handle api project_id token p Commit s = commit api project_id token s"
| "builds_handle api project_id token p (BuildStream e) s =
     (s\<lparr>bt_build_stream := stream_step e (bt_build_stream s)\<rparr>, [])"
| "builds_handle api project_id token p (DeployStream e) s =
     (s\<lparr>bt_deploy_stream := stream_step e (bt_deploy_stream s)\<rparr>, [])"

section \<open>View\<close>

definition trigger_text :: "string \<Rightarrow> string" where
  "trigger_text t = (if t = ''pull_request'' then ''PR'' else t)"

definition build_cells :: "ambient \<Rightarrow> build \<Rightarrow> 'e view list" where
  "build_cells am b =
     [td [status_badge (bd_status b)], td [El ''span'' [Txt (trigger_text (bd_trigger b))]],
      td [Txt (take 8 (bd_commit_sha b))], td [Txt (or_text (bd_branch b) mdash)],
      td [Txt (if truthy_opt (bd_started_at b) then ago am (the (bd_started_at b)) else mdash)],
      td [Txt (if truthy_opt (bd_started_at b)
               then if truthy_opt (bd_finished_at b)
                    then duration am (the (bd_started_at b)) (the (bd_finished_at b))
                    else ''running...''
               else mdash)]]"

definition build_actions :: "builds_tab \<Rightarrow> build \<Rightarrow> builds_event view" where
  "build_actions s b =
     td [when_view (bd_status b = ''success'' \<and> truthy_opt (bd_image_ref b))
           (Btn (bt_deploying s = Some (bd_id b)) (Some (DeployTo (bd_id b)))
             [Txt (if bt_deploying s = Some (bd_id b) then ''Deploying...'' else ''Deploy'')]),
         Btn False (Some (ViewLogs (bd_id b)))
           [Txt (if bt_viewing s = Some (bd_id b) then ''Hide'' else ''Logs'')]]"

definition builds_table :: "ambient \<Rightarrow> builds_tab \<Rightarrow> builds_event view" where
  "builds_table am s =
     data_table [''Status'', ''Trigger'', ''Commit'', ''Branch'', ''Started'', ''Duration'', ''Actions'']
       (map (\<lambda>b. El ''tr'' (build_cells am b @ [build_actions s b])) (bt_builds s))"

definition builds_header :: "project \<Rightarrow> builds_tab \<Rightarrow> builds_event view" where
  "builds_header p s =
     El ''div''
       [El ''h3'' [Txt (if bt_builds s = [] then ''No builds yet''
                        else plural (int (length (bt_builds s))) ''build'')],
        when_view (pj_repo p \<noteq> None)
          (Btn (bt_rebuilding s) (Some Rebuild)
            [Txt (if bt_rebuilding s then ''Triggering...'' else ''Rebuild'')])]"

definition build_log_viewer :: "builds_tab \<Rightarrow> builds_event view" where
  "build_log_viewer s =
     when_view (truthy_opt (bt_viewing s))
       (El ''div''
         [El ''h4'' [Txt ''Build Logs''],
          when_view (viewed_running s \<and> lg_streaming (sh_state (bt_build_stream s)))
            (El ''span'' [Txt ''Live'']),
          Btn False (Some CloseLogs) [Txt ''Close''],
          (if bt_loading_logs s then para ''Loading logs...''
           else if truthy_opt (display_build_logs s) then El ''pre'' [Txt (the (display_build_logs s))]
           else para (if viewed_running s then ''Waiting for build output...''
                      else ''No logs available for this build.''))])"

definition deploy_log_viewer :: "string \<Rightarrow> builds_tab \<Rightarrow> builds_event view" where
  "deploy_log_viewer project_id s =
     (let streaming = lg_streaming (sh_state (bt_deploy_stream s))
      in when_view (truthy_opt (bt_viewing s) \<and> truthy_opt (bt_linked s) \<and>
             (truthy_opt (display_deploy_logs s) \<or> streaming))
       (El ''div''
         [El ''h4'' [Txt ''Deploy Logs''], when_view streaming (El ''span'' [Txt ''Live'']),
          Lnk (''/dashboard/'' @ project_id @ ''/deploys/'' @ the (bt_linked s)) [Txt ''View deploy details''],
          (if truthy_opt (display_deploy_logs s) then El ''pre'' [Txt (the (display_deploy_logs s))]
           else para ''Waiting for deploy output...'')]))"

definition builds_view :: "ambient \<Rightarrow> string \<Rightarrow> project \<Rightarrow> builds_tab \<Rightarrow> builds_event view" where
  "builds_view am project_id p s =
     El ''div''
       [builds_header p s, json_error (bt_rebuild_error s), json_error (bt_deploy_error s),
        (if bt_builds s = []
         then para (if pj_repo p \<noteq> None
           then ''No builds yet. Click Rebuild to trigger the first build.''
           else ''No builds yet. Connect a repository to start building.'')
         else builds_table am s),
        build_log_viewer s, deploy_log_viewer project_id s]"

section \<open>The streams follow the view\<close>

text \<open>A commit is due while a dependency differs from the last commit.\<close>

fun builds_offered ::
  "ambient \<Rightarrow> string option \<Rightarrow> string \<Rightarrow> project \<Rightarrow> builds_tab \<Rightarrow> builds_event \<Rightarrow> bool" where
  "builds_offered am api project_id p s (NewBuilds bs) = True"
| "builds_offered am api project_id p s Commit = (bt_committed s \<noteq> Some (builds_deps api project_id s))"
| "builds_offered am api project_id p s (BuildStream e) = is_message e"
| "builds_offered am api project_id p s (DeployStream e) = is_message e"
| "builds_offered am api project_id p s e = offers (builds_view am project_id p s) e"

fun builds_answers :: "builds_cmd \<Rightarrow> builds_reply \<Rightarrow> bool" where
  "builds_answers (FetchBuildLogs i) (BuildLogsReply r) = True"
| "builds_answers TriggerBuild (OperationReply r) = True"
| "builds_answers (DeployBuild i env) (OperationReply r) = True"
| "builds_answers (ListDeploysFor i) (DeploysReply r) = True"
| "builds_answers (FetchDeployLogs i) (DeployLogsReply r) = True"
| "builds_answers NotifyBuilds (OperationReply r) = True"
| "builds_answers c r = False"

abbreviation builds_steps where
  "builds_steps am api project_id token p \<equiv>
     wstep (builds_offered am api project_id p) (builds_handle api project_id token p) builds_resume
       builds_answers"

definition builds_inv :: "string option \<Rightarrow> builds_tab \<Rightarrow> builds_cmd list \<Rightarrow> bool" where
  "builds_inv token s fl =
     (stream_for token (Option.bind (bt_committed s) bp_build_url) (bt_build_stream s) \<and>
      stream_for token (Option.bind (bt_committed s) bp_deploy_url) (bt_deploy_stream s))"

lemma builds_inv_same:
  assumes "builds_inv token s fl" and "bt_committed s' = bt_committed s"
    and "bt_build_stream s' = bt_build_stream s" and "bt_deploy_stream s' = bt_deploy_stream s"
  shows "builds_inv token s' fl'"
  using assms by (simp add: builds_inv_def)

lemma stream_for_changed:
  assumes "stream_for token (Option.bind old f) h"
  shows "stream_for token (f d) (if changed f old d then stream_step (Args (f d) token) h else h)"
  using assms stream_for_args [of h token "f d"]
  by (auto simp: changed_def stream_for_def split: option.splits)

lemma link_effect_streams [simp]:
  "bt_build_stream (fst (link_effect d s)) = bt_build_stream s"
  "bt_deploy_stream (fst (link_effect d s)) = bt_deploy_stream s"
  by (simp_all add: link_effect_def)

lemma builds_inv_commit:
  assumes "builds_inv token s fl" and "commit api project_id token s = (s', cs)"
  shows "builds_inv token s' fl'"
proof -
  let ?old = "bt_committed s" and ?d = "builds_deps api project_id s"
  have "bt_committed s' = Some ?d"
    and "bt_build_stream s' = (if changed bp_build_url ?old ?d
      then stream_step (Args (bp_build_url ?d) token) (bt_build_stream s) else bt_build_stream s)"
    and "bt_deploy_stream s' = (if changed bp_deploy_url ?old ?d
      then stream_step (Args (bp_deploy_url ?d) token) (bt_deploy_stream s) else bt_deploy_stream s)"
    using assms(2) by (auto simp: commit_def Let_def link_effect_def split: if_splits)
  moreover have "stream_for token (Option.bind ?old bp_build_url) (bt_build_stream s)"
    and "stream_for token (Option.bind ?old bp_deploy_url) (bt_deploy_stream s)"
    using assms(1) by (simp_all add: builds_inv_def)
  ultimately show ?thesis
    by (simp only: builds_inv_def bind.simps stream_for_changed)
qed

lemma builds_inv_handle:
  assumes "builds_inv token s fl" and "builds_offered am api project_id p s e"
    and "builds_handle api project_id token p e s = (s', cs)"
  shows "builds_inv token s' fl'"
proof (cases e)
  case Commit
  with assms(1,3) show ?thesis by (simp add: builds_inv_commit)
next
  case (BuildStream m)
  with assms show ?thesis by (auto simp: builds_inv_def intro: stream_for_message)
next
  case (DeployStream m)
  with assms show ?thesis by (auto simp: builds_inv_def intro: stream_for_message)
qed (use assms(1,3) in \<open>auto simp: builds_inv_def handle_view_logs_def close_viewer_def
      handle_rebuild_def handle_deploy_build_def split: if_splits\<close>)

lemma builds_inv_resume:
  assumes "builds_inv token s fl" and "builds_resume c r s = (s', cs)"
  shows "builds_inv token s' fl'"
proof -
  have "bt_committed (fst (builds_resume c r s)) = bt_committed s \<and>
      bt_build_stream (fst (builds_resume c r s)) = bt_build_stream s \<and>
      bt_deploy_stream (fst (builds_resume c r s)) = bt_deploy_stream s"
    by (induction c r s rule: builds_resume.induct) (simp_all add: link_deploy_def split: option.split)
  with assms show ?thesis by (auto intro: builds_inv_same)
qed

interpretation builds_world: world_invariant "builds_offered am api project_id p"
  "builds_handle api project_id token p" builds_resume builds_answers "(builds_initial builds, [])"
  "builds_inv token"
  for am api project_id p token builds
proof unfold_locales
  show "builds_inv token (fst (builds_initial builds, [])) (snd (builds_initial builds, []))"
    by (simp add: builds_inv_def builds_initial_def stream_for_initial)
qed (blast intro: builds_inv_handle builds_inv_resume)+

text \<open>
  C9: once the last update is committed, the build stream is connected only while a build is on view
  that runs, and only to that build's logs; the deploy stream only to the logs of the deploy that is
  linked, which need not be on view (\<open>late_deploy_link\<close>); and each hook has at most one connection.
\<close>

theorem streams_follow_view:
  assumes "(builds_steps am api project_id token p)\<^sup>*\<^sup>* (builds_initial builds, []) (s, fl)"
    and "bt_committed s = Some (builds_deps api project_id s)"
  shows "(sh_open (bt_build_stream s) \<noteq> {} \<longrightarrow>
       (\<exists>i c. bt_viewing s = Some i \<and> viewed_running s \<and> sh_open (bt_build_stream s) = {c} \<and>
          sh_url (bt_build_stream s) = Some (stream_url (builds_logs_stream_url api project_id i) token))) \<and>
    (sh_open (bt_deploy_stream s) \<noteq> {} \<longrightarrow>
       (\<exists>i c. bt_linked s = Some i \<and> sh_open (bt_deploy_stream s) = {c} \<and>
          sh_url (bt_deploy_stream s) = Some (stream_url (deploys_logs_stream_url api project_id i) token)))"
proof -
  have inv: "builds_inv token s fl"
    by (rule builds_world.reach_state_inv [OF assms(1)])
  have urls: "bp_build_url (builds_deps api project_id s) = build_stream_url api project_id s"
    "bp_deploy_url (builds_deps api project_id s) = deploy_stream_url api project_id s"
    by (simp_all add: builds_deps_def)
  have b: "stream_for token (build_stream_url api project_id s) (bt_build_stream s)"
    and d: "stream_for token (deploy_stream_url api project_id s) (bt_deploy_stream s)"
    using inv by (simp_all add: builds_inv_def assms(2) urls)
  show ?thesis
  proof (intro conjI impI)
    assume o: "sh_open (bt_build_stream s) \<noteq> {}"
    from stream_for_url [OF b o] obtain u c where "build_stream_url api project_id s = Some u"
      "sh_open (bt_build_stream s) = {c}" "sh_url (bt_build_stream s) = Some (stream_url u token)"
      by blast
    then show "\<exists>i c. bt_viewing s = Some i \<and> viewed_running s \<and>
        sh_open (bt_build_stream s) = {c} \<and>
        sh_url (bt_build_stream s) = Some (stream_url (builds_logs_stream_url api project_id i) token)"
      by (cases "bt_viewing s") (simp_all add: build_stream_url_def truthy_opt_def split: if_splits)
  next
    assume o: "sh_open (bt_deploy_stream s) \<noteq> {}"
    from stream_for_url [OF d o] obtain u c where "deploy_stream_url api project_id s = Some u"
      "sh_open (bt_deploy_stream s) = {c}" "sh_url (bt_deploy_stream s) = Some (stream_url u token)"
      by blast
    then show "\<exists>i c. bt_linked s = Some i \<and> sh_open (bt_deploy_stream s) = {c} \<and>
        sh_url (bt_deploy_stream s) = Some (stream_url (deploys_logs_stream_url api project_id i) token)"
      by (cases "bt_linked s") (simp_all add: deploy_stream_url_def truthy_opt_def split: if_splits)
  qed
qed

section \<open>Runs of the tab\<close>

lemma offers_view_logs [simp]:
  "i \<in> bd_id ` set (bt_builds s) \<Longrightarrow> offers (builds_view am project_id p s) (ViewLogs i)"
  by (auto simp: builds_view_def builds_table_def build_actions_def)

lemma offers_close_logs: "truthy_opt (bt_viewing s) \<Longrightarrow> offers (builds_view am project_id p s) CloseLogs"
  by (simp add: builds_view_def build_log_viewer_def)

definition sample_logs :: "string \<Rightarrow> string \<Rightarrow> string \<Rightarrow> build_logs_response" where
  "sample_logs i status logs = \<lparr>bl_build_id = i, bl_status = status, bl_logs = Some logs\<rparr>"

definition named_build :: "string \<Rightarrow> string \<Rightarrow> build" where
  "named_build i status = (sample_build status)\<lparr>bd_id := i\<rparr>"

abbreviation sample_builds_steps where
  "sample_builds_steps \<equiv> builds_steps sample_ambient None ''p1'' None sample_project"

abbreviation sample_playable where
  "sample_playable \<equiv> playable (builds_offered sample_ambient None ''p1'' sample_project)
     (builds_handle None ''p1'' None sample_project) builds_resume builds_answers"

abbreviation sample_run where
  "sample_run \<equiv> run_script (builds_handle None ''p1'' None sample_project) builds_resume"

lemma named_build_fields [simp]:
  "bd_id (named_build i st) = i" "bd_status (named_build i st) = st"
  by (simp_all add: named_build_def sample_build_def)

lemma stream_urls_nonempty [simp]:
  "builds_logs_stream_url None p i \<noteq> []" "deploys_logs_stream_url None p i \<noteq> []"
  by (simp_all add: builds_logs_stream_url_def deploys_logs_stream_url_def api_base_def)

lemmas builds_run = builds_initial_def handle_view_logs_def close_viewer_def commit_def
  builds_deps_def changed_def link_effect_def deploy_logs_effect_def build_stream_url_def
  deploy_stream_url_def viewed_running_def viewed_build_def build_running_def truthy_opt_def
  truthy_def link_deploy_def hook_initial_def stream_defs

definition viewing_script :: "(builds_event + nat \<times> builds_reply) list" where
  "viewing_script = [Inl Commit, Inl (ViewLogs ''b1''), Inl Commit]"

lemma viewing_playable:
  "sample_playable viewing_script (builds_initial [named_build ''b1'' ''building''], [])"
  by (simp add: viewing_script_def builds_run)

theorem streams_follow_view_witness:
  "\<exists>s fl c. sample_builds_steps\<^sup>*\<^sup>* (builds_initial [named_build ''b1'' ''building''], []) (s, fl) \<and>
     sh_open (bt_build_stream s) = {c} \<and>
     sh_url (bt_build_stream s) = Some (stream_url (builds_logs_stream_url None ''p1'' ''b1'') None)"
proof -
  let ?w = "(builds_initial [named_build ''b1'' ''building''], [])"
  obtain s fl where sf: "sample_run viewing_script ?w = (s, fl)" by (cases "sample_run viewing_script ?w")
  then have "sample_builds_steps\<^sup>*\<^sup>* ?w (s, fl)"
    using run_script_reaches [OF viewing_playable] by simp
  moreover have "bt_committed s = Some (builds_deps None ''p1'' s)" "sh_open (bt_build_stream s) \<noteq> {}"
    "bt_viewing s = Some ''b1''"
    using sf by (auto simp: viewing_script_def builds_run)
  ultimately show ?thesis
    using streams_follow_view [where token = None and api = None] by fastforce
qed

text \<open>
  The logs fetched when the viewer opens are a snapshot; the stream replaces them while the build
  runs. The build finishes, and the next refresh of the builds switches back to the snapshot.
\<close>

definition finished_script :: "(builds_event + nat \<times> builds_reply) list" where
  "finished_script = viewing_script @
     [Inr (0, BuildLogsReply (Inr (sample_logs ''b1'' ''building'' ''cloning''))),
      Inr (0, DeploysReply (Inr \<lparr>ls_items = [], ls_total = 0\<rparr>)),
      Inl (BuildStream (DoneMessage 0 (Some (''cloning, building, done'', ''success'')))),
      Inl (NewBuilds [named_build ''b1'' ''success'']), Inl Commit]"

lemma finished_build_logs:
  "\<exists>s. sample_builds_steps\<^sup>*\<^sup>* (builds_initial [named_build ''b1'' ''building''], []) (s, []) \<and>
     bt_viewing s = Some ''b1'' \<and> display_build_logs s = Some ''cloning''"
proof -
  let ?w = "(builds_initial [named_build ''b1'' ''building''], [])"
  have "sample_playable finished_script ?w"
    by (simp add: finished_script_def viewing_script_def builds_run)
  from run_script_reaches [OF this]
  have "sample_builds_steps\<^sup>*\<^sup>* ?w (sample_run finished_script ?w)" .
  then show ?thesis
    by (fastforce simp: finished_script_def viewing_script_def builds_run display_build_logs_def
        sample_logs_def)
qed

text \<open>
  The viewer is closed before the deploys it asked for arrive: the answer links a deploy to no
  build, and its log stream opens though no viewer is on screen.
\<close>

definition late_link_script :: "(builds_event + nat \<times> builds_reply) list" where
  "late_link_script = viewing_script @
     [Inl CloseLogs, Inl Commit,
      Inr (1, DeploysReply (Inr \<lparr>ls_items = [sample_deploy Building], ls_total = 1\<rparr>)), Inl Commit]"

lemma late_deploy_link:
  "\<exists>s fl. sample_builds_steps\<^sup>*\<^sup>* (builds_initial [named_build ''b1'' ''building''], []) (s, fl) \<and>
     bt_viewing s = None \<and> sh_open (bt_deploy_stream s) \<noteq> {}"
proof -
  let ?w = "(builds_initial [named_build ''b1'' ''building''], [])"
  have "sample_playable late_link_script ?w"
    by (simp add: late_link_script_def viewing_script_def builds_run offers_close_logs
        sample_deploy_def settled_statuses_def)
  from run_script_reaches [OF this]
  have "sample_builds_steps\<^sup>*\<^sup>* ?w (sample_run late_link_script ?w)" .
  then show ?thesis
    by (fastforce simp: late_link_script_def viewing_script_def builds_run sample_deploy_def
        settled_statuses_def)
qed

end
