(* ===== verification/ProjectEnvironments.thy ===== *)
theory ProjectEnvironments
  imports ProjectData
begin

text \<open>
  The environments tab of the project page: the listing of the environments it is given, and the form
  that creates one. The name is a required field: the browser does not submit the form without it.
\<close>

section \<open>State and operations\<close>

record envs_tab =
  en_show_create :: bool
  en_name :: string
  en_type :: env_type
  en_creating :: bool
  en_error :: json

definition envs_initial :: envs_tab where
  "envs_initial =
     \<lparr>en_show_create = False, en_name = [], en_type = Staging, en_creating = False,
      en_error = JStr []\<rparr>"

datatype envs_event =
    ShowCreate | CancelCreate | SetEnvName string | SetEnvType env_type | SubmitEnv

datatype envs_cmd = CreateEnv environment_create | NotifyEnvs

definition handle_create_env :: "envs_tab \<Rightarrow> envs_tab \<times> envs_cmd list" where
  "handle_create_env s =
     (s\<lparr>en_error := JStr [], en_creating := True\<rparr>,
      [CreateEnv \<lparr>ec_name = en_name s, ec_type = en_type s\<rparr>])"

fun envs_handle :: "envs_event \<Rightarrow> envs_tab \<Rightarrow> envs_tab \<times> envs_cmd list" where
  "envs_handle ShowCreate s = (s\<lparr>en_show_create := True\<rparr>, [])"
| "envs_handle CancelCreate s = (s\<lparr>en_show_create := False\<rparr>, [])"
| "envs_handle (SetEnvName v) s = (s\<lparr>en_name := v\<rparr>, [])"
| "envs_handle (SetEnvType v) s = (s\<lparr>en_type := v\<rparr>, [])"
| "envs_handle SubmitEnv s = handle_create_env s"

fun envs_resume :: "envs_cmd \<Rightarrow> environment outcome \<Rightarrow> envs_tab \<Rightarrow> envs_tab \<times> envs_cmd list" where
  "envs_resume (CreateEnv b) (Inr env) s =
     (s\<lparr>en_show_create := False, en_name := [], en_creating := False\<rparr>, [NotifyEnvs])"
| "envs_resume (CreateEnv b) (Inl e) s =
     (s\<lparr>en_error := detail_or ''Failed to create environment'' e, en_creating := False\<rparr>, [])"
| "envs_resume NotifyEnvs r s = (s, [])"

section \<open>View\<close>

definition env_types :: "(string \<times> env_type) list" where
  "env_types = [(''production'', Production), (''staging'', Staging), (''preview'', Preview)]"

definition env_type_of :: "string \<Rightarrow> env_type" where
  "env_type_of v = (case map_of env_types v of Some t \<Rightarrow> t | None \<Rightarrow> Staging)"

definition create_env_form :: "envs_tab \<Rightarrow> envs_event view" where
  "create_env_form s =
     Frm SubmitEnv
       [labelled ''Name'' (Inp ''text'' (en_name s) ''staging'' SetEnvName),
        labelled ''Type'' (Sel (env_type_text (en_type s))
          [(''production'', ''Production''), (''staging'', ''Staging''), (''preview'', ''Preview'')]
          (\<lambda>v. SetEnvType (env_type_of v))),
        Btn (en_creating s) None [Txt ''Create''], Btn False (Some CancelCreate) [Txt ''Cancel''],
        json_error (en_error s)]"

definition env_row :: "ambient \<Rightarrow> environment \<Rightarrow> 'e view" where
  "env_row am env =
     El ''div''
       [para (ev_name env),
        El ''p'' [Txt (''Type: '' @ env_type_text (ev_type env)),
          given (ev_vlan_id env) (\<lambda>v. Txt '' | VLAN assigned'')],
        para (ago am (ev_created_at env))]"

definition envs_view :: "ambient \<Rightarrow> environment list \<Rightarrow> envs_tab \<Rightarrow> envs_event view" where
  "envs_view am envs s =
     El ''div''
       [El ''h3'' [Txt ''Environments''], Btn False (Some ShowCreate) [Txt ''Add environment''],
        when_view (en_show_create s) (create_env_form s),
        (if envs = [] then para ''No environments configured.''
         else El ''div'' (map (env_row am) envs))]"

section \<open>One creation at a time\<close>

definition envs_offered :: "ambient \<Rightarrow> envs_tab \<Rightarrow> envs_event \<Rightarrow> bool" where
  "envs_offered am s e =
     ((\<exists>envs. offers (envs_view am envs s) e) \<and> (e = SubmitEnv \<longrightarrow> en_name s \<noteq> []))"

fun creates_env :: "envs_cmd \<Rightarrow> bool" where
  "creates_env (CreateEnv b) = True"
| "creates_env NotifyEnvs = False"

lemma offers_env_row [simp]: "\<not> offers (env_row am env) e"
  by (simp add: env_row_def)

lemma envs_offered_submit:
  "envs_offered am s SubmitEnv \<longleftrightarrow> en_show_create s \<and> \<not> en_creating s \<and> en_name s \<noteq> []"
  by (auto simp: envs_offered_def envs_view_def create_env_form_def labelled_def json_error_def para_def)

text \<open>Every type can be chosen, and choosing its option gives it.\<close>

lemma env_type_of_text: "env_type_of (env_type_text t) = t"
  by (cases t) (simp_all add: env_type_of_def env_types_def)

text \<open>A request to create has a name that is not empty.\<close>

definition envs_inv :: "envs_tab \<Rightarrow> envs_cmd list \<Rightarrow> bool" where
  "envs_inv s fl =
     (length (filter creates_env fl) = of_bool (en_creating s) \<and>
      (\<forall>b. CreateEnv b \<in> set fl \<longrightarrow> ec_name b \<noteq> []))"

interpretation envs_world: world_invariant "envs_offered am" envs_handle envs_resume "\<lambda>c r. True"
  "(envs_initial, [])" envs_inv for am
proof unfold_locales
  show "envs_inv (fst (envs_initial, [])) (snd (envs_initial, []))"
    by (simp add: envs_inv_def envs_initial_def)
  show "envs_inv s' (fl @ cs)"
    if "envs_inv s fl" and "envs_offered am s e" and "envs_handle e s = (s', cs)" for s fl e s' cs
    using that
    by (cases e) (auto simp: envs_inv_def handle_create_env_def envs_offered_submit)
  show "envs_inv s' (xs @ ys @ cs)"
    if inv: "envs_inv s (xs @ c # ys)" and "envs_resume c r s = (s', cs)" for s xs c ys r s' cs
  proof -
    have names: "\<forall>b. CreateEnv b \<in> set (xs @ ys) \<longrightarrow> ec_name b \<noteq> []"
      using inv by (simp add: envs_inv_def)
    have count: "length (filter creates_env (xs @ ys)) + of_bool (creates_env c) = of_bool (en_creating s)"
      using inv by (cases c) (simp_all add: envs_inv_def)
    have "creates_env c \<longrightarrow> en_creating s"
      using count by (cases "en_creating s") simp_all
    with that(2) have "en_creating s' = (en_creating s \<and> \<not> creates_env c) \<and> set cs \<subseteq> {NotifyEnvs}"
      by (cases c; cases r) auto
    then have "filter creates_env cs = []" and "\<forall>b. CreateEnv b \<notin> set cs"
      and flag: "en_creating s' = (en_creating s \<and> \<not> creates_env c)"
      by (auto simp: filter_empty_conv)
    with names have "\<forall>b. CreateEnv b \<in> set (xs @ ys @ cs) \<longrightarrow> ec_name b \<noteq> []"
      by simp
    moreover have "length (filter creates_env (xs @ ys @ cs)) = of_bool (en_creating s')"
      using count \<open>filter creates_env cs = []\<close> flag by (cases "creates_env c"; cases "en_creating s") simp_all
    ultimately show ?thesis by (simp add: envs_inv_def)
  qed
qed

text \<open>
  At most one environment is being created, never without a name, and the form is busy exactly while
  one is.
\<close>

lemma envs_single_create:
  assumes "(wstep (envs_offered am) envs_handle envs_resume (\<lambda>c r. True))\<^sup>*\<^sup>* (envs_initial, []) (s, fl)"
  shows "length (filter creates_env fl) = of_bool (en_creating s)"
    and "CreateEnv b \<in> set fl \<Longrightarrow> ec_name b \<noteq> []"
  using envs_world.reach_state_inv [OF assms] by (auto simp: envs_inv_def)

end
