(* ===== verification/ProjectMembers.thy ===== *)
theory ProjectMembers
  imports ProjectData
begin

text \<open>
  The members tab of the project page: the list of contributors, the search for users to add (a timer
  of 300 ms, restarted by an effect whenever the text or the members change), and the removal of a
  member or of oneself. A search filters its answer by the members that the effect saw.
\<close>

section \<open>State\<close>

record members_tab =
  mb_members :: "project_member list"
  mb_loading :: bool
  mb_error :: string
  mb_query :: string
  mb_results :: "user_search_result list"
  mb_searching :: bool
  mb_show :: bool
  mb_adding :: bool
  mb_add_error :: string
  mb_target :: "project_member option"
  mb_removing :: bool
  mb_timer :: "(string \<times> project_member list) option"  \<comment> \<open>the pending search, with the members it saw\<close>

definition members_initial :: members_tab where
  "members_initial =
     \<lparr>mb_members = [], mb_loading = True, mb_error = [], mb_query = [], mb_results = [],
      mb_searching = False, mb_show = False, mb_adding = False, mb_add_error = [],
      mb_target = None, mb_removing = False, mb_timer = None\<rparr>"

definition is_owner :: "user_info option \<Rightarrow> project \<Rightarrow> bool" where
  "is_owner user p = (map_option ui_id user = Some (pj_owner_id p))"

definition is_staff_or_faculty :: "user_info option \<Rightarrow> bool" where
  "is_staff_or_faculty user =
     (map_option ui_role user = Some JAS_Staff \<or> map_option ui_role user = Some JAS_Faculty)"

definition can_manage_members :: "user_info option \<Rightarrow> project \<Rightarrow> bool" where
  "can_manage_members user p = (is_owner user p \<or> is_staff_or_faculty user)"

section \<open>Operations\<close>

datatype members_fetch = AtMount | AfterAdd | AfterRemove

datatype members_cmd =
    FetchMembers members_fetch
  | SearchUsers string "project_member list"
  | AddMember string
  | RemoveMember string

datatype members_reply =
    MembersReply "project_member_list_response outcome"
  | SearchReply "user_search_response outcome"
  | MemberChanged "unit outcome"

text \<open>The search effect; its dependencies are the text and the members.\<close>

definition search_effect :: "members_tab \<Rightarrow> members_tab" where
  "search_effect s =
     (if trim (mb_query s) = [] then s\<lparr>mb_timer := None, mb_results := [], mb_show := False\<rparr>
      else s\<lparr>mb_timer := Some (trim (mb_query s), mb_members s)\<rparr>)"

definition set_search_query :: "string \<Rightarrow> members_tab \<Rightarrow> members_tab" where
  "set_search_query v s = (if v = mb_query s then s else search_effect (s\<lparr>mb_query := v\<rparr>))"

text \<open>The timer fires: \<open>setSearching(true)\<close> and the request.\<close>

definition search_timer :: "members_tab \<Rightarrow> members_tab \<times> members_cmd list" where
  "search_timer s =
     (case mb_timer s of
        None \<Rightarrow> (s, [])
      | Some (q, ms) \<Rightarrow> (s\<lparr>mb_timer := None, mb_searching := True\<rparr>, [SearchUsers q ms]))"

definition found_users :: "project \<Rightarrow> project_member list \<Rightarrow> user_search_response \<Rightarrow> user_search_result list" where
  "found_users p ms res =
     filter (\<lambda>u. us_id u \<notin> insert (pj_owner_id p) (pm_user_id ` set ms)) (ls_items res)"

definition handle_add_member :: "string \<Rightarrow> members_tab \<Rightarrow> members_tab \<times> members_cmd list" where
  "handle_add_member i s = (s\<lparr>mb_adding := True, mb_add_error := []\<rparr>, [AddMember i])"

definition handle_remove_member :: "members_tab \<Rightarrow> members_tab \<times> members_cmd list" where
  "handle_remove_member s =
     (case mb_target s of
        None \<Rightarrow> (s, [])
      | Some m \<Rightarrow> (s\<lparr>mb_removing := True\<rparr>, [RemoveMember (pm_user_id m)]))"

definition add_failed :: "js_exn \<Rightarrow> string" where
  "add_failed e =
     (case e of
        ApiErr st d \<Rightarrow> if st = 409 then ''User is already a member of this project'' else ''Failed to add member''
      | _ \<Rightarrow> ''Failed to add member'')"

text \<open>The answer to \<open>fetchMembers\<close>, and the end of the handler that awaits it.\<close>

definition members_received :: "project_member_list_response outcome \<Rightarrow> members_tab \<Rightarrow> members_tab" where
  "members_received r s =
     (case r of
        Inr res \<Rightarrow> search_effect (s\<lparr>mb_members := ls_items res, mb_loading := False\<rparr>)
      | Inl e \<Rightarrow> s\<lparr>mb_error := ''Failed to load members'', mb_loading := False\<rparr>)"

fun members_finish :: "members_fetch \<Rightarrow> members_tab \<Rightarrow> members_tab" where
  "members_finish AtMount s = s"
| "members_finish AfterAdd s = s\<lparr>mb_adding := False\<rparr>"
| "members_finish AfterRemove s = s\<lparr>mb_removing := False\<rparr>"

fun members_resume ::
  "project \<Rightarrow> members_cmd \<Rightarrow> members_reply \<Rightarrow> members_tab \<Rightarrow> members_tab \<times> members_cmd list" where
  "members_resume p (FetchMembers k) (MembersReply r) s = (members_finish k (members_received r s), [])"
| "members_resume p (SearchUsers q ms) (SearchReply (Inr res)) s =
     (s\<lparr>mb_results := found_users p ms res, mb_show := True, mb_searching := False\<rparr>, [])"
| "members_resume p (SearchUsers q ms) (SearchReply (Inl e)) s =
     (s\<lparr>mb_results := [], mb_searching := False\<rparr>, [])"
| "members_resume p (AddMember i) (MemberChanged (Inr u)) s =
     (set_search_query [] (s\<lparr>mb_results := [], mb_show := False\<rparr>), [FetchMembers AfterAdd])"
| "members_resume p (AddMember i) (MemberChanged (Inl e)) s =
     (s\<lparr>mb_add_error := add_failed e, mb_adding := False\<rparr>, [])"
| "members_resume p (RemoveMember i) (MemberChanged (Inr u)) s =
     (s\<lparr>mb_target := None\<rparr>, [FetchMembers AfterRemove])"
| "members_resume p (RemoveMember i) (MemberChanged (Inl e)) s =
     (s\<lparr>mb_error := ''Failed to remove member'', mb_removing := False\<rparr>, [])"
| "members_resume p c r s = (s, [])"

datatype members_event =
    SetQuery string
  | FocusSearch
  | PressOutside
  | SearchTimer
  | AddUser string
  | AskRemove project_member
  | CancelRemove
  | ConfirmRemove

fun members_handle :: "members_event \<Rightarrow> members_tab \<Rightarrow> members_tab \<times> members_cmd list" where
  "members_handle (SetQuery v) s = (set_search_query v s, [])"
| "members_handle FocusSearch s = (if mb_results s \<noteq> [] then s\<lparr>mb_show := True\<rparr> else s, [])"
| "members_handle PressOutside s = (s\<lparr>mb_show := False\<rparr>, [])"
| "members_handle SearchTimer s = search_timer s"
| "members_handle (AddUser i) s = handle_add_member i s"
| "members_handle (AskRemove m) s = (s\<lparr>mb_target := Some m\<rparr>, [])"
| "members_handle CancelRemove s = (s\<lparr>mb_target := None\<rparr>, [])"
| "members_handle ConfirmRemove s = handle_remove_member s"

section \<open>View\<close>

definition owner_card :: "user_info option \<Rightarrow> project \<Rightarrow> 'e view" where
  "owner_card user p =
     (let shown = (\<lambda>f other. if is_owner user p then f (the user) else other)
      in El ''div''
        [El ''h3'' [Txt ''Owner''], El ''span'' [Txt (initial (shown ui_display_name ''O''))],
         para (shown ui_display_name ''Project Owner''), para (shown ui_username []),
         El ''span'' [Txt ''Owner'']])"

definition result_button :: "members_tab \<Rightarrow> user_search_result \<Rightarrow> members_event view" where
  "result_button s u =
     Btn (mb_adding s) (Some (AddUser (us_id u)))
       [El ''span'' [Txt (initial (us_display_name u))], para (us_display_name u), para (us_username u),
        El ''span'' [Txt ''Add'']]"

definition search_dropdown :: "members_tab \<Rightarrow> members_event view" where
  "search_dropdown s =
     when_view (mb_show s)
       (if mb_results s = []
        then para (if truthy (trim (mb_query s)) then ''No users found'' else ''Type to search...'')
        else El ''div'' (map (result_button s) (mb_results s)))"

definition search_box :: "members_tab \<Rightarrow> members_event view" where
  "search_box s =
     El ''div''
       [(if mb_adding s then El ''input'' []
         else Inp ''text'' (mb_query s) ''Search users to add...'' SetQuery),
        when_view (mb_searching s) (El ''spinner'' []), search_dropdown s,
        when_view (truthy (mb_add_error s)) (para (mb_add_error s))]"

definition is_self :: "user_info option \<Rightarrow> project_member \<Rightarrow> bool" where
  "is_self user m = (Some (pm_user_id m) = map_option ui_id user)"

definition member_row :: "user_info option \<Rightarrow> project \<Rightarrow> project_member \<Rightarrow> members_event view" where
  "member_row user p m =
     El ''div''
       [El ''span'' [Txt (initial (pm_display_name m))],
        El ''p'' [Txt (pm_display_name m), when_view (is_self user m) (El ''span'' [Txt ''(you)''])],
        para (pm_username m), El ''span'' [Txt (pm_role m)],
        when_view (can_manage_members user p \<or> is_self user m)
          (Btn False (Some (AskRemove m))
            [El (if is_self user m then ''title.Leave project'' else ''title.Remove member'') []])]"

definition remove_dialog :: "user_info option \<Rightarrow> members_tab \<Rightarrow> members_event view" where
  "remove_dialog user s =
     (let leaving = (map_option pm_user_id (mb_target s) = map_option ui_id user)
      in confirm_modal (mb_target s \<noteq> None) CancelRemove ConfirmRemove
        \<lparr>cp_title = if leaving then ''Leave project'' else ''Remove member'',
         cp_description = Some (if leaving
           then ''You will no longer have access to this project. You can be re-added by the owner.''
           else ''Remove '' @ or_text (map_option pm_display_name (mb_target s)) ''undefined'' @
             '' from this project? They will lose access immediately.''),
         cp_confirm_label = Some (if leaving then ''Leave'' else ''Remove''), cp_cancel_label = None,
         cp_loading = mb_removing s\<rparr>)"

definition members_view :: "user_info option \<Rightarrow> project \<Rightarrow> members_tab \<Rightarrow> members_event view" where
  "members_view user p s =
     (if mb_loading s then para ''Loading members...''
      else if truthy (mb_error s) \<and> mb_members s = [] then para (mb_error s)
      else El ''div''
        [owner_card user p,
         El ''h3'' [Txt ''Contributors'',
           when_view (mb_members s \<noteq> []) (El ''span'' [Txt (show_int (int (length (mb_members s))))])],
         when_view (can_manage_members user p) (search_box s),
         (if mb_members s = []
          then El ''p'' [Txt ''No contributors yet.'',
            when_view (can_manage_members user p) (Txt '' Search for users above to add them.'')]
          else El ''div'' (map (member_row user p) (mb_members s))),
         remove_dialog user s])"

section \<open>The machine of the tab\<close>

text \<open>The search box is on screen, which \<open>searchRef.current\<close> points to.\<close>

definition box_shown :: "user_info option \<Rightarrow> project \<Rightarrow> members_tab \<Rightarrow> bool" where
  "box_shown user p s =
     (\<not> mb_loading s \<and> (mb_error s = [] \<or> mb_members s \<noteq> []) \<and> can_manage_members user p)"

fun members_offered :: "user_info option \<Rightarrow> project \<Rightarrow> members_tab \<Rightarrow> members_event \<Rightarrow> bool" where
  "members_offered user p s SearchTimer = (mb_timer s \<noteq> None)"
| "members_offered user p s FocusSearch = (box_shown user p s \<and> \<not> mb_adding s)"
| "members_offered user p s PressOutside = box_shown user p s"
| "members_offered user p s CancelRemove = (mb_target s \<noteq> None)"
| "members_offered user p s e = offers (members_view user p s) e"

fun members_answers :: "members_cmd \<Rightarrow> members_reply \<Rightarrow> bool" where
  "members_answers (FetchMembers k) (MembersReply r) = True"
| "members_answers (SearchUsers q ms) (SearchReply r) = True"
| "members_answers (AddMember i) (MemberChanged r) = True"
| "members_answers (RemoveMember i) (MemberChanged r) = True"
| "members_answers c r = False"

abbreviation members_start :: "(members_tab, members_cmd) world" where
  "members_start \<equiv> (members_initial, [FetchMembers AtMount])"

abbreviation members_steps where
  "members_steps user p \<equiv>
     wstep (members_offered user p) members_handle (members_resume p) members_answers"

lemma offers_owner_card [simp]: "\<not> offers (owner_card user p) e"
  by (simp add: owner_card_def Let_def)

lemma offers_search_box [simp]:
  "offers (search_box s) (AddUser i) \<longleftrightarrow>
     mb_show s \<and> \<not> mb_adding s \<and> i \<in> us_id ` set (mb_results s)"
  "offers (search_box s) (SetQuery v) \<longleftrightarrow> \<not> mb_adding s"
  "\<not> offers (search_box s) (AskRemove m)"
  "\<not> offers (search_box s) ConfirmRemove"
  by (auto simp: search_box_def search_dropdown_def result_button_def)

lemma offers_member_row [simp]:
  "offers (member_row user p m) e \<longleftrightarrow>
     (can_manage_members user p \<or> is_self user m) \<and> e = AskRemove m"
  by (auto simp: member_row_def)

lemma offers_remove_dialog [simp]:
  "offers (remove_dialog user s) e \<longleftrightarrow>
     mb_target s \<noteq> None \<and> \<not> mb_removing s \<and> (e = CancelRemove \<or> e = ConfirmRemove)"
  by (simp add: remove_dialog_def Let_def)

lemma members_view_offers:
  "offers (members_view user p s) (AddUser i) \<longleftrightarrow>
     box_shown user p s \<and> mb_show s \<and> \<not> mb_adding s \<and> i \<in> us_id ` set (mb_results s)"
  "offers (members_view user p s) (AskRemove m) \<longleftrightarrow>
     \<not> mb_loading s \<and> m \<in> set (mb_members s) \<and> (can_manage_members user p \<or> is_self user m)"
  "offers (members_view user p s) ConfirmRemove \<Longrightarrow> mb_target s \<noteq> None \<and> \<not> mb_removing s"
  by (auto simp: members_view_def box_shown_def truthy_def split: if_splits)

section \<open>Requests and permissions\<close>

text \<open>
  What the API (\<open>src/api/app/routers/members.py\<close>) authorizes the signed-in user to do; whether the user to add
  exists or is a member already, and the member to remove still is one, it checks after that.
\<close>

definition manage_permitted :: "user_info \<Rightarrow> project \<Rightarrow> bool" where
  "manage_permitted u p = (ui_role u \<noteq> JAS_Developer \<or> pj_owner_id p = ui_id u)"

definition add_permitted :: "user_info \<Rightarrow> project \<Rightarrow> string \<Rightarrow> bool" where
  "add_permitted u p i = (manage_permitted u p \<and> i \<noteq> pj_owner_id p)"

definition remove_permitted :: "user_info \<Rightarrow> project \<Rightarrow> string \<Rightarrow> bool" where
  "remove_permitted u p i = (manage_permitted u p \<or> i = ui_id u)"

lemma can_manage_permitted: "can_manage_members (Some u) p = manage_permitted u p"
  by (cases "ui_role u")
     (auto simp: can_manage_members_def is_owner_def is_staff_or_faculty_def manage_permitted_def)

fun member_request_permitted :: "user_info \<Rightarrow> project \<Rightarrow> members_cmd \<Rightarrow> bool" where
  "member_request_permitted u p (AddMember i) = add_permitted u p i"
| "member_request_permitted u p (RemoveMember i) = remove_permitted u p i"
| "member_request_permitted u p c = True"

definition members_inv :: "user_info \<Rightarrow> project \<Rightarrow> members_tab \<Rightarrow> members_cmd list \<Rightarrow> bool" where
  "members_inv u p s fl =
     ((\<forall>x \<in> set (mb_results s). us_id x \<noteq> pj_owner_id p) \<and>
      (\<forall>m. mb_target s = Some m \<longrightarrow> remove_permitted u p (pm_user_id m)) \<and>
      (\<forall>c \<in> set fl. member_request_permitted u p c))"

lemma search_effect_results: "set (mb_results (search_effect s)) \<subseteq> set (mb_results s)"
  by (simp add: search_effect_def)

lemma search_effect_fields [simp]:
  "mb_target (search_effect s) = mb_target s" "mb_members (search_effect s) = mb_members s"
  "mb_adding (search_effect s) = mb_adding s" "mb_removing (search_effect s) = mb_removing s"
  "mb_loading (search_effect s) = mb_loading s" "mb_error (search_effect s) = mb_error s"
  "mb_query (search_effect s) = mb_query s"
  by (auto simp: search_effect_def)

lemma set_search_query_results: "set (mb_results (set_search_query v s)) \<subseteq> set (mb_results s)"
  using search_effect_results [of "s\<lparr>mb_query := v\<rparr>"] by (simp add: set_search_query_def)

lemma set_search_query_fields [simp]:
  "mb_target (set_search_query v s) = mb_target s"
  "mb_adding (set_search_query v s) = mb_adding s"
  "mb_removing (set_search_query v s) = mb_removing s"
  "mb_loading (set_search_query v s) = mb_loading s"
  by (simp_all add: set_search_query_def)

lemma members_received_results: "set (mb_results (members_received r s)) \<subseteq> set (mb_results s)"
  using search_effect_results [of "s\<lparr>mb_members := ls_items (projr r), mb_loading := False\<rparr>"]
  by (cases r) (simp_all add: members_received_def)

lemma members_received_fields [simp]:
  "mb_target (members_received r s) = mb_target s"
  "mb_adding (members_received r s) = mb_adding s"
  "mb_removing (members_received r s) = mb_removing s"
  "\<not> mb_loading (members_received r s)"
  by (simp_all add: members_received_def split: sum.splits)

lemma members_finish_fields [simp]:
  "mb_results (members_finish k s) = mb_results s" "mb_target (members_finish k s) = mb_target s"
  "mb_adding (members_finish k s) = (mb_adding s \<and> k \<noteq> AfterAdd)"
  "mb_removing (members_finish k s) = (mb_removing s \<and> k \<noteq> AfterRemove)"
  "mb_loading (members_finish k s) = mb_loading s"
  by (cases k; simp)+

lemma members_inv_handle:
  assumes "members_inv u p s fl" and "members_offered (Some u) p s e" and "members_handle e s = (s', cs)"
  shows "members_inv u p s' (fl @ cs)"
proof (cases e)
  case (SetQuery v)
  with assms show ?thesis using set_search_query_results [of v s]
    by (fastforce simp: members_inv_def)
next
  case (AddUser i)
  with assms show ?thesis
    by (auto simp: members_inv_def handle_add_member_def members_view_offers box_shown_def
        add_permitted_def can_manage_permitted)
next
  case (AskRemove m)
  with assms show ?thesis
    by (auto simp: members_inv_def members_view_offers remove_permitted_def can_manage_permitted
        is_self_def)
next
  case ConfirmRemove
  with assms show ?thesis
    by (auto simp: members_inv_def handle_remove_member_def split: option.splits)
qed (use assms in \<open>auto simp: members_inv_def search_timer_def split: option.splits if_splits\<close>)

lemma members_inv_resume:
  assumes "members_inv u p s (xs @ c # ys)" and "members_resume p c r s = (s', cs)"
  shows "members_inv u p s' (xs @ ys @ cs)"
proof -
  have rest: "\<forall>c \<in> set (xs @ ys). member_request_permitted u p c"
    and rs: "\<forall>x \<in> set (mb_results s). us_id x \<noteq> pj_owner_id p"
    and tg: "\<forall>m. mb_target s = Some m \<longrightarrow> remove_permitted u p (pm_user_id m)"
    using assms(1) by (auto simp: members_inv_def)
  have "(\<forall>x \<in> set (mb_results s'). us_id x \<noteq> pj_owner_id p) \<and>
      (mb_target s' = mb_target s \<or> mb_target s' = None) \<and>
      (\<forall>c \<in> set cs. member_request_permitted u p c)"
    using assms(2) rs
  proof (induction p c r s rule: members_resume.induct)
    case (1 p k r s)
    then show ?case using members_received_results [of r s] by auto
  next
    case (4 p i u s)
    then show ?case
      using set_search_query_results [of "[]" "s\<lparr>mb_results := [], mb_show := False\<rparr>"] by auto
  qed (auto simp: found_users_def)
  with rest tg show ?thesis by (auto simp: members_inv_def)
qed

interpretation members_world: world_invariant "members_offered (Some u) p" members_handle
  "members_resume p" members_answers members_start "members_inv u p" for u p
proof unfold_locales
  show "members_inv u p (fst members_start) (snd members_start)"
    by (simp add: members_inv_def members_initial_def)
qed (blast intro: members_inv_handle members_inv_resume)+

text \<open>
  C7: the members tab offers to remove exactly the members that the API authorizes the signed-in user
  to remove, and every change it ever sends is one that the API authorizes: only a manager adds, never
  the owner, and nobody else removes another member.
\<close>

theorem members_requests_permitted:
  assumes "(members_steps (Some u) p)\<^sup>*\<^sup>* members_start (s, fl)"
  shows "(\<forall>c \<in> set fl. member_request_permitted u p c) \<and>
    (\<not> mb_loading s \<longrightarrow>
      (\<forall>m. offers (members_view (Some u) p s) (AskRemove m) \<longleftrightarrow>
         m \<in> set (mb_members s) \<and> remove_permitted u p (pm_user_id m)))"
  using members_world.reach_state_inv [OF assms]
  by (auto simp: members_inv_def members_view_offers remove_permitted_def can_manage_permitted is_self_def)

section \<open>One change at a time\<close>

fun adds_member :: "members_cmd \<Rightarrow> bool" where
  "adds_member (AddMember i) = True"
| "adds_member (FetchMembers k) = (k = AfterAdd)"
| "adds_member c = False"

fun removes_member :: "members_cmd \<Rightarrow> bool" where
  "removes_member (RemoveMember i) = True"
| "removes_member (FetchMembers k) = (k = AfterRemove)"
| "removes_member c = False"

fun lists_members :: "members_cmd \<Rightarrow> bool" where
  "lists_members (FetchMembers k) = True"
| "lists_members c = False"

lemma members_handle_flags:
  assumes "members_offered user p s e" and "members_handle e s = (s', cs)"
  shows "of_bool (mb_adding s') = of_bool (mb_adding s) + length (filter adds_member cs)"
    and "of_bool (mb_removing s') = of_bool (mb_removing s) + length (filter removes_member cs)"
    and "mb_loading s' = mb_loading s"
  using assms by (cases e; auto simp: handle_add_member_def handle_remove_member_def search_timer_def
      members_view_offers dest: members_view_offers(3) split: option.splits if_splits)+

lemma members_resume_flags:
  assumes "members_answers c r" and "members_resume p c r s = (s', cs)"
  shows "(adds_member c \<longrightarrow> mb_adding s) \<Longrightarrow>
      of_bool (mb_adding s') + of_bool (adds_member c) =
      of_bool (mb_adding s) + length (filter adds_member cs)"
    and "(removes_member c \<longrightarrow> mb_removing s) \<Longrightarrow>
      of_bool (mb_removing s') + of_bool (removes_member c) =
      of_bool (mb_removing s) + length (filter removes_member cs)"
    and "mb_loading s' \<Longrightarrow> mb_loading s \<and> \<not> lists_members c"
  using assms by (cases "(p, c, r, s)" rule: members_resume.cases; auto)+

interpretation adding_member: saving_page "members_offered user p" members_handle
  "members_resume p" members_answers members_start mb_adding mb_loading adds_member lists_members
  for user p
proof unfold_locales
  show "length (filter adds_member (snd members_start)) = of_bool (mb_adding (fst members_start))"
    by (simp add: members_initial_def)
next
  show "of_bool (mb_adding s') + of_bool (adds_member c) = of_bool (mb_adding s) + length (filter adds_member cs)"
    if "members_answers c r" "members_resume p c r s = (s', cs)" "adds_member c \<longrightarrow> mb_adding s"
    for c r s s' cs
    using that by (rule members_resume_flags(1))
qed (use members_resume_flags(3) in \<open>auto simp: members_handle_flags\<close>)

interpretation removing_member: saving_page "members_offered user p" members_handle
  "members_resume p" members_answers members_start mb_removing mb_loading removes_member lists_members
  for user p
proof unfold_locales
  show "length (filter removes_member (snd members_start)) = of_bool (mb_removing (fst members_start))"
    by (simp add: members_initial_def)
next
  show "of_bool (mb_removing s') + of_bool (removes_member c) = of_bool (mb_removing s) + length (filter removes_member cs)"
    if "members_answers c r" "members_resume p c r s = (s', cs)" "removes_member c \<longrightarrow> mb_removing s"
    for c r s s' cs
    using that by (rule members_resume_flags(2))
qed (use members_resume_flags(3) in \<open>auto simp: members_handle_flags\<close>)

lemma members_single_change:
  assumes "(members_steps user p)\<^sup>*\<^sup>* members_start (s, fl)"
  shows "length (filter adds_member fl) \<le> 1 \<and> length (filter removes_member fl) \<le> 1 \<and>
    (fl = [] \<longrightarrow> \<not> mb_adding s \<and> \<not> mb_removing s \<and> \<not> mb_loading s)"
  using adding_member.single_save [OF assms] removing_member.single_save [OF assms] by blast

section \<open>Failures and late answers\<close>

text \<open>
  While there are contributors, the failure of a removal is never shown: the screen is the same
  as if the removal had not been tried.
\<close>

lemma removal_failure_hidden:
  assumes "members_resume p (RemoveMember i) (MemberChanged (Inl e)) s = (s', cs)"
    and "mb_members s \<noteq> []"
  shows "members_view user p s' = members_view user p (s\<lparr>mb_removing := False\<rparr>)"
proof -
  have "s' = s\<lparr>mb_error := ''Failed to remove member'', mb_removing := False\<rparr>"
    using assms(1) by simp
  then show ?thesis
    using assms(2) by (simp add: members_view_def search_box_def search_dropdown_def
        result_button_def [abs_def] remove_dialog_def Let_def cong: if_cong)
qed

definition sample_member :: project_member where
  "sample_member = \<lparr>pm_id = ''m1'', pm_project_id = ''p1'', pm_user_id = ''u2'', pm_role = ''contributor'',
     pm_username = ''bob'', pm_display_name = ''Bob'', pm_email = ''bob@x'', pm_created_at = ''2026-01-01''\<rparr>"

definition sample_owner :: user_info where
  "sample_owner = \<lparr>ui_id = ''u1'', ui_username = ''ann'', ui_display_name = ''Ann'', ui_email = ''ann@x'',
     ui_role = JAS_Developer, ui_github_username = None, ui_created_at = ''2026-01-01''\<rparr>"

definition members_script :: "(members_event + nat \<times> members_reply) list" where
  "members_script = [Inr (0, MembersReply (Inr \<lparr>ls_items = [sample_member], ls_total = 1\<rparr>)),
     Inl (AskRemove sample_member), Inl ConfirmRemove]"

definition removal_script :: "(members_event + nat \<times> members_reply) list" where
  "removal_script = members_script @
     [Inr (0, MemberChanged (Inl (JsErr ''Failed to fetch''))), Inl ConfirmRemove,
      Inr (0, MemberChanged (Inr ())), Inr (0, MembersReply (Inr \<lparr>ls_items = [], ls_total = 0\<rparr>))]"

definition cleared_script :: "(members_event + nat \<times> members_reply) list" where
  "cleared_script =
     [Inr (0, MembersReply (Inr \<lparr>ls_items = [], ls_total = 0\<rparr>)), Inl (SetQuery ''al''), Inl SearchTimer,
      Inl (SetQuery []),
      Inr (0, SearchReply (Inr \<lparr>ls_items = [\<lparr>us_id = ''u3'', us_username = ''al'', us_display_name = ''Al'',
         us_email = ''al@x''\<rparr>], ls_total = 1\<rparr>))]"

lemmas members_run = members_script_def removal_script_def cleared_script_def members_initial_def
  members_received_def search_effect_def set_search_query_def search_timer_def found_users_def
  handle_remove_member_def trim_def is_space_def members_view_offers box_shown_def
  can_manage_members_def is_owner_def sample_owner_def sample_project_def

abbreviation sample_members_steps where
  "sample_members_steps \<equiv> members_steps (Some sample_owner) sample_project"

lemma offers_confirm_remove:
  "\<not> mb_loading s \<Longrightarrow> mb_members s \<noteq> [] \<Longrightarrow> mb_target s \<noteq> None \<Longrightarrow> \<not> mb_removing s \<Longrightarrow>
   offers (members_view user p s) ConfirmRemove"
  by (auto simp: members_view_def)

lemma members_scripts_playable:
  assumes "as \<in> {members_script, removal_script, cleared_script}"
  shows "playable (members_offered (Some sample_owner) sample_project) members_handle
    (members_resume sample_project) members_answers as members_start"
  using assms
  by (elim insertE emptyE; simp add: members_run offers_confirm_remove)
    (simp_all add: members_view_def search_box_def truthy_def can_manage_members_def is_owner_def)

lemma members_scripts_reach:
  "as \<in> {members_script, removal_script, cleared_script} \<Longrightarrow>
   sample_members_steps\<^sup>*\<^sup>* members_start
     (run_script members_handle (members_resume sample_project) as members_start)"
  by (rule run_script_reaches [OF members_scripts_playable])

text \<open>
  The message of an earlier failure replaces the whole tab when the last member is gone, even though
  the second try removed that member.
\<close>

lemma stale_failure_hides_members:
  "\<exists>s. sample_members_steps\<^sup>*\<^sup>* members_start (s, []) \<and> mb_members s = [] \<and>
     members_view (Some sample_owner) sample_project s = para ''Failed to remove member''"
  using members_scripts_reach [of removal_script]
  by (fastforce simp: members_run members_view_def truthy_def)

text \<open>
  The answer to a search that arrives after its text was cleared opens the results again, under an
  empty search box.
\<close>

lemma cleared_search_reopens:
  "\<exists>s. sample_members_steps\<^sup>*\<^sup>* members_start (s, []) \<and> mb_query s = [] \<and>
     offers (members_view (Some sample_owner) sample_project s) (AddUser ''u3'')"
  using members_scripts_reach [of cleared_script]
  by (fastforce simp: members_run)

theorem members_requests_permitted_witness:
  "\<exists>s. sample_members_steps\<^sup>*\<^sup>* members_start (s, [RemoveMember ''u2'']) \<and>
     remove_permitted sample_owner sample_project ''u2''"
proof -
  have "sample_members_steps\<^sup>*\<^sup>* members_start
      (run_script members_handle (members_resume sample_project) members_script members_start)"
    by (rule members_scripts_reach) simp
  then obtain s where r: "sample_members_steps\<^sup>*\<^sup>* members_start (s, [RemoveMember ''u2''])"
    by (auto simp: members_run sample_member_def)
  from members_requests_permitted [OF r] have "remove_permitted sample_owner sample_project ''u2''"
    by simp
  with r show ?thesis by blast
qed

lemma removal_failure_hidden_witness:
  "members_view (Some sample_owner) sample_project
     (fst (members_resume sample_project (RemoveMember ''u2'') (MemberChanged (Inl (JsErr ''x'')))
       (members_initial\<lparr>mb_members := [sample_member], mb_loading := False, mb_removing := True\<rparr>))) =
   members_view (Some sample_owner) sample_project
     (members_initial\<lparr>mb_members := [sample_member], mb_loading := False\<rparr>)"
proof -
  let ?s = "members_initial\<lparr>mb_members := [sample_member], mb_loading := False, mb_removing := True\<rparr>"
  obtain s' cs where r: "members_resume sample_project (RemoveMember ''u2'') (MemberChanged (Inl (JsErr ''x'')))
      ?s = (s', cs)" by simp
  have "members_view (Some sample_owner) sample_project s' =
      members_view (Some sample_owner) sample_project (?s\<lparr>mb_removing := False\<rparr>)"
    by (rule removal_failure_hidden [OF r]) simp
  with r show ?thesis by (simp add: members_initial_def)
qed

end
