(* ===== verification/ProjectSettings.thy ===== *)
theory ProjectSettings
  imports ProjectData DateTime
begin

text \<open>
  The settings tab of the project page: the production domain, the two switches, the build settings,
  the deploy controls, and the removal of the repository or the project. Every field is initialised
  once from the project; the parent passes the project again after \<open>onUpdate\<close> (\<open>NotifySettings\<close>), which
  the fields are compared with but not set to.
\<close>

section \<open>State\<close>

record settings_tab =
  st_auto :: bool
  st_saving :: bool
  st_subdomain :: string
  st_saving_domain :: bool
  st_disconnecting :: bool
  st_deleting :: bool
  st_message :: json
  st_root :: string
  st_build :: string
  st_install :: string
  st_output :: string
  st_saving_build :: bool
  st_locked :: bool
  st_health_path :: string
  st_health_timeout :: string
  st_webhook :: string
  st_expires :: string
  st_saving_deploy :: bool
  st_show_disconnect :: bool
  st_show_delete :: bool

definition project_subdomain :: "project \<Rightarrow> string" where
  "project_subdomain p = or_text (pj_custom_subdomain p) (pj_slug p)"

definition expiry_text :: "project \<Rightarrow> string option" where
  "expiry_text p = (if truthy_opt (pj_expires_at p) then Some (take 16 (the (pj_expires_at p))) else None)"

definition settings_initial :: "project \<Rightarrow> settings_tab" where
  "settings_initial p =
     \<lparr>st_auto = pj_auto_deploy p, st_saving = False, st_subdomain = project_subdomain p,
      st_saving_domain = False, st_disconnecting = False, st_deleting = False, st_message = JStr [],
      st_root = or_text (pj_root_directory p) [], st_build = or_text (pj_build_command p) [],
      st_install = or_text (pj_install_command p) [], st_output = or_text (pj_output_directory p) [],
      st_saving_build = False, st_locked = pj_deploy_locked p,
      st_health_path = or_text (pj_health_check_path p) [],
      st_health_timeout = or_text (map_option show_int (pj_health_check_timeout p)) [],
      st_webhook = or_text (pj_webhook_url p) [], st_expires = or_text (expiry_text p) [],
      st_saving_deploy = False, st_show_disconnect = False, st_show_delete = False\<rparr>"

text \<open>The unsaved changes; \<open>x || null\<close> is \<open>or_undefined\<close> here (None is null).\<close>

definition build_settings_changed :: "project \<Rightarrow> settings_tab \<Rightarrow> bool" where
  "build_settings_changed p s =
     (or_undefined (st_root s) \<noteq> pj_root_directory p \<or>
      or_undefined (st_build s) \<noteq> pj_build_command p \<or>
      or_undefined (st_install s) \<noteq> pj_install_command p \<or>
      or_undefined (st_output s) \<noteq> pj_output_directory p)"

definition deploy_controls_changed :: "project \<Rightarrow> settings_tab \<Rightarrow> bool" where
  "deploy_controls_changed p s =
     (st_locked s \<noteq> pj_deploy_locked p \<or>
      or_undefined (st_health_path s) \<noteq> pj_health_check_path p \<or>
      or_undefined (st_health_timeout s) \<noteq> map_option show_int (pj_health_check_timeout p) \<or>
      or_undefined (st_webhook s) \<noteq> pj_webhook_url p \<or>
      or_undefined (st_expires s) \<noteq> expiry_text p)"

definition domain_changed :: "project \<Rightarrow> settings_tab \<Rightarrow> bool" where
  "domain_changed p s = (st_subdomain s \<noteq> project_subdomain p)"

section \<open>Requests\<close>

definition no_update :: project_update where
  "no_update =
     \<lparr>pu_name = Undefined, pu_repo_url = Undefined, pu_default_env = Undefined,
      pu_auto_deploy = Undefined, pu_framework = Undefined, pu_root_directory = Undefined,
      pu_build_command = Undefined, pu_install_command = Undefined, pu_output_directory = Undefined,
      pu_health_check_path = Undefined, pu_health_check_timeout = Undefined,
      pu_webhook_url = Undefined, pu_deploy_locked = Undefined, pu_expires_at = Undefined,
      pu_custom_subdomain = Undefined\<rparr>"

text \<open>\<open>s || null\<close> as a field.\<close>

definition or_null :: "string \<Rightarrow> string jsopt" where
  "or_null s = (if truthy s then Defined s else Null)"

definition domain_update :: "settings_tab \<Rightarrow> project_update" where
  "domain_update s = no_update\<lparr>pu_custom_subdomain := or_null (to_lower (trim (st_subdomain s)))\<rparr>"

definition build_update :: "settings_tab \<Rightarrow> project_update" where
  "build_update s =
     no_update\<lparr>pu_root_directory := or_null (st_root s), pu_build_command := or_null (st_build s),
       pu_install_command := or_null (st_install s), pu_output_directory := or_null (st_output s)\<rparr>"

text \<open>
  \<open>new Date(s)\<close> for a text without a zone is local time. \<open>zone t\<close> is how far (in milliseconds) the
  local clock is ahead of UTC when it shows \<open>t\<close>. None is an invalid date.
\<close>

definition local_date :: "(int \<Rightarrow> int) \<Rightarrow> string \<Rightarrow> int option" where
  "local_date zone s =
     (case read_minute s of
        None \<Rightarrow> None
      | Some m \<Rightarrow> let t = 60000 * int m - epoch_ms in Some (t - zone t))"

text \<open>
  The body of the update of the controls; None when \<open>toISOString\<close> throws. A timeout that is not a
  number is sent as null (\<open>JSON.stringify\<close> of \<open>NaN\<close>).
\<close>

definition controls_update :: "(int \<Rightarrow> int) \<Rightarrow> settings_tab \<Rightarrow> project_update option" where
  "controls_update zone s =
     (let u = no_update\<lparr>pu_health_check_path := or_null (st_health_path s),
            pu_health_check_timeout :=
              (if truthy (st_health_timeout s)
               then case parse_int (st_health_timeout s) of Some n \<Rightarrow> Defined n | None \<Rightarrow> Null
               else Null),
            pu_webhook_url := or_null (st_webhook s)\<rparr>
      in if truthy (st_expires s)
         then case local_date zone (st_expires s) of
                Some t \<Rightarrow> Some (u\<lparr>pu_expires_at := Defined (to_iso t)\<rparr>) | None \<Rightarrow> None
         else Some (u\<lparr>pu_expires_at := Null\<rparr>))"

section \<open>Operations\<close>

datatype save_kind = Save_domain | Save_auto bool | Save_build | Save_lock bool | Save_controls

datatype settings_cmd =
    UpdateProject save_kind project_update
  | DisconnectRepo
  | DeleteProject
  | NotifySettings
  | PushRoute string

datatype settings_reply = ProjectReply "project outcome" | SettingsDone "unit outcome"

definition handle_save_domain :: "settings_tab \<Rightarrow> settings_tab \<times> settings_cmd list" where
  "handle_save_domain s =
     (s\<lparr>st_saving_domain := True, st_message := JStr []\<rparr>, [UpdateProject Save_domain (domain_update s)])"

definition handle_toggle_auto_deploy :: "settings_tab \<Rightarrow> settings_tab \<times> settings_cmd list" where
  "handle_toggle_auto_deploy s =
     (let v = (\<not> st_auto s)
      in (s\<lparr>st_auto := v, st_saving := True, st_message := JStr []\<rparr>,
          [UpdateProject (Save_auto v) (no_update\<lparr>pu_auto_deploy := Defined v\<rparr>)]))"

definition handle_save_build_settings :: "settings_tab \<Rightarrow> settings_tab \<times> settings_cmd list" where
  "handle_save_build_settings s =
     (s\<lparr>st_saving_build := True, st_message := JStr []\<rparr>, [UpdateProject Save_build (build_update s)])"

definition handle_toggle_deploy_lock :: "settings_tab \<Rightarrow> settings_tab \<times> settings_cmd list" where
  "handle_toggle_deploy_lock s =
     (let v = (\<not> st_locked s)
      in (s\<lparr>st_locked := v, st_saving := True, st_message := JStr []\<rparr>,
          [UpdateProject (Save_lock v) (no_update\<lparr>pu_deploy_locked := Defined v\<rparr>)]))"

definition handle_save_deploy_controls :: "(int \<Rightarrow> int) \<Rightarrow> settings_tab \<Rightarrow> settings_tab \<times> settings_cmd list" where
  "handle_save_deploy_controls zone s =
     (case controls_update zone s of
        Some u \<Rightarrow> (s\<lparr>st_saving_deploy := True, st_message := JStr []\<rparr>, [UpdateProject Save_controls u])
      | None \<Rightarrow> (s\<lparr>st_saving_deploy := False, st_message := JStr ''Failed to save deploy controls.''\<rparr>, []))"

definition handle_disconnect_repo :: "settings_tab \<Rightarrow> settings_tab \<times> settings_cmd list" where
  "handle_disconnect_repo s = (s\<lparr>st_disconnecting := True\<rparr>, [DisconnectRepo])"

definition handle_delete_project :: "settings_tab \<Rightarrow> settings_tab \<times> settings_cmd list" where
  "handle_delete_project s = (s\<lparr>st_deleting := True\<rparr>, [DeleteProject])"

datatype settings_event =
    SetSubdomain string | SetRoot string | SetInstall string | SetBuildCommand string | SetOutput string
  | SetHealthPath string | SetHealthTimeout string | SetWebhook string | SetExpires string
  | SaveDomain | ToggleAutoDeploy | SaveBuildSettings | ToggleDeployLock | SaveDeployControls
  | AskDisconnect | CancelDisconnect | ConfirmDisconnect
  | AskDelete | CancelDelete | ConfirmDelete

fun settings_handle ::
  "(int \<Rightarrow> int) \<Rightarrow> settings_event \<Rightarrow> settings_tab \<Rightarrow> settings_tab \<times> settings_cmd list" where
  "settings_handle zone (SetSubdomain v) s = (s\<lparr>st_subdomain := to_lower v\<rparr>, [])"
| "settings_handle zone (SetRoot v) s = (s\<lparr>st_root := v\<rparr>, [])"
| "settings_handle zone (SetInstall v) s = (s\<lparr>st_install := v\<rparr>, [])"
| "settings_handle zone (SetBuildCommand v) s = (s\<lparr>st_build := v\<rparr>, [])"
| "settings_handle zone (SetOutput v) s = (s\<lparr>st_output := v\<rparr>, [])"
| "settings_handle zone (SetHealthPath v) s = (s\<lparr>st_health_path := v\<rparr>, [])"
| "settings_handle zone (SetHealthTimeout v) s = (s\<lparr>st_health_timeout := v\<rparr>, [])"
| "settings_handle zone (SetWebhook v) s = (s\<lparr>st_webhook := v\<rparr>, [])"
| "settings_handle zone (SetExpires v) s = (s\<lparr>st_expires := v\<rparr>, [])"
| "settings_handle zone SaveDomain s = handle_save_domain s"
| "settings_handle zone ToggleAutoDeploy s = handle_toggle_auto_deploy s"
| "settings_handle zone SaveBuildSettings s = handle_save_build_settings s"
| "settings_handle zone ToggleDeployLock s = handle_toggle_deploy_lock s"
| "settings_handle zone SaveDeployControls s = handle_save_deploy_controls zone s"
| "settings_handle zone AskDisconnect s = (s\<lparr>st_show_disconnect := True\<rparr>, [])"
| "settings_handle zone CancelDisconnect s = (s\<lparr>st_show_disconnect := False\<rparr>, [])"
| "settings_handle zone ConfirmDisconnect s = handle_disconnect_repo s"
| "settings_handle zone AskDelete s = (s\<lparr>st_show_delete := True\<rparr>, [])"
| "settings_handle zone CancelDelete s = (s\<lparr>st_show_delete := False\<rparr>, [])"
| "settings_handle zone ConfirmDelete s = handle_delete_project s"

text \<open>What each handler does after its request succeeded or failed, before its \<open>finally\<close>.\<close>

fun saved :: "save_kind \<Rightarrow> project \<Rightarrow> settings_tab \<Rightarrow> settings_tab" where
  "saved Save_domain p s =
     s\<lparr>st_subdomain := project_subdomain p,
       st_message := JStr ''Production subdomain saved. The production route has been updated.''\<rparr>"
| "saved (Save_auto v) p s =
     s\<lparr>st_message := JStr (if v then ''Auto-deploy enabled. Pushes will trigger builds automatically.''
                           else ''Auto-deploy disabled.'')\<rparr>"
| "saved Save_build p s =
     s\<lparr>st_message := JStr ''Build settings saved. Changes will apply to the next build.''\<rparr>"
| "saved (Save_lock v) p s =
     s\<lparr>st_message := JStr (if v then ''Deploys are now locked. No new deploys will be triggered.''
                           else ''Deploys are now unlocked.'')\<rparr>"
| "saved Save_controls p s = s\<lparr>st_message := JStr ''Deploy controls saved.''\<rparr>"

fun save_failed :: "save_kind \<Rightarrow> js_exn \<Rightarrow> settings_tab \<Rightarrow> settings_tab" where
  "save_failed Save_domain e s = s\<lparr>st_message := detail_or ''Failed to save production subdomain.'' e\<rparr>"
| "save_failed (Save_auto v) e s = s\<lparr>st_auto := \<not> v, st_message := JStr ''Failed to update setting.''\<rparr>"
| "save_failed Save_build e s = s\<lparr>st_message := JStr ''Failed to save build settings.''\<rparr>"
| "save_failed (Save_lock v) e s =
     s\<lparr>st_locked := \<not> v, st_message := JStr ''Failed to update deploy lock.''\<rparr>"
| "save_failed Save_controls e s = s\<lparr>st_message := JStr ''Failed to save deploy controls.''\<rparr>"

fun save_done :: "save_kind \<Rightarrow> settings_tab \<Rightarrow> settings_tab" where
  "save_done Save_domain s = s\<lparr>st_saving_domain := False\<rparr>"
| "save_done (Save_auto v) s = s\<lparr>st_saving := False\<rparr>"
| "save_done Save_build s = s\<lparr>st_saving_build := False\<rparr>"
| "save_done (Save_lock v) s = s\<lparr>st_saving := False\<rparr>"
| "save_done Save_controls s = s\<lparr>st_saving_deploy := False\<rparr>"

fun settings_resume :: "settings_cmd \<Rightarrow> settings_reply \<Rightarrow> settings_tab \<Rightarrow> settings_tab \<times> settings_cmd list" where
  "settings_resume (UpdateProject k u) (ProjectReply (Inr p)) s =
     (save_done k (saved k p s), [NotifySettings])"
| "settings_resume (UpdateProject k u) (ProjectReply (Inl e)) s = (save_done k (save_failed k e s), [])"
| "settings_resume DisconnectRepo (SettingsDone (Inr x)) s =
     (s\<lparr>st_show_disconnect := False, st_disconnecting := False\<rparr>, [NotifySettings])"
| "settings_resume DisconnectRepo (SettingsDone (Inl e)) s =
     (s\<lparr>st_message := JStr ''Failed to disconnect repository.'', st_disconnecting := False\<rparr>, [])"
| "settings_resume DeleteProject (SettingsDone (Inr x)) s = (s, [PushRoute ''/dashboard''])"
| "settings_resume DeleteProject (SettingsDone (Inl e)) s =
     (s\<lparr>st_message := detail_or ''Failed to delete project.'' e, st_deleting := False\<rparr>, [])"
| "settings_resume c r s = (s, [])"

section \<open>View\<close>

definition setting_field :: "string \<Rightarrow> string \<Rightarrow> string \<Rightarrow> string \<Rightarrow> (string \<Rightarrow> 'e) \<Rightarrow> string \<Rightarrow> 'e view" where
  "setting_field label kind value placeholder put hint =
     Frag [labelled label (Inp kind value placeholder put), para hint]"

definition save_row :: "bool \<Rightarrow> bool \<Rightarrow> 'e \<Rightarrow> 'e view" where
  "save_row saving unsaved save =
     El ''div''
       [Btn (saving \<or> \<not> unsaved) (Some save) [Txt (if saving then ''Saving...'' else ''Save'')],
        when_view unsaved (El ''span'' [Txt ''Unsaved changes''])]"

definition switch :: "bool \<Rightarrow> bool \<Rightarrow> 'e \<Rightarrow> 'e view" where
  "switch value disabled toggle =
     Btn disabled (Some toggle) [El (if value then ''switch.on'' else ''switch.off'') []]"

definition domain_card :: "project \<Rightarrow> settings_tab \<Rightarrow> settings_event view" where
  "domain_card p s =
     El ''div''
       [El ''h3'' [Txt ''Production Domain''],
        para ''Choose a unique hostname for the current production deploy. Platform service names such as api, auth, and registry are reserved.'',
        labelled ''Subdomain'' (Inp ''text'' (st_subdomain s) [] SetSubdomain),
        El ''span'' [Txt ''.tbd-dev.calpolysoc.org''],
        Btn (\<not> domain_changed p s \<or> st_saving_domain s) (Some SaveDomain)
          [Txt (if st_saving_domain s then ''Saving...'' else ''Save domain'')]]"

definition repo_card :: "project \<Rightarrow> settings_tab \<Rightarrow> settings_event view" where
  "repo_card p s =
     El ''div''
       [El ''h3'' [Txt ''Connected Repository''],
        (case pj_repo p of
           None \<Rightarrow> para ''No repository connected. Use the banner above to connect one.''
         | Some r \<Rightarrow> Frag
             [El ''p'' [given (rp_repo_full_name r) Txt],
              para (''Branch: '' @ rp_default_branch r @ '' | Provider: '' @ rp_provider r),
              Btn (st_disconnecting s) (Some AskDisconnect) [Txt ''Disconnect'']])]"

definition auto_deploy_card :: "settings_tab \<Rightarrow> settings_event view" where
  "auto_deploy_card s =
     El ''div''
       [El ''h3'' [Txt ''Auto Deploy''],
        para ''Automatically build and deploy when code is pushed to the default branch.'',
        switch (st_auto s) (st_saving s) ToggleAutoDeploy]"

definition build_settings_card :: "project \<Rightarrow> settings_tab \<Rightarrow> settings_event view" where
  "build_settings_card p s =
     El ''div''
       [El ''h3'' [Txt ''Build & Development Settings''],
        para ''Override the default build behavior. Leave blank to use auto-detected defaults.'',
        setting_field ''Root Directory'' ''text'' (st_root s) ''./'' SetRoot
          ''The directory where your source code is located, relative to the repo root. Used as the build context.'',
        setting_field ''Install Command'' ''text'' (st_install s)
          (if pj_framework p = Some ''python'' then ''pip install -r requirements.txt'' else ''npm ci'')
          SetInstall ''The command used to install dependencies.'',
        setting_field ''Build Command'' ''text'' (st_build s) ''npm run build'' SetBuildCommand
          ''The command used to build your project.'',
        setting_field ''Output Directory'' ''text'' (st_output s)
          (if pj_framework p = Some ''react'' then ''dist'' else []) SetOutput
          ''The directory where the build output is located. Used for static and React builds.'',
        save_row (st_saving_build s) (build_settings_changed p s) SaveBuildSettings]"

definition framework_card :: "project \<Rightarrow> 'e view" where
  "framework_card p =
     given (pj_framework p) (\<lambda>f.
       El ''div''
         [El ''h3'' [Txt ''Detected Framework''], para f,
          para ''Detected automatically during the first build. Used to generate a Dockerfile if one is not present in the repository.''])"

definition controls_card :: "project \<Rightarrow> settings_tab \<Rightarrow> settings_event view" where
  "controls_card p s =
     El ''div''
       [El ''h3'' [Txt ''Deploy Controls''],
        para ''Manage deploy locks, health checks, notifications, and project lifecycle.'',
        para ''Deploy Lock'', para ''When locked, no new deploys can be triggered for this project.'',
        switch (st_locked s) (st_saving s) ToggleDeployLock,
        setting_field ''Health Check Path'' ''text'' (st_health_path s) ''/healthz'' SetHealthPath
          ''Custom HTTP path to check after deploy. Defaults to / if not set.'',
        setting_field ''Health Check Timeout (seconds)'' ''number'' (st_health_timeout s) ''30''
          SetHealthTimeout ''Max seconds to wait for the health check to pass (5-600).'',
        setting_field ''Webhook URL'' ''url'' (st_webhook s) ''https://hooks.slack.com/services/...''
          SetWebhook
          ''Receive deploy success/failure notifications via webhook (Slack, Discord, etc.).'',
        setting_field ''Project Expiry Date'' ''datetime-local'' (st_expires s) [] SetExpires
          ''Automatically lock deploys after this date. Leave blank for no expiry.'',
        save_row (st_saving_deploy s) (deploy_controls_changed p s) SaveDeployControls]"

definition danger_card :: "settings_tab \<Rightarrow> settings_event view" where
  "danger_card s =
     El ''div''
       [El ''h3'' [Txt ''Danger Zone''], para ''Delete this project'',
        para ''Permanently remove this project, its environments, builds, and deploys. This action cannot be undone.'',
        Btn (st_deleting s) (Some AskDelete) [Txt ''Delete Project'']]"

definition settings_dialogs :: "project \<Rightarrow> settings_tab \<Rightarrow> settings_event view" where
  "settings_dialogs p s =
     Frag
       [confirm_modal (st_show_disconnect s) CancelDisconnect ConfirmDisconnect
          \<lparr>cp_title = ''Disconnect repository'',
           cp_description = Some ''Disconnect this repository? Existing builds and deploys will not be affected.'',
           cp_confirm_label = Some ''Disconnect'', cp_cancel_label = None,
           cp_loading = st_disconnecting s\<rparr>,
        confirm_modal (st_show_delete s) CancelDelete ConfirmDelete
          \<lparr>cp_title = ''Delete project'',
           cp_description = Some (''Permanently delete '' @ [CHR 0x22] @ pj_name p @ [CHR 0x22] @
             ''? This will remove all environments, builds, and deploys. This action cannot be undone.''),
           cp_confirm_label = Some ''Delete'', cp_cancel_label = None, cp_loading = st_deleting s\<rparr>]"

definition settings_view :: "project \<Rightarrow> settings_tab \<Rightarrow> settings_event view" where
  "settings_view p s =
     El ''div''
       [domain_card p s, repo_card p s, auto_deploy_card s, build_settings_card p s,
        framework_card p, controls_card p s, danger_card s, json_error (st_message s),
        settings_dialogs p s]"

lemma offers_setting_parts [simp]:
  "offers (setting_field l k v pl put h) e \<longleftrightarrow> (\<exists>x. e = put x)"
  "offers (save_row saving unsaved save) e \<longleftrightarrow> \<not> saving \<and> unsaved \<and> e = save"
  "offers (switch b d toggle) e \<longleftrightarrow> \<not> d \<and> e = toggle"
  "\<not> offers (framework_card p) e"
  by (auto simp: setting_field_def save_row_def switch_def framework_card_def)

lemma settings_view_offers:
  "offers (settings_view p s) ToggleAutoDeploy \<longleftrightarrow> \<not> st_saving s"
  "offers (settings_view p s) ToggleDeployLock \<longleftrightarrow> \<not> st_saving s"
  "offers (settings_view p s) SaveDomain \<longleftrightarrow> domain_changed p s \<and> \<not> st_saving_domain s"
  "offers (settings_view p s) SaveBuildSettings \<longleftrightarrow> build_settings_changed p s \<and> \<not> st_saving_build s"
  "offers (settings_view p s) SaveDeployControls \<longleftrightarrow> deploy_controls_changed p s \<and> \<not> st_saving_deploy s"
  "offers (settings_view p s) ConfirmDisconnect \<longleftrightarrow> st_show_disconnect s \<and> \<not> st_disconnecting s"
  "offers (settings_view p s) ConfirmDelete \<longleftrightarrow> st_show_delete s \<and> \<not> st_deleting s"
  by (auto simp: settings_view_def domain_card_def repo_card_def auto_deploy_card_def
      build_settings_card_def controls_card_def danger_card_def settings_dialogs_def
      split: option.splits)

section \<open>A saved form has no unsaved changes\<close>

text \<open>
  What the API (\<open>src/api/app/routers/projects.py\<close>) does with an update: the fields that are present are
  set, and a cleared subdomain becomes the slug.
\<close>

definition patch_field :: "'a jsopt \<Rightarrow> 'a option \<Rightarrow> 'a option" where
  "patch_field f old = (case f of Undefined \<Rightarrow> old | Null \<Rightarrow> None | Defined v \<Rightarrow> Some v)"

definition apply_update :: "project_update \<Rightarrow> project \<Rightarrow> project" where
  "apply_update u p =
     p\<lparr>pj_root_directory := patch_field (pu_root_directory u) (pj_root_directory p),
       pj_build_command := patch_field (pu_build_command u) (pj_build_command p),
       pj_install_command := patch_field (pu_install_command u) (pj_install_command p),
       pj_output_directory := patch_field (pu_output_directory u) (pj_output_directory p),
       pj_health_check_path := patch_field (pu_health_check_path u) (pj_health_check_path p),
       pj_health_check_timeout := patch_field (pu_health_check_timeout u) (pj_health_check_timeout p),
       pj_webhook_url := patch_field (pu_webhook_url u) (pj_webhook_url p),
       pj_expires_at := patch_field (pu_expires_at u) (pj_expires_at p),
       pj_custom_subdomain := (if pu_custom_subdomain u = Null then Some (pj_slug p)
         else patch_field (pu_custom_subdomain u) (pj_custom_subdomain p)),
       pj_auto_deploy := (case pu_auto_deploy u of Defined b \<Rightarrow> b | _ \<Rightarrow> pj_auto_deploy p),
       pj_deploy_locked := (case pu_deploy_locked u of Defined b \<Rightarrow> b | _ \<Rightarrow> pj_deploy_locked p)\<rparr>"

lemma patch_or_null [simp]: "patch_field (or_null v) old = or_undefined v"
  by (simp add: patch_field_def or_null_def or_undefined_def)

lemma patch_plain [simp]:
  "patch_field Undefined old = old" "patch_field Null old = None" "patch_field (Defined v) old = Some v"
  by (simp_all add: patch_field_def)

text \<open>
  A saved form has no unsaved changes: against the project as the API has updated it, the build
  settings that were sent count as unchanged, and so does the subdomain that the answer set; no
  field outside the form is touched.
\<close>

lemma saved_settings_unchanged:
  "\<not> build_settings_changed (apply_update (build_update s) p) s \<and>
   \<not> domain_changed (apply_update (domain_update s) p)
        (saved Save_domain (apply_update (domain_update s) p) s) \<and>
   deploy_controls_changed (apply_update (build_update s) p) s = deploy_controls_changed p s \<and>
   (\<forall>p'. build_settings_changed (apply_update (domain_update s) p') s = build_settings_changed p' s)"
  by (simp add: build_settings_changed_def domain_changed_def deploy_controls_changed_def
      apply_update_def build_update_def domain_update_def no_update_def expiry_text_def)

section \<open>The expiry date\<close>

lemma iso_minute_nonempty [simp]: "iso_minute t \<noteq> []"
  by (simp add: iso_minute_def Let_def split: prod.split)

lemma to_iso_minute:
  assumes "0 \<le> t + epoch_ms" and "t + epoch_ms < 60000 * int (1440 * days_before 10000)"
  shows "take 16 (to_iso t) = iso_minute (nat (t + epoch_ms) div 60000)"
proof -
  have "nat (t + epoch_ms) div 60000 < 1440 * days_before 10000"
    using assms by (intro div_less_iff_less_mult [THEN iffD2]) linarith+
  then show ?thesis
    using read_iso_minute by (simp add: to_iso_def Let_def)
qed

lemma local_date_iso:
  assumes "m < 1440 * days_before 10000"
  shows "local_date zone (iso_minute m) =
    Some (60000 * int m - epoch_ms - zone (60000 * int m - epoch_ms))"
  using read_iso_minute [OF assms] by (simp add: local_date_def Let_def)

lemma controls_update_expiry:
  assumes "local_date zone (st_expires s) = Some t" and "st_expires s \<noteq> []"
  shows "\<exists>u. controls_update zone s = Some u \<and> pu_expires_at u = Defined (to_iso t)"
  using assms by (simp add: controls_update_def Let_def truthy_def)

lemma iso_minute_eq:
  assumes "m < 1440 * days_before 10000" and "n < 1440 * days_before 10000"
  shows "iso_minute m = iso_minute n \<longleftrightarrow> m = n"
  using read_iso_minute [OF assms(1)] read_iso_minute [OF assms(2)] by (metis option.inject)

text \<open>
  The form shows the expiry date in UTC but reads it as local time: when the project expires at
  the minute \<open>m\<close> and the local clock is \<open>z\<close> minutes ahead of UTC, any save of the deploy controls (of
  the webhook, say) moves the expiry by \<open>-z\<close> minutes, so it is kept only where local time is UTC; and
  the form goes on saying that there are unsaved changes.
\<close>

lemma expiry_save_shifts:
  assumes "pj_expires_at p = Some e" and "take 16 e = iso_minute m"
    and "m < 1440 * days_before 10000"
    and "zone (60000 * int m - epoch_ms) = 60000 * z"
    and "0 \<le> int m - z" and "int m - z < int (1440 * days_before 10000)"
    and "st_expires s = st_expires (settings_initial p)"
  shows "\<exists>u. controls_update zone s = Some u \<and>
    expiry_text (apply_update u p) = Some (iso_minute (nat (int m - z))) \<and>
    (expiry_text (apply_update u p) = expiry_text p \<longleftrightarrow> z = 0) \<and>
    (z \<noteq> 0 \<longrightarrow> deploy_controls_changed (apply_update u p) s)"
proof -
  have ex: "expiry_text p = Some (iso_minute m)"
    using assms(1,2) iso_minute_nonempty [of m]
    by (cases e) (simp_all add: expiry_text_def truthy_opt_def truthy_def)
  then have se: "st_expires s = iso_minute m"
    using assms(7) by (simp add: settings_initial_def or_text_def)
  let ?t = "60000 * int m - epoch_ms - 60000 * z"
  have "local_date zone (st_expires s) = Some ?t"
    using local_date_iso [OF assms(3)] assms(4) by (simp add: se)
  from controls_update_expiry [OF this] obtain u where
    u: "controls_update zone s = Some u" "pu_expires_at u = Defined (to_iso ?t)"
    by (auto simp: se)
  have t: "?t + epoch_ms = 60000 * (int m - z)" by simp
  have "nat (?t + epoch_ms) div 60000 = nat (int m - z)"
    using assms(5) unfolding t by (simp add: nat_mult_distrib)
  then have iso: "take 16 (to_iso ?t) = iso_minute (nat (int m - z))"
    using to_iso_minute [of ?t] assms(5,6) t by simp
  then have "to_iso ?t \<noteq> []" using iso_minute_nonempty by (metis take_Nil)
  with iso have shown: "expiry_text (apply_update u p) = Some (iso_minute (nat (int m - z)))"
    by (simp add: expiry_text_def apply_update_def u(2) truthy_opt_def truthy_def)
  have eq: "iso_minute (nat (int m - z)) = iso_minute m \<longleftrightarrow> z = 0"
    using iso_minute_eq [OF _ assms(3), of "nat (int m - z)"] assms(5,6) by auto
  then have "z \<noteq> 0 \<longrightarrow> or_undefined (st_expires s) \<noteq> expiry_text (apply_update u p)"
    by (auto simp: shown se or_undefined_def truthy_def)
  then have "z \<noteq> 0 \<longrightarrow> deploy_controls_changed (apply_update u p) s"
    unfolding deploy_controls_changed_def by blast
  with u(1) shown ex eq show ?thesis by auto
qed

lemma expiry_save_shifts_witness:
  "\<exists>u. controls_update (\<lambda>t. -8 * 3600000)
       (settings_initial (sample_project\<lparr>pj_expires_at := Some ''2026-06-01T00:00:00+00:00''\<rparr>)) = Some u \<and>
     expiry_text (apply_update u (sample_project\<lparr>pj_expires_at := Some ''2026-06-01T00:00:00+00:00''\<rparr>)) =
       Some ''2026-06-01T08:00''"
proof -
  let ?p = "sample_project\<lparr>pj_expires_at := Some ''2026-06-01T00:00:00+00:00''\<rparr>"
  let ?m = "1440 * 740133 :: nat"
  have m: "iso_minute ?m = ''2026-06-01T00:00''" and n: "iso_minute (?m + 480) = ''2026-06-01T08:00''"
    by (simp_all add: iso_run)
  have big: "days_before 10000 = 3652425" by (simp add: days_before_def)
  have sum: "nat (int ?m - (-480)) = ?m + 480" by simp
  have "\<exists>u. controls_update (\<lambda>t. -8 * 3600000) (settings_initial ?p) = Some u \<and>
      expiry_text (apply_update u ?p) = Some (iso_minute (nat (int ?m - (-480)))) \<and>
      (expiry_text (apply_update u ?p) = expiry_text ?p \<longleftrightarrow> (-480 :: int) = 0) \<and>
      ((-480 :: int) \<noteq> 0 \<longrightarrow> deploy_controls_changed (apply_update u ?p) (settings_initial ?p))"
  proof (rule expiry_save_shifts)
    show "pj_expires_at ?p = Some ''2026-06-01T00:00:00+00:00''" by simp
    show "take 16 ''2026-06-01T00:00:00+00:00'' = iso_minute ?m" unfolding m by simp
  qed (simp_all add: big)
  then show ?thesis unfolding sum n by blast
qed

section \<open>The switches follow the server\<close>

text \<open>
  The parent may pass the project again at any time, and Escape or the backdrop close a dialog even
  while its operation runs.
\<close>

definition settings_offered :: "settings_tab \<Rightarrow> settings_event \<Rightarrow> bool" where
  "settings_offered s e =
     ((\<exists>p. offers (settings_view p s) e) \<or>
      st_show_disconnect s \<and> e = CancelDisconnect \<or> st_show_delete s \<and> e = CancelDelete)"

fun settings_answers :: "settings_cmd \<Rightarrow> settings_reply \<Rightarrow> bool" where
  "settings_answers (UpdateProject k u) (ProjectReply r) = True"
| "settings_answers DisconnectRepo (SettingsDone r) = True"
| "settings_answers DeleteProject (SettingsDone r) = True"
| "settings_answers NotifySettings (SettingsDone r) = True"
| "settings_answers (PushRoute h) (SettingsDone r) = True"
| "settings_answers c r = False"

text \<open>
  The specification of the switches: the project as the server has it. Every update that the server
  answers with a project has been applied to it, as its own code applies the body of the request; a
  request that failed counts as not accepted. The tab beside it is as above.
\<close>

fun server_project :: "settings_cmd \<Rightarrow> settings_reply \<Rightarrow> project \<Rightarrow> project" where
  "server_project (UpdateProject k u) (ProjectReply (Inr p)) w = apply_update u w"
| "server_project c r w = w"

definition pair_offered :: "settings_tab \<times> project \<Rightarrow> settings_event \<Rightarrow> bool" where
  "pair_offered sw e = settings_offered (fst sw) e"

definition pair_handle ::
  "(int \<Rightarrow> int) \<Rightarrow> settings_event \<Rightarrow> settings_tab \<times> project \<Rightarrow> (settings_tab \<times> project) \<times> settings_cmd list" where
  "pair_handle zone e sw =
     (let (s', cs) = settings_handle zone e (fst sw) in ((s', snd sw), cs))"

definition pair_resume ::
  "settings_cmd \<Rightarrow> settings_reply \<Rightarrow> settings_tab \<times> project \<Rightarrow> (settings_tab \<times> project) \<times> settings_cmd list" where
  "pair_resume c r sw =
     (let (s', cs) = settings_resume c r (fst sw) in ((s', server_project c r (snd sw)), cs))"

definition pair_start :: "project \<Rightarrow> (settings_tab \<times> project, settings_cmd) world" where
  "pair_start p = ((settings_initial p, p), [])"

abbreviation pair_steps where
  "pair_steps zone \<equiv> wstep pair_offered (pair_handle zone) pair_resume settings_answers"

text \<open>A request to switch is one whose body sets one of the two; so the tag of a request says.\<close>

fun is_switch :: "settings_cmd \<Rightarrow> bool" where
  "is_switch (UpdateProject k u) =
     (pu_auto_deploy u \<noteq> Undefined \<or> pu_deploy_locked u \<noteq> Undefined)"
| "is_switch c = False"

fun well_tagged :: "settings_cmd \<Rightarrow> bool" where
  "well_tagged (UpdateProject k u) =
     (is_switch (UpdateProject k u) = (case k of Save_auto v \<Rightarrow> True | Save_lock v \<Rightarrow> True | _ \<Rightarrow> False))"
| "well_tagged c = True"

text \<open>How the tab's switches relate to the server's, with the requests \<open>qs\<close> to switch in flight.\<close>

fun switch_rel :: "settings_cmd list \<Rightarrow> settings_tab \<Rightarrow> project \<Rightarrow> bool" where
  "switch_rel [] s w =
     (\<not> st_saving s \<and> st_auto s = pj_auto_deploy w \<and> st_locked s = pj_deploy_locked w)"
| "switch_rel [UpdateProject (Save_auto v) u] s w =
     (st_saving s \<and> u = no_update\<lparr>pu_auto_deploy := Defined v\<rparr> \<and>
      st_auto s = v \<and> pj_auto_deploy w = (\<not> v) \<and> st_locked s = pj_deploy_locked w)"
| "switch_rel [UpdateProject (Save_lock v) u] s w =
     (st_saving s \<and> u = no_update\<lparr>pu_deploy_locked := Defined v\<rparr> \<and>
      st_auto s = pj_auto_deploy w \<and> st_locked s = v \<and> pj_deploy_locked w = (\<not> v))"
| "switch_rel cs s w = False"

definition settings_inv :: "settings_tab \<times> project \<Rightarrow> settings_cmd list \<Rightarrow> bool" where
  "settings_inv sw fl =
     (switch_rel (filter is_switch fl) (fst sw) (snd sw) \<and> list_all well_tagged fl)"

text \<open>Whatever leaves the switches and their flag alone keeps the relation.\<close>

lemma switch_rel_cong:
  assumes "st_saving s' = st_saving s" and "st_auto s' = st_auto s" and "st_locked s' = st_locked s"
    and "pj_auto_deploy w' = pj_auto_deploy w" and "pj_deploy_locked w' = pj_deploy_locked w"
  shows "switch_rel qs s' w' = switch_rel qs s w"
  using assms by (induction qs s w rule: switch_rel.induct) auto

lemma switch_rel_saving: "switch_rel qs s w \<Longrightarrow> \<not> st_saving s \<Longrightarrow> qs = []"
  by (induction qs s w rule: switch_rel.induct) auto

lemma switch_rel_single: "switch_rel qs s w \<Longrightarrow> c \<in> set qs \<Longrightarrow> qs = [c]"
  by (induction qs s w rule: switch_rel.induct) auto

lemma switch_updates [simp]:
  "pj_auto_deploy (apply_update (no_update\<lparr>pu_auto_deploy := Defined v\<rparr>) w) = v"
  "pj_deploy_locked (apply_update (no_update\<lparr>pu_auto_deploy := Defined v\<rparr>) w) = pj_deploy_locked w"
  "pj_auto_deploy (apply_update (no_update\<lparr>pu_deploy_locked := Defined v\<rparr>) w) = pj_auto_deploy w"
  "pj_deploy_locked (apply_update (no_update\<lparr>pu_deploy_locked := Defined v\<rparr>) w) = v"
  by (simp_all add: apply_update_def no_update_def)

lemma switch_rel_phase:
  "switch_rel qs s w \<Longrightarrow>
   (qs = [] \<longrightarrow> \<not> st_saving s \<and> st_auto s = pj_auto_deploy w \<and> st_locked s = pj_deploy_locked w) \<and>
   (qs \<noteq> [] \<longrightarrow> st_saving s \<and>
     (\<exists>k u. qs = [UpdateProject k u] \<and>
        st_auto s = pj_auto_deploy (apply_update u w) \<and>
        st_locked s = pj_deploy_locked (apply_update u w)) \<and>
     (st_auto s = pj_auto_deploy w) = (st_locked s \<noteq> pj_deploy_locked w))"
  by (induction qs s w rule: switch_rel.induct) auto

lemma settings_handle_other:
  assumes "settings_handle zone e s = (s', cs)" and "e \<noteq> ToggleAutoDeploy" and "e \<noteq> ToggleDeployLock"
  shows "filter is_switch cs = [] \<and> list_all well_tagged cs \<and> st_saving s' = st_saving s \<and>
    st_auto s' = st_auto s \<and> st_locked s' = st_locked s"
  using assms by (cases e) (auto simp: handle_save_domain_def handle_save_build_settings_def
      handle_save_deploy_controls_def handle_disconnect_repo_def handle_delete_project_def
      domain_update_def build_update_def controls_update_def no_update_def Let_def
      split: option.splits if_splits)

lemma settings_inv_handle:
  assumes "settings_inv sw fl" and "pair_offered sw e" and "pair_handle zone e sw = (sw', cs)"
  shows "settings_inv sw' (fl @ cs)"
proof -
  obtain s w where sw: "sw = (s, w)" by (cases sw)
  obtain s' where h: "settings_handle zone e s = (s', cs)" and sw': "sw' = (s', w)"
    using assms(3) by (auto simp: pair_handle_def sw split: prod.splits)
  have r: "switch_rel (filter is_switch fl) s w" and t: "list_all well_tagged fl"
    using assms(1) by (simp_all add: settings_inv_def sw)
  show ?thesis
  proof (cases "e = ToggleAutoDeploy \<or> e = ToggleDeployLock")
    case True
    then have "\<not> st_saving s"
      using assms(2) by (auto simp: pair_offered_def settings_offered_def sw settings_view_offers)
    with r have "filter is_switch fl = []" by (rule switch_rel_saving)
    with r t True h show ?thesis
      by (auto simp: settings_inv_def sw' handle_toggle_auto_deploy_def handle_toggle_deploy_lock_def
          no_update_def Let_def)
  next
    case False
    note o = settings_handle_other [OF h] False
    then have "switch_rel (filter is_switch fl) s' w"
      using r switch_rel_cong [of s' s w w] by blast
    with o t show ?thesis by (simp add: settings_inv_def sw')
  qed
qed

lemma settings_resume_other:
  assumes "settings_resume c r s = (s', cs)" and "\<not> is_switch c" and "well_tagged c"
  shows "filter is_switch cs = [] \<and> list_all well_tagged cs \<and> st_saving s' = st_saving s \<and>
    st_auto s' = st_auto s \<and> st_locked s' = st_locked s \<and>
    pj_auto_deploy (server_project c r w) = pj_auto_deploy w \<and>
    pj_deploy_locked (server_project c r w) = pj_deploy_locked w"
proof (cases c)
  case (UpdateProject k u)
  with assms show ?thesis
    by (cases k; cases r) (auto simp: apply_update_def split: sum.splits elim!: settings_resume.elims)
qed (use assms in \<open>cases r; auto elim!: settings_resume.elims\<close>)+

lemma settings_inv_resume:
  assumes "settings_inv sw (xs @ c # ys)" and "settings_answers c r" and "pair_resume c r sw = (sw', cs)"
  shows "settings_inv sw' (xs @ ys @ cs)"
proof -
  obtain s w where sw: "sw = (s, w)" by (cases sw)
  obtain s' where h: "settings_resume c r s = (s', cs)" and sw': "sw' = (s', server_project c r w)"
    using assms(3) by (auto simp: pair_resume_def sw split: prod.splits)
  have rel: "switch_rel (filter is_switch (xs @ c # ys)) s w" and tags: "list_all well_tagged (xs @ c # ys)"
    using assms(1) by (simp_all add: settings_inv_def sw)
  show ?thesis
  proof (cases "is_switch c")
    case False
    note o = settings_resume_other [OF h False, of w]
    with tags have "switch_rel (filter is_switch (xs @ c # ys)) s' (server_project c r w)"
      using rel switch_rel_cong [of s' s "server_project c r w" w] by simp
    with o tags False show ?thesis by (simp add: settings_inv_def sw')
  next
    case True
    then have "filter is_switch (xs @ c # ys) = [c]"
      by (intro switch_rel_single [OF rel]) simp
    with True have none: "filter is_switch (xs @ ys) = []" and one: "switch_rel [c] s w"
      using rel by (auto simp: append_eq_Cons_conv)
    from none have nil: "filter is_switch xs = []" "filter is_switch ys = []" by simp_all
    from one obtain v u where "c = UpdateProject (Save_auto v) u \<or> c = UpdateProject (Save_lock v) u"
      by (cases "([c], s, w)" rule: switch_rel.cases) auto
    moreover from this assms(2) obtain x where x: "r = ProjectReply x" by (cases r) auto
    ultimately show ?thesis
      using h one tags by (cases x) (auto simp: settings_inv_def sw' nil)
  qed
qed

interpretation settings_world: world_invariant pair_offered "pair_handle zone" pair_resume
  settings_answers "pair_start p" settings_inv for zone p
proof unfold_locales
  show "settings_inv (fst (pair_start p)) (snd (pair_start p))"
    by (simp add: settings_inv_def pair_start_def settings_initial_def)
qed (blast intro: settings_inv_handle settings_inv_resume)+

text \<open>
  C6: the two switches refine the server's: at most one request whose body sets a switch is in flight,
  and when none is, both switches show the value that the project has at the server, where the bodies
  of all accepted requests have been applied, those of the tab's forms too, and failed ones count as not
  accepted; while one is in flight both show what the server has once it accepts that body, and only one
  of them is ahead of it.
\<close>

theorem switches_follow_server:
  assumes "(pair_steps zone)\<^sup>*\<^sup>* (pair_start p) ((s, w), fl)"
  shows "(filter is_switch fl = [] \<longrightarrow>
      \<not> st_saving s \<and> st_auto s = pj_auto_deploy w \<and> st_locked s = pj_deploy_locked w) \<and>
    (filter is_switch fl \<noteq> [] \<longrightarrow> st_saving s \<and>
      (\<exists>k u. filter is_switch fl = [UpdateProject k u] \<and>
         st_auto s = pj_auto_deploy (apply_update u w) \<and>
         st_locked s = pj_deploy_locked (apply_update u w)) \<and>
      (st_auto s = pj_auto_deploy w) = (st_locked s \<noteq> pj_deploy_locked w))"
proof -
  have "switch_rel (filter is_switch fl) s w"
    using settings_world.reach_state_inv [OF assms] by (simp add: settings_inv_def)
  then show ?thesis by (rule switch_rel_phase)
qed

definition toggle_script :: "(settings_event + nat \<times> settings_reply) list" where
  "toggle_script = [Inl ToggleAutoDeploy, Inr (0, ProjectReply (Inr sample_project)),
     Inl ToggleDeployLock, Inr (1, ProjectReply (Inl (JsErr ''Failed to fetch'')))]"

theorem switches_follow_server_witness:
  "\<exists>s w. (pair_steps (\<lambda>t. 0))\<^sup>*\<^sup>* (pair_start sample_project) ((s, w), [NotifySettings]) \<and>
     \<not> st_auto s \<and> \<not> pj_auto_deploy w \<and> \<not> st_locked s \<and> \<not> st_saving s"
proof -
  have offered: "\<exists>p. offers (settings_view p s) ToggleAutoDeploy"
    "\<exists>p. offers (settings_view p s) ToggleDeployLock" if "\<not> st_saving s" for s
    using that by (simp_all add: settings_view_offers)
  have "playable pair_offered (pair_handle (\<lambda>t. 0)) pair_resume settings_answers toggle_script
      (pair_start sample_project)"
    by (simp add: toggle_script_def pair_start_def pair_offered_def settings_offered_def offered
        pair_handle_def pair_resume_def settings_initial_def handle_toggle_auto_deploy_def
        handle_toggle_deploy_lock_def Let_def)
  from run_script_reaches [OF this]
  obtain s w where r: "(pair_steps (\<lambda>t. 0))\<^sup>*\<^sup>* (pair_start sample_project) ((s, w), [NotifySettings])"
    "\<not> pj_auto_deploy w" "\<not> pj_deploy_locked w"
    by (auto simp: toggle_script_def pair_start_def pair_handle_def pair_resume_def settings_initial_def
        handle_toggle_auto_deploy_def handle_toggle_deploy_lock_def sample_project_def Let_def)
  with switches_follow_server [OF r(1)] show ?thesis by auto
qed

end
