(* ===== verification/ProjectPage.thy ===== *)
theory ProjectPage
  imports ProjectOverview ProjectDeploys ProjectBuilds ProjectEnvironments ProjectMembers ProjectSettings
begin

text \<open>
  The project page as a whole: the container, the banner and the tab that is mounted, with the
  requests of all of them in flight together. A tab is mounted when it is selected and the page has
  its project, and its state is lost when another is selected; the answers to an unmounted tab's
  requests change no state, but the code after the await still runs, so it still asks the container
  for an update.
\<close>

section \<open>The mounted tab\<close>

datatype mounted =
    In_overview
  | In_deploys deploys_tab
  | In_builds builds_tab
  | In_environments envs_tab
  | In_members members_tab
  | In_settings settings_tab
  | In_secrets

fun mounted_tab :: "mounted \<Rightarrow> tab" where
  "mounted_tab In_overview = Overview"
| "mounted_tab (In_deploys s) = Deploys"
| "mounted_tab (In_builds s) = Builds"
| "mounted_tab (In_environments s) = Environments"
| "mounted_tab (In_members s) = Members"
| "mounted_tab (In_settings s) = Settings"
| "mounted_tab In_secrets = Secrets"

datatype tab_event =
    E_deploys deploys_event | E_builds builds_event | E_envs envs_event | E_members members_event
  | E_settings settings_event

datatype tab_cmd =
    C_deploys deploys_cmd | C_builds builds_cmd | C_envs envs_cmd | C_members members_cmd
  | C_settings settings_cmd

datatype tab_reply =
    R_deploys "unit outcome" | R_builds builds_reply | R_envs "environment outcome"
  | R_members members_reply | R_settings settings_reply

text \<open>What a mount begins with; the builds tab commits its first render as an event of its own.\<close>

fun mount_tab :: "project \<Rightarrow> build list \<Rightarrow> tab \<Rightarrow> mounted \<times> tab_cmd list" where
  "mount_tab p builds Overview = (In_overview, [])"
| "mount_tab p builds Deploys = (In_deploys deploys_initial, [])"
| "mount_tab p builds Builds = (In_builds (builds_initial builds), [])"
| "mount_tab p builds Environments = (In_environments envs_initial, [])"
| "mount_tab p builds Members = (In_members members_initial, [C_members (FetchMembers AtMount)])"
| "mount_tab p builds Settings = (In_settings (settings_initial p), [])"
| "mount_tab p builds Secrets = (In_secrets, [])"

section \<open>The page\<close>

text \<open>What the page's address and surroundings give its tabs.\<close>

record place =
  pl_id :: string
  pl_api :: "string option"
  pl_token :: "string option"
  pl_user :: "user_info option"
  pl_zone :: "int \<Rightarrow> int"
  pl_ambient :: ambient
  pl_iso_day :: "nat \<Rightarrow> string"
  pl_day_label :: "nat \<Rightarrow> string"
  pl_date_label :: "nat \<Rightarrow> string"

record screen =
  sc_page :: project_page
  sc_banner :: "banner option"
  sc_banners :: nat                    \<comment> \<open>mounts of the banner so far\<close>
  sc_mounted :: "mounted option"
  sc_mounts :: nat                     \<comment> \<open>mounts so far; requests carry the mount they belong to\<close>

datatype screen_event = PageEvent project_event | BannerEvent banner_event | TabEvent tab_event

datatype screen_cmd = PageCmd project_cmd | BannerCmd nat banner_cmd | TabCmd nat tab_cmd

datatype screen_reply =
    PageReply "project_data outcome" | BannerReply banner_reply | TabReply tab_reply

text \<open>The page past its loading and its error.\<close>

definition page_shown :: "project_page \<Rightarrow> project option" where
  "page_shown pg = (if pg_loading pg \<or> truthy (pg_error pg) then None else pg_project pg)"

text \<open>
  A render: the banner is there when the project has no repository, the selected tab is mounted,
  the builds tab gets the builds of the page.
\<close>

definition sync_banner :: "project option \<Rightarrow> screen \<Rightarrow> screen" where
  "sync_banner shown s =
     (if map_option (\<lambda>p. pj_repo p = None) shown = Some True
      then (case sc_banner s of
          None \<Rightarrow> s\<lparr>sc_banner := Some banner_initial, sc_banners := Suc (sc_banners s)\<rparr>
        | Some b \<Rightarrow> s)
      else s\<lparr>sc_banner := None\<rparr>)"

fun sync_builds :: "build list \<Rightarrow> mounted \<Rightarrow> mounted" where
  "sync_builds bs (In_builds s) = In_builds (s\<lparr>bt_builds := bs\<rparr>)"
| "sync_builds bs m = m"

definition render :: "screen \<Rightarrow> screen \<times> screen_cmd list" where
  "render s =
     (let pg = sc_page s; s = sync_banner (page_shown pg) s
      in case page_shown pg of
           None \<Rightarrow> (s\<lparr>sc_mounted := None\<rparr>, [])
         | Some p \<Rightarrow>
             if map_option mounted_tab (sc_mounted s) = Some (pg_tab pg)
             then (s\<lparr>sc_mounted := map_option (sync_builds (pg_builds pg)) (sc_mounted s)\<rparr>, [])
             else let (m, cs) = mount_tab p (pg_builds pg) (pg_tab pg); k = Suc (sc_mounts s)
                  in (s\<lparr>sc_mounted := Some m, sc_mounts := k\<rparr>, map (TabCmd k) cs))"

text \<open>An event of the banner or of the mounted tab.\<close>

definition tab_handle :: "place \<Rightarrow> project \<Rightarrow> tab_event \<Rightarrow> mounted \<Rightarrow> mounted \<times> tab_cmd list" where
  "tab_handle pl p e m =
     (case (e, m) of
        (E_deploys e, In_deploys s) \<Rightarrow> map_prod In_deploys (map C_deploys) (deploys_handle e s)
      | (E_builds e, In_builds s) \<Rightarrow>
          map_prod In_builds (map C_builds) (builds_handle (pl_api pl) (pl_id pl) (pl_token pl) p e s)
      | (E_envs e, In_environments s) \<Rightarrow> map_prod In_environments (map C_envs) (envs_handle e s)
      | (E_members e, In_members s) \<Rightarrow> map_prod In_members (map C_members) (members_handle e s)
      | (E_settings e, In_settings s) \<Rightarrow>
          map_prod In_settings (map C_settings) (settings_handle (pl_zone pl) e s)
      | _ \<Rightarrow> (m, []))"

text \<open>
  The answer to a request of a tab: the state it finds (the mounted tab's, or one that no longer
  matters), and the requests that follow.
\<close>

definition tab_resume :: "project \<Rightarrow> tab_cmd \<Rightarrow> tab_reply \<Rightarrow> mounted \<Rightarrow> mounted \<times> tab_cmd list" where
  "tab_resume p c r m =
     (case (c, m) of
        (C_deploys c, In_deploys s) \<Rightarrow>
          (case r of
             R_deploys r \<Rightarrow> map_prod In_deploys (map C_deploys) (deploys_resume c r s) | _ \<Rightarrow> (m, []))
      | (C_builds c, In_builds s) \<Rightarrow>
          (case r of R_builds r \<Rightarrow> map_prod In_builds (map C_builds) (builds_resume c r s) | _ \<Rightarrow> (m, []))
      | (C_envs c, In_environments s) \<Rightarrow>
          (case r of R_envs r \<Rightarrow> map_prod In_environments (map C_envs) (envs_resume c r s) | _ \<Rightarrow> (m, []))
      | (C_members c, In_members s) \<Rightarrow>
          (case r of
             R_members r \<Rightarrow> map_prod In_members (map C_members) (members_resume p c r s) | _ \<Rightarrow> (m, []))
      | (C_settings c, In_settings s) \<Rightarrow>
          (case r of
             R_settings r \<Rightarrow> map_prod In_settings (map C_settings) (settings_resume c r s) | _ \<Rightarrow> (m, []))
      | _ \<Rightarrow> (m, []))"

fun home_tab :: "tab_cmd \<Rightarrow> tab" where
  "home_tab (C_deploys c) = Deploys"
| "home_tab (C_builds c) = Builds"
| "home_tab (C_envs c) = Environments"
| "home_tab (C_members c) = Members"
| "home_tab (C_settings c) = Settings"

text \<open>The requests that are calls of the container's \<open>fetchAll\<close>.\<close>

fun notifies :: "tab_cmd \<Rightarrow> bool" where
  "notifies (C_deploys NotifyParent) = True"
| "notifies (C_builds NotifyBuilds) = True"
| "notifies (C_envs NotifyEnvs) = True"
| "notifies (C_settings NotifySettings) = True"
| "notifies c = False"

text \<open>The container's \<open>fetchAll\<close> called from below.\<close>

definition update_page :: "screen \<Rightarrow> screen \<times> screen_cmd list" where
  "update_page s =
     (let (pg, ps) = project_handle UpdateRequested (sc_page s)
      in (s\<lparr>sc_page := pg\<rparr>, map PageCmd ps))"

definition pass_on :: "nat \<Rightarrow> tab_cmd list \<Rightarrow> screen \<Rightarrow> screen \<times> screen_cmd list" where
  "pass_on k cs s =
     (let (s', ps) = (if \<exists>c \<in> set cs. notifies c then update_page s else (s, []))
      in (s', ps @ map (TabCmd k) (filter (\<lambda>c. \<not> notifies c) cs)))"

definition pass_on_banner :: "nat \<Rightarrow> banner_cmd list \<Rightarrow> screen \<Rightarrow> screen \<times> screen_cmd list" where
  "pass_on_banner k cs s =
     (let (s', ps) = (if NotifyConnected \<in> set cs then update_page s else (s, []))
      in (s', ps @ map (BannerCmd k) (filter (\<lambda>c. c \<noteq> NotifyConnected) cs)))"

fun screen_handle :: "place \<Rightarrow> screen_event \<Rightarrow> screen \<Rightarrow> screen \<times> screen_cmd list" where
  "screen_handle pl (PageEvent e) s =
     (let (pg, ps) = project_handle e (sc_page s); (s', cs) = render (s\<lparr>sc_page := pg\<rparr>)
      in (s', map PageCmd ps @ cs))"
| "screen_handle pl (BannerEvent e) s =
     (case sc_banner s of
        None \<Rightarrow> (s, [])
      | Some b \<Rightarrow>
          let (b', cs) = banner_handle e b
          in (s\<lparr>sc_banner := Some b'\<rparr>, map (BannerCmd (sc_banners s)) cs))"
| "screen_handle pl (TabEvent e) s =
     (case (sc_mounted s, pg_project (sc_page s)) of
        (Some m, Some p) \<Rightarrow>
          let (m', cs) = tab_handle pl p e m
          in (s\<lparr>sc_mounted := Some m'\<rparr>, map (TabCmd (sc_mounts s)) cs)
      | _ \<Rightarrow> (s, []))"

fun screen_resume :: "screen_cmd \<Rightarrow> screen_reply \<Rightarrow> screen \<Rightarrow> screen \<times> screen_cmd list" where
  "screen_resume (PageCmd c) (PageReply r) s =
     (let (pg, ps) = project_resume c r (sc_page s); (s', cs) = render (s\<lparr>sc_page := pg\<rparr>)
      in (s', map PageCmd ps @ cs))"
| "screen_resume (BannerCmd k c) (BannerReply r) s =
     (case sc_banner s of
        Some b \<Rightarrow>
          let (b', cs) = banner_resume c r b
          in pass_on_banner k cs (if k = sc_banners s then s\<lparr>sc_banner := Some b'\<rparr> else s)
      | None \<Rightarrow> pass_on_banner k (snd (banner_resume c r banner_initial)) s)"
| "screen_resume (TabCmd k c) (TabReply r) s =
     (case pg_project (sc_page s) of
        None \<Rightarrow> (s, [])
      | Some p \<Rightarrow>
          if k = sc_mounts s \<and> map_option mounted_tab (sc_mounted s) = Some (home_tab c)
          then let (m', cs) = tab_resume p c r (the (sc_mounted s))
               in pass_on k cs (s\<lparr>sc_mounted := Some m'\<rparr>)
          else pass_on k (snd (tab_resume p c r (fst (mount_tab p [] (home_tab c))))) s)"
| "screen_resume c r s = (s, [])"

definition screen_start :: "(screen, screen_cmd) world" where
  "screen_start =
     (let (pg, ps) = project_start
      in (\<lparr>sc_page = pg, sc_banner = None, sc_banners = 0, sc_mounted = None, sc_mounts = 0\<rparr>, map PageCmd ps))"

section \<open>View\<close>

definition tab_content :: "place \<Rightarrow> project_page \<Rightarrow> mounted \<Rightarrow> project \<Rightarrow> screen_event view" where
  "tab_content pl pg m p =
     (case m of
        In_overview \<Rightarrow>
          overview_tab (PageEvent \<circ> SelectTab) (pl_ambient pl) (pl_iso_day pl) (pl_day_label pl)
            (pl_date_label pl) p (pg_deploys pg) (pg_builds pg) (pg_envs pg) (pl_id pl)
      | In_deploys s \<Rightarrow> map_view (TabEvent \<circ> E_deploys)
          (deploys_view (pl_ambient pl) p (pg_envs pg) (pl_id pl) (pg_deploys pg) s)
      | In_builds s \<Rightarrow> map_view (TabEvent \<circ> E_builds) (builds_view (pl_ambient pl) (pl_id pl) p s)
      | In_environments s \<Rightarrow> map_view (TabEvent \<circ> E_envs) (envs_view (pl_ambient pl) (pg_envs pg) s)
      | In_members s \<Rightarrow> map_view (TabEvent \<circ> E_members) (members_view (pl_user pl) p s)
      | In_settings s \<Rightarrow> map_view (TabEvent \<circ> E_settings) (settings_view p s)
      | In_secrets \<Rightarrow> secrets_tab_link (pl_id pl))"

definition screen_view :: "place \<Rightarrow> screen \<Rightarrow> screen_event view" where
  "screen_view pl s =
     project_view (PageEvent \<circ> SelectTab)
       (case sc_banner s of None \<Rightarrow> Frag [] | Some b \<Rightarrow> map_view BannerEvent (banner_view b))
       (\<lambda>p t. case sc_mounted s of None \<Rightarrow> Frag [] | Some m \<Rightarrow> tab_content pl (sc_page s) m p)
       (sc_page s)"

section \<open>The machine of the page\<close>

definition tab_offered :: "place \<Rightarrow> project_page \<Rightarrow> project \<Rightarrow> mounted \<Rightarrow> tab_event \<Rightarrow> bool" where
  "tab_offered pl pg p m e =
     (case (e, m) of
        (E_deploys e, In_deploys s) \<Rightarrow>
          offers (deploys_view (pl_ambient pl) p (pg_envs pg) (pl_id pl) (pg_deploys pg) s) e \<or>
          e = CancelDestroy \<and> tb_destroy_target s \<noteq> None
      | (E_builds e, In_builds s) \<Rightarrow>
          builds_offered (pl_ambient pl) (pl_api pl) (pl_id pl) p s e \<and> (\<forall>bs. e \<noteq> NewBuilds bs)
      | (E_envs e, In_environments s) \<Rightarrow>
          offers (envs_view (pl_ambient pl) (pg_envs pg) s) e \<and> (e = SubmitEnv \<longrightarrow> en_name s \<noteq> [])
      | (E_members e, In_members s) \<Rightarrow> members_offered (pl_user pl) p s e
      | (E_settings e, In_settings s) \<Rightarrow>
          offers (settings_view p s) e \<or> st_show_disconnect s \<and> e = CancelDisconnect \<or>
          st_show_delete s \<and> e = CancelDelete
      | _ \<Rightarrow> False)"

fun screen_offered :: "place \<Rightarrow> screen \<Rightarrow> screen_event \<Rightarrow> bool" where
  "screen_offered pl s (PageEvent PollTick) = pg_interval (sc_page s)"
| "screen_offered pl s (PageEvent UpdateRequested) = False"
| "screen_offered pl s (PageEvent (SelectTab t)) = offers (screen_view pl s) (PageEvent (SelectTab t))"
| "screen_offered pl s (BannerEvent e) = offers (screen_view pl s) (BannerEvent e)"
| "screen_offered pl s (TabEvent e) =
     (case (sc_mounted s, page_shown (sc_page s)) of
        (Some m, Some p) \<Rightarrow> tab_offered pl (sc_page s) p m e
      | _ \<Rightarrow> False)"

fun screen_answers :: "(nat \<Rightarrow> project_data \<Rightarrow> bool) \<Rightarrow> screen_cmd \<Rightarrow> screen_reply \<Rightarrow> bool" where
  "screen_answers serves (PageCmd c) (PageReply r) = project_answers serves c r"
| "screen_answers serves (BannerCmd k c) (BannerReply r) = True"
| "screen_answers serves (TabCmd k c) (TabReply r) = True"
| "screen_answers serves c r = False"

abbreviation screen_steps where
  "screen_steps pl serves \<equiv>
     wstep (screen_offered pl) (screen_handle pl) screen_resume (screen_answers serves)"

section \<open>The container's machine is refined\<close>

text \<open>The requests in flight that are the container's.\<close>

fun page_cmds :: "screen_cmd list \<Rightarrow> project_cmd list" where
  "page_cmds [] = []"
| "page_cmds (PageCmd c # cs) = c # page_cmds cs"
| "page_cmds (c # cs) = page_cmds cs"

lemma page_cmds_append [simp]: "page_cmds (xs @ ys) = page_cmds xs @ page_cmds ys"
  by (induction xs rule: page_cmds.induct) simp_all

lemma page_cmds_map [simp]:
  "page_cmds (map PageCmd ps) = ps" "page_cmds (map (TabCmd k) cs) = []"
  "page_cmds (map (BannerCmd k) bs) = []"
  by (induction ps, simp_all) (induction cs, simp_all, induction bs, simp_all)

text \<open>What is on screen, or in flight, besides the container has been there only after a load.\<close>

fun beside :: "screen_cmd \<Rightarrow> bool" where
  "beside (PageCmd c) = False"
| "beside c = True"

definition loaded_inv :: "screen \<Rightarrow> screen_cmd list \<Rightarrow> bool" where
  "loaded_inv s fl =
     (sc_mounted s \<noteq> None \<or> sc_banner s \<noteq> None \<or> (\<exists>c \<in> set fl. beside c) \<longrightarrow> pg_project (sc_page s) \<noteq> None)"

lemma page_shown_project: "page_shown pg = Some p \<Longrightarrow> pg_project pg = Some p"
  by (simp add: page_shown_def split: if_splits)

lemma sync_banner_fields [simp]:
  "sc_page (sync_banner q s) = sc_page s" "sc_mounted (sync_banner q s) = sc_mounted s"
  "sc_mounts (sync_banner q s) = sc_mounts s"
  by (simp_all add: sync_banner_def split: option.splits)

lemma sync_banner_none: "sc_banner (sync_banner None s) = None"
  by (simp add: sync_banner_def)

lemma render_page [simp]: "sc_page (fst (render s)) = sc_page s"
  by (simp add: render_def Let_def split: option.splits prod.splits)

lemma render_cmds [simp]: "page_cmds (snd (render s)) = []"
  by (simp add: render_def Let_def split: option.splits prod.splits)

lemma render_loaded: "loaded_inv (fst (render s)) (snd (render s))"
proof (cases "page_shown (sc_page s)")
  case None
  then show ?thesis
    by (simp add: render_def Let_def loaded_inv_def sync_banner_none)
next
  case (Some p)
  then have "pg_project (sc_page s) \<noteq> None" using page_shown_project by blast
  then show ?thesis by (simp add: loaded_inv_def)
qed

lemma update_page_fields:
  assumes "update_page s = (s', ps)"
  shows "page_cmds ps = snd (fetch_all (sc_page s))" and "sc_page s' = fst (fetch_all (sc_page s))"
    and "filter beside ps = []" and "sc_mounted s' = sc_mounted s" and "sc_banner s' = sc_banner s"
  using assms by (auto simp: update_page_def filter_empty_conv split: prod.splits)

lemma project_loaded_stays:
  "pg_project s \<noteq> None \<Longrightarrow> pg_project (fst (project_handle e s)) \<noteq> None"
  "pg_project s \<noteq> None \<Longrightarrow> pg_project (fst (project_resume c r s)) \<noteq> None"
  by (cases e; simp add: fetch_all_def) (cases c; simp split: sum.splits)

definition page_moves ::
  "(nat \<Rightarrow> project_data \<Rightarrow> bool) \<Rightarrow> screen \<Rightarrow> screen \<Rightarrow> screen_cmd list \<Rightarrow> bool" where
  "page_moves serves s s' qs =
     (\<forall>fl. (project_steps serves)\<^sup>*\<^sup>* (sc_page s, fl) (sc_page s', fl @ page_cmds qs))"

lemma page_moves_same: "sc_page s' = sc_page s \<Longrightarrow> page_cmds qs = [] \<Longrightarrow> page_moves serves s s' qs"
  by (simp add: page_moves_def)

lemma page_moves_update:
  assumes "pg_project (sc_page s) \<noteq> None" and "update_page s = (s', ps)"
  shows "page_moves serves s s' ps"
proof -
  have "project_handle UpdateRequested (sc_page s) = (sc_page s', page_cmds ps)"
    using update_page_fields(1,2) [OF assms(2)] by simp
  moreover have "project_offered (sc_page s) UpdateRequested"
    using assms(1) by simp
  ultimately show ?thesis
    unfolding page_moves_def by (blast intro: wstep.act)
qed

lemma update_page_loaded:
  "update_page s = (s', ps) \<Longrightarrow> pg_project (sc_page s') = pg_project (sc_page s)"
  using update_page_fields(2) [of s s' ps] by (simp add: fetch_all_def)

lemma pass_on_moves:
  assumes "pg_project (sc_page s) \<noteq> None" and "pass_on k cs s = (s', qs)"
  shows "page_moves serves s s' qs \<and> pg_project (sc_page s') \<noteq> None"
proof (cases "\<exists>c \<in> set cs. notifies c")
  case True
  obtain t ps where u: "update_page s = (t, ps)" by fastforce
  with assms(2) True have "s' = t" "page_cmds qs = page_cmds ps"
    by (auto simp: pass_on_def)
  with page_moves_update [OF assms(1) u] update_page_loaded [OF u] assms(1) show ?thesis
    by (simp add: page_moves_def)
next
  case False
  with assms show ?thesis by (auto simp: pass_on_def intro: page_moves_same)
qed

lemma pass_on_banner_moves:
  assumes "pg_project (sc_page s) \<noteq> None" and "pass_on_banner k cs s = (s', qs)"
  shows "page_moves serves s s' qs \<and> pg_project (sc_page s') \<noteq> None"
proof (cases "NotifyConnected \<in> set cs")
  case True
  obtain t ps where u: "update_page s = (t, ps)" by fastforce
  with assms(2) True have "s' = t" "page_cmds qs = page_cmds ps"
    by (auto simp: pass_on_banner_def)
  with page_moves_update [OF assms(1) u] update_page_loaded [OF u] assms(1) show ?thesis
    by (simp add: page_moves_def)
next
  case False
  with assms show ?thesis by (auto simp: pass_on_banner_def intro: page_moves_same)
qed

lemma page_moves_from: "sc_page t = sc_page s \<Longrightarrow> page_moves serves t s' qs = page_moves serves s s' qs"
  by (simp add: page_moves_def)

text \<open>Every tab can be selected while the page is shown, and nothing while it is not.\<close>

lemma project_view_shown: "offers (project_view select banner content s) e \<Longrightarrow> page_shown s \<noteq> None"
  by (auto simp: project_view_def page_shown_def split: if_splits)

lemma project_shown_select: "page_shown s \<noteq> None \<Longrightarrow> offers (project_shown s) (SelectTab t)"
  by (cases t) (auto simp: project_shown_def project_view_def page_shown_def tab_labels_def
    tab_button_def Let_def split: if_splits)

text \<open>A step of the user on the screen.\<close>

lemma screen_act:
  assumes "screen_offered pl s e" and "screen_handle pl e s = (s', cs)" and "loaded_inv s fl"
  shows "page_moves serves s s' cs \<and> loaded_inv s' (fl @ cs)"
proof (cases e)
  case (PageEvent pe)
  obtain pg ps where h: "project_handle pe (sc_page s) = (pg, ps)" by fastforce
  obtain t rs where r: "render (s\<lparr>sc_page := pg\<rparr>) = (t, rs)" by fastforce
  have s': "s' = t" "cs = map PageCmd ps @ rs"
    using assms(2) by (simp_all add: PageEvent h r)
  have pg: "sc_page s' = pg" "page_cmds cs = ps"
    using render_page [of "s\<lparr>sc_page := pg\<rparr>"] render_cmds [of "s\<lparr>sc_page := pg\<rparr>"] by (simp_all add: r s')
  have "project_offered (sc_page s) pe"
    using assms(1) by (cases pe)
      (auto simp: PageEvent screen_view_def dest: project_view_shown intro: project_shown_select)
  then have "page_moves serves s s' cs"
    using h unfolding page_moves_def pg by (blast intro: wstep.act)
  moreover have "loaded_inv s' (fl @ cs)"
  proof (cases "pg_project (sc_page s)")
    case None
    with assms(3) have "\<forall>c \<in> set fl. \<not> beside c" by (auto simp: loaded_inv_def)
    moreover have "loaded_inv t rs" using render_loaded [of "s\<lparr>sc_page := pg\<rparr>"] by (simp add: r)
    ultimately show ?thesis by (auto simp: loaded_inv_def s')
  next
    case (Some p)
    with project_loaded_stays(1) [of "sc_page s" pe] h show ?thesis by (simp add: loaded_inv_def pg)
  qed
  ultimately show ?thesis by blast
next
  case (BannerEvent be)
  then show ?thesis
    using assms(2,3) by (auto simp: loaded_inv_def split: option.splits prod.splits intro!: page_moves_same)
next
  case (TabEvent te)
  then show ?thesis
    using assms(2,3) by (auto simp: loaded_inv_def split: option.splits prod.splits intro!: page_moves_same)
qed

text \<open>An answer to a request that is not the container's.\<close>

lemma screen_reply_beside:
  assumes "beside c" and "screen_answers serves c r" and "screen_resume c r s = (s', cs)"
    and "pg_project (sc_page s) \<noteq> None"
  shows "page_moves serves s s' cs \<and> pg_project (sc_page s') \<noteq> None"
proof (cases c)
  case (BannerCmd k bc)
  then obtain br where r: "r = BannerReply br" using assms(2) by (cases r) auto
  have "\<exists>t qs. sc_page t = sc_page s \<and> pass_on_banner k qs t = (s', cs)"
  proof (cases "sc_banner s")
    case None
    with assms(3) show ?thesis by (auto simp: BannerCmd r)
  next
    case (Some b)
    let ?t = "if k = sc_banners s then s\<lparr>sc_banner := Some (fst (banner_resume bc br b))\<rparr> else s"
    have "sc_page ?t = sc_page s" by simp
    moreover have "pass_on_banner k (snd (banner_resume bc br b)) ?t = (s', cs)"
      using assms(3) by (simp add: BannerCmd r Some case_prod_beta)
    ultimately show ?thesis by blast
  qed
  then obtain t qs where t: "sc_page t = sc_page s" "pass_on_banner k qs t = (s', cs)" by blast
  with assms(4) pass_on_banner_moves [OF _ t(2), of serves] page_moves_from [OF t(1)] show ?thesis by simp
next
  case (TabCmd k tc)
  then obtain tr where r: "r = TabReply tr" using assms(2) by (cases r) auto
  obtain p where p: "pg_project (sc_page s) = Some p" using assms(4) by blast
  have "\<exists>t qs. sc_page t = sc_page s \<and> pass_on k qs t = (s', cs)"
  proof (cases "k = sc_mounts s \<and> map_option mounted_tab (sc_mounted s) = Some (home_tab tc)")
    case True
    let ?r = "tab_resume p tc tr (the (sc_mounted s))"
    have "pass_on k (snd ?r) (s\<lparr>sc_mounted := Some (fst ?r)\<rparr>) = (s', cs)"
      using assms(3) True by (simp add: TabCmd r p case_prod_beta)
    moreover have "sc_page (s\<lparr>sc_mounted := Some (fst ?r)\<rparr>) = sc_page s" by simp
    ultimately show ?thesis by blast
  next
    case False
    then have "pass_on k (snd (tab_resume p tc tr (fst (mount_tab p [] (home_tab tc))))) s = (s', cs)"
      using assms(3) by (simp only: TabCmd r screen_resume.simps p option.case False if_False)
    then show ?thesis by blast
  qed
  then obtain t qs where t: "sc_page t = sc_page s" "pass_on k qs t = (s', cs)" by blast
  with assms(4) pass_on_moves [OF _ t(2), of serves] page_moves_from [OF t(1)] show ?thesis by simp
qed (use assms(1) in simp)

lemma screen_reply:
  assumes "screen_answers serves c r" and "screen_resume c r s = (s', cs)"
    and "loaded_inv s (xs @ c # ys)"
  shows "(project_steps serves)\<^sup>*\<^sup>* (sc_page s, page_cmds (xs @ c # ys)) (sc_page s', page_cmds (xs @ ys @ cs)) \<and>
    loaded_inv s' (xs @ ys @ cs)"
proof (cases "beside c")
  case True
  with assms(3) have "pg_project (sc_page s) \<noteq> None" by (auto simp: loaded_inv_def)
  from screen_reply_beside [OF True assms(1,2) this] True show ?thesis
    by (cases c) (auto simp: page_moves_def loaded_inv_def simp flip: append_assoc)
next
  case False
  then obtain pc where c: "c = PageCmd pc" by (cases c) auto
  with assms(1) obtain pr where r: "r = PageReply pr" and ok: "project_answers serves pc pr"
    by (cases r) auto
  obtain pg ps where h: "project_resume pc pr (sc_page s) = (pg, ps)" by fastforce
  obtain t rs where rd: "render (s\<lparr>sc_page := pg\<rparr>) = (t, rs)" by fastforce
  have s': "s' = t" "cs = map PageCmd ps @ rs"
    using assms(2) by (simp_all add: c r h rd)
  have pg: "sc_page s' = pg" "page_cmds cs = ps"
    using render_page [of "s\<lparr>sc_page := pg\<rparr>"] render_cmds [of "s\<lparr>sc_page := pg\<rparr>"] by (simp_all add: rd s')
  have "project_steps serves (sc_page s, page_cmds xs @ pc # page_cmds ys)
      (pg, page_cmds xs @ page_cmds ys @ ps)"
    using ok h by (rule wstep.reply)
  moreover have "loaded_inv s' (xs @ ys @ cs)"
  proof (cases "pg_project (sc_page s)")
    case None
    with assms(3) have "\<forall>c \<in> set (xs @ ys). \<not> beside c" by (auto simp: loaded_inv_def)
    moreover have "loaded_inv t rs" using render_loaded [of "s\<lparr>sc_page := pg\<rparr>"] by (simp add: rd)
    ultimately show ?thesis by (auto simp: loaded_inv_def s')
  next
    case (Some p)
    with project_loaded_stays(2) [of "sc_page s" pc pr] h show ?thesis by (simp add: loaded_inv_def pg)
  qed
  ultimately show ?thesis by (auto simp: c pg)
qed

text \<open>
  C5: the whole page refines its container: whatever the banner and the tabs do, mounted or not, the
  container goes through a run of its own machine, with the container's requests in flight; so what
  holds of that machine (the display of the newest data, the end of the polling) holds on the page.
\<close>

theorem screen_refines_container:
  assumes "(screen_steps pl serves)\<^sup>*\<^sup>* screen_start (s, fl)"
  shows "(project_steps serves)\<^sup>*\<^sup>* project_start (sc_page s, page_cmds fl)"
proof -
  have "(project_steps serves)\<^sup>*\<^sup>* project_start (sc_page s, page_cmds fl) \<and> loaded_inv s fl"
    using assms
  proof (induction "(s, fl)" arbitrary: s fl rule: rtranclp_induct)
    case base
    then show ?case
      by (auto simp: screen_start_def project_start_def fetch_all_def loaded_inv_def split: prod.splits)
  next
    case (step w)
    obtain t ft where w: "w = (t, ft)" by (cases w)
    have IH: "(project_steps serves)\<^sup>*\<^sup>* project_start (sc_page t, page_cmds ft)" "loaded_inv t ft"
      using step.hyps(3) [OF w] by blast+
    from step.hyps(2) [unfolded w] show ?case
    proof cases
      case (act e cs)
      from screen_act [OF act(2,3) IH(2), of serves] IH(1) show ?thesis
        by (auto simp: act(1) page_moves_def intro: rtranclp_trans)
    next
      case (reply c r cs xs ys)
      from screen_reply [OF reply(3,4), of xs ys] IH show ?thesis
        by (auto simp: reply(1,2) intro: rtranclp_trans)
    qed
  qed
  then show ?thesis by blast
qed

text \<open>A run: the project arrives, its settings are opened, a switch is turned and accepted.\<close>

definition sample_place :: place where
  "sample_place = \<lparr>pl_id = ''p1'', pl_api = None, pl_token = None, pl_user = None, pl_zone = (\<lambda>t. 0),
     pl_ambient = sample_ambient, pl_iso_day = (\<lambda>n. []), pl_day_label = (\<lambda>n. []),
     pl_date_label = (\<lambda>n. [])\<rparr>"

definition settings_visit :: "(screen_event + nat \<times> screen_reply) list" where
  "settings_visit = [Inr (0, PageReply (Inr busy_data)), Inl (PageEvent (SelectTab Settings)),
     Inl (TabEvent (E_settings ToggleAutoDeploy)),
     Inr (0, TabReply (R_settings (ProjectReply (Inr sample_project))))]"

lemma screen_select [simp]:
  "page_shown (sc_page s) \<noteq> None \<Longrightarrow> offers (screen_view pl s) (PageEvent (SelectTab t))"
  by (cases t) (auto simp: screen_view_def project_view_def page_shown_def tab_labels_def
    tab_button_def Let_def split: if_splits)

lemmas visit_run = settings_visit_def screen_start_def project_run render_def sync_banner_def Let_def
  page_shown_def settings_initial_def sample_project_def tab_handle_def tab_resume_def
  handle_toggle_auto_deploy_def pass_on_def update_page_def tab_offered_def settings_view_offers
  sample_place_def truthy_def

lemma settings_visit_playable:
  "playable (screen_offered sample_place) (screen_handle sample_place) screen_resume
     (screen_answers serves_busy) settings_visit screen_start"
  by (simp add: visit_run)

theorem screen_refines_container_witness:
  "\<exists>s. (screen_steps sample_place serves_busy)\<^sup>*\<^sup>* screen_start (s, [PageCmd (FetchAll 1)]) \<and>
     map_option mounted_tab (sc_mounted s) = Some Settings \<and>
     (project_steps serves_busy)\<^sup>*\<^sup>* project_start (sc_page s, [FetchAll 1])"
proof -
  have "(screen_steps sample_place serves_busy)\<^sup>*\<^sup>* screen_start
      (run_script (screen_handle sample_place) screen_resume settings_visit screen_start)"
    by (rule run_script_reaches [OF settings_visit_playable])
  then obtain s where r: "(screen_steps sample_place serves_busy)\<^sup>*\<^sup>* screen_start (s, [PageCmd (FetchAll 1)])"
    "map_option mounted_tab (sc_mounted s) = Some Settings"
    by (auto simp: visit_run)
  with screen_refines_container [OF r(1)] show ?thesis by auto
qed

end
