(* ===== verification/SecretsPage.thy ===== *)
theory SecretsPage
  imports ProjectData "HOL-Library.Multiset"
begin

text \<open>
  The secrets of a project (\<open>web/src/app/dashboard/[projectId]/secrets/page.tsx\<close>): the listing by scope, the
  deletion of a secret, and the form that adds one. The form is mounted while it is shown; a request
  to create carries the mount it was sent from, since its answer closes whichever form is shown then.
\<close>

section \<open>Upper case\<close>

text \<open>
  \<open>s.toUpperCase()\<close>: the characters beyond ASCII whose upper case has ASCII letters (the sharp s, the
  dotless i, the long s, letters without a precomposed capital, ligatures) are written out; the upper
  case of the others is beyond ASCII, and they are kept as they are.
\<close>

definition bytes :: "nat list \<Rightarrow> string" where
  "bytes ns = map char_of ns"

definition upper_specials :: "(string \<times> string) list" where
  "upper_specials =
     [(bytes [195, 159], ''SS''), (bytes [196, 177], ''I''), (bytes [197, 191], ''S''),
      (bytes [197, 137], bytes [202, 188] @ ''N''), (bytes [199, 176], ''J'' @ bytes [204, 140]),
      (bytes [225, 186, 150], ''H'' @ bytes [204, 177]), (bytes [225, 186, 151], ''T'' @ bytes [204, 136]),
      (bytes [225, 186, 152], ''W'' @ bytes [204, 138]), (bytes [225, 186, 153], ''Y'' @ bytes [204, 138]),
      (bytes [225, 186, 154], ''A'' @ bytes [202, 190]), (bytes [239, 172, 128], ''FF''),
      (bytes [239, 172, 129], ''FI''), (bytes [239, 172, 130], ''FL''), (bytes [239, 172, 131], ''FFI''),
      (bytes [239, 172, 132], ''FFL''), (bytes [239, 172, 133], ''ST''), (bytes [239, 172, 134], ''ST'')]"

definition upper_char :: "char \<Rightarrow> char" where
  "upper_char c = (if is_lower c then char_of (code_of c - 32) else c)"

fun to_upper :: "string \<Rightarrow> string" where
  "to_upper [] = []"
| "to_upper (c # cs) =
     (case find (\<lambda>(l, u). starts_with (c # cs) l) upper_specials of
        Some (l, u) \<Rightarrow> u @ to_upper (drop (length l - 1) cs)
      | None \<Rightarrow> upper_char c # to_upper cs)"

lemma to_upper_ascii:
  assumes "code_of c < (128 :: nat)"
  shows "to_upper (c # cs) = upper_char c # to_upper cs"
proof -
  have "c \<noteq> char_of n" if "128 \<le> n" "n < 256" for n :: nat
    using assms that by (metis mod_less not_le of_char_of)
  then have "find (\<lambda>(l, u). starts_with (c # cs) l) upper_specials = None"
    by (simp add: upper_specials_def bytes_def)
  then show ?thesis by simp
qed

text \<open>\<open>/^[A-Z_][A-Z0-9_]*$/.test(key)\<close>\<close>

definition valid_key :: "string \<Rightarrow> bool" where
  "valid_key k =
     (case k of
        [] \<Rightarrow> False
      | c # cs \<Rightarrow> (is_upper c \<or> c = CHR ''_'') \<and> (\<forall>d \<in> set cs. is_upper d \<or> is_digit d \<or> d = CHR ''_''))"

section \<open>State\<close>

record secret_form =
  fm_key :: string
  fm_value :: string
  fm_scope :: secret_scope
  fm_error :: json
  fm_submitting :: bool

definition form_initial :: secret_form where
  "form_initial =
     \<lparr>fm_key = [], fm_value = [], fm_scope = ScopeProject, fm_error = JStr [], fm_submitting = False\<rparr>"

record secrets_page =
  sx_project :: "project option"
  sx_secrets :: "secret list"
  sx_loading :: bool
  sx_form :: "secret_form option"       \<comment> \<open>the form, while \<open>showCreate\<close>\<close>
  sx_forms :: nat                       \<comment> \<open>mounts of the form so far\<close>
  sx_deleting :: "string option"
  sx_error :: "string option"
  sx_confirm :: "string option"         \<comment> \<open>\<open>deleteConfirmKey\<close>\<close>

definition secrets_initial :: secrets_page where
  "secrets_initial =
     \<lparr>sx_project = None, sx_secrets = [], sx_loading = True, sx_form = None, sx_forms = 0,
      sx_deleting = None, sx_error = None, sx_confirm = None\<rparr>"

section \<open>Operations\<close>

datatype secrets_cmd = FetchSecrets | DeleteSecret string | CreateSecret nat secret_create

datatype secrets_reply =
    SecretsReply "(project \<times> secret_list_response) outcome"
  | SecretDone "unit outcome"

definition fetch_data :: "secrets_page \<Rightarrow> secrets_page \<times> secrets_cmd list" where
  "fetch_data s = (s\<lparr>sx_error := None\<rparr>, [FetchSecrets])"

definition handle_delete_secret :: "string \<Rightarrow> secrets_page \<Rightarrow> secrets_page \<times> secrets_cmd list" where
  "handle_delete_secret key s = (s\<lparr>sx_confirm := None, sx_deleting := Some key\<rparr>, [DeleteSecret key])"

text \<open>\<open>setShowCreate(true)\<close>\<close>

definition show_form :: "secrets_page \<Rightarrow> secrets_page" where
  "show_form s =
     (case sx_form s of
        None \<Rightarrow> s\<lparr>sx_form := Some form_initial, sx_forms := Suc (sx_forms s)\<rparr> | Some f \<Rightarrow> s)"

definition on_form :: "(secret_form \<Rightarrow> secret_form) \<Rightarrow> secrets_page \<Rightarrow> secrets_page" where
  "on_form g s = s\<lparr>sx_form := map_option g (sx_form s)\<rparr>"

definition handle_submit_secret :: "secrets_page \<Rightarrow> secrets_page \<times> secrets_cmd list" where
  "handle_submit_secret s =
     (case sx_form s of
        None \<Rightarrow> (s, [])
      | Some f \<Rightarrow>
          if \<not> valid_key (fm_key f)
          then (on_form (\<lambda>f. f\<lparr>fm_error := JStr ''Key must start with A-Z or underscore and contain only A-Z, 0-9, underscore''\<rparr>) s, [])
          else (on_form (\<lambda>f. f\<lparr>fm_error := JStr [], fm_submitting := True\<rparr>) s,
                [CreateSecret (sx_forms s)
                   \<lparr>scc_key = fm_key f, scc_value = fm_value f, scc_scope = Some (fm_scope f)\<rparr>]))"

datatype secrets_event =
    ShowForm | HideForm | SetKey string | SetValue string | SetScope secret_scope | SubmitSecret
  | AskDelete string | CloseDelete | ConfirmDeleteSecret

fun secrets_handle :: "secrets_event \<Rightarrow> secrets_page \<Rightarrow> secrets_page \<times> secrets_cmd list" where
  "secrets_handle ShowForm s = (show_form s, [])"
| "secrets_handle HideForm s = (s\<lparr>sx_form := None\<rparr>, [])"
| "secrets_handle (SetKey v) s = (on_form (\<lambda>f. f\<lparr>fm_key := to_upper v\<rparr>) s, [])"
| "secrets_handle (SetValue v) s = (on_form (\<lambda>f. f\<lparr>fm_value := v\<rparr>) s, [])"
| "secrets_handle (SetScope v) s = (on_form (\<lambda>f. f\<lparr>fm_scope := v\<rparr>) s, [])"
| "secrets_handle SubmitSecret s = handle_submit_secret s"
| "secrets_handle (AskDelete key) s = (s\<lparr>sx_confirm := Some key\<rparr>, [])"
| "secrets_handle CloseDelete s = (s\<lparr>sx_confirm := None\<rparr>, [])"
| "secrets_handle ConfirmDeleteSecret s =
     (if truthy_opt (sx_confirm s) then handle_delete_secret (the (sx_confirm s)) s else (s, []))"

text \<open>The state of the form that sent a request, if it is still mounted.\<close>

definition on_own_form :: "nat \<Rightarrow> (secret_form \<Rightarrow> secret_form) \<Rightarrow> secrets_page \<Rightarrow> secrets_page" where
  "on_own_form k g s = (if k = sx_forms s then on_form g s else s)"

fun secrets_resume :: "secrets_cmd \<Rightarrow> secrets_reply \<Rightarrow> secrets_page \<Rightarrow> secrets_page \<times> secrets_cmd list" where
  "secrets_resume FetchSecrets (SecretsReply (Inr (p, res))) s =
     (s\<lparr>sx_project := Some p, sx_secrets := ls_items res, sx_loading := False\<rparr>, [])"
| "secrets_resume FetchSecrets (SecretsReply (Inl e)) s =
     (s\<lparr>sx_error := Some (message_or ''Failed to load secrets'' e), sx_loading := False\<rparr>, [])"
| "secrets_resume (DeleteSecret key) (SecretDone (Inr u)) s = fetch_data (s\<lparr>sx_deleting := None\<rparr>)"
| "secrets_resume (DeleteSecret key) (SecretDone (Inl e)) s =
     (s\<lparr>sx_error := Some (message_or ''Failed to delete secret'' e), sx_deleting := None\<rparr>, [])"
| "secrets_resume (CreateSecret k b) (SecretDone (Inr u)) s = fetch_data (s\<lparr>sx_form := None\<rparr>)"
| "secrets_resume (CreateSecret k b) (SecretDone (Inl e)) s =
     (on_own_form k (\<lambda>f. f\<lparr>fm_error := detail_or ''Failed to create secret'' e, fm_submitting := False\<rparr>) s, [])"
| "secrets_resume c r s = (s, [])"

section \<open>View\<close>

text \<open>\<open>byScope\<close>: the groups in the order of their first secret.\<close>

fun add_to_scope ::
  "secret \<Rightarrow> (secret_scope \<times> secret list) list \<Rightarrow> (secret_scope \<times> secret list) list" where
  "add_to_scope x [] = [(sc_scope x, [x])]"
| "add_to_scope x ((k, xs) # gs) =
     (if k = sc_scope x then (k, xs @ [x]) # gs else (k, xs) # add_to_scope x gs)"

definition by_scope :: "secret list \<Rightarrow> (secret_scope \<times> secret list) list" where
  "by_scope ss = fold add_to_scope ss []"

definition scope_order :: "secret_scope list" where
  "scope_order = [ScopeProject, ScopeProduction, ScopeStaging, ScopePreview]"

definition bullets :: string where
  "bullets = concat (replicate 8 (bytes [226, 128, 162]))"

definition secret_row :: "ambient \<Rightarrow> secrets_page \<Rightarrow> secret \<Rightarrow> secrets_event view" where
  "secret_row am s x =
     El ''tr''
       [td [Txt (sc_key x)], td [Txt bullets], td [Txt (ago am (sc_created_at x))],
        td [Btn (sx_deleting s = Some (sc_key x)) (Some (AskDelete (sc_key x)))
              [Txt (if sx_deleting s = Some (sc_key x) then ''Deleting...'' else ''Delete'')]]]"

definition scope_section :: "ambient \<Rightarrow> secrets_page \<Rightarrow> secret_scope \<Rightarrow> secrets_event view" where
  "scope_section am s scope =
     (case map_of (by_scope (sx_secrets s)) scope of
        None \<Rightarrow> Frag []
      | Some items \<Rightarrow>
          when_view (items \<noteq> [])
            (El ''div''
              [El ''h3'' [Txt (if scope = ScopeProject then ''Project-wide'' else secret_scope_text scope)],
               data_table [''Key'', ''Value'', ''Created'', ''Actions''] (map (secret_row am s) items)]))"

definition scope_of_text :: "string \<Rightarrow> secret_scope" where
  "scope_of_text v =
     (case find (\<lambda>c. secret_scope_text c = v) scope_order of Some c \<Rightarrow> c | None \<Rightarrow> ScopeProject)"

definition secret_form_view :: "secret_form \<Rightarrow> secrets_event view" where
  "secret_form_view f =
     El ''div''
       [El ''h2'' [Txt ''Add secret''],
        Frm SubmitSecret
          [labelled ''Key'' (Inp ''text'' (fm_key f) ''DATABASE_URL'' SetKey),
           labelled ''Value'' (Inp ''password'' (fm_value f) ''secret-value'' SetValue),
           labelled ''Scope'' (Sel (secret_scope_text (fm_scope f))
             [(''project'', ''Project-wide''), (''production'', ''Production only''),
              (''staging'', ''Staging only''), (''preview'', ''Preview only'')]
             (\<lambda>v. SetScope (scope_of_text v))),
           json_error (fm_error f),
           Btn (fm_submitting f) None [Txt (if fm_submitting f then ''Saving...'' else ''Add secret'')],
           Btn False (Some HideForm) [Txt ''Cancel'']]]"

definition secret_dialog :: "secrets_page \<Rightarrow> secrets_event view" where
  "secret_dialog s =
     confirm_modal (sx_confirm s \<noteq> None) CloseDelete ConfirmDeleteSecret
       \<lparr>cp_title = ''Delete Secret'',
        cp_description = Some (''Are you sure you want to delete the secret '' @ [CHR 0x22] @
          or_text (sx_confirm s) ''null'' @ [CHR 0x22] @ ''? This action cannot be undone.''),
        cp_confirm_label = Some ''Delete'', cp_cancel_label = None, cp_loading = (sx_deleting s \<noteq> None)\<rparr>"

definition secrets_view :: "ambient \<Rightarrow> string \<Rightarrow> secrets_page \<Rightarrow> secrets_event view" where
  "secrets_view am project_id s =
     (if sx_loading s then para ''Loading...''
      else case sx_project s of
        None \<Rightarrow> para ''Project not found''
      | Some p \<Rightarrow>
          El ''div''
            [El ''div'' [Lnk ''/dashboard'' [Txt ''Projects''],
               Lnk (''/dashboard/'' @ project_id) [Txt (pj_name p)], El ''span'' [Txt ''Secrets'']],
             error_box (sx_error s), El ''h1'' [Txt ''Secrets''],
             para (''Environment variables for '' @ pj_name p @
               ''. Values are encrypted at rest and never displayed.''),
             Btn False (Some ShowForm) [Txt ''Add secret''],
             (case sx_form s of None \<Rightarrow> Frag [] | Some f \<Rightarrow> secret_form_view f),
             (if sx_secrets s = []
              then El ''div'' [para ''No secrets configured yet.'',
                Btn False (Some ShowForm) [Txt ''Add your first secret'']]
              else El ''div'' (map (scope_section am s) scope_order)),
             secret_dialog s])"

section \<open>The listing\<close>

lemma map_of_add_to_scope:
  "map_of (add_to_scope x gs) c =
     (if c = sc_scope x
      then Some ((case map_of gs c of None \<Rightarrow> [] | Some xs \<Rightarrow> xs) @ [x]) else map_of gs c)"
  by (induction gs) auto

lemma map_of_by_scope_aux:
  "map_of (fold add_to_scope ss gs) c =
     (let own = filter (\<lambda>x. sc_scope x = c) ss
      in if own = [] then map_of gs c
         else Some ((case map_of gs c of None \<Rightarrow> [] | Some xs \<Rightarrow> xs) @ own))"
  by (induction ss arbitrary: gs) (auto simp: Let_def map_of_add_to_scope)

lemma map_of_by_scope:
  "map_of (by_scope ss) c =
     (let own = filter (\<lambda>x. sc_scope x = c) ss in if own = [] then None else Some own)"
  by (simp add: by_scope_def map_of_by_scope_aux Let_def)

text \<open>The secrets of one section, in the order of the listing.\<close>

lemma scope_section_rows:
  "scope_section am s c =
     (let own = filter (\<lambda>x. sc_scope x = c) (sx_secrets s)
      in if own = [] then Frag []
         else El ''div''
           [El ''h3'' [Txt (if c = ScopeProject then ''Project-wide'' else secret_scope_text c)],
            data_table [''Key'', ''Value'', ''Created'', ''Actions''] (map (secret_row am s) own)])"
  by (simp add: scope_section_def map_of_by_scope Let_def when_view_def)

text \<open>Every secret is in exactly one section, the one of its scope.\<close>

lemma sections_partition:
  "mset (concat (map (\<lambda>c. filter (\<lambda>x. sc_scope x = c) ss) scope_order)) = mset ss"
proof (induction ss)
  case (Cons x ss)
  then show ?case by (cases "sc_scope x") (simp_all add: scope_order_def)
qed (simp add: scope_order_def)

section \<open>Deleting\<close>

text \<open>
  What the API (\<open>src/api/app/routers/secrets.py\<close>) does with a deletion: the secret of the key and the
  scope of the query, whose default is the project scope; None is the 404 when there is none.
\<close>

definition api_delete_secret :: "string \<Rightarrow> secret_scope option \<Rightarrow> secret list \<Rightarrow> secret list option" where
  "api_delete_secret key scope ss =
     (let c = (case scope of None \<Rightarrow> ScopeProject | Some c \<Rightarrow> c); hit = (\<lambda>x. sc_key x = key \<and> sc_scope x = c)
      in if \<exists>x \<in> set ss. hit x then Some (filter (\<lambda>x. \<not> hit x) ss) else None)"

text \<open>The scope in the query of a request.\<close>

definition query_scope :: "api_call \<Rightarrow> secret_scope option" where
  "query_scope c =
     (case split_on (CHR ''?'') (ac_path c) of
        p # q # rest \<Rightarrow> map_option scope_of_text (params_get (parse_params q) ''scope'')
      | _ \<Rightarrow> None)"

lemma valid_key_no_query: "valid_key k \<Longrightarrow> CHR ''?'' \<notin> set k"
  by (auto simp: valid_key_def is_upper_def is_digit_def split: list.splits)

lemma delete_has_no_scope:
  assumes "CHR ''?'' \<notin> set project_id" and "CHR ''?'' \<notin> set key"
  shows "query_scope (secrets_delete project_id key) = None"
  using assms by (simp add: query_scope_def secrets_delete_def call_with_def project_path_def split_on_no_sep)

text \<open>
  C35: the page cannot delete a secret whose scope is not the project: the click on its row and the
  confirmation send a request without the scope, for which the API deletes the project-wide secret of
  the same key if there is one, and answers 404 if not; the secret itself stays.
\<close>

theorem delete_ignores_scope:
  assumes "x \<in> set ss" and "sc_scope x \<noteq> ScopeProject" and "valid_key (sc_key x)"
    and "CHR ''?'' \<notin> set project_id"
  shows "snd (secrets_handle ConfirmDeleteSecret (fst (secrets_handle (AskDelete (sc_key x)) s))) =
      [DeleteSecret (sc_key x)] \<and>
    (case api_delete_secret (sc_key x) (query_scope (secrets_delete project_id (sc_key x))) ss of
       None \<Rightarrow> \<forall>y \<in> set ss. sc_key y = sc_key x \<longrightarrow> sc_scope y \<noteq> ScopeProject
     | Some rest \<Rightarrow> x \<in> set rest \<and>
         (\<exists>y \<in> set ss. sc_key y = sc_key x \<and> sc_scope y = ScopeProject \<and> y \<notin> set rest))"
proof
  have "sc_key x \<noteq> []" using assms(3) by (auto simp: valid_key_def)
  then show "snd (secrets_handle ConfirmDeleteSecret (fst (secrets_handle (AskDelete (sc_key x)) s))) =
      [DeleteSecret (sc_key x)]"
    by (simp add: truthy_opt_def truthy_def handle_delete_secret_def)
  show "case api_delete_secret (sc_key x) (query_scope (secrets_delete project_id (sc_key x))) ss of
       None \<Rightarrow> \<forall>y \<in> set ss. sc_key y = sc_key x \<longrightarrow> sc_scope y \<noteq> ScopeProject
     | Some rest \<Rightarrow> x \<in> set rest \<and>
         (\<exists>y \<in> set ss. sc_key y = sc_key x \<and> sc_scope y = ScopeProject \<and> y \<notin> set rest)"
    using assms delete_has_no_scope [OF assms(4) valid_key_no_query [OF assms(3)]]
    by (auto simp: api_delete_secret_def Let_def)
qed

section \<open>The requests of the page\<close>

text \<open>
  The controls, the Escape key or the backdrop of the open dialog; the key and the value are required
  fields, without which the browser does not submit the form.
\<close>

definition secrets_offered :: "ambient \<Rightarrow> string \<Rightarrow> secrets_page \<Rightarrow> secrets_event \<Rightarrow> bool" where
  "secrets_offered am project_id s e =
     ((offers (secrets_view am project_id s) e \<and>
       (e = SubmitSecret \<longrightarrow> (case sx_form s of None \<Rightarrow> False | Some f \<Rightarrow> fm_key f \<noteq> [] \<and> fm_value f \<noteq> []))) \<or>
      sx_confirm s \<noteq> None \<and> e = CloseDelete)"

fun secrets_answers :: "secrets_cmd \<Rightarrow> secrets_reply \<Rightarrow> bool" where
  "secrets_answers FetchSecrets (SecretsReply r) = True"
| "secrets_answers (DeleteSecret k) (SecretDone r) = True"
| "secrets_answers (CreateSecret k b) (SecretDone r) = True"
| "secrets_answers c r = False"

abbreviation secrets_start :: "(secrets_page, secrets_cmd) world" where
  "secrets_start \<equiv> (secrets_initial, [FetchSecrets])"

abbreviation secrets_steps where
  "secrets_steps am project_id \<equiv>
     wstep (secrets_offered am project_id) secrets_handle secrets_resume secrets_answers"

fun deletes_secret :: "secrets_cmd \<Rightarrow> bool" where
  "deletes_secret (DeleteSecret k) = True"
| "deletes_secret c = False"

definition is_deleting_secret :: "secrets_page \<Rightarrow> bool" where
  "is_deleting_secret s = (sx_deleting s \<noteq> None)"

lemma secrets_offered_confirm:
  "secrets_offered am project_id s ConfirmDeleteSecret \<Longrightarrow> sx_confirm s \<noteq> None \<and> sx_deleting s = None"
  by (auto simp: secrets_offered_def secrets_view_def secret_dialog_def secret_form_view_def
      scope_section_rows secret_row_def Let_def split: if_splits option.splits)

lemma on_form_fields [simp]:
  "sx_deleting (on_form g s) = sx_deleting s" "sx_loading (on_form g s) = sx_loading s"
  "sx_deleting (on_own_form k g s) = sx_deleting s" "sx_loading (on_own_form k g s) = sx_loading s"
  "sx_deleting (show_form s) = sx_deleting s" "sx_loading (show_form s) = sx_loading s"
  by (simp_all add: on_form_def on_own_form_def show_form_def split: option.split)

lemma secrets_handle_flags:
  assumes "secrets_offered am project_id s e" and "secrets_handle e s = (s', cs)"
  shows "of_bool (is_deleting_secret s') = of_bool (is_deleting_secret s) + length (filter deletes_secret cs)"
    and "sx_loading s' = sx_loading s"
proof -
  have "of_bool (is_deleting_secret s') = of_bool (is_deleting_secret s) + length (filter deletes_secret cs) \<and>
      sx_loading s' = sx_loading s"
  proof (cases "e = ConfirmDeleteSecret")
    case True
    with assms secrets_offered_confirm [of am project_id s] show ?thesis
      by (auto simp: handle_delete_secret_def is_deleting_secret_def truthy_opt_def truthy_def
          secrets_offered_def split: if_splits)
  next
    case False
    with assms(2) show ?thesis
      by (cases e) (auto simp: handle_submit_secret_def is_deleting_secret_def split: option.splits if_splits)
  qed
  then show "of_bool (is_deleting_secret s') = of_bool (is_deleting_secret s) + length (filter deletes_secret cs)"
    and "sx_loading s' = sx_loading s" by blast+
qed

lemma secrets_resume_flags:
  assumes "secrets_answers c r" and "secrets_resume c r s = (s', cs)"
  shows "is_deleting_secret s' = (is_deleting_secret s \<and> \<not> deletes_secret c)"
    and "sx_loading s' = (sx_loading s \<and> c \<noteq> FetchSecrets)" and "set cs \<subseteq> {FetchSecrets}"
  using assms
  by (cases "(c, r, s)" rule: secrets_resume.cases;
      auto simp: is_deleting_secret_def fetch_data_def)+

interpretation secrets_saving: saving_page "secrets_offered am project_id" secrets_handle secrets_resume
  secrets_answers secrets_start is_deleting_secret sx_loading deletes_secret "\<lambda>c. c = FetchSecrets"
  for am project_id
proof unfold_locales
  show "length (filter deletes_secret (snd secrets_start)) = of_bool (is_deleting_secret (fst secrets_start))"
    and "sx_loading (fst secrets_start) \<Longrightarrow> \<exists>c \<in> set (snd secrets_start). c = FetchSecrets"
    by (simp_all add: is_deleting_secret_def secrets_initial_def)
  show "of_bool (is_deleting_secret s') = of_bool (is_deleting_secret s) + length (filter deletes_secret cs)"
    and "sx_loading s' \<Longrightarrow> sx_loading s \<or> (\<exists>c \<in> set cs. c = FetchSecrets)"
    if "secrets_offered am project_id s e" and "secrets_handle e s = (s', cs)" for s e s' cs
    using secrets_handle_flags [OF that] by simp_all
  show "of_bool (is_deleting_secret s') + of_bool (deletes_secret c) =
      of_bool (is_deleting_secret s) + length (filter deletes_secret cs)"
    if "secrets_answers c r" and "secrets_resume c r s = (s', cs)"
      and "deletes_secret c \<longrightarrow> is_deleting_secret s" for c r s s' cs
  proof -
    have "filter deletes_secret cs = []"
      using secrets_resume_flags(3) [OF that(1,2)] by (auto simp: filter_empty_conv)
    with secrets_resume_flags(1) [OF that(1,2)] that(3) show ?thesis by auto
  qed
  show "(sx_loading s \<and> c \<noteq> FetchSecrets) \<or> (\<exists>c \<in> set cs. c = FetchSecrets)"
    if "secrets_answers c r" and "secrets_resume c r s = (s', cs)" and "sx_loading s'" for c r s s' cs
    using secrets_resume_flags(2) [OF that(1,2)] that(3) by simp
qed

text \<open>
  What is created: a valid key and a value, from a form of the page; a form has at most one request in
  flight, and is busy exactly while it has one.
\<close>

fun created_by :: "nat \<Rightarrow> secrets_cmd \<Rightarrow> bool" where
  "created_by k (CreateSecret j b) = (j = k)"
| "created_by k c = False"

fun sound_create :: "nat \<Rightarrow> secrets_cmd \<Rightarrow> bool" where
  "sound_create k (CreateSecret j b) = (j \<le> k \<and> valid_key (scc_key b) \<and> scc_value b \<noteq> [])"
| "sound_create k c = True"

definition creations_inv :: "secrets_page \<Rightarrow> secrets_cmd list \<Rightarrow> bool" where
  "creations_inv s fl =
     ((\<forall>c \<in> set fl. sound_create (sx_forms s) c) \<and>
      (\<forall>k. length (filter (created_by k) fl) \<le> 1) \<and>
      (case sx_form s of
         None \<Rightarrow> True
       | Some f \<Rightarrow> length (filter (created_by (sx_forms s)) fl) = of_bool (fm_submitting f)))"

lemma secrets_offered_submit:
  "secrets_offered am project_id s SubmitSecret \<Longrightarrow>
     \<exists>f. sx_form s = Some f \<and> \<not> fm_submitting f \<and> fm_value f \<noteq> []"
  by (auto simp: secrets_offered_def secrets_view_def secret_dialog_def secret_form_view_def labelled_def
      scope_section_rows secret_row_def Let_def split: if_splits option.splits)

lemma sound_create_mono: "sound_create k c \<Longrightarrow> k \<le> k' \<Longrightarrow> sound_create k' c"
  by (cases "(k, c)" rule: sound_create.cases) auto

lemma none_created_yet: "\<forall>c \<in> set fl. sound_create k c \<Longrightarrow> filter (created_by (Suc k)) fl = []"
proof -
  assume "\<forall>c \<in> set fl. sound_create k c"
  moreover have "sound_create k c \<Longrightarrow> \<not> created_by (Suc k) c" for c
    by (cases "(k, c)" rule: sound_create.cases) auto
  ultimately show ?thesis by (auto simp: filter_empty_conv)
qed

lemma creations_inv_show: "creations_inv s fl \<Longrightarrow> creations_inv (show_form s) fl"
  by (auto simp: creations_inv_def show_form_def form_initial_def none_created_yet
      split: option.splits intro: sound_create_mono)

lemma creations_inv_form:
  "creations_inv s fl \<Longrightarrow> (\<And>f. fm_submitting (g f) = fm_submitting f) \<Longrightarrow> creations_inv (on_form g s) fl"
  by (auto simp: creations_inv_def on_form_def split: option.splits)

lemma creations_inv_other:
  "creations_inv s fl \<Longrightarrow> sx_form s' = None \<or> sx_form s' = sx_form s \<Longrightarrow> sx_forms s' = sx_forms s \<Longrightarrow>
     \<forall>k. \<forall>c \<in> set cs. \<not> created_by k c \<Longrightarrow> creations_inv s' (fl @ cs)"
proof -
  assume inv: "creations_inv s fl" and f: "sx_form s' = None \<or> sx_form s' = sx_form s"
    and k: "sx_forms s' = sx_forms s" and cs: "\<forall>k. \<forall>c \<in> set cs. \<not> created_by k c"
  from cs have "filter (created_by j) cs = []" for j by (auto simp: filter_empty_conv)
  moreover have "sound_create j c" if "c \<in> set cs" for j c
    using cs that created_by.simps(1) by (cases c) (simp, simp, blast)
  ultimately show ?thesis
    using inv f k by (cases "sx_form s") (auto simp: creations_inv_def cong: option.case_cong)
qed

lemma creations_inv_submit:
  assumes inv: "creations_inv s fl" and f: "sx_form s = Some f" "\<not> fm_submitting f" "fm_value f \<noteq> []"
    and h: "handle_submit_secret s = (s', cs)"
  shows "creations_inv s' (fl @ cs)"
proof (cases "valid_key (fm_key f)")
  case True
  with f h have s': "s' = on_form (\<lambda>f. f\<lparr>fm_error := JStr [], fm_submitting := True\<rparr>) s"
    and cs: "cs = [CreateSecret (sx_forms s)
      \<lparr>scc_key = fm_key f, scc_value = fm_value f, scc_scope = Some (fm_scope f)\<rparr>]"
    by (simp_all add: handle_submit_secret_def)
  have "filter (created_by (sx_forms s)) fl = []"
    using inv f by (simp add: creations_inv_def)
  with inv f True show ?thesis
    by (auto simp: creations_inv_def s' cs on_form_def)
next
  case False
  with f h inv show ?thesis
    by (auto simp: handle_submit_secret_def intro!: creations_inv_form)
qed

lemma creations_inv_act:
  assumes inv: "creations_inv s fl" and off: "secrets_offered am project_id s e"
    and h: "secrets_handle e s = (s', cs)"
  shows "creations_inv s' (fl @ cs)"
proof (cases "e = SubmitSecret")
  case True
  with secrets_offered_submit [of am project_id s] off h inv show ?thesis
    by (auto intro: creations_inv_submit)
next
  case False
  with h inv show ?thesis
    by (cases e) (auto intro: creations_inv_show creations_inv_form
        creations_inv_other [where cs = "[]", simplified] creations_inv_other
        simp: handle_delete_secret_def split: if_splits)
qed

lemma creations_inv_drop:
  "creations_inv s (xs @ c # ys) \<Longrightarrow> \<forall>k. \<not> created_by k c \<Longrightarrow> creations_inv s (xs @ ys)"
  by (cases "sx_form s") (simp_all add: creations_inv_def)

lemma creations_inv_answered:
  assumes inv: "creations_inv s (xs @ CreateSecret k b # ys)"
  shows "creations_inv (s\<lparr>sx_form := None\<rparr>) (xs @ ys)"
    and "(\<And>f. \<not> fm_submitting (g f)) \<Longrightarrow> creations_inv (on_own_form k g s) (xs @ ys)"
proof -
  let ?fl = "xs @ CreateSecret k b # ys"
  have sound: "\<forall>c \<in> set (xs @ ys). sound_create (sx_forms s) c"
    and one: "length (filter (created_by j) ?fl) \<le> 1" for j
    using inv unfolding creations_inv_def by auto
  have none: "filter (created_by k) (xs @ ys) = []"
    using one [of k] by simp
  have few: "length (filter (created_by j) (xs @ ys)) \<le> 1" for j
    using one [of j] by (simp split: if_splits)
  show "creations_inv (s\<lparr>sx_form := None\<rparr>) (xs @ ys)"
    using sound few by (simp add: creations_inv_def)
  have same: "filter (created_by (sx_forms s)) ?fl = filter (created_by (sx_forms s)) (xs @ ys)"
    if "k \<noteq> sx_forms s"
    using that by simp
  show "creations_inv (on_own_form k g s) (xs @ ys)" if "\<And>f. \<not> fm_submitting (g f)"
  proof (cases "k = sx_forms s")
    case True
    with that sound few none show ?thesis
      by (cases "sx_form s") (simp_all add: creations_inv_def on_own_form_def on_form_def)
  next
    case False
    with inv sound few same [OF False] show ?thesis
      by (cases "sx_form s") (simp_all add: creations_inv_def on_own_form_def)
  qed
qed

lemma creations_inv_reply:
  assumes inv: "creations_inv s (xs @ c # ys)" and r: "secrets_answers c r" "secrets_resume c r s = (s', cs)"
  shows "creations_inv s' (xs @ ys @ cs)"
proof (cases "\<forall>k. \<not> created_by k c")
  case True
  with r have "sx_form s' = sx_form s" and "sx_forms s' = sx_forms s" and "set cs \<subseteq> {FetchSecrets}"
    by (cases "(c, r, s)" rule: secrets_resume.cases; auto simp: fetch_data_def)+
  then have "creations_inv s' ((xs @ ys) @ cs)"
    using creations_inv_other [OF creations_inv_drop [OF inv True], of s' cs] by fastforce
  then show ?thesis by simp
next
  case False
  then obtain k b where c: "c = CreateSecret k b" by (cases c) auto
  with r obtain o1 where o: "r = SecretDone o1" by (cases r) auto
  show ?thesis
  proof (cases o1)
    case (Inl e)
    with r c o have "s' = on_own_form k (\<lambda>f. f\<lparr>fm_error := detail_or ''Failed to create secret'' e,
        fm_submitting := False\<rparr>) s" and "cs = []" by simp_all
    with creations_inv_answered(2) [OF inv [unfolded c]] show ?thesis by simp
  next
    case (Inr u)
    with r c o have "s' = s\<lparr>sx_form := None, sx_error := None\<rparr>" and "cs = [FetchSecrets]"
      by (simp_all add: fetch_data_def)
    with creations_inv_other [OF creations_inv_answered(1) [OF inv [unfolded c]], of s' cs] show ?thesis
      by simp
  qed
qed

interpretation secrets_creations: world_invariant "secrets_offered am project_id" secrets_handle
  secrets_resume secrets_answers secrets_start creations_inv for am project_id
proof unfold_locales
  show "creations_inv (fst secrets_start) (snd secrets_start)"
    by (simp add: creations_inv_def secrets_initial_def)
qed (erule (2) creations_inv_act, erule (2) creations_inv_reply)

text \<open>
  C34: the requests of the secrets page: at most one deletion is in flight; each form that was opened has
  at most one creation in flight, always of a valid key and a value that is not empty; and when nothing
  is in flight the page neither loads nor deletes, and its form can be submitted.
\<close>

theorem secrets_requests:
  assumes "(secrets_steps am project_id)\<^sup>*\<^sup>* secrets_start (s, fl)"
  shows "length (filter deletes_secret fl) \<le> 1 \<and> length (filter (created_by k) fl) \<le> 1 \<and>
    (CreateSecret k b \<in> set fl \<longrightarrow> valid_key (scc_key b) \<and> scc_value b \<noteq> []) \<and>
    (fl = [] \<longrightarrow> \<not> sx_loading s \<and> sx_deleting s = None \<and>
      (\<forall>f. sx_form s = Some f \<longrightarrow> \<not> fm_submitting f))"
proof (intro conjI impI allI)
  note inv = secrets_creations.reach_state_inv [OF assms, unfolded creations_inv_def]
  show "length (filter deletes_secret fl) \<le> 1"
    by (rule secrets_saving.single_save [OF assms])
  show "length (filter (created_by k) fl) \<le> 1" using inv by blast
  show "valid_key (scc_key b)" "scc_value b \<noteq> []" if "CreateSecret k b \<in> set fl"
    using inv that by auto
  show "\<not> sx_loading s" "sx_deleting s = None" if "fl = []"
    using secrets_saving.single_save(2) [OF assms that] by (simp_all add: is_deleting_secret_def)
  show "\<not> fm_submitting f" if "fl = []" "sx_form s = Some f" for f
    using inv that by simp
qed

text \<open>A form that is filled in, submitted and cancelled, then opened again.\<close>

definition resubmitted :: "(secrets_event + nat \<times> secrets_reply) list" where
  "resubmitted =
     [Inr (0, SecretsReply (Inr (sample_project, \<lparr>ls_items = [], ls_total = 0\<rparr>))),
      Inl ShowForm, Inl (SetKey ''k''), Inl (SetValue ''v''), Inl SubmitSecret, Inl HideForm,
      Inl ShowForm, Inl (SetKey ''next'')]"

lemma char_of_eq: "n < 256 \<Longrightarrow> char_of n = c \<longleftrightarrow> code_of c = n"
  using eq_char_of [of n c] by auto

lemma typed_keys:
  "to_upper ''k'' = ''K''" "to_upper ''next'' = ''NEXT''"
  by (simp_all add: to_upper_ascii upper_char_def is_lower_def char_of_eq del: to_upper.simps(2))

lemmas secrets_run = resubmitted_def secrets_initial_def form_initial_def fetch_data_def show_form_def
  on_form_def on_own_form_def handle_submit_secret_def valid_key_def typed_keys upper_char_def
  is_lower_def is_upper_def is_digit_def truthy_opt_def truthy_def

lemmas secrets_render = secrets_offered_def secrets_view_def secret_form_view_def secret_dialog_def
  labelled_def para_def

lemma resubmitted_playable:
  "playable (secrets_offered sample_ambient ''p1'') secrets_handle secrets_resume secrets_answers
     resubmitted secrets_start"
  by (simp add: secrets_run secrets_render del: to_upper.simps)

theorem secrets_requests_witness:
  "\<exists>s b. (secrets_steps sample_ambient ''p1'')\<^sup>*\<^sup>* secrets_start (s, [CreateSecret 1 b]) \<and>
     valid_key (scc_key b) \<and> scc_value b = ''v''"
proof -
  let ?b = "\<lparr>scc_key = ''K'', scc_value = ''v'', scc_scope = Some ScopeProject\<rparr>"
  let ?w = "run_script secrets_handle secrets_resume resubmitted secrets_start"
  have fl: "snd ?w = [CreateSecret 1 ?b]"
    by (simp add: secrets_run del: to_upper.simps)
  have reach: "(secrets_steps sample_ambient ''p1'')\<^sup>*\<^sup>* secrets_start (fst ?w, [CreateSecret 1 ?b])"
    using run_script_reaches [OF resubmitted_playable] fl by (metis prod.collapse)
  have "valid_key (scc_key ?b)"
    using secrets_requests [OF reach, where k = 1 and b = ?b] by simp
  with reach show ?thesis by (intro exI [of _ "fst ?w"] exI [of _ ?b]) simp
qed

text \<open>
  The answer of a cancelled creation closes the form that was opened since, and what was typed there is
  lost.
\<close>

lemma late_create_closes:
  "sx_form (fst (run_script secrets_handle secrets_resume resubmitted secrets_start)) =
     Some (form_initial\<lparr>fm_key := ''NEXT''\<rparr>) \<and>
   sx_form (fst (run_script secrets_handle secrets_resume
     (resubmitted @ [Inr (0, SecretDone (Inr ()))]) secrets_start)) = None"
  by (simp add: secrets_run del: to_upper.simps)

text \<open>A deletion of a secret of the production scope, with a project-wide secret of the same key.\<close>

definition sample_secret :: "string \<Rightarrow> secret_scope \<Rightarrow> secret" where
  "sample_secret i c =
     \<lparr>sc_id = i, sc_project_id = ''p1'', sc_scope = c, sc_key = ''K'', sc_created_at = ''2026-01-01T00:00:00''\<rparr>"

theorem delete_ignores_scope_witness:
  "sample_secret ''s1'' ScopeProduction \<in> set (the (api_delete_secret ''K''
     (query_scope (secrets_delete ''p1'' ''K''))
     [sample_secret ''s1'' ScopeProduction, sample_secret ''s2'' ScopeProject]))"
proof -
  let ?x = "sample_secret ''s1'' ScopeProduction"
  let ?ss = "[?x, sample_secret ''s2'' ScopeProject]"
  have "?x \<in> set ?ss" "sc_scope ?x \<noteq> ScopeProject" "valid_key (sc_key ?x)" "CHR ''?'' \<notin> set ''p1''"
    by (simp_all add: sample_secret_def valid_key_def is_upper_def)
  note claim = conjunct2 [OF delete_ignores_scope [OF this, where s = secrets_initial]]
  have "sc_key ?x = ''K''" and "sc_key (sample_secret ''s2'' ScopeProject) = ''K''"
    and "sc_scope (sample_secret ''s2'' ScopeProject) = ScopeProject"
    by (simp_all add: sample_secret_def)
  with claim show ?thesis
    by (cases "api_delete_secret ''K'' (query_scope (secrets_delete ''p1'' ''K'')) ?ss") simp_all
qed

end
