(* ===== verification/DeployPage.thy ===== *)
theory DeployPage
  imports ProjectDeploys LogStream
begin

text \<open>
  The page of one deploy (\<open>web/src/app/dashboard/[projectId]/deploys/[deployId]/page.tsx\<close>): the deploy
  with its project and environment, fetched together; the interval that fetches again while the deploy
  is under way; its logs, streamed while it is under way and fetched when it is not; and the rollback.
  The effects run when a render is committed, which is an event of its own. Every fetch sets a new
  deploy object, so the deploys set are numbered.
\<close>

section \<open>State\<close>

definition TERMINAL_STATUSES :: "deploy_status list" where
  "TERMINAL_STATUSES = [Active, Failed, Rolled_back, Stopped, Superseded]"

record detail_deps =
  de_status :: "deploy_status option"
  de_version :: nat
  de_terminal :: bool
  de_url :: "string option"

record deploy_page =
  dd_project :: "project option"
  dd_deploy :: "deploy option"
  dd_version :: nat                        \<comment> \<open>deploys set so far\<close>
  dd_environment :: "environment option"
  dd_loading :: bool
  dd_error :: json
  dd_rolling :: bool
  dd_rest_logs :: "string option"
  dd_stream :: stream_hook
  dd_committed :: "detail_deps option"     \<comment> \<open>of the last commit\<close>

definition detail_initial :: deploy_page where
  "detail_initial =
     \<lparr>dd_project = None, dd_deploy = None, dd_version = 0, dd_environment = None, dd_loading = True,
      dd_error = JStr [], dd_rolling = False, dd_rest_logs = None, dd_stream = hook_initial,
      dd_committed = None\<rparr>"

definition is_terminal :: "deploy_page \<Rightarrow> bool" where
  "is_terminal s =
     (case dd_deploy s of None \<Rightarrow> True | Some d \<Rightarrow> dp_status d \<in> set TERMINAL_STATUSES)"

definition detail_stream_url :: "string option \<Rightarrow> string \<Rightarrow> string \<Rightarrow> deploy_page \<Rightarrow> string option" where
  "detail_stream_url api project_id deploy_id s =
     (if dd_deploy s = None \<or> is_terminal s then None
      else Some (deploys_logs_stream_url api project_id deploy_id))"

definition display_logs :: "deploy_page \<Rightarrow> string option" where
  "display_logs s = (if is_terminal s then dd_rest_logs s else lg_logs (sh_state (dd_stream s)))"

section \<open>Operations\<close>

datatype detail_cmd = FetchDetail | FetchLogs | RollbackDeploy string

datatype detail_reply =
    DetailReply "(project \<times> deploy_list_response \<times> environment_list_response) outcome"
  | LogsReply "deploy_logs_response outcome"
  | RolledBack "unit outcome"

definition handle_rollback_now :: "deploy_page \<Rightarrow> deploy_page \<times> detail_cmd list" where
  "handle_rollback_now s =
     (case dd_deploy s of
        None \<Rightarrow> (s, [])
      | Some d \<Rightarrow> (s\<lparr>dd_rolling := True\<rparr>, [RollbackDeploy (dp_id d)]))"

text \<open>What the fetch stores: the project, and the deploy with its environment if it is in the listing.\<close>

definition store_detail ::
  "string \<Rightarrow> project \<Rightarrow> deploy_list_response \<Rightarrow> environment_list_response \<Rightarrow> deploy_page \<Rightarrow> deploy_page" where
  "store_detail deploy_id proj deploys envs s =
     (let s = s\<lparr>dd_project := Some proj\<rparr>
      in case find (\<lambda>d. dp_id d = deploy_id) (ls_items deploys) of
           None \<Rightarrow> s\<lparr>dd_error := JStr ''Deploy not found''\<rparr>
         | Some d \<Rightarrow>
             s\<lparr>dd_deploy := Some d, dd_version := Suc (dd_version s),
               dd_environment := find (\<lambda>e. ev_id e = dp_env_id d) (ls_items envs)\<rparr>)"

fun detail_resume :: "string \<Rightarrow> detail_cmd \<Rightarrow> detail_reply \<Rightarrow> deploy_page \<Rightarrow> deploy_page \<times> detail_cmd list" where
  "detail_resume deploy_id FetchDetail (DetailReply (Inr (proj, deploys, envs))) s =
     ((store_detail deploy_id proj deploys envs s)\<lparr>dd_loading := False\<rparr>, [])"
| "detail_resume deploy_id FetchDetail (DetailReply (Inl e)) s =
     (s\<lparr>dd_error := detail_or ''Failed to load deploy details'' e, dd_loading := False\<rparr>, [])"
| "detail_resume deploy_id FetchLogs (LogsReply (Inr res)) s = (s\<lparr>dd_rest_logs := dl_logs res\<rparr>, [])"
| "detail_resume deploy_id (RollbackDeploy i) (RolledBack (Inr u)) s =
     (s\<lparr>dd_rolling := False\<rparr>, [FetchDetail])"
| "detail_resume deploy_id (RollbackDeploy i) (RolledBack (Inl e)) s = (s\<lparr>dd_rolling := False\<rparr>, [])"
| "detail_resume deploy_id c r s = (s, [])"

section \<open>Effects\<close>

definition detail_deps :: "string option \<Rightarrow> string \<Rightarrow> string \<Rightarrow> deploy_page \<Rightarrow> detail_deps" where
  "detail_deps api project_id deploy_id s =
     \<lparr>de_status = map_option dp_status (dd_deploy s), de_version = dd_version s,
      de_terminal = is_terminal s, de_url = detail_stream_url api project_id deploy_id s\<rparr>"

definition dep_changed :: "('d \<Rightarrow> 'a) \<Rightarrow> 'd option \<Rightarrow> 'd \<Rightarrow> bool" where
  "dep_changed f old new = (case old of None \<Rightarrow> True | Some d \<Rightarrow> f d \<noteq> f new)"

definition rest_logs_effect :: "deploy_page \<Rightarrow> detail_cmd list" where
  "rest_logs_effect s = (if dd_deploy s = None \<or> \<not> is_terminal s then [] else [FetchLogs])"

definition commit_detail ::
  "string option \<Rightarrow> string \<Rightarrow> string \<Rightarrow> string option \<Rightarrow> deploy_page \<Rightarrow> deploy_page \<times> detail_cmd list" where
  "commit_detail api project_id deploy_id token s =
     (let old = dd_committed s; d = detail_deps api project_id deploy_id s;
          fetch = (if dep_changed de_status old d then [FetchDetail] else []);
          stream = (if dep_changed de_url old d
                    then stream_step (Args (de_url d) token) (dd_stream s) else dd_stream s);
          logs = (if dep_changed (\<lambda>d. (de_version d, de_terminal d)) old d then rest_logs_effect s else [])
      in (s\<lparr>dd_stream := stream, dd_committed := Some d\<rparr>, fetch @ logs))"

text \<open>
  The interval of the last run of the fetching effect: its callback has the deploy of that run, whose
  status is the one the effect last ran for.
\<close>

definition interval_tick :: "deploy_page \<Rightarrow> detail_cmd list" where
  "interval_tick s =
     (case Option.bind (dd_committed s) de_status of
        None \<Rightarrow> []
      | Some st \<Rightarrow> if st \<notin> set TERMINAL_STATUSES then [FetchDetail] else [])"

datatype detail_event = RollbackNow | IntervalTick | CommitDetail | LogEvent stream_event

fun detail_handle ::
  "string option \<Rightarrow> string \<Rightarrow> string \<Rightarrow> string option \<Rightarrow> detail_event \<Rightarrow> deploy_page \<Rightarrow>
   deploy_page \<times> detail_cmd list" where
  "detail_handle api project_id deploy_id token RollbackNow s = handle_rollback_now s"
| "detail_handle api project_id deploy_id token IntervalTick s = (s, interval_tick s)"
| "detail_handle api project_id deploy_id token CommitDetail s = commit_detail api project_id deploy_id token s"
| "detail_handle api project_id deploy_id token (LogEvent e) s =
     (s\<lparr>dd_stream := stream_step e (dd_stream s)\<rparr>, [])"

section \<open>View\<close>

text \<open>\<open>url.replace("http://", "")\<close>: the first occurrence, wherever it is.\<close>

fun replace_first :: "string \<Rightarrow> string \<Rightarrow> string" where
  "replace_first p [] = []"
| "replace_first p (c # cs) = (if starts_with (c # cs) p then drop (length p) (c # cs) else c # replace_first p cs)"

definition pipeline_view :: "deploy_status \<Rightarrow> 'e view" where
  "pipeline_view status =
     El ''div''
       [El ''ol'' (map (\<lambda>st. El ''li''
          [(case sw_mark st of None \<Rightarrow> El ''svg'' [] | Some m \<Rightarrow> Txt m), Txt (sw_label st)])
          (pw_steps (deploy_pipeline status))),
        (case pw_badge (deploy_pipeline status) of None \<Rightarrow> Frag [] | Some b \<Rightarrow> El ''span'' [Txt b])]"

definition detail_card :: "string \<Rightarrow> 'e view list \<Rightarrow> 'e view" where
  "detail_card label children = El ''div'' (para label # children)"

definition detail_header :: "deploy_page \<Rightarrow> deploy \<Rightarrow> detail_event view" where
  "detail_header s d =
     El ''div''
       [El ''h1'' [Txt (''Deploy '' @ take 8 (dp_id d))],
        El ''p''
          [Txt (case dd_environment s of
              Some e \<Rightarrow> ev_name e @ '' ('' @ env_type_text (ev_type e) @ '')'' | None \<Rightarrow> ''Unknown environment''),
           given (dp_url d) (\<lambda>u. Frag [Txt middot, Lnk u [Txt (replace_first ''http://'' u)],
             when_view (dp_is_production d) (El ''span'' [Txt ''production''])])],
        when_view (dp_is_production d)
          (Btn (dd_rolling s) (Some RollbackNow) [Txt (if dd_rolling s then ''Rolling back...'' else ''Rollback'')])]"

definition detail_logs :: "deploy_page \<Rightarrow> 'e view" where
  "detail_logs s =
     (let st = sh_state (dd_stream s)
      in El ''div''
        [El ''h2'' [Txt ''Deploy Logs''], when_view (lg_streaming st) (El ''span'' [Txt ''Live'']),
         given (lg_error st) (\<lambda>m. El ''span'' [Txt m]),
         (if truthy_opt (display_logs s) then El ''pre'' [Txt (the (display_logs s))]
          else para (if \<not> is_terminal s then ''Waiting for deploy output...''
                     else ''No logs available for this deploy.''))])"

definition detail_grid :: "ambient \<Rightarrow> deploy_page \<Rightarrow> deploy \<Rightarrow> 'e view" where
  "detail_grid am s d =
     El ''div''
       [detail_card ''Status'' [status_badge (deploy_status_text (dp_status d)),
          when_view (dp_is_production d) (El ''span'' [Txt ''main''])],
        detail_card ''Build''
          [(if truthy_opt (dp_commit_sha d)
            then Frag [El ''code'' [Txt (take 7 (the (dp_commit_sha d)))],
              given (dp_build_id d) (\<lambda>b. El ''span'' [Txt (''build '' @ take 8 b)])]
            else El ''span'' [Txt mdash])],
        detail_card ''Deploy ID'' [El ''code'' [Txt (dp_id d)]],
        detail_card ''Environment''
          [El ''span'' [Txt ((case dd_environment s of Some e \<Rightarrow> ev_name e | None \<Rightarrow> mdash) @ '' ('' @
             (case dd_environment s of Some e \<Rightarrow> env_type_text (ev_type e) | None \<Rightarrow> mdash) @ '')'')]],
        detail_card ''Created'' [El ''span'' [Txt (format_date (am_locale am) (Some (dp_created_at d)))]],
        detail_card ''Promoted''
          [El ''span'' [Txt (if truthy_opt (dp_promoted_at d)
             then format_date (am_locale am) (dp_promoted_at d) else mdash)]]]"

definition detail_view :: "ambient \<Rightarrow> string \<Rightarrow> deploy_page \<Rightarrow> detail_event view" where
  "detail_view am project_id s =
     (if dd_loading s then para ''Loading deploy...''
      else case (dd_deploy s, dd_project s) of
        (Some d, Some p) \<Rightarrow>
          if truthy_json (dd_error s)
          then El ''div'' [El ''p'' [json_child (dd_error s)],
            Lnk (''/dashboard/'' @ project_id) [Txt ''Back to project'']]
          else El ''div''
            [El ''div'' [Lnk ''/dashboard'' [Txt ''Projects''],
               Lnk (''/dashboard/'' @ project_id) [Txt (pj_name p)],
               El ''span'' [Txt (''Deploy '' @ take 8 (dp_id d))]],
             detail_header s d, El ''div'' [El ''h2'' [Txt ''Deploy Pipeline''], pipeline_view (dp_status d)],
             detail_logs s, detail_grid am s d,
             when_view (\<not> is_terminal s) (para ''Auto-refreshing every 5 seconds...'')]
      | _ \<Rightarrow>
          El ''div'' [El ''p'' [if truthy_json (dd_error s) then json_child (dd_error s) else Txt ''Deploy not found''],
            Lnk (''/dashboard/'' @ project_id) [Txt ''Back to project'']])"

section \<open>The machine of the page\<close>

fun detail_offered ::
  "ambient \<Rightarrow> string option \<Rightarrow> string \<Rightarrow> string \<Rightarrow> deploy_page \<Rightarrow> detail_event \<Rightarrow> bool" where
  "detail_offered am api project_id deploy_id s IntervalTick = (dd_committed s \<noteq> None)"
| "detail_offered am api project_id deploy_id s CommitDetail =
     (dd_committed s \<noteq> Some (detail_deps api project_id deploy_id s))"
| "detail_offered am api project_id deploy_id s (LogEvent e) = is_message e"
| "detail_offered am api project_id deploy_id s e = offers (detail_view am project_id s) e"

fun detail_answers :: "detail_cmd \<Rightarrow> detail_reply \<Rightarrow> bool" where
  "detail_answers FetchDetail (DetailReply r) = True"
| "detail_answers FetchLogs (LogsReply r) = True"
| "detail_answers (RollbackDeploy i) (RolledBack r) = True"
| "detail_answers c r = False"

abbreviation detail_steps where
  "detail_steps am api project_id deploy_id token \<equiv>
     wstep (detail_offered am api project_id deploy_id) (detail_handle api project_id deploy_id token)
       (detail_resume deploy_id) detail_answers"

abbreviation detail_start :: "(deploy_page, detail_cmd) world" where
  "detail_start \<equiv> (detail_initial, [])"

lemma offers_pipeline_view [simp]: "\<not> offers (pipeline_view st) e"
  by (auto simp: pipeline_view_def split: option.split)

lemma offers_detail_card [simp]: "offers (detail_card l vs) e \<longleftrightarrow> (\<exists>v \<in> set vs. offers v e)"
  by (simp add: detail_card_def)

lemma offers_detail_logs [simp]: "\<not> offers (detail_logs s) e"
  by (simp add: detail_logs_def Let_def)

lemma offers_detail_grid [simp]: "\<not> offers (detail_grid am s d) e"
  by (simp add: detail_grid_def)

lemma offers_detail_view:
  "offers (detail_view am project_id s) e \<longleftrightarrow>
     \<not> dd_loading s \<and> \<not> truthy_json (dd_error s) \<and> dd_project s \<noteq> None \<and>
     (\<exists>d. dd_deploy s = Some d \<and> dp_is_production d) \<and> \<not> dd_rolling s \<and> e = RollbackNow"
  by (cases "dd_deploy s"; cases "dd_project s") (auto simp: detail_view_def detail_header_def)

text \<open>The render throws on an error that it shows and React refuses, and on nothing else.\<close>

lemma crashes_given [simp]: "crashes (given v f) = (\<exists>t. v = Some t \<and> truthy t \<and> crashes (f t))"
  by (auto simp: given_def split: option.splits)

lemma crashes_pipeline_view [simp]: "\<not> crashes (pipeline_view st)"
  by (auto simp: pipeline_view_def split: option.split)

lemma crashes_deploy_badge [simp]: "\<not> crashes (status_badge (deploy_status_text st))"
  by (simp add: status_badge_label)

lemma crashes_detail_view:
  "crashes (detail_view am project_id s) \<longleftrightarrow>
     \<not> dd_loading s \<and> truthy_json (dd_error s) \<and> \<not> renderable (dd_error s)"
proof -
  have "\<not> crashes (detail_header s d)" "\<not> crashes (detail_logs s)" "\<not> crashes (detail_grid am s d)" for d
    by (auto simp: detail_header_def detail_logs_def detail_grid_def detail_card_def para_def Let_def)
  then show ?thesis
    by (cases "dd_deploy s"; cases "dd_project s") (auto simp: detail_view_def para_def)
qed

section \<open>What the page holds\<close>

text \<open>
  The deploy is the one of the address, it comes with its project, and the environment is the
  deploy's own; the deploys set are counted; and a rollback in flight is of this deploy, at most one.
\<close>

fun rolls_back :: "detail_cmd \<Rightarrow> bool" where
  "rolls_back (RollbackDeploy i) = True"
| "rolls_back c = False"

lemma rolls_back_iff: "rolls_back c \<longleftrightarrow> (\<exists>i. c = RollbackDeploy i)"
  by (cases c) auto

definition detail_wf :: "string \<Rightarrow> deploy_page \<Rightarrow> bool" where
  "detail_wf deploy_id s =
     ((dd_deploy s = None \<longrightarrow> dd_environment s = None \<and> dd_version s = 0) \<and>
      (\<forall>d. dd_deploy s = Some d \<longrightarrow> dp_id d = deploy_id \<and> dd_project s \<noteq> None \<and> 0 < dd_version s \<and>
         (\<forall>e. dd_environment s = Some e \<longrightarrow> ev_id e = dp_env_id d)))"

lemma detail_wf_same:
  "detail_wf deploy_id s \<Longrightarrow> dd_deploy s' = dd_deploy s \<Longrightarrow> dd_environment s' = dd_environment s \<Longrightarrow>
     dd_version s' = dd_version s \<Longrightarrow> dd_project s' = dd_project s \<Longrightarrow> detail_wf deploy_id s'"
  by (simp add: detail_wf_def)

definition detail_inv :: "string option \<Rightarrow> string \<Rightarrow> deploy_page \<Rightarrow> detail_cmd list \<Rightarrow> bool" where
  "detail_inv token deploy_id s fl =
     (detail_wf deploy_id s \<and> length (filter rolls_back fl) = of_bool (dd_rolling s) \<and>
      (\<forall>i. RollbackDeploy i \<in> set fl \<longrightarrow> i = deploy_id) \<and>
      stream_for token (Option.bind (dd_committed s) de_url) (dd_stream s))"

lemma store_detail_wf:
  assumes "detail_wf deploy_id s"
  shows "detail_wf deploy_id (store_detail deploy_id p ds es s)"
proof (cases "find (\<lambda>d. dp_id d = deploy_id) (ls_items ds)")
  case None
  with assms show ?thesis by (simp add: detail_wf_def store_detail_def Let_def)
next
  case (Some d)
  then have "dp_id d = deploy_id" by (auto simp: find_Some_iff)
  moreover obtain x where x: "find (\<lambda>e. ev_id e = dp_env_id d) (ls_items es) = x"
    by blast
  moreover have "x = None \<or> (\<exists>e. x = Some e \<and> ev_id e = dp_env_id d)"
    using x by (cases x) (auto simp: find_Some_iff)
  ultimately show ?thesis
    by (auto simp add: Some detail_wf_def store_detail_def Let_def)
qed

lemma store_detail_fields [simp]:
  "dd_rolling (store_detail i p ds es s) = dd_rolling s" "dd_stream (store_detail i p ds es s) = dd_stream s"
  "dd_committed (store_detail i p ds es s) = dd_committed s"
  by (simp_all add: store_detail_def Let_def split: option.split)

lemma rest_logs_cases: "rest_logs_effect s = [] \<or> rest_logs_effect s = [FetchLogs]"
  by (simp add: rest_logs_effect_def)

lemma interval_tick_cases: "interval_tick s = [] \<or> interval_tick s = [FetchDetail]"
  by (simp add: interval_tick_def split: option.split)

lemma detail_inv_commit:
  assumes inv: "detail_inv token deploy_id s fl" and c: "commit_detail api project_id deploy_id token s = (s', cs)"
  shows "detail_inv token deploy_id s' (fl @ cs)"
proof -
  let ?d = "detail_deps api project_id deploy_id s"
  have s': "dd_committed s' = Some ?d" "dd_stream s' = (if dep_changed de_url (dd_committed s) ?d
      then stream_step (Args (de_url ?d) token) (dd_stream s) else dd_stream s)"
    and same: "dd_rolling s' = dd_rolling s" and wf: "detail_wf deploy_id s'"
    using c inv by (auto simp: commit_detail_def Let_def detail_inv_def intro: detail_wf_same)
  have cs: "set cs \<subseteq> {FetchDetail, FetchLogs}"
    using c rest_logs_cases [of s] by (auto simp: commit_detail_def Let_def)
  then have "filter rolls_back cs = []" by (auto simp: filter_empty_conv)
  moreover have "stream_for token (de_url ?d) (dd_stream s')"
    using inv stream_for_args [of "dd_stream s" token "de_url ?d"]
    by (auto simp: s' detail_inv_def dep_changed_def stream_for_def split: option.splits if_splits)
  ultimately show ?thesis
    using inv cs wf by (auto simp: detail_inv_def s'(1) same)
qed

lemma detail_inv_act:
  assumes inv: "detail_inv token deploy_id s fl" and off: "detail_offered am api project_id deploy_id s e"
    and h: "detail_handle api project_id deploy_id token e s = (s', cs)"
  shows "detail_inv token deploy_id s' (fl @ cs)"
proof (cases e)
  case RollbackNow
  with off obtain d where d: "dd_deploy s = Some d" "\<not> dd_rolling s"
    by (auto simp: offers_detail_view)
  moreover from this have "dp_id d = deploy_id"
    using inv by (simp add: detail_inv_def detail_wf_def)
  ultimately show ?thesis
    using inv h RollbackNow by (auto simp: detail_inv_def handle_rollback_now_def intro: detail_wf_same)
next
  case IntervalTick
  with inv h interval_tick_cases [of s] show ?thesis by (auto simp: detail_inv_def)
next
  case CommitDetail
  with inv h show ?thesis by (auto intro: detail_inv_commit)
next
  case (LogEvent m)
  with inv h off show ?thesis
    by (auto simp: detail_inv_def intro: stream_for_message detail_wf_same)
qed

lemma detail_resume_frame:
  assumes "detail_answers c r" and "detail_resume deploy_id c r s = (s', cs)"
  shows "dd_committed s' = dd_committed s" and "dd_stream s' = dd_stream s"
    and "dd_rolling s' = (dd_rolling s \<and> \<not> rolls_back c)" and "set cs \<subseteq> {FetchDetail}"
    and "detail_wf deploy_id s \<Longrightarrow> detail_wf deploy_id s'"
proof -
  have "dd_committed s' = dd_committed s \<and> dd_stream s' = dd_stream s \<and>
      dd_rolling s' = (dd_rolling s \<and> \<not> rolls_back c) \<and> set cs \<subseteq> {FetchDetail}"
    using assms by (cases c; cases "(deploy_id, c, r, s)" rule: detail_resume.cases) auto
  then show "dd_committed s' = dd_committed s" and "dd_stream s' = dd_stream s"
    and "dd_rolling s' = (dd_rolling s \<and> \<not> rolls_back c)" and "set cs \<subseteq> {FetchDetail}"
    by blast+
  show "detail_wf deploy_id s'" if wf: "detail_wf deploy_id s"
    using assms
  proof (cases "(deploy_id, c, r, s)" rule: detail_resume.cases)
    case (1 i p ds es s1)
    with assms have "s' = (store_detail deploy_id p ds es s)\<lparr>dd_loading := False\<rparr>" by simp
    then show ?thesis
      by (simp add: detail_wf_same [OF store_detail_wf [OF wf, of p ds es]])
  qed (auto simp: wf detail_wf_same [OF wf])
qed

lemma detail_inv_reply:
  assumes inv: "detail_inv token deploy_id s (xs @ c # ys)" and "detail_answers c r"
    and "detail_resume deploy_id c r s = (s', cs)"
  shows "detail_inv token deploy_id s' (xs @ ys @ cs)"
proof -
  note frame = detail_resume_frame [OF assms(2,3)]
  have "filter rolls_back cs = []" and none: "RollbackDeploy i \<notin> set cs" for i
    using frame(4) by (auto simp: filter_empty_conv)
  moreover have "length (filter rolls_back xs) + of_bool (rolls_back c) + length (filter rolls_back ys) =
      of_bool (dd_rolling s)"
    using inv by (cases "rolls_back c") (simp_all add: detail_inv_def)
  then have "length (filter rolls_back xs) + length (filter rolls_back ys) = of_bool (dd_rolling s')"
    by (cases "dd_rolling s"; cases "rolls_back c") (simp_all add: frame(3))
  ultimately show ?thesis
    using inv frame(5) by (auto simp: detail_inv_def frame(1,2))
qed

interpretation detail_world: world_invariant "detail_offered am api project_id deploy_id"
  "detail_handle api project_id deploy_id token" "detail_resume deploy_id" detail_answers detail_start
  "detail_inv token deploy_id" for am api project_id deploy_id token
proof unfold_locales
  show "detail_inv token deploy_id (fst detail_start) (snd detail_start)"
    by (simp add: detail_inv_def detail_wf_def detail_initial_def stream_for_initial)
qed (erule (2) detail_inv_act, erule (2) detail_inv_reply)

section \<open>Properties\<close>

text \<open>
  C33: what the page holds is well formed in every state it reaches: a deploy is the one of the address,
  with its project and its own environment; the render throws only on an error whose detail is an
  object; and at most one rollback is in flight, of this deploy, while the button is disabled.
\<close>

theorem deploy_page_wellformed:
  assumes "(detail_steps am api project_id deploy_id token)\<^sup>*\<^sup>* detail_start (s, fl)"
  shows "(\<forall>d. dd_deploy s = Some d \<longrightarrow> dp_id d = deploy_id \<and> dd_project s \<noteq> None \<and>
       (\<forall>e. dd_environment s = Some e \<longrightarrow> ev_id e = dp_env_id d)) \<and>
    (crashes (detail_view am project_id s) \<longrightarrow> \<not> renderable (dd_error s)) \<and>
    (filter rolls_back fl = (if dd_rolling s then [RollbackDeploy deploy_id] else [])) \<and>
    (offers (detail_view am project_id s) RollbackNow \<longrightarrow> filter rolls_back fl = [])"
proof -
  have inv: "detail_inv token deploy_id s fl"
    by (rule detail_world.reach_state_inv [OF assms])
  have rb: "filter rolls_back fl = (if dd_rolling s then [RollbackDeploy deploy_id] else [])"
  proof (cases "filter rolls_back fl")
    case Nil
    with inv show ?thesis by (auto simp: detail_inv_def)
  next
    case (Cons c cs)
    with inv have "Suc (length cs) = of_bool (dd_rolling s)" by (simp add: detail_inv_def)
    then have "cs = []" "dd_rolling s" by (cases "dd_rolling s"; simp)+
    moreover have "c \<in> set (filter rolls_back fl)" using Cons by simp
    then have c: "c \<in> set fl" "rolls_back c" by simp_all
    from c(2) obtain i where "c = RollbackDeploy i" unfolding rolls_back_iff ..
    with c(1) inv have "c = RollbackDeploy deploy_id" by (simp add: detail_inv_def)
    ultimately show ?thesis using Cons by simp
  qed
  moreover have "crashes (detail_view am project_id s) \<longrightarrow> \<not> renderable (dd_error s)"
    by (simp add: crashes_detail_view)
  moreover have "offers (detail_view am project_id s) RollbackNow \<longrightarrow> filter rolls_back fl = []"
    by (auto simp: rb offers_detail_view)
  ultimately show ?thesis
    using inv by (auto simp: detail_inv_def detail_wf_def)
qed

text \<open>
  The page while the server has settled on a status: every answer that has the deploy has it in the
  status \<open>st\<close>; the renders due are committed and the requests answered, in any order.
\<close>

definition settled_reply :: "deploy_status \<Rightarrow> string \<Rightarrow> detail_cmd \<Rightarrow> detail_reply \<Rightarrow> bool" where
  "settled_reply st deploy_id c r =
     (detail_answers c r \<and>
      (\<forall>p ds es. r = DetailReply (Inr (p, ds, es)) \<longrightarrow>
         (\<forall>d \<in> set (ls_items ds). dp_id d = deploy_id \<longrightarrow> dp_status d = st)))"

definition commit_due :: "string option \<Rightarrow> string \<Rightarrow> string \<Rightarrow> deploy_page \<Rightarrow> bool" where
  "commit_due api project_id deploy_id s = (dd_committed s \<noteq> Some (detail_deps api project_id deploy_id s))"

abbreviation settle_steps where
  "settle_steps api project_id deploy_id token st \<equiv>
     wstep (\<lambda>s e. e = CommitDetail \<and> commit_due api project_id deploy_id s)
       (detail_handle api project_id deploy_id token) (detail_resume deploy_id) (settled_reply st deploy_id)"

text \<open>
  The measure of the work left: whether the status shown is still another one and whether the fetching
  effect has yet to run for it, the rollbacks and the fetches in flight, a commit due, and the fetches
  of logs in flight.
\<close>

definition status_shown :: "deploy_page \<Rightarrow> deploy_status option" where
  "status_shown s = map_option dp_status (dd_deploy s)"

definition status_work :: "deploy_status \<Rightarrow> deploy_page \<Rightarrow> nat" where
  "status_work st s =
     2 * of_bool (status_shown s \<noteq> Some st) +
     of_bool (dd_committed s = None \<or> Option.bind (dd_committed s) de_status \<noteq> status_shown s)"

definition work_left :: "string option \<Rightarrow> string \<Rightarrow> string \<Rightarrow> deploy_status \<Rightarrow>
    ((deploy_page \<times> detail_cmd list) \<Rightarrow> nat) list" where
  "work_left api project_id deploy_id st =
     [\<lambda>(s, fl). status_work st s, \<lambda>(s, fl). length (filter rolls_back fl),
      \<lambda>(s, fl). length (filter (\<lambda>c. c = FetchDetail) fl),
      \<lambda>(s, fl). of_bool (commit_due api project_id deploy_id s),
      \<lambda>(s, fl). length (filter (\<lambda>c. c = FetchLogs) fl)]"

lemma status_changed:
  "dep_changed de_status (dd_committed s) (detail_deps api project_id deploy_id s) \<longleftrightarrow>
     dd_committed s = None \<or> Option.bind (dd_committed s) de_status \<noteq> status_shown s"
  by (auto simp: dep_changed_def detail_deps_def status_shown_def split: option.splits)

lemma commit_work:
  assumes "commit_due api project_id deploy_id s" and "commit_detail api project_id deploy_id token s = (s', cs)"
  shows "((s', fl @ cs), (s, fl)) \<in> measures (work_left api project_id deploy_id st)"
proof -
  let ?d = "detail_deps api project_id deploy_id s"
  have s': "dd_committed s' = Some ?d" "dd_deploy s' = dd_deploy s" "dd_version s' = dd_version s"
    using assms(2) by (auto simp: commit_detail_def Let_def)
  then have deps: "detail_deps api project_id deploy_id s' = ?d"
    by (simp add: detail_deps_def is_terminal_def detail_stream_url_def)
  have shown: "status_shown s' = status_shown s" "Option.bind (dd_committed s') de_status = status_shown s"
    "de_status ?d = status_shown s"
    by (simp_all add: status_shown_def s' detail_deps_def)
  show ?thesis
  proof (cases "dep_changed de_status (dd_committed s) ?d")
    case True
    then have "status_work st s' < status_work st s"
      by (simp add: status_work_def shown s'(1) status_changed)
    then show ?thesis by (simp add: work_left_def)
  next
    case False
    then have "status_work st s' = status_work st s"
      by (simp add: status_work_def shown s'(1) status_changed)
    moreover have "set cs \<subseteq> {FetchLogs}"
      using False assms(2) rest_logs_cases [of s] by (auto simp: commit_detail_def Let_def)
    then have "filter rolls_back cs = []" "filter (\<lambda>c. c = FetchDetail) cs = []"
      by (auto simp: filter_empty_conv)
    ultimately show ?thesis
      using assms(1) by (simp add: work_left_def commit_due_def s'(1) deps)
  qed
qed

lemma store_detail_status:
  assumes "\<forall>d \<in> set (ls_items ds). dp_id d = deploy_id \<longrightarrow> dp_status d = st"
  shows "status_shown (store_detail deploy_id p ds es s) = status_shown s \<or>
    status_shown (store_detail deploy_id p ds es s) = Some st"
proof (cases "find (\<lambda>d. dp_id d = deploy_id) (ls_items ds)")
  case (Some d)
  then have "dp_status d = st"
    using assms by (auto simp: find_Some_iff)
  then show ?thesis by (simp add: store_detail_def status_shown_def Let_def Some)
qed (simp add: store_detail_def status_shown_def Let_def)

lemma status_work_mono:
  assumes "dd_committed s' = dd_committed s" and "status_shown s' = status_shown s \<or> status_shown s' = Some st"
  shows "status_work st s' \<le> status_work st s"
  using assms by (cases "status_shown s = Some st") (auto simp: status_work_def)

lemma settled_frame:
  assumes "settled_reply st deploy_id c r" and "detail_resume deploy_id c r s = (s', cs)"
  shows "status_work st s' \<le> status_work st s" and "cs \<noteq> [] \<Longrightarrow> rolls_back c \<and> cs = [FetchDetail]"
    and "c \<noteq> FetchDetail \<Longrightarrow> status_work st s' = status_work st s \<and>
      commit_due api project_id deploy_id s' = commit_due api project_id deploy_id s"
proof -
  have ans: "detail_answers c r" using assms(1) by (simp add: settled_reply_def)
  show "status_work st s' \<le> status_work st s"
  proof (rule status_work_mono)
    show "dd_committed s' = dd_committed s" by (rule detail_resume_frame [OF ans assms(2)])
    show "status_shown s' = status_shown s \<or> status_shown s' = Some st"
      using ans assms
    proof (cases "(deploy_id, c, r, s)" rule: detail_resume.cases)
      case (1 i p ds es s1)
      with assms(1) have "\<forall>d \<in> set (ls_items ds). dp_id d = deploy_id \<longrightarrow> dp_status d = st"
        by (simp add: settled_reply_def)
      from store_detail_status [OF this, of p es s] 1 assms(2) show ?thesis
        by (auto simp: status_shown_def)
    qed (auto simp: status_shown_def)
  qed
  show "rolls_back c \<and> cs = [FetchDetail]" if "cs \<noteq> []"
    using that ans assms(2) by (cases c; cases "(deploy_id, c, r, s)" rule: detail_resume.cases) auto
  show "status_work st s' = status_work st s \<and>
      commit_due api project_id deploy_id s' = commit_due api project_id deploy_id s" if "c \<noteq> FetchDetail"
  proof -
    have "dd_deploy s' = dd_deploy s \<and> dd_version s' = dd_version s \<and> dd_committed s' = dd_committed s"
      using that ans assms(2)
      by (cases c; cases "(deploy_id, c, r, s)" rule: detail_resume.cases) auto
    then show ?thesis
      by (simp add: status_work_def status_shown_def commit_due_def detail_deps_def is_terminal_def
          detail_stream_url_def)
  qed
qed

lemma reply_work:
  assumes "settled_reply st deploy_id c r" and "detail_resume deploy_id c r s = (s', cs)"
  shows "((s', xs @ ys @ cs), (s, xs @ c # ys)) \<in> measures (work_left api project_id deploy_id st)"
proof -
  note frame = settled_frame [OF assms]
  show ?thesis
  proof (cases "rolls_back c")
    case True
    then have "filter rolls_back cs = []" and "c \<noteq> FetchDetail"
      using frame(2) by (cases "cs = []"; auto)+
    with True frame(3) show ?thesis by (simp add: work_left_def)
  next
    case False
    then have "cs = []" using frame(2) by blast
    with False frame(1,3) show ?thesis by (cases c) (auto simp: work_left_def)
  qed
qed

lemma settle_step_work:
  "settle_steps api project_id deploy_id token st w w' \<Longrightarrow>
     (w', w) \<in> measures (work_left api project_id deploy_id st)"
  by (erule wstep.cases) (auto intro: commit_work reply_work)

text \<open>Every request can be answered, with a failure at least.\<close>

lemma settled_reply_failure: "\<exists>r. settled_reply st deploy_id c r"
proof (cases c)
  case FetchDetail
  then show ?thesis by (intro exI [of _ "DetailReply (Inl NotAnError)"]) (simp add: settled_reply_def)
next
  case FetchLogs
  then show ?thesis by (intro exI [of _ "LogsReply (Inl NotAnError)"]) (simp add: settled_reply_def)
next
  case (RollbackDeploy i)
  then show ?thesis by (intro exI [of _ "RolledBack (Inl NotAnError)"]) (simp add: settled_reply_def)
qed

lemma rest_empty:
  assumes "\<nexists>w. settle_steps api project_id deploy_id token st (s, fl) w"
  shows "fl = []" and "\<not> commit_due api project_id deploy_id s"
proof -
  show "fl = []"
  proof (cases fl)
    case (Cons c ys)
    obtain r where r: "settled_reply st deploy_id c r" using settled_reply_failure by blast
    obtain s' cs where "detail_resume deploy_id c r s = (s', cs)" by fastforce
    then have "settle_steps api project_id deploy_id token st (s, [] @ c # ys) (s', [] @ ys @ cs)"
      by (rule wstep.reply [where answers = "settled_reply st deploy_id", OF r])
    with Cons assms show ?thesis by simp
  qed
  show "\<not> commit_due api project_id deploy_id s"
  proof
    assume due: "commit_due api project_id deploy_id s"
    obtain s' cs where "detail_handle api project_id deploy_id token CommitDetail s = (s', cs)" by fastforce
    with due have "settle_steps api project_id deploy_id token st (s, fl) (s', fl @ cs)"
      by (intro wstep.act [where e = CommitDetail]) simp_all
    with assms show False by blast
  qed
qed

text \<open>
  C32: once the server has settled on a status, the page comes to rest: no run of answers and commits
  goes on for ever. And when it rests with a terminal status on screen, nothing is in flight and the
  interval, which still fires, sends nothing.
\<close>

theorem deploy_page_settles:
  assumes "st \<in> set TERMINAL_STATUSES"
  shows "(\<nexists>run. \<forall>i. settle_steps api project_id deploy_id token st (run i) (run (Suc i))) \<and>
    (\<forall>s fl. (\<nexists>w. settle_steps api project_id deploy_id token st (s, fl) w) \<and> status_shown s = Some st \<longrightarrow>
       fl = [] \<and> detail_handle api project_id deploy_id token IntervalTick s = (s, []))"
proof (intro conjI allI impI; (elim conjE)?)
  have "{(w', w). settle_steps api project_id deploy_id token st w w'}
      \<subseteq> measures (work_left api project_id deploy_id st)"
    using settle_step_work by auto
  then have "wf {(w', w). settle_steps api project_id deploy_id token st w w'}"
    by (rule wf_subset [OF wf_measures])
  then show "\<nexists>run. \<forall>i. settle_steps api project_id deploy_id token st (run i) (run (Suc i))"
    by (simp add: wf_iff_no_infinite_down_chain)
next
  fix s fl
  assume rest: "\<nexists>w. settle_steps api project_id deploy_id token st (s, fl) w" and st: "status_shown s = Some st"
  show "fl = []" by (rule rest_empty [OF rest])
  have "dd_committed s = Some (detail_deps api project_id deploy_id s)"
    using rest_empty(2) [OF rest] by (simp add: commit_due_def)
  moreover obtain d where "dd_deploy s = Some d" "dp_status d = st"
    using st by (auto simp: status_shown_def)
  ultimately show "detail_handle api project_id deploy_id token IntervalTick s = (s, [])"
    using assms by (simp add: interval_tick_def detail_deps_def)
qed

theorem deploy_page_settles_witness:
  "\<nexists>run. \<forall>i. settle_steps None ''p1'' ''d1'' None Active (run i) (run (Suc i))"
proof -
  have "Active \<in> set TERMINAL_STATUSES" by (simp add: TERMINAL_STATUSES_def)
  from deploy_page_settles [OF this] show ?thesis by blast
qed

text \<open>The stream is open only while the deploy on screen is under way, and to its own logs.\<close>

lemma detail_stream_follows:
  assumes "(detail_steps am api project_id deploy_id token)\<^sup>*\<^sup>* detail_start (s, fl)"
    and "dd_committed s = Some (detail_deps api project_id deploy_id s)" and "sh_open (dd_stream s) \<noteq> {}"
  shows "\<exists>d c. dd_deploy s = Some d \<and> dp_status d \<notin> set TERMINAL_STATUSES \<and> sh_open (dd_stream s) = {c} \<and>
    sh_url (dd_stream s) = Some (stream_url (deploys_logs_stream_url api project_id deploy_id) token)"
proof -
  have "stream_for token (detail_stream_url api project_id deploy_id s) (dd_stream s)"
    using detail_world.reach_state_inv [OF assms(1), unfolded detail_inv_def] assms(2)
    by (simp add: detail_deps_def)
  from stream_for_url [OF this assms(3)] show ?thesis
    by (cases "dd_deploy s") (auto simp: detail_stream_url_def is_terminal_def split: if_splits)
qed

text \<open>An answer that has the deploy leaves the error of a failed fetch in place, and the page with it.\<close>

lemma detail_error_stays:
  assumes "d \<in> set (ls_items ds)" and "dp_id d = deploy_id" and "truthy_json (dd_error s)"
    and "detail_resume deploy_id FetchDetail (DetailReply (Inr (p, ds, es))) s = (s', cs)"
  shows "dd_error s' = dd_error s" and "\<not> offers (detail_view am project_id s') RollbackNow"
proof -
  obtain x where "find (\<lambda>d. dp_id d = deploy_id) (ls_items ds) = Some x"
    using assms(1,2) by (metis (mono_tags, lifting) find_None_iff not_None_eq)
  with assms(4) show "dd_error s' = dd_error s"
    by (auto simp: store_detail_def)
  with assms(3) show "\<not> offers (detail_view am project_id s') RollbackNow"
    by (simp add: offers_detail_view)
qed

text \<open>
  The page offers a rollback of a deploy that it was told is the production one, whatever its status is
  now; the API permits it only for one that is active.
\<close>

lemma rollback_refused:
  assumes "dd_deploy s = Some d" and "dp_is_production d" and "dd_project s \<noteq> None"
    and "\<not> dd_loading s" and "\<not> truthy_json (dd_error s)" and "\<not> dd_rolling s" and "dp_status d \<noteq> Active"
  shows "offers (detail_view am project_id s) RollbackNow" and "\<not> rollback_permitted d"
  using assms by (simp_all add: offers_detail_view rollback_permitted_def)

section \<open>A run of the page\<close>

definition production_deploy :: deploy where
  "production_deploy = (sample_deploy Active)\<lparr>dp_is_production := True\<rparr>"

definition rollback_script :: "(detail_event + nat \<times> detail_reply) list" where
  "rollback_script =
     [Inl CommitDetail,
      Inr (0, DetailReply (Inr (sample_project, \<lparr>ls_items = [production_deploy], ls_total = 1\<rparr>,
        \<lparr>ls_items = [], ls_total = 0\<rparr>))),
      Inl CommitDetail, Inl RollbackNow]"

lemmas detail_run = rollback_script_def production_deploy_def sample_deploy_def detail_initial_def
  commit_detail_def detail_deps_def dep_changed_def rest_logs_effect_def is_terminal_def
  detail_stream_url_def store_detail_def handle_rollback_now_def TERMINAL_STATUSES_def truthy_def
  hook_initial_def offers_detail_view

lemma rollback_playable:
  "playable (detail_offered sample_ambient None ''p1'' (dp_id production_deploy))
     (detail_handle None ''p1'' (dp_id production_deploy) None) (detail_resume (dp_id production_deploy))
     detail_answers rollback_script detail_start"
  by (simp add: detail_run Let_def)

theorem deploy_page_wellformed_witness:
  "\<exists>s fl. (detail_steps sample_ambient None ''p1'' (dp_id production_deploy) None)\<^sup>*\<^sup>* detail_start (s, fl) \<and>
     dd_deploy s = Some production_deploy \<and> dd_rolling s \<and>
     filter rolls_back fl = [RollbackDeploy (dp_id production_deploy)]"
proof -
  let ?run = "run_script (detail_handle None ''p1'' (dp_id production_deploy) None)
    (detail_resume (dp_id production_deploy)) rollback_script detail_start"
  obtain s fl where run: "?run = (s, fl)" by (cases ?run)
  have reach: "(detail_steps sample_ambient None ''p1'' (dp_id production_deploy) None)\<^sup>*\<^sup>* detail_start (s, fl)"
    using run_script_reaches [OF rollback_playable] run by simp
  have s: "dd_deploy s = Some production_deploy" "dd_rolling s"
    using run by (auto simp: detail_run Let_def)
  have "filter rolls_back fl = [RollbackDeploy (dp_id production_deploy)]"
    using deploy_page_wellformed [OF reach] by (simp add: s(2))
  with reach s show ?thesis by (intro exI [of _ s] exI [of _ fl]) simp
qed

end
