(* ===== verification/AccountPage.thy ===== *)
theory AccountPage
  imports ProjectKit AuthContext
begin

text \<open>
  The settings of the account (\<open>web/src/app/settings/page.tsx\<close>): the profile, the linking of a GitHub
  account by a redirect to GitHub and back, whose outcome is in the address of the page, and the
  unlinking. The user is the one of the session context, and so is the refresh of the user, which
  never rejects.
\<close>

section \<open>Messages\<close>

text \<open>
  The message is a text but for an error code that names a property which the dictionary of messages
  inherits: \<open>setMessage\<close> takes an inherited function for an update and applies it to the message there
  was, with no receiver, when it renders.
\<close>

datatype message = Message string | FalseMessage | ObjectMessage | ThrowingMessage

datatype message_type = Success | Failure

definition github_error_messages :: "(string \<times> string) list" where
  "github_error_messages =
     [(''invalid_state'', ''OAuth session expired. Please try again.''),
      (''token_exchange_failed'', ''Failed to authenticate with GitHub. Please try again.''),
      (''no_access_token'', ''GitHub did not return an access token. Please try again.''),
      (''user_fetch_failed'', ''Failed to fetch your GitHub profile. Please try again.''),
      (''invalid_user_data'', ''Invalid data returned from GitHub. Please try again.''),
      (''already_linked'', ''This GitHub account is already linked to another user.''),
      (''user_not_found'', ''Your platform account was not found.'')]"

text \<open>
  What the inherited functions return: \<open>toString\<close> names the missing receiver, \<open>isPrototypeOf\<close> is false
  for a text, \<open>constructor\<close> wraps the text in an object, and the others throw.
\<close>

definition applied_function :: "string \<Rightarrow> message" where
  "applied_function f =
     (if f = ''toString'' then Message ''[object Undefined]''
      else if f = ''isPrototypeOf'' then FalseMessage
      else if f = ''constructor'' then ObjectMessage else ThrowingMessage)"

definition github_error_message :: "string \<Rightarrow> message" where
  "github_error_message error =
     (case dict_get github_error_messages error of
        Own m \<Rightarrow> Message m
      | Inherited_function \<Rightarrow> applied_function error
      | Inherited_object \<Rightarrow> ObjectMessage
      | Missing \<Rightarrow> Message (''GitHub linking failed: '' @ error))"

section \<open>State and operations\<close>

record account_page =
  ac_message :: message
  ac_type :: message_type
  ac_linking :: bool
  ac_unlinking :: bool
  ac_confirm :: bool
  ac_left_for :: "string option"    \<comment> \<open>\<open>window.location.href\<close>, once set\<close>

definition account_initial :: account_page where
  "account_initial =
     \<lparr>ac_message = Message [], ac_type = Success, ac_linking = False, ac_unlinking = False,
      ac_confirm = False, ac_left_for = None\<rparr>"

datatype account_cmd = GetAuthorizeUrl | RefreshLinked | UnlinkGitHub | RefreshUnlinked

datatype account_reply = AuthorizeReply "string outcome" | UnlinkReply "unit outcome" | Refreshed

text \<open>The effect of \<open>[searchParams, refreshUser]\<close>, which are the same for every render.\<close>

definition account_mount :: "search_params \<Rightarrow> account_page \<times> account_cmd list" where
  "account_mount params =
     (let linked = (params_get params ''github_linked'' = Some ''true'');
          s = (if linked
               then account_initial\<lparr>ac_message := Message ''GitHub account linked successfully.'', ac_type := Success\<rparr>
               else account_initial);
          s = (case params_get params ''github_error'' of
                 None \<Rightarrow> s
               | Some e \<Rightarrow> if truthy e then s\<lparr>ac_message := github_error_message e, ac_type := Failure\<rparr> else s)
      in (s, if linked then [RefreshLinked] else []))"

definition handle_link_github :: "account_page \<Rightarrow> account_page \<times> account_cmd list" where
  "handle_link_github s = (s\<lparr>ac_linking := True, ac_message := Message []\<rparr>, [GetAuthorizeUrl])"

definition handle_unlink_github :: "account_page \<Rightarrow> account_page \<times> account_cmd list" where
  "handle_unlink_github s =
     (s\<lparr>ac_confirm := False, ac_unlinking := True, ac_message := Message []\<rparr>, [UnlinkGitHub])"

datatype account_event = LinkGitHub | AskUnlink | CloseUnlink | ConfirmUnlink

fun account_handle :: "account_event \<Rightarrow> account_page \<Rightarrow> account_page \<times> account_cmd list" where
  "account_handle LinkGitHub s = handle_link_github s"
| "account_handle AskUnlink s = (s\<lparr>ac_confirm := True\<rparr>, [])"
| "account_handle CloseUnlink s = (s\<lparr>ac_confirm := False\<rparr>, [])"
| "account_handle ConfirmUnlink s = handle_unlink_github s"

fun account_resume :: "account_cmd \<Rightarrow> account_reply \<Rightarrow> account_page \<Rightarrow> account_page \<times> account_cmd list" where
  "account_resume GetAuthorizeUrl (AuthorizeReply (Inr url)) s = (s\<lparr>ac_left_for := Some url\<rparr>, [])"
| "account_resume GetAuthorizeUrl (AuthorizeReply (Inl e)) s =
     (s\<lparr>ac_message := Message (message_or ''Failed to start GitHub linking'' e), ac_type := Failure,
        ac_linking := False\<rparr>, [])"
| "account_resume UnlinkGitHub (UnlinkReply (Inr u)) s =
     (s\<lparr>ac_message := Message ''GitHub account unlinked.'', ac_type := Success\<rparr>, [RefreshUnlinked])"
| "account_resume UnlinkGitHub (UnlinkReply (Inl e)) s =
     (s\<lparr>ac_message := Message (message_or ''Failed to unlink'' e), ac_type := Failure,
        ac_unlinking := False\<rparr>, [])"
| "account_resume RefreshUnlinked Refreshed s = (s\<lparr>ac_unlinking := False\<rparr>, [])"
| "account_resume c r s = (s, [])"

section \<open>View\<close>

definition message_box :: "account_page \<Rightarrow> 'e view" where
  "message_box s =
     (let tag = (if ac_type s = Success then ''div.success'' else ''div.error'')
      in case ac_message s of
           Message m \<Rightarrow> when_view (truthy m) (El tag [Txt m])
         | FalseMessage \<Rightarrow> Frag []
         | _ \<Rightarrow> El tag [Refused])"

definition profile_row :: "string \<Rightarrow> string \<Rightarrow> 'e view" where
  "profile_row label text = El ''div'' [El ''dt'' [Txt label], El ''dd'' [Txt text]]"

definition github_account :: "account_page \<Rightarrow> user_info \<Rightarrow> account_event view" where
  "github_account s u =
     (if truthy_opt (ui_github_username u)
      then El ''div'' [para (the (ui_github_username u)), para ''Connected'',
        Btn (ac_unlinking s) (Some AskUnlink) [Txt (if ac_unlinking s then ''Unlinking...'' else ''Unlink'')]]
      else El ''div''
        [para ''Link your GitHub account to import repositories and enable automatic deployments from your personal repos.'',
         Btn (ac_linking s) (Some LinkGitHub) [Txt (if ac_linking s then ''Connecting...'' else ''Link GitHub Account'')]])"

definition unlink_dialog :: "account_page \<Rightarrow> account_event view" where
  "unlink_dialog s =
     confirm_modal (ac_confirm s) CloseUnlink ConfirmUnlink
       \<lparr>cp_title = ''Unlink GitHub Account'',
        cp_description = Some ''Are you sure you want to unlink your GitHub account? You can re-link it at any time.'',
        cp_confirm_label = Some ''Unlink'', cp_cancel_label = None, cp_loading = ac_unlinking s\<rparr>"

definition account_view :: "user_info option \<Rightarrow> account_page \<Rightarrow> account_event view" where
  "account_view user s =
     (case user of
        None \<Rightarrow> Frag []
      | Some u \<Rightarrow>
          El ''div''
            [El ''h1'' [Txt ''Settings''], para ''Manage your account and integrations.'', message_box s,
             El ''dl'' [profile_row ''Name'' (ui_display_name u), profile_row ''Username'' (ui_username u),
               profile_row ''Email'' (ui_email u), profile_row ''Role'' (role_text (ui_role u))],
             para ''Profile information is synced from Active Directory.'',
             El ''h2'' [Txt ''GitHub Account''], github_account s u, unlink_dialog s])"

section \<open>The outcome of linking\<close>

text \<open>The codes with which the API's callback (\<open>src/api/app/routers/auth.py\<close>) redirects to the page.\<close>

definition github_failures :: "string list" where
  "github_failures =
     [''invalid_state'', ''token_exchange_failed'', ''no_access_token'', ''user_fetch_failed'',
      ''invalid_user_data'', ''already_linked'', ''user_not_found'']"

lemma own_messages:
  "list_all (\<lambda>e. case map_of github_error_messages e of None \<Rightarrow> False | Some m \<Rightarrow> m \<noteq> []) github_failures"
  by (simp add: github_failures_def github_error_messages_def)

lemma failure_params:
  "list_all (\<lambda>e. parse_params (''github_error='' @ e) = [(''github_error'', e)]) github_failures"
  by code_simp

lemma own_message:
  assumes "map_of github_error_messages e = Some m"
  shows "github_error_message e = Message m"
  using assms by (simp add: github_error_message_def dict_get_def)

text \<open>Only the message can make the render throw.\<close>

fun refused_message :: "message \<Rightarrow> bool" where
  "refused_message (Message m) = False"
| "refused_message FalseMessage = False"
| "refused_message m = True"

lemma crashes_message_box: "crashes (message_box s) = refused_message (ac_message s)"
  by (cases "ac_message s") (simp_all add: message_box_def Let_def)

lemma crashes_account: "crashes (account_view (Some u) s) = refused_message (ac_message s)"
  by (simp add: account_view_def crashes_message_box github_account_def unlink_dialog_def
      confirm_modal_def profile_row_def para_def)

text \<open>
  Whatever failure the API reports after a linking, the page it redirects to shows the message
  written for that failure, as an error, and asks for no refresh of the user.
\<close>

lemma github_failure_shown:
  assumes "e \<in> set github_failures"
  shows "\<exists>m s. map_of github_error_messages e = Some m \<and>
    account_mount (parse_params (''github_error='' @ e)) = (s, []) \<and>
    m \<in> set (texts (account_view (Some u) s)) \<and> ac_type s = Failure \<and> \<not> crashes (account_view (Some u) s)"
proof -
  have "case map_of github_error_messages e of None \<Rightarrow> False | Some m \<Rightarrow> m \<noteq> []"
    using own_messages assms by (simp only: list_all_iff)
  then obtain m where m: "map_of github_error_messages e = Some m" "m \<noteq> []"
    by (cases "map_of github_error_messages e") simp_all
  have p: "parse_params (''github_error='' @ e) = [(''github_error'', e)]"
    using failure_params assms by (simp only: list_all_iff)
  have "e \<noteq> []" using assms by (auto simp: github_failures_def)
  then have mount: "account_mount (parse_params (''github_error='' @ e)) =
      (account_initial\<lparr>ac_message := Message m, ac_type := Failure\<rparr>, [])"
    unfolding p by (simp add: account_mount_def params_get_def truthy_def own_message [OF m(1)] Let_def)
  moreover have "\<not> crashes (account_view (Some u) (account_initial\<lparr>ac_message := Message m, ac_type := Failure\<rparr>))"
    by (simp add: crashes_account)
  moreover have "m \<in> set (texts (account_view (Some u)
      (account_initial\<lparr>ac_message := Message m, ac_type := Failure\<rparr>)))"
    using m(2) by (simp add: account_view_def message_box_def truthy_def)
  ultimately show ?thesis using m(1) by (intro exI conjI) auto
qed

lemma github_failure_shown_witness:
  "\<exists>s. account_mount (parse_params (''github_error='' @ ''already_linked'')) = (s, []) \<and>
     ''This GitHub account is already linked to another user.'' \<in>
       set (texts (account_view (Some sample_user) s))"
proof -
  have "''already_linked'' \<in> set github_failures" by (simp add: github_failures_def)
  from github_failure_shown [OF this, of sample_user] show ?thesis
    by (auto simp: github_error_messages_def)
qed

text \<open>
  An error code of the address that names an inherited property breaks the page, for all twelve but
  \<open>toString\<close> and \<open>isPrototypeOf\<close>.
\<close>

definition breaking_codes :: "string list" where
  "breaking_codes =
     [''constructor'', ''__defineGetter__'', ''__defineSetter__'', ''hasOwnProperty'', ''__lookupGetter__'',
      ''__lookupSetter__'', ''propertyIsEnumerable'', ''valueOf'', ''toLocaleString'', ''__proto__'']"

lemma inherited_codes:
  "list_all (\<lambda>e. refused_message (github_error_message e) = list_ex (\<lambda>c. c = e) breaking_codes)
     (''__proto__'' # prototype_functions)"
  by code_simp

lemma breaking_inherited: "list_all (\<lambda>e. list_ex (\<lambda>c. c = e) (''__proto__'' # prototype_functions)) breaking_codes"
  by code_simp

lemma account_address_crash:
  assumes "params_get params ''github_error'' = Some e"
  shows "crashes (account_view (Some u) (fst (account_mount params))) = (e \<in> set breaking_codes)"
proof -
  have "refused_message (github_error_message e) = (e \<in> set breaking_codes)"
  proof (cases "e \<in> set (''__proto__'' # prototype_functions)")
    case True
    then show ?thesis
      using inherited_codes by (simp only: list_all_iff list_ex_iff) blast
  next
    case False
    then have "e \<notin> set breaking_codes"
      using breaking_inherited by (simp only: list_all_iff list_ex_iff) blast
    moreover have "\<not> refused_message (github_error_message e)"
      using False by (simp add: github_error_message_def dict_get_def split: option.split)
    ultimately show ?thesis by simp
  qed
  moreover have "[] \<notin> set breaking_codes" by (simp add: breaking_codes_def)
  ultimately show ?thesis
    using assms by (auto simp: account_mount_def crashes_account truthy_def account_initial_def Let_def)
qed

section \<open>The requests of the page\<close>

text \<open>The user may change at any time; the dialog also closes by the Escape key or its backdrop.\<close>

definition account_offered :: "account_page \<Rightarrow> account_event \<Rightarrow> bool" where
  "account_offered s e =
     ((\<exists>user. offers (account_view user s) e) \<or> ac_confirm s \<and> e = CloseUnlink)"

fun account_answers :: "account_cmd \<Rightarrow> account_reply \<Rightarrow> bool" where
  "account_answers GetAuthorizeUrl (AuthorizeReply r) = True"
| "account_answers UnlinkGitHub (UnlinkReply r) = True"
| "account_answers RefreshLinked Refreshed = True"
| "account_answers RefreshUnlinked Refreshed = True"
| "account_answers c r = False"

abbreviation account_steps where
  "account_steps \<equiv> wstep account_offered account_handle account_resume account_answers"

definition unlinks :: "account_cmd \<Rightarrow> bool" where
  "unlinks c = (c = UnlinkGitHub \<or> c = RefreshUnlinked)"

definition asks_address :: "account_cmd \<Rightarrow> bool" where
  "asks_address c = (c = GetAuthorizeUrl)"

definition account_inv :: "account_page \<Rightarrow> account_cmd list \<Rightarrow> bool" where
  "account_inv s fl =
     (length (filter unlinks fl) = of_bool (ac_unlinking s) \<and>
      length (filter asks_address fl) + of_bool (ac_left_for s \<noteq> None) = of_bool (ac_linking s))"

lemma account_offered_cases:
  "account_offered s LinkGitHub \<Longrightarrow> \<not> ac_linking s"
  "account_offered s ConfirmUnlink \<Longrightarrow> \<not> ac_unlinking s"
  by (auto simp: account_offered_def account_view_def github_account_def unlink_dialog_def message_box_def
      profile_row_def Let_def split: option.splits message.splits if_splits)

interpretation account_world: world_invariant account_offered account_handle account_resume account_answers
  "account_mount params" account_inv for params
proof unfold_locales
  show "account_inv (fst (account_mount params)) (snd (account_mount params))"
    by (auto simp: account_inv_def account_mount_def account_initial_def unlinks_def asks_address_def Let_def
        split: option.split)
  show "account_inv s' (fl @ cs)"
    if "account_inv s fl" and "account_offered s e" and "account_handle e s = (s', cs)" for s fl e s' cs
    using that account_offered_cases [of s]
    by (cases e) (auto simp: account_inv_def handle_link_github_def handle_unlink_github_def unlinks_def
        asks_address_def split: if_splits)
  show "account_inv s' (xs @ ys @ cs)"
    if "account_inv s (xs @ c # ys)" and "account_answers c r" and "account_resume c r s = (s', cs)"
    for s xs c ys r s' cs
    using that
    by (cases "(c, r, s)" rule: account_resume.cases)
       (auto simp: account_inv_def unlinks_def asks_address_def of_bool_def split: if_splits)
qed

text \<open>
  At most one unlinking and one request for GitHub's address are in flight; the button to link is
  busy exactly while the address is on its way or the browser is leaving, the one to unlink exactly
  while the account is being unlinked or the user is being read again.
\<close>

lemma account_requests:
  assumes "account_steps\<^sup>*\<^sup>* (account_mount params) (s, fl)"
  shows "length (filter unlinks fl) \<le> 1 \<and> length (filter asks_address fl) \<le> 1 \<and>
    ac_unlinking s = (UnlinkGitHub \<in> set fl \<or> RefreshUnlinked \<in> set fl) \<and>
    ac_linking s = (GetAuthorizeUrl \<in> set fl \<or> ac_left_for s \<noteq> None)"
proof -
  have inv: "length (filter unlinks fl) = of_bool (ac_unlinking s)"
    "length (filter asks_address fl) + of_bool (ac_left_for s \<noteq> None) = of_bool (ac_linking s)"
    using account_world.reach_state_inv [OF assms] by (simp_all add: account_inv_def)
  have "filter P fl \<noteq> [] \<longleftrightarrow> (\<exists>c \<in> set fl. P c)" for P
    by (auto simp: filter_empty_conv)
  from this [of unlinks] this [of asks_address] inv show ?thesis
    by (cases "ac_unlinking s"; cases "ac_linking s"; cases "ac_left_for s")
       (auto simp: unlinks_def asks_address_def of_bool_def split: if_splits)
qed

lemma account_offers_link: "\<not> ac_linking s \<Longrightarrow> account_offered s LinkGitHub"
  unfolding account_offered_def
  by (intro disjI1 exI [of _ "Some (sample_user\<lparr>ui_github_username := None\<rparr>)"])
     (simp add: account_view_def github_account_def truthy_opt_def)

lemma account_offers_unlink: "\<not> ac_unlinking s \<Longrightarrow> account_offered s AskUnlink"
  unfolding account_offered_def
  by (intro disjI1 exI [of _ "Some (sample_user\<lparr>ui_github_username := Some ''octo''\<rparr>)"])
     (simp add: account_view_def github_account_def truthy_opt_def truthy_def)

lemma account_offers_confirm: "ac_confirm s \<Longrightarrow> \<not> ac_unlinking s \<Longrightarrow> account_offered s ConfirmUnlink"
  unfolding account_offered_def
  by (intro disjI1 exI [of _ "Some sample_user"]) (simp add: account_view_def unlink_dialog_def)

definition linking_script :: "(account_event + nat \<times> account_reply) list" where
  "linking_script = [Inl LinkGitHub, Inl AskUnlink, Inl ConfirmUnlink]"

lemma account_requests_witness:
  "\<exists>s. account_steps\<^sup>*\<^sup>* (account_mount []) (s, [GetAuthorizeUrl, UnlinkGitHub]) \<and>
     ac_linking s \<and> ac_unlinking s"
proof -
  have start: "account_mount [] = (account_initial, [])"
    by (simp add: account_mount_def params_get_def)
  have "playable account_offered account_handle account_resume account_answers linking_script
      (account_initial, [])"
    by (simp add: linking_script_def account_initial_def handle_link_github_def account_offers_link
        account_offers_unlink account_offers_confirm)
  from run_script_reaches [OF this]
  obtain s where "account_steps\<^sup>*\<^sup>* (account_mount []) (s, [GetAuthorizeUrl, UnlinkGitHub])"
    by (auto simp: start linking_script_def handle_link_github_def handle_unlink_github_def)
  with account_requests [OF this] show ?thesis by auto
qed

end
