(* ===== verification/StudentsPage.thy ===== *)
theory StudentsPage
  imports ProjectData "HOL-Library.List_Lexorder"
begin

text \<open>
  The listings of the students for staff and faculty (\<open>web/src/app/{staff,faculty}/students/page.tsx\<close>,
  the same code but for a text and the links), and what the API (\<open>src/api/app/routers/admin.py\<close>) answers
  to their requests: which order it knows, and which page of the ordered list it gives.
\<close>

section \<open>State\<close>

record students_page =
  sl_students :: "student_summary list"
  sl_total :: int
  sl_loading :: bool
  sl_error :: "string option"
  sl_search :: string
  sl_sort :: string
  sl_order :: string
  sl_page :: int

definition students_initial :: students_page where
  "students_initial =
     \<lparr>sl_students = [], sl_total = 0, sl_loading = True, sl_error = None, sl_search = [],
      sl_sort = ''created_at'', sl_order = ''desc'', sl_page = 0\<rparr>"

definition student_sorts :: "(string \<times> string) list" where
  "student_sorts =
     [(''created_at'', ''Joined''), (''display_name'', ''Name''), (''deploys'', ''Deploys''),
      (''builds'', ''Builds''), (''projects'', ''Projects'')]"

section \<open>Operations\<close>

definition students_query :: "students_page \<Rightarrow> admin_params" where
  "students_query s =
     no_params\<lparr>q_skip := Some (sl_page s * limit), q_limit := Some limit,
       q_search := or_undefined (sl_search s), q_sort := or_undefined (sl_sort s),
       q_order := or_undefined (sl_order s)\<rparr>"

definition fetch_students :: "students_page \<Rightarrow> students_page" where
  "fetch_students s = s\<lparr>sl_loading := True, sl_error := None\<rparr>"

fun students_resume ::
  "admin_params \<Rightarrow> student_list_response outcome \<Rightarrow> students_page \<Rightarrow> students_page \<times> admin_params list" where
  "students_resume c (Inr res) s =
     (s\<lparr>sl_students := ls_items res, sl_total := ls_total res, sl_loading := False\<rparr>, [])"
| "students_resume c (Inl e) s =
     (s\<lparr>sl_error := Some (message_or ''Failed to load students'' e), sl_loading := False\<rparr>, [])"

definition students_deps :: "students_page \<Rightarrow> int \<times> string \<times> string \<times> string" where
  "students_deps s = (sl_page s, sl_search s, sl_sort s, sl_order s)"

datatype students_event =
    SearchStudents string | SortStudents string | ToggleOrder | StudentsPrev | StudentsNext

definition toggled :: "string \<Rightarrow> string" where
  "toggled order = (if order = ''desc'' then ''asc'' else ''desc'')"

fun students_update :: "students_event \<Rightarrow> students_page \<Rightarrow> students_page" where
  "students_update (SearchStudents v) s = s\<lparr>sl_search := v, sl_page := 0\<rparr>"
| "students_update (SortStudents v) s = s\<lparr>sl_sort := v, sl_page := 0\<rparr>"
| "students_update ToggleOrder s = s\<lparr>sl_order := toggled (sl_order s)\<rparr>"
| "students_update StudentsPrev s = s\<lparr>sl_page := prev_page (sl_page s)\<rparr>"
| "students_update StudentsNext s = s\<lparr>sl_page := next_page (pages_of (sl_total s)) (sl_page s)\<rparr>"

definition students_handle :: "students_event \<Rightarrow> students_page \<Rightarrow> students_page \<times> admin_params list" where
  "students_handle e s = with_effect students_deps fetch_students students_query (students_update e) s"

section \<open>Views\<close>

text \<open>
  \<open>getTimeAgo\<close>: the age of a time, and for a week or more (or an invalid date) the text of its day.
\<close>

definition get_time_ago :: "(string \<Rightarrow> int option) \<Rightarrow> int \<Rightarrow> (string \<Rightarrow> string) \<Rightarrow> string \<Rightarrow> string" where
  "get_time_ago parse now day_text stamp =
     (case parse stamp of
        None \<Rightarrow> day_text stamp
      | Some t \<Rightarrow>
          let minutes = (now - t) div 60000; hours = minutes div 60; days = hours div 24
          in if minutes < 1 then ''just now''
             else if minutes < 60 then show_int minutes @ ''m ago''
             else if hours < 24 then show_int hours @ ''h ago''
             else if days < 7 then show_int days @ ''d ago'' else day_text stamp)"

text \<open>
  What the page reads of its surroundings beyond the ambient: the text of a number in the locale
  (\<open>toLocaleString\<close>) and of a day in English.
\<close>

record texts_of =
  tx_number :: "int \<Rightarrow> string"
  tx_day :: "string \<Rightarrow> string"

definition counted_card :: "texts_of \<Rightarrow> string \<Rightarrow> int \<Rightarrow> string option \<Rightarrow> 'e view" where
  "counted_card tx label value sub =
     El ''div''
       [El ''p'' [Txt label, given sub (\<lambda>t. El ''span'' [Txt (''('' @ t @ '')'')])],
        para (tx_number tx value)]"

definition student_cards :: "texts_of \<Rightarrow> students_page \<Rightarrow> 'e view" where
  "student_cards tx s =
     El ''div''
       [counted_card tx ''Total Students'' (sl_total s) None,
        counted_card tx ''Projects'' (sum_list (map ss_project_count (sl_students s))) (Some ''this page''),
        counted_card tx ''Deploys'' (sum_list (map ss_total_deploys (sl_students s))) (Some ''this page''),
        counted_card tx ''Active'' (sum_list (map ss_active_deploys (sl_students s))) (Some ''running now'')]"

definition student_filters :: "students_page \<Rightarrow> students_event view" where
  "student_filters s =
     El ''div''
       [labelled ''Search'' (Inp ''text'' (sl_search s) ''Name or username...'' SearchStudents),
        labelled ''Sort by'' (Sel (sl_sort s) student_sorts SortStudents),
        Btn False (Some ToggleOrder)
          [Txt (if sl_order s = ''desc'' then ''Most first'' else ''Least first'')]]"

definition student_row :: "ambient \<Rightarrow> texts_of \<Rightarrow> string \<Rightarrow> student_summary \<Rightarrow> 'e view" where
  "student_row am tx base x =
     El ''tr''
       [td [Lnk (base @ ''/students/'' @ ss_id x)
              [El ''span'' [Txt (ss_display_name x)], El ''span'' [Txt (''@'' @ ss_username x)]],
            given (ss_github_username x) (\<lambda>g. para (''gh: @'' @ g))],
        td [Txt (ss_email x)], td [Txt (show_int (ss_project_count x))],
        td [Txt (show_int (ss_total_deploys x))], td [Txt (show_int (ss_total_builds x))],
        td [El (if 0 < ss_active_deploys x then ''span.active'' else ''span'') [Txt (show_int (ss_active_deploys x))]],
        td [Txt (if truthy_opt (ss_last_activity x)
             then get_time_ago (am_parse am) (am_now am) (tx_day tx) (the (ss_last_activity x)) else ''Never'')],
        td [Txt (format_date (am_locale am) (Some (ss_created_at x)))]]"

definition students_view ::
  "ambient \<Rightarrow> texts_of \<Rightarrow> string \<Rightarrow> string \<Rightarrow> students_page \<Rightarrow> students_event view" where
  "students_view am tx base intro s =
     El ''div''
       [El ''h1'' [Txt ''Students''],
        para (intro @ '' '' @ mdash @ '' '' @ show_int (sl_total s) @ '' students''),
        student_cards tx s, student_filters s, error_box (sl_error s),
        (if sl_loading s then para ''Loading students...''
         else if sl_students s = [] then para ''No students found.''
         else Frag
           [data_table [''Student'', ''Email'', ''Projects'', ''Deploys'', ''Builds'', ''Active'',
              ''Last Activity'', ''Joined''] (map (student_row am tx base) (sl_students s)),
            when_view (1 < pages_of (sl_total s))
              (pager ('' ('' @ show_int (sl_total s) @ '' students)'') StudentsPrev StudentsNext
                 (sl_page s) (pages_of (sl_total s)))])]"

definition staff_students_view :: "ambient \<Rightarrow> texts_of \<Rightarrow> students_page \<Rightarrow> students_event view" where
  "staff_students_view am tx s =
     students_view am tx ''/staff'' ''Student activity and deployment statistics'' s"

definition faculty_students_view :: "ambient \<Rightarrow> texts_of \<Rightarrow> students_page \<Rightarrow> students_event view" where
  "faculty_students_view am tx s =
     students_view am tx ''/faculty'' ''Manage student activity and deployment statistics'' s"

section \<open>What the API answers\<close>

text \<open>
  The API filters and orders all users and gives one page of them. \<open>sorted\<close> with \<open>reverse\<close> keeps the
  order of equal elements. \<open>lower\<close> is the lower case of a name, \<open>matches\<close> the search in the database.
\<close>

definition py_sorted :: "('a \<Rightarrow> 'k :: linorder) \<Rightarrow> bool \<Rightarrow> 'a list \<Rightarrow> 'a list" where
  "py_sorted key reverse xs = (if reverse then rev (sort_key key (rev xs)) else sort_key key xs)"

definition api_student_order ::
  "(string \<Rightarrow> string) \<Rightarrow> string \<Rightarrow> string \<Rightarrow> student_summary list \<Rightarrow> student_summary list" where
  "api_student_order lower opt order items =
     (let reverse = (order = ''desc'')
      in if opt = ''name'' then py_sorted (\<lambda>x. lower (ss_display_name x)) reverse items
         else if opt = ''projects'' then py_sorted ss_project_count reverse items
         else if opt = ''deploys'' then py_sorted ss_total_deploys reverse items
         else py_sorted (\<lambda>x. or_text (ss_last_activity x) []) reverse items)"

definition api_students ::
  "(string \<Rightarrow> string) \<Rightarrow> (string \<Rightarrow> student_summary \<Rightarrow> bool) \<Rightarrow> student_summary list \<Rightarrow> admin_params \<Rightarrow>
   student_list_response" where
  "api_students lower matches users c =
     (let found = (case q_search c of None \<Rightarrow> users | Some q \<Rightarrow> if truthy q then filter (matches q) users else users);
          items = api_student_order lower (or_text (q_sort c) ''last_activity'') (or_text (q_order c) ''desc'') found;
          skip = (case q_skip c of None \<Rightarrow> 0 | Some n \<Rightarrow> n); lim = (case q_limit c of None \<Rightarrow> 50 | Some n \<Rightarrow> n)
      in \<lparr>ls_items = take (nat lim) (drop (nat skip) items), ls_total = int (length found)\<rparr>)"

section \<open>The machine of the pages\<close>

definition students_answers ::
  "(admin_params \<Rightarrow> student_list_response \<Rightarrow> bool) \<Rightarrow> admin_params \<Rightarrow> student_list_response outcome \<Rightarrow> bool" where
  "students_answers serves c r = (case r of Inr res \<Rightarrow> serves c res | Inl e \<Rightarrow> True)"

definition students_offered :: "ambient \<Rightarrow> texts_of \<Rightarrow> students_page \<Rightarrow> students_event \<Rightarrow> bool" where
  "students_offered am tx s e =
     (offers (staff_students_view am tx s) e \<or> offers (faculty_students_view am tx s) e)"

definition students_shows :: "students_page \<Rightarrow> student_list_response outcome \<Rightarrow> bool" where
  "students_shows s r =
     (case r of
        Inr res \<Rightarrow> sl_students s = ls_items res \<and> sl_total s = ls_total res
      | Inl e \<Rightarrow> sl_error s = Some (message_or ''Failed to load students'' e))"

lemma offers_counted_card [simp]: "\<not> offers (counted_card tx l v sub) e"
  by (simp add: counted_card_def)

lemma offers_student_row [simp]: "\<not> offers (student_row am tx base x) e"
  by (simp add: student_row_def)

lemma students_offered_iff:
  "students_offered am tx s e \<longleftrightarrow>
     (\<exists>v. e = SearchStudents v) \<or> (\<exists>o1 \<in> fst ` set student_sorts. e = SortStudents o1) \<or> e = ToggleOrder \<or>
     (\<not> sl_loading s \<and> sl_students s \<noteq> [] \<and> 1 < pages_of (sl_total s) \<and>
       (sl_page s \<noteq> 0 \<and> e = StudentsPrev \<or> sl_page s < pages_of (sl_total s) - 1 \<and> e = StudentsNext))"
  by (auto simp: students_offered_def staff_students_view_def faculty_students_view_def students_view_def
      student_cards_def student_filters_def image_iff split: if_splits; force)

lemma students_update_keeps [simp]:
  "sl_students (students_update e s) = sl_students s" "sl_total (students_update e s) = sl_total s"
  "sl_error (students_update e s) = sl_error s" "sl_loading (students_update e s) = sl_loading s"
  by (cases e; simp)+

lemma students_query_deps: "students_deps s = students_deps s' \<Longrightarrow> students_query s = students_query s'"
  by (simp add: students_deps_def students_query_def)

interpretation students_fetch: fetch_page "students_offered am tx" students_handle students_resume
  "students_answers serves" students_query students_shows students_initial for am tx serves
proof unfold_locales
  show "cs = [students_query s'] \<or>
      (cs = [] \<and> students_query s' = students_query s \<and> (\<forall>r. students_shows s r \<longrightarrow> students_shows s' r))"
    if "students_handle e s = (s', cs)" for e s s' cs
    using that unfolding students_handle_def
    by (rule with_effect_cases) (auto simp: students_shows_def dest: students_query_deps split: sum.splits)
  show "cs = [] \<and> students_query s' = students_query s \<and> students_shows s' r"
    if "students_resume c r s = (s', cs)" for c r s s' cs
    using that by (cases r) (auto simp: students_query_def students_shows_def)
qed

text \<open>The controls are always in a well-formed position.\<close>

definition students_inv :: "students_page \<Rightarrow> admin_params list \<Rightarrow> bool" where
  "students_inv s fl =
     (0 \<le> sl_page s \<and> sl_sort s \<in> fst ` set student_sorts \<and> sl_order s \<in> {''asc'', ''desc''} \<and>
      (sl_loading s \<longrightarrow> fl \<noteq> []))"

lemma students_handle_inv:
  assumes inv: "students_inv s fl" and off: "students_offered am tx s e" and h: "students_handle e s = (s', cs)"
  shows "students_inv s' (fl @ cs)"
proof -
  have upd: "students_inv (students_update e s) fl"
    using inv off
    by (cases e) (auto simp: students_inv_def students_offered_iff toggled_def next_page_def)
  from h show ?thesis
    unfolding students_handle_def
    by (rule with_effect_cases) (use upd in \<open>auto simp: students_inv_def fetch_students_def\<close>)
qed

interpretation students_world: world_invariant "students_offered am tx" students_handle students_resume
  "students_answers serves" "(students_initial, [students_query students_initial])" students_inv
  for am tx serves
proof unfold_locales
  show "students_inv (fst (students_initial, [students_query students_initial]))
      (snd (students_initial, [students_query students_initial]))"
    by (simp add: students_inv_def students_initial_def student_sorts_def)
  show "students_inv s' (xs @ ys @ cs)"
    if "students_inv s (xs @ c # ys)" and "students_resume c r s = (s', cs)" for s xs c ys r s' cs
    using that by (cases r) (auto simp: students_inv_def intro: rev_image_eqI)
qed (erule (2) students_handle_inv)

abbreviation students_fifo_steps where
  "students_fifo_steps am tx serves \<equiv>
     fstep (students_offered am tx) students_handle students_resume (students_answers serves)"

lemma fsteps_imp_wsteps:
  "(fstep offered handle resume answers)\<^sup>*\<^sup>* w w' \<Longrightarrow> (wstep offered handle resume answers)\<^sup>*\<^sup>* w w'"
  by (erule rtranclp_mono [THEN predicate2D, rotated]) (auto intro: fstep_imp_wstep)

section \<open>The order on the page\<close>

text \<open>The order that the API gives for an option of the page.\<close>

definition order_given :: "string \<Rightarrow> string" where
  "order_given opt = (if opt \<in> {''deploys'', ''projects''} then opt else ''last_activity'')"

definition found_students ::
  "(string \<Rightarrow> student_summary \<Rightarrow> bool) \<Rightarrow> student_summary list \<Rightarrow> string \<Rightarrow> student_summary list" where
  "found_students matches users q = (if truthy q then filter (matches q) users else users)"

lemma api_students_query:
  assumes "students_inv s fl"
  shows "api_students lower matches users (students_query s) =
    \<lparr>ls_items = take 25 (drop (nat (sl_page s * limit))
       (api_student_order lower (order_given (sl_sort s)) (sl_order s) (found_students matches users (sl_search s)))),
     ls_total = int (length (found_students matches users (sl_search s)))\<rparr>"
proof -
  have "api_student_order lower (order_given (sl_sort s)) ord xs = api_student_order lower (sl_sort s) ord xs"
    for ord xs
    using assms by (auto simp: students_inv_def student_sorts_def order_given_def api_student_order_def)
  moreover have "sl_sort s \<noteq> []" "sl_order s \<noteq> []"
    using assms by (auto simp: students_inv_def student_sorts_def)
  ultimately show ?thesis
    by (simp add: api_students_def students_query_def no_params_def or_undefined_def or_text_def
        found_students_def truthy_def limit_def Let_def)
qed

text \<open>
  With answers in the order of the requests and none outstanding, and no failure, the page lists the
  page on screen of the students that match the search. They are ordered by the chosen option only for
  two of the five options, deploys and projects; for the others, among them the one a page begins with
  (\<open>Joined\<close>) and the name, they are ordered by their last activity.
\<close>

lemma students_settled_listing:
  assumes "(students_fifo_steps am tx (\<lambda>c res. res = api_students lower matches users c))\<^sup>*\<^sup>*
      (students_initial, [students_query students_initial]) (s, [])"
    and "sl_error s = None"
  shows "sl_total s = int (length (found_students matches users (sl_search s))) \<and>
    sl_students s = take 25 (drop (nat (sl_page s * limit))
      (api_student_order lower (if sl_sort s \<in> {''deploys'', ''projects''} then sl_sort s else ''last_activity'')
         (sl_order s) (found_students matches users (sl_search s))))"
proof -
  have inv: "students_inv s []"
    by (rule students_world.reach_state_inv [OF fsteps_imp_wsteps [OF assms(1)]])
  from assms(1) show ?thesis
  proof (rule students_fetch.quiet_display)
    fix r
    assume "students_answers (\<lambda>c res. res = api_students lower matches users c) (students_query s) r"
      and "students_shows s r"
    with assms(2) inv show ?thesis
      by (cases r) (simp_all add: students_answers_def students_shows_def api_students_query order_given_def)
  qed
qed

definition sample_student :: "string \<Rightarrow> string \<Rightarrow> string option \<Rightarrow> student_summary" where
  "sample_student i joined active =
     \<lparr>ss_id = i, ss_username = i, ss_display_name = i, ss_email = i @ ''@cpp.edu'', ss_role = ''JAS_Developer'',
      ss_github_username = None, ss_created_at = joined, ss_project_count = 1, ss_total_builds = 0,
      ss_total_deploys = 0, ss_active_deploys = 0, ss_last_activity = active\<rparr>"

definition sample_texts :: texts_of where
  "sample_texts = \<lparr>tx_number = show_int, tx_day = (\<lambda>d. d)\<rparr>"

text \<open>Of two students the one that joined first and is still active comes first.\<close>

definition two_students :: "student_summary list" where
  "two_students =
     [sample_student ''new'' ''2026-03-01'' None, sample_student ''old'' ''2025-09-01'' (Some ''2026-04-01'')]"

lemma students_settled_listing_witness:
  "\<exists>s. (students_fifo_steps sample_ambient sample_texts (\<lambda>c res. res = api_students (\<lambda>n. n) (\<lambda>q x. True) two_students c))\<^sup>*\<^sup>*
       (students_initial, [students_query students_initial]) (s, []) \<and>
     sl_sort s = ''created_at'' \<and> sl_order s = ''desc'' \<and> map ss_id (sl_students s) = [''old'', ''new'']"
proof -
  let ?api = "api_students (\<lambda>n. n) (\<lambda>q x. True) two_students"
  obtain s where run: "students_resume (students_query students_initial)
      (Inr (?api (students_query students_initial))) students_initial = (s, [])"
    and s: "sl_error s = None" "sl_sort s = ''created_at''" "sl_order s = ''desc''" "sl_search s = []"
      "sl_page s = 0"
    by (simp add: students_initial_def)
  from run have reach: "(students_fifo_steps sample_ambient sample_texts (\<lambda>c res. res = ?api c))\<^sup>*\<^sup>*
      (students_initial, [students_query students_initial]) (s, [])"
    by (intro r_into_rtranclp fstep.freply [where cs = "[]" and ys = "[]" and
          r = "Inr (?api (students_query students_initial))", simplified])
       (simp_all add: students_answers_def)
  have list: "sl_students s = take 25 (api_student_order (\<lambda>n. n) ''last_activity'' ''desc'' two_students)"
    using students_settled_listing [OF reach s(1)] by (simp add: s found_students_def truthy_def)
  have ids: "map ss_id (take 25 (api_student_order (\<lambda>n. n) ''last_activity'' ''desc'' two_students)) =
      [''old'', ''new'']"
    by (simp add: api_student_order_def py_sorted_def two_students_def sample_student_def or_text_def)
  have "map ss_id (sl_students s) = [''old'', ''new'']"
    unfolding list by (rule ids)
  with reach s(2,3) show ?thesis by (intro exI [of _ s] conjI)
qed

end
