(* ===== verification/JsNumber.thy ===== *)
theory JsNumber
  imports Prelude
begin

text \<open>
  The numbers of the language beyond whole ones, as far as the pages compute with them: quotients of
  whole numbers and their multiples, rounded to 53 binary digits as IEEE 754 does, and what
  \<open>Math.round\<close> and \<open>toFixed\<close> make of them. A number that is not negative is a numerator and the exponent
  of its denominator, a power of two. (Subnormal numbers and the largest exponents are out of reach of
  quotients of whole numbers below \<open>2 ^ 53\<close>.)
\<close>

type_synonym double = "nat \<times> nat"

text \<open>The whole number nearest to a quotient, the even one of two.\<close>

definition round_half_even :: "nat \<Rightarrow> nat \<Rightarrow> nat" where
  "round_half_even n d =
     (let q = n div d; r = n mod d in if 2 * r < d \<or> 2 * r = d \<and> even q then q else q + 1)"

fun bit_length :: "nat \<Rightarrow> nat" where
  "bit_length n = (if n = 0 then 0 else Suc (bit_length (n div 2)))"

declare bit_length.simps [simp del]

text \<open>The exponent with which a quotient has 53 binary digits before the point.\<close>

definition quotient_scale :: "nat \<Rightarrow> nat \<Rightarrow> nat" where
  "quotient_scale a b =
     (let k = 53 + bit_length b - bit_length a in if 2 ^ 53 * b \<le> a * 2 ^ k then k - 1 else k)"

definition double_quotient :: "nat \<Rightarrow> nat \<Rightarrow> double" where
  "double_quotient a b =
     (if a = 0 then (0, 0) else (round_half_even (a * 2 ^ quotient_scale a b) b, quotient_scale a b))"

definition double_times :: "nat \<Rightarrow> double \<Rightarrow> double" where
  "double_times n x = double_quotient (n * fst x) (2 ^ snd x)"

definition math_round :: "double \<Rightarrow> nat" where
  "math_round x = (2 * fst x + 2 ^ snd x) div (2 * 2 ^ snd x)"

text \<open>\<open>x.toFixed(f)\<close>, whose nearest decimal is the larger one of two.\<close>

definition fixed_digits :: "nat \<Rightarrow> double \<Rightarrow> nat" where
  "fixed_digits f x = math_round (10 ^ f * fst x, snd x)"

definition pad_zeros :: "nat \<Rightarrow> string \<Rightarrow> string" where
  "pad_zeros n s = replicate (n - length s) (CHR ''0'') @ s"

definition to_fixed :: "nat \<Rightarrow> double \<Rightarrow> string" where
  "to_fixed f x =
     (let n = fixed_digits f x
      in if f = 0 then show_nat n
         else show_nat (n div 10 ^ f) @ ''.'' @ pad_zeros f (show_nat (n mod 10 ^ f)))"

text \<open>\<open>(a / b) * 100\<close>\<close>

definition percent :: "nat \<Rightarrow> nat \<Rightarrow> double" where
  "percent a b = double_times 100 (double_quotient a b)"

section \<open>Rounding keeps whole bounds\<close>

lemma round_half_even_le: "0 < d \<Longrightarrow> n \<le> c * d \<Longrightarrow> round_half_even n d \<le> c"
proof -
  assume d: "0 < d" and n: "n \<le> c * d"
  have q: "n div d \<le> c"
    using div_le_mono [OF n, of d] d by simp
  show ?thesis
  proof (cases "n div d = c")
    case True
    then have "c * d + n mod d = n" by (metis div_mult_mod_eq)
    then have "n mod d = 0" using n by simp
    with d True show ?thesis by (simp add: round_half_even_def)
  next
    case False
    with q show ?thesis by (simp add: round_half_even_def Let_def)
  qed
qed

lemma round_half_even_ge: "0 < d \<Longrightarrow> c * d \<le> n \<Longrightarrow> c \<le> round_half_even n d"
  using div_le_mono [of "c * d" n d] by (auto simp: round_half_even_def Let_def)

text \<open>A double is at most, or at least, a whole number.\<close>

definition at_most :: "double \<Rightarrow> nat \<Rightarrow> bool" where
  "at_most x c = (fst x \<le> c * 2 ^ snd x)"

definition at_least :: "double \<Rightarrow> nat \<Rightarrow> bool" where
  "at_least x c = (c * 2 ^ snd x \<le> fst x)"

lemma double_quotient_le: "0 < b \<Longrightarrow> a \<le> c * b \<Longrightarrow> at_most (double_quotient a b) c"
proof -
  assume "0 < b" and "a \<le> c * b"
  then have "a * 2 ^ k \<le> (c * 2 ^ k) * b" for k
    using mult_le_mono1 [of a "c * b" "2 ^ k"] by (simp add: ac_simps)
  with \<open>0 < b\<close> show ?thesis
    by (auto simp: double_quotient_def at_most_def intro: round_half_even_le)
qed

lemma double_quotient_ge: "0 < b \<Longrightarrow> c * b \<le> a \<Longrightarrow> at_least (double_quotient a b) c"
proof -
  assume b: "0 < b" and a: "c * b \<le> a"
  then have "(c * 2 ^ k) * b \<le> a * 2 ^ k" for k
    using mult_le_mono1 [of "c * b" a "2 ^ k"] by (simp add: ac_simps)
  with a b show ?thesis
    by (auto simp: double_quotient_def at_least_def intro: round_half_even_ge)
qed

lemma double_times_le: "at_most x c \<Longrightarrow> at_most (double_times n x) (n * c)"
  unfolding double_times_def by (rule double_quotient_le) (simp_all add: at_most_def)

lemma double_times_ge: "at_least x c \<Longrightarrow> at_least (double_times n x) (n * c)"
  unfolding double_times_def by (rule double_quotient_ge) (simp_all add: at_least_def)

lemma math_round_le: "at_most x c \<Longrightarrow> math_round x \<le> c"
proof -
  assume "at_most x c"
  then have "2 * fst x + 2 ^ snd x \<le> c * (2 * 2 ^ snd x) + 2 ^ snd x"
    by (simp add: at_most_def)
  from div_le_mono [OF this, of "2 * 2 ^ snd x"]
  show ?thesis by (simp add: math_round_def)
qed

lemma math_round_ge: "at_least x c \<Longrightarrow> c \<le> math_round x"
proof -
  assume "at_least x c"
  then have "c * (2 * 2 ^ snd x) \<le> 2 * fst x + 2 ^ snd x"
    by (simp add: at_least_def)
  from div_le_mono [OF this, of "2 * 2 ^ snd x"]
  show ?thesis by (simp add: math_round_def)
qed

text \<open>A share is between nothing and one hundred percent, and the whole is one hundred.\<close>

lemma percent_le: "0 < b \<Longrightarrow> a \<le> b \<Longrightarrow> at_most (percent a b) 100"
  using double_times_le [OF double_quotient_le [of b a 1], of 100] by (simp add: percent_def)

lemma percent_whole: "0 < b \<Longrightarrow> at_least (percent b b) 100"
  using double_times_ge [OF double_quotient_ge [of b 1 b], of 100] by (simp add: percent_def)

lemma fixed_digits_le: "at_most x c \<Longrightarrow> fixed_digits f x \<le> 10 ^ f * c"
  unfolding fixed_digits_def by (rule math_round_le) (simp add: at_most_def)

text \<open>
  The rounding of the quotient shows: 29 of 200 are 14.5 percent, but the product of the quotient with
  100 is less, so that it rounds to 14 and not to 15.
\<close>

lemma percent_rounding: "math_round (percent 29 200) = 14"
proof -
  have scale: "quotient_scale 29 200 = 55"
    by (simp add: quotient_scale_def bit_length.simps Let_def)
  have share: "double_quotient 29 200 = (5224175567749775, 55)"
    by (simp add: double_quotient_def scale round_half_even_def Let_def)
  have scale': "quotient_scale (100 * 5224175567749775) (2 ^ 55) = 49"
    by (simp add: quotient_scale_def bit_length.simps Let_def)
  have "percent 29 200 = (8162774324609023, 49)"
    unfolding percent_def double_times_def share fst_conv snd_conv unfolding double_quotient_def scale'
    by (simp add: round_half_even_def Let_def)
  then show ?thesis by (simp add: math_round_def)
qed

end
