(* ===== verification/StudentDetailPage.thy ===== *)
theory StudentDetailPage
  imports StudentsPage JsNumber
begin

text \<open>
  The page of one student for staff and faculty (\<open>web/src/app/{staff,faculty}/students/[id]/page.tsx\<close>): the
  fetch, and the two views, whose parts differ in the cards, the scores and a column of the table. The
  identifier of the address is the same for all renders.
\<close>

section \<open>State and fetch\<close>

record student_page =
  sp_student :: "student_detail option"
  sp_loading :: bool
  sp_error :: "string option"

definition student_initial :: student_page where
  "student_initial = \<lparr>sp_student = None, sp_loading = True, sp_error = None\<rparr>"

definition fetch_student :: "student_page \<Rightarrow> student_page" where
  "fetch_student s = s\<lparr>sp_error := None\<rparr>"

fun student_resume :: "student_detail outcome \<Rightarrow> student_page \<Rightarrow> student_page" where
  "student_resume (Inr d) s = s\<lparr>sp_student := Some d, sp_loading := False\<rparr>"
| "student_resume (Inl e) s =
     s\<lparr>sp_error := Some (message_or ''Failed to load student details'' e), sp_loading := False\<rparr>"

section \<open>Scores\<close>

text \<open>\<open>success_rate.toFixed(0)\<close>, for a rate with at most one decimal.\<close>

definition rate_text :: "rat \<Rightarrow> string" where
  "rate_text r = show_int \<lfloor>r + 1 / 2\<rfloor> @ ''%''"

definition health_score :: "student_detail \<Rightarrow> int" where
  "health_score d =
     (if 0 < sd_total_deploys d
      then int (math_round (percent (nat (sd_total_deploys d - sd_failed_deploys d)) (nat (sd_total_deploys d))))
      else 100)"

definition score_color :: "rat \<Rightarrow> string" where
  "score_color r = (if 80 \<le> r then ''green'' else if 50 \<le> r then ''yellow'' else ''red'')"

section \<open>Views\<close>

definition student_card :: "string \<Rightarrow> string \<Rightarrow> string \<Rightarrow> 'e view" where
  "student_card label value accent =
     El ''div'' [para label, El (if accent = [] then ''p'' else ''p.'' @ accent) [Txt value]]"

definition deploy_colors :: "(string \<times> string) list" where
  "deploy_colors =
     [(''active'', ''green''), (''healthy'', ''green''), (''building'', ''yellow''), (''queued'', ''yellow''),
      (''provisioning'', ''blue''), (''failed'', ''red''), (''stopped'', ''gray'')]"

text \<open>The status of a project's newest deploy, as the API names it.\<close>

definition deploy_status_badge :: "string option \<Rightarrow> 'e view" where
  "deploy_status_badge status =
     (if truthy_opt status
      then El (''span.'' @ (case map_of deploy_colors (the status) of None \<Rightarrow> ''gray'' | Some c \<Rightarrow> c)) [Txt (the status)]
      else El ''span'' [Txt ''none''])"

text \<open>The text of an element is no JavaScript text: the escape sequence is shown as it is written.\<close>

definition written_dash :: string where
  "written_dash = CHR 0x5C # ''u2014''"

definition project_tags_cell :: "string list \<Rightarrow> 'e view" where
  "project_tags_cell tags =
     (if tags = [] then El ''span'' [Txt written_dash] else Frag (map (\<lambda>t. El ''span'' [Txt t]) tags))"

definition common_cells :: "admin_project_item \<Rightarrow> 'e view list" where
  "common_cells p =
     [td [Txt (or_text (ap_framework p) mdash)], td [deploy_status_badge (ap_latest_deploy_status p)],
      td [Txt (show_int (ap_total_deploys p))], td [Txt (show_int (ap_total_builds p))],
      td [Txt (show_int (ap_member_count p))], td [project_tags_cell (ap_tags p)]]"

definition created_cell :: "ambient \<Rightarrow> admin_project_item \<Rightarrow> 'e view" where
  "created_cell am p = td [Txt (format_date (am_locale am) (Some (ap_created_at p)))]"

definition staff_project_row :: "ambient \<Rightarrow> admin_project_item \<Rightarrow> 'e view" where
  "staff_project_row am p =
     El ''tr'' (td [para (ap_name p), para (ap_slug p)] # common_cells p @ [created_cell am p])"

definition faculty_project_row :: "ambient \<Rightarrow> admin_project_item \<Rightarrow> 'e view" where
  "faculty_project_row am p =
     El ''tr'' (td [Lnk (''/dashboard/'' @ ap_id p) [Txt (ap_name p)], para (ap_slug p)] # common_cells p @
       [td [if truthy_opt (ap_production_url p) then url_link (the (ap_production_url p))
            else El ''span'' [Txt written_dash]],
        created_cell am p])"

definition student_names :: "student_detail \<Rightarrow> 'e view" where
  "student_names d =
     Frag
       [El ''h1'' [Txt (sd_display_name d)],
        El ''p'' [Txt (''@'' @ sd_username d @ '' '' @ middot @ '' '' @ sd_email d),
          given (sd_github_username d) (\<lambda>g. El ''span'' [Txt (''GitHub: '' @ g)])]]"

definition info_item :: "string \<Rightarrow> string \<Rightarrow> string \<Rightarrow> 'e view" where
  "info_item label tag text = El ''span'' [Txt label, El tag [Txt text]]"

definition info_row :: "ambient \<Rightarrow> student_detail \<Rightarrow> 'e view \<Rightarrow> 'e view" where
  "info_row am d score =
     El ''div''
       [info_item ''Role: '' ''span'' (sd_role d),
        info_item ''Joined: '' ''span'' (format_date (am_locale am) (Some (sd_created_at d))),
        given (sd_last_activity d) (\<lambda>t. info_item ''Last active: '' ''span'' (format_date (am_locale am) (Some t))),
        score]"

definition projects_section :: "string list \<Rightarrow> (admin_project_item \<Rightarrow> 'e view) \<Rightarrow> student_detail \<Rightarrow> 'e view" where
  "projects_section heads row d =
     Frag
       [El ''h2'' [Txt ''Projects''], para (plural (int (length (sd_projects d))) ''project''),
        (if sd_projects d = [] then para ''This student has no projects yet.''
         else data_table heads (map row (sd_projects d)))]"

definition staff_student :: "ambient \<Rightarrow> student_detail \<Rightarrow> 'e view" where
  "staff_student am d =
     El ''div''
       [student_names d,
        El ''div''
          [student_card ''Projects'' (show_int (int (length (sd_projects d)))) [],
           student_card ''Total Deploys'' (show_int (sd_total_deploys d)) [],
           student_card ''Active Deploys'' (show_int (sd_active_deploys d)) [],
           student_card ''Total Builds'' (show_int (sd_total_builds d)) [],
           student_card ''Success Rate'' (rate_text (sd_success_rate d)) []],
        info_row am d (info_item ''Failed deploys: '' ''span.red'' (show_int (sd_failed_deploys d))),
        projects_section
          [''Project'', ''Framework'', ''Status'', ''Deploys'', ''Builds'', ''Members'', ''Tags'', ''Created'']
          (staff_project_row am) d]"

definition faculty_student :: "ambient \<Rightarrow> student_detail \<Rightarrow> 'e view" where
  "faculty_student am d =
     El ''div''
       [student_names d, Lnk ''/faculty/users'' [Txt ''Manage User''],
        El ''div''
          [student_card ''Projects'' (show_int (int (length (sd_projects d)))) [],
           student_card ''Total Deploys'' (show_int (sd_total_deploys d)) [],
           student_card ''Active Deploys'' (show_int (sd_active_deploys d)) [],
           student_card ''Failed Deploys'' (show_int (sd_failed_deploys d)) ''red'',
           student_card ''Total Builds'' (show_int (sd_total_builds d)) [],
           student_card ''Success Rate'' (rate_text (sd_success_rate d)) (score_color (sd_success_rate d))],
        info_row am d
          (info_item ''Health score: '' (''span.'' @ score_color (of_int (health_score d)))
            (show_int (health_score d) @ ''%'')),
        projects_section
          [''Project'', ''Framework'', ''Status'', ''Deploys'', ''Builds'', ''Members'', ''Tags'', ''Production URL'', ''Created'']
          (faculty_project_row am) d]"

definition left_arrow :: string where
  "left_arrow = map char_of [226, 134, 144 :: nat]"

definition student_view :: "string \<Rightarrow> (student_detail \<Rightarrow> 'e view) \<Rightarrow> student_page \<Rightarrow> 'e view" where
  "student_view back body s =
     (if sp_loading s then para ''Loading student details...''
      else if has_error (sp_error s)
      then El ''div'' [para (the (sp_error s)), Lnk back [Txt ''Back to Students'']]
      else case sp_student s of
        None \<Rightarrow> Frag []
      | Some d \<Rightarrow> El ''div'' [Lnk back [Txt (left_arrow @ '' Back to Students'')], body d])"

definition staff_student_view :: "ambient \<Rightarrow> student_page \<Rightarrow> 'e view" where
  "staff_student_view am s = student_view ''/staff/students'' (staff_student am) s"

definition faculty_student_view :: "ambient \<Rightarrow> student_page \<Rightarrow> 'e view" where
  "faculty_student_view am s = student_view ''/faculty/students'' (faculty_student am) s"

section \<open>What is shown\<close>

lemma percent_none: "math_round (percent 0 n) = 0"
  by (simp add: percent_def double_times_def double_quotient_def math_round_def)

text \<open>
  The health score is a percentage: 100 without a failed deploy, 0 when all failed, and in between for any
  other number of failures.
\<close>

lemma health_score_range:
  assumes "0 \<le> sd_failed_deploys d" and "sd_failed_deploys d \<le> sd_total_deploys d"
  shows "0 \<le> health_score d \<and> health_score d \<le> 100 \<and>
    (sd_failed_deploys d = 0 \<longrightarrow> health_score d = 100) \<and>
    (0 < sd_total_deploys d \<and> sd_failed_deploys d = sd_total_deploys d \<longrightarrow> health_score d = 0)"
proof (cases "0 < sd_total_deploys d")
  case True
  let ?n = "nat (sd_total_deploys d)" and ?k = "nat (sd_total_deploys d - sd_failed_deploys d)"
  have "?k \<le> ?n" "0 < ?n" using True assms by linarith+
  then have le: "math_round (percent ?k ?n) \<le> 100" by (intro math_round_le percent_le)
  have "math_round (percent ?n ?n) = 100"
    using \<open>0 < ?n\<close> math_round_le [OF percent_le, of ?n ?n] math_round_ge [OF percent_whole, of ?n] by simp
  with True le show ?thesis by (auto simp: health_score_def percent_none)
qed (use assms in \<open>simp add: health_score_def\<close>)

text \<open>
  The rate that the API gives (\<open>src/api/app/routers/admin.py\<close>) is 0 for a student without deploys, whose health
  score is 100: the faculty's page shows one in red and the other in green.
\<close>

definition api_success_rate :: "student_detail \<Rightarrow> bool" where
  "api_success_rate d = (sd_total_deploys d = 0 \<longrightarrow> sd_success_rate d = 0)"

lemma scores_disagree:
  assumes "api_success_rate d" and "sd_total_deploys d = 0"
  shows "rate_text (sd_success_rate d) = ''0%''" and "score_color (sd_success_rate d) = ''red''"
    and "health_score d = 100" and "score_color (of_int (health_score d)) = ''green''"
proof -
  have "show_int \<lfloor>1 / 2 :: rat\<rfloor> = ''0''" by code_simp
  then show "rate_text (sd_success_rate d) = ''0%''" and "score_color (sd_success_rate d) = ''red''"
    and "health_score d = 100" and "score_color (of_int (health_score d)) = ''green''"
    using assms by (simp_all add: api_success_rate_def rate_text_def score_color_def health_score_def)
qed

text \<open>
  The API lists the projects of a student without their tags, so every row of both tables has the escape
  sequence of a dash in place of the tags.
\<close>

lemma tags_column_escape:
  assumes "p \<in> set (sd_projects d)" and "ap_tags p = []"
  shows "written_dash \<in> set (texts (staff_student am d))" and "written_dash \<in> set (texts (faculty_student am d))"
proof -
  have "written_dash \<in> set (texts (staff_project_row am p))" "written_dash \<in> set (texts (faculty_project_row am p))"
    using assms(2)
    by (simp_all add: staff_project_row_def faculty_project_row_def common_cells_def project_tags_cell_def)
  with assms(1) show "written_dash \<in> set (texts (staff_student am d))" and "written_dash \<in> set (texts (faculty_student am d))"
    by (auto simp: staff_student_def faculty_student_def projects_section_def)
qed

definition new_student :: student_detail where
  "new_student =
     \<lparr>sd_id = ''u2'', sd_username = ''new'', sd_display_name = ''New'', sd_email = ''new@dev.sdc.cpp'',
      sd_role = ''JAS_Developer'', sd_github_username = None, sd_created_at = ''2026-01-01T00:00:00Z'', sd_projects = [],
      sd_total_builds = 0, sd_total_deploys = 0, sd_active_deploys = 0, sd_failed_deploys = 0, sd_success_rate = 0,
      sd_last_activity = None\<rparr>"

lemma health_score_range_witness:
  "health_score (new_student\<lparr>sd_total_deploys := 4, sd_failed_deploys := 4\<rparr>) = 0"
  using health_score_range [of "new_student\<lparr>sd_total_deploys := 4, sd_failed_deploys := 4\<rparr>"] by simp

end
