(* ===== verification/JsObject.thy ===== *)
theory JsObject
  imports Prelude "HOL-Library.Multiset"
begin

text \<open>
  Objects of the language used as dictionaries, the length of a text in its UTF-16 units, padding, and
  \<open>Array.prototype.sort\<close> with a comparator. A dictionary is the list of its entries in the order of their
  insertion. The names that every object inherits (\<open>constructor\<close>, \<open>toString\<close> and the like) are outside of
  this model of dictionaries.
\<close>

section \<open>Dictionaries\<close>

fun dict_put :: "string \<Rightarrow> 'a \<Rightarrow> (string \<times> 'a) list \<Rightarrow> (string \<times> 'a) list" where
  "dict_put k v [] = [(k, v)]"
| "dict_put k v ((k', v') # d) = (if k' = k then (k, v) # d else (k', v') # dict_put k v d)"

definition dict_del :: "string \<Rightarrow> (string \<times> 'a) list \<Rightarrow> (string \<times> 'a) list" where
  "dict_del k d = filter (\<lambda>e. fst e \<noteq> k) d"

text \<open>
  \<open>Object.entries\<close>: first the entries whose keys are array indices, by number, and then the others in
  the order of their insertion.
\<close>

definition digits_value :: "string \<Rightarrow> nat" where
  "digits_value t = foldl (\<lambda>n c. 10 * n + (code_of c - 48)) 0 t"

definition is_index :: "string \<Rightarrow> bool" where
  "is_index t =
     (t \<noteq> [] \<and> (\<forall>c \<in> set t. is_digit c) \<and> (t = ''0'' \<or> hd t \<noteq> CHR ''0'') \<and> digits_value t < 4294967295)"

definition object_entries :: "(string \<times> 'a) list \<Rightarrow> (string \<times> 'a) list" where
  "object_entries d =
     sort_key (\<lambda>e. digits_value (fst e)) (filter (\<lambda>e. is_index (fst e)) d) @
     filter (\<lambda>e. \<not> is_index (fst e)) d"

definition object_keys :: "(string \<times> 'a) list \<Rightarrow> string list" where
  "object_keys d = map fst (object_entries d)"

text \<open>The keys of a dictionary are distinct.\<close>

definition is_dict :: "(string \<times> 'a) list \<Rightarrow> bool" where
  "is_dict d = distinct (map fst d)"

lemma map_of_dict_put [simp]: "map_of (dict_put k v d) = (map_of d)(k \<mapsto> v)"
  by (induction k v d rule: dict_put.induct) auto

lemma keys_dict_put: "fst ` set (dict_put k v d) = insert k (fst ` set d)"
  by (induction k v d rule: dict_put.induct) auto

lemma set_dict_put: "set (dict_put k v d) \<subseteq> insert (k, v) (set d)"
  by (induction k v d rule: dict_put.induct) auto

lemma is_dict_put [simp]: "is_dict d \<Longrightarrow> is_dict (dict_put k v d)"
  unfolding is_dict_def
  by (induction k v d rule: dict_put.induct) (auto simp: keys_dict_put image_iff)

lemma map_of_dict_del [simp]: "map_of (dict_del k d) = (map_of d)(k := None)"
  by (induction d) (auto simp: dict_del_def fun_upd_twist)

lemma is_dict_del [simp]: "is_dict d \<Longrightarrow> is_dict (dict_del k d)"
  by (simp add: is_dict_def dict_del_def distinct_map_filter)

lemma set_dict_del: "set (dict_del k d) \<subseteq> set d"
  by (auto simp: dict_del_def)

lemma is_dict_Nil [simp]: "is_dict []"
  by (simp add: is_dict_def)

lemma set_object_entries [simp]: "set (object_entries d) = set d"
  by (auto simp: object_entries_def)

lemma mset_object_entries: "mset (object_entries d) = mset d"
  by (simp add: object_entries_def)

lemma distinct_object_entries [simp]: "distinct (map fst (object_entries d)) = is_dict d"
  unfolding is_dict_def
  by (metis distinct_count_atmost_1 mset_map mset_object_entries set_mset_mset)

lemma map_of_object_entries:
  assumes "is_dict d"
  shows "map_of (object_entries d) = map_of d"
proof
  fix k
  show "map_of (object_entries d) k = map_of d k"
    using assms map_of_eq_Some_iff [of d k] map_of_eq_Some_iff [of "object_entries d" k]
    by (cases "map_of d k"; cases "map_of (object_entries d) k") (auto simp: is_dict_def)
qed

section \<open>Texts\<close>

text \<open>\<open>s.length\<close>: UTF-16 has two units for a character of four bytes, and one for each other.\<close>

definition utf16_length :: "string \<Rightarrow> nat" where
  "utf16_length s =
     (\<Sum>c\<leftarrow>s. if code_of c < 128 then 1 else if code_of c < 192 then 0 else if code_of c < 240 then 1 else 2)"

definition pad_start :: "nat \<Rightarrow> string \<Rightarrow> string" where
  "pad_start n s = replicate (n - utf16_length s) (CHR '' '') @ s"

lemma utf16_length_ascii: "\<forall>c \<in> set s. code_of c < 128 \<Longrightarrow> utf16_length s = length s"
  by (induction s) (auto simp: utf16_length_def)

text \<open>\<open>s.replace(p, r)\<close> for a text \<open>p\<close> that is not empty: the first occurrence.\<close>

fun replace_text :: "string \<Rightarrow> string \<Rightarrow> string \<Rightarrow> string" where
  "replace_text p r [] = []"
| "replace_text p r (c # cs) =
     (if starts_with (c # cs) p then r @ drop (length p) (c # cs) else c # replace_text p r cs)"

section \<open>Sorting\<close>

text \<open>
  \<open>xs.sort(compare)\<close> is stable; \<open>le x y\<close> is \<open>compare(x, y) <= 0\<close>. (For a comparator that is no total
  preorder the language leaves the result open; this is then one of the results.)
\<close>

fun insert_by :: "('a \<Rightarrow> 'a \<Rightarrow> bool) \<Rightarrow> 'a \<Rightarrow> 'a list \<Rightarrow> 'a list" where
  "insert_by le x [] = [x]"
| "insert_by le x (y # ys) = (if le x y then x # y # ys else y # insert_by le x ys)"

definition sort_by :: "('a \<Rightarrow> 'a \<Rightarrow> bool) \<Rightarrow> 'a list \<Rightarrow> 'a list" where
  "sort_by le xs = foldr (insert_by le) xs []"

lemma insert_by_cong: "(\<And>y. y \<in> set ys \<Longrightarrow> le x y = le' x y) \<Longrightarrow> insert_by le x ys = insert_by le' x ys"
  by (induction ys) auto

lemma mset_insert_by: "mset (insert_by le x ys) = add_mset x (mset ys)"
  by (induction ys) auto

lemma mset_sort_by [simp]: "mset (sort_by le xs) = mset xs"
  by (induction xs) (simp_all add: sort_by_def mset_insert_by)

lemma set_sort_by [simp]: "set (sort_by le xs) = set xs"
  by (metis mset_sort_by set_mset_mset)

lemma sort_by_cong:
  assumes "\<And>x y. x \<in> set xs \<Longrightarrow> y \<in> set xs \<Longrightarrow> le x y = le' x y"
  shows "sort_by le xs = sort_by le' xs"
  using assms
proof (induction xs)
  case (Cons x xs)
  then have "sort_by le xs = sort_by le' xs" by simp
  moreover have "insert_by le x (sort_by le' xs) = insert_by le' x (sort_by le' xs)"
    using Cons.prems by (intro insert_by_cong) simp
  ultimately show ?case by (simp add: sort_by_def)
qed (simp add: sort_by_def)

lemma length_sort_by [simp]: "length (sort_by le xs) = length xs"
  by (metis mset_sort_by size_mset)

lemma sorted_insert_by:
  assumes "sorted_wrt le ys" and "\<And>a b. le a b \<or> le b a" and "\<And>a b c. le a b \<Longrightarrow> le b c \<Longrightarrow> le a c"
  shows "sorted_wrt le (insert_by le x ys)"
  using assms(1)
proof (induction ys)
  case (Cons y ys)
  have "set (insert_by le x ys) = insert x (set ys)"
    by (metis mset_insert_by set_mset_add_mset_insert set_mset_mset)
  with Cons assms(2) [of x y] show ?case by (auto intro: assms(3))
qed simp

lemma sorted_sort_by:
  assumes "\<And>a b. le a b \<or> le b a" and "\<And>a b c. le a b \<Longrightarrow> le b c \<Longrightarrow> le a c"
  shows "sorted_wrt le (sort_by le xs)"
  unfolding sort_by_def
proof (induction xs)
  case (Cons x xs)
  then show ?case using sorted_insert_by [OF Cons.IH assms] by simp
qed simp

end
