(* ===== verification/ProjectListPage.thy ===== *)
theory ProjectListPage
  imports StudentsPage JsObject
begin

text \<open>
  The listings of all projects for staff and faculty (\<open>web/src/app/{staff,faculty}/projects/page.tsx\<close>),
  the pages of the tags (\<open>.../tags/page.tsx\<close>), and what the API (\<open>src/api/app/routers/admin.py\<close>) answers
  to their requests: it filters by the status of the latest deploy only after it has cut the page out of
  the list, it does not filter by tag, and it refuses requests for more than 100 projects.
\<close>

section \<open>The listing of projects: state and operations\<close>

record projects_page =
  pl_projects :: "admin_project_item list"
  pl_total :: int
  pl_loading :: bool
  pl_error :: "string option"
  pl_search :: string
  pl_status :: string
  pl_sort :: string
  pl_order :: string
  pl_page :: int

definition projects_initial :: projects_page where
  "projects_initial =
     \<lparr>pl_projects = [], pl_total = 0, pl_loading = True, pl_error = None, pl_search = [], pl_status = [],
      pl_sort = ''created_at'', pl_order = ''desc'', pl_page = 0\<rparr>"

definition project_sorts :: "(string \<times> string) list" where
  "project_sorts =
     [(''created_at'', ''Created''), (''name'', ''Name''), (''deploys'', ''Deploys''), (''builds'', ''Builds'')]"

definition status_options :: "(string \<times> string) list" where
  "status_options =
     [([], ''All Statuses''), (''active'', ''Active''), (''healthy'', ''Healthy''), (''building'', ''Building''),
      (''failed'', ''Failed''), (''stopped'', ''Stopped'')]"

definition projects_query :: "projects_page \<Rightarrow> admin_params" where
  "projects_query s =
     no_params\<lparr>q_skip := Some (pl_page s * limit), q_limit := Some limit,
       q_search := or_undefined (pl_search s), q_status := or_undefined (pl_status s),
       q_sort := or_undefined (pl_sort s), q_order := or_undefined (pl_order s)\<rparr>"

definition fetch_projects_page :: "projects_page \<Rightarrow> projects_page" where
  "fetch_projects_page s = s\<lparr>pl_loading := True, pl_error := None\<rparr>"

fun projects_resume ::
  "admin_params \<Rightarrow> admin_project_list_response outcome \<Rightarrow> projects_page \<Rightarrow> projects_page \<times> admin_params list" where
  "projects_resume c (Inr res) s =
     (s\<lparr>pl_projects := ls_items res, pl_total := ls_total res, pl_loading := False\<rparr>, [])"
| "projects_resume c (Inl e) s =
     (s\<lparr>pl_error := Some (message_or ''Failed to load projects'' e), pl_loading := False\<rparr>, [])"

definition projects_deps :: "projects_page \<Rightarrow> int \<times> string \<times> string \<times> string \<times> string" where
  "projects_deps s = (pl_page s, pl_search s, pl_status s, pl_sort s, pl_order s)"

datatype projects_event =
    SearchProjects string | FilterStatus string | SortProjects string | TogglePlOrder
  | ProjectsPrev | ProjectsNext

fun projects_update :: "projects_event \<Rightarrow> projects_page \<Rightarrow> projects_page" where
  "projects_update (SearchProjects v) s = s\<lparr>pl_search := v, pl_page := 0\<rparr>"
| "projects_update (FilterStatus v) s = s\<lparr>pl_status := v, pl_page := 0\<rparr>"
| "projects_update (SortProjects v) s = s\<lparr>pl_sort := v, pl_page := 0\<rparr>"
| "projects_update TogglePlOrder s = s\<lparr>pl_order := toggled (pl_order s)\<rparr>"
| "projects_update ProjectsPrev s = s\<lparr>pl_page := prev_page (pl_page s)\<rparr>"
| "projects_update ProjectsNext s = s\<lparr>pl_page := next_page (pages_of (pl_total s)) (pl_page s)\<rparr>"

definition projects_handle :: "projects_event \<Rightarrow> projects_page \<Rightarrow> projects_page \<times> admin_params list" where
  "projects_handle e s =
     with_effect projects_deps fetch_projects_page projects_query (projects_update e) s"

section \<open>The listing of projects: views\<close>

definition project_filters :: "projects_page \<Rightarrow> projects_event view" where
  "project_filters s =
     El ''div''
       [labelled ''Search'' (Inp ''text'' (pl_search s) ''Project name or owner...'' SearchProjects),
        labelled ''Status'' (Sel (pl_status s) status_options FilterStatus),
        labelled ''Sort by'' (Sel (pl_sort s) project_sorts SortProjects),
        Btn False (Some TogglePlOrder)
          [Txt (if pl_order s = ''desc'' then ''Newest first'' else ''Oldest first'')]]"

definition project_tags :: "string list \<Rightarrow> 'e view" where
  "project_tags tags =
     (if tags = [] then El ''span'' [Txt mdash]
      else El ''div''
        (map (\<lambda>t. El ''span'' [Txt t]) (take 3 tags) @
         [when_view (3 < length tags) (El ''span'' [Txt (CHR ''+'' # show_nat (length tags - 3))])]))"

definition latest_status :: "admin_project_item \<Rightarrow> 'e view" where
  "latest_status p =
     Frag
       [(if truthy_opt (ap_latest_deploy_status p) then El ''span'' [Txt (the (ap_latest_deploy_status p))]
         else El ''span'' [Txt ''No deploys'']),
        when_view (ap_deploy_locked p) (El ''span'' [Txt ''locked''])]"

definition owner_texts :: "admin_project_item \<Rightarrow> 'e view list" where
  "owner_texts p =
     [El ''span'' [Txt (ap_owner_display_name p)], El ''span'' [Txt (''@'' @ ap_owner_username p)]]"

text \<open>The faculty's rows link to the owner, and have the number of members.\<close>

definition project_row :: "ambient \<Rightarrow> bool \<Rightarrow> admin_project_item \<Rightarrow> 'e view" where
  "project_row am faculty p =
     El ''tr''
       ([td [Lnk (''/dashboard/'' @ ap_id p)
               [El ''span'' [Txt (ap_name p)], El ''span'' [Txt (CHR ''/'' # ap_slug p)]],
             given (ap_framework p) para],
         td (if faculty then [Lnk (''/faculty/students/'' @ ap_owner_id p) (owner_texts p)] else owner_texts p),
         td [latest_status p], td [Txt (show_int (ap_total_deploys p))], td [Txt (show_int (ap_total_builds p))]] @
        (if faculty then [td [Txt (show_int (ap_member_count p))]] else []) @
        [td [project_tags (ap_tags p)], td [Txt (format_date (am_locale am) (Some (ap_created_at p)))]])"

definition project_heads :: "bool \<Rightarrow> string list" where
  "project_heads faculty =
     [''Project'', ''Owner'', ''Status'', ''Deploys'', ''Builds''] @
     (if faculty then [''Members''] else []) @ [''Tags'', ''Created'']"

definition projects_view :: "ambient \<Rightarrow> bool \<Rightarrow> projects_page \<Rightarrow> projects_event view" where
  "projects_view am faculty s =
     El ''div''
       [El ''h1'' [Txt ''All Projects''],
        para ((if faculty then ''Manage and monitor all student projects '' else ''Browse and monitor all student projects '')
          @ mdash @ '' '' @ show_int (pl_total s) @ '' total''),
        project_filters s, error_box (pl_error s),
        (if pl_loading s then para ''Loading projects...''
         else if pl_projects s = [] then para ''No projects found.''
         else Frag
           [data_table (project_heads faculty) (map (project_row am faculty) (pl_projects s)),
            when_view (1 < pages_of (pl_total s))
              (pager ('' ('' @ show_int (pl_total s) @ '' projects)'') ProjectsPrev ProjectsNext
                 (pl_page s) (pages_of (pl_total s)))])]"

definition staff_projects_view :: "ambient \<Rightarrow> projects_page \<Rightarrow> projects_event view" where
  "staff_projects_view am s = projects_view am False s"

definition faculty_projects_view :: "ambient \<Rightarrow> projects_page \<Rightarrow> projects_event view" where
  "faculty_projects_view am s = projects_view am True s"

section \<open>What the API answers\<close>

text \<open>
  \<open>db_order column ascending\<close> is the order the database gives; the columns it knows are \<open>created_at\<close>,
  \<open>name\<close> and \<open>owner\<close>.
\<close>

definition sort_column :: "string \<Rightarrow> string" where
  "sort_column opt = (if opt \<in> {''created_at'', ''name'', ''owner''} then opt else ''created_at'')"

definition api_projects ::
  "(string \<Rightarrow> bool \<Rightarrow> admin_project_item list \<Rightarrow> admin_project_item list) \<Rightarrow>
   (string \<Rightarrow> admin_project_item \<Rightarrow> bool) \<Rightarrow> admin_project_item list \<Rightarrow> admin_params \<Rightarrow>
   admin_project_list_response option" where
  "api_projects db_order matches all c =
     (let found = (case q_search c of None \<Rightarrow> all | Some q \<Rightarrow> if truthy q then filter (matches q) all else all);
          rows = db_order (sort_column (or_text (q_sort c) ''created_at'')) (q_order c = Some ''asc'') found;
          skip = (case q_skip c of None \<Rightarrow> 0 | Some n \<Rightarrow> n); lim = (case q_limit c of None \<Rightarrow> 50 | Some n \<Rightarrow> n)
      in if skip < 0 \<or> lim < 1 \<or> 100 < lim then None
         else Some \<lparr>ls_items = filter
               (\<lambda>p. truthy_opt (q_status c) \<longrightarrow> ap_latest_deploy_status p = q_status c)
               (take (nat lim) (drop (nat skip) rows)),
             ls_total = int (length found)\<rparr>)"

section \<open>The machine of the pages\<close>

definition listing_answers ::
  "(admin_params \<Rightarrow> admin_project_list_response option) \<Rightarrow> admin_params \<Rightarrow>
   admin_project_list_response outcome \<Rightarrow> bool" where
  "listing_answers api c r = (case r of Inr res \<Rightarrow> api c = Some res | Inl e \<Rightarrow> True)"

definition projects_offered :: "ambient \<Rightarrow> bool \<Rightarrow> projects_page \<Rightarrow> projects_event \<Rightarrow> bool" where
  "projects_offered am faculty s e =
     offers (if faculty then faculty_projects_view am s else staff_projects_view am s) e"

definition projects_shows :: "projects_page \<Rightarrow> admin_project_list_response outcome \<Rightarrow> bool" where
  "projects_shows s r =
     (case r of
        Inr res \<Rightarrow> pl_projects s = ls_items res \<and> pl_total s = ls_total res
      | Inl e \<Rightarrow> pl_error s = Some (message_or ''Failed to load projects'' e))"

lemma offers_project_row [simp]: "\<not> offers (project_row am faculty p) e"
  by (auto simp: project_row_def latest_status_def owner_texts_def project_tags_def)

lemma projects_offered_iff:
  "projects_offered am faculty s e \<longleftrightarrow>
     (\<exists>v. e = SearchProjects v) \<or> (\<exists>v \<in> fst ` set status_options. e = FilterStatus v) \<or>
     (\<exists>v \<in> fst ` set project_sorts. e = SortProjects v) \<or> e = TogglePlOrder \<or>
     (\<not> pl_loading s \<and> pl_projects s \<noteq> [] \<and> 1 < pages_of (pl_total s) \<and>
       (pl_page s \<noteq> 0 \<and> e = ProjectsPrev \<or> pl_page s < pages_of (pl_total s) - 1 \<and> e = ProjectsNext))"
  by (auto simp: projects_offered_def faculty_projects_view_def staff_projects_view_def projects_view_def
      project_filters_def image_iff split: if_splits; force)

lemma projects_update_keeps [simp]:
  "pl_projects (projects_update e s) = pl_projects s" "pl_total (projects_update e s) = pl_total s"
  "pl_error (projects_update e s) = pl_error s" "pl_loading (projects_update e s) = pl_loading s"
  by (cases e; simp)+

lemma projects_query_deps: "projects_deps s = projects_deps s' \<Longrightarrow> projects_query s = projects_query s'"
  by (simp add: projects_deps_def projects_query_def)

interpretation projects_fetch: fetch_page "projects_offered am faculty" projects_handle projects_resume
  "listing_answers api" projects_query projects_shows projects_initial for am faculty api
proof unfold_locales
  show "cs = [projects_query s'] \<or>
      (cs = [] \<and> projects_query s' = projects_query s \<and> (\<forall>r. projects_shows s r \<longrightarrow> projects_shows s' r))"
    if "projects_handle e s = (s', cs)" for e s s' cs
    using that unfolding projects_handle_def
    by (rule with_effect_cases) (auto simp: projects_shows_def dest: projects_query_deps split: sum.splits)
  show "cs = [] \<and> projects_query s' = projects_query s \<and> projects_shows s' r"
    if "projects_resume c r s = (s', cs)" for c r s s' cs
    using that by (cases r) (auto simp: projects_query_def projects_shows_def)
qed

definition projects_inv :: "projects_page \<Rightarrow> admin_params list \<Rightarrow> bool" where
  "projects_inv s fl =
     (0 \<le> pl_page s \<and> pl_sort s \<in> fst ` set project_sorts \<and> pl_order s \<in> {''asc'', ''desc''} \<and>
      (pl_loading s \<longrightarrow> fl \<noteq> []))"

lemma projects_handle_inv:
  assumes inv: "projects_inv s fl" and off: "projects_offered am faculty s e" and h: "projects_handle e s = (s', cs)"
  shows "projects_inv s' (fl @ cs)"
proof -
  have upd: "projects_inv (projects_update e s) fl"
    using inv off by (cases e) (auto simp: projects_inv_def projects_offered_iff toggled_def next_page_def)
  from h show ?thesis
    unfolding projects_handle_def
    by (rule with_effect_cases) (use upd in \<open>auto simp: projects_inv_def fetch_projects_page_def\<close>)
qed

interpretation projects_world: world_invariant "projects_offered am faculty" projects_handle projects_resume
  "listing_answers api" "(projects_initial, [projects_query projects_initial])" projects_inv
  for am faculty api
proof unfold_locales
  show "projects_inv (fst (projects_initial, [projects_query projects_initial]))
      (snd (projects_initial, [projects_query projects_initial]))"
    by (simp add: projects_inv_def projects_initial_def project_sorts_def)
  show "projects_inv s' (xs @ ys @ cs)"
    if "projects_inv s (xs @ c # ys)" and "projects_resume c r s = (s', cs)" for s xs c ys r s' cs
    using that by (cases r) (auto simp: projects_inv_def intro: rev_image_eqI)
qed (erule (2) projects_handle_inv)

abbreviation projects_fifo_steps where
  "projects_fifo_steps am faculty api \<equiv>
     fstep (projects_offered am faculty) projects_handle projects_resume (listing_answers api)"

text \<open>The unfiltered rows of the page on screen.\<close>

definition page_rows ::
  "(string \<Rightarrow> bool \<Rightarrow> admin_project_item list \<Rightarrow> admin_project_item list) \<Rightarrow>
   (string \<Rightarrow> admin_project_item \<Rightarrow> bool) \<Rightarrow> admin_project_item list \<Rightarrow> projects_page \<Rightarrow> admin_project_item list" where
  "page_rows db_order matches all s =
     take 25 (drop (nat (pl_page s * limit))
       (db_order (if pl_sort s = ''name'' then ''name'' else ''created_at'') (pl_order s = ''asc'')
          (if truthy (pl_search s) then filter (matches (pl_search s)) all else all)))"

lemma api_projects_query:
  assumes "projects_inv s fl"
  shows "api_projects db_order matches all (projects_query s) =
    Some \<lparr>ls_items = filter (\<lambda>p. truthy (pl_status s) \<longrightarrow> ap_latest_deploy_status p = Some (pl_status s))
        (page_rows db_order matches all s),
      ls_total = int (length (if truthy (pl_search s) then filter (matches (pl_search s)) all else all))\<rparr>"
proof -
  have "sort_column (or_text (or_undefined (pl_sort s)) ''created_at'') =
      (if pl_sort s = ''name'' then ''name'' else ''created_at'')"
    using assms
    by (auto simp: projects_inv_def project_sorts_def sort_column_def or_text_def or_undefined_def truthy_def)
  moreover have "(or_undefined (pl_order s) = Some ''asc'') = (pl_order s = ''asc'')"
    by (auto simp: or_undefined_def truthy_def)
  moreover have "0 \<le> pl_page s * limit" using assms by (simp add: projects_inv_def limit_def)
  moreover have "(truthy_opt (or_undefined (pl_status s)) \<longrightarrow> x = or_undefined (pl_status s)) =
      (truthy (pl_status s) \<longrightarrow> x = Some (pl_status s))" for x
    by (auto simp: or_undefined_def truthy_opt_def)
  moreover have "(case or_undefined (pl_search s) of None \<Rightarrow> all
      | Some q \<Rightarrow> if truthy q then filter (matches q) all else all) =
      (if truthy (pl_search s) then filter (matches (pl_search s)) all else all)"
    by (simp add: or_undefined_def)
  ultimately show ?thesis
    by (simp add: api_projects_def projects_query_def no_params_def page_rows_def limit_def Let_def)
qed

text \<open>
  With answers in the order of the requests and none outstanding, and no failure, the page lists the
  rows of the page on screen that have the chosen status; it is in the order of the name for the option
  \<open>Name\<close>, and of the creation for each of the three others. When no row of the page on screen has the
  status, nothing is listed and the paging buttons are gone, whatever the other pages hold.
\<close>

lemma projects_settled_listing:
  assumes "(projects_fifo_steps am faculty (api_projects db_order matches all))\<^sup>*\<^sup>*
      (projects_initial, [projects_query projects_initial]) (s, [])"
    and "pl_error s = None"
  shows "pl_projects s = filter (\<lambda>p. truthy (pl_status s) \<longrightarrow> ap_latest_deploy_status p = Some (pl_status s))
      (page_rows db_order matches all s) \<and>
    pl_total s = int (length (if truthy (pl_search s) then filter (matches (pl_search s)) all else all)) \<and>
    (truthy (pl_status s) \<and> Some (pl_status s) \<notin> ap_latest_deploy_status ` set (page_rows db_order matches all s) \<longrightarrow>
       pl_projects s = [] \<and> \<not> projects_offered am faculty s ProjectsPrev \<and>
       \<not> projects_offered am faculty s ProjectsNext)"
proof -
  have inv: "projects_inv s []"
    by (rule projects_world.reach_state_inv [OF fsteps_imp_wsteps [OF assms(1)]])
  from assms(1) have listed: "pl_projects s =
      filter (\<lambda>p. truthy (pl_status s) \<longrightarrow> ap_latest_deploy_status p = Some (pl_status s))
        (page_rows db_order matches all s) \<and>
      pl_total s = int (length (if truthy (pl_search s) then filter (matches (pl_search s)) all else all))"
  proof (rule projects_fetch.quiet_display)
    fix r
    assume "listing_answers (api_projects db_order matches all) (projects_query s) r" and "projects_shows s r"
    with assms(2) show ?thesis
      by (cases r) (auto simp: listing_answers_def projects_shows_def api_projects_query [OF inv])
  qed
  then have "truthy (pl_status s) \<and>
      Some (pl_status s) \<notin> ap_latest_deploy_status ` set (page_rows db_order matches all s) \<longrightarrow> pl_projects s = []"
    by (auto simp: filter_empty_conv image_iff)
  with listed show ?thesis by (auto simp: projects_offered_iff)
qed

definition sample_item :: "string \<Rightarrow> string \<Rightarrow> admin_project_item" where
  "sample_item i status =
     \<lparr>ap_id = i, ap_name = i, ap_slug = i, ap_owner_id = ''u1'', ap_owner_username = ''jdoe'',
      ap_owner_display_name = ''J Doe'', ap_framework = None, ap_repo_url = None, ap_repo_full_name = None,
      ap_production_url = None, ap_deploy_locked = False, ap_expires_at = None, ap_created_at = ''2026-01-01'',
      ap_latest_deploy_status = Some status, ap_total_deploys = 1, ap_total_builds = 1, ap_member_count = 0,
      ap_tags = []\<rparr>"

text \<open>Twenty-five healthy projects on the first page, and a failed one on the second.\<close>

definition many_projects :: "admin_project_item list" where
  "many_projects = replicate 25 (sample_item ''ok'' ''healthy'') @ [sample_item ''bad'' ''failed'']"

abbreviation sample_api where
  "sample_api \<equiv> api_projects (\<lambda>c asc xs. xs) (\<lambda>q p. True) many_projects"

definition failed_script :: "(projects_event + nat \<times> admin_project_list_response outcome) list" where
  "failed_script =
     [Inr (0, Inr (the (sample_api (projects_query projects_initial)))), Inl (FilterStatus ''failed''),
      Inr (0, Inr (the (sample_api (projects_query (projects_initial\<lparr>pl_status := ''failed''\<rparr>)))))]"

lemma sample_api_answers:
  assumes "projects_inv s fl"
  shows "listing_answers sample_api (projects_query s) (Inr (the (sample_api (projects_query s))))"
  by (simp add: listing_answers_def api_projects_query [OF assms])

lemma failed_playable:
  "playable (projects_offered sample_ambient True) projects_handle projects_resume (listing_answers sample_api)
     failed_script (projects_initial, [projects_query projects_initial])"
proof -
  have inv: "projects_inv projects_initial [undefined]"
    "projects_inv (projects_initial\<lparr>pl_status := ''failed''\<rparr>) [undefined]"
    by (simp_all add: projects_inv_def projects_initial_def project_sorts_def)
  let ?s1 = "fetch_projects_page (projects_update (FilterStatus ''failed'')
    (fst (projects_resume (projects_query projects_initial)
      (Inr (the (sample_api (projects_query projects_initial)))) projects_initial)))"
  have "projects_query ?s1 = projects_query (projects_initial\<lparr>pl_status := ''failed''\<rparr>)"
    by (simp add: projects_query_def fetch_projects_page_def projects_initial_def)
  with sample_api_answers [OF inv(1)] sample_api_answers [OF inv(2)] show ?thesis
    by (simp add: failed_script_def projects_handle_def with_effect_def projects_deps_def projects_offered_iff
        projects_initial_def status_options_def Let_def)
qed

lemma projects_settled_listing_witness:
  "\<exists>s. (projects_fifo_steps sample_ambient True sample_api)\<^sup>*\<^sup>*
       (projects_initial, [projects_query projects_initial]) (s, []) \<and>
     pl_status s = ''failed'' \<and> pl_total s = 26 \<and> pl_projects s = [] \<and>
     \<not> projects_offered sample_ambient True s ProjectsNext \<and>
     (\<exists>p \<in> set many_projects. ap_latest_deploy_status p = Some ''failed'')"
proof -
  let ?run = "run_script projects_handle projects_resume failed_script
    (projects_initial, [projects_query projects_initial])"
  obtain s where run: "?run = (s, [])" and s: "pl_error s = None" "pl_status s = ''failed''"
    "pl_search s = []" "pl_page s = 0"
    by (simp add: failed_script_def projects_handle_def with_effect_def projects_deps_def projects_initial_def
        fetch_projects_page_def Let_def)
  have "in_order failed_script" by (simp add: failed_script_def)
  from run_script_reaches_in_order [OF failed_playable this]
  have reach: "(projects_fifo_steps sample_ambient True sample_api)\<^sup>*\<^sup>*
      (projects_initial, [projects_query projects_initial]) (s, [])"
    by (simp only: run)
  have rows: "page_rows (\<lambda>c asc xs. xs) (\<lambda>q p. True) many_projects s = replicate 25 (sample_item ''ok'' ''healthy'')"
    by (simp add: page_rows_def s truthy_def many_projects_def)
  have fails: "ap_latest_deploy_status (sample_item ''bad'' ''failed'') = Some ''failed''"
    "sample_item ''bad'' ''failed'' \<in> set many_projects"
    by (simp_all add: sample_item_def many_projects_def)
  have "Some ''failed'' \<notin> ap_latest_deploy_status ` set (replicate 25 (sample_item ''ok'' ''healthy''))"
    by (simp add: sample_item_def)
  with projects_settled_listing [OF reach s(1)]
  have "pl_total s = int (length many_projects)" and "pl_projects s = []"
    and "\<not> projects_offered sample_ambient True s ProjectsNext"
    unfolding rows s by (simp_all add: truthy_def)
  moreover have "length many_projects = 26" by (simp add: many_projects_def)
  ultimately show ?thesis
    using reach s(2) fails by (intro exI [of _ s]) auto
qed

section \<open>The pages of the tags\<close>

record tags_page =
  tp_projects :: "admin_project_item list"
  tp_loading :: bool
  tp_error :: "string option"
  tp_selected :: "string option"

definition tags_initial :: tags_page where
  "tags_initial = \<lparr>tp_projects = [], tp_loading = True, tp_error = None, tp_selected = None\<rparr>"

definition tags_query :: "tags_page \<Rightarrow> admin_params" where
  "tags_query s =
     no_params\<lparr>q_limit := Some 200, q_tag := (if truthy_opt (tp_selected s) then tp_selected s else None)\<rparr>"

definition fetch_tags :: "tags_page \<Rightarrow> tags_page" where
  "fetch_tags s = s\<lparr>tp_loading := True, tp_error := None\<rparr>"

fun tags_resume ::
  "admin_params \<Rightarrow> admin_project_list_response outcome \<Rightarrow> tags_page \<Rightarrow> tags_page \<times> admin_params list" where
  "tags_resume c (Inr res) s = (s\<lparr>tp_projects := ls_items res, tp_loading := False\<rparr>, [])"
| "tags_resume c (Inl e) s =
     (s\<lparr>tp_error := Some (message_or ''Failed to load projects'' e), tp_loading := False\<rparr>, [])"

datatype tags_event = SelectTag string | ClearTag

fun tags_update :: "tags_event \<Rightarrow> tags_page \<Rightarrow> tags_page" where
  "tags_update (SelectTag t) s = s\<lparr>tp_selected := Some t\<rparr>"
| "tags_update ClearTag s = s\<lparr>tp_selected := None\<rparr>"

definition tags_handle :: "tags_event \<Rightarrow> tags_page \<Rightarrow> tags_page \<times> admin_params list" where
  "tags_handle e s = with_effect tp_selected fetch_tags tags_query (tags_update e) s"

text \<open>
  \<open>tagCounts\<close>, an object used as a dictionary: its entries are those whose keys are array indices,
  by number, and then the others in the order of their insertion. (A tag that names an inherited
  property is left out of the model.)
\<close>

fun count_tag :: "string \<Rightarrow> (string \<times> int) list \<Rightarrow> (string \<times> int) list" where
  "count_tag t [] = [(t, 1)]"
| "count_tag t ((k, n) # ks) = (if k = t then (k, n + 1) # ks else (k, n) # count_tag t ks)"

definition tag_counts :: "admin_project_item list \<Rightarrow> (string \<times> int) list" where
  "tag_counts ps = fold count_tag (concat (map ap_tags ps)) []"

text \<open>\<open>allTags\<close>: the most frequent first, the others of a count in the order of the entries.\<close>

definition all_tags :: "admin_project_item list \<Rightarrow> (string \<times> int) list" where
  "all_tags ps = sort_key (\<lambda>e. - snd e) (object_entries (tag_counts ps))"

text \<open>Each tag is listed with the number of its occurrences, in the order of these numbers.\<close>

lemma map_of_count_tag:
  "map_of (count_tag t ks) k =
     (if k = t then Some (1 + (case map_of ks t of None \<Rightarrow> 0 | Some n \<Rightarrow> n)) else map_of ks k)"
  by (induction ks) auto

lemma map_of_tag_counts_aux:
  "map_of (fold count_tag ts ks) k =
     (if k \<in> set ts then Some (int (count_list ts k) + (case map_of ks k of None \<Rightarrow> 0 | Some n \<Rightarrow> n)) else map_of ks k)"
  by (induction ts arbitrary: ks) (auto simp: map_of_count_tag count_list_0_iff)

lemma map_of_tag_counts:
  "map_of (tag_counts ps) k =
     (let ts = concat (map ap_tags ps) in if k \<in> set ts then Some (int (count_list ts k)) else None)"
  by (simp add: tag_counts_def map_of_tag_counts_aux)

lemma all_tags_sorted:
  "sorted (map (\<lambda>e. - snd e) (all_tags ps))" and "set (all_tags ps) = set (tag_counts ps)"
  by (auto simp: all_tags_def object_entries_def)

definition tag_sidebar :: "tags_page \<Rightarrow> tags_event view" where
  "tag_sidebar s =
     (let tags = all_tags (tp_projects s)
      in El ''div''
        [El ''h2'' [Txt (''Tags ('' @ show_nat (length tags) @ '')'')],
         Btn False (Some ClearTag)
           [El ''span'' [Txt ''All projects''], El ''span'' [Txt (show_nat (length (tp_projects s)))]],
         Frag (map (\<lambda>(t, n). Btn False (Some (SelectTag t)) [El ''span'' [Txt t], El ''span'' [Txt (show_int n)]]) tags),
         when_view (tags = []) (para ''No tags found'')])"

definition tagged_project :: "ambient \<Rightarrow> bool \<Rightarrow> admin_project_item \<Rightarrow> tags_event view" where
  "tagged_project am faculty p =
     El ''div''
       [Lnk (''/dashboard/'' @ ap_id p) [Txt (ap_name p), El ''span'' [Txt (CHR ''/'' # ap_slug p)]],
        El ''p''
          [(if faculty then Lnk (''/faculty/students/'' @ ap_owner_id p) [Txt (ap_owner_display_name p)]
            else Txt (ap_owner_display_name p)),
           El ''span'' [Txt (''@'' @ ap_owner_username p)], given (ap_framework p) (\<lambda>f. El ''span'' [Txt f])],
        El ''span'' [Txt (show_int (ap_total_deploys p) @ ''d'')],
        El ''span'' [Txt (show_int (ap_total_builds p) @ ''b'')],
        El ''span'' [Txt (format_date (am_locale am) (Some (ap_created_at p)))],
        when_view (ap_tags p \<noteq> [])
          (El ''div'' (map (\<lambda>t. Btn False (Some (SelectTag t)) [Txt t]) (ap_tags p)))]"

definition tags_view :: "ambient \<Rightarrow> bool \<Rightarrow> tags_page \<Rightarrow> tags_event view" where
  "tags_view am faculty s =
     El ''div''
       [El ''h1'' [Txt ''Tags''],
        para (if faculty then ''Manage and browse project tags'' else ''Browse projects organized by tags''),
        error_box (tp_error s),
        (if tp_loading s then para ''Loading tags...''
         else El ''div''
           [tag_sidebar s,
            given (tp_selected s) (\<lambda>t. El ''div''
              [El ''span'' [Txt t], El ''span'' [Txt (plural (int (length (tp_projects s))) ''project'')],
               Btn False (Some ClearTag) [Txt ''Clear filter'']]),
            (if tp_projects s = []
             then para (''No projects found'' @ (if truthy_opt (tp_selected s)
               then '' with tag '' @ [CHR 0x22] @ the (tp_selected s) @ [CHR 0x22] else []) @ ''.'')
             else El ''div'' (map (tagged_project am faculty) (tp_projects s)))])]"

definition staff_tags_view :: "ambient \<Rightarrow> tags_page \<Rightarrow> tags_event view" where
  "staff_tags_view am s = tags_view am False s"

definition faculty_tags_view :: "ambient \<Rightarrow> tags_page \<Rightarrow> tags_event view" where
  "faculty_tags_view am s = tags_view am True s"

definition tags_offered :: "ambient \<Rightarrow> bool \<Rightarrow> tags_page \<Rightarrow> tags_event \<Rightarrow> bool" where
  "tags_offered am faculty s e =
     offers (if faculty then faculty_tags_view am s else staff_tags_view am s) e"

abbreviation tags_steps where
  "tags_steps am faculty api \<equiv>
     wstep (tags_offered am faculty) tags_handle tags_resume (listing_answers api)"

definition tags_inv :: "tags_page \<Rightarrow> admin_params list \<Rightarrow> bool" where
  "tags_inv s fl =
     (tp_projects s = [] \<and> (\<forall>c \<in> set fl. q_limit c = Some 200) \<and> (tp_loading s \<longrightarrow> fl \<noteq> []) \<and>
      (fl = [] \<longrightarrow> (\<exists>e. tp_error s = Some (message_or ''Failed to load projects'' e))))"

lemma api_refuses: "q_limit c = Some 200 \<Longrightarrow> api_projects db_order matches all c = None"
  by (simp add: api_projects_def Let_def)

lemma tags_update_keeps [simp]:
  "tp_projects (tags_update e s) = tp_projects s" "tp_loading (tags_update e s) = tp_loading s"
  "tp_error (tags_update e s) = tp_error s"
  by (cases e; simp)+

interpretation tags_world: world_invariant "tags_offered am faculty" tags_handle tags_resume
  "listing_answers (api_projects db_order matches all)" "(tags_initial, [tags_query tags_initial])" tags_inv
  for am faculty db_order matches all
proof unfold_locales
  show "tags_inv (fst (tags_initial, [tags_query tags_initial])) (snd (tags_initial, [tags_query tags_initial]))"
    by (simp add: tags_inv_def tags_initial_def tags_query_def no_params_def)
  show "tags_inv s' (fl @ cs)" if "tags_inv s fl" and "tags_handle e s = (s', cs)" for s fl e s' cs
    using that(2) unfolding tags_handle_def
    by (rule with_effect_cases) (use that(1) in \<open>auto simp: tags_inv_def fetch_tags_def tags_query_def no_params_def\<close>)
  show "tags_inv s' (xs @ ys @ cs)"
    if "tags_inv s (xs @ c # ys)" and "listing_answers (api_projects db_order matches all) c r"
      and "tags_resume c r s = (s', cs)" for s xs c ys r s' cs
    using that by (cases r) (auto simp: tags_inv_def listing_answers_def api_refuses)
qed

text \<open>
  The pages of the tags never show a project or a tag: they ask for 200 projects, the API refuses to
  list more than 100, so every answer is a failure, and the page shows its message.
\<close>

lemma tags_never_load:
  assumes "(tags_steps am faculty (api_projects db_order matches all))\<^sup>*\<^sup>*
      (tags_initial, [tags_query tags_initial]) (s, fl)"
  shows "tp_projects s = [] \<and> all_tags (tp_projects s) = [] \<and> \<not> tags_offered am faculty s (SelectTag t) \<and>
    (fl = [] \<longrightarrow> (\<exists>e. tp_error s = Some (message_or ''Failed to load projects'' e) \<and> \<not> tp_loading s))"
proof -
  have inv: "tags_inv s fl" by (rule tags_world.reach_state_inv [OF assms])
  then have empty: "tp_projects s = []" by (simp add: tags_inv_def)
  then have "all_tags (tp_projects s) = []"
    by (simp add: all_tags_def object_entries_def tag_counts_def)
  moreover from this empty have "\<not> tags_offered am faculty s (SelectTag t)"
    by (auto simp: tags_offered_def faculty_tags_view_def staff_tags_view_def tags_view_def tag_sidebar_def Let_def)
  ultimately show ?thesis using empty inv by (auto simp: tags_inv_def)
qed

lemma tags_never_load_witness:
  "\<exists>s. (tags_steps sample_ambient False sample_api)\<^sup>*\<^sup>* (tags_initial, [tags_query tags_initial]) (s, []) \<and>
     tp_error s = Some ''[object Object]'' \<and> tp_projects s = []"
proof -
  let ?e = "ApiErr 422 (JArr [JObj []])"
  let ?s = "tags_initial\<lparr>tp_error := Some ''[object Object]'', tp_loading := False\<rparr>"
  have "tags_steps sample_ambient False sample_api (tags_initial, [tags_query tags_initial]) (?s, [])"
    by (rule wstep.reply [where xs = "[]" and ys = "[]" and cs = "[]" and r = "Inl ?e", simplified])
       (simp_all add: listing_answers_def)
  then have reach: "(tags_steps sample_ambient False sample_api)\<^sup>*\<^sup>* (tags_initial, [tags_query tags_initial]) (?s, [])"
    by (rule r_into_rtranclp)
  with tags_never_load [OF reach] show ?thesis by (intro exI [of _ ?s]) simp
qed

end
