(* ===== verification/TemplateGallery.thy ===== *)
theory TemplateGallery
  imports ProjectKit
begin

text \<open>
  The gallery of starter projects (\<open>web/src/components/template-gallery.tsx\<close>): the list of templates, and
  the dialog that deploys one. The dialog is mounted while a template is selected; a request to deploy
  carries the mount it was sent from.
\<close>

section \<open>State\<close>

record template_modal =
  tl_template :: template
  tl_repo_name :: string
  tl_description :: string
  tl_private :: bool
  tl_deploying :: bool
  tl_error :: json

record gallery =
  tg_templates :: "template list"
  tg_loading :: bool
  tg_error :: json
  tg_modal :: "template_modal option"    \<comment> \<open>the dialog, while \<open>selected\<close>\<close>
  tg_modals :: nat                       \<comment> \<open>mounts of the dialog so far\<close>

definition gallery_initial :: gallery where
  "gallery_initial =
     \<lparr>tg_templates = [], tg_loading = True, tg_error = JStr [], tg_modal = None, tg_modals = 0\<rparr>"

definition modal_initial :: "template \<Rightarrow> template_modal" where
  "modal_initial t =
     \<lparr>tl_template = t, tl_repo_name = tm_github_repo t, tl_description = [], tl_private = False,
      tl_deploying = False, tl_error = JStr []\<rparr>"

section \<open>Operations\<close>

datatype gallery_cmd = ListTemplates | DeployTemplate nat string template_deploy_request

datatype gallery_reply =
    TemplatesReply "template_list_response outcome"
  | DeployReply "template_deploy_response outcome"

text \<open>\<open>setSelected(t)\<close>: a dialog that is open stays mounted, and keeps what was typed.\<close>

definition select_template :: "template \<Rightarrow> gallery \<Rightarrow> gallery" where
  "select_template t g =
     (case tg_modal g of
        None \<Rightarrow> g\<lparr>tg_modal := Some (modal_initial t), tg_modals := Suc (tg_modals g)\<rparr>
      | Some m \<Rightarrow> g\<lparr>tg_modal := Some (m\<lparr>tl_template := t\<rparr>)\<rparr>)"

definition on_modal :: "(template_modal \<Rightarrow> template_modal) \<Rightarrow> gallery \<Rightarrow> gallery" where
  "on_modal f g = g\<lparr>tg_modal := map_option f (tg_modal g)\<rparr>"

definition handle_deploy :: "gallery \<Rightarrow> gallery \<times> gallery_cmd list" where
  "handle_deploy g =
     (case tg_modal g of
        None \<Rightarrow> (g, [])
      | Some m \<Rightarrow>
          if trim (tl_repo_name m) = [] then (g, [])
          else (on_modal (\<lambda>m. m\<lparr>tl_deploying := True, tl_error := JStr []\<rparr>) g,
                [DeployTemplate (tg_modals g) (tm_slug (tl_template m))
                   \<lparr>tdr_repo_name = trim (tl_repo_name m), tdr_description = Some (tl_description m),
                    tdr_private = Some (tl_private m)\<rparr>]))"

datatype gallery_event =
    CancelGallery | SelectTemplate template | CloseTemplate
  | SetRepoName string | SetDescription string | SetPrivate bool | DeployClicked

fun gallery_handle :: "gallery_event \<Rightarrow> gallery \<Rightarrow> gallery \<times> gallery_cmd list" where
  "gallery_handle CancelGallery g = (g, [])"
| "gallery_handle (SelectTemplate t) g = (select_template t g, [])"
| "gallery_handle CloseTemplate g = (g\<lparr>tg_modal := None\<rparr>, [])"
| "gallery_handle (SetRepoName v) g = (on_modal (\<lambda>m. m\<lparr>tl_repo_name := v\<rparr>) g, [])"
| "gallery_handle (SetDescription v) g = (on_modal (\<lambda>m. m\<lparr>tl_description := v\<rparr>) g, [])"
| "gallery_handle (SetPrivate b) g = (on_modal (\<lambda>m. m\<lparr>tl_private := b\<rparr>) g, [])"
| "gallery_handle DeployClicked g = handle_deploy g"

text \<open>
  What an answer does to the gallery while it is mounted. \<open>setSelected(null)\<close> closes whichever dialog is
  open; the error and the end of \<open>deploying\<close> are those of the dialog that sent the request.
\<close>

fun gallery_resume :: "gallery_cmd \<Rightarrow> gallery_reply \<Rightarrow> gallery \<Rightarrow> gallery" where
  "gallery_resume ListTemplates (TemplatesReply (Inr res)) g =
     g\<lparr>tg_templates := ls_items res, tg_loading := False\<rparr>"
| "gallery_resume ListTemplates (TemplatesReply (Inl e)) g =
     g\<lparr>tg_error := detail_or ''Failed to load templates'' e, tg_loading := False\<rparr>"
| "gallery_resume (DeployTemplate k slug b) (DeployReply (Inr res)) g = g\<lparr>tg_modal := None\<rparr>"
| "gallery_resume (DeployTemplate k slug b) (DeployReply (Inl e)) g =
     (if k = tg_modals g
      then on_modal (\<lambda>m. m\<lparr>tl_error := detail_or ''Failed to deploy template'' e, tl_deploying := False\<rparr>) g
      else g)"
| "gallery_resume c r g = g"

text \<open>The project that \<open>router.push\<close> goes to and \<open>onDeployed\<close> tells the page of, mounted or not.\<close>

fun deployed_project :: "gallery_cmd \<Rightarrow> gallery_reply \<Rightarrow> string option" where
  "deployed_project (DeployTemplate k slug b) (DeployReply (Inr res)) = Some (tds_project_id res)"
| "deployed_project c r = None"

section \<open>View\<close>

definition FRAMEWORK_META :: "(string \<times> string) list" where
  "FRAMEWORK_META =
     [(''nextjs'', ''Next.js''), (''react-vite'', ''React''), (''python'', ''Python''), (''nodejs'', ''Node.js''),
      (''go'', ''Go''), (''static'', ''Static'')]"

text \<open>\<open>(FRAMEWORK_META[f] ?? ...).label\<close>: what an object inherits has no label.\<close>

definition framework_badge :: "string \<Rightarrow> 'e view" where
  "framework_badge f =
     El ''span''
       [case dict_get FRAMEWORK_META f of Own l \<Rightarrow> Txt l | Missing \<Rightarrow> Txt f
        | Inherited_function \<Rightarrow> Frag [] | Inherited_object \<Rightarrow> Frag []]"

text \<open>The drawing of a framework, named by the case that draws it.\<close>

definition framework_icon :: "string \<Rightarrow> 'e view" where
  "framework_icon f =
     El (if f \<in> {''nextjs'', ''react-vite'', ''python'', ''nodejs'', ''go''} then ''svg.'' @ f else ''svg.other'') []"

definition template_card :: "template \<Rightarrow> gallery_event view" where
  "template_card t =
     Btn False (Some (SelectTemplate t))
       [framework_icon (tm_framework t), El ''h3'' [Txt (tm_name t)], framework_badge (tm_framework t),
        para (tm_description t),
        when_view (tm_tags t \<noteq> []) (El ''div'' (map (\<lambda>g. El ''span'' [Txt g]) (take 3 (tm_tags t))))]"

definition template_dialog :: "template_modal \<Rightarrow> gallery_event view" where
  "template_dialog m =
     El ''dialog''
       [framework_icon (tm_framework (tl_template m)), El ''h3'' [Txt (''Deploy '' @ tm_name (tl_template m))],
        para ''Creates a new GitHub repo and deploys it'',
        (if truthy_json (tl_error m) then El ''div'' [El ''p'' [json_child (tl_error m)]] else json_child (tl_error m)),
        labelled ''Repository Name'' (Inp ''text'' (tl_repo_name m) ''my-awesome-app'' SetRepoName),
        para ''This will be the name of the new repo in your GitHub account'',
        labelled ''Description (optional)''
          (Inp ''text'' (tl_description m) ''A brief description of your project'' SetDescription),
        El ''label'' [Chk (tl_private m) SetPrivate, Txt ''Private repository''],
        Btn (tl_deploying m) (Some CloseTemplate) [Txt ''Cancel''],
        Btn (tl_deploying m \<or> trim (tl_repo_name m) = []) (Some DeployClicked)
          [Txt (if tl_deploying m then ''Creating...'' else ''Deploy'')]]"

definition gallery_view :: "gallery \<Rightarrow> gallery_event view" where
  "gallery_view g =
     El ''div''
       [El ''h2'' [Txt ''Start from a Template''],
        para (''Pick a starter project. We'' @ CHR 0x27 # ''ll create a GitHub repo and deploy it for you.''),
        Btn False (Some CancelGallery) [Txt ''Cancel''],
        json_error (tg_error g),
        (if tg_loading g then El ''div'' [Txt ''Loading templates...'']
         else if tg_templates g = [] then para ''No templates available yet.''
         else El ''div'' (map template_card (tg_templates g))),
        (case tg_modal g of None \<Rightarrow> Frag [] | Some m \<Rightarrow> template_dialog m)]"

text \<open>The dialog calls \<open>onClose\<close> also on Escape and on a click on its backdrop, while it deploys too.\<close>

definition gallery_offered :: "gallery \<Rightarrow> gallery_event \<Rightarrow> bool" where
  "gallery_offered g e = (offers (gallery_view g) e \<or> tg_modal g \<noteq> None \<and> e = CloseTemplate)"

fun gallery_answers :: "gallery_cmd \<Rightarrow> gallery_reply \<Rightarrow> bool" where
  "gallery_answers ListTemplates (TemplatesReply r) = True"
| "gallery_answers (DeployTemplate k slug b) (DeployReply r) = True"
| "gallery_answers c r = False"

section \<open>One deployment at a time for each dialog\<close>

definition deploying :: "gallery \<Rightarrow> bool" where
  "deploying g = (case tg_modal g of None \<Rightarrow> False | Some m \<Rightarrow> tl_deploying m)"

text \<open>The deployments in flight that a mount of the dialog sent.\<close>

fun deploys_from :: "nat \<Rightarrow> gallery_cmd \<Rightarrow> bool" where
  "deploys_from k (DeployTemplate j slug b) = (j = k)"
| "deploys_from k ListTemplates = False"

text \<open>
  The dialog on screen deploys exactly while the request it sent is on its way (one at most, of a name
  that is not blank), no request is from a dialog to come, and the list is loading only while asked for.
\<close>

definition named_deploy :: "gallery_cmd \<Rightarrow> bool" where
  "named_deploy c = (case c of ListTemplates \<Rightarrow> True | DeployTemplate k slug b \<Rightarrow> tdr_repo_name b \<noteq> [])"

definition count_from :: "nat \<Rightarrow> gallery_cmd list \<Rightarrow> nat" where
  "count_from k fl = length (filter (deploys_from k) fl)"

lemma count_from_simps [simp]: "count_from k [] = 0" "count_from k (xs @ ys) = count_from k xs + count_from k ys"
  "count_from k (c # xs) = of_bool (deploys_from k c) + count_from k xs"
  by (simp_all add: count_from_def)

definition gallery_inv :: "gallery \<Rightarrow> gallery_cmd list \<Rightarrow> bool" where
  "gallery_inv g fl =
     ((tg_modal g \<noteq> None \<longrightarrow> count_from (tg_modals g) fl = of_bool (deploying g)) \<and>
      (\<forall>k. count_from k fl \<le> of_bool (k \<le> tg_modals g)) \<and>
      (\<forall>c \<in> set fl. named_deploy c) \<and>
      (tg_loading g \<longrightarrow> ListTemplates \<in> set fl))"

lemma offers_template_parts [simp]:
  "\<not> offers (framework_icon f) e" "\<not> offers (framework_badge f) e"
  "offers (template_card t) e = (e = SelectTemplate t)"
  by (auto simp: framework_icon_def framework_badge_def template_card_def split: dict_value.split)

lemma deploy_offered:
  "gallery_offered g DeployClicked \<longleftrightarrow>
     (\<exists>m. tg_modal g = Some m \<and> \<not> tl_deploying m \<and> trim (tl_repo_name m) \<noteq> [])"
  by (auto simp: gallery_offered_def gallery_view_def template_dialog_def split: option.split)

lemma deploying_simps [simp]:
  "deploying (g\<lparr>tg_modal := None\<rparr>) = False"
  "deploying (g\<lparr>tg_templates := ts, tg_loading := b\<rparr>) = deploying g"
  "deploying (g\<lparr>tg_error := x, tg_loading := b\<rparr>) = deploying g"
  by (simp_all add: deploying_def)

lemma on_modal_fields [simp]:
  "tg_modals (on_modal f g) = tg_modals g" "tg_loading (on_modal f g) = tg_loading g"
  "(tg_modal (on_modal f g) = None) = (tg_modal g = None)"
  by (simp_all add: on_modal_def)

lemma deploying_on_modal:
  "deploying (on_modal f g) = (case tg_modal g of None \<Rightarrow> False | Some m \<Rightarrow> tl_deploying (f m))"
  by (simp add: deploying_def on_modal_def split: option.split)

lemma gallery_inv_start: "gallery_inv gallery_initial [ListTemplates]"
  by (simp add: gallery_inv_def gallery_initial_def named_deploy_def)

text \<open>The counts of a list of requests are all that the invariant asks of it.\<close>

lemma gallery_inv_more:
  assumes "gallery_inv g fl" and "tg_modals g' = tg_modals g" and "tg_loading g' = tg_loading g"
    and "tg_modal g' \<noteq> None \<Longrightarrow> tg_modal g \<noteq> None \<and> deploying g' = deploying g"
  shows "gallery_inv g' fl"
  using assms by (simp add: gallery_inv_def)

lemma gallery_inv_handle:
  assumes "gallery_inv g fl" and "gallery_offered g e" and "gallery_handle e g = (g', cs)"
  shows "gallery_inv g' (fl @ cs)"
proof (cases e)
  case (SelectTemplate t)
  show ?thesis
  proof (cases "tg_modal g")
    case None
    have le: "count_from k fl \<le> of_bool (k \<le> tg_modals g)" for k
      using assms(1) by (simp add: gallery_inv_def)
    have more: "count_from k fl \<le> of_bool (k \<le> Suc (tg_modals g))" for k
      using le [of k] by (auto simp: of_bool_def split: if_splits)
    have eq: "g' = g\<lparr>tg_modal := Some (modal_initial t), tg_modals := Suc (tg_modals g)\<rparr>" "cs = []"
      using assms(3) None SelectTemplate by (simp_all add: select_template_def)
    have "deploying g' = False" by (simp add: eq deploying_def modal_initial_def)
    with le [of "Suc (tg_modals g)"] more assms(1) show ?thesis
      unfolding gallery_inv_def eq by simp
  next
    case (Some m)
    with assms(1,3) SelectTemplate show ?thesis
      by (auto simp: select_template_def deploying_def elim!: gallery_inv_more)
  qed
next
  case DeployClicked
  with assms(2) obtain m where m: "tg_modal g = Some m" "\<not> tl_deploying m" "trim (tl_repo_name m) \<noteq> []"
    by (auto simp: deploy_offered)
  let ?b = "\<lparr>tdr_repo_name = trim (tl_repo_name m), tdr_description = Some (tl_description m),
      tdr_private = Some (tl_private m)\<rparr>"
  have eq: "g' = on_modal (\<lambda>m. m\<lparr>tl_deploying := True, tl_error := JStr []\<rparr>) g"
    "cs = [DeployTemplate (tg_modals g) (tm_slug (tl_template m)) ?b]"
    using assms(3) DeployClicked m by (auto simp: handle_deploy_def)
  have none: "count_from (tg_modals g) fl = 0" and le: "count_from k fl \<le> of_bool (k \<le> tg_modals g)" for k
    using assms(1) m by (simp_all add: gallery_inv_def deploying_def)
  have "count_from k (fl @ cs) \<le> of_bool (k \<le> tg_modals g)" for k
    using le [of k] none by (cases "k = tg_modals g") (simp_all add: eq(2))
  moreover have "deploying g'" using m(1) by (simp add: eq(1) deploying_on_modal)
  ultimately show ?thesis
    using assms(1) none m(3) unfolding gallery_inv_def by (simp add: eq named_deploy_def)
qed (use assms in \<open>auto simp: on_modal_def deploying_def split: option.splits elim!: gallery_inv_more\<close>)

lemma gallery_inv_answered:
  assumes "gallery_inv g (xs @ c # ys)" and "tg_modals g' = tg_modals g"
    and "tg_loading g' \<Longrightarrow> tg_loading g \<and> c \<noteq> ListTemplates"
    and "tg_modal g' \<noteq> None \<Longrightarrow>
      tg_modal g \<noteq> None \<and> deploying g' = (deploying g \<and> \<not> deploys_from (tg_modals g) c)"
  shows "gallery_inv g' (xs @ ys)"
proof -
  have le: "count_from k (xs @ c # ys) \<le> of_bool (k \<le> tg_modals g)" for k
    using assms(1) by (simp add: gallery_inv_def)
  have "count_from k (xs @ ys) \<le> of_bool (k \<le> tg_modals g')" for k
    using le [of k] assms(2) by simp
  moreover have "count_from (tg_modals g') (xs @ ys) = of_bool (deploying g')" if "tg_modal g' \<noteq> None"
    using assms(1,2) assms(4) [OF that] by (cases "deploying g") (auto simp: gallery_inv_def of_bool_def split: if_splits)
  ultimately show ?thesis
    using assms(1,3) by (auto simp: gallery_inv_def)
qed

lemma gallery_inv_resume:
  assumes "gallery_inv g (xs @ c # ys)" and "gallery_answers c r"
  shows "gallery_inv (gallery_resume c r g) (xs @ ys)"
  using assms(2)
  by (cases "(c, r, g)" rule: gallery_resume.cases; intro gallery_inv_answered [OF assms(1)])
    (auto simp: on_modal_def deploying_def split: option.splits if_splits)

end
