(* ===== verification/DashboardPage.thy ===== *)
theory DashboardPage
  imports TemplateGallery ProjectDeploys JsNumber JsObject
begin

text \<open>
  The dashboard (\<open>web/src/app/dashboard/page.tsx\<close>): the projects with their latest deploys, and the panel that
  adds a project: the choice between its two ways, the prompt to connect a GitHub account, the import of a
  repository, or the gallery of templates. Opening a panel mounts it; the requests of a panel carry the
  mount they were sent from. The user is the one of the session context.
\<close>

section \<open>State\<close>

record importer =
  im_repos :: "github_repo list"
  im_loading :: bool
  im_search :: string
  im_error :: json
  im_importing :: "int option"

definition importer_initial :: importer where
  "importer_initial =
     \<lparr>im_repos = [], im_loading = True, im_search = [], im_error = JStr [], im_importing = None\<rparr>"

text \<open>\<open>addMode\<close>, with the state of the component it shows; a prompt to connect has its \<open>loading\<close>.\<close>

datatype panel = NoPanel | Chooser | Connector bool | Importer importer | Gallery gallery

record dashboard =
  dh_projects :: "project list"
  dh_total :: int
  dh_loading :: bool
  dh_deploys_loading :: bool
  dh_deploys :: "(string \<times> deploy list) list"    \<comment> \<open>\<open>deploysMap\<close>\<close>
  dh_panel :: panel
  dh_mounts :: nat                                 \<comment> \<open>panels mounted so far\<close>
  dh_pushed :: "string list"                       \<comment> \<open>the paths given to \<open>router.push\<close>\<close>
  dh_left_for :: "string option"                   \<comment> \<open>\<open>window.location.href\<close>, once set\<close>

definition dashboard_initial :: dashboard where
  "dashboard_initial =
     \<lparr>dh_projects = [], dh_total = 0, dh_loading = True, dh_deploys_loading = False, dh_deploys = [],
      dh_panel = NoPanel, dh_mounts = 0, dh_pushed = [], dh_left_for = None\<rparr>"

definition github_linked :: "user_info option \<Rightarrow> bool" where
  "github_linked user = (case user of None \<Rightarrow> False | Some u \<Rightarrow> truthy_opt (ui_github_username u))"

section \<open>Requests\<close>

datatype dashboard_cmd =
    FetchProjects
  | FetchDeploys "string list"
  | AuthorizeGitHub nat
  | ListRepos nat
  | CreateProject nat github_repo
  | ConnectRepo nat github_repo string
  | GalleryCall nat gallery_cmd

datatype dashboard_reply =
    ProjectsReply "project_list_response outcome"
  | DeploysReply "deploy_list_response outcome list"    \<comment> \<open>\<open>Promise.allSettled\<close>, which never rejects\<close>
  | AuthorizeReply "string outcome"
  | ReposReply "github_repo list outcome"
  | CreatedReply "project outcome"
  | ConnectedReply "unit outcome"
  | GalleryReply gallery_reply

definition created_project :: "github_repo \<Rightarrow> project_create" where
  "created_project repo =
     \<lparr>pc_name = gr_name repo, pc_slug = slugify (gr_name repo), pc_repo_url = Defined (gr_html_url repo),
      pc_default_env = None, pc_custom_subdomain = Undefined\<rparr>"

definition connected_repo :: "github_repo \<Rightarrow> connect_repo_request" where
  "connected_repo repo =
     \<lparr>cr_install_id = Undefined, cr_repo_id = gr_id repo, cr_repo_full_name = gr_full_name repo,
      cr_default_branch = gr_default_branch repo\<rparr>"

text \<open>The calls of the API that a request makes.\<close>

fun dashboard_calls :: "dashboard_cmd \<Rightarrow> api_call list" where
  "dashboard_calls FetchProjects = [projects_list 0 50]"
| "dashboard_calls (FetchDeploys ids) = map (\<lambda>i. deploys_list i 0 20) ids"
| "dashboard_calls (AuthorizeGitHub k) = [auth_github_authorize_url]"
| "dashboard_calls (ListRepos k) = [github_list_repos]"
| "dashboard_calls (CreateProject k repo) = [projects_create (created_project repo)]"
| "dashboard_calls (ConnectRepo k repo pid) = [projects_connect_repo pid (connected_repo repo)]"
| "dashboard_calls (GalleryCall k ListTemplates) = [templates_list]"
| "dashboard_calls (GalleryCall k (DeployTemplate j slug b)) = [templates_deploy slug b]"

section \<open>Operations\<close>

definition fetch_projects :: "dashboard \<Rightarrow> dashboard \<times> dashboard_cmd list" where
  "fetch_projects s = (s, [FetchProjects])"

text \<open>Newest first; the difference with an invalid date is not a number, which a sort takes as zero.\<close>

definition newest_first :: "(string \<Rightarrow> int option) \<Rightarrow> deploy \<Rightarrow> deploy \<Rightarrow> bool" where
  "newest_first parse a b =
     (case (parse (dp_created_at a), parse (dp_created_at b)) of
        (Some x, Some y) \<Rightarrow> y \<le> x
      | _ \<Rightarrow> True)"

fun next_deploys ::
  "(string \<Rightarrow> int option) \<Rightarrow> string list \<Rightarrow> deploy_list_response outcome list \<Rightarrow> (string \<times> deploy list) list \<Rightarrow>
   (string \<times> deploy list) list" where
  "next_deploys parse (i # is) (r # rs) d =
     next_deploys parse is rs
       (if truthy i
        then dict_put i (case r of Inr res \<Rightarrow> sort_by (newest_first parse) (ls_items res) | Inl e \<Rightarrow> []) d
        else d)"
| "next_deploys parse _ _ d = d"

definition mount_panel :: "panel \<Rightarrow> (nat \<Rightarrow> dashboard_cmd list) \<Rightarrow> dashboard \<Rightarrow> dashboard \<times> dashboard_cmd list" where
  "mount_panel p calls s =
     (s\<lparr>dh_panel := p, dh_mounts := Suc (dh_mounts s)\<rparr>, calls (Suc (dh_mounts s)))"

definition close_panel :: "dashboard \<Rightarrow> dashboard" where
  "close_panel s = s\<lparr>dh_panel := NoPanel\<rparr>"

text \<open>\<open>setAddMode("import")\<close> and \<open>setAddMode("template")\<close>, from the choice.\<close>

definition open_import :: "user_info option \<Rightarrow> dashboard \<Rightarrow> dashboard \<times> dashboard_cmd list" where
  "open_import user s =
     (if github_linked user then mount_panel (Importer importer_initial) (\<lambda>k. [ListRepos k]) s
      else mount_panel (Connector False) (\<lambda>k. []) s)"

definition open_template :: "user_info option \<Rightarrow> dashboard \<Rightarrow> dashboard \<times> dashboard_cmd list" where
  "open_template user s =
     (if \<not> github_linked user then open_import user s
      else mount_panel (Gallery gallery_initial) (\<lambda>k. [GalleryCall k ListTemplates]) s)"

definition handle_connect :: "dashboard \<Rightarrow> dashboard \<times> dashboard_cmd list" where
  "handle_connect s = (s\<lparr>dh_panel := Connector True\<rparr>, [AuthorizeGitHub (dh_mounts s)])"

definition on_importer :: "(importer \<Rightarrow> importer) \<Rightarrow> dashboard \<Rightarrow> dashboard" where
  "on_importer f s = (case dh_panel s of Importer p \<Rightarrow> s\<lparr>dh_panel := Importer (f p)\<rparr> | _ \<Rightarrow> s)"

definition handle_import :: "github_repo \<Rightarrow> dashboard \<Rightarrow> dashboard \<times> dashboard_cmd list" where
  "handle_import repo s =
     (on_importer (\<lambda>p. p\<lparr>im_importing := Some (gr_id repo), im_error := JStr []\<rparr>) s,
      [CreateProject (dh_mounts s) repo])"

datatype dashboard_event =
    AddNew | CloseAdd | ChooseImport | ChooseTemplate | ConnectGitHub
  | SearchRepos string | ImportRepo github_repo | GalleryEvent gallery_event

definition handle_gallery :: "gallery_event \<Rightarrow> dashboard \<Rightarrow> dashboard \<times> dashboard_cmd list" where
  "handle_gallery e s =
     (case dh_panel s of
        Gallery g \<Rightarrow>
          if e = CancelGallery then (close_panel s, [])
          else let (g', cs) = gallery_handle e g
               in (s\<lparr>dh_panel := Gallery g'\<rparr>, map (GalleryCall (dh_mounts s)) cs)
      | _ \<Rightarrow> (s, []))"

fun dashboard_handle :: "user_info option \<Rightarrow> dashboard_event \<Rightarrow> dashboard \<Rightarrow> dashboard \<times> dashboard_cmd list" where
  "dashboard_handle user AddNew s = (s\<lparr>dh_panel := Chooser\<rparr>, [])"
| "dashboard_handle user CloseAdd s = (close_panel s, [])"
| "dashboard_handle user ChooseImport s = open_import user s"
| "dashboard_handle user ChooseTemplate s = open_template user s"
| "dashboard_handle user ConnectGitHub s = handle_connect s"
| "dashboard_handle user (SearchRepos v) s = (on_importer (\<lambda>p. p\<lparr>im_search := v\<rparr>) s, [])"
| "dashboard_handle user (ImportRepo repo) s = handle_import repo s"
| "dashboard_handle user (GalleryEvent e) s = handle_gallery e s"

definition project_route :: "string \<Rightarrow> string" where
  "project_route pid = ''/dashboard/'' @ pid"

definition push_route :: "string \<Rightarrow> dashboard \<Rightarrow> dashboard" where
  "push_route path s = s\<lparr>dh_pushed := dh_pushed s @ [path]\<rparr>"

text \<open>The panel that sent a request, if it is still mounted.\<close>

definition on_own_importer :: "nat \<Rightarrow> (importer \<Rightarrow> importer) \<Rightarrow> dashboard \<Rightarrow> dashboard" where
  "on_own_importer k f s = (if k = dh_mounts s then on_importer f s else s)"

definition import_failed :: "js_exn \<Rightarrow> importer \<Rightarrow> importer" where
  "import_failed e p = p\<lparr>im_error := detail_or ''Failed to import repository'' e, im_importing := None\<rparr>"

definition on_own_gallery :: "nat \<Rightarrow> (gallery \<Rightarrow> gallery) \<Rightarrow> dashboard \<Rightarrow> dashboard" where
  "on_own_gallery k f s =
     (case dh_panel s of Gallery g \<Rightarrow> if k = dh_mounts s then s\<lparr>dh_panel := Gallery (f g)\<rparr> else s | _ \<Rightarrow> s)"

definition gallery_answered :: "nat \<Rightarrow> gallery_cmd \<Rightarrow> gallery_reply \<Rightarrow> dashboard \<Rightarrow> dashboard \<times> dashboard_cmd list" where
  "gallery_answered k c r s =
     (let s1 = on_own_gallery k (gallery_resume c r) s
      in case deployed_project c r of
           None \<Rightarrow> (s1, [])
         | Some pid \<Rightarrow> fetch_projects (close_panel (push_route (project_route pid) s1)))"

fun dashboard_resume ::
  "(string \<Rightarrow> int option) \<Rightarrow> dashboard_cmd \<Rightarrow> dashboard_reply \<Rightarrow> dashboard \<Rightarrow> dashboard \<times> dashboard_cmd list" where
  "dashboard_resume parse FetchProjects r s =
     (case r of
        ProjectsReply (Inr res) \<Rightarrow>
          (s\<lparr>dh_projects := ls_items res, dh_total := ls_total res, dh_deploys_loading := True, dh_loading := False\<rparr>,
           [FetchDeploys (map pj_id (ls_items res))])
      | ProjectsReply (Inl e) \<Rightarrow> (s\<lparr>dh_loading := False\<rparr>, [])
      | _ \<Rightarrow> (s, []))"
| "dashboard_resume parse (FetchDeploys ids) r s =
     (case r of
        DeploysReply rs \<Rightarrow> (s\<lparr>dh_deploys := next_deploys parse ids rs [], dh_deploys_loading := False\<rparr>, [])
      | _ \<Rightarrow> (s, []))"
| "dashboard_resume parse (AuthorizeGitHub k) r s =
     (case r of
        AuthorizeReply (Inr url) \<Rightarrow> (s\<lparr>dh_left_for := Some url\<rparr>, [])
      | AuthorizeReply (Inl e) \<Rightarrow>
          (case dh_panel s of
             Connector b \<Rightarrow> (if k = dh_mounts s then s\<lparr>dh_panel := Connector False\<rparr> else s, [])
           | _ \<Rightarrow> (s, []))
      | _ \<Rightarrow> (s, []))"
| "dashboard_resume parse (ListRepos k) r s =
     (case r of
        ReposReply (Inr repos) \<Rightarrow> (on_own_importer k (\<lambda>p. p\<lparr>im_repos := repos, im_loading := False\<rparr>) s, [])
      | ReposReply (Inl e) \<Rightarrow>
          (on_own_importer k (\<lambda>p. p\<lparr>im_error := detail_or ''Failed to load repositories'' e, im_loading := False\<rparr>) s, [])
      | _ \<Rightarrow> (s, []))"
| "dashboard_resume parse (CreateProject k repo) r s =
     (case r of
        CreatedReply (Inr p) \<Rightarrow> (s, [ConnectRepo k repo (pj_id p)])
      | CreatedReply (Inl e) \<Rightarrow> (on_own_importer k (import_failed e) s, [])
      | _ \<Rightarrow> (s, []))"
| "dashboard_resume parse (ConnectRepo k repo pid) r s =
     (case r of
        ConnectedReply (Inr u) \<Rightarrow>
          (on_own_importer k (\<lambda>p. p\<lparr>im_importing := None\<rparr>) (push_route (project_route pid) s), [])
      | ConnectedReply (Inl e) \<Rightarrow> (on_own_importer k (import_failed e) s, [])
      | _ \<Rightarrow> (s, []))"
| "dashboard_resume parse (GalleryCall k c) r s =
     (case r of GalleryReply g \<Rightarrow> gallery_answered k c g s | _ \<Rightarrow> (s, []))"

section \<open>View\<close>

text \<open>\<open>getStatusTone\<close>: its label, and whether its dot pulses.\<close>

definition get_status_tone :: "deploy_status option \<Rightarrow> string \<times> bool" where
  "get_status_tone status =
     (case status of
        None \<Rightarrow> (''Inactive'', False)
      | Some st \<Rightarrow>
          if st \<in> {Active, Healthy} then (''Healthy'', True)
          else if st \<in> {Queued, Building, Provisioning} then (''Deploying'', True)
          else if st = Failed then (''Failed'', False)
          else if st \<in> {Stopped, Rolled_back} then (''Inactive'', False)
          else if st = Superseded then (''Active'', False)
          else if st = Artifact_ready then (''Ready'', False) else (''Inactive'', False))"

text \<open>The height of a bar of the chart in percent; a day without deploys has a line of two pixels.\<close>

definition max_activity :: "bucket list \<Rightarrow> int" where
  "max_activity buckets = foldr (\<lambda>b. max (bk_count b)) buckets 1"

definition bar_height :: "int \<Rightarrow> int \<Rightarrow> double option" where
  "bar_height n highest =
     (if 0 < n then let p = JsNumber.percent (nat n) (nat highest) in Some (if at_least p 20 then p else (20, 0))
      else None)"

definition activity_bars :: "(nat \<Rightarrow> string) \<Rightarrow> deploy list \<Rightarrow> (string \<times> double option) list" where
  "activity_bars iso_day deploys =
     (let buckets = get_deploy_activity iso_day (map dp_created_at deploys) 7
      in map (\<lambda>b. (bk_date b, bar_height (bk_count b) (max_activity buckets))) buckets)"

definition deploys_summary :: "ambient \<Rightarrow> (nat \<Rightarrow> string) \<Rightarrow> bool \<Rightarrow> deploy list \<Rightarrow> 'e view" where
  "deploys_summary am iso_day busy deploys =
     (if busy then El ''div.pulse'' []
      else case deploys of
        [] \<Rightarrow> El ''div'' [El ''span'' [Txt ''No deploys yet''], El ''span'' [Txt ''New'']]
      | latest # others \<Rightarrow>
          (let (label, pulse) = get_status_tone (Some (dp_status latest))
           in El ''div''
             [El (if pulse then ''dot.pulse'' else ''dot'') [], El ''span'' [Txt label], El ''span'' [Txt ''-''],
              El ''span'' [Txt (''deployed '' @ ago am (dp_created_at latest))], El ''span'' [Txt ''7d''],
              El ''div'' (map (\<lambda>(d, h). El (if h = None then ''div.none'' else ''div.bar'') []) (activity_bars iso_day deploys))]))"

definition project_card ::
  "ambient \<Rightarrow> (nat \<Rightarrow> string) \<Rightarrow> user_info option \<Rightarrow> bool \<Rightarrow> project \<Rightarrow> deploy list \<Rightarrow> 'e view" where
  "project_card am iso_day user busy p deploys =
     Lnk (project_route (pj_id p))
       [El ''h3'' [Txt (pj_name p)],
        (case user of
           None \<Rightarrow> Frag []
         | Some u \<Rightarrow> when_view (pj_owner_id p \<noteq> ui_id u) (El ''span'' [Txt ''Contributor''])),
        given (repo_name p) (\<lambda>r. El ''svg.github'' []),
        (if truthy_opt (repo_name p) then para (the (repo_name p)) else given (pj_repo_url p) para),
        given (pj_framework p) (\<lambda>f. El ''span'' [Txt f]),
        El ''span'' [Txt (''Created '' @ ago am (pj_created_at p))],
        deploys_summary am iso_day busy deploys]"

definition chooser_view :: "dashboard_event view" where
  "chooser_view =
     El ''div''
       [El ''h2'' [Txt ''Create a new project''], Btn False (Some CloseAdd) [Txt ''Cancel''],
        Btn False (Some ChooseImport)
          [El ''h3'' [Txt ''Import GitHub Repository''], para ''Connect an existing repo and deploy it''],
        Btn False (Some ChooseTemplate)
          [El ''h3'' [Txt ''Start from Template''], para ''Pick a starter project and deploy instantly'']]"

definition connector_view :: "bool \<Rightarrow> dashboard_event view" where
  "connector_view busy =
     El ''div''
       [El ''h3'' [Txt ''Connect your GitHub account''],
        para (''To import a repository, you need to connect your GitHub account first. '' @
          ''This allows TBD to access your repositories and set up automatic deployments.''),
        Btn busy (Some ConnectGitHub) [Txt (if busy then ''Redirecting...'' else ''Connect GitHub'')],
        Btn False (Some CloseAdd) [Txt ''Cancel'']]"

definition found_repos :: "importer \<Rightarrow> github_repo list" where
  "found_repos p = filter (\<lambda>r. has_text (to_lower (gr_full_name r)) (to_lower (im_search p))) (im_repos p)"

definition import_row :: "importer \<Rightarrow> github_repo \<Rightarrow> dashboard_event view" where
  "import_row p r =
     El ''div''
       [para (gr_full_name r), when_view (gr_private r) (El ''span'' [Txt ''private'']),
        given (gr_description r) para,
        Btn (im_importing p \<noteq> None) (Some (ImportRepo r))
          [Txt (if im_importing p = Some (gr_id r) then ''Importing...'' else ''Import'')]]"

definition importer_view :: "user_info option \<Rightarrow> importer \<Rightarrow> dashboard_event view" where
  "importer_view user p =
     El ''div''
       [El ''h2'' [Txt ''Import Git Repository''],
        given (Option.bind user ui_github_username) (\<lambda>g. El ''p'' [Txt ''Showing repositories for '', El ''span'' [Txt g]]),
        Btn False (Some CloseAdd) [Txt ''Cancel''],
        json_error (im_error p),
        (if im_loading p then El ''div'' [Txt ''Loading repositories from GitHub...'']
         else Frag
           [Inp ''text'' (im_search p) ''Search repositories...'' SearchRepos,
            (if found_repos p = []
             then para (if im_repos p = [] then ''No repositories found.'' else ''No matching repositories.'')
             else El ''div'' (map (import_row p) (found_repos p)))])]"

fun panel_view :: "user_info option \<Rightarrow> panel \<Rightarrow> dashboard_event view" where
  "panel_view user NoPanel = Frag []"
| "panel_view user Chooser = chooser_view"
| "panel_view user (Connector busy) = connector_view busy"
| "panel_view user (Importer p) = importer_view user p"
| "panel_view user (Gallery g) = map_view GalleryEvent (gallery_view g)"

definition dashboard_view ::
  "ambient \<Rightarrow> (nat \<Rightarrow> string) \<Rightarrow> user_info option \<Rightarrow> dashboard \<Rightarrow> dashboard_event view" where
  "dashboard_view am iso_day user s =
     El ''div''
       [El ''h1'' [Txt ''Projects''], para (plural (dh_total s) ''project''),
        Btn False (Some AddNew) [Txt ''Add New...''],
        panel_view user (dh_panel s),
        (if dh_loading s then para ''Loading projects...''
         else if dh_projects s = []
         then El ''div''
           [El ''h3'' [Txt ''No projects yet''], para ''Import a GitHub repository or start from a template.'',
            Btn False (Some AddNew) [Txt ''Get Started'']]
         else El ''div''
           (map (\<lambda>p. project_card am iso_day user (dh_deploys_loading s) p
              (case map_of (dh_deploys s) (pj_id p) of None \<Rightarrow> [] | Some ds \<Rightarrow> ds)) (dh_projects s)))]"

text \<open>The dialog of the gallery calls \<open>onClose\<close> also on Escape and on a click on its backdrop.\<close>

definition dashboard_offered ::
  "ambient \<Rightarrow> (nat \<Rightarrow> string) \<Rightarrow> user_info option \<Rightarrow> dashboard \<Rightarrow> dashboard_event \<Rightarrow> bool" where
  "dashboard_offered am iso_day user s e =
     (offers (dashboard_view am iso_day user s) e \<or>
      (\<exists>g e'. dh_panel s = Gallery g \<and> e = GalleryEvent e' \<and> gallery_offered g e'))"

fun dashboard_answers :: "dashboard_cmd \<Rightarrow> dashboard_reply \<Rightarrow> bool" where
  "dashboard_answers FetchProjects r = (case r of ProjectsReply x \<Rightarrow> True | _ \<Rightarrow> False)"
| "dashboard_answers (FetchDeploys ids) r = (case r of DeploysReply rs \<Rightarrow> length rs = length ids | _ \<Rightarrow> False)"
| "dashboard_answers (AuthorizeGitHub k) r = (case r of AuthorizeReply x \<Rightarrow> True | _ \<Rightarrow> False)"
| "dashboard_answers (ListRepos k) r = (case r of ReposReply x \<Rightarrow> True | _ \<Rightarrow> False)"
| "dashboard_answers (CreateProject k repo) r = (case r of CreatedReply x \<Rightarrow> True | _ \<Rightarrow> False)"
| "dashboard_answers (ConnectRepo k repo pid) r = (case r of ConnectedReply x \<Rightarrow> True | _ \<Rightarrow> False)"
| "dashboard_answers (GalleryCall k c) r = (case r of GalleryReply g \<Rightarrow> gallery_answers c g | _ \<Rightarrow> False)"

abbreviation dashboard_start :: "(dashboard, dashboard_cmd) world" where
  "dashboard_start \<equiv> (dashboard_initial, [FetchProjects])"

abbreviation dashboard_steps where
  "dashboard_steps am iso_day user \<equiv>
     wstep (dashboard_offered am iso_day user) (dashboard_handle user) (dashboard_resume (am_parse am)) dashboard_answers"

section \<open>One change at a time\<close>

text \<open>The panel that a request is from, none being the page.\<close>

fun sent_by :: "dashboard_cmd \<Rightarrow> nat" where
  "sent_by (AuthorizeGitHub k) = k"
| "sent_by (ListRepos k) = k"
| "sent_by (CreateProject k repo) = k"
| "sent_by (ConnectRepo k repo pid) = k"
| "sent_by (GalleryCall k c) = k"
| "sent_by c = 0"

fun importing :: "dashboard_cmd \<Rightarrow> bool" where
  "importing (CreateProject k repo) = True"
| "importing (ConnectRepo k repo pid) = True"
| "importing c = False"

fun authorizes :: "dashboard_cmd \<Rightarrow> bool" where
  "authorizes (AuthorizeGitHub k) = True"
| "authorizes c = False"

fun gallery_part :: "dashboard_cmd \<Rightarrow> gallery_cmd list" where
  "gallery_part (GalleryCall k c) = [c]"
| "gallery_part c = []"

definition from_panel :: "nat \<Rightarrow> (dashboard_cmd \<Rightarrow> bool) \<Rightarrow> dashboard_cmd list \<Rightarrow> nat" where
  "from_panel k P fl = length (filter (\<lambda>c. P c \<and> sent_by c = k) fl)"

definition gallery_calls :: "nat \<Rightarrow> dashboard_cmd list \<Rightarrow> gallery_cmd list" where
  "gallery_calls k fl = concat (map gallery_part (filter (\<lambda>c. sent_by c = k) fl))"

lemma from_panel_simps [simp]: "from_panel k P [] = 0" "from_panel k P (xs @ ys) = from_panel k P xs + from_panel k P ys"
  "from_panel k P (c # xs) = of_bool (P c \<and> sent_by c = k) + from_panel k P xs"
  by (simp_all add: from_panel_def)

lemma gallery_calls_simps [simp]: "gallery_calls k [] = []" "gallery_calls k (xs @ ys) = gallery_calls k xs @ gallery_calls k ys"
  "gallery_calls k (c # xs) = (if sent_by c = k then gallery_part c else []) @ gallery_calls k xs"
  by (simp_all add: gallery_calls_def)

text \<open>What the panel on screen shows of the requests it sent.\<close>

fun panel_inv :: "nat \<Rightarrow> dashboard_cmd list \<Rightarrow> panel \<Rightarrow> bool" where
  "panel_inv k fl (Connector b) = (from_panel k authorizes fl \<le> of_bool b)"
| "panel_inv k fl (Importer p) =
     (from_panel k importing fl = of_bool (im_importing p \<noteq> None) \<and> (im_loading p \<longrightarrow> ListRepos k \<in> set fl))"
| "panel_inv k fl (Gallery g) = gallery_inv g (gallery_calls k fl)"
| "panel_inv k fl _ = True"

definition dashboard_inv :: "dashboard \<Rightarrow> dashboard_cmd list \<Rightarrow> bool" where
  "dashboard_inv s fl =
     (panel_inv (dh_mounts s) fl (dh_panel s) \<and> (\<forall>c \<in> set fl. sent_by c \<le> dh_mounts s) \<and>
      (\<forall>k. from_panel k importing fl \<le> 1) \<and>
      (dh_loading s \<longrightarrow> FetchProjects \<in> set fl) \<and> (dh_deploys_loading s \<longrightarrow> (\<exists>ids. FetchDeploys ids \<in> set fl)))"

lemma from_panel_future: "\<forall>c \<in> set fl. sent_by c \<le> m \<Longrightarrow> m < k \<Longrightarrow> from_panel k P fl = 0"
  by (induction fl) auto

lemma gallery_calls_future: "\<forall>c \<in> set fl. sent_by c \<le> m \<Longrightarrow> m < k \<Longrightarrow> gallery_calls k fl = []"
  by (induction fl) auto

text \<open>A panel just mounted, with the requests it sends.\<close>

lemma dashboard_inv_mount:
  assumes "dashboard_inv s fl" and "mount_panel p calls s = (s', cs)"
    and "\<forall>c \<in> set (calls (Suc (dh_mounts s))). sent_by c = Suc (dh_mounts s) \<and> \<not> importing c"
    and "panel_inv (Suc (dh_mounts s)) (calls (Suc (dh_mounts s))) p"
  shows "dashboard_inv s' (fl @ cs)"
proof -
  let ?k = "Suc (dh_mounts s)"
  have cs: "cs = calls ?k" and s': "s' = s\<lparr>dh_panel := p, dh_mounts := ?k\<rparr>"
    using assms(2) by (simp_all add: mount_panel_def)
  have old: "\<forall>c \<in> set fl. sent_by c \<le> dh_mounts s" using assms(1) by (simp add: dashboard_inv_def)
  have none: "from_panel k importing (calls ?k) = 0" for k
    using assms(3) by (auto simp: from_panel_def filter_empty_conv)
  have "panel_inv ?k (fl @ calls ?k) p"
    using assms(4) from_panel_future [OF old, of ?k] gallery_calls_future [OF old, of ?k] by (cases p) auto
  then show ?thesis
    using assms(1,3) old none by (auto simp: dashboard_inv_def s' cs)
qed

lemma offers_project_card [simp]: "\<not> offers (project_card am iso_day user busy p ds) e"
  by (auto simp: project_card_def deploys_summary_def split: option.splits list.splits prod.splits if_splits)

lemma offers_import_row [simp]: "offers (import_row p r) e \<longleftrightarrow> im_importing p = None \<and> e = ImportRepo r"
  by (auto simp: import_row_def)

lemma dashboard_offers:
  "offers (dashboard_view am iso_day user s) e \<longleftrightarrow> e = AddNew \<or> offers (panel_view user (dh_panel s)) e"
  by (auto simp: dashboard_view_def)

lemma connect_offered: "dashboard_offered am iso_day user s ConnectGitHub \<Longrightarrow> dh_panel s = Connector False"
  by (cases "dh_panel s")
    (auto simp: dashboard_offered_def dashboard_offers chooser_view_def connector_view_def importer_view_def split: if_splits)

lemma import_offered:
  "dashboard_offered am iso_day user s (ImportRepo r) \<Longrightarrow> \<exists>p. dh_panel s = Importer p \<and> im_importing p = None"
  by (cases "dh_panel s")
    (auto simp: dashboard_offered_def dashboard_offers chooser_view_def connector_view_def importer_view_def split: if_splits)

lemma gallery_event_offered:
  "dashboard_offered am iso_day user s (GalleryEvent e) \<Longrightarrow> \<exists>g. dh_panel s = Gallery g \<and> gallery_offered g e"
  by (cases "dh_panel s")
    (auto simp: dashboard_offered_def dashboard_offers chooser_view_def connector_view_def importer_view_def
      gallery_offered_def split: if_splits)

lemma dashboard_inv_panel:
  assumes "dashboard_inv s fl" and "panel_inv (dh_mounts s) (fl @ cs) p"
    and "\<forall>c \<in> set cs. sent_by c = dh_mounts s" and "\<And>k. from_panel k importing (fl @ cs) \<le> 1"
  shows "dashboard_inv (s\<lparr>dh_panel := p\<rparr>) (fl @ cs)"
  using assms(1,2,3) assms(4) by (auto simp: dashboard_inv_def)

lemma gallery_calls_map: "gallery_calls k (map (GalleryCall k) cs) = cs"
  by (induction cs) auto

lemma from_gallery_map [simp]: "from_panel k importing (map (GalleryCall j) cs) = 0"
  by (induction cs) auto

lemma dashboard_inv_handle:
  assumes "dashboard_inv s fl" and "dashboard_offered am iso_day user s e" and "dashboard_handle user e s = (s', cs)"
  shows "dashboard_inv s' (fl @ cs)"
proof -
  have one: "from_panel k importing fl \<le> 1" for k using assms(1) by (simp add: dashboard_inv_def)
  have import_mount: "dashboard_inv s' (fl @ cs)" if "open_import user s = (s', cs)" for s' cs
    using that by (auto simp: open_import_def importer_initial_def split: if_splits elim!: dashboard_inv_mount [OF assms(1)])
  show ?thesis
  proof (cases e)
    case ChooseTemplate
    show ?thesis
    proof (cases "github_linked user")
      case True
      with ChooseTemplate assms(3)
      have "mount_panel (Gallery gallery_initial) (\<lambda>k. [GalleryCall k ListTemplates]) s = (s', cs)"
        by (simp add: open_template_def)
      then show ?thesis by (rule dashboard_inv_mount [OF assms(1)]) (simp_all add: gallery_inv_start)
    qed (use ChooseTemplate assms(3) import_mount in \<open>simp add: open_template_def\<close>)
  next
    case ConnectGitHub
    then have "dh_panel s = Connector False" using assms(2) connect_offered by blast
    with ConnectGitHub assms(1,3) one show ?thesis
      by (auto simp: handle_connect_def dashboard_inv_def intro!: dashboard_inv_panel)
  next
    case (ImportRepo r)
    then obtain p where p: "dh_panel s = Importer p" "im_importing p = None" using assms(2) import_offered by blast
    then have "from_panel (dh_mounts s) importing fl = 0" using assms(1) by (simp add: dashboard_inv_def)
    with one have "from_panel k importing (fl @ [CreateProject (dh_mounts s) r]) \<le> 1" for k
      by (cases "k = dh_mounts s") auto
    with ImportRepo p assms(1,3) show ?thesis
      by (auto simp: handle_import_def on_importer_def dashboard_inv_def)
  next
    case (GalleryEvent e')
    then obtain g where g: "dh_panel s = Gallery g" "gallery_offered g e'" using assms(2) gallery_event_offered by blast
    obtain g' gs where h: "gallery_handle e' g = (g', gs)" by fastforce
    have "gallery_inv g (gallery_calls (dh_mounts s) fl)" using assms(1) g(1) by (simp add: dashboard_inv_def)
    from gallery_inv_handle [OF this g(2) h]
    have "panel_inv (dh_mounts s) (fl @ map (GalleryCall (dh_mounts s)) gs) (Gallery g')"
      by (simp add: gallery_calls_map)
    from dashboard_inv_panel [OF assms(1) this] one
    have "dashboard_inv (s\<lparr>dh_panel := Gallery g'\<rparr>) (fl @ map (GalleryCall (dh_mounts s)) gs)" by simp
    moreover have "dashboard_inv (close_panel s) fl" using assms(1) by (simp add: close_panel_def dashboard_inv_def)
    ultimately show ?thesis
      using GalleryEvent g(1) h assms(3) by (auto simp: handle_gallery_def split: if_splits)
  qed (use assms import_mount in \<open>auto simp: close_panel_def on_importer_def dashboard_inv_def split: panel.splits\<close>)
qed

lemma dashboard_inv_answered:
  assumes "dashboard_inv s (xs @ c # ys)" and "dh_mounts s' = dh_mounts s"
    and "panel_inv (dh_mounts s) (xs @ ys @ cs) (dh_panel s')"
    and "\<forall>d \<in> set cs. sent_by d \<le> sent_by c \<and> (importing d \<longrightarrow> importing c \<and> sent_by d = sent_by c)"
    and "length (filter importing cs) \<le> 1"
    and "dh_loading s' \<Longrightarrow> dh_loading s \<and> c \<noteq> FetchProjects"
    and "dh_deploys_loading s' \<Longrightarrow>
      dh_deploys_loading s \<and> (\<forall>ids. c \<noteq> FetchDeploys ids) \<or> (\<exists>ids. FetchDeploys ids \<in> set cs)"
  shows "dashboard_inv s' (xs @ ys @ cs)"
proof -
  have "from_panel k importing (xs @ ys @ cs) \<le> 1" for k
  proof -
    have "filter (\<lambda>d. importing d \<and> sent_by d = k) cs = (if importing c \<and> sent_by c = k then filter importing cs else [])"
      using assms(4) by (auto simp: filter_empty_conv intro!: filter_cong)
    then have "from_panel k importing cs \<le> of_bool (importing c \<and> sent_by c = k)"
      using assms(5) by (simp add: from_panel_def)
    moreover have "from_panel k importing (xs @ c # ys) \<le> 1" using assms(1) by (simp add: dashboard_inv_def)
    ultimately show ?thesis by simp
  qed
  moreover have "\<forall>d \<in> set (xs @ ys @ cs). sent_by d \<le> dh_mounts s"
    using assms(1,4) by (force simp: dashboard_inv_def)
  ultimately show ?thesis
    using assms by (fastforce simp: dashboard_inv_def)
qed

lemma panel_inv_unmounted: "panel_inv k fl p \<Longrightarrow> p' = p \<or> p' = NoPanel \<Longrightarrow> panel_inv k fl p'"
  by auto

lemma Suc_le_of_bool: "Suc n \<le> of_bool b \<longleftrightarrow> b \<and> n = 0" "Suc n = of_bool b \<longleftrightarrow> b \<and> n = 0"
  by (cases b; simp)+

lemma dashboard_inv_resume:
  assumes inv: "dashboard_inv s (xs @ c # ys)" and "dashboard_answers c r" and "dashboard_resume parse c r s = (s', cs)"
  shows "dashboard_inv s' (xs @ ys @ cs)"
proof -
  have panel: "panel_inv (dh_mounts s) (xs @ c # ys) (dh_panel s)" using inv by (simp add: dashboard_inv_def)
  show ?thesis
  proof (cases c)
    case (GalleryCall k g)
    obtain gr where r: "r = GalleryReply gr" "gallery_answers g gr"
      using assms(2) GalleryCall by (auto split: dashboard_reply.splits)
    let ?s1 = "on_own_gallery k (gallery_resume g gr) s"
    have s1: "panel_inv (dh_mounts s) (xs @ ys) (dh_panel ?s1)" "dh_mounts ?s1 = dh_mounts s"
      "dh_loading ?s1 = dh_loading s" "dh_deploys_loading ?s1 = dh_deploys_loading s"
      using panel GalleryCall gallery_inv_resume [OF _ r(2)]
      by (cases "dh_panel s"; auto simp: on_own_gallery_def)+
    show ?thesis
    proof (cases "deployed_project g gr")
      case None
      then have "s' = ?s1" "cs = []" using assms(3) GalleryCall r by (auto simp: gallery_answered_def)
      with s1 GalleryCall show ?thesis by (intro dashboard_inv_answered [OF inv]) auto
    next
      case (Some pid)
      then have "s' = close_panel (push_route (project_route pid) ?s1)" "cs = [FetchProjects]"
        using assms(3) GalleryCall r by (auto simp: gallery_answered_def fetch_projects_def)
      with s1 GalleryCall show ?thesis
        by (intro dashboard_inv_answered [OF inv]) (auto simp: close_panel_def push_route_def)
    qed
  qed (use assms(2,3) panel in \<open>(cases "dh_panel s"; intro dashboard_inv_answered [OF inv];
      auto simp: on_own_importer_def on_importer_def import_failed_def push_route_def Suc_le_of_bool
        split: dashboard_reply.splits sum.splits if_splits)+\<close>)
qed

interpretation dashboard_world: world_invariant "dashboard_offered am iso_day user" "dashboard_handle user"
  "dashboard_resume (am_parse am)" dashboard_answers dashboard_start dashboard_inv
  for am iso_day user
proof unfold_locales
  show "dashboard_inv (fst dashboard_start) (snd dashboard_start)"
    by (simp add: dashboard_inv_def dashboard_initial_def)
qed (blast intro: dashboard_inv_handle dashboard_inv_resume)+

lemma count_exists: "length (filter P xs) = of_bool b \<Longrightarrow> b = (\<exists>x \<in> set xs. P x)"
  by (metis filter_empty_conv length_0_conv of_bool_eq_0_iff)

lemma from_panel_exists: "from_panel k P fl = of_bool b \<Longrightarrow> b = (\<exists>c \<in> set fl. P c \<and> sent_by c = k)"
  unfolding from_panel_def by (rule count_exists)

lemma deploys_from_calls:
  "(\<exists>c \<in> set (gallery_calls k fl). deploys_from j c) = (\<exists>slug b. GalleryCall k (DeployTemplate j slug b) \<in> set fl)"
proof
  assume "\<exists>c \<in> set (gallery_calls k fl). deploys_from j c"
  then obtain c d where "deploys_from j c" "c \<in> set (gallery_part d)" "d \<in> set fl" "sent_by d = k"
    by (auto simp: gallery_calls_def)
  then show "\<exists>slug b. GalleryCall k (DeployTemplate j slug b) \<in> set fl"
    by (cases d; cases c) auto
qed (force simp: gallery_calls_def)

lemma deploying_in_flight:
  assumes "gallery_inv g (gallery_calls k fl)" and "tg_modal g \<noteq> None"
  shows "deploying g = (\<exists>slug b. GalleryCall k (DeployTemplate (tg_modals g) slug b) \<in> set fl)"
proof -
  have "count_from (tg_modals g) (gallery_calls k fl) = of_bool (deploying g)"
    using assms by (simp add: gallery_inv_def)
  then have "deploying g = (\<exists>c \<in> set (gallery_calls k fl). deploys_from (tg_modals g) c)"
    unfolding count_from_def by (rule count_exists)
  then show ?thesis by (simp add: deploys_from_calls)
qed

text \<open>
  C18: on the dashboard a mounted panel has at most one import under way, and the one on screen is importing
  exactly while its own request is in flight; the dialog of a template on screen is deploying exactly while its
  own request is; and the page shows that it loads projects, or deploys, only while it asks for them.
\<close>

theorem dashboard_changes:
  assumes "(dashboard_steps am iso_day user)\<^sup>*\<^sup>* dashboard_start (s, fl)"
  shows "(\<forall>k. from_panel k importing fl \<le> 1) \<and>
    (\<forall>p. dh_panel s = Importer p \<longrightarrow>
      (im_importing p \<noteq> None) = (\<exists>c \<in> set fl. importing c \<and> sent_by c = dh_mounts s)) \<and>
    (\<forall>g. dh_panel s = Gallery g \<and> tg_modal g \<noteq> None \<longrightarrow>
      deploying g = (\<exists>slug b. GalleryCall (dh_mounts s) (DeployTemplate (tg_modals g) slug b) \<in> set fl)) \<and>
    (dh_loading s \<longrightarrow> FetchProjects \<in> set fl) \<and> (dh_deploys_loading s \<longrightarrow> (\<exists>ids. FetchDeploys ids \<in> set fl))"
proof -
  from dashboard_world.reach_state_inv [OF assms] have inv: "dashboard_inv s fl" .
  then have "(im_importing p \<noteq> None) = (\<exists>c \<in> set fl. importing c \<and> sent_by c = dh_mounts s)" if "dh_panel s = Importer p" for p
    using that by (intro from_panel_exists) (simp add: dashboard_inv_def)
  moreover have "deploying g = (\<exists>slug b. GalleryCall (dh_mounts s) (DeployTemplate (tg_modals g) slug b) \<in> set fl)"
    if "dh_panel s = Gallery g \<and> tg_modal g \<noteq> None" for g
    using that inv by (intro deploying_in_flight) (auto simp: dashboard_inv_def)
  ultimately show ?thesis using inv by (simp add: dashboard_inv_def)
qed

section \<open>What the API accepts\<close>

text \<open>
  Which slugs the API creates a project for (\<open>src/api/app/schemas/project.py\<close>, and the production label of
  \<open>src/api/app/utils/dns.py\<close>, which is the slug when no other is asked for).
\<close>

definition RESERVED_PRODUCTION_LABELS :: "string list" where
  "RESERVED_PRODUCTION_LABELS =
     [''admin'', ''api'', ''auth'', ''grafana'', ''loki'', ''monitoring'', ''prometheus'', ''registry'', ''status'', ''www'']"

definition normalize_production_label :: "string \<Rightarrow> bool" where
  "normalize_production_label label =
     (length label \<le> 63 \<and> label \<noteq> [] \<and> slug_char (hd label) \<and> slug_char (last label) \<and>
      (\<forall>c \<in> set label. slug_char c \<or> c = CHR ''-'') \<and> label \<notin> set RESERVED_PRODUCTION_LABELS)"

definition api_accepts_slug :: "string \<Rightarrow> bool" where
  "api_accepts_slug slug =
     (slug \<noteq> [] \<and> length slug \<le> 255 \<and> (\<forall>c \<in> set slug. slug_char c \<or> c = CHR ''-'') \<and> normalize_production_label slug)"

text \<open>
  A slug in use is refused (\<open>src/api/app/routers/projects.py\<close>), as is a production label in use; \<open>ps\<close> are the
  projects there are.
\<close>

definition api_conflicts :: "project list \<Rightarrow> project_create \<Rightarrow> bool" where
  "api_conflicts ps b =
     (let label = (case pc_custom_subdomain b of Defined t \<Rightarrow> if truthy t then t else pc_slug b | _ \<Rightarrow> pc_slug b)
      in \<exists>p \<in> set ps. pj_slug p = pc_slug b \<or> pj_custom_subdomain p = Some label)"

definition api_accepts_import :: "project list \<Rightarrow> project_create \<Rightarrow> bool" where
  "api_accepts_import ps b =
     (pc_name b \<noteq> [] \<and> length (pc_name b) \<le> 255 \<and> api_accepts_slug (pc_slug b) \<and> \<not> api_conflicts ps b)"

text \<open>
  C20: the API accepts the project that an import asks for exactly when the name of the repository has a letter
  or digit, in lower case one of those of ASCII, and at most 255 characters, and the slug made of it fits a DNS
  label, is not reserved for a service of the platform, and is not in use as a slug or subdomain.
\<close>

theorem import_slug_accepted:
  "api_accepts_import ps (created_project repo) \<longleftrightarrow>
     (\<exists>c \<in> set (to_lower (gr_name repo)). slug_char c) \<and> length (gr_name repo) \<le> 255 \<and>
     (let slug = slugify (gr_name repo)
      in length slug \<le> 63 \<and> slug \<notin> set RESERVED_PRODUCTION_LABELS \<and>
         \<not> (\<exists>p \<in> set ps. pj_slug p = slug \<or> pj_custom_subdomain p = Some slug))"
proof -
  let ?slug = "slugify (gr_name repo)"
  have "is_slug ?slug" by (rule slugify_is_slug)
  then have "api_accepts_slug ?slug \<longleftrightarrow>
      ?slug \<noteq> [] \<and> length ?slug \<le> 63 \<and> ?slug \<notin> set RESERVED_PRODUCTION_LABELS"
    using hd_in_set [of ?slug] last_in_set [of ?slug]
    by (fastforce simp: api_accepts_slug_def normalize_production_label_def is_slug_def)
  moreover have "gr_name repo \<noteq> []" if "\<exists>c \<in> set (to_lower (gr_name repo)). slug_char c"
    using that by auto
  ultimately show ?thesis
    using slugify_nonempty [of "gr_name repo"]
    by (auto simp: api_accepts_import_def api_conflicts_def created_project_def Let_def)
qed

text \<open>
  A request that a schema refuses is answered with the status 422, and with the list of what is wrong as the
  detail, each an object.
\<close>

definition validation_detail :: "json \<Rightarrow> bool" where
  "validation_detail d = (\<exists>fs vs. d = JArr (JObj fs # vs))"

definition api_creates :: "project_create \<Rightarrow> project outcome \<Rightarrow> bool" where
  "api_creates b r = (\<not> api_accepts_slug (pc_slug b) \<longrightarrow> (\<exists>d. validation_detail d \<and> r = Inl (ApiErr 422 d)))"

text \<open>
  C23: an import that the API refuses for its slug breaks the dashboard: the page gives the list of objects to
  React as the message.
\<close>

theorem import_refused_crashes:
  assumes "dh_panel s = Importer p" and "\<not> api_accepts_slug (slugify (gr_name repo))"
    and "api_creates (created_project repo) r"
  shows "crashes (dashboard_view am iso_day user
    (fst (dashboard_resume parse (CreateProject (dh_mounts s) repo) (CreatedReply r) s)))"
proof -
  obtain fs vs where "r = Inl (ApiErr 422 (JArr (JObj fs # vs)))"
    using assms(2,3) by (auto simp: api_creates_def validation_detail_def created_project_def)
  then show ?thesis
    using assms(1)
    by (simp add: dashboard_view_def importer_view_def on_own_importer_def on_importer_def import_failed_def detail_or_def
        json_error_def)
qed

section \<open>The deploys of a project\<close>

lemma next_deploys_other: "i \<notin> set ids \<Longrightarrow> map_of (next_deploys parse ids rs d) i = map_of d i"
  by (induction parse ids rs d rule: next_deploys.induct) auto

lemma next_deploys_own:
  assumes "distinct ids" and "j < length ids" and "length rs = length ids" and "ids ! j \<noteq> []"
  shows "map_of (next_deploys parse ids rs d) (ids ! j) =
    Some (case rs ! j of Inr res \<Rightarrow> sort_by (newest_first parse) (ls_items res) | Inl e \<Rightarrow> [])"
  using assms
proof (induction parse ids rs d arbitrary: j rule: next_deploys.induct)
  case (1 parse i ids r rs d)
  show ?case
  proof (cases j)
    case 0
    with 1(2,5) show ?thesis by (simp add: next_deploys_other truthy_def)
  next
    case (Suc j')
    with 1 show ?thesis by simp
  qed
qed auto

lemma newest_first_valid:
  "parse (dp_created_at a) \<noteq> None \<Longrightarrow> parse (dp_created_at b) \<noteq> None \<Longrightarrow>
   newest_first parse a b = (the (parse (dp_created_at b)) \<le> the (parse (dp_created_at a)))"
  by (auto simp: newest_first_def)

lemma texts_no_bars [simp]: "concat (map (\<lambda>x. texts (case x of (d, h) \<Rightarrow> El (t d h) [])) xs) = []"
  by (induction xs) auto

lemma texts_deploys_summary:
  "texts (deploys_summary am iso_day False []) = [''No deploys yet'', ''New'']"
  "texts (deploys_summary am iso_day False (d # ds)) =
     [fst (get_status_tone (Some (dp_status d))), ''-'', ''deployed '' @ ago am (dp_created_at d), ''7d'']"
  by (simp_all add: deploys_summary_def comp_def case_prod_beta)

lemma texts_last: "vs \<noteq> [] \<Longrightarrow> last vs = v \<Longrightarrow> \<exists>xs. texts (Lnk h vs) = xs @ texts v"
  by (cases vs rule: rev_cases) auto

lemma texts_member:
  assumes "v \<in> set vs"
  shows "\<exists>us ws. texts (El t vs) = us @ texts v @ ws"
proof -
  from split_list [OF assms] obtain ys zs where "vs = ys @ v # zs" by blast
  then have "texts (El t vs) = concat (map texts ys) @ texts v @ concat (map texts zs)" by simp
  then show ?thesis by blast
qed

lemma texts_project_card:
  "\<exists>xs. texts (project_card am iso_day user busy p ds :: 'e view) =
     xs @ texts (deploys_summary am iso_day busy ds :: 'e view)"
  unfolding project_card_def by (rule texts_last) simp_all

lemma card_on_dashboard:
  assumes "\<not> dh_loading s" and "p \<in> set (dh_projects s)"
  shows "\<exists>us vs. texts (dashboard_view am iso_day user s) =
    us @ texts (project_card am iso_day user (dh_deploys_loading s) p
      (case map_of (dh_deploys s) (pj_id p) of None \<Rightarrow> [] | Some ds \<Rightarrow> ds) :: dashboard_event view) @ vs"
proof -
  let ?card = "\<lambda>p. project_card am iso_day user (dh_deploys_loading s) p
      (case map_of (dh_deploys s) (pj_id p) of None \<Rightarrow> [] | Some ds \<Rightarrow> ds) :: dashboard_event view"
  let ?list = "El ''div'' (map ?card (dh_projects s))"
  have "?card p \<in> set (map ?card (dh_projects s))" using assms(2) by simp
  from texts_member [OF this, of "''div''"] obtain us vs where
    cards: "texts ?list = us @ texts (?card p) @ vs" by blast
  have "dh_projects s \<noteq> []" using assms(2) by auto
  then have "\<exists>us' vs'. texts (dashboard_view am iso_day user s) = us' @ texts ?list @ vs'"
    unfolding dashboard_view_def using assms(1) by (intro texts_member) simp
  then obtain us' vs' where "texts (dashboard_view am iso_day user s) = us' @ texts ?list @ vs'" by blast
  with cards have "texts (dashboard_view am iso_day user s) = (us' @ us) @ texts (?card p) @ (vs @ vs')"
    by simp
  then show ?thesis by blast
qed

lemma newest_deploy_kept:
  assumes "distinct (map pj_id ps)" and "length rs = length ps" and "j < length ps" and "pj_id (ps ! j) \<noteq> []"
    and "\<forall>res. rs ! j = Inr res \<longrightarrow> (\<forall>d \<in> set (ls_items res). parse (dp_created_at d) \<noteq> None)"
    and "dashboard_resume parse (FetchDeploys (map pj_id ps)) (DeploysReply rs) s = (s', cs)"
  shows "(case map_of (dh_deploys s') (pj_id (ps ! j)) of
       None \<Rightarrow> False
     | Some [] \<Rightarrow> (case rs ! j of Inr res \<Rightarrow> ls_items res = [] | Inl e \<Rightarrow> True)
     | Some (d # ds) \<Rightarrow> (\<exists>res. rs ! j = Inr res \<and> set (d # ds) = set (ls_items res) \<and>
         (\<forall>d' \<in> set (ls_items res). the (parse (dp_created_at d')) \<le> the (parse (dp_created_at d)))))"
proof -
  let ?sorted = "\<lambda>res. sort_by (newest_first parse) (ls_items res)"
  have own: "map_of (dh_deploys s') (pj_id (ps ! j)) = Some (case rs ! j of Inr res \<Rightarrow> ?sorted res | Inl e \<Rightarrow> [])"
    using next_deploys_own [of "map pj_id ps" j rs parse "[]"] assms(1-4,6) by auto
  show ?thesis
  proof (cases "rs ! j")
    case (Inr res)
    let ?le = "\<lambda>a b. the (parse (dp_created_at b)) \<le> the (parse (dp_created_at a))"
    have valid: "\<forall>d \<in> set (ls_items res). parse (dp_created_at d) \<noteq> None" using assms(5) Inr by blast
    then have "?sorted res = sort_by ?le (ls_items res)"
      by (intro sort_by_cong newest_first_valid) auto
    moreover have "sorted_wrt ?le (sort_by ?le (ls_items res))" by (rule sorted_sort_by) auto
    ultimately have sorted: "sorted_wrt ?le (?sorted res)" by simp
    show ?thesis
    proof (cases "?sorted res")
      case Nil
      then have "ls_items res = []" using set_sort_by [of "newest_first parse" "ls_items res"] by (simp del: set_sort_by)
      with own Inr show ?thesis by (simp add: sort_by_def)
    next
      case (Cons d ds)
      then have set: "set (d # ds) = set (ls_items res)" using set_sort_by [of "newest_first parse" "ls_items res"] by simp
      with sorted Cons have "\<forall>d' \<in> set (ls_items res). the (parse (dp_created_at d')) \<le> the (parse (dp_created_at d))"
        by auto
      with own Inr Cons set show ?thesis by auto
    qed
  qed (use own in simp)
qed

text \<open>
  C22: when the deploys of the listed projects have arrived, the card of each project says the status and the
  age of the newest deploy that the API listed for it, and that there is none if it listed none or failed; and
  the page shows this card for each of these projects that it lists. The ids of the projects are distinct and
  the dates of the deploys readable.
\<close>

theorem latest_deploy_newest:
  assumes "distinct (map pj_id ps)" and "length rs = length ps" and "j < length ps" and "pj_id (ps ! j) \<noteq> []"
    and "\<forall>res. rs ! j = Inr res \<longrightarrow> (\<forall>d \<in> set (ls_items res). parse (dp_created_at d) \<noteq> None)"
    and "dashboard_resume parse (FetchDeploys (map pj_id ps)) (DeploysReply rs) s = (s', cs)"
    and "shown = texts (project_card am iso_day user (dh_deploys_loading s') (ps ! j)
      (case map_of (dh_deploys s') (pj_id (ps ! j)) of None \<Rightarrow> [] | Some ds \<Rightarrow> ds) :: dashboard_event view)"
  shows "(case map_of (dh_deploys s') (pj_id (ps ! j)) of
       None \<Rightarrow> False
     | Some [] \<Rightarrow> (case rs ! j of Inr res \<Rightarrow> ls_items res = [] | Inl e \<Rightarrow> True) \<and>
         (\<exists>xs. shown = xs @ [''No deploys yet'', ''New''])
     | Some (d # ds) \<Rightarrow> (\<exists>res. rs ! j = Inr res \<and> set (d # ds) = set (ls_items res) \<and>
         (\<forall>d' \<in> set (ls_items res). the (parse (dp_created_at d')) \<le> the (parse (dp_created_at d)))) \<and>
         (\<exists>xs. shown = xs @ [fst (get_status_tone (Some (dp_status d))), ''-'',
            ''deployed '' @ ago am (dp_created_at d), ''7d''])) \<and>
    (\<not> dh_loading s' \<and> ps ! j \<in> set (dh_projects s') \<longrightarrow>
       (\<exists>us vs. texts (dashboard_view am iso_day user s') = us @ shown @ vs))"
proof -
  have busy: "\<not> dh_deploys_loading s'" using assms(6) by auto
  have kept: "case map_of (dh_deploys s') (pj_id (ps ! j)) of
       None \<Rightarrow> False
     | Some [] \<Rightarrow> (case rs ! j of Inr res \<Rightarrow> ls_items res = [] | Inl e \<Rightarrow> True)
     | Some (d # ds) \<Rightarrow> (\<exists>res. rs ! j = Inr res \<and> set (d # ds) = set (ls_items res) \<and>
         (\<forall>d' \<in> set (ls_items res). the (parse (dp_created_at d')) \<le> the (parse (dp_created_at d))))"
    by (rule newest_deploy_kept [OF assms(1-6)])
  have listed: "\<not> dh_loading s' \<and> ps ! j \<in> set (dh_projects s') \<longrightarrow>
      (\<exists>us vs. texts (dashboard_view am iso_day user s') = us @ shown @ vs)"
    unfolding assms(7) using card_on_dashboard by blast
  show ?thesis
  proof (cases "map_of (dh_deploys s') (pj_id (ps ! j))")
    case (Some ds)
    then have "\<exists>xs. shown = xs @ texts (deploys_summary am iso_day False ds :: dashboard_event view)"
      using texts_project_card [of am iso_day user False "ps ! j" ds] busy by (simp add: assms(7))
    with Some kept listed show ?thesis
      by (cases ds) (simp_all only: texts_deploys_summary option.case list.case)
  qed (use kept in simp)
qed

section \<open>The chart\<close>

lemma max_activity_ge: "b \<in> set bs \<Longrightarrow> bk_count b \<le> max_activity bs"
  unfolding max_activity_def by (induction bs) auto

text \<open>
  Every bar of a card's chart is between a fifth and the whole of the chart's height.
\<close>

lemma activity_bars_height:
  "\<forall>(d, h) \<in> set (activity_bars iso_day deploys). case h of None \<Rightarrow> True | Some x \<Rightarrow> at_least x 20 \<and> at_most x 100"
proof -
  have "case bar_height n m of None \<Rightarrow> True | Some x \<Rightarrow> at_least x 20 \<and> at_most x 100" if "n \<le> m" for n m
  proof (cases "0 < n")
    case True
    then have "at_most (JsNumber.percent (nat n) (nat m)) 100" using that by (intro percent_le) auto
    then show ?thesis using True by (simp add: bar_height_def Let_def at_least_def at_most_def)
  qed (simp add: bar_height_def)
  then show ?thesis
    by (auto simp: activity_bars_def Let_def intro: max_activity_ge)
qed

section \<open>Runs\<close>

definition octo_user :: user_info where
  "octo_user =
     \<lparr>ui_id = ''u1'', ui_username = ''octo'', ui_display_name = ''Octo'', ui_email = ''octo@dev.sdc.cpp'',
      ui_role = JAS_Developer, ui_github_username = Some ''octo'', ui_created_at = ''2026-01-01T00:00:00Z''\<rparr>"

definition sample_repo :: github_repo where
  "sample_repo =
     \<lparr>gr_id = 7, gr_full_name = ''octo/site'', gr_name = ''site'', gr_private = False, gr_default_branch = ''main'',
      gr_description = None, gr_html_url = ''https://github.com/octo/site'', gr_install_id = None\<rparr>"

text \<open>A panel opened, its repositories loaded, and one of them imported.\<close>

definition import_once :: "(dashboard_event + nat \<times> dashboard_reply) list" where
  "import_once =
     [Inl AddNew, Inl ChooseImport, Inr (1, ReposReply (Inr [sample_repo])), Inl (ImportRepo sample_repo)]"

lemmas dashboard_run = import_once_def dashboard_initial_def importer_initial_def open_import_def mount_panel_def
  github_linked_def octo_user_def truthy_opt_def truthy_def on_own_importer_def on_importer_def handle_import_def
  dashboard_offered_def dashboard_offers chooser_view_def importer_view_def found_repos_def sample_repo_def
  close_panel_def

lemma import_once_playable:
  "playable (dashboard_offered am iso_day (Some octo_user)) (dashboard_handle (Some octo_user))
     (dashboard_resume (am_parse am)) dashboard_answers import_once dashboard_start"
  by (simp add: dashboard_run)

lemma import_once_result:
  "run_script (dashboard_handle (Some octo_user)) (dashboard_resume parse) import_once dashboard_start =
     (dashboard_initial\<lparr>dh_mounts := 1,
        dh_panel := Importer (importer_initial\<lparr>im_repos := [sample_repo], im_loading := False, im_importing := Some 7\<rparr>)\<rparr>,
      [FetchProjects, CreateProject 1 sample_repo])"
  by (simp add: dashboard_run)

theorem dashboard_changes_witness:
  "\<exists>s. (dashboard_steps sample_ambient (\<lambda>i. []) (Some octo_user))\<^sup>*\<^sup>* dashboard_start
      (s, [FetchProjects, CreateProject 1 sample_repo]) \<and>
    (\<exists>p. dh_panel s = Importer p \<and> im_importing p \<noteq> None) \<and>
    from_panel 1 importing [FetchProjects, CreateProject 1 sample_repo] \<le> 1"
proof -
  let ?s = "dashboard_initial\<lparr>dh_mounts := 1,
      dh_panel := Importer (importer_initial\<lparr>im_repos := [sample_repo], im_loading := False, im_importing := Some 7\<rparr>)\<rparr>"
  have reach: "(dashboard_steps sample_ambient (\<lambda>i. []) (Some octo_user))\<^sup>*\<^sup>* dashboard_start
      (?s, [FetchProjects, CreateProject 1 sample_repo])"
    using run_script_reaches [OF import_once_playable] unfolding import_once_result .
  from dashboard_changes [OF reach] have "from_panel 1 importing [FetchProjects, CreateProject 1 sample_repo] \<le> 1" by blast
  with reach show ?thesis by (intro exI [of _ ?s]) simp
qed

text \<open>
  Closing the panel does not stop its import: opened again, it imports the same repository a second time while
  the first is under way, and the two ask for the same slug.
\<close>

lemma import_overlaps:
  "filter importing (snd (run_script (dashboard_handle (Some octo_user)) (dashboard_resume parse)
     (import_once @ [Inl CloseAdd, Inl AddNew, Inl ChooseImport, Inr (2, ReposReply (Inr [sample_repo])),
        Inl (ImportRepo sample_repo)]) dashboard_start)) =
     [CreateProject 1 sample_repo, CreateProject 2 sample_repo]"
  by (simp add: dashboard_run)

text \<open>
  When the project was created but its repository could not be connected, the panel reports a failed import; trying again asks for the same slug, which is now
  the one of the project left behind.
\<close>

lemma import_not_retried:
  assumes "dashboard_resume parse (ConnectRepo k repo pid) (ConnectedReply (Inl e)) s = (s1, cs)"
    and "dashboard_handle user (ImportRepo repo) s1 = (s2, ds)"
    and "p \<in> set ps" and "pj_slug p = pc_slug (created_project repo)"
  shows "\<exists>j. ds = [CreateProject j repo] \<and> api_conflicts ps (created_project repo)"
  using assms by (auto simp: handle_import_def api_conflicts_def Let_def)

theorem import_refused_crashes_witness:
  "\<exists>s. crashes (dashboard_view sample_ambient (\<lambda>i. []) (Some octo_user)
    (fst (dashboard_resume (am_parse sample_ambient) (CreateProject (dh_mounts s) (sample_repo\<lparr>gr_name := ''api''\<rparr>))
      (CreatedReply (Inl (ApiErr 422 (JArr [JObj []])))) s)))"
proof -
  let ?s = "dashboard_initial\<lparr>dh_panel := Importer importer_initial, dh_mounts := 1\<rparr>"
  let ?repo = "sample_repo\<lparr>gr_name := ''api''\<rparr>"
  have "\<not> api_accepts_slug (slugify (gr_name ?repo))"
    using slugify_id [of "''api''"]
    by (simp add: is_slug_def slug_char_def is_lower_def api_accepts_slug_def normalize_production_label_def
        RESERVED_PRODUCTION_LABELS_def)
  from import_refused_crashes [OF _ this, of ?s importer_initial "Inl (ApiErr 422 (JArr [JObj []]))"]
  show ?thesis
    by (intro exI [of _ ?s]) (simp add: api_creates_def validation_detail_def)
qed

theorem latest_deploy_newest_witness:
  "\<exists>s' d. dashboard_resume (\<lambda>t. Some (int (length t))) (FetchDeploys [''p1''])
      (DeploysReply [Inr \<lparr>ls_items = [sample_deploy Failed], ls_total = 1\<rparr>]) dashboard_initial = (s', []) \<and>
    map_of (dh_deploys s') ''p1'' = Some [d] \<and> d = sample_deploy Failed \<and>
    (\<exists>xs. texts (project_card sample_ambient sample_day None (dh_deploys_loading s') sample_project [d] :: dashboard_event view) =
       xs @ [''Failed'', ''-'', ''deployed '' @ ago sample_ambient (dp_created_at d), ''7d''])"
proof -
  let ?rs = "[Inr \<lparr>ls_items = [sample_deploy Failed], ls_total = 1\<rparr>]"
  obtain s' where s': "dashboard_resume (\<lambda>t. Some (int (length t))) (FetchDeploys (map pj_id [sample_project]))
      (DeploysReply ?rs) dashboard_initial = (s', [])"
    by simp
  have id: "pj_id sample_project = ''p1''" by (simp add: sample_project_def)
  have own: "map_of (dh_deploys s') ''p1'' = Some [sample_deploy Failed]"
    using s' by (auto simp: id sort_by_def truthy_def)
  from latest_deploy_newest [OF _ _ _ _ _ s' refl, of 0 sample_ambient sample_day None]
  have "\<exists>xs. texts (project_card sample_ambient sample_day None (dh_deploys_loading s') sample_project
      [sample_deploy Failed] :: dashboard_event view) =
      xs @ [fst (get_status_tone (Some (dp_status (sample_deploy Failed)))), ''-'',
        ''deployed '' @ ago sample_ambient (dp_created_at (sample_deploy Failed)), ''7d'']"
    by (simp add: id own)
  moreover have "fst (get_status_tone (Some (dp_status (sample_deploy Failed)))) = ''Failed''"
    by (simp add: get_status_tone_def sample_deploy_def)
  ultimately have "\<exists>xs. texts (project_card sample_ambient sample_day None (dh_deploys_loading s') sample_project
      [sample_deploy Failed] :: dashboard_event view) =
      xs @ [''Failed'', ''-'', ''deployed '' @ ago sample_ambient (dp_created_at (sample_deploy Failed)), ''7d'']"
    by (simp only:)
  moreover have "dashboard_resume (\<lambda>t. Some (int (length t))) (FetchDeploys [''p1'']) (DeploysReply ?rs)
      dashboard_initial = (s', [])"
    using s' by (simp only: list.map id)
  ultimately show ?thesis using own by blast
qed

lemma activity_bars_height_witness:
  "\<forall>(d, h) \<in> set (activity_bars sample_day [sample_deploy Active]).
     case h of None \<Rightarrow> True | Some x \<Rightarrow> at_least x 20 \<and> at_most x 100"
  by (rule activity_bars_height)

end
