(* ===== verification/OverviewPages.thy ===== *)
theory OverviewPages
  imports StudentsPage UsersPage JsNumber
begin

text \<open>
  The overviews for staff and faculty (\<open>web/src/app/{staff,faculty}/page.tsx\<close>) and the console of the
  administration (\<open>web/src/app/admin/page.tsx\<close>): the group of requests behind \<open>Promise.all\<close>, the interval that
  fetches again, the numbers of the charts, and the three views. The calls of one fetch are separate requests
  in flight, so that the fetches of the interval overlap.
\<close>

section \<open>Requests\<close>

datatype overview_kind = Staff_overview | Faculty_overview

definition top_students_query :: admin_params where
  "top_students_query =
     no_params\<lparr>q_limit := Some 5, q_sort := Some ''deploys'', q_order := Some ''desc''\<rparr>"

definition overview_calls :: "overview_kind \<Rightarrow> api_call list" where
  "overview_calls k =
     (case k of
        Staff_overview \<Rightarrow> [admin_stats, admin_trends 30, admin_activity 20]
      | Faculty_overview \<Rightarrow> [admin_stats, admin_trends 30, admin_activity 15, students_list top_students_query])"

text \<open>The answer to one of the calls.\<close>

datatype part =
    StatsPart admin_stats
  | TrendsPart trend_response
  | ActivityPart activity_response
  | StudentsPart student_list_response

text \<open>The \<open>i\<close>-th call of the \<open>f\<close>-th fetch.\<close>

datatype overview_cmd = Part nat nat

section \<open>Promise.all\<close>

text \<open>
  A group waits for its calls: the first rejection rejects the group, whose later answers are ignored; the last
  of the values resolves it, with the values in the order of the calls.
\<close>

type_synonym group = "part option list"

datatype settled = Waiting group | Resolved "part list" | Rejected js_exn

definition promise_all_step :: "nat \<Rightarrow> part outcome \<Rightarrow> group \<Rightarrow> settled" where
  "promise_all_step i r g =
     (case r of
        Inl e \<Rightarrow> Rejected e
      | Inr v \<Rightarrow>
          let g' = g[i := Some v]
          in if None \<in> set g' then Waiting g' else Resolved (map the g'))"

section \<open>State\<close>

record overview =
  ov_stats :: "admin_stats option"
  ov_trends :: "trend_response option"
  ov_activity :: "activity_event list"
  ov_students :: "student_summary list"
  ov_loading :: bool
  ov_error :: "string option"
  ov_groups :: "(nat \<times> group) list"    \<comment> \<open>the fetches that are not settled\<close>
  ov_fetches :: nat                     \<comment> \<open>fetches begun so far\<close>

definition overview_initial :: overview where
  "overview_initial =
     \<lparr>ov_stats = None, ov_trends = None, ov_activity = [], ov_students = [], ov_loading = True, ov_error = None,
      ov_groups = [], ov_fetches = 0\<rparr>"

section \<open>Operations\<close>

definition parts_of :: "overview_kind \<Rightarrow> nat" where
  "parts_of k = length (overview_calls k)"

definition fetch_data :: "overview_kind \<Rightarrow> overview \<Rightarrow> overview \<times> overview_cmd list" where
  "fetch_data k s =
     (s\<lparr>ov_error := None, ov_fetches := Suc (ov_fetches s),
        ov_groups := ov_groups s @ [(ov_fetches s, replicate (parts_of k) None)]\<rparr>,
      map (Part (ov_fetches s)) [0..<parts_of k])"

definition show_stats :: "part \<Rightarrow> overview \<Rightarrow> overview" where
  "show_stats p s = (case p of StatsPart x \<Rightarrow> s\<lparr>ov_stats := Some x\<rparr> | _ \<Rightarrow> s)"

definition show_trends :: "part \<Rightarrow> overview \<Rightarrow> overview" where
  "show_trends p s = (case p of TrendsPart x \<Rightarrow> s\<lparr>ov_trends := Some x\<rparr> | _ \<Rightarrow> s)"

definition show_activity :: "part \<Rightarrow> overview \<Rightarrow> overview" where
  "show_activity p s = (case p of ActivityPart x \<Rightarrow> s\<lparr>ov_activity := ls_items x\<rparr> | _ \<Rightarrow> s)"

definition show_students :: "part \<Rightarrow> overview \<Rightarrow> overview" where
  "show_students p s = (case p of StudentsPart x \<Rightarrow> s\<lparr>ov_students := ls_items x\<rparr> | _ \<Rightarrow> s)"

text \<open>The four assignments, of which the staff's page has the first three.\<close>

fun show_parts :: "part list \<Rightarrow> overview \<Rightarrow> overview" where
  "show_parts [a, b, c] s = show_activity c (show_trends b (show_stats a s))"
| "show_parts [a, b, c, d] s = show_students d (show_activity c (show_trends b (show_stats a s)))"
| "show_parts _ s = s"

definition settle :: "nat \<Rightarrow> settled \<Rightarrow> overview \<Rightarrow> overview" where
  "settle f r s =
     (let rest = filter (\<lambda>(j, g). j \<noteq> f) (ov_groups s)
      in case r of
        Waiting g \<Rightarrow> s\<lparr>ov_groups := map (\<lambda>(j, h). (j, if j = f then g else h)) (ov_groups s)\<rparr>
      | Resolved vs \<Rightarrow> (show_parts vs s)\<lparr>ov_loading := False, ov_groups := rest\<rparr>
      | Rejected e \<Rightarrow>
          s\<lparr>ov_error := Some (message_or ''Failed to load data'' e), ov_loading := False, ov_groups := rest\<rparr>)"

fun overview_resume :: "overview_cmd \<Rightarrow> part outcome \<Rightarrow> overview \<Rightarrow> overview \<times> overview_cmd list" where
  "overview_resume (Part f i) r s =
     (case map_of (ov_groups s) f of
        None \<Rightarrow> (s, [])
      | Some g \<Rightarrow> (settle f (promise_all_step i r g) s, []))"

datatype overview_event = Retry | MinutePassed

fun overview_handle :: "overview_kind \<Rightarrow> overview_event \<Rightarrow> overview \<Rightarrow> overview \<times> overview_cmd list" where
  "overview_handle k Retry s = fetch_data k s"
| "overview_handle k MinutePassed s = fetch_data k s"

definition overview_start :: "overview_kind \<Rightarrow> overview \<times> overview_cmd list" where
  "overview_start k = fetch_data k overview_initial"

section \<open>Numbers of the chart\<close>

definition max_val :: "trend_point list \<Rightarrow> int" where
  "max_val points = foldr (\<lambda>p. max (max (tp_deploys p + tp_builds p) 1)) points 1"

definition display_points :: "trend_point list \<Rightarrow> trend_point list" where
  "display_points points = drop (length points - 30) points"

definition failed_of :: "trend_point \<Rightarrow> int" where
  "failed_of p = tp_failed_deploys p + tp_failed_builds p"

text \<open>The height of a bar in percent, none for a bar that is left out.\<close>

definition bar_percent :: "int \<Rightarrow> int \<Rightarrow> double option" where
  "bar_percent highest n =
     (if 0 < n
      then let h = JsNumber.percent (nat n) (nat highest) in Some (if at_least h 2 then h else (2, 0))
      else None)"

text \<open>The bars of one day from top to bottom.\<close>

definition stacked_bars :: "int \<Rightarrow> trend_point \<Rightarrow> (string \<times> double) list" where
  "stacked_bars highest p =
     concat (map (\<lambda>(name, n). case bar_percent highest n of None \<Rightarrow> [] | Some h \<Rightarrow> [(name, h)])
       [(''failed'', failed_of p), (''builds'', tp_builds p), (''deploys'', tp_deploys p)])"

definition total_of :: "(trend_point \<Rightarrow> int) \<Rightarrow> trend_point list \<Rightarrow> int" where
  "total_of f points = sum_list (map f points)"

definition operations_of :: "trend_point \<Rightarrow> int" where
  "operations_of p = tp_deploys p + tp_builds p"

definition failure_rate :: "trend_point list \<Rightarrow> string" where
  "failure_rate points =
     (if total_of operations_of points = 0 then ''0%''
      else to_fixed 1 (JsNumber.percent (nat (total_of failed_of points)) (nat (total_of operations_of points))) @ ''%'')"

section \<open>Views\<close>

text \<open>Cards and links; a card with an address is a link.\<close>

definition linked :: "string option \<Rightarrow> 'e view \<Rightarrow> 'e view" where
  "linked href v = (if truthy_opt href then Lnk (the href) [v] else v)"

definition stat_card :: "texts_of \<Rightarrow> string \<Rightarrow> int \<Rightarrow> string option \<Rightarrow> string option \<Rightarrow> 'e view" where
  "stat_card tx label value sub href =
     linked href (El ''div'' [para label, para (tx_number tx value), given sub para])"

definition mini_card :: "string \<Rightarrow> string \<Rightarrow> string \<Rightarrow> string option \<Rightarrow> 'e view" where
  "mini_card label value sub href = linked href (El ''div'' [para label, para value, para sub])"

definition action_link :: "string \<Rightarrow> string \<Rightarrow> string \<Rightarrow> 'e view" where
  "action_link href label description = Lnk href [para label, para description]"

definition quick_link :: "string \<Rightarrow> string \<Rightarrow> string \<Rightarrow> 'e view" where
  "quick_link href title description = Lnk href [El ''h3'' [Txt title], para description]"

definition day_label :: "texts_of \<Rightarrow> trend_point \<Rightarrow> string" where
  "day_label tx p = tx_day tx (tp_date p @ ''T00:00:00'')"

definition trend_bar :: "texts_of \<Rightarrow> int \<Rightarrow> trend_point \<Rightarrow> 'e view" where
  "trend_bar tx highest p =
     El ''div''
       [El ''div''
          [para (day_label tx p),
           para (show_int (tp_deploys p) @ ''d / '' @ show_int (tp_builds p) @ ''b'' @
             (if 0 < failed_of p then '' / '' @ show_int (failed_of p) @ ''f'' else []))],
        El ''div''
          (map (\<lambda>(name, h). El (''div.'' @ name) []) (stacked_bars highest p) @
           [when_view (tp_deploys p = 0 \<and> tp_builds p = 0) (El ''div.none'' [])])]"

definition trend_total :: "string \<Rightarrow> string \<Rightarrow> 'e view" where
  "trend_total label value = El ''div'' [para label, para value]"

definition trend_chart :: "texts_of \<Rightarrow> trend_point list \<Rightarrow> 'e view" where
  "trend_chart tx points =
     El ''div''
       [El ''div'' [El ''span'' [Txt ''Deploys''], El ''span'' [Txt ''Builds''], El ''span'' [Txt ''Failed'']],
        El ''div'' (map (trend_bar tx (max_val points)) (display_points points)),
        El ''div''
          [El ''span'' [Txt (case display_points points of [] \<Rightarrow> [] | p # ps \<Rightarrow> day_label tx p)],
           El ''span'' [Txt ''Today'']],
        El ''div''
          [trend_total ''Total Deploys'' (show_int (total_of tp_deploys points)),
           trend_total ''Total Builds'' (show_int (total_of tp_builds points)),
           trend_total ''Failure Rate'' (failure_rate points)]]"

text \<open>The label of an event; an inherited name of the object literal has none.\<close>

definition activity_labels :: "(string \<times> string) list" where
  "activity_labels =
     [(''deploy'', ''Deploy''), (''build'', ''Build''), (''project.create'', ''New Project''),
      (''project.delete'', ''Deleted''), (''user.role.update'', ''Role Change'')]"

definition activity_label :: "string \<Rightarrow> 'e view" where
  "activity_label type =
     (case dict_get activity_labels type of Own l \<Rightarrow> Txt l | Missing \<Rightarrow> Txt type | _ \<Rightarrow> Frag [])"

definition activity_row :: "ambient \<Rightarrow> texts_of \<Rightarrow> activity_event \<Rightarrow> 'e view" where
  "activity_row am tx e =
     El ''div''
       [El ''span'' [activity_label (ae_type e)],
        El ''span'' [Txt (get_time_ago (am_parse am) (am_now am) (tx_day tx) (ae_timestamp e))],
        given (ae_project_name e) (\<lambda>name.
          El ''p''
            [if truthy_opt (ae_project_id e) then Lnk (''/dashboard/'' @ the (ae_project_id e)) [Txt name]
             else Txt name]),
        given (ae_actor_username e) (\<lambda>u.
          El ''span'' [Txt (if truthy_opt (ae_actor_name e) then the (ae_actor_name e) else u)]),
        given (ae_status e) (\<lambda>t. El ''span'' [Txt t])]"

definition activity_feed :: "ambient \<Rightarrow> texts_of \<Rightarrow> string \<Rightarrow> activity_event list \<Rightarrow> 'e view" where
  "activity_feed am tx all_events events =
     El ''div''
       [El ''h2'' [Txt ''Recent Activity''], Lnk all_events [Txt ''View all''],
        (if events \<noteq> [] then El ''div'' (map (activity_row am tx) events) else para ''No recent activity'')]"

definition trends_section :: "texts_of \<Rightarrow> trend_response option \<Rightarrow> 'e view" where
  "trends_section tx trends =
     El ''div''
       [El ''h2'' [Txt ''Platform Activity''], El ''span'' [Txt ''Last 30 days''],
        (case trends of None \<Rightarrow> para ''No trend data available'' | Some t \<Rightarrow> trend_chart tx (tr_points t))]"

text \<open>The row of an optional part of the page.\<close>

definition with_stats :: "admin_stats option \<Rightarrow> (admin_stats \<Rightarrow> 'e view list) \<Rightarrow> 'e view" where
  "with_stats stats f = (case stats of None \<Rightarrow> Frag [] | Some t \<Rightarrow> El ''div'' (f t))"

definition vlans_text :: "admin_stats \<Rightarrow> string" where
  "vlans_text t =
     show_int (ast_vlans_allocated t) @ '' / '' @ show_int (ast_vlans_allocated t + ast_vlans_available t)"

definition total_sub :: "admin_stats \<Rightarrow> string option" where
  "total_sub t = Some (show_int (ast_total_deploys t) @ '' total'')"

definition overview_header :: "string \<Rightarrow> string \<Rightarrow> user_info option \<Rightarrow> 'e view" where
  "overview_header title intro user =
     El ''div''
       [El ''h1'' [Txt title], El ''span'' (case user of None \<Rightarrow> [] | Some u \<Rightarrow> [Txt (role_text (ui_role u))]),
        para intro]"

definition overview_frame :: "string \<Rightarrow> (overview \<Rightarrow> overview_event view) \<Rightarrow> overview \<Rightarrow> overview_event view" where
  "overview_frame waiting body s =
     (if ov_loading s then para waiting
      else if has_error (ov_error s)
      then El ''div'' [para (the (ov_error s)), Btn False (Some Retry) [Txt ''Retry'']]
      else body s)"

definition staff_overview :: "ambient \<Rightarrow> texts_of \<Rightarrow> user_info option \<Rightarrow> overview \<Rightarrow> overview_event view" where
  "staff_overview am tx user s =
     El ''div''
       [overview_header ''Staff Overview'' ''Monitor platform activity, student projects, and deployment health'' user,
        with_stats (ov_stats s) (\<lambda>t.
          [stat_card tx ''Total Users'' (ast_total_users t) None (Some ''/staff/students''),
           stat_card tx ''Projects'' (ast_total_projects t) None (Some ''/staff/projects''),
           stat_card tx ''Active Deploys'' (ast_active_deploys t) (total_sub t) None,
           stat_card tx ''Total Builds'' (ast_total_builds t) None None]),
        trends_section tx (ov_trends s),
        with_stats (ov_stats s) (\<lambda>t.
          [mini_card ''VLANs'' (vlans_text t) ''allocated'' (Some ''/admin/vlans''),
           mini_card ''Network Policies'' (show_int (ast_total_network_policies t)) ''active rules'' None,
           mini_card ''Quotas'' (show_int (ast_total_projects t)) ''configured'' (Some ''/admin/quotas'')]),
        activity_feed am tx ''/admin/audit'' (ov_activity s),
        El ''h2'' [Txt ''Quick Navigation''],
        El ''div''
          [quick_link ''/staff/projects'' ''All Projects'' ''Browse and monitor all student projects'',
           quick_link ''/staff/students'' ''Students'' ''View student activity and deployment stats'',
           quick_link ''/staff/tags'' ''Tags'' ''Organize projects with labels'',
           quick_link ''/admin/audit'' ''Audit Log'' ''Full platform event history'']]"

definition top_student_row :: "student_summary \<Rightarrow> 'e view" where
  "top_student_row x =
     El ''tr''
       [td [Lnk (''/faculty/students/'' @ ss_id x)
              [El ''span'' [Txt (ss_display_name x)], El ''span'' [Txt (''@'' @ ss_username x)]]],
        td [Txt (show_int (ss_project_count x))], td [Txt (show_int (ss_total_deploys x))],
        td [Txt (show_int (ss_total_builds x))],
        td [El (if 0 < ss_active_deploys x then ''span.active'' else ''span'') [Txt (show_int (ss_active_deploys x))]]]"

definition top_students_table :: "student_summary list \<Rightarrow> 'e view" where
  "top_students_table xs =
     when_view (xs \<noteq> [])
       (El ''div''
         [El ''h2'' [Txt ''Most Active Students''], Lnk ''/faculty/students'' [Txt ''View all''],
          data_table [''Student'', ''Projects'', ''Deploys'', ''Builds'', ''Active''] (map top_student_row xs)])"

definition faculty_overview :: "ambient \<Rightarrow> texts_of \<Rightarrow> user_info option \<Rightarrow> overview \<Rightarrow> overview_event view" where
  "faculty_overview am tx user s =
     El ''div''
       [overview_header ''Faculty Overview''
          (''Full platform management '' @ mdash @ '' projects, users, infrastructure, and policies'') user,
        with_stats (ov_stats s) (\<lambda>t.
          [stat_card tx ''Total Users'' (ast_total_users t) None (Some ''/faculty/users''),
           stat_card tx ''Projects'' (ast_total_projects t) None (Some ''/faculty/projects''),
           stat_card tx ''Active Deploys'' (ast_active_deploys t) (total_sub t) None,
           stat_card tx ''Total Builds'' (ast_total_builds t) None None,
           stat_card tx ''Network Policies'' (ast_total_network_policies t) None (Some ''/faculty/network-policies'')]),
        trends_section tx (ov_trends s),
        with_stats (ov_stats s) (\<lambda>t.
          [mini_card ''VLANs'' (vlans_text t) ''allocated'' (Some ''/faculty/vlans''),
           mini_card ''Network Policies'' (show_int (ast_total_network_policies t)) ''active rules'' (Some ''/faculty/network-policies''),
           mini_card ''Quotas'' (show_int (ast_total_projects t)) ''configured'' (Some ''/faculty/quotas'')]),
        top_students_table (ov_students s),
        activity_feed am tx ''/faculty/audit'' (ov_activity s),
        El ''div''
          [El ''h2'' [Txt ''Quick Actions''],
           action_link ''/faculty/users'' ''Manage Users'' ''Roles, permissions, accounts'',
           action_link ''/faculty/quotas'' ''Edit Quotas'' ''CPU, RAM, disk limits'',
           action_link ''/faculty/network-policies'' ''Network Policies'' ''Firewall rules and ACLs'',
           action_link ''/faculty/vlans'' ''VLAN Management'' ''Allocate and release VLANs'',
           action_link ''/faculty/tags'' ''Manage Tags'' ''Organize projects with labels''],
        El ''h2'' [Txt ''Quick Navigation''],
        El ''div''
          [quick_link ''/faculty/projects'' ''All Projects'' ''Browse, search, and manage all student projects'',
           quick_link ''/faculty/students'' ''Students'' ''View student activity, deploy stats, and progress'',
           quick_link ''/faculty/users'' ''User Management'' ''Manage accounts and role assignments'',
           quick_link ''/faculty/audit'' ''Audit Log'' ''Full platform event history and compliance'']]"

definition overview_view ::
  "overview_kind \<Rightarrow> ambient \<Rightarrow> texts_of \<Rightarrow> user_info option \<Rightarrow> overview \<Rightarrow> overview_event view" where
  "overview_view k am tx user s =
     (case k of
        Staff_overview \<Rightarrow> overview_frame ''Loading staff dashboard...'' (staff_overview am tx user) s
      | Faculty_overview \<Rightarrow> overview_frame ''Loading faculty dashboard...'' (faculty_overview am tx user) s)"

section \<open>The console of the administration\<close>

record console =
  cs_stats :: "admin_stats option"
  cs_loading :: bool
  cs_error :: "string option"

definition console_initial :: console where
  "console_initial = \<lparr>cs_stats = None, cs_loading = True, cs_error = None\<rparr>"

definition fetch_stats :: "console \<Rightarrow> console" where
  "fetch_stats s = s\<lparr>cs_error := None\<rparr>"

fun stats_resume :: "admin_stats outcome \<Rightarrow> console \<Rightarrow> console" where
  "stats_resume (Inr t) s = s\<lparr>cs_stats := Some t, cs_loading := False\<rparr>"
| "stats_resume (Inl e) s = s\<lparr>cs_error := Some (message_or ''Failed to load admin stats'' e), cs_loading := False\<rparr>"

definition admin_stat_card :: "string \<Rightarrow> int \<Rightarrow> string option \<Rightarrow> string option \<Rightarrow> 'e view" where
  "admin_stat_card label value sub href =
     linked href (El ''div'' [para label, para (show_int value), given sub para])"

definition admin_quick_link :: "string \<Rightarrow> string \<Rightarrow> string \<Rightarrow> bool \<Rightarrow> string option \<Rightarrow> 'e view" where
  "admin_quick_link href title description available badge =
     (if \<not> available
      then El ''div'' [El ''h3'' [Txt title], para description, given badge (\<lambda>t. El ''span'' [Txt t])]
      else Lnk href [El ''h3'' [Txt title], para description])"

definition console_stats :: "user_info option \<Rightarrow> admin_stats \<Rightarrow> 'e view" where
  "console_stats user t =
     Frag
       [El ''div''
          [admin_stat_card ''Total Users'' (ast_total_users t) None (Some ''/admin/users''),
           admin_stat_card ''Projects'' (ast_total_projects t) None None,
           admin_stat_card ''Active Deploys'' (ast_active_deploys t) (total_sub t) None,
           admin_stat_card ''Total Builds'' (ast_total_builds t) None None],
        El ''h2'' [Txt ''Infrastructure''],
        El ''div''
          [admin_stat_card ''VLANs Allocated'' (ast_vlans_allocated t)
             (Some (show_int (ast_vlans_available t) @ '' available'')) (Some ''/admin/vlans''),
           admin_stat_card ''Network Policies'' (ast_total_network_policies t) None (Some ''/admin/network-policies''),
           admin_stat_card ''Quotas Configured'' (ast_total_projects t) (Some ''1 per project'') (Some ''/admin/quotas'')],
        El ''h2'' [Txt ''Quick Actions''],
        El ''div''
          [admin_quick_link ''/admin/users'' ''User Management'' ''View all users, manage roles and permissions'' True None,
           admin_quick_link ''/admin/quotas'' ''Quota Management'' ''View and adjust project resource limits'' True None,
           admin_quick_link ''/admin/network-policies'' ''Network Policies''
             ''Manage egress/ingress firewall rules per project'' (is_faculty user)
             (if \<not> is_faculty user then Some ''Faculty only'' else None),
           admin_quick_link ''/admin/vlans'' ''VLAN Management'' ''Network segmentation and VLAN allocations'' True None,
           admin_quick_link ''/admin/audit'' ''Audit Log'' ''Platform activity trail and event history'' True None]]"

definition console_view :: "user_info option \<Rightarrow> console \<Rightarrow> 'e view" where
  "console_view user s =
     (if is_developer user then denied_view
      else El ''div''
        [El ''h1'' [Txt ''Admin Console''],
         El ''p''
           [Txt (''Platform overview and management '' @ mdash @ '' ''),
            El ''span'' (case user of None \<Rightarrow> [] | Some u \<Rightarrow> [Txt (role_text (ui_role u))])],
         (if cs_loading s then para ''Loading platform stats...''
          else if has_error (cs_error s) then para (the (cs_error s))
          else case cs_stats s of None \<Rightarrow> para ''Unable to load stats.'' | Some t \<Rightarrow> console_stats user t)])"

section \<open>What the API counts\<close>

text \<open>
  The points of the trends: for every day the deploys and builds of that day, given as day and whether it
  failed, and how many of them failed (\<open>src/api/app/routers/admin.py\<close>).
\<close>

definition count_on :: "string \<Rightarrow> (string \<times> bool) list \<Rightarrow> int \<times> int" where
  "count_on day rows =
     (let found = filter (\<lambda>(d, failed). d = day) rows in (int (length found), int (length (filter snd found))))"

definition api_trend_point :: "(string \<times> bool) list \<Rightarrow> (string \<times> bool) list \<Rightarrow> string \<Rightarrow> trend_point" where
  "api_trend_point deploys builds day =
     (let (d_total, d_failed) = count_on day deploys; (b_total, b_failed) = count_on day builds
      in \<lparr>tp_date = day, tp_deploys = d_total, tp_builds = b_total, tp_failed_deploys = d_failed,
          tp_failed_builds = b_failed\<rparr>)"

definition api_trends :: "(string \<times> bool) list \<Rightarrow> (string \<times> bool) list \<Rightarrow> string list \<Rightarrow> trend_response" where
  "api_trends deploys builds days =
     \<lparr>tr_points = map (api_trend_point deploys builds) days, tr_period_days = int (length days)\<rparr>"

text \<open>What a chart can rely on: no counts below zero, and no more failures than operations.\<close>

definition sound_point :: "trend_point \<Rightarrow> bool" where
  "sound_point p =
     (0 \<le> tp_deploys p \<and> 0 \<le> tp_builds p \<and> 0 \<le> failed_of p \<and> failed_of p \<le> operations_of p)"

lemma count_on_bounds: "0 \<le> snd (count_on day rows) \<and> snd (count_on day rows) \<le> fst (count_on day rows)"
  unfolding count_on_def Let_def by (simp del: filter_filter)

lemma sound_api_point: "sound_point (api_trend_point ds bs day)"
  using count_on_bounds [of day ds] count_on_bounds [of day bs]
  by (auto simp: api_trend_point_def sound_point_def failed_of_def operations_of_def split: prod.split)

lemma sound_api_trends: "p \<in> set (tr_points (api_trends ds bs days)) \<Longrightarrow> sound_point p"
  by (auto simp: api_trends_def sound_api_point)

section \<open>The numbers of the chart are percentages\<close>

lemma max_val_ge: "p \<in> set points \<Longrightarrow> operations_of p \<le> max_val points"
  by (induction points) (auto simp: max_val_def operations_of_def)

lemma bar_percent_bounds:
  assumes "bar_percent highest n = Some h" and "n \<le> highest"
  shows "at_least h 2 \<and> at_most h 100"
proof -
  have "0 < n" using assms(1) by (simp add: bar_percent_def split: if_splits)
  with assms(2) have "at_most (JsNumber.percent (nat n) (nat highest)) 100" by (intro percent_le) auto
  with assms(1) show ?thesis
    by (auto simp: bar_percent_def Let_def at_least_def at_most_def split: if_splits)
qed

lemma stacked_bars_bounds:
  assumes "sound_point p" and "operations_of p \<le> highest" and "(name, h) \<in> set (stacked_bars highest p)"
  shows "at_least h 2 \<and> at_most h 100"
proof -
  have "\<exists>n \<in> {failed_of p, tp_builds p, tp_deploys p}. bar_percent highest n = Some h"
    using assms(3) by (auto simp: stacked_bars_def split: option.splits)
  then obtain n where "n \<in> {failed_of p, tp_builds p, tp_deploys p}" and n: "bar_percent highest n = Some h"
    by blast
  with assms(1,2) have "n \<le> highest" by (auto simp: sound_point_def operations_of_def)
  with n show ?thesis by (rule bar_percent_bounds)
qed

lemma sound_totals:
  assumes "\<forall>p \<in> set points. sound_point p"
  shows "0 \<le> total_of failed_of points \<and> total_of failed_of points \<le> total_of operations_of points"
  using assms by (induction points) (auto simp: total_of_def sound_point_def)

lemma failure_rate_bounded:
  assumes "\<forall>p \<in> set points. sound_point p"
  shows "failure_rate points = ''0%'' \<or> (\<exists>x. at_most x 100 \<and> failure_rate points = to_fixed 1 x @ ''%'')"
proof (cases "total_of operations_of points = 0")
  case False
  then have "at_most (JsNumber.percent (nat (total_of failed_of points)) (nat (total_of operations_of points))) 100"
    using sound_totals [OF assms] by (intro percent_le) auto
  with False show ?thesis unfolding failure_rate_def by (intro disjI2 exI conjI) (assumption, simp)
qed (simp add: failure_rate_def)

text \<open>
  C21: whatever deploys and builds the API counted, every bar of the chart is between 2 and 100 percent of its
  height, and the failure rate below the chart is at most 100 percent; without any operation it is 0%.
\<close>

theorem chart_bounds:
  "(\<forall>p \<in> set (display_points (tr_points (api_trends ds bs days))).
      \<forall>(name, h) \<in> set (stacked_bars (max_val (tr_points (api_trends ds bs days))) p). at_least h 2 \<and> at_most h 100) \<and>
   (failure_rate (tr_points (api_trends ds bs days)) = ''0%'' \<or>
     (\<exists>x. at_most x 100 \<and> failure_rate (tr_points (api_trends ds bs days)) = to_fixed 1 x @ ''%''))"
proof (intro conjI ballI)
  let ?points = "tr_points (api_trends ds bs days)"
  fix p b
  assume p: "p \<in> set (display_points ?points)" and b: "b \<in> set (stacked_bars (max_val ?points) p)"
  have p': "p \<in> set ?points" using p by (auto simp: display_points_def dest: in_set_dropD)
  from stacked_bars_bounds [OF sound_api_trends [OF p'] max_val_ge [OF p']] b
  show "case b of (name, h) \<Rightarrow> at_least h 2 \<and> at_most h 100" by (cases b) auto
qed (rule failure_rate_bounded, simp add: sound_api_trends)

text \<open>A day with one deploy, which failed, has two bars of the same height.\<close>

theorem chart_bounds_witness:
  "\<exists>h. stacked_bars 1 (api_trend_point [(''2026-03-01'', True)] [] ''2026-03-01'') =
      [(''failed'', h), (''deploys'', h)] \<and> at_least h 2 \<and> at_most h 100"
proof -
  let ?point = "api_trend_point [(''2026-03-01'', True)] [] ''2026-03-01''"
  have "\<exists>h. stacked_bars 1 ?point = [(''failed'', h), (''deploys'', h)]"
    by (simp add: stacked_bars_def bar_percent_def api_trend_point_def count_on_def failed_of_def Let_def)
  then obtain h where h: "stacked_bars 1 ?point = [(''failed'', h), (''deploys'', h)]" by blast
  have points: "tr_points (api_trends [(''2026-03-01'', True)] [] [''2026-03-01'']) = [?point]"
    by (simp add: api_trends_def)
  have "display_points [?point] = [?point]" and "max_val [?point] = 1"
    by (simp_all add: display_points_def max_val_def api_trend_point_def count_on_def)
  with chart_bounds [of "[(''2026-03-01'', True)]" "[]" "[''2026-03-01'']"] h
  have "at_least h 2 \<and> at_most h 100" by (simp add: points)
  with h show ?thesis by blast
qed

text \<open>
  A failed operation is counted twice in the stack: as one of its kind and once more on top, so that a day on
  which everything failed has two bars of full height.
\<close>

lemma failures_stacked_twice:
  assumes "tp_deploys p = highest" "tp_builds p = 0" "failed_of p = highest" "0 < highest"
  shows "\<exists>h. at_least h 100 \<and> stacked_bars highest p = [(''failed'', h), (''deploys'', h)]"
proof -
  have full: "at_least (JsNumber.percent (nat highest) (nat highest)) 100"
    using assms(4) by (intro percent_whole) simp
  then have "at_least (JsNumber.percent (nat highest) (nat highest)) 2"
    by (simp add: at_least_def)
  with full assms show ?thesis
    by (intro exI [of _ "JsNumber.percent (nat highest) (nat highest)"]) (simp add: stacked_bars_def bar_percent_def)
qed

section \<open>The machine of the overviews\<close>

text \<open>
  An answer is a failure, or what the API has for that call of that fetch; a minute may pass at any time, and
  the other event is on offer when its button is on screen.
\<close>

definition part_fits :: "nat \<Rightarrow> part \<Rightarrow> bool" where
  "part_fits i v =
     (case v of StatsPart x \<Rightarrow> i = 0 | TrendsPart x \<Rightarrow> i = 1 | ActivityPart x \<Rightarrow> i = 2 | StudentsPart x \<Rightarrow> i = 3)"

fun overview_answers :: "(nat \<Rightarrow> nat \<Rightarrow> part) \<Rightarrow> overview_cmd \<Rightarrow> part outcome \<Rightarrow> bool" where
  "overview_answers served (Part f i) (Inl e) = True"
| "overview_answers served (Part f i) (Inr v) = (v = served f i \<and> part_fits i v)"

definition overview_offered ::
  "overview_kind \<Rightarrow> ambient \<Rightarrow> texts_of \<Rightarrow> user_info option \<Rightarrow> overview \<Rightarrow> overview_event \<Rightarrow> bool" where
  "overview_offered k am tx user s e = (e = MinutePassed \<or> offers (overview_view k am tx user s) e)"

abbreviation overview_steps where
  "overview_steps k am tx user served \<equiv>
     wstep (overview_offered k am tx user) (overview_handle k) overview_resume (overview_answers served)"

text \<open>The four parts on screen.\<close>

definition on_screen ::
  "overview \<Rightarrow> admin_stats option \<times> trend_response option \<times> activity_event list \<times> student_summary list" where
  "on_screen s = (ov_stats s, ov_trends s, ov_activity s, ov_students s)"

text \<open>What the answers to one fetch show.\<close>

definition snapshot ::
  "overview_kind \<Rightarrow> (nat \<Rightarrow> part) \<Rightarrow>
   admin_stats option \<times> trend_response option \<times> activity_event list \<times> student_summary list" where
  "snapshot k answer = on_screen (show_parts (map answer [0..<parts_of k]) overview_initial)"

text \<open>
  A group that waits has its missing calls in flight and the answers it got; the page loads only while a
  group waits; and what is on screen comes from one fetch.
\<close>

definition group_inv :: "overview_kind \<Rightarrow> (nat \<Rightarrow> part) \<Rightarrow> nat \<Rightarrow> overview_cmd list \<Rightarrow> group \<Rightarrow> bool" where
  "group_inv k answer f fl g =
     (length g = parts_of k \<and> None \<in> set g \<and>
      (\<forall>i < parts_of k. case g ! i of None \<Rightarrow> Part f i \<in> set fl | Some v \<Rightarrow> v = answer i \<and> part_fits i v))"

definition fetches_inv :: "overview_kind \<Rightarrow> (nat \<Rightarrow> nat \<Rightarrow> part) \<Rightarrow> overview \<Rightarrow> overview_cmd list \<Rightarrow> bool" where
  "fetches_inv k served s fl =
     (distinct fl \<and> (\<forall>f i. Part f i \<in> set fl \<longrightarrow> f < ov_fetches s \<and> i < parts_of k) \<and>
      distinct (map fst (ov_groups s)) \<and>
      (\<forall>(f, g) \<in> set (ov_groups s). f < ov_fetches s \<and> group_inv k (served f) f fl g) \<and>
      (on_screen s = on_screen overview_initial \<or> (\<exists>f < ov_fetches s. on_screen s = snapshot k (served f))))"

definition overview_inv :: "overview_kind \<Rightarrow> (nat \<Rightarrow> nat \<Rightarrow> part) \<Rightarrow> overview \<Rightarrow> overview_cmd list \<Rightarrow> bool" where
  "overview_inv k served s fl = (fetches_inv k served s fl \<and> (ov_loading s \<longrightarrow> ov_groups s \<noteq> []))"

lemma parts_of_simps: "parts_of Staff_overview = 3" "parts_of Faculty_overview = 4"
  by (simp_all add: parts_of_def overview_calls_def)

lemma upt_parts: "[0..<3] = [0, 1, 2 :: nat]" "[0..<4] = [0, 1, 2, 3 :: nat]"
  by code_simp+

lemma part_fitsE:
  "part_fits 0 v \<Longrightarrow> \<exists>x. v = StatsPart x" "part_fits (Suc 0) v \<Longrightarrow> \<exists>x. v = TrendsPart x"
  "part_fits 2 v \<Longrightarrow> \<exists>x. v = ActivityPart x" "part_fits 3 v \<Longrightarrow> \<exists>x. v = StudentsPart x"
  by (cases v; simp add: part_fits_def)+

text \<open>The answers of a fetch replace everything that was on screen.\<close>

lemma show_parts_snapshot:
  assumes "\<forall>i < parts_of k. part_fits i (answer i)" and "k = Staff_overview \<Longrightarrow> ov_students s = []"
  shows "on_screen (show_parts (map answer [0..<parts_of k]) s) = snapshot k answer"
proof (cases k)
  case Staff_overview
  with assms(1) have "part_fits 0 (answer 0)" "part_fits (Suc 0) (answer (Suc 0))" "part_fits 2 (answer 2)"
    by (auto simp: parts_of_simps)
  from part_fitsE(1) [OF this(1)] part_fitsE(2) [OF this(2)] part_fitsE(3) [OF this(3)] Staff_overview assms(2)
  show ?thesis
    by (auto simp: snapshot_def on_screen_def parts_of_simps upt_parts show_stats_def show_trends_def
        show_activity_def overview_initial_def)
next
  case Faculty_overview
  with assms(1) have "part_fits 0 (answer 0)" "part_fits (Suc 0) (answer (Suc 0))" "part_fits 2 (answer 2)"
      "part_fits 3 (answer 3)"
    by (auto simp: parts_of_simps)
  from part_fitsE(1) [OF this(1)] part_fitsE(2) [OF this(2)] part_fitsE(3) [OF this(3)] part_fitsE(4) [OF this(4)]
    Faculty_overview
  show ?thesis
    by (auto simp: snapshot_def on_screen_def parts_of_simps upt_parts show_stats_def show_trends_def
        show_activity_def show_students_def overview_initial_def)
qed

lemma staff_shows_no_students: "snd (snd (snd (snapshot Staff_overview answer))) = []"
  by (auto simp: snapshot_def on_screen_def parts_of_simps upt_parts show_stats_def show_trends_def
      show_activity_def overview_initial_def split: part.split)

lemma group_inv_step:
  assumes g: "group_inv k answer f (xs @ Part f i # ys) g" and i: "i < parts_of k"
    and v: "v = answer i" "part_fits i v"
  shows "case promise_all_step i (Inr v) g of
      Waiting g' \<Rightarrow> group_inv k answer f (xs @ ys) g'
    | Resolved vs \<Rightarrow> vs = map answer [0..<parts_of k] \<and> (\<forall>j < parts_of k. part_fits j (answer j))
    | Rejected e \<Rightarrow> False"
proof -
  let ?g = "g[i := Some v]"
  have len: "length ?g = parts_of k" using g by (simp add: group_inv_def)
  have slots: "case ?g ! j of None \<Rightarrow> Part f j \<in> set (xs @ ys) | Some w \<Rightarrow> w = answer j \<and> part_fits j w"
    if "j < parts_of k" for j
  proof (cases "j = i")
    case False
    from g that have "case g ! j of None \<Rightarrow> Part f j \<in> set (xs @ Part f i # ys) | Some w \<Rightarrow> w = answer j \<and> part_fits j w"
      by (simp add: group_inv_def)
    with False show ?thesis by (auto split: option.splits)
  qed (use len i v in simp)
  show ?thesis
  proof (cases "None \<in> set ?g")
    case True
    with len slots show ?thesis by (simp add: promise_all_step_def group_inv_def Let_def)
  next
    case False
    then have some: "?g ! j = Some (answer j) \<and> part_fits j (answer j)" if "j < parts_of k" for j
      using slots [OF that] nth_mem [of j ?g] len that by (cases "?g ! j") auto
    then have "map the ?g = map answer [0..<parts_of k]"
      using len by (intro nth_equalityI) auto
    with False some show ?thesis by (simp add: promise_all_step_def Let_def)
  qed
qed

lemma group_inv_weaken:
  "group_inv k answer f (xs @ Part h i # ys) g \<Longrightarrow> f \<noteq> h \<Longrightarrow> group_inv k answer f (xs @ ys) g"
  "group_inv k answer f fl g \<Longrightarrow> group_inv k answer f (fl @ cs) g"
  by (auto simp: group_inv_def split: option.splits)

lemma overview_inv_fetch:
  assumes inv: "fetches_inv k served s fl" and h: "fetch_data k s = (s', cs)"
  shows "overview_inv k served s' (fl @ cs)"
proof -
  have s': "s' = s\<lparr>ov_error := None, ov_fetches := Suc (ov_fetches s),
        ov_groups := ov_groups s @ [(ov_fetches s, replicate (parts_of k) None)]\<rparr>"
    and cs: "cs = map (Part (ov_fetches s)) [0..<parts_of k]"
    using h by (simp_all add: fetch_data_def)
  have "distinct (fl @ cs)"
    using inv by (auto simp: fetches_inv_def cs distinct_map inj_on_def)
  moreover have "group_inv k (served (ov_fetches s)) (ov_fetches s) (fl @ cs) (replicate (parts_of k) None)"
    using parts_of_simps by (cases k) (auto simp: group_inv_def cs)
  moreover have "distinct (map fst (ov_groups s'))"
    using inv by (force simp: fetches_inv_def s')
  moreover have "on_screen s' = on_screen s" by (simp add: s' on_screen_def)
  ultimately show ?thesis
    using inv by (auto simp: overview_inv_def fetches_inv_def s' cs less_Suc_eq intro: group_inv_weaken(2))
qed

lemma overview_inv_start:
  "overview_inv k served (fst (overview_start k)) (snd (overview_start k))"
  using overview_inv_fetch [of k served overview_initial "[]"]
  by (cases "overview_start k") (simp add: overview_start_def overview_initial_def fetches_inv_def)

lemma overview_inv_handle:
  "overview_inv k served s fl \<Longrightarrow> overview_handle k e s = (s', cs) \<Longrightarrow> overview_inv k served s' (fl @ cs)"
  unfolding overview_inv_def by (cases e) (auto dest: overview_inv_fetch simp: overview_inv_def)

lemma fetches_inv_answered:
  assumes inv: "fetches_inv k served s (xs @ Part f i # ys)"
    and "ov_fetches s' = ov_fetches s" and "distinct (map fst (ov_groups s'))"
    and rest: "\<And>h g. (h, g) \<in> set (ov_groups s') \<Longrightarrow>
      h \<noteq> f \<and> (h, g) \<in> set (ov_groups s) \<or> h = f \<and> group_inv k (served f) f (xs @ ys) g"
    and shown: "on_screen s' = on_screen s \<or> on_screen s' = snapshot k (served f)"
  shows "fetches_inv k served s' (xs @ ys)"
proof -
  have f: "f < ov_fetches s" using inv by (auto simp: fetches_inv_def)
  have "h < ov_fetches s \<and> group_inv k (served h) h (xs @ ys) g" if "(h, g) \<in> set (ov_groups s')" for h g
    using rest [OF that] inv f by (auto simp: fetches_inv_def intro: group_inv_weaken(1))
  then show ?thesis
    using inv assms(2,3) shown f by (auto simp: fetches_inv_def)
qed

lemma distinct_fst_filter: "distinct (map fst xs) \<Longrightarrow> distinct (map fst (filter P xs))"
  by (induction xs) auto

lemma fetches_of_show_parts [simp]: "ov_fetches (show_parts vs s) = ov_fetches s"
  by (induction vs s rule: show_parts.induct)
     (simp_all add: show_stats_def show_trends_def show_activity_def show_students_def split: part.split)

lemma staff_students_none:
  "fetches_inv Staff_overview served s fl \<Longrightarrow> ov_students s = []"
  using staff_shows_no_students
  by (auto simp: fetches_inv_def on_screen_def overview_initial_def) (metis snd_conv)

lemma on_screen_settle [simp]:
  "on_screen (s\<lparr>ov_groups := gs\<rparr>) = on_screen s" "on_screen (s\<lparr>ov_loading := b\<rparr>) = on_screen s"
  "on_screen (s\<lparr>ov_error := e\<rparr>) = on_screen s"
  by (simp_all add: on_screen_def)

lemma overview_inv_reply:
  assumes inv: "overview_inv k served s (xs @ Part f i # ys)" and a: "overview_answers served (Part f i) r"
    and h: "overview_resume (Part f i) r s = (s', cs)"
  shows "overview_inv k served s' (xs @ ys @ cs)"
proof -
  from inv have fetches: "fetches_inv k served s (xs @ Part f i # ys)" by (simp add: overview_inv_def)
  then have i: "i < parts_of k" and dist: "distinct (map fst (ov_groups s))" by (auto simp: fetches_inv_def)
  let ?rest = "filter (\<lambda>(j, g). j \<noteq> f) (ov_groups s)"
  show ?thesis
  proof (cases "map_of (ov_groups s) f")
    case None
    then have "f \<notin> fst ` set (ov_groups s)" by (simp add: map_of_eq_None_iff)
    then have "fetches_inv k served s (xs @ ys)"
      by (intro fetches_inv_answered [OF fetches]) (use dist in \<open>auto simp: rev_image_eqI\<close>)
    with None h inv show ?thesis by (simp add: overview_inv_def)
  next
    case (Some g)
    then have "(f, g) \<in> set (ov_groups s)" by (rule map_of_SomeD)
    with fetches have g: "group_inv k (served f) f (xs @ Part f i # ys) g" by (auto simp: fetches_inv_def)
    have settled: "overview_inv k served s' (xs @ ys)"
      if "ov_groups s' = ?rest" "ov_loading s' = False" "ov_fetches s' = ov_fetches s"
        "on_screen s' = on_screen s \<or> on_screen s' = snapshot k (served f)"
    proof -
      have "fetches_inv k served s' (xs @ ys)"
        by (rule fetches_inv_answered [OF fetches that(3) _ _ that(4)])
           (use dist that(1) in \<open>auto simp: distinct_fst_filter\<close>)
      with that(2) show ?thesis by (simp add: overview_inv_def)
    qed
    show ?thesis
    proof (cases r)
      case (Inl e)
      with Some h settled show ?thesis by (simp add: promise_all_step_def settle_def Let_def) auto
    next
      case (Inr v)
      with a have v: "v = served f i" "part_fits i v" by auto
      note step = group_inv_step [OF g i v]
      show ?thesis
      proof (cases "promise_all_step i (Inr v) g")
        case (Waiting g')
        have s': "s' = s\<lparr>ov_groups := map (\<lambda>(j, h). (j, if j = f then g' else h)) (ov_groups s)\<rparr>" "cs = []"
          using Waiting Some h Inr by (auto simp: settle_def Let_def)
        have "fetches_inv k served s' (xs @ ys)"
          by (rule fetches_inv_answered [OF fetches])
             (use dist step Waiting s' in \<open>auto simp: comp_def case_prod_unfold split: if_splits\<close>)
        with inv s' show ?thesis by (simp add: overview_inv_def)
      next
        case (Resolved vs)
        with step show_parts_snapshot [of k "served f" s] fetches
        have "on_screen (show_parts vs s) = snapshot k (served f)" by (auto dest: staff_students_none)
        with Resolved Some h Inr settled show ?thesis by (simp add: settle_def Let_def) auto
      qed (use step in auto)
    qed
  qed
qed

interpretation overview_world: world_invariant "overview_offered k am tx user" "overview_handle k" overview_resume
  "overview_answers served" "overview_start k" "overview_inv k served" for k am tx user served
proof unfold_locales
  show "overview_inv k served s' (xs @ ys @ cs)"
    if "overview_inv k served s (xs @ c # ys)" "overview_answers served c r" "overview_resume c r s = (s', cs)"
    for s xs c ys r s' cs
    using that by (cases c) (auto intro: overview_inv_reply)
qed (rule overview_inv_start, rule overview_inv_handle)

text \<open>
  C19: the statistics, the trends, the activity and the students on screen always come from one and the same
  fetch, however many fetches overlap and in whatever order their answers arrive, or nothing is on screen yet; and
  when no request is in flight the page is not loading.
\<close>

theorem overview_one_fetch:
  assumes "(overview_steps k am tx user served)\<^sup>*\<^sup>* (overview_start k) (s, fl)"
  shows "(on_screen s = on_screen overview_initial \<or> (\<exists>f < ov_fetches s. on_screen s = snapshot k (served f))) \<and>
    (fl = [] \<longrightarrow> \<not> ov_loading s)"
proof -
  have inv: "overview_inv k served s fl" by (rule overview_world.reach_state_inv [OF assms])
  have "\<not> group_inv k (served f) f [] g" for f g
    by (auto simp: group_inv_def in_set_conv_nth split: option.splits)
  with inv show ?thesis
    by (cases "ov_groups s") (auto simp: overview_inv_def fetches_inv_def)
qed

text \<open>What the API has for each fetch of a run, with as many users as fetches before.\<close>

definition sample_stats :: "nat \<Rightarrow> admin_stats" where
  "sample_stats n =
     \<lparr>ast_total_users = int n, ast_total_projects = 0, ast_total_deploys = 0, ast_active_deploys = 0,
      ast_total_builds = 0, ast_vlans_allocated = 0, ast_vlans_available = 0, ast_total_network_policies = 0\<rparr>"

definition sample_served :: "nat \<Rightarrow> nat \<Rightarrow> part" where
  "sample_served f i =
     (if i = 0 then StatsPart (sample_stats f)
      else if i = 1 then TrendsPart \<lparr>tr_points = [], tr_period_days = 30\<rparr>
      else if i = 2 then ActivityPart \<lparr>ls_items = [], ls_total = 0\<rparr>
      else StudentsPart \<lparr>ls_items = [], ls_total = 0\<rparr>)"

text \<open>The second fetch overtakes the first, of which one answer has arrived.\<close>

definition late_first :: "(overview_event + nat \<times> part outcome) list" where
  "late_first =
     [Inr (0, Inr (sample_served 0 0)), Inl MinutePassed, Inr (2, Inr (sample_served 1 0)),
      Inr (2, Inr (sample_served 1 1)), Inr (2, Inr (sample_served 1 2))]"

lemmas overview_run = late_first_def overview_start_def fetch_data_def overview_initial_def parts_of_simps upt_parts
  promise_all_step_def settle_def sample_served_def part_fits_def show_stats_def show_trends_def show_activity_def
  overview_offered_def

lemma late_first_playable:
  "playable (overview_offered Staff_overview am tx user) (overview_handle Staff_overview) overview_resume
     (overview_answers sample_served) late_first (overview_start Staff_overview)"
  by (simp add: overview_run numeral_eq_Suc)

lemma late_first_result:
  "\<exists>s. run_script (overview_handle Staff_overview) overview_resume late_first (overview_start Staff_overview) =
      (s, [Part 0 1, Part 0 2]) \<and> ov_stats s = Some (sample_stats 1) \<and> ov_groups s = [(0, [Some (StatsPart (sample_stats 0)), None, None])]"
  by (simp add: overview_run numeral_eq_Suc)

theorem overview_one_fetch_witness:
  "\<exists>s. (overview_steps Staff_overview sample_ambient sample_texts None sample_served)\<^sup>*\<^sup>*
      (overview_start Staff_overview) (s, [Part 0 1, Part 0 2]) \<and>
    ov_stats s = Some (sample_stats 1) \<and>
    (\<exists>f < ov_fetches s. on_screen s = snapshot Staff_overview (sample_served f))"
proof -
  obtain s where s: "run_script (overview_handle Staff_overview) overview_resume late_first (overview_start Staff_overview) =
      (s, [Part 0 1, Part 0 2])" "ov_stats s = Some (sample_stats 1)"
    using late_first_result by blast
  have reach: "(overview_steps Staff_overview sample_ambient sample_texts None sample_served)\<^sup>*\<^sup>*
      (overview_start Staff_overview) (s, [Part 0 1, Part 0 2])"
    using run_script_reaches [OF late_first_playable] s(1) by metis
  have "on_screen s \<noteq> on_screen overview_initial"
    using s(2) by (simp add: on_screen_def overview_initial_def)
  with overview_one_fetch [OF reach] reach s(2) show ?thesis by blast
qed

section \<open>What is shown when fetches fail\<close>

text \<open>
  A fetch clears the error and does not load again: after a first fetch that failed, Retry (or the next minute)
  shows the page as if the platform had no data, until the answers arrive.
\<close>

lemma in_texts_el: "v \<in> set vs \<Longrightarrow> t \<in> set (texts v) \<Longrightarrow> t \<in> set (texts (El tag vs))"
  by auto

lemma texts_no_data:
  "''No trend data available'' \<in> set (texts (trends_section tx None))"
  "''No recent activity'' \<in> set (texts (activity_feed am tx all_events []))"
  by (simp_all add: trends_section_def activity_feed_def)

lemma retry_shows_no_data:
  assumes "ov_stats s = None" "ov_trends s = None" "ov_activity s = []" "\<not> ov_loading s"
    and "overview_handle k Retry s = (s', cs)"
  shows "''No trend data available'' \<in> set (texts (overview_view k am tx user s'))"
    and "''No recent activity'' \<in> set (texts (overview_view k am tx user s'))"
proof -
  have s': "\<not> ov_loading s'" "ov_error s' = None" "ov_trends s' = None" "ov_activity s' = []"
    using assms by (auto simp: fetch_data_def)
  then have view: "overview_view k am tx user s' =
      (case k of Staff_overview \<Rightarrow> staff_overview am tx user s' | Faculty_overview \<Rightarrow> faculty_overview am tx user s')"
    by (simp add: overview_view_def overview_frame_def has_error_def split: overview_kind.split)
  let ?has = "\<lambda>t. t \<in> set (texts (overview_view k am tx user s'))"
  show "?has ''No trend data available''"
    unfolding view staff_overview_def faculty_overview_def s'(3,4)
    by (cases k; simp only: overview_kind.case; rule in_texts_el [OF _ texts_no_data(1) [of tx]];
        simp only: list.set insert_iff simp_thms)
  show "?has ''No recent activity''"
  proof (cases k)
    case Staff_overview
    show ?thesis
      unfolding view unfolding Staff_overview overview_kind.case staff_overview_def s'(3,4)
      by (rule in_texts_el [OF _ texts_no_data(2) [of am tx "''/admin/audit''"]]) (simp only: list.set insert_iff simp_thms)
  next
    case Faculty_overview
    show ?thesis
      unfolding view unfolding Faculty_overview overview_kind.case faculty_overview_def s'(3,4)
      by (rule in_texts_el [OF _ texts_no_data(2) [of am tx "''/faculty/audit''"]]) (simp only: list.set insert_iff simp_thms)
  qed
qed

text \<open>One call of a later fetch that fails takes the whole overview off the screen.\<close>

lemma refresh_failure_hides:
  assumes "map_of (ov_groups s) f = Some g" and "truthy (message_or ''Failed to load data'' e)"
    and "overview_resume (Part f i) (Inl e) s = (s', cs)"
  shows "overview_view k am tx user s' =
    El ''div'' [para (message_or ''Failed to load data'' e), Btn False (Some Retry) [Txt ''Retry'']]"
    and "on_screen s' = on_screen s"
proof -
  have "s' = s\<lparr>ov_error := Some (message_or ''Failed to load data'' e), ov_loading := False,
      ov_groups := filter (\<lambda>(j, g). j \<noteq> f) (ov_groups s)\<rparr>"
    using assms(1,3) by (auto simp: promise_all_step_def settle_def Let_def)
  with assms(2) show "overview_view k am tx user s' =
      El ''div'' [para (message_or ''Failed to load data'' e), Btn False (Some Retry) [Txt ''Retry'']]"
    and "on_screen s' = on_screen s"
    by (simp_all add: overview_view_def overview_frame_def has_error_def split: overview_kind.split)
qed

text \<open>
  The API gives the creation and the deletion of a project without the project's name, and the row shows the
  link to a project only with its name: the rows of these events do not say which project they are about.
\<close>

definition api_audit_event ::
  "string \<Rightarrow> string \<Rightarrow> string \<Rightarrow> (string \<times> string) option \<Rightarrow> string \<Rightarrow> string option \<Rightarrow> string option \<Rightarrow> activity_event" where
  "api_audit_event i action time actor target_type target payload =
     \<lparr>ae_id = i, ae_type = action, ae_timestamp = time, ae_actor_name = map_option fst actor,
      ae_actor_username = map_option snd actor, ae_project_name = None,
      ae_project_id = (if target_type = ''project'' then target else None), ae_status = None, ae_detail = payload\<rparr>"

lemma new_project_unnamed:
  assumes "truthy name" and "truthy user"
  shows "texts (activity_row am tx (api_audit_event i ''project.create'' t (Some (name, user)) ''project'' (Some pid) d)) =
     [''New Project'', get_time_ago (am_parse am) (am_now am) (tx_day tx) t, name]"
  using assms
  by (simp add: activity_row_def api_audit_event_def activity_label_def dict_get_def activity_labels_def given_def
      truthy_opt_def)

end
