(* ===== verification/FileSystem.thy ===== *)
theory FileSystem
  imports JsObject JsNumber DateTime
begin

text \<open>
  The file system of the landing page's terminal (\<open>web/src/app/page.tsx\<close>), which lives in memory as a
  graph of mutable objects: a directory has its children in an object used as a dictionary. The model has
  an explicit store, the list of all objects ever made, in which a node is addressed by its position;
  a directory holds the addresses of its children, so that sharing and cycles are visible.
\<close>

section \<open>Nodes and the store\<close>

datatype fs_node =
    FileNode (node_content: string) (node_mtime: int) (node_mode: string)
  | DirNode (node_children: "(string \<times> nat) list") (node_mtime: int) (node_mode: string)

type_synonym store = "fs_node list"

definition HOME_DIR :: string where
  "HOME_DIR = ''/home/developer''"

definition DEFAULT_FILE_MODE :: string where
  "DEFAULT_FILE_MODE = ''-rw-r--r--''"

definition DEFAULT_DIR_MODE :: string where
  "DEFAULT_DIR_MODE = ''drwxr-xr-x''"

text \<open>\<open>Date.UTC(2024, 4, 12, 9, 30, 0)\<close>\<close>

definition BASE_TIME :: int where
  "BASE_TIME = int (days_before 2024 + (31 + 29 + 31 + 30) + 11) * 86400000 + (9 * 60 + 30) * 60000 - epoch_ms"

definition make_file :: "string \<Rightarrow> int \<Rightarrow> fs_node" where
  "make_file content mtime = FileNode content mtime DEFAULT_FILE_MODE"

definition make_dir :: "(string \<times> nat) list \<Rightarrow> int \<Rightarrow> fs_node" where
  "make_dir children mtime = DirNode children mtime DEFAULT_DIR_MODE"

definition is_dir :: "store \<Rightarrow> nat \<Rightarrow> bool" where
  "is_dir st a = (case st ! a of DirNode cs t m \<Rightarrow> True | FileNode c t m \<Rightarrow> False)"

text \<open>\<open>dir.children[name]\<close>, \<open>dir.children[name] = node\<close> and \<open>delete dir.children[name]\<close>\<close>

definition child :: "store \<Rightarrow> nat \<Rightarrow> string \<Rightarrow> nat option" where
  "child st a name = (case st ! a of DirNode cs t m \<Rightarrow> map_of cs name | FileNode c t m \<Rightarrow> None)"

definition set_child :: "nat \<Rightarrow> string \<Rightarrow> nat \<Rightarrow> store \<Rightarrow> store" where
  "set_child a name b st =
     (case st ! a of DirNode cs t m \<Rightarrow> st[a := DirNode (dict_put name b cs) t m] | FileNode c t m \<Rightarrow> st)"

definition del_child :: "nat \<Rightarrow> string \<Rightarrow> store \<Rightarrow> store" where
  "del_child a name st =
     (case st ! a of DirNode cs t m \<Rightarrow> st[a := DirNode (dict_del name cs) t m] | FileNode c t m \<Rightarrow> st)"

definition set_mtime :: "nat \<Rightarrow> int \<Rightarrow> store \<Rightarrow> store" where
  "set_mtime a now st =
     st[a := (case st ! a of FileNode c t m \<Rightarrow> FileNode c now m | DirNode cs t m \<Rightarrow> DirNode cs now m)]"

section \<open>The tree the terminal begins with\<close>

datatype fs_tree = FileTree string | DirTree "(string \<times> fs_tree) list"

abbreviation dq :: string where
  "dq \<equiv> [CHR 0x22]"

abbreviation sq :: string where
  "sq \<equiv> [CHR 0x27]"

abbreviation bq :: string where
  "bq \<equiv> [CHR 0x60]"



definition text_of_lines :: "string list \<Rightarrow> string" where
  "text_of_lines ls = join_with [CHR 0x0A] ls"

definition INITIAL_FS :: fs_tree where
  "INITIAL_FS =
     DirTree
      [(''projects'', DirTree
        [(''portfolio'', DirTree
          [(''index.html'', FileTree (text_of_lines
             [''<!DOCTYPE html>'',
              ''<html lang='' @ dq @ ''en'' @ dq @ ''>'',
              ''<head>'',
              ''  <meta charset='' @ dq @ ''UTF-8'' @ dq @ '' />'',
              ''  <title>My Portfolio</title>'',
              ''  <link rel='' @ dq @ ''stylesheet'' @ dq @ '' href='' @ dq @ ''style.css'' @ dq @ '' />'',
              ''</head>'',
              ''<body>'',
              ''  <div id='' @ dq @ ''app'' @ dq @ ''></div>'',
              ''  <script src='' @ dq @ ''src/app.js'' @ dq @ ''></script>'',
              ''</body>'',
              ''</html>''])),
           (''style.css'', FileTree (text_of_lines
             [''* { margin: 0; padding: 0; box-sizing: border-box; }'',
              ''body { font-family: system-ui, sans-serif; background: #0a0a0a; color: #fafafa; }'',
              ''#app { max-width: 960px; margin: 0 auto; padding: 2rem; }'',
              ''h1 { font-size: 2.5rem; margin-bottom: 1rem; }'',
              ''.projects { display: grid; grid-template-columns: repeat(auto-fit, minmax(280px, 1fr)); gap: 1.5rem; }''])),
           (''package.json'', FileTree (text_of_lines
             [''{'',
              ''  '' @ dq @ ''name'' @ dq @ '': '' @ dq @ ''portfolio'' @ dq @ '','',
              ''  '' @ dq @ ''version'' @ dq @ '': '' @ dq @ ''1.0.0'' @ dq @ '','',
              ''  '' @ dq @ ''scripts'' @ dq @ '': {'',
              ''    '' @ dq @ ''dev'' @ dq @ '': '' @ dq @ ''vite'' @ dq @ '','',
              ''    '' @ dq @ ''build'' @ dq @ '': '' @ dq @ ''vite build'' @ dq @ '','',
              ''    '' @ dq @ ''preview'' @ dq @ '': '' @ dq @ ''vite preview'' @ dq,
              ''  },'',
              ''  '' @ dq @ ''dependencies'' @ dq @ '': {'',
              ''    '' @ dq @ ''vite'' @ dq @ '': '' @ dq @ ''^5.0.0'' @ dq,
              ''  }'',
              ''}''])),
           (''README.md'', FileTree (text_of_lines
             [''# Portfolio'',
              [],
              ''My personal portfolio site, deployed with tbd.'',
              [],
              ''## Quick Start'',
              bq @ bq @ bq,
              ''npm install'',
              ''npm run dev'',
              bq @ bq @ bq,
              [],
              ''## Deploy'',
              ''Push to '' @ bq @ ''main'' @ bq @ '' '' @ mdash @ '' tbd handles the rest.'',
              ''Live at https://portfolio.dev.sdc.cpp''])),
           (''src'', DirTree
            [(''app.js'', FileTree (text_of_lines
               [''import { initRouter } from '' @ sq @ ''./utils.js'' @ sq @ '';'',
                [],
                ''const app = document.getElementById('' @ sq @ ''app'' @ sq @ '');'',
                ''app.innerHTML = '' @ sq @ ''<h1>Welcome</h1><p>Portfolio coming soon.</p>'' @ sq @ '';'',
                ''initRouter();''])),
             (''utils.js'', FileTree (text_of_lines
               [''export function initRouter() {'',
                ''  window.addEventListener('' @ sq @ ''popstate'' @ sq @ '', () => {'',
                ''    console.log('' @ sq @ ''route changed:'' @ sq @ '', location.pathname);'',
                ''  });'',
                ''}'',
                [],
                ''export function formatDate(d) {'',
                ''  return new Intl.DateTimeFormat('' @ sq @ ''en-US'' @ sq @ '').format(new Date(d));'',
                ''}'']))]),
           (''public'', DirTree
            [(''favicon.ico'', FileTree ''[binary file]''),
             (''logo.png'', FileTree ''[binary file]'')])]),
         (''api'', DirTree
          [(''README.md'', FileTree (text_of_lines
             [''# API Service'',
              [],
              ''Small JSON API for the portfolio.''])),
           (''package.json'', FileTree (text_of_lines
             [''{'',
              ''  '' @ dq @ ''name'' @ dq @ '': '' @ dq @ ''portfolio-api'' @ dq @ '','',
              ''  '' @ dq @ ''version'' @ dq @ '': '' @ dq @ ''0.1.0'' @ dq @ '','',
              ''  '' @ dq @ ''scripts'' @ dq @ '': {'',
              ''    '' @ dq @ ''dev'' @ dq @ '': '' @ dq @ ''node src/server.js'' @ dq,
              ''  }'',
              ''}''])),
           (''src'', DirTree
            [(''server.js'', FileTree (text_of_lines
               [''const http = require('' @ sq @ ''http'' @ sq @ '');'',
                [],
                ''http.createServer((req, res) => {'',
                ''  res.writeHead(200, { '' @ sq @ ''Content-Type'' @ sq @ '': '' @ sq @ ''application/json'' @ sq @ '' });'',
                ''  res.end(JSON.stringify({ status: '' @ sq @ ''ok'' @ sq @ '' }));'',
                ''}).listen(8080);'']))])])]),
       (''notes'', DirTree
        [(''todo.txt'', FileTree (text_of_lines
           [''- landing page refresh'',
            ''- add docs'',
            ''- ship''])),
         (''ideas.md'', FileTree (text_of_lines
           [''# Ideas'',
            [],
            ''- Bento landing'',
            ''- Build pipeline view'']))]),
       (''bin'', DirTree
        [(''deploy'', FileTree (text_of_lines
           [''#!/usr/bin/env bash'',
            ''echo '' @ dq @ ''deploying...'' @ dq]))]),
       (''.ssh'', DirTree
        [(''config'', FileTree (text_of_lines
           [''Host github.com'',
            ''  User git'',
            ''  IdentityFile ~/.ssh/id_ed25519''])),
         (''known_hosts'', FileTree ''github.com ssh-ed25519 AAAAC3NzaC1lZDI1NTE5AAAA...'')]),
       (''.bashrc'', FileTree (text_of_lines
         [''export PATH='' @ dq @ ''$HOME/bin:$PATH'' @ dq,
          ''alias ll='' @ sq @ ''ls -la'' @ sq,
          []])),
       (''.gitconfig'', FileTree (text_of_lines
         [''[user]'',
          ''  name = Developer'',
          ''  email = dev@example.com'',
          []]))]"

fun place :: "fs_tree \<Rightarrow> store \<Rightarrow> store \<times> nat"
  and place_all :: "(string \<times> fs_tree) list \<Rightarrow> store \<Rightarrow> store \<times> (string \<times> nat) list" where
  "place (FileTree c) st = (st @ [make_file c BASE_TIME], length st)"
| "place (DirTree ts) st = (let (st', cs) = place_all ts st in (st' @ [make_dir cs BASE_TIME], length st'))"
| "place_all [] st = (st, [])"
| "place_all ((k, t) # ts) st =
     (let (st', a) = place t st; (st'', cs) = place_all ts st' in (st'', (k, a) # cs))"

section \<open>Copies\<close>

text \<open>
  \<open>cloneNode\<close> makes new nodes for everything below a node. The recursion has a bound here, one step for
  each node of the store, which is enough when there are no cycles; below a cycle the code recurses until
  the stack overflows, and the model has no result.
\<close>

function (sequential) clone_node :: "nat \<Rightarrow> store \<Rightarrow> nat \<Rightarrow> (store \<times> nat) option"
  and clone_children :: "nat \<Rightarrow> store \<Rightarrow> (string \<times> nat) list \<Rightarrow> (store \<times> (string \<times> nat) list) option" where
  "clone_node 0 st a = None"
| "clone_node (Suc n) st a =
     (case st ! a of
        FileNode c t m \<Rightarrow> Some (st @ [FileNode c t m], length st)
      | DirNode cs t m \<Rightarrow>
          (case clone_children n st (object_entries cs) of
             None \<Rightarrow> None
           | Some (st', cs') \<Rightarrow> Some (st' @ [DirNode cs' t m], length st')))"
| "clone_children n st [] = Some (st, [])"
| "clone_children n st ((k, a) # cs) =
     (case clone_node n st a of
        None \<Rightarrow> None
      | Some (st', b) \<Rightarrow>
          (case clone_children n st' cs of None \<Rightarrow> None | Some (st'', cs') \<Rightarrow> Some (st'', (k, b) # cs')))"
  by pat_completeness auto
termination
  by (relation "measures [\<lambda>x. case x of Inl (n, _) \<Rightarrow> n | Inr (n, _) \<Rightarrow> n,
      \<lambda>x. case x of Inl _ \<Rightarrow> 0 | Inr (_, _, cs) \<Rightarrow> Suc (length cs)]") auto

text \<open>\<open>cloneNode(INITIAL_FS)\<close>, with which the terminal begins: the store, and its home directory.\<close>

definition initial_store :: "store \<times> nat" where
  "initial_store =
     (let (st, a) = place INITIAL_FS []
      in case clone_node (length st) st a of None \<Rightarrow> (st, a) | Some r \<Rightarrow> r)"

section \<open>Paths\<close>

definition split_path :: "string \<Rightarrow> string list" where
  "split_path path = filter (\<lambda>p. p \<noteq> []) (split_on (CHR ''/'') path)"

fun resolve_step :: "string list \<Rightarrow> string \<Rightarrow> string list" where
  "resolve_step r p =
     (if p = ''.'' then r
      else if p = ''..'' then (if 1 < length r then butlast r else r)
      else if p = ''~'' then [''~''] else r @ [p])"

definition path_parts :: "string \<Rightarrow> string \<Rightarrow> string list" where
  "path_parts cwd target =
     (if starts_with target ''~/'' then ''~'' # split_path (drop 2 target)
      else if starts_with target ''/'' then ''~'' # split_path (drop 1 target)
      else split_path cwd @ split_path target)"

text \<open>The result is never null, so that the callers' answers to null are never given.\<close>

definition resolve_path :: "string \<Rightarrow> string \<Rightarrow> string" where
  "resolve_path cwd target =
     (if target = [] \<or> target = ''~'' \<or> target = ''/'' then ''~''
      else let r = foldl resolve_step [] (path_parts cwd target)
           in if r = [] then ''~'' else join_with ''/'' (if hd r \<noteq> ''~'' then ''~'' # r else r))"

text \<open>The node that a list of names leads to.\<close>

fun descend :: "store \<Rightarrow> nat \<Rightarrow> string list \<Rightarrow> nat option" where
  "descend st a [] = Some a"
| "descend st a (p # ps) = (case child st a p of None \<Rightarrow> None | Some b \<Rightarrow> descend st b ps)"

definition get_node :: "store \<Rightarrow> nat \<Rightarrow> string \<Rightarrow> nat option" where
  "get_node st root path =
     (case split_path path of [] \<Rightarrow> None | p # ps \<Rightarrow> if p \<noteq> ''~'' then None else descend st root ps)"

definition get_parent :: "store \<Rightarrow> nat \<Rightarrow> string \<Rightarrow> nat option \<times> string" where
  "get_parent st root path =
     (let parts = split_path path
      in if parts = [] then (None, [])
         else let name = last parts;
                  parent_path = (if butlast parts \<noteq> [] then join_with ''/'' (butlast parts) else ''~'')
              in case get_node st root parent_path of
                   None \<Rightarrow> (None, name)
                 | Some a \<Rightarrow> (if is_dir st a then Some a else None, name))"

text \<open>Directories come first, then the order of the names; \<open>collate a b\<close> is \<open>a.localeCompare(b) <= 0\<close>.\<close>

definition entry_before :: "(string \<Rightarrow> string \<Rightarrow> bool) \<Rightarrow> store \<Rightarrow> string \<times> nat \<Rightarrow> string \<times> nat \<Rightarrow> bool" where
  "entry_before collate st a b =
     (if is_dir st (snd a) \<noteq> is_dir st (snd b) then is_dir st (snd a) else collate (fst a) (fst b))"

definition list_entries ::
  "(string \<Rightarrow> string \<Rightarrow> bool) \<Rightarrow> store \<Rightarrow> nat \<Rightarrow> bool \<Rightarrow> (string \<times> nat) list" where
  "list_entries collate st dir show_hidden =
     sort_by (entry_before collate st)
       (filter (\<lambda>e. if show_hidden then True else \<not> starts_with (fst e) ''.'')
          (object_entries (node_children (st ! dir))))"

definition to_absolute :: "string \<Rightarrow> string" where
  "to_absolute path = replace_text ''~'' HOME_DIR path"

section \<open>Sizes, dates and names\<close>

text \<open>How often the loop of \<open>formatSize\<close> divides by 1024; the quotient is a double without rounding.\<close>

function size_unit :: "nat \<Rightarrow> nat \<Rightarrow> nat" where
  "size_unit bytes i = (if 1024 * 1024 ^ i \<le> bytes \<and> i < 3 then size_unit bytes (Suc i) else i)"
  by pat_completeness auto
termination
  by (relation "measure (\<lambda>(bytes, i). 3 - i)") auto

declare size_unit.simps [simp del]

definition format_size :: "nat \<Rightarrow> bool \<Rightarrow> string" where
  "format_size bytes human =
     (if \<not> human then show_nat bytes
      else let i = size_unit bytes 0
           in to_fixed (if 10 * 1024 ^ i \<le> bytes \<or> i = 0 then 0 else 1) (bytes, 10 * i) @
              [''BKMG'' ! i])"

definition month_texts :: "string list" where
  "month_texts =
     [''Jan'', ''Feb'', ''Mar'', ''Apr'', ''May'', ''Jun'', ''Jul'', ''Aug'', ''Sep'', ''Oct'', ''Nov'', ''Dec'']"

text \<open>\<open>local ts\<close> is the local time of a time, both in milliseconds since the epoch.\<close>

definition format_date_short :: "(int \<Rightarrow> int) \<Rightarrow> int \<Rightarrow> string" where
  "format_date_short local ts =
     (let t = nat (local ts + epoch_ms) div 60000; day = snd (civil_year (t div 1440));
          (m, d) = month_of 0 (month_lengths (fst (civil_year (t div 1440)))) day;
          r = t mod 1440
      in month_texts ! m @ '' '' @ pad_start 2 (show_nat (Suc d)) @ '' '' @ pad 2 (r div 60) @ '':'' @
         pad 2 (r mod 60))"

text \<open>\<open>/^[A-Za-z_][A-Za-z0-9_]*$/.test(name)\<close>\<close>

definition word_char :: "char \<Rightarrow> bool" where
  "word_char c = (is_alnum c \<or> c = CHR ''_'')"

definition is_valid_var_name :: "string \<Rightarrow> bool" where
  "is_valid_var_name name =
     (case name of [] \<Rightarrow> False | c # cs \<Rightarrow> (word_char c \<and> \<not> is_digit c) \<and> list_all word_char cs)"

text \<open>
  \<open>matchPattern\<close> makes a regular expression out of a pattern in three replacements: the special characters
  are escaped, a star becomes \<open>.*\<close>, and a question mark a point (but it has been escaped before).
\<close>

definition escaped_in_pattern :: "char \<Rightarrow> bool" where
  "escaped_in_pattern c = (c \<in> set ''-/^$+?.()|[]{}'' \<or> c = CHR 0x5C)"

definition pattern_source :: "string \<Rightarrow> string" where
  "pattern_source pattern =
     (let escaped = concat (map (\<lambda>c. if escaped_in_pattern c then [CHR 0x5C, c] else [c]) pattern);
          starred = concat (map (\<lambda>c. if c = CHR ''*'' then ''.*'' else [c]) escaped)
      in map (\<lambda>c. if c = CHR ''?'' then CHR ''.'' else c) starred)"

text \<open>
  The regular expressions that can arise, between \<open>^\<close> and \<open>$\<close>: a backslash makes the next character a
  literal, \<open>.*\<close> is any text without a line terminator.
\<close>

definition line_end :: "char \<Rightarrow> bool" where
  "line_end c = (code_of c = 10 \<or> code_of c = 13)"

fun regex_matches :: "string \<Rightarrow> string \<Rightarrow> bool" where
  "regex_matches [] s = (s = [])"
| "regex_matches (r # rs) s =
     (if r = CHR 0x5C \<and> rs \<noteq> [] then (case s of [] \<Rightarrow> False | c # cs \<Rightarrow> c = hd rs \<and> regex_matches (tl rs) cs)
      else if r = CHR ''.'' \<and> starts_with rs ''*'' then
        regex_matches (tl rs) s \<or> (case s of [] \<Rightarrow> False | c # cs \<Rightarrow> \<not> line_end c \<and> regex_matches (r # rs) cs)
      else (case s of [] \<Rightarrow> False | c # cs \<Rightarrow> c = r \<and> regex_matches rs cs))"

definition match_pattern :: "string \<Rightarrow> string \<Rightarrow> bool" where
  "match_pattern input pattern = regex_matches (pattern_source pattern) input"

section \<open>Walking and changing the tree\<close>

text \<open>\<open>walkTree\<close> with a callback that collects, with the bound of \<open>clone_node\<close>.\<close>

function (sequential) walk_tree :: "nat \<Rightarrow> store \<Rightarrow> nat \<Rightarrow> string \<Rightarrow> (string \<times> nat) list option"
  and walk_children :: "nat \<Rightarrow> store \<Rightarrow> (string \<times> nat) list \<Rightarrow> string \<Rightarrow> (string \<times> nat) list option" where
  "walk_tree 0 st a base = None"
| "walk_tree (Suc n) st a base =
     (case st ! a of
        FileNode c t m \<Rightarrow> Some [(base, a)]
      | DirNode cs t m \<Rightarrow> map_option (Cons (base, a)) (walk_children n st (object_entries cs) base))"
| "walk_children n st [] base = Some []"
| "walk_children n st ((k, b) # cs) base =
     (case walk_tree n st b (base @ ''/'' @ k) of
        None \<Rightarrow> None
      | Some xs \<Rightarrow> map_option ((@) xs) (walk_children n st cs base))"
  by pat_completeness auto
termination
  by (relation "measures [\<lambda>x. case x of Inl (n, _) \<Rightarrow> n | Inr (n, _) \<Rightarrow> n,
      \<lambda>x. case x of Inl _ \<Rightarrow> 0 | Inr (_, _, cs, _) \<Rightarrow> Suc (length cs)]") auto

text \<open>Every operation returns the new store and, unless it succeeded, its message.\<close>

definition no_such_file :: string where
  "no_such_file = ''No such file or directory''"

definition quoted :: "string \<Rightarrow> string" where
  "quoted s = CHR 0x27 # s @ [CHR 0x27]"

definition write_file ::
  "nat \<Rightarrow> int \<Rightarrow> string \<Rightarrow> string \<Rightarrow> bool \<Rightarrow> store \<Rightarrow> store \<times> string option" where
  "write_file root now path content adding st =
     (case get_parent st root path of
        (None, name) \<Rightarrow> (st, Some (''cannot create '' @ quoted path @ '': '' @ no_such_file))
      | (Some parent, name) \<Rightarrow>
          (case child st parent name of
             Some a \<Rightarrow>
               (case st ! a of
                  DirNode cs t m \<Rightarrow> (st, Some (''cannot overwrite '' @ quoted name @ '': Is a directory''))
                | FileNode c t m \<Rightarrow> (st[a := FileNode (if adding then c @ content else content) now m], None))
           | None \<Rightarrow> (set_child parent name (length st) (st @ [make_file content now]), None)))"

fun make_dirs :: "string \<Rightarrow> bool \<Rightarrow> int \<Rightarrow> nat \<Rightarrow> string list \<Rightarrow> store \<Rightarrow> store \<times> string option" where
  "make_dirs path recursive now a [] st = (st, None)"
| "make_dirs path recursive now a (p # ps) st =
     (case child st a p of
        None \<Rightarrow>
          if \<not> recursive \<and> ps \<noteq> [] then (st, Some (''cannot create directory '' @ quoted path @ '': '' @ no_such_file))
          else make_dirs path recursive now (length st) ps (set_child a p (length st) (st @ [make_dir [] now]))
      | Some b \<Rightarrow>
          if \<not> is_dir st b then (st, Some (''cannot create directory '' @ quoted path @ '': Not a directory''))
          else make_dirs path recursive now b ps st)"

definition make_dir_at :: "nat \<Rightarrow> int \<Rightarrow> string \<Rightarrow> bool \<Rightarrow> store \<Rightarrow> store \<times> string option" where
  "make_dir_at root now path recursive st =
     (case split_path path of
        [] \<Rightarrow> (st, Some ''invalid path'')
      | p # ps \<Rightarrow> if p \<noteq> ''~'' then (st, Some ''invalid path'') else make_dirs path recursive now root ps st)"

definition remove_node :: "nat \<Rightarrow> string \<Rightarrow> bool \<Rightarrow> store \<Rightarrow> store \<times> string option" where
  "remove_node root path recursive st =
     (let missing = (st, Some (''cannot remove '' @ quoted path @ '': '' @ no_such_file))
      in case get_parent st root path of
           (None, name) \<Rightarrow> missing
         | (Some parent, name) \<Rightarrow>
             (case child st parent name of
                None \<Rightarrow> missing
              | Some a \<Rightarrow>
                  if is_dir st a \<and> \<not> recursive
                  then (st, Some (''cannot remove '' @ quoted path @ '': Is a directory''))
                  else (del_child parent name st, None)))"

text \<open>\<open>path.split("/").pop() || name\<close>\<close>

definition base_name :: "string \<Rightarrow> string \<Rightarrow> string" where
  "base_name path name = (let b = last (split_on (CHR ''/'') path) in if b = [] then name else b)"

text \<open>How a copy ends: without a message, with one, or not, because the stack overflows.\<close>

datatype copy_outcome = Copied | Refused_copy string | Overflow

text \<open>
  A copy into a directory first makes the directory its own parent's child, under the last name of its
  path. The copy does not return when the node is part of a cycle.
\<close>

definition copy_node ::
  "nat \<Rightarrow> string \<Rightarrow> string \<Rightarrow> bool \<Rightarrow> store \<Rightarrow> store \<times> copy_outcome" where
  "copy_node root src dest recursive st =
     (case get_node st root src of
        None \<Rightarrow> (st, Refused_copy (''cannot stat '' @ quoted src @ '': '' @ no_such_file))
      | Some s \<Rightarrow>
          if is_dir st s \<and> \<not> recursive then (st, Refused_copy (''omitting directory '' @ quoted src))
          else
            (case get_parent st root dest of
               (None, name) \<Rightarrow> (st, Refused_copy (''cannot create '' @ quoted dest @ '': '' @ no_such_file))
             | (Some parent, name) \<Rightarrow>
                 let into = (case get_node st root dest of
                       None \<Rightarrow> None | Some d \<Rightarrow> if is_dir st d then Some d else None);
                     st1 = (case into of None \<Rightarrow> st | Some d \<Rightarrow> set_child parent name d st);
                     target = (case into of None \<Rightarrow> parent | Some d \<Rightarrow> d);
                     target_name = (case into of None \<Rightarrow> name | Some d \<Rightarrow> base_name src name)
                 in (case clone_node (length st1) st1 s of
                       None \<Rightarrow> (st1, Overflow)
                     | Some (st2, b) \<Rightarrow> (set_child target target_name b st2, Copied))))"

definition move_node :: "nat \<Rightarrow> string \<Rightarrow> string \<Rightarrow> store \<Rightarrow> store \<times> string option" where
  "move_node root src dest st =
     (case get_node st root src of
        None \<Rightarrow> (st, Some (''cannot stat '' @ quoted src @ '': '' @ no_such_file))
      | Some s \<Rightarrow>
          (case get_parent st root src of
             (None, name) \<Rightarrow> (st, Some (''cannot move '' @ quoted src @ '': '' @ no_such_file))
           | (Some parent, name) \<Rightarrow>
               let into = (case get_node st root dest of
                     None \<Rightarrow> None | Some d \<Rightarrow> if is_dir st d then Some d else None);
                   dest_parent = (case into of None \<Rightarrow> fst (get_parent st root dest) | Some d \<Rightarrow> Some d)
               in (case dest_parent of
                     None \<Rightarrow> (st, Some (''cannot move '' @ quoted dest @ '': '' @ no_such_file))
                   | Some target \<Rightarrow>
                       let dest_name = (case into of None \<Rightarrow> base_name dest name | Some d \<Rightarrow> name)
                       in (del_child parent name (set_child target dest_name s st), None))))"

end
