(* ===== verification/FileSystemSpec.thy ===== *)
theory FileSystemSpec
  imports FileSystem "HOL-Library.Sublist"
begin

text \<open>
  What the operations of \<open>FileSystem\<close> do, seen from outside: a file system is a map from lists of names to
  entries, and each operation on the store refines a change of this map, as long as every node is the
  child of one directory only (\<open>sound\<close>), which all operations keep but for those on the home directory
  itself.
\<close>

section \<open>The abstract file system\<close>

datatype entry = FileEntry string | DirEntry

definition node_entry :: "fs_node \<Rightarrow> entry" where
  "node_entry n = (case n of FileNode c t m \<Rightarrow> FileEntry c | DirNode cs t m \<Rightarrow> DirEntry)"

type_synonym fs_map = "string list \<Rightarrow> entry option"

definition view_from :: "store \<Rightarrow> nat \<Rightarrow> fs_map" where
  "view_from st a ps = map_option (\<lambda>b. node_entry (st ! b)) (descend st a ps)"

section \<open>Sound stores\<close>

fun kids :: "fs_node \<Rightarrow> (string \<times> nat) list" where
  "kids (FileNode c t m) = []"
| "kids (DirNode cs t m) = cs"

text \<open>No address points out of the store, and no name is twice in a directory.\<close>

definition closed :: "store \<Rightarrow> bool" where
  "closed st = (\<forall>n \<in> set st. is_dict (kids n) \<and> (\<forall>e \<in> set (kids n). snd e < length st))"

text \<open>One path only leads to a node.\<close>

definition unshared :: "store \<Rightarrow> nat \<Rightarrow> bool" where
  "unshared st a = (\<forall>ps qs b. descend st a ps = Some b \<longrightarrow> descend st a qs = Some b \<longrightarrow> ps = qs)"

definition sound :: "store \<Rightarrow> nat \<Rightarrow> bool" where
  "sound st root = (closed st \<and> root < length st \<and> is_dir st root \<and> unshared st root)"

lemma child_kids: "child st a k = map_of (kids (st ! a)) k"
  by (simp add: child_def split: fs_node.split)

lemma closedD: "closed st \<Longrightarrow> a < length st \<Longrightarrow> is_dict (kids (st ! a))"
  "closed st \<Longrightarrow> a < length st \<Longrightarrow> e \<in> set (kids (st ! a)) \<Longrightarrow> snd e < length st"
  by (auto simp: closed_def)

lemma closed_child: "closed st \<Longrightarrow> a < length st \<Longrightarrow> child st a k = Some b \<Longrightarrow> b < length st"
  using closedD(2) [of st a "(k, b)"] by (auto simp: child_kids dest: map_of_SomeD)

lemma descend_append:
  "descend st a (ps @ qs) = (case descend st a ps of None \<Rightarrow> None | Some b \<Rightarrow> descend st b qs)"
  by (induction st a ps rule: descend.induct) (simp_all split: option.split)

lemma descend_closed: "closed st \<Longrightarrow> a < length st \<Longrightarrow> descend st a ps = Some b \<Longrightarrow> b < length st"
  by (induction st a ps rule: descend.induct) (auto split: option.splits dest: closed_child)

lemma child_dir: "child st a k = Some b \<Longrightarrow> is_dir st a"
  by (simp add: child_def is_dir_def split: fs_node.splits)

lemma descend_cong:
  assumes "\<And>ps b k. descend st a ps = Some b \<Longrightarrow> child st' b k = child st b k"
  shows "descend st' a qs = descend st a qs"
proof (induction qs rule: rev_induct)
  case (snoc k qs)
  then show ?case using assms [of qs] by (auto simp: descend_append split: option.split)
qed simp

lemma descend_extend:
  assumes "closed st" and "a < length st"
  shows "descend (st @ ext) a ps = descend st a ps"
proof (rule descend_cong)
  show "child (st @ ext) b k = child st b k" if "descend st a ps = Some b" for ps b k
    using descend_closed [OF assms that] by (simp add: child_kids nth_append)
qed

section \<open>Fresh trees\<close>

text \<open>What a copy, or the placing of a tree, adds: a tree of new nodes only.\<close>

definition fresh_below :: "nat \<Rightarrow> store \<Rightarrow> (string \<times> nat) list \<Rightarrow> bool" where
  "fresh_below lo st es =
     ((\<forall>e \<in> set es. snd e < length st \<and> (\<forall>ps b. descend st (snd e) ps = Some b \<longrightarrow> lo \<le> b)) \<and>
      (\<forall>e \<in> set es. \<forall>e' \<in> set es. \<forall>ps qs b. descend st (snd e) ps = Some b \<longrightarrow>
         descend st (snd e') qs = Some b \<longrightarrow> e = e' \<and> ps = qs))"

definition grown :: "store \<Rightarrow> store \<Rightarrow> (string \<times> nat) list \<Rightarrow> bool" where
  "grown st st' es = ((\<exists>ext. st' = st @ ext) \<and> (closed st \<longrightarrow> closed st' \<and> fresh_below (length st) st' es))"

lemma closed_append: "closed st \<Longrightarrow> is_dict (kids n) \<Longrightarrow> \<forall>e \<in> set (kids n). snd e < length st \<Longrightarrow> closed (st @ [n])"
  by (fastforce simp: closed_def)

lemma fresh_below_extend:
  assumes "closed st" and "fresh_below lo st es"
  shows "fresh_below lo (st @ ext) es"
  using assms by (auto simp: fresh_below_def descend_extend)

lemma grown_Nil: "grown st st []"
  by (simp add: grown_def fresh_below_def)

lemma grown_node:
  assumes kids: "grown st st' (kids n)" and dict: "is_dict (kids n)"
  shows "grown st (st' @ [n]) [(k, length st')]"
  unfolding grown_def
proof (intro conjI impI)
  from kids show "\<exists>ext. st' @ [n] = st @ ext" by (auto simp: grown_def)
  assume "closed st"
  with kids have st': "closed st'" "fresh_below (length st) st' (kids n)" "length st \<le> length st'"
    by (auto simp: grown_def)
  with dict show closed: "closed (st' @ [n])"
    by (intro closed_append) (auto simp: fresh_below_def)
  from st' have below: "fresh_below (length st) (st' @ [n]) (kids n)" by (intro fresh_below_extend)
  have down: "ps = [] \<and> b = length st' \<or> (\<exists>q qs e. ps = q # qs \<and> (q, e) \<in> set (kids n) \<and>
      descend (st' @ [n]) e qs = Some b \<and> b < length st')"
    if "descend (st' @ [n]) (length st') ps = Some b" for ps b
  proof (cases ps)
    case (Cons q qs)
    with that obtain e where e: "map_of (kids n) q = Some e" "descend (st' @ [n]) e qs = Some b"
      by (auto simp: child_kids split: option.splits)
    then have "(q, e) \<in> set (kids n)" by (simp add: map_of_SomeD)
    moreover from this st'(2) have "e < length st'" by (auto simp: fresh_below_def)
    with e(2) st'(1) have "b < length st'" by (auto simp: descend_extend dest: descend_closed)
    ultimately show ?thesis using Cons e(2) by blast
  qed (use that in auto)
  have once: "e = e' \<and> ps = qs"
    if "e \<in> set (kids n)" "e' \<in> set (kids n)" "descend (st' @ [n]) (snd e) ps = Some b"
      "descend (st' @ [n]) (snd e') qs = Some b" for e e' ps qs b
    using below that unfolding fresh_below_def by blast
  have low: "length st \<le> b" if "descend (st' @ [n]) (length st') ps = Some b" for ps b
    using down [OF that] below st'(3) by (fastforce simp: fresh_below_def)
  have path: "ps = qs"
    if "descend (st' @ [n]) (length st') ps = Some b" "descend (st' @ [n]) (length st') qs = Some b" for ps qs b
    using down [OF that(1)] down [OF that(2)]
  proof (elim disjE conjE exE)
    fix p ps' e q qs' e'
    assume "ps = p # ps'" "(p, e) \<in> set (kids n)" "descend (st' @ [n]) e ps' = Some b"
      "qs = q # qs'" "(q, e') \<in> set (kids n)" "descend (st' @ [n]) e' qs' = Some b"
    then show "ps = qs" using once [of "(p, e)" "(q, e')" ps' b qs'] by simp
  qed simp_all
  show "fresh_below (length st) (st' @ [n]) [(k, length st')]"
    using low path by (simp add: fresh_below_def)
qed

lemma grown_Cons:
  assumes head: "grown st st1 [(k', b)]" and tail: "grown st1 st2 es" and new: "k \<notin> fst ` set es"
  shows "grown st st2 ((k, b) # es)"
  unfolding grown_def
proof (intro conjI impI)
  from head tail show "\<exists>ext. st2 = st @ ext" by (auto simp: grown_def)
  assume "closed st"
  with head have st1: "closed st1" "fresh_below (length st) st1 [(k', b)]" "length st \<le> length st1"
    by (auto simp: grown_def)
  with tail obtain ext where st2: "closed st2" "fresh_below (length st1) st2 es" "st2 = st1 @ ext"
    by (auto simp: grown_def)
  then show "closed st2" by simp
  have b: "b < length st1" using st1(2) by (simp add: fresh_below_def)
  have low: "x < length st1 \<and> length st \<le> x" if "descend st2 b ps = Some x" for ps x
    using that st1 b unfolding st2(3) by (auto simp: descend_extend fresh_below_def dest: descend_closed)
  have once: "ps = qs" if "descend st2 b ps = Some x" "descend st2 b qs = Some x" for ps qs x
    using that st1 b unfolding st2(3) by (auto simp: descend_extend fresh_below_def)
  have high: "length st1 \<le> x" if "e \<in> set es" "descend st2 (snd e) ps = Some x" for e ps x
    using that st2(2) by (simp add: fresh_below_def)
  have apart: "e = e' \<and> ps = qs"
    if "e \<in> set es" "e' \<in> set es" "descend st2 (snd e) ps = Some x" "descend st2 (snd e') qs = Some x"
    for e e' ps qs x
    using that st2(2) by (simp add: fresh_below_def)
  have in_range: "\<forall>e \<in> set es. snd e < length st2" using st2(2) by (simp add: fresh_below_def)
  show "fresh_below (length st) st2 ((k, b) # es)"
    unfolding fresh_below_def
  proof (intro conjI ballI allI impI)
    fix e assume e: "e \<in> set ((k, b) # es)"
    then show "snd e < length st2" using in_range b st2(3) by auto
    show "length st \<le> x" if "descend st2 (snd e) ps = Some x" for ps x
      using e that low high [of e ps x] st1(3) by fastforce
    fix e' ps qs x
    assume e': "e' \<in> set ((k, b) # es)" and x: "descend st2 (snd e) ps = Some x" "descend st2 (snd e') qs = Some x"
    consider "e = (k, b)" "e' = (k, b)" | "e = (k, b)" "e' \<in> set es" | "e \<in> set es" "e' = (k, b)"
      | "e \<in> set es" "e' \<in> set es"
      using e e' by auto
    then have "e = e' \<and> ps = qs"
    proof cases
      case 1 then show ?thesis using x once by simp
    next
      case 2 then show ?thesis using x low [of ps x] high [of e' qs x] by simp
    next
      case 3 then show ?thesis using x low [of qs x] high [of e ps x] by simp
    next
      case 4 then show ?thesis using x apart by blast
    qed
    then show "e = e'" and "ps = qs" by simp_all
  qed
qed

lemma grownD:
  assumes "grown st st' es" and "closed st"
  shows "closed st'" and "fresh_below (length st) st' es" and "length st \<le> length st'"
    and "\<exists>ext. st' = st @ ext"
  using assms by (auto simp: grown_def)

lemma view_extend:
  assumes "closed st" and "a < length st"
  shows "view_from (st @ ext) a ps = view_from st a ps"
  using descend_extend [OF assms, of ext ps] descend_closed [OF assms, of ps]
  by (cases "descend st a ps") (auto simp: view_from_def nth_append)

lemma view_grown:
  assumes "grown st st' es" and "closed st" and "a < length st"
  shows "view_from st' a ps = view_from st a ps"
  using grownD(4) [OF assms(1,2)] view_extend [OF assms(2,3)] by auto

lemma grown_bound: "grown st st' es \<Longrightarrow> closed st \<Longrightarrow> e \<in> set es \<Longrightarrow> snd e < length st'"
  using grownD(2) by (auto simp: fresh_below_def)

text \<open>The trees placed are those of distinct names.\<close>

fun tree_ok :: "fs_tree \<Rightarrow> bool" where
  "tree_ok (FileTree c) = True"
| "tree_ok (DirTree ts) = (distinct (map fst ts) \<and> (\<forall>t \<in> set ts. tree_ok (snd t)))"

lemma place_grown:
  "tree_ok t \<Longrightarrow> place t st = (st', a) \<Longrightarrow> grown st st' [(k, a)]"
  "\<forall>t \<in> set ts. tree_ok (snd t) \<Longrightarrow> distinct (map fst ts) \<Longrightarrow> place_all ts st = (st', cs) \<Longrightarrow>
     grown st st' cs \<and> map fst cs = map fst ts"
proof (induction t st and ts st arbitrary: st' a k and st' cs rule: place_place_all.induct)
  case (1 c st)
  have "grown st (st @ [make_file c BASE_TIME]) [(k, length st)]"
    by (rule grown_node) (simp_all add: make_file_def grown_Nil)
  with 1 show ?case by simp
next
  case (2 ts st)
  obtain st1 cs where p: "place_all ts st = (st1, cs)" by fastforce
  with 2 have "grown st st1 cs" "map fst cs = map fst ts" by auto
  then have "grown st (st1 @ [make_dir cs BASE_TIME]) [(k, length st1)]"
    using 2 by (intro grown_node) (simp_all add: make_dir_def is_dict_def)
  with 2 p show ?case by simp
next
  case (4 k t ts st)
  obtain st1 b where p: "place t st = (st1, b)" by fastforce
  obtain st2 cs2 where q: "place_all ts st1 = (st2, cs2)" by fastforce
  have eq: "st' = st2" "cs = (k, b) # cs2" using 4(5) p q by simp_all
  have ok: "tree_ok t" "\<forall>t \<in> set ts. tree_ok (snd t)" "k \<notin> fst ` set ts" "distinct (map fst ts)"
    using 4(3,4) by simp_all
  have head: "grown st st1 [(k, b)]" by (rule 4(1) [OF ok(1) p])
  have tail: "grown st1 st2 cs2" "map fst cs2 = map fst ts"
    using 4(2) [OF p [symmetric] refl ok(2,4) q] by simp_all
  have "k \<notin> fst ` set cs2" using ok(3) tail(2) by (metis list.set_map)
  with head tail show ?case unfolding eq by (simp add: grown_Cons)
qed (simp_all add: grown_Nil)

lemma map_of_list_all2:
  assumes "map fst xs = map fst ys" and "list_all2 (\<lambda>e e'. P (snd e) (snd e')) xs ys"
  shows "case map_of xs k of None \<Rightarrow> map_of ys k = None | Some a \<Rightarrow> \<exists>b. map_of ys k = Some b \<and> P a b"
  using assms(2,1) by (induction rule: list_all2_induct) (auto split: option.splits)

lemma view_from_Cons:
  "view_from st a (p # ps) = (case child st a p of None \<Rightarrow> None | Some b \<Rightarrow> view_from st b ps)"
  by (simp add: view_from_def split: option.split)

lemma view_from_Nil [simp]: "view_from st a [] = Some (node_entry (st ! a))"
  by (simp add: view_from_def)

lemma clone_spec:
  "clone_node n st a = Some (st', b) \<Longrightarrow> closed st \<Longrightarrow> a < length st \<Longrightarrow>
     grown st st' [(k, b)] \<and> (\<forall>ps. view_from st' b ps = view_from st a ps)"
  "clone_children n st cs = Some (st', cs') \<Longrightarrow> closed st \<Longrightarrow> \<forall>e \<in> set cs. snd e < length st \<Longrightarrow>
     distinct (map fst cs) \<Longrightarrow> grown st st' cs' \<and> map fst cs' = map fst cs \<and>
       list_all2 (\<lambda>e e'. \<forall>ps. view_from st' (snd e') ps = view_from st (snd e) ps) cs cs'"
proof (induction n st a and n st cs arbitrary: st' b k and st' cs' rule: clone_node_clone_children.induct)
  case (2 n st a)
  show ?case
  proof (cases "st ! a")
    case (FileNode c t m)
    have "grown st (st @ [FileNode c t m]) [(k, length st)]"
      by (rule grown_node) (simp_all add: grown_Nil)
    moreover have "view_from (st @ [FileNode c t m]) (length st) ps = view_from st a ps" for ps
      using FileNode by (cases ps) (simp_all add: view_from_def child_kids)
    ultimately show ?thesis using 2 FileNode by simp
  next
    case (DirNode cs t m)
    with 2 obtain st1 cs' where c: "clone_children n st (object_entries cs) = Some (st1, cs')"
      and r: "st' = st1 @ [DirNode cs' t m]" "b = length st1"
      by (auto split: option.splits prod.splits)
    have cs: "is_dict cs" "\<forall>e \<in> set cs. snd e < length st"
      using closedD [OF 2(3,4)] DirNode by simp_all
    then have g: "grown st st1 cs'" "map fst cs' = map fst (object_entries cs)"
      "list_all2 (\<lambda>e e'. \<forall>ps. view_from st1 (snd e') ps = view_from st (snd e) ps) (object_entries cs) cs'"
      using 2(1) [OF DirNode c 2(3)] by simp_all
    have keys: "is_dict cs'" using g(2) cs(1) by (metis distinct_object_entries is_dict_def)
    with g(1) have "grown st (st1 @ [DirNode cs' t m]) [(k, length st1)]"
      by (intro grown_node) simp_all
    moreover have "view_from (st1 @ [DirNode cs' t m]) (length st1) ps = view_from st a ps" for ps
    proof (cases ps)
      case Nil
      then show ?thesis by (simp add: DirNode node_entry_def)
    next
      case (Cons p qs)
      have "case map_of cs p of None \<Rightarrow> map_of cs' p = None
          | Some x \<Rightarrow> \<exists>y. map_of cs' p = Some y \<and> (\<forall>ps. view_from st1 y ps = view_from st x ps)"
        using map_of_list_all2 [OF g(2) [symmetric] g(3), of p] by (simp add: map_of_object_entries [OF cs(1)])
      then show ?thesis
      proof (cases "map_of cs p")
        case (Some x)
        with \<open>case map_of cs p of None \<Rightarrow> _ | Some x \<Rightarrow> _ x\<close>
        obtain y where y: "map_of cs' p = Some y" "\<forall>ps. view_from st1 y ps = view_from st x ps" by auto
        from y(1) have "y < length st1"
          using grown_bound [OF g(1) 2(3), of "(p, y)"] by (simp add: map_of_SomeD)
        then have "view_from (st1 @ [DirNode cs' t m]) y qs = view_from st1 y qs"
          by (rule view_extend [OF grownD(1) [OF g(1) 2(3)]])
        with Some y Cons DirNode show ?thesis by (simp add: view_from_Cons child_kids)
      qed (simp add: Cons view_from_Cons child_kids DirNode)
    qed
    ultimately show ?thesis using r by simp
  qed
next
  case (4 n st k a cs)
  from 4(3) obtain st1 b st2 cs2 where c: "clone_node n st a = Some (st1, b)"
    "clone_children n st1 cs = Some (st2, cs2)" and eq: "st' = st2" "cs' = (k, b) # cs2"
    by (auto split: option.splits)
  have head: "grown st st1 [(k, b)]" "\<And>ps. view_from st1 b ps = view_from st a ps"
    using 4(1) [OF c(1) 4(4), of k] 4(5) by simp_all
  have st1: "closed st1" "length st \<le> length st1" using grownD [OF head(1) 4(4)] by simp_all
  have "\<forall>e \<in> set cs. snd e < length st1" using 4(5) st1(2) by fastforce
  with 4(2) [OF c(1) refl c(2) st1(1)] 4(6)
  have tail: "grown st1 st2 cs2" "map fst cs2 = map fst cs"
    "list_all2 (\<lambda>e e'. \<forall>ps. view_from st2 (snd e') ps = view_from st1 (snd e) ps) cs cs2"
    by simp_all
  have "k \<notin> fst ` set cs2" using 4(6) tail(2) by (metis distinct.simps(2) list.set_map list.simps(9) fst_conv)
  with head(1) tail(1) have "grown st st2 ((k, b) # cs2)" by (rule grown_Cons)
  moreover have "list_all2 (\<lambda>e e'. \<forall>ps. view_from st2 (snd e') ps = view_from st (snd e) ps) cs cs2"
    using tail(3)
  proof (rule list.rel_mono_strong)
    fix e e'
    assume "e \<in> set cs" and "\<forall>ps. view_from st2 (snd e') ps = view_from st1 (snd e) ps"
    then show "\<forall>ps. view_from st2 (snd e') ps = view_from st (snd e) ps"
      using view_grown [OF head(1) 4(4), of "snd e"] 4(5) by simp
  qed
  moreover have "view_from st2 b ps = view_from st a ps" for ps
    using view_grown [OF tail(1) st1(1), of b ps] grown_bound [OF head(1) 4(4), of "(k, b)"] head(2) by simp
  ultimately show ?case using eq tail(2) by simp
qed (simp_all add: grown_Nil)

text \<open>Without sharing a path is shorter than the store, so that the bound of a copy is enough.\<close>

lemma unshared_depth:
  assumes "closed st" and "a < length st" and "unshared st a" and "descend st a ps = Some b"
  shows "length ps < length st"
proof -
  let ?f = "\<lambda>i. descend st a (take i ps)"
  have defined: "\<exists>x. ?f i = Some x \<and> x < length st" for i
  proof -
    have "descend st a (take i ps @ drop i ps) = Some b" using assms(4) by simp
    then obtain x where "?f i = Some x" by (auto simp only: descend_append split: option.splits)
    then show ?thesis using descend_closed [OF assms(1,2)] by blast
  qed
  have "inj_on ?f {..length ps}"
  proof (rule inj_onI)
    fix i j assume i: "i \<in> {..length ps}" "j \<in> {..length ps}" and "?f i = ?f j"
    then have "take i ps = take j ps" using defined [of i] assms(3) unfolding unshared_def by metis
    then have "length (take i ps) = length (take j ps)" by simp
    then show "i = j" using i by simp
  qed
  then have "card (?f ` {..length ps}) = Suc (length ps)" by (simp add: card_image)
  moreover have "?f ` {..length ps} \<subseteq> Some ` {..<length st}" using defined by fastforce
  then have "card (?f ` {..length ps}) \<le> card (Some ` {..<length st})" by (intro card_mono) simp_all
  moreover have "card (Some ` {..<length st}) = length st" by (simp add: card_image)
  ultimately show ?thesis by simp
qed

lemma clone_stuck:
  "clone_node n st a = None \<Longrightarrow> closed st0 \<Longrightarrow> closed st \<Longrightarrow> \<exists>ext. st = st0 @ ext \<Longrightarrow> a < length st0 \<Longrightarrow>
     \<exists>ps. length ps = n \<and> descend st0 a ps \<noteq> None"
  "clone_children n st cs = None \<Longrightarrow> closed st0 \<Longrightarrow> closed st \<Longrightarrow> \<exists>ext. st = st0 @ ext \<Longrightarrow>
     \<forall>e \<in> set cs. snd e < length st0 \<Longrightarrow>
     \<exists>e \<in> set cs. \<exists>ps. length ps = n \<and> descend st0 (snd e) ps \<noteq> None"
proof (induction n st a and n st cs rule: clone_node_clone_children.induct)
  case (2 n st a)
  then have same: "st ! a = st0 ! a" by (auto simp: nth_append)
  from 2(2) obtain cs t m where d: "st ! a = DirNode cs t m" and "clone_children n st (object_entries cs) = None"
    by (auto split: fs_node.splits option.splits)
  moreover have d0: "st0 ! a = DirNode cs t m" using d unfolding same .
  moreover have cs: "is_dict cs" "\<forall>e \<in> set cs. snd e < length st0"
    using closedD [OF 2(3,6)] by (simp_all add: d0)
  ultimately obtain e ps where e: "e \<in> set cs" "length ps = n" "descend st0 (snd e) ps \<noteq> None"
    using 2(1) [OF d _ 2(3-5)] by auto
  then have "child st0 a (fst e) = Some (snd e)"
    using cs(1) by (simp add: child_kids d0 is_dict_def)
  with e show ?case by (intro exI [of _ "fst e # ps"]) simp
next
  case (4 n st k a cs)
  show ?case
  proof (cases "clone_node n st a")
    case None
    with 4(1) [OF None 4(4-6)] 4(7) show ?thesis by auto
  next
    case (Some r)
    then obtain st1 b where r: "clone_node n st a = Some (st1, b)" by (cases r) auto
    have "a < length st" using 4(6,7) by auto
    then have g: "grown st st1 [(k, b)]" using clone_spec(1) [OF r 4(5)] by blast
    moreover have "clone_children n st1 cs = None" using 4(3) r by (auto split: option.splits)
    moreover have "\<exists>ext. st1 = st0 @ ext" using grownD(4) [OF g 4(5)] 4(6) by auto
    ultimately have "\<exists>e \<in> set cs. \<exists>ps. length ps = n \<and> descend st0 (snd e) ps \<noteq> None"
      using 4(2) [OF r refl _ 4(4) grownD(1) [OF g 4(5)]] 4(7) by simp
    then show ?thesis by auto
  qed
qed (simp_all add: exI [of _ "[]"])

lemma clone_total:
  assumes "closed st" and "a < length st" and "unshared st a"
  obtains st' b where "clone_node (length st) st a = Some (st', b)"
proof (cases "clone_node (length st) st a")
  case None
  then obtain ps where "length ps = length st" "descend st a ps \<noteq> None"
    using clone_stuck(1) [OF None assms(1,1) _ assms(2)] by auto
  with unshared_depth [OF assms] show ?thesis by fastforce
qed auto

section \<open>Paths\<close>

lemma split_on_pieces: "w \<in> set (split_on c s) \<Longrightarrow> c \<notin> set w"
  by (induction c s arbitrary: w rule: split_on.induct) (auto split: list.splits if_splits)

lemma split_path_parts: "w \<in> set (split_path s) \<Longrightarrow> w \<noteq> [] \<and> CHR ''/'' \<notin> set w"
  using split_on_pieces by (auto simp: split_path_def)

lemma split_path_join:
  assumes "\<forall>w \<in> set ws. w \<noteq> [] \<and> CHR ''/'' \<notin> set w"
  shows "split_path (join_with ''/'' ws) = ws"
proof (cases "ws = []")
  case False
  with assms have "split_on (CHR ''/'') (join_with ''/'' ws) = ws" by (intro split_on_join) auto
  moreover have "filter (\<lambda>p. p \<noteq> []) ws = ws" using assms by (simp add: filter_id_conv)
  ultimately show ?thesis by (simp add: split_path_def)
qed (simp add: split_path_def)

text \<open>The texts of the paths that \<open>resolve_path\<close> gives.\<close>

definition proper :: "string list \<Rightarrow> bool" where
  "proper ps = (\<forall>p \<in> set ps. p \<noteq> [] \<and> CHR ''/'' \<notin> set p)"

definition path_of :: "string list \<Rightarrow> string" where
  "path_of ps = join_with ''/'' (''~'' # ps)"

lemma proper_home: "proper ps \<Longrightarrow> proper (''~'' # ps)"
  by (auto simp: proper_def)

lemma split_path_of [simp]:
  assumes "proper ps"
  shows "split_path (path_of ps) = ''~'' # ps"
  unfolding path_of_def by (rule split_path_join [OF proper_home [OF assms, unfolded proper_def]])

lemma base_name_path_of:
  assumes "proper ps"
  shows "base_name (path_of ps) name = last (''~'' # ps)"
proof -
  have "split_on (CHR ''/'') (path_of ps) = ''~'' # ps"
    unfolding path_of_def by (rule split_on_join) (use proper_home [OF assms] in \<open>auto simp: proper_def\<close>)
  moreover have "last (''~'' # ps) \<noteq> []"
    using proper_home [OF assms] last_in_set [of "''~'' # ps"] unfolding proper_def by blast
  ultimately show ?thesis by (simp add: base_name_def)
qed

lemma get_node_at: "split_path path = ''~'' # ps \<Longrightarrow> get_node st root path = descend st root ps"
  by (simp add: get_node_def)

lemma get_parent_at:
  assumes path: "split_path path = ''~'' # ps" and "ps \<noteq> []"
  shows "get_parent st root path =
    ((case descend st root (butlast ps) of None \<Rightarrow> None | Some a \<Rightarrow> if is_dir st a then Some a else None), last ps)"
proof -
  have "split_path (join_with ''/'' (butlast (split_path path))) = butlast (split_path path)"
    by (rule split_path_join) (auto dest: in_set_butlastD split_path_parts)
  then have "get_node st root (join_with ''/'' (''~'' # butlast ps)) = descend st root (butlast ps)"
    using assms by (simp add: get_node_at)
  then show ?thesis using assms by (simp add: get_parent_def split: option.split)
qed

section \<open>Links\<close>

lemma child_set_child:
  assumes "a < length st" and "is_dir st a"
  shows "child (set_child a name b st) x k = (if x = a \<and> k = name then Some b else child st x k)"
  using assms by (auto simp: set_child_def is_dir_def child_kids nth_list_update split: fs_node.splits)

lemma child_del_child:
  assumes "a < length st"
  shows "child (del_child a name st) x k = (if x = a \<and> k = name then None else child st x k)"
  using assms by (auto simp: del_child_def child_kids nth_list_update split: fs_node.splits)

lemma node_entry_update: "node_entry n = node_entry (st ! a) \<Longrightarrow> node_entry (st[a := n] ! x) = node_entry (st ! x)"
  by (cases "x = a"; cases "a < length st") (auto simp: list_update_beyond)

lemma node_entry_simps [simp]:
  "node_entry (FileNode c t m) = FileEntry c" "node_entry (DirNode cs t m) = DirEntry"
  by (simp_all add: node_entry_def)

lemma length_link [simp]: "length (set_child a name b st) = length st" "length (del_child a name st) = length st"
  by (cases "st ! a"; simp add: set_child_def del_child_def)+

lemma entry_link [simp]:
  "node_entry (set_child a name b st ! x) = node_entry (st ! x)"
  "node_entry (del_child a name st ! x) = node_entry (st ! x)"
proof -
  show "node_entry (set_child a name b st ! x) = node_entry (st ! x)"
    by (cases "st ! a") (simp_all add: set_child_def node_entry_update)
  show "node_entry (del_child a name st ! x) = node_entry (st ! x)"
    by (cases "st ! a") (simp_all add: del_child_def node_entry_update)
qed

lemma is_dir_entry: "is_dir st a = (node_entry (st ! a) = DirEntry)"
  by (simp add: is_dir_def node_entry_def split: fs_node.split)

lemma link_is_dir [simp]:
  "is_dir (set_child a name b st) x = is_dir st x" "is_dir (del_child a name st) x = is_dir st x"
  by (simp_all add: is_dir_entry)

lemma closed_update:
  assumes "closed st" and "a < length st \<Longrightarrow> is_dict (kids n) \<and> (\<forall>e \<in> set (kids n). snd e < length st)"
  shows "closed (st[a := n])"
  unfolding closed_def
proof
  fix m
  assume "m \<in> set (st[a := n])"
  then have "m \<in> set st \<or> m = n \<and> a < length st"
    using set_update_subset_insert [of st a n] by (cases "a < length st") (auto simp: list_update_beyond)
  then show "is_dict (kids m) \<and> (\<forall>e \<in> set (kids m). snd e < length (st[a := n]))"
    using assms by (auto simp: closed_def)
qed

lemma closed_set_child:
  assumes "closed st" and "b < length st"
  shows "closed (set_child a name b st)"
proof (cases "st ! a")
  case (DirNode cs t m)
  have "is_dict (dict_put name b cs) \<and> (\<forall>e \<in> set (dict_put name b cs). snd e < length st)" if "a < length st"
    using closedD [OF assms(1) that] assms(2) set_dict_put [of name b cs] by (fastforce simp: DirNode)
  then show ?thesis using closed_update [OF assms(1)] by (simp add: set_child_def DirNode)
qed (simp add: set_child_def assms)

lemma closed_del_child:
  assumes "closed st"
  shows "closed (del_child a name st)"
proof (cases "st ! a")
  case (DirNode cs t m)
  have "is_dict (dict_del name cs) \<and> (\<forall>e \<in> set (dict_del name cs). snd e < length st)" if "a < length st"
    using closedD [OF assms that] set_dict_del [of name cs] by (fastforce simp: DirNode)
  then show ?thesis using closed_update [OF assms] by (simp add: del_child_def DirNode)
qed (simp add: del_child_def assms)

lemma descend_link:
  assumes "unshared st root" and "descend st root pp = Some d" and "d < length st" and "is_dir st d"
  shows "\<not> prefix (pp @ [name]) qs \<Longrightarrow> descend (set_child d name b st) root qs = descend st root qs"
    and "descend (set_child d name b st) root (pp @ name # rs) = descend (set_child d name b st) b rs"
proof -
  show other: "descend (set_child d name b st) root qs = descend st root qs"
    if "\<not> prefix (pp @ [name]) qs" for qs
    using that
  proof (induction qs rule: rev_induct)
    case (snoc k qs)
    then have IH: "descend (set_child d name b st) root qs = descend st root qs"
      by (meson prefix_prefix)
    show ?case
    proof (cases "descend st root qs")
      case (Some x)
      have "\<not> (x = d \<and> k = name)"
        using Some assms(1,2) snoc(2) unfolding unshared_def by (metis prefix_order.refl)
      with Some IH show ?thesis
        by (auto simp: descend_append child_set_child [OF assms(3,4)] split: option.split)
    qed (simp add: descend_append IH)
  qed simp
  have "descend (set_child d name b st) root pp = Some d"
    using other [of pp] assms(2) by (simp add: prefix_def)
  then show "descend (set_child d name b st) root (pp @ name # rs) = descend (set_child d name b st) b rs"
    by (simp add: descend_append child_set_child [OF assms(3,4)])
qed

lemma descend_avoid:
  assumes "\<And>rs. descend st b rs \<noteq> Some d" and "d < length st" and "is_dir st d"
  shows "descend (set_child d name x st) b rs = descend st b rs"
  by (rule descend_cong) (use assms in \<open>auto simp: child_set_child\<close>)

lemma view_same:
  assumes "descend st' a ps = descend st a ps" and "\<And>x. node_entry (st' ! x) = node_entry (st ! x)"
  shows "view_from st' a ps = view_from st a ps"
  using assms by (simp add: view_from_def)

section \<open>Grafting and moving\<close>

lemma soundD:
  assumes "sound st root"
  shows "closed st" and "root < length st" and "is_dir st root" and "unshared st root"
  using assms by (simp_all add: sound_def)

lemma unshared_below:
  assumes "unshared st root" and "descend st root ps = Some a"
  shows "unshared st a"
  unfolding unshared_def
proof (intro allI impI)
  fix qs rs b
  assume "descend st a qs = Some b" and "descend st a rs = Some b"
  then have "descend st root (ps @ qs) = Some b" and "descend st root (ps @ rs) = Some b"
    using assms(2) by (simp_all add: descend_append)
  with assms(1) have "ps @ qs = ps @ rs" unfolding unshared_def by blast
  then show "qs = rs" by simp
qed

text \<open>A fresh tree becomes the child of a directory.\<close>

lemma sound_graft:
  assumes sound: "sound st root" and d: "descend st root pp = Some d" "is_dir st d"
    and grown: "grown st st1 [(k, b)]"
  shows "sound (set_child d name b st1) root"
    and "view_from (set_child d name b st1) root qs =
      (if prefix (pp @ [name]) qs then view_from st1 b (drop (Suc (length pp)) qs) else view_from st root qs)"
proof -
  note closed = soundD(1) [OF sound] and root = soundD(2) [OF sound]
  from grown closed obtain ext where st1: "closed st1" "st1 = st @ ext" "fresh_below (length st) st1 [(k, b)]"
    using grownD by blast
  let ?st2 = "set_child d name b st1"
  have below: "descend st1 root ps = descend st root ps" for ps
    unfolding st1(2) by (rule descend_extend [OF closed root])
  have old: "x < length st" if "descend st root ps = Some x" for ps x
    using that closed root by (blast dest: descend_closed)
  have d1: "d < length st1" "is_dir st1 d" "descend st1 root pp = Some d"
    using old [OF d(1)] d below by (simp_all add: st1(2) is_dir_def nth_append)
  have new: "length st \<le> x" if "descend st1 b rs = Some x" for rs x
    using that st1(3) by (simp add: fresh_below_def)
  have shared1: "unshared st1 root" using soundD(4) [OF sound] below by (simp add: unshared_def)
  note link = descend_link [OF shared1 d1(3,1,2), of name]
  have fresh: "descend ?st2 b rs = descend st1 b rs" for rs
    using new old [OF d(1)] d1(1,2) by (intro descend_avoid) (meson leD)+
  have desc: "descend ?st2 root qs =
      (if prefix (pp @ [name]) qs then descend st1 b (drop (Suc (length pp)) qs) else descend st root qs)" for qs
  proof (cases "prefix (pp @ [name]) qs")
    case True
    then obtain rs where "qs = pp @ name # rs" by (auto simp: prefix_def)
    then show ?thesis using link(2) [of b rs] fresh by simp
  next
    case False
    then show ?thesis using link(1) below by simp
  qed
  have "unshared ?st2 root"
    unfolding unshared_def
  proof (intro allI impI)
    fix ps qs x
    assume x: "descend ?st2 root ps = Some x" "descend ?st2 root qs = Some x"
    have apart: False if "descend st1 b rs = Some x" "descend st root us = Some x" for rs us
      using new [OF that(1)] old [OF that(2)] by simp
    have half: "prefix (pp @ [name]) ps = prefix (pp @ [name]) qs"
      using x unfolding desc by (auto split: if_splits dest: apart)
    show "ps = qs"
    proof (cases "prefix (pp @ [name]) ps")
      case True
      then obtain rs rs' where r: "ps = pp @ name # rs" "qs = pp @ name # rs'"
        using half by (auto simp: prefix_def)
      have "descend st1 b rs = Some x" "descend st1 b rs' = Some x"
        using x unfolding desc r by simp_all
      then have "rs = rs'" using st1(3) by (simp add: fresh_below_def)
      with r show ?thesis by simp
    next
      case False
      then show ?thesis
        using half x soundD(4) [OF sound] unfolding desc unshared_def by (auto split: if_splits)
    qed
  qed
  moreover have "b < length st1" using st1(3) by (simp add: fresh_below_def)
  ultimately show "sound ?st2 root"
    using st1 closed_set_child [OF st1(1)] root soundD(3) [OF sound]
    by (simp add: sound_def is_dir_def nth_append)
       (simp add: is_dir_entry [unfolded is_dir_def] nth_append)
  show "view_from ?st2 root qs =
      (if prefix (pp @ [name]) qs then view_from st1 b (drop (Suc (length pp)) qs) else view_from st root qs)"
  proof (cases "prefix (pp @ [name]) qs")
    case False
    have "st1 ! x = st ! x" if "descend st root qs = Some x" for x
      using old [OF that] by (simp add: st1(2) nth_append)
    then show ?thesis using False by (cases "descend st root qs") (simp_all add: view_from_def desc)
  qed (simp add: view_from_def desc)
qed

text \<open>A subtree moves below a directory that is not part of it.\<close>

lemma child_moved:
  assumes "closed st" and "d < length st" and "is_dir st d" and "p < length st"
  shows "child (del_child p sn (set_child d name s st)) x k =
    (if x = p \<and> k = sn then None else if x = d \<and> k = name then Some s else child st x k)"
  using assms by (simp add: child_del_child child_set_child)

lemma sound_move:
  fixes name :: string
  assumes sound: "sound st root" and d: "descend st root pp = Some d" "is_dir st d"
    and p: "descend st root sp = Some p" and s: "child st p sn = Some s"
  defines "st' \<equiv> del_child p sn (set_child d name s st)"
  shows "descend st' root qs =
      (if prefix (sp @ [sn]) (pp @ [name]) then (if prefix (sp @ [sn]) qs then None else descend st root qs)
       else if prefix (pp @ [name]) qs then descend st s (drop (Suc (length pp)) qs)
       else if prefix (sp @ [sn]) qs then None else descend st root qs)"
proof -
  note closed = soundD(1) [OF sound] and root = soundD(2) [OF sound]
  have once: "ps = qs" if "descend st root ps = Some x" "descend st root qs = Some x" for ps qs x
    using that soundD(4) [OF sound] unfolding unshared_def by blast
  have len: "d < length st" "p < length st"
    using descend_closed [OF closed root] d(1) p by simp_all
  have step: "child st' x k =
      (if x = p \<and> k = sn then None else if x = d \<and> k = name then Some s else child st x k)" for x k
    unfolding st'_def by (rule child_moved [OF closed len(1) d(2) len(2)])
  have other: "descend st' root qs = descend st root qs"
    if "\<not> prefix (sp @ [sn]) qs" "\<not> prefix (pp @ [name]) qs \<or> prefix (sp @ [sn]) (pp @ [name])" for qs
    using that
  proof (induction qs rule: rev_induct)
    case (snoc k qs)
    then have IH: "descend st' root qs = descend st root qs" by (meson prefix_prefix)
    show ?case
    proof (cases "descend st root qs")
      case (Some x)
      have "\<not> (x = p \<and> k = sn)" using once [OF Some] p snoc(2) by auto
      moreover have "\<not> (x = d \<and> k = name)" using once [OF Some] d(1) snoc(2,3) by auto
      ultimately show ?thesis using Some IH by (auto simp: descend_append step split: option.split)
    qed (simp add: descend_append IH)
  qed simp
  have not_sp: "\<not> prefix (sp @ [sn]) sp" by (simp add: prefix_def)
  show ?thesis
  proof (cases "prefix (sp @ [sn]) (pp @ [name])")
    case True
    have "descend st' root qs = None" if "prefix (sp @ [sn]) qs" for qs
    proof -
      from that obtain rs where "qs = sp @ sn # rs" by (auto simp: prefix_def)
      moreover have "descend st' root sp = Some p" using other [OF not_sp] True p by simp
      ultimately show ?thesis by (simp add: descend_append step)
    qed
    with True other show ?thesis by simp
  next
    case False
    then have not_pp: "\<not> prefix (sp @ [sn]) pp" by (meson prefix_prefix)
    have differ: "\<not> (d = p \<and> name = sn)" using once [OF d(1)] p False by auto
    have at: "descend st root (sp @ [sn]) = Some s" using p s by (simp add: descend_append)
    have below: "descend st' s rs = descend st s rs" for rs
    proof (rule descend_cong)
      fix rs b k
      assume "descend st s rs = Some b"
      then have b: "descend st root (sp @ [sn] @ rs) = Some b" using p s by (simp add: descend_append)
      have "b \<noteq> d" using once [OF b, of pp] d(1) not_pp by (auto simp: prefix_def)
      moreover have "b \<noteq> p" using once [OF b, of sp] p by auto
      ultimately show "child st' b k = child st b k" by (simp add: step)
    qed
    have target: "descend st' root (pp @ name # rs) = descend st s rs" for rs
    proof -
      have "descend st' root pp = Some d" using other [OF not_pp] d(1) by (simp add: prefix_def)
      then show ?thesis using differ below by (auto simp: descend_append step)
    qed
    have gone: "descend st' root qs = None" if "prefix (sp @ [sn]) qs" "\<not> prefix (pp @ [name]) qs" for qs
    proof -
      from that obtain rs where qs: "qs = sp @ sn # rs" by (auto simp: prefix_def)
      have "\<not> prefix (pp @ [name]) sp" using that(2) qs by (auto simp: prefix_def)
      then have "descend st' root sp = Some p" using other [OF not_sp] p by simp
      then show ?thesis by (simp add: qs descend_append step)
    qed
    show ?thesis
    proof (cases "prefix (pp @ [name]) qs")
      case True
      then obtain rs where "qs = pp @ name # rs" by (auto simp: prefix_def)
      with False target show ?thesis by auto
    qed (use False other gone in auto)
  qed
qed

section \<open>The operations refine changes of the map\<close>

text \<open>The changes: None when the operation is refused.\<close>

definition spec_write :: "string list \<Rightarrow> string \<Rightarrow> bool \<Rightarrow> fs_map \<Rightarrow> fs_map option" where
  "spec_write ps content adding V =
     (if V (butlast ps) \<noteq> Some DirEntry \<or> V ps = Some DirEntry then None
      else Some (V(ps \<mapsto> FileEntry ((case V ps of Some (FileEntry c) \<Rightarrow> if adding then c else [] | _ \<Rightarrow> []) @ content))))"

definition spec_remove :: "string list \<Rightarrow> bool \<Rightarrow> fs_map \<Rightarrow> fs_map option" where
  "spec_remove ps recursive V =
     (if V ps = None \<or> V ps = Some DirEntry \<and> \<not> recursive then None
      else Some (\<lambda>qs. if prefix ps qs then None else V qs))"

definition spec_make_dir :: "string list \<Rightarrow> bool \<Rightarrow> fs_map \<Rightarrow> fs_map option" where
  "spec_make_dir ps recursive V =
     (if (\<exists>qs c. prefix qs ps \<and> V qs = Some (FileEntry c)) \<or> \<not> recursive \<and> V (butlast ps) = None then None
      else Some (\<lambda>qs. if prefix qs ps \<and> V qs = None then Some DirEntry else V qs))"

text \<open>Where a copied or moved node goes: into a directory, under its own name, or to the path given.\<close>

definition goal_path :: "string list \<Rightarrow> string list \<Rightarrow> fs_map \<Rightarrow> string list" where
  "goal_path src dest V = (if V dest = Some DirEntry then dest @ [last (''~'' # src)] else dest)"

definition spec_copy :: "string list \<Rightarrow> string list \<Rightarrow> bool \<Rightarrow> fs_map \<Rightarrow> fs_map option" where
  "spec_copy src dest recursive V =
     (if V src = None \<or> V src = Some DirEntry \<and> \<not> recursive \<or> V (butlast dest) \<noteq> Some DirEntry then None
      else let to = goal_path src dest V
           in Some (\<lambda>qs. if prefix to qs then V (src @ drop (length to) qs) else V qs))"

definition spec_move :: "string list \<Rightarrow> string list \<Rightarrow> fs_map \<Rightarrow> fs_map option" where
  "spec_move src dest V =
     (if V src = None \<or> V (butlast (goal_path src dest V)) \<noteq> Some DirEntry then None
      else let to = goal_path src dest V
           in Some (\<lambda>qs. if prefix src to then (if prefix src qs then None else V qs)
                else if prefix to qs then V (src @ drop (length to) qs)
                else if prefix src qs then None else V qs))"

text \<open>An operation implements a change: it succeeds exactly when the change is allowed, and is sound.\<close>

definition implements :: "nat \<Rightarrow> store \<Rightarrow> store \<times> string option \<Rightarrow> fs_map option \<Rightarrow> bool" where
  "implements root st r change =
     (case change of
        None \<Rightarrow> fst r = st \<and> snd r \<noteq> None
      | Some V' \<Rightarrow> snd r = None \<and> sound (fst r) root \<and> view_from (fst r) root = V')"

lemma view_dir: "view_from st root ps = Some DirEntry \<longleftrightarrow> (\<exists>d. descend st root ps = Some d \<and> is_dir st d)"
  by (auto simp: view_from_def is_dir_entry)

lemma view_None: "view_from st root ps = None \<longleftrightarrow> descend st root ps = None"
  by (simp add: view_from_def)

lemma butlast_last_prefix: "ps \<noteq> [] \<Longrightarrow> prefix (butlast ps @ [last ps]) qs = prefix ps qs"
  by simp

lemma descend_snoc:
  assumes "ps \<noteq> []"
  shows "descend st root ps =
    (case descend st root (butlast ps) of None \<Rightarrow> None | Some d \<Rightarrow> child st d (last ps))"
proof -
  have "descend st root (butlast ps @ [last ps]) =
      (case descend st root (butlast ps) of None \<Rightarrow> None | Some d \<Rightarrow> child st d (last ps))"
    by (simp only: descend_append) (simp split: option.split)
  then show ?thesis using assms by simp
qed

text \<open>A new file, or an empty directory, in a directory.\<close>

lemma sound_add:
  assumes sound: "sound st root" and "ps \<noteq> []" and d: "descend st root (butlast ps) = Some d" "is_dir st d"
    and absent: "descend st root ps = None" and kids: "kids n = []"
  shows "sound (set_child d (last ps) (length st) (st @ [n])) root"
    and "view_from (set_child d (last ps) (length st) (st @ [n])) root = (view_from st root)(ps \<mapsto> node_entry n)"
proof -
  have g: "grown st (st @ [n]) [([], length st)]"
    by (rule grown_node) (simp_all add: kids grown_Nil)
  note graft = sound_graft [OF sound d g, of "last ps"]
  show "sound (set_child d (last ps) (length st) (st @ [n])) root" by (rule graft(1))
  have len: "Suc (length (butlast ps)) = length ps" using \<open>ps \<noteq> []\<close> by simp
  show "view_from (set_child d (last ps) (length st) (st @ [n])) root = (view_from st root)(ps \<mapsto> node_entry n)"
  proof
    fix qs
    have leaf: "view_from (st @ [n]) (length st) (r # rs) = None" for r rs
      by (simp add: view_from_Cons child_kids kids)
    have none: "view_from st root (ps @ rs) = None" for rs
      using absent by (simp add: view_None descend_append)
    show "view_from (set_child d (last ps) (length st) (st @ [n])) root qs =
        ((view_from st root)(ps \<mapsto> node_entry n)) qs"
    proof (cases "prefix ps qs")
      case True
      then obtain rs where "qs = ps @ rs" by (auto simp: prefix_def)
      then show ?thesis
        using graft(2) [of qs] \<open>ps \<noteq> []\<close> len none leaf by (cases rs) simp_all
    next
      case False
      then show ?thesis using graft(2) [of qs] \<open>ps \<noteq> []\<close> by auto
    qed
  qed
qed

text \<open>A file gets new content.\<close>

lemma sound_overwrite:
  assumes sound: "sound st root" and a: "descend st root ps = Some a" "st ! a = FileNode c t m"
  shows "sound (st[a := FileNode c' t' m']) root"
    and "view_from (st[a := FileNode c' t' m']) root = (view_from st root)(ps \<mapsto> FileEntry c')"
proof -
  let ?st = "st[a := FileNode c' t' m']"
  have len: "a < length st" using descend_closed [OF soundD(1) [OF sound] soundD(2) [OF sound] a(1)] .
  have "child ?st x k = child st x k" for x k
    using len by (cases "x = a") (simp_all add: child_kids a(2))
  then have same: "descend ?st root qs = descend st root qs" for qs by (intro descend_cong) simp
  have "is_dir ?st root" using soundD(3) [OF sound] a(2) len by (auto simp: is_dir_def nth_list_update)
  moreover have "closed ?st" using closed_update [OF soundD(1) [OF sound]] by simp
  ultimately show "sound ?st root"
    using soundD [OF sound] same by (simp add: sound_def unshared_def)
  show "view_from ?st root = (view_from st root)(ps \<mapsto> FileEntry c')"
  proof
    fix qs
    have "x \<noteq> a" if "qs \<noteq> ps" "descend st root qs = Some x" for x
      using that a(1) soundD(4) [OF sound] unfolding unshared_def by blast
    then show "view_from ?st root qs = ((view_from st root)(ps \<mapsto> FileEntry c')) qs"
      using a len by (cases "descend st root qs") (auto simp: view_from_def same nth_list_update)
  qed
qed

lemma write_file_implements:
  assumes "sound st root" and "proper ps" and "ps \<noteq> []"
  shows "implements root st (write_file root now (path_of ps) content adding st)
    (spec_write ps content adding (view_from st root))"
proof -
  note parent = get_parent_at [OF split_path_of [OF assms(2)] assms(3), of st root]
  note down = descend_snoc [OF assms(3), of st root]
  show ?thesis
  proof (cases "\<exists>d. descend st root (butlast ps) = Some d \<and> is_dir st d")
    case True
    then obtain d where d: "descend st root (butlast ps) = Some d" "is_dir st d" by blast
    then have dir: "view_from st root (butlast ps) = Some DirEntry" by (simp add: view_dir)
    show ?thesis
    proof (cases "child st d (last ps)")
      case None
      with d down have absent: "descend st root ps = None" by simp
      then show ?thesis
        using sound_add [OF assms(1,3) d absent, of "make_file content now"] None d parent dir
        by (simp add: write_file_def implements_def spec_write_def view_from_def make_file_def)
    next
      case (Some a)
      with d down have a: "descend st root ps = Some a" by simp
      then show ?thesis
        using sound_overwrite [OF assms(1) a] Some d parent dir
        by (cases "st ! a") (auto simp: write_file_def implements_def spec_write_def view_from_def)
    qed
  next
    case False
    then have "view_from st root (butlast ps) \<noteq> Some DirEntry" by (simp add: view_dir)
    with False parent show ?thesis
      by (auto simp: write_file_def implements_def spec_write_def split: option.split)
  qed
qed

lemma remove_node_implements:
  assumes "sound st root" and "proper ps" and "ps \<noteq> []"
  shows "implements root st (remove_node root (path_of ps) recursive st) (spec_remove ps recursive (view_from st root))"
proof -
  note parent = get_parent_at [OF split_path_of [OF assms(2)] assms(3), of st root]
  note down = descend_snoc [OF assms(3), of st root]
  note once = soundD(4) [OF assms(1), unfolded unshared_def, rule_format]
  show ?thesis
  proof (cases "descend st root ps")
    case None
    then have "fst (remove_node root (path_of ps) recursive st) = st \<and> snd (remove_node root (path_of ps) recursive st) \<noteq> None"
      using parent down by (auto simp: remove_node_def split: option.splits)
    moreover have "view_from st root ps = None" using None by (simp add: view_None)
    ultimately show ?thesis by (simp add: implements_def spec_remove_def)
  next
    case (Some a)
    with down obtain d where d: "descend st root (butlast ps) = Some d" "child st d (last ps) = Some a"
      by (auto split: option.splits)
    have len: "d < length st" using descend_closed [OF soundD(1) [OF assms(1)] soundD(2) [OF assms(1)] d(1)] .
    have op: "remove_node root (path_of ps) recursive st =
        (if is_dir st a \<and> \<not> recursive
         then (st, Some (''cannot remove '' @ quoted (path_of ps) @ '': Is a directory''))
         else (del_child d (last ps) st, None))"
      using parent d child_dir [OF d(2)] by (simp add: remove_node_def Let_def)
    have desc: "descend (del_child d (last ps) st) root qs = (if prefix ps qs then None else descend st root qs)" for qs
    proof (induction qs rule: rev_induct)
      case (snoc k qs)
      show ?case
      proof (cases "prefix ps qs \<or> descend st root qs = None")
        case False
        then obtain x where x: "descend st root qs = Some x" by auto
        have "(x = d \<and> k = last ps) = (prefix ps (qs @ [k]))"
        proof
          assume "x = d \<and> k = last ps"
          with once [OF x] d(1) have "qs = butlast ps" by simp
          with \<open>x = d \<and> k = last ps\<close> assms(3) show "prefix ps (qs @ [k])" by simp
        next
          assume "prefix ps (qs @ [k])"
          with False have "ps = qs @ [k]" by simp
          with x d(1) show "x = d \<and> k = last ps" by simp
        qed
        then show ?thesis
          using snoc False x by (auto simp: descend_append child_del_child [OF len] split: option.split)
      qed (use snoc in \<open>auto simp: descend_append\<close>)
    qed (simp add: assms(3))
    have view: "view_from (del_child d (last ps) st) root =
        (\<lambda>qs. if prefix ps qs then None else view_from st root qs)"
      by (rule ext) (simp add: view_from_def desc)
    have "sound (del_child d (last ps) st) root"
      using soundD [OF assms(1)] closed_del_child desc by (auto simp: sound_def unshared_def split: if_splits)
    with op view Some show ?thesis
      by (auto simp: implements_def spec_remove_def view_from_def is_dir_entry)
  qed
qed

lemma view_parent: "view_from st root (qs @ k # rs) \<noteq> None \<Longrightarrow> view_from st root qs = Some DirEntry"
  by (cases "descend st root qs"; cases "\<exists>b. child st (the (descend st root qs)) k = Some b")
     (auto simp: view_from_def descend_append simp flip: is_dir_entry dest: child_dir)

lemma view_above:
  assumes "view_from st root ps \<noteq> None" and "prefix qs ps" and "qs \<noteq> ps"
  shows "view_from st root qs = Some DirEntry"
proof -
  from assms(2,3) obtain k rs where "ps = qs @ k # rs"
    by (metis append_Nil2 list.exhaust prefixE)
  with assms(1) show ?thesis using view_parent [of st root qs k rs] by simp
qed

lemma make_dirs_refines:
  "sound st root \<Longrightarrow> descend st root ps = Some a \<Longrightarrow> is_dir st a \<Longrightarrow>
     implements root st (make_dirs path recursive now a qs st)
       (spec_make_dir (ps @ qs) recursive (view_from st root))"
proof (induction qs arbitrary: st a ps)
  case Nil
  let ?V = "view_from st root"
  have there: "?V rs \<noteq> None" if "prefix rs ps" for rs
  proof -
    from that obtain us where "ps = rs @ us" by (auto simp: prefix_def)
    with Nil(2) show ?thesis by (auto simp: view_from_def descend_append split: option.splits)
  qed
  have dirs: "?V rs = Some DirEntry" if "prefix rs ps" for rs
    using view_above [of st root ps rs] there that Nil(2,3) by (cases "rs = ps") (auto simp: view_dir)
  have "(\<lambda>rs. if prefix rs ps \<and> ?V rs = None then Some DirEntry else ?V rs) = ?V"
    using there by auto
  moreover have "prefix (butlast ps) ps" by (rule prefixeq_butlast)
  ultimately show ?case
    using Nil(1) dirs there [of "butlast ps"] by (auto simp: implements_def spec_make_dir_def)
next
  case (Cons q qs)
  let ?V = "view_from st root"
  show ?case
  proof (cases "child st a q")
    case (Some b)
    then have at: "descend st root (ps @ [q]) = Some b" using Cons(3) by (simp add: descend_append)
    show ?thesis
    proof (cases "is_dir st b")
      case True
      with Cons(1) [OF Cons(2) at] Some show ?thesis by simp
    next
      case False
      then obtain c where "?V (ps @ [q]) = Some (FileEntry c)"
        using at by (cases "st ! b") (auto simp: view_from_def is_dir_def)
      moreover have "prefix (ps @ [q]) (ps @ q # qs)" by simp
      ultimately have "spec_make_dir (ps @ q # qs) recursive ?V = None" unfolding spec_make_dir_def by auto
      with Some False show ?thesis by (simp add: implements_def)
    qed
  next
    case None
    then have absent: "descend st root (ps @ [q]) = None" using Cons(3) by (simp add: descend_append)
    have above: "?V rs = Some DirEntry" if "prefix rs ps" for rs
      using that Cons(3,4) view_above [of st root ps rs]
      by (cases "rs = ps") (auto simp: view_from_def is_dir_entry)
    have beyond: "?V (ps @ q # rs) = None" for rs
      using absent by (simp add: view_None descend_append split: option.splits)
    have cases: "prefix rs ps \<or> (\<exists>us. rs = ps @ q # us)" if "prefix rs (ps @ q # qs)" for rs
      using that by (auto simp: prefix_append prefix_Cons)
    have no_file: "\<not> (\<exists>rs c. prefix rs (ps @ q # qs) \<and> ?V rs = Some (FileEntry c))"
      using cases above beyond by fastforce
    show ?thesis
    proof (cases "\<not> recursive \<and> qs \<noteq> []")
      case True
      then have "?V (butlast (ps @ q # qs)) = None" using beyond by (simp add: butlast_append)
      with True None show ?thesis by (simp add: implements_def spec_make_dir_def)
    next
      case False
      let ?st1 = "set_child a q (length st) (st @ [make_dir [] now])"
      let ?V1 = "?V(ps @ [q] \<mapsto> DirEntry)"
      have "sound (set_child a (last (ps @ [q])) (length st) (st @ [make_dir [] now])) root"
        "view_from (set_child a (last (ps @ [q])) (length st) (st @ [make_dir [] now])) root =
          ?V(ps @ [q] \<mapsto> node_entry (make_dir [] now))"
        using Cons(3,4) absent
        by (intro sound_add [OF Cons(2)]; simp add: make_dir_def)+
      then have st1: "sound ?st1 root" "view_from ?st1 root = ?V1" by (simp_all add: make_dir_def)
      have "view_from ?st1 root (ps @ [q]) = Some DirEntry" by (simp add: st1(2))
      then obtain b where b: "descend ?st1 root (ps @ [q]) = Some b" "is_dir ?st1 b" by (auto simp: view_dir)
      have "child ?st1 a q = Some (length st)"
        using Cons(3,4) descend_closed [OF soundD(1) [OF Cons(2)] soundD(2) [OF Cons(2)] Cons(3)]
        by (simp add: child_set_child is_dir_def nth_append)
      have "descend ?st1 root ps = Some a"
      proof -
        have g: "grown st (st @ [make_dir [] now]) [([], length st)]"
          by (rule grown_node) (simp_all add: make_dir_def grown_Nil)
        have "closed (st @ [make_dir [] now])" by (rule grownD(1) [OF g soundD(1) [OF Cons(2)]])
        have below: "descend (st @ [make_dir [] now]) root rs = descend st root rs" for rs
          by (rule descend_extend [OF soundD(1) [OF Cons(2)] soundD(2) [OF Cons(2)]])
        have "unshared (st @ [make_dir [] now]) root"
          using soundD(4) [OF Cons(2)] below by (simp add: unshared_def)
        moreover have "a < length st"
          using descend_closed [OF soundD(1) [OF Cons(2)] soundD(2) [OF Cons(2)] Cons(3)] .
        ultimately have "descend ?st1 root ps = descend (st @ [make_dir [] now]) root ps"
          using Cons(3,4) below by (intro descend_link(1) [where pp = ps]) (simp_all add: is_dir_def nth_append prefix_def)
        then show ?thesis using below Cons(3) by simp
      qed
      with b \<open>child ?st1 a q = Some (length st)\<close> have "b = length st" by (simp add: descend_append)
      have ih: "implements root ?st1 (make_dirs path recursive now (length st) qs ?st1)
          (spec_make_dir ((ps @ [q]) @ qs) recursive ?V1)"
        using Cons(1) [OF st1(1) b] unfolding st1(2) \<open>b = length st\<close> by (simp add: fun_upd_def)
      have file1: "\<not> (\<exists>rs c. prefix rs (ps @ q # qs) \<and> ?V1 rs = Some (FileEntry c))"
        using no_file by auto
      have up: "?V (butlast (ps @ q # qs)) \<noteq> None" "?V1 (butlast (ps @ q # qs)) \<noteq> None" if "\<not> recursive"
        using False that above [of ps] by (auto simp: butlast_append)
      have same: "(\<lambda>rs. if prefix rs (ps @ q # qs) \<and> ?V1 rs = None then Some DirEntry else ?V1 rs) =
          (\<lambda>rs. if prefix rs (ps @ q # qs) \<and> ?V rs = None then Some DirEntry else ?V rs)"
        using beyond [of "[]"] by (auto simp: fun_eq_iff)
      have "spec_make_dir (ps @ q # qs) recursive ?V =
          Some (\<lambda>rs. if prefix rs (ps @ q # qs) \<and> ?V rs = None then Some DirEntry else ?V rs)"
        unfolding spec_make_dir_def by (rule if_not_P) (use no_file up(1) in blast)
      moreover have "spec_make_dir (ps @ q # qs) recursive ?V1 =
          Some (\<lambda>rs. if prefix rs (ps @ q # qs) \<and> ?V1 rs = None then Some DirEntry else ?V1 rs)"
        unfolding spec_make_dir_def by (rule if_not_P) (use file1 up(2) in blast)
      ultimately have "spec_make_dir (ps @ q # qs) recursive ?V1 = spec_make_dir (ps @ q # qs) recursive ?V"
        "spec_make_dir (ps @ q # qs) recursive ?V \<noteq> None"
        unfolding same by simp_all
      with ih False None show ?thesis by (auto simp: implements_def)
    qed
  qed
qed

lemma make_dir_implements:
  assumes "sound st root" and "proper ps"
  shows "implements root st (make_dir_at root now (path_of ps) recursive st)
    (spec_make_dir ps recursive (view_from st root))"
  using make_dirs_refines [OF assms(1), of "[]" root "path_of ps" recursive now ps] soundD(3) [OF assms(1)]
  by (simp add: make_dir_at_def assms(2))

lemma set_child_same:
  assumes "child st a k = Some b"
  shows "set_child a k b st = st"
proof (cases "st ! a")
  case (DirNode cs t m)
  have "map_of cs k = Some b \<Longrightarrow> dict_put k b cs = cs"
    by (induction k b cs rule: dict_put.induct) (auto split: if_splits)
  with assms DirNode show ?thesis
    by (cases "a < length st") (auto simp: set_child_def child_kids list_update_beyond list_update_same_conv)
qed (simp add: set_child_def)

definition copy_message :: "copy_outcome \<Rightarrow> string option" where
  "copy_message r = (case r of Refused_copy m \<Rightarrow> Some m | _ \<Rightarrow> None)"

lemma goal_path_snoc: "dest \<noteq> [] \<Longrightarrow> goal_path src dest V \<noteq> []"
  by (simp add: goal_path_def)

lemma copy_node_implements:
  assumes "sound st root" and "proper sps" and "proper dps" and "dps \<noteq> []"
    and "copy_node root (path_of sps) (path_of dps) recursive st = (st', r)"
  shows "r \<noteq> Overflow \<and>
    implements root st (st', copy_message r) (spec_copy sps dps recursive (view_from st root))"
proof -
  let ?V = "view_from st root"
  note parent = get_parent_at [OF split_path_of [OF assms(3)] assms(4), of st root]
  note src = get_node_at [OF split_path_of [OF assms(2)], of st root]
  note dest = get_node_at [OF split_path_of [OF assms(3)], of st root]
  note down = descend_snoc [OF assms(4), of st root]
  note op = assms(5) [symmetric, unfolded copy_node_def src dest parent]
  show ?thesis
  proof (cases "descend st root sps")
    case None
    then have "?V sps = None" by (simp add: view_None)
    with op None show ?thesis by (simp add: spec_copy_def implements_def copy_message_def)
  next
    case (Some s)
    note s = this
    have entry: "?V sps = Some (node_entry (st ! s))" using s by (simp add: view_from_def)
    show ?thesis
    proof (cases "is_dir st s \<and> \<not> recursive \<or> \<not> (\<exists>d. descend st root (butlast dps) = Some d \<and> is_dir st d)")
      case True
      then have "spec_copy sps dps recursive ?V = None"
        using entry view_dir [of st root "butlast dps"] by (auto simp: spec_copy_def is_dir_entry)
      moreover have "st' = st \<and> (\<exists>m. r = Refused_copy m)"
        using op True by (auto simp: s split: if_splits option.splits)
      ultimately show ?thesis by (auto simp: implements_def copy_message_def)
    next
      case False
      then obtain p where p: "descend st root (butlast dps) = Some p" "is_dir st p"
        and ok: "\<not> (is_dir st s \<and> \<not> recursive)" by blast
      have slen: "s < length st" using descend_closed [OF soundD(1) [OF assms(1)] soundD(2) [OF assms(1)] s] .
      obtain st1 b where c: "clone_node (length st) st s = Some (st1, b)"
        using clone_total [OF soundD(1) [OF assms(1)] slen unshared_below [OF soundD(4) [OF assms(1)] s]] .
      have g: "grown st st1 [([], b)]" and copy: "\<And>qs. view_from st1 b qs = view_from st s qs"
        using clone_spec(1) [OF c soundD(1) [OF assms(1)] slen, of "[]"] by auto
      have below: "view_from st s qs = ?V (sps @ qs)" for qs
        using s by (simp add: view_from_def descend_append)
      show ?thesis
      proof (cases "\<exists>d. descend st root dps = Some d \<and> is_dir st d")
        case True
        then obtain d where d: "descend st root dps = Some d" "is_dir st d" by blast
        then have same: "set_child p (last dps) d st = st"
          using down p by (intro set_child_same) (simp split: option.splits)
        have goal: "goal_path sps dps ?V = dps @ [last (''~'' # sps)]"
          using view_dir [of st root dps] d by (auto simp: goal_path_def)
        have res: "(st', r) = (set_child d (last (''~'' # sps)) b st1, Copied)"
          using op s p d ok c same base_name_path_of [OF assms(2)] by (simp add: Let_def)
        note graft = sound_graft [OF assms(1) d g, of "last (''~'' # sps)"]
        have "view_from st' root = (\<lambda>qs. if prefix (goal_path sps dps ?V) qs
            then ?V (sps @ drop (length (goal_path sps dps ?V)) qs) else ?V qs)"
          using res graft(2) copy below unfolding goal by (simp add: fun_eq_iff)
        moreover have "?V (butlast dps) = Some DirEntry" using p view_dir by blast
        ultimately show ?thesis
          using res graft(1) entry ok
          by (auto simp: implements_def copy_message_def spec_copy_def Let_def is_dir_entry)
      next
        case False
        then have goal: "goal_path sps dps ?V = dps"
          using view_dir [of st root dps] by (auto simp: goal_path_def)
        have into: "(case descend st root dps of None \<Rightarrow> None | Some d \<Rightarrow> if is_dir st d then Some d else None) = None"
          using False by (auto split: option.split)
        have res: "(st', r) = (set_child p (last dps) b st1, Copied)"
          using op s p ok c unfolding into by (simp add: Let_def)
        note graft = sound_graft [OF assms(1) p g, of "last dps"]
        have len: "Suc (length (butlast dps)) = length dps" using assms(4) by simp
        have "view_from st' root = (\<lambda>qs. if prefix (goal_path sps dps ?V) qs
            then ?V (sps @ drop (length (goal_path sps dps ?V)) qs) else ?V qs)"
          using res graft(2) copy below assms(4) len unfolding goal by (simp add: fun_eq_iff)
        moreover have "?V (butlast dps) = Some DirEntry" using p view_dir by blast
        ultimately show ?thesis
          using res graft(1) entry ok
          by (auto simp: implements_def copy_message_def spec_copy_def Let_def is_dir_entry)
      qed
    qed
  qed
qed

lemma move_node_implements:
  assumes "sound st root" and "proper sps" and "sps \<noteq> []" and "proper dps"
  shows "implements root st (move_node root (path_of sps) (path_of dps) st)
    (spec_move sps dps (view_from st root))"
proof -
  let ?V = "view_from st root"
  let ?into = "case descend st root dps of None \<Rightarrow> None | Some d \<Rightarrow> if is_dir st d then Some d else None"
  note src = get_node_at [OF split_path_of [OF assms(2)], of st root]
  note dest = get_node_at [OF split_path_of [OF assms(4)], of st root]
  note parent = get_parent_at [OF split_path_of [OF assms(2)] assms(3), of st root]
  note op = move_node_def [of root "path_of sps" "path_of dps" st, unfolded src dest parent]
  show ?thesis
  proof (cases "descend st root sps")
    case None
    then have "?V sps = None" by (simp add: view_None)
    with op None show ?thesis by (simp add: spec_move_def implements_def)
  next
    case (Some s)
    note s = this
    obtain p where p: "descend st root (butlast sps) = Some p" "child st p (last sps) = Some s"
      using s descend_snoc [OF assms(3), of st root] by (auto split: option.splits)
    have pdir: "is_dir st p" using child_dir [OF p(2)] .
    define target where
      "target = (case ?into of None \<Rightarrow> fst (get_parent st root (path_of dps)) | Some d \<Rightarrow> Some d)"
    define to where "to = goal_path sps dps ?V"
    have last: "last (''~'' # sps) = last sps" using assms(3) by simp
    have goal: "to \<noteq> [] \<and> last to = (case ?into of None \<Rightarrow> base_name (path_of dps) (last sps) | Some d \<Rightarrow> last sps) \<and>
        target = (case descend st root (butlast to) of None \<Rightarrow> None | Some d \<Rightarrow> if is_dir st d then Some d else None)"
    proof (cases "?V dps = Some DirEntry")
      case True
      then show ?thesis
        using assms(3) by (auto simp: view_dir to_def goal_path_def target_def)
    next
      case False
      then have "dps \<noteq> []" using soundD(3) [OF assms(1)] by (auto simp: is_dir_entry)
      moreover have "?into = None" using False by (auto simp: view_dir split: option.split)
      ultimately show ?thesis
        using get_parent_at [OF split_path_of [OF assms(4)], of st root] False base_name_path_of [OF assms(4)]
        by (simp add: to_def goal_path_def target_def)
    qed
    have res: "move_node root (path_of sps) (path_of dps) st =
        (case target of None \<Rightarrow> (st, Some (''cannot move '' @ quoted (path_of dps) @ '': '' @ no_such_file))
         | Some d \<Rightarrow> (del_child p (last sps) (set_child d (last to) s st), None))"
      using op s p(1) pdir by (simp add: target_def goal [THEN conjunct2, THEN conjunct1] Let_def cong: option.case_cong)
    show ?thesis
    proof (cases target)
      case None
      then have "?V (butlast to) \<noteq> Some DirEntry" using goal by (auto simp: view_dir)
      with res None show ?thesis by (simp add: implements_def spec_move_def flip: to_def)
    next
      case (Some d)
      then have d: "descend st root (butlast to) = Some d" "is_dir st d"
        using goal by (auto split: option.splits if_splits)
      let ?st' = "del_child p (last sps) (set_child d (last to) s st)"
      have to: "butlast to @ [last to] = to" and sps: "butlast sps @ [last sps] = sps"
        using goal [THEN conjunct1] assms(3) by simp_all
      have "Suc (length (butlast to)) = length to" using goal [THEN conjunct1] by simp
      with sound_move [OF assms(1) d p, of "last to", unfolded to sps]
      have desc: "descend ?st' root qs =
          (if prefix sps to then (if prefix sps qs then None else descend st root qs)
           else if prefix to qs then descend st s (drop (length to) qs)
           else if prefix sps qs then None else descend st root qs)" for qs
        by simp
      have below: "descend st s qs = descend st root (sps @ qs)" for qs
        using s by (simp add: descend_append)
      have once: "ps = qs" if "descend st root ps = Some x" "descend st root qs = Some x" for ps qs x
        using that soundD(4) [OF assms(1)] unfolding unshared_def by blast
      have "unshared ?st' root"
        unfolding unshared_def desc below
      proof (intro allI impI)
        fix ps qs x
        assume x: "(if prefix sps to then (if prefix sps ps then None else descend st root ps)
             else if prefix to ps then descend st root (sps @ drop (length to) ps)
             else if prefix sps ps then None else descend st root ps) = Some x"
          "(if prefix sps to then (if prefix sps qs then None else descend st root qs)
             else if prefix to qs then descend st root (sps @ drop (length to) qs)
             else if prefix sps qs then None else descend st root qs) = Some x"
        show "ps = qs"
        proof (cases "prefix sps to")
          case True
          with x show ?thesis using once by (auto split: if_splits)
        next
          case False
          have mixed: "\<not> (descend st root (sps @ us) = Some x \<and> \<not> prefix sps vs \<and> descend st root vs = Some x)" for us vs
            using once [of "sps @ us" x vs] by auto
          show ?thesis
          proof (cases "prefix to ps"; cases "prefix to qs")
            assume "prefix to ps" and "prefix to qs"
            with False x once [of "sps @ drop (length to) ps" x "sps @ drop (length to) qs"]
            show "ps = qs" by (auto simp: prefix_def)
          next
            assume "prefix to ps" and "\<not> prefix to qs"
            with False x mixed [of "drop (length to) ps" qs] show "ps = qs" by (simp split: if_splits)
          next
            assume "\<not> prefix to ps" and "prefix to qs"
            with False x mixed [of "drop (length to) qs" ps] show "ps = qs" by (simp split: if_splits)
          next
            assume "\<not> prefix to ps" and "\<not> prefix to qs"
            with False x once [of ps x qs] show "ps = qs" by (simp split: if_splits)
          qed
        qed
      qed
      moreover have "closed ?st'"
        using descend_closed [OF soundD(1) [OF assms(1)] soundD(2) [OF assms(1)] s]
        by (intro closed_del_child closed_set_child soundD(1) [OF assms(1)])
      ultimately have sound: "sound ?st' root" using soundD [OF assms(1)] by (simp add: sound_def)
      have "view_from ?st' root = (\<lambda>qs. if prefix sps to then (if prefix sps qs then None else ?V qs)
          else if prefix to qs then ?V (sps @ drop (length to) qs)
          else if prefix sps qs then None else ?V qs)"
        by (rule ext) (simp add: view_from_def desc below)
      moreover have "?V sps \<noteq> None" using s by (simp add: view_None)
      moreover have "?V (butlast to) = Some DirEntry" using d view_dir by blast
      ultimately show ?thesis
        using res Some sound by (auto simp: implements_def spec_move_def Let_def simp flip: to_def)
    qed
  qed
qed

section \<open>Listing, and the start\<close>

lemma set_mtime_view:
  assumes "sound st root"
  shows "sound (set_mtime a now st) root" and "view_from (set_mtime a now st) root = view_from st root"
proof -
  have kids: "kids (set_mtime a now st ! x) = kids (st ! x)" and
    entry: "node_entry (set_mtime a now st ! x) = node_entry (st ! x)" for x
    by (cases "x = a"; cases "a < length st"; cases "st ! a"; simp add: set_mtime_def list_update_beyond)+
  have same: "descend (set_mtime a now st) b ps = descend st b ps" for b ps
    by (rule descend_cong) (simp add: child_kids kids)
  have "closed (set_mtime a now st)"
    using soundD(1) [OF assms] closed_update [OF soundD(1) [OF assms], of a] closedD [OF soundD(1) [OF assms], of a]
    by (cases "st ! a") (auto simp: set_mtime_def)
  then show "sound (set_mtime a now st) root"
    using soundD [OF assms] same by (simp add: sound_def unshared_def set_mtime_def is_dir_entry entry [unfolded set_mtime_def])
  show "view_from (set_mtime a now st) root = view_from st root"
    by (rule ext) (simp add: view_from_def same entry)
qed

text \<open>A tree of new nodes is sound by itself.\<close>

lemma grown_sound:
  assumes "grown st st' [(k, b)]" and "closed st" and "is_dir st' b"
  shows "sound st' b"
  using grownD(1,2) [OF assms(1,2)] assms(3) by (simp add: sound_def fresh_below_def unshared_def)

lemma closed_Nil: "closed []"
  by (simp add: closed_def)

lemma tree_ok_initial: "tree_ok INITIAL_FS"
  by (simp add: INITIAL_FS_def)

lemma place_dir: "place (DirTree ts) st = (st', a) \<Longrightarrow> is_dir st' a"
  by (auto simp: is_dir_def make_dir_def split: prod.splits)

lemma initial_store_sound: "sound (fst initial_store) (snd initial_store)"
proof -
  obtain st a where p: "place INITIAL_FS [] = (st, a)" by fastforce
  have g: "grown [] st [([], a)]" by (rule place_grown(1) [OF tree_ok_initial p])
  have dir: "is_dir st a" using p by (auto simp: INITIAL_FS_def simp del: place.simps intro: place_dir)
  have sound: "sound st a" by (rule grown_sound [OF g closed_Nil dir])
  obtain st' b where c: "clone_node (length st) st a = Some (st', b)"
    using clone_total [OF soundD(1) [OF sound] soundD(2) [OF sound] soundD(4) [OF sound]] .
  have g': "grown st st' [([], b)]" and v: "view_from st' b [] = view_from st a []"
    using clone_spec(1) [OF c soundD(1) [OF sound] soundD(2) [OF sound], of "[]"] by blast+
  have "is_dir st' b" using v dir by (simp add: is_dir_entry)
  then have "sound st' b" using grown_sound [OF g' soundD(1) [OF sound]] by simp
  then show ?thesis using p c by (simp add: initial_store_def)
qed

section \<open>Names of paths\<close>

definition plain :: "string list \<Rightarrow> bool" where
  "plain ps = (proper ps \<and> (\<forall>p \<in> set ps. p \<noteq> ''.'' \<and> p \<noteq> ''..'' \<and> p \<noteq> ''~''))"

lemma split_path_proper: "proper (split_path s)"
  using split_path_parts by (auto simp: proper_def)

definition rooted :: "string list \<Rightarrow> bool" where
  "rooted r = (plain r \<or> (\<exists>ps. r = ''~'' # ps \<and> plain ps))"

declare resolve_step.simps [simp del]

lemma plain_parts: "plain [] " "plain (ps @ [p]) = (plain ps \<and> plain [p])" "plain ps \<Longrightarrow> plain (butlast ps)"
  by (auto simp: plain_def proper_def dest: in_set_butlastD)

lemma resolve_step_rooted:
  assumes "rooted r" and "proper [p]"
  shows "rooted (resolve_step r p)"
proof -
  have p: "plain [p]" if "p \<noteq> ''.''" "p \<noteq> ''..''" "p \<noteq> ''~''"
    using assms(2) that by (simp add: plain_def)
  from assms(1) consider "plain r" | ps where "r = ''~'' # ps" "plain ps" by (auto simp: rooted_def)
  then show ?thesis
  proof cases
    case 1
    then show ?thesis using p plain_parts by (auto simp: resolve_step.simps rooted_def)
  next
    case 2
    then show ?thesis using p plain_parts by (auto simp: resolve_step.simps rooted_def)
  qed
qed

lemma resolve_steps_rooted: "proper parts \<Longrightarrow> rooted r \<Longrightarrow> rooted (foldl resolve_step r parts)"
  by (induction parts arbitrary: r) (simp_all add: proper_def resolve_step_rooted)

lemma path_parts_proper: "proper (path_parts cwd target)"
  using split_path_proper proper_home by (auto simp: path_parts_def) (auto simp: proper_def)

lemma proper_tl: "rooted r \<Longrightarrow> proper (tl r)"
  by (cases r) (auto simp: rooted_def plain_def proper_def)

text \<open>The path a list of steps ends at.\<close>

definition home_path :: "string list \<Rightarrow> string" where
  "home_path r = path_of (if r \<noteq> [] \<and> hd r = ''~'' then tl r else r)"

lemma resolve_path_alt:
  "resolve_path cwd target = (if target = [] then path_of [] else home_path (foldl resolve_step [] (path_parts cwd target)))"
proof -
  have "foldl resolve_step [] (path_parts cwd ''/'') = [''~'']"
    by (simp add: path_parts_def split_path_def resolve_step.simps)
  moreover have "foldl resolve_step [] (path_parts cwd ''~'') = [''~'']"
    by (simp add: path_parts_def split_path_def resolve_step.simps)
  ultimately show ?thesis
    by (auto simp: resolve_path_def home_path_def path_of_def neq_Nil_conv Let_def)
qed

lemma home_path_rooted: "rooted r \<Longrightarrow> \<exists>ps. plain ps \<and> home_path r = path_of ps"
  by (auto simp: rooted_def home_path_def plain_def)

lemma resolve_path_plain: "\<exists>ps. plain ps \<and> resolve_path cwd target = path_of ps"
  using home_path_rooted [OF resolve_steps_rooted [OF path_parts_proper, of "[]" cwd target]] plain_parts(1)
  by (auto simp: resolve_path_alt rooted_def)

lemma foldl_plain: "plain ps \<Longrightarrow> foldl resolve_step r ps = r @ ps"
  by (induction ps arbitrary: r) (auto simp: plain_def proper_def resolve_step.simps)

lemma foldl_home: "plain ps \<Longrightarrow> foldl resolve_step [] (''~'' # ps) = ''~'' # ps"
  by (simp add: foldl_plain resolve_step.simps)

lemma hd_steps: "r \<noteq> [] \<Longrightarrow> hd r = ''~'' \<Longrightarrow> foldl resolve_step r parts \<noteq> [] \<and> hd (foldl resolve_step r parts) = ''~''"
proof (induction parts arbitrary: r)
  case (Cons p parts)
  have "resolve_step r p \<noteq> [] \<and> hd (resolve_step r p) = ''~''"
    using Cons.prems by (cases r rule: rev_cases) (auto simp: resolve_step.simps hd_append)
  then show ?case by (simp add: Cons.IH)
qed simp

lemma split_on_append: "split_on c (s @ c # t) = split_on c s @ split_on c t"
  by (induction c s rule: split_on.induct) (auto split: list.splits simp: Cons_eq_append_conv)

lemma split_path_append: "split_path (s @ ''/'' @ t) = split_path s @ split_path t"
  by (simp add: split_path_def split_on_append)

text \<open>
  A resolved path is a list of names below the home directory, none of them empty, a dot, two dots or a
  tilde; and to resolve a path and then another from there is to resolve both at once.
\<close>

lemma resolve_path_compose:
  assumes "cwd = path_of cs" and "plain cs" and "b \<noteq> []" and "\<not> starts_with b ''/''" and "\<not> starts_with b ''~/''"
  shows "(\<exists>ps. plain ps \<and> resolve_path cwd a = path_of ps) \<and>
    resolve_path (resolve_path cwd a) b = resolve_path cwd (a @ ''/'' @ b)"
proof -
  let ?X = "foldl resolve_step [] (path_parts cwd a)"
  have cwd: "split_path cwd = ''~'' # cs" using assms(1,2) by (simp add: plain_def)
  obtain ps where ps: "plain ps" "resolve_path cwd a = path_of ps" using resolve_path_plain by blast
  have parts: "path_parts (path_of ps) b = ''~'' # ps @ split_path b"
    using ps(1) assms(4,5) by (simp add: path_parts_def plain_def)
  have left: "resolve_path (path_of ps) b = home_path (foldl resolve_step (''~'' # ps) (split_path b))"
    using foldl_home [OF ps(1)] by (simp add: resolve_path_alt assms(3) parts)
  show ?thesis
  proof (cases "a = []")
    case True
    then have "ps = []" using ps(2) unfolding resolve_path_alt path_of_def by (cases ps) simp_all
    moreover have "resolve_path cwd (''/'' @ b) = home_path (foldl resolve_step [''~''] (split_path b))"
      by (simp add: resolve_path_alt path_parts_def resolve_step.simps)
    ultimately show ?thesis using True left ps by auto
  next
    case False
    have split: "foldl resolve_step [] (path_parts cwd (a @ ''/'' @ b)) = foldl resolve_step ?X (split_path b)"
    proof (cases "a = ''~''")
      case True
      have "split_path ''~'' = [''~'']" by (simp add: split_path_def)
      then show ?thesis using True by (simp add: path_parts_def resolve_step.simps)
    next
      case False
      have "starts_with (a @ ''/'' @ b) ''~/'' = starts_with a ''~/''"
        using \<open>a \<noteq> []\<close> False by (cases a; cases "tl a") auto
      moreover have "starts_with (a @ ''/'' @ b) ''/'' = starts_with a ''/''"
        using \<open>a \<noteq> []\<close> by (cases a) auto
      moreover have "starts_with a ''~/'' \<Longrightarrow> 2 \<le> length a" "starts_with a ''/'' \<Longrightarrow> 1 \<le> length a"
        by (auto simp: starts_with_iff)
      ultimately have "path_parts cwd (a @ ''/'' @ b) = path_parts cwd a @ split_path b"
        using split_path_append [of "drop 2 a" b] split_path_append [of "drop 1 a" b] split_path_append [of a b]
        by (auto simp: path_parts_def)
      then show ?thesis by simp
    qed
    have "\<exists>rest. path_parts cwd a = ''~'' # rest" by (simp add: path_parts_def cwd)
    then have "?X \<noteq> [] \<and> hd ?X = ''~''"
      using hd_steps [of "[''~'']"] by (auto simp: resolve_step.simps)
    moreover have "home_path ?X = path_of ps" using ps(2) False by (simp add: resolve_path_alt)
    ultimately have "path_of (tl ?X) = path_of ps" by (simp add: home_path_def)
    moreover have "proper (tl ?X)"
      by (rule proper_tl [OF resolve_steps_rooted [OF path_parts_proper]]) (simp add: rooted_def plain_parts)
    ultimately have "tl ?X = ps"
      using split_path_of [of "tl ?X"] split_path_of [of ps] ps(1) by (simp add: plain_def)
    with \<open>?X \<noteq> [] \<and> hd ?X = ''~''\<close> have "?X = ''~'' # ps" by (metis list.collapse)
    then have "resolve_path cwd (a @ ''/'' @ b) = home_path (foldl resolve_step (''~'' # ps) (split_path b))"
      using split by (simp add: resolve_path_alt)
    then show ?thesis using left ps by auto
  qed
qed

text \<open>
  What \<open>pwd\<close> and \<open>$HOME\<close> say is no path of the terminal: it is read as one below the home directory.
\<close>

lemma to_absolute_path: "to_absolute (path_of ps) = HOME_DIR @ drop 1 (path_of ps)"
  by (cases ps) (simp_all add: to_absolute_def path_of_def)

lemma absolute_path_unresolved:
  assumes "plain ps"
  shows "resolve_path cwd (to_absolute (path_of ps)) = path_of (''home'' # ''developer'' # ps)"
proof -
  have "to_absolute (path_of ps) = ''/home/developer'' @ (if ps = [] then [] else ''/'' @ join_with ''/'' ps)"
    unfolding to_absolute_path by (cases ps) (simp_all add: path_of_def HOME_DIR_def)
  moreover have "split_path (''home/developer'' @ ''/'' @ join_with ''/'' ps) = ''home'' # ''developer'' # ps"
    using split_path_join [of ps] assms
    by (simp only: split_path_append) (simp add: plain_def proper_def split_path_def)
  moreover have "plain (''home'' # ''developer'' # ps)"
    using assms by (simp add: plain_def proper_def)
  ultimately show ?thesis
    using foldl_home [of "''home'' # ''developer'' # ps"]
    by (cases "ps = []") (simp_all add: resolve_path_alt path_parts_def home_path_def split_path_def)
qed

text \<open>
  A copy into the home directory makes the home directory its own child, so that a walk over it does not
  end.
\<close>

lemma walk_cycle:
  assumes "child st root k = Some root"
  shows "walk_tree n st root base = None"
    and "(k, root) \<in> set es \<Longrightarrow> walk_children n st es base = None"
proof -
  obtain cs t m where d: "st ! root = DirNode cs t m" and k: "(k, root) \<in> set cs"
    using assms by (cases "st ! root") (auto simp: child_def dest: map_of_SomeD)
  have "(\<forall>base. walk_tree n st root base = None) \<and>
      (\<forall>es base. (k, root) \<in> set es \<longrightarrow> walk_children n st es base = None)"
  proof (induction n)
    case 0
    have "walk_children 0 st es base = None" if "(k, root) \<in> set es" for es base
      using that by (cases es) auto
    then show ?case by simp
  next
    case (Suc n)
    then have tree: "walk_tree (Suc n) st root base = None" for base by (simp add: d k)
    have "walk_children (Suc n) st es base = None" if "(k, root) \<in> set es" for es base
      using that
    proof (induction es)
      case (Cons e es)
      then show ?case using tree by (cases e) (auto split: option.split simp del: walk_tree.simps)
    qed simp
    with tree show ?case by simp
  qed
  then show "walk_tree n st root base = None"
    and "(k, root) \<in> set es \<Longrightarrow> walk_children n st es base = None" by auto
qed

text \<open>
  A copy of a file to the home directory itself makes the home directory its own child: the store is
  not sound any more, and no walk over it, as \<open>find\<close> and \<open>grep -r\<close> make them, comes to an end.
\<close>

lemma copy_home_cycle:
  assumes "sound st root" and "plain sps" and "view_from st root sps = Some (FileEntry c)"
    and "copy_node root (path_of sps) ''~'' recursive st = (st', r)"
  shows "r = Copied \<and> child st' root ''~'' = Some root \<and> \<not> sound st' root \<and> walk_tree n st' root base = None"
proof -
  from assms(3) obtain s where s: "descend st root sps = Some s" "\<not> is_dir st s"
    by (auto simp: view_from_def is_dir_entry)
  have home: "get_node st root ''~'' = Some root" by (simp add: get_node_def split_path_def)
  note root = soundD(2,3) [OF assms(1)]
  have parent: "get_parent st root ''~'' = (Some root, ''~'')"
    using root(2) home by (simp add: get_parent_def split_path_def)
  have proper: "proper sps" using assms(2) by (simp add: plain_def)
  have node: "get_node st root (path_of sps) = Some s" using s(1) proper by (simp add: get_node_at)
  let ?st1 = "set_child root ''~'' root st"
  obtain c' t m where leaf: "st ! s = FileNode c' t m" using s(2) by (cases "st ! s") (auto simp: is_dir_def)
  then have "s \<noteq> root" using root(2) by (auto simp: is_dir_def)
  then have leaf1: "?st1 ! s = FileNode c' t m"
    using \<open>st ! s = _\<close> by (cases "st ! root") (auto simp: set_child_def)
  have "sps \<noteq> []" using s root(2) by auto
  then have base: "base_name (path_of sps) ''~'' = last sps" "last sps \<noteq> ''~''"
    using base_name_path_of [OF proper] assms(2) by (auto simp: plain_def)
  obtain k where k: "length ?st1 = Suc k" using root(1) by (cases "length ?st1") auto
  let ?st2 = "?st1 @ [FileNode c' t m]"
  have "clone_node (length ?st1) ?st1 s = Some (?st2, length ?st1)"
    using leaf1 by (subst k) simp
  then have res: "r = Copied" "st' = set_child root (last sps) (length ?st1) ?st2"
    using assms(4) node parent home s(2) root(2) base(1) by (auto simp: copy_node_def Let_def)
  have "child ?st1 root ''~'' = Some root" using root by (simp add: child_set_child)
  then have "root < length ?st2" "is_dir ?st2 root" "child ?st2 root ''~'' = Some root"
    using root by (simp_all add: child_def is_dir_def nth_append set_child_def split: fs_node.splits)
  then have cyc: "child st' root ''~'' = Some root"
    using base(2) by (simp add: res(2) child_set_child)
  then have "descend st' root [] = Some root" "descend st' root [''~''] = Some root" by simp_all
  then have "\<not> unshared st' root" unfolding unshared_def by blast
  then show ?thesis using res(1) cyc walk_cycle(1) [OF cyc] by (simp add: sound_def)
qed

section \<open>Patterns\<close>

text \<open>What a pattern means: a star any text, every other character itself, but a question mark a point.\<close>

fun glob :: "string \<Rightarrow> string \<Rightarrow> bool" where
  "glob [] s = (s = [])"
| "glob (p # ps) s =
     (if p = CHR ''*'' then glob ps s \<or> (case s of [] \<Rightarrow> False | c # cs \<Rightarrow> \<not> line_end c \<and> glob (p # ps) cs)
      else (case s of [] \<Rightarrow> False | c # cs \<Rightarrow> c = (if p = CHR ''?'' then CHR ''.'' else p) \<and> glob ps cs))"

lemma pattern_source_Cons:
  "pattern_source (p # ps) =
     (if p = CHR ''*'' then ''.*'' else if p = CHR ''?'' then [CHR 0x5C, CHR ''.'']
      else if escaped_in_pattern p then [CHR 0x5C, p] else [p]) @ pattern_source ps"
  by (auto simp: pattern_source_def escaped_in_pattern_def Let_def)

lemma match_pattern_glob: "match_pattern s ps = glob ps s"
proof -
  have "regex_matches (pattern_source ps) s = glob ps s"
  proof (induction ps s rule: glob.induct)
    case (2 p ps s)
    note IH = 2
    consider "p = CHR ''*''" | "p \<noteq> CHR ''*''" "p = CHR ''?'' \<or> escaped_in_pattern p"
      | "p \<noteq> CHR ''*''" "p \<noteq> CHR ''?''" "\<not> escaped_in_pattern p" by blast
    then show ?case
    proof cases
      case 1
      then have src: "pattern_source (p # ps) = CHR ''.'' # CHR ''*'' # pattern_source ps"
        by (simp add: pattern_source_Cons)
      show ?thesis
        using 1 IH unfolding src by (subst regex_matches.simps) (simp add: src split: list.split)
    next
      case 2
      then have "pattern_source (p # ps) =
          CHR 0x5C # (if p = CHR ''?'' then CHR ''.'' else p) # pattern_source ps"
        by (auto simp: pattern_source_Cons)
      then show ?thesis using 2 IH by (simp split: list.split)
    next
      case 3
      then have "pattern_source (p # ps) = p # pattern_source ps" by (simp add: pattern_source_Cons)
      moreover have "p \<noteq> CHR 0x5C" "p \<noteq> CHR ''.''" using 3 by (auto simp: escaped_in_pattern_def)
      ultimately show ?thesis using 3 IH by (simp split: list.split)
    qed
  qed (simp add: pattern_source_def)
  then show ?thesis by (simp add: match_pattern_def)
qed

section \<open>The operations on the first file system\<close>

lemma proper_names: "proper [''notes'', ''new'']" "proper [''notes'', ''todo.txt'']" "proper [''bin'']" "proper [''.bashrc'']"
  "plain [''.bashrc'']" "plain [''notes'']"
  by (simp_all add: proper_def plain_def)





text \<open>
  Making a directory makes the ones missing on its path, and changes nothing else; it is refused
  exactly for a path through a file, and, unless asked for the parents, for one whose directory is not
  there; and then nothing changes, although the parents are made one by one.
\<close>

lemma make_dir_refines:
  assumes "sound st root" and "proper ps"
  shows "implements root st (make_dir_at root now (path_of ps) recursive st)
    (spec_make_dir ps recursive (view_from st root))"
  using assms by (rule make_dir_implements)

lemma make_dir_refines_witness:
  "implements (snd initial_store) (fst initial_store)
     (make_dir_at (snd initial_store) 0 (path_of [''notes'', ''new'']) False (fst initial_store))
     (spec_make_dir [''notes'', ''new''] False (view_from (fst initial_store) (snd initial_store)))"
  by (rule make_dir_refines [OF initial_store_sound proper_names(1)])

text \<open>
  C17: a copy ends, and copies the whole tree below the source to the path given, or into the directory
  that is there, replacing what was there, as the tree was before the copy (also when it is copied into
  itself); the destination must not be the home directory.
\<close>

theorem copy_node_refines:
  assumes "sound st root" and "proper sps" and "proper dps" and "dps \<noteq> []"
    and "copy_node root (path_of sps) (path_of dps) recursive st = (st', r)"
  shows "r \<noteq> Overflow \<and>
    implements root st (st', copy_message r) (spec_copy sps dps recursive (view_from st root))"
  using assms by (rule copy_node_implements)

theorem copy_node_refines_witness:
  "let r = copy_node (snd initial_store) (path_of [''bin'']) (path_of [''notes'', ''new'']) True (fst initial_store)
   in snd r \<noteq> Overflow \<and>
     implements (snd initial_store) (fst initial_store) (fst r, copy_message (snd r))
       (spec_copy [''bin''] [''notes'', ''new''] True (view_from (fst initial_store) (snd initial_store)))"
  using copy_node_refines [OF initial_store_sound proper_names(3,1) _ surjective_pairing, of True] by (simp add: Let_def)



lemma resolve_path_compose_witness:
  "resolve_path (resolve_path (path_of [''notes'']) ''../bin'') ''deploy'' = resolve_path (path_of [''notes'']) ''../bin/deploy''"
  using resolve_path_compose [OF refl proper_names(6), of "''deploy''" "''../bin''"] by simp

text \<open>A home directory with one file.\<close>

definition one_file :: "store \<times> nat" where
  "one_file = place (DirTree [(''a'', FileTree ''x'')]) []"

lemma one_file_eq: "one_file = ([make_file ''x'' BASE_TIME, make_dir [(''a'', 0)] BASE_TIME], 1)"
  by (simp add: one_file_def)

lemma one_file_sound: "sound (fst one_file) (snd one_file)"
proof -
  have "tree_ok (DirTree [(''a'', FileTree ''x'')])" by simp
  then have "grown [] (fst one_file) [([], snd one_file)]"
    unfolding one_file_def by (rule place_grown(1)) simp
  then show ?thesis by (rule grown_sound [OF _ closed_Nil]) (simp add: one_file_eq is_dir_def make_dir_def)
qed

lemma one_file_view: "plain [''a'']" "view_from (fst one_file) (snd one_file) [''a''] = Some (FileEntry ''x'')"
  by (simp_all add: plain_def proper_def one_file_eq view_from_def child_def make_dir_def make_file_def node_entry_def)

lemma copy_home_cycle_witness:
  "let r = copy_node (snd one_file) (path_of [''a'']) ''~'' False (fst one_file)
   in snd r = Copied \<and> \<not> sound (fst r) (snd one_file) \<and> walk_tree 5 (fst r) (snd one_file) ''~'' = None"
  using copy_home_cycle [OF one_file_sound one_file_view surjective_pairing] by (simp add: Let_def)

end
