(* ===== verification/FileSystemWalk.thy ===== *)
theory FileSystemWalk
  imports FileSystemSpec
begin

text \<open>
  Walks over the file system list each path once when the store is sound, and every operation keeps the
  store well formed, also where it makes a cycle.
\<close>

section \<open>Walks\<close>

definition below :: "string list \<Rightarrow> string" where
  "below ps = concat (map (Cons (CHR ''/'')) ps)"

lemma below_simps [simp]: "below [] = []" "below (p # ps) = CHR ''/'' # p @ below ps"
  by (simp_all add: below_def)

lemma path_of_append: "path_of (qs @ ps) = path_of qs @ below ps"
proof -
  have "join_with ''/'' ((x # xs) @ ps) = join_with ''/'' (x # xs) @ below ps" for x xs
    by (induction xs arbitrary: x) (simp_all, induction ps, simp_all)
  then show ?thesis by (simp add: path_of_def)
qed

text \<open>
  A walk with a bound that no path reaches lists every path, with the node it leads to; without sharing no
  node is listed twice. \<open>apart\<close> says that of the paths that begin with a list of entries.
\<close>

definition apart :: "store \<Rightarrow> (string \<times> nat) list \<Rightarrow> bool" where
  "apart st es =
     (\<forall>e \<in> set es. \<forall>e' \<in> set es. \<forall>ps qs b.
        descend st (snd e) ps = Some b \<longrightarrow> descend st (snd e') qs = Some b \<longrightarrow> fst e = fst e' \<and> ps = qs)"

lemma apart_entries [simp]: "apart st (object_entries cs) = apart st cs"
  by (simp add: apart_def)

lemma apartD:
  "apart st es \<Longrightarrow> e \<in> set es \<Longrightarrow> e' \<in> set es \<Longrightarrow> descend st (snd e) ps = Some b \<Longrightarrow>
     descend st (snd e') qs = Some b \<Longrightarrow> fst e = fst e' \<and> ps = qs"
  unfolding apart_def by blast

lemma apart_head: "apart st ((k, c) # es) \<Longrightarrow> unshared st c"
  unfolding unshared_def using apartD [of st "(k, c) # es" "(k, c)" "(k, c)"] by force

lemma apart_tail: "apart st (e # es) \<Longrightarrow> apart st es"
  unfolding apart_def by (meson list.set_intros(2))

lemma walk_lists:
  "closed st \<Longrightarrow> a < length st \<Longrightarrow> (\<And>ps. descend st a ps \<noteq> None \<Longrightarrow> length ps < n) \<Longrightarrow>
     \<exists>xs. walk_tree n st a base = Some xs \<and> set xs = {(base @ below ps, b) | ps b. descend st a ps = Some b} \<and>
       (unshared st a \<longrightarrow> distinct (map snd xs))"
  "closed st \<Longrightarrow> \<forall>e \<in> set es. snd e < length st \<Longrightarrow>
     (\<And>e ps. e \<in> set es \<Longrightarrow> descend st (snd e) ps \<noteq> None \<Longrightarrow> length ps < n) \<Longrightarrow>
     \<exists>xs. walk_children n st es base = Some xs \<and>
       set xs = {(base @ below (k # ps), b) | k c ps b. (k, c) \<in> set es \<and> descend st c ps = Some b} \<and>
       (apart st es \<and> distinct (map fst es) \<longrightarrow> distinct (map snd xs))"
proof (induction n st a base and n st es base rule: walk_tree_walk_children.induct)
  case (1 st a base)
  have "length ([] :: string list) < 0" by (rule 1(3)) simp
  then show ?case by simp
next
  case (2 n st a base)
  show ?case
  proof (cases "st ! a")
    case (FileNode c t m)
    then have "descend st a ps = Some b \<longleftrightarrow> ps = [] \<and> b = a" for ps b
      by (cases ps) (auto simp: child_kids)
    then have "{(base @ below ps, b) | ps b. descend st a ps = Some b} = {(base, a)}" by simp
    with FileNode show ?thesis by simp
  next
    case (DirNode cs t m)
    have cs: "is_dict cs" "\<forall>e \<in> set (object_entries cs). snd e < length st"
      using closedD [OF 2(2,3)] DirNode by simp_all
    have kid: "child st a k = Some c \<longleftrightarrow> (k, c) \<in> set cs" for k c
      using cs(1) by (simp add: child_kids DirNode is_dict_def)
    have "length ps < n" if "e \<in> set (object_entries cs)" "descend st (snd e) ps \<noteq> None" for e ps
      using 2(4) [of "fst e # ps"] that kid [of "fst e" "snd e"] by simp
    then obtain xs where xs: "walk_children n st (object_entries cs) base = Some xs"
      "set xs = {(base @ below (k # ps), b) | k c ps b. (k, c) \<in> set cs \<and> descend st c ps = Some b}"
      "apart st cs \<longrightarrow> distinct (map snd xs)"
      using 2(1) [OF DirNode 2(2) cs(2)] cs(1) by (auto simp: is_dict_def)
    have path: "descend st a (k # ps) = Some b" if "(k, c) \<in> set cs" "descend st c ps = Some b" for k c ps b
      using that kid [of k c] by simp
    have "(y \<in> {(base @ below ps, b) | ps b. descend st a ps = Some b}) \<longleftrightarrow> y \<in> insert (base, a) (set xs)" for y
    proof
      assume "y \<in> {(base @ below ps, b) | ps b. descend st a ps = Some b}"
      then obtain ps b where y: "y = (base @ below ps, b)" "descend st a ps = Some b" by blast
      then show "y \<in> insert (base, a) (set xs)"
        by (cases ps) (auto simp: xs(2) kid split: option.splits simp del: below_simps(2))
    next
      assume "y \<in> insert (base, a) (set xs)"
      then consider "y = (base @ below [], a)" | k c ps b where "y = (base @ below (k # ps), b)" "(k, c) \<in> set cs" "descend st c ps = Some b"
        unfolding xs(2) by auto
      then show "y \<in> {(base @ below ps, b) | ps b. descend st a ps = Some b}"
      proof cases
        case 1
        moreover have "descend st a [] = Some a" by simp
        ultimately show ?thesis by blast
      next
        case 2
        with path show ?thesis by blast
      qed
    qed
    then have "set ((base, a) # xs) = {(base @ below ps, b) | ps b. descend st a ps = Some b}" by auto
    moreover have "distinct (map snd ((base, a) # xs))" if "unshared st a"
    proof -
      have "apart st cs"
        unfolding apart_def
      proof (intro ballI allI impI)
        fix e e' ps qs b
        assume "e \<in> set cs" "e' \<in> set cs" and b: "descend st (snd e) ps = Some b" "descend st (snd e') qs = Some b"
        then have "descend st a (fst e # ps) = Some b" "descend st a (fst e' # qs) = Some b"
          by (intro path [of _ "snd e"] path [of _ "snd e'"]; simp)+
        then have "fst e # ps = fst e' # qs" using \<open>unshared st a\<close> unfolding unshared_def by blast
        then show "fst e = fst e' \<and> ps = qs" by simp
      qed
      then have "distinct (map snd xs)" using xs(3) by simp
      moreover have "a \<notin> snd ` set xs"
      proof
        assume "a \<in> snd ` set xs"
        then obtain k c ps where "(k, c) \<in> set cs" "descend st c ps = Some a" by (auto simp: xs(2))
        then have "descend st a (k # ps) = Some a" by (rule path)
        moreover have "descend st a [] = Some a" by simp
        ultimately show False using \<open>unshared st a\<close> unfolding unshared_def by blast
      qed
      ultimately show ?thesis by simp
    qed
    ultimately show ?thesis using DirNode xs(1) by simp
  qed
next
  case (4 n st k c es base)
  obtain xs where xs: "walk_tree n st c (base @ ''/'' @ k) = Some xs"
    "set xs = {((base @ ''/'' @ k) @ below ps, b) | ps b. descend st c ps = Some b}"
    "unshared st c \<longrightarrow> distinct (map snd xs)"
    using 4(1) [OF 4(3)] 4(4,5) by fastforce
  obtain ys where ys: "walk_children n st es base = Some ys"
    "set ys = {(base @ below (k # ps), b) | k c ps b. (k, c) \<in> set es \<and> descend st c ps = Some b}"
    "apart st es \<and> distinct (map fst es) \<longrightarrow> distinct (map snd ys)"
    using 4(2) [OF xs(1) 4(3)] 4(4,5) by fastforce
  have "set (xs @ ys) = {(base @ below (k' # ps), b) | k' c' ps b. (k', c') \<in> set ((k, c) # es) \<and> descend st c' ps = Some b}"
    unfolding set_append xs(2) ys(2) by auto
  moreover have "distinct (map snd (xs @ ys))" if "apart st ((k, c) # es)" "distinct (map fst ((k, c) # es))"
  proof -
    have "unshared st c" "apart st es" by (rule apart_head [OF that(1)], rule apart_tail [OF that(1)])
    then have "distinct (map snd xs)" "distinct (map snd ys)" using xs(3) ys(3) that(2) by simp_all
    moreover have False if "b \<in> snd ` set xs" "b \<in> snd ` set ys" for b
    proof -
      from that obtain ps k' c' qs where "descend st c ps = Some b" "(k', c') \<in> set es" "descend st c' qs = Some b"
        by (auto simp: xs(2) ys(2))
      then have "k = k'" using apartD [OF \<open>apart st ((k, c) # es)\<close>, of "(k, c)" "(k', c')"] by simp
      with \<open>(k', c') \<in> set es\<close> \<open>distinct (map fst ((k, c) # es))\<close> show False by force
    qed
    ultimately show ?thesis by auto
  qed
  ultimately show ?case using xs(1) ys(1) by simp
qed simp_all

text \<open>So on a sound store a walk ends, and lists the paths of the view once each.\<close>

lemma walk_sound:
  assumes "closed st" and "a < length st" and "unshared st a"
  obtains xs where "walk_tree (length st) st a base = Some xs"
    and "fst ` set xs = {base @ below ps | ps. view_from st a ps \<noteq> None}"
    and "length xs = card {ps. view_from st a ps \<noteq> None}" and "finite {ps. view_from st a ps \<noteq> None}"
proof -
  have "length ps < length st" if "descend st a ps \<noteq> None" for ps
    using that unshared_depth [OF assms] by auto
  then obtain xs where xs: "walk_tree (length st) st a base = Some xs"
    "set xs = {(base @ below ps, b) | ps b. descend st a ps = Some b}" "distinct (map snd xs)"
    using walk_lists(1) [OF assms(1,2), of "length st" base] assms(3) by auto
  have dom: "{ps. view_from st a ps \<noteq> None} = {ps. \<exists>b. descend st a ps = Some b}" by (auto simp: view_None)
  have "fst ` set xs = {base @ below ps | ps. view_from st a ps \<noteq> None}"
    unfolding xs(2) view_None by force
  moreover have "bij_betw (\<lambda>ps. the (descend st a ps)) {ps. view_from st a ps \<noteq> None} (snd ` set xs)"
    unfolding bij_betw_def
  proof
    show "inj_on (\<lambda>ps. the (descend st a ps)) {ps. view_from st a ps \<noteq> None}"
      unfolding dom by (rule inj_onI) (use assms(3) in \<open>auto simp: unshared_def\<close>)
    show "(\<lambda>ps. the (descend st a ps)) ` {ps. view_from st a ps \<noteq> None} = snd ` set xs"
      unfolding dom xs(2) by force
  qed
  then have "card {ps. view_from st a ps \<noteq> None} = card (snd ` set xs)" "finite {ps. view_from st a ps \<noteq> None}"
    by (simp_all add: bij_betw_same_card bij_betw_finite)
  moreover have "card (snd ` set xs) = length xs" using distinct_card [OF xs(3)] by simp
  ultimately show thesis using that xs(1) by simp
qed

section \<open>Well-formed stores\<close>

text \<open>What every operation keeps, also those that make a cycle or share a node.\<close>

definition well_formed :: "store \<Rightarrow> nat \<Rightarrow> bool" where
  "well_formed st root = (closed st \<and> root < length st \<and> is_dir st root)"

lemma sound_well_formed: "sound st root \<Longrightarrow> well_formed st root"
  by (simp add: sound_def well_formed_def)

lemma well_formed_link:
  "well_formed st root \<Longrightarrow> b < length st \<Longrightarrow> well_formed (set_child a k b st) root"
  "well_formed st root \<Longrightarrow> well_formed (del_child a k st) root"
  by (simp_all add: well_formed_def closed_set_child closed_del_child)

lemma well_formed_append: "well_formed st root \<Longrightarrow> kids n = [] \<Longrightarrow> well_formed (st @ [n]) root"
  by (simp add: well_formed_def closed_append is_dir_def nth_append)

lemma well_formed_update:
  assumes "well_formed st root" and "kids n = kids (st ! a)" and "node_entry n = node_entry (st ! a) \<or> \<not> is_dir st a"
  shows "well_formed (st[a := n]) root"
proof -
  have "closed (st[a := n])"
    using assms(1,2) closedD [of st a] by (intro closed_update) (auto simp: well_formed_def)
  moreover have "is_dir (st[a := n]) root"
    using assms by (cases "root = a") (auto simp: well_formed_def is_dir_entry)
  ultimately show ?thesis using assms(1) by (simp add: well_formed_def)
qed

lemma well_formed_mtime: "well_formed st root \<Longrightarrow> well_formed (set_mtime a now st) root"
  unfolding set_mtime_def by (rule well_formed_update) (simp_all split: fs_node.split)

lemma get_node_bound:
  assumes "well_formed st root" and "get_node st root path = Some a"
  shows "a < length st"
  using assms descend_closed [of st root] by (auto simp: get_node_def well_formed_def split: list.splits if_splits)

lemma get_parent_bound:
  assumes "well_formed st root" and "get_parent st root path = (Some a, name)"
  shows "a < length st \<and> is_dir st a"
  using assms get_node_bound [OF assms(1)] by (auto simp: get_parent_def Let_def split: if_splits option.splits)

lemma child_bound: "well_formed st root \<Longrightarrow> a < length st \<Longrightarrow> child st a k = Some b \<Longrightarrow> b < length st"
  using closed_child by (simp add: well_formed_def)

lemma write_file_well_formed:
  assumes "well_formed st root"
  shows "well_formed (fst (write_file root now path content adding st)) root"
proof -
  have "well_formed (set_child a k (length st) (st @ [make_file content now])) root" for a k
    using assms by (intro well_formed_link(1) well_formed_append) (simp_all add: make_file_def)
  moreover have "well_formed (st[a := FileNode c' now m]) root" if "st ! a = FileNode c t m" for a c' c t m
    using assms that by (intro well_formed_update) (simp_all add: is_dir_def)
  ultimately show ?thesis
    using assms by (auto simp: write_file_def split: prod.split option.split fs_node.split)
qed

lemma make_dirs_well_formed:
  "well_formed st root \<Longrightarrow> well_formed (fst (make_dirs path recursive now a ps st)) root"
proof (induction path recursive now a ps st rule: make_dirs.induct)
  case (2 path recursive now a p ps st)
  have "well_formed (set_child a p (length st) (st @ [make_dir [] now])) root"
    using 2(3) by (intro well_formed_link(1) well_formed_append) (simp_all add: make_dir_def)
  with 2 show ?case by (auto split: option.split)
qed simp

lemma make_dir_well_formed:
  "well_formed st root \<Longrightarrow> well_formed (fst (make_dir_at root now path recursive st)) root"
  by (simp add: make_dir_at_def make_dirs_well_formed split: list.split)

lemma remove_node_well_formed:
  "well_formed st root \<Longrightarrow> well_formed (fst (remove_node root path recursive st)) root"
  by (auto simp: remove_node_def Let_def intro: well_formed_link split: prod.split option.split)

lemma clone_well_formed:
  assumes "well_formed st root" and "a < length st" and "clone_node n st a = Some (st', b)"
  shows "well_formed st' root \<and> b < length st' \<and> (\<exists>ext. st' = st @ ext)"
proof -
  have cl: "closed st" using assms(1) by (simp add: well_formed_def)
  have g: "grown st st' [([], b)]" using clone_spec(1) [OF assms(3) cl assms(2)] by blast
  then obtain ext where "st' = st @ ext" using grownD [OF g cl] by auto
  moreover have "closed st'" using grownD(1) [OF g cl] .
  moreover have "b < length st'" using grown_bound [OF g cl, of "([], b)"] by simp
  ultimately show ?thesis using assms(1) by (auto simp: well_formed_def is_dir_def nth_append)
qed

lemma copy_node_well_formed:
  assumes "well_formed st root"
  shows "well_formed (fst (copy_node root src dest recursive st)) root"
proof -
  have plain: "well_formed (set_child a k b st2) root"
    if "well_formed st1 root" and "s < length st1" and "clone_node n st1 s = Some (st2, b)" for st1 st2 s n a k b
    using clone_well_formed [OF that] by (auto intro: well_formed_link)
  have link: "well_formed (set_child p k d st) root" if "get_node st root dest = Some d" for p k d
    using well_formed_link(1) [OF assms get_node_bound [OF assms that]] .
  have "well_formed (set_child a k b st2) root"
    if "get_node st root src = Some s" and "clone_node n st s = Some (st2, b)" for s n st2 a k b
    using plain [OF assms get_node_bound [OF assms that(1)] that(2)] .
  moreover have "well_formed (set_child a k b st2) root"
    if "get_node st root dest = Some d" and "get_node st root src = Some s"
      and "clone_node n (set_child p q d st) s = Some (st2, b)" for d s n p q st2 a k b
    using plain [OF link [OF that(1)] _ that(3)] get_node_bound [OF assms that(2)] by simp
  ultimately show ?thesis
    using assms link by (auto simp: copy_node_def Let_def split: prod.split option.split)
qed

lemma move_node_well_formed:
  assumes "well_formed st root"
  shows "well_formed (fst (move_node root src dest st)) root"
  using assms get_node_bound [OF assms]
  by (auto simp: move_node_def Let_def intro!: well_formed_link split: prod.split option.split)

section \<open>Sound stores\<close>

text \<open>The home directory's own path leads to its parent and name like a name in the home directory.\<close>

lemma get_parent_home: "get_parent st root (path_of []) = get_parent st root (path_of [''~''])"
  by (simp add: get_parent_def path_of_def split_path_def)

lemma write_file_sound:
  assumes "sound st root" and "proper ps"
  shows "sound (fst (write_file root now (path_of ps) content adding st)) root"
proof -
  have named: "sound (fst (write_file root now (path_of qs) content adding st)) root" if "proper qs" "qs \<noteq> []" for qs
    using write_file_implements [OF assms(1) that, of now content adding] assms(1)
    by (auto simp: implements_def split: option.splits)
  show ?thesis
  proof (cases "ps = []")
    case True
    have "fst (write_file root now (path_of []) content adding st) = fst (write_file root now (path_of [''~'']) content adding st)"
      unfolding write_file_def get_parent_home by (simp split: prod.split option.split fs_node.split)
    then show ?thesis using named [of "[''~'']"] True by (simp add: proper_def)
  qed (use named assms(2) in simp)
qed

lemma remove_node_sound:
  assumes "sound st root" and "proper ps"
  shows "sound (fst (remove_node root (path_of ps) recursive st)) root"
proof -
  have named: "sound (fst (remove_node root (path_of qs) recursive st)) root" if "proper qs" "qs \<noteq> []" for qs
    using remove_node_implements [OF assms(1) that, of recursive] assms(1)
    by (auto simp: implements_def split: option.splits)
  show ?thesis
  proof (cases "ps = []")
    case True
    have "fst (remove_node root (path_of []) recursive st) = fst (remove_node root (path_of [''~'']) recursive st)"
      unfolding remove_node_def get_parent_home Let_def by (simp split: prod.split option.split)
    then show ?thesis using named [of "[''~'']"] True by (simp add: proper_def)
  qed (use named assms(2) in simp)
qed

lemma make_dir_sound:
  assumes "sound st root" and "proper ps"
  shows "sound (fst (make_dir_at root now (path_of ps) recursive st)) root"
  using make_dir_implements [OF assms, of now recursive] assms(1)
  by (auto simp: implements_def split: option.splits)

lemma move_node_sound:
  assumes "sound st root" and "proper sps" and "sps \<noteq> []" and "proper dps"
  shows "sound (fst (move_node root (path_of sps) (path_of dps) st)) root"
  using move_node_implements [OF assms] assms(1) by (auto simp: implements_def split: option.splits)

lemma copy_node_sound:
  assumes "sound st root" and "proper sps" and "proper dps" and "dps \<noteq> []"
  shows "sound (fst (copy_node root (path_of sps) (path_of dps) recursive st)) root"
    and "snd (copy_node root (path_of sps) (path_of dps) recursive st) \<noteq> Overflow"
  using copy_node_implements [OF assms surjective_pairing, of recursive] assms(1)
  by (auto simp: implements_def split: option.splits)

end
