(* ===== verification/ShellSyntax.thy ===== *)
theory ShellSyntax
  imports FileSystem "HOL-Library.List_Lexorder"
begin

text \<open>
  The parts of the landing page's shell (\<open>web/src/app/page.tsx\<close>) that do not touch the file system: how a
  line becomes tokens, variables, redirections and groups of commands, the arithmetic of \<open>bc\<close> and \<open>expr\<close>,
  the calendar, and the candidates of a completion.
\<close>

section \<open>Lines of output and the list of commands\<close>

record output_line =
  ol_text :: string
  ol_cls :: "string option"

definition COMMAND_LIST :: "string list" where
  "COMMAND_LIST =
     [''help'', ''ls'', ''cd'', ''pwd'', ''cat'', ''echo'', ''clear'', ''reset'', ''whoami'',
      ''id'', ''date'', ''tree'', ''mkdir'', ''touch'', ''rm'', ''mv'', ''cp'', ''find'',
      ''stat'', ''grep'', ''head'', ''tail'', ''wc'', ''sort'', ''uniq'', ''cut'', ''tr'',
      ''sed'', ''history'', ''alias'', ''unalias'', ''export'', ''unset'', ''env'', ''printenv'',
      ''which'', ''type'', ''file'', ''uname'', ''hostname'', ''uptime'', ''ps'', ''df'',
      ''free'', ''ip'', ''ifconfig'', ''netstat'', ''ping'', ''curl'', ''wget'', ''ssh'',
      ''git'', ''npm'', ''npx'', ''node'', ''python'', ''python3'', ''make'', ''docker'',
      ''sleep'', ''true'', ''false'', ''yes'', ''seq'', ''factor'', ''bc'', ''expr'', ''cal'',
      ''man'', ''apropos'', ''fortune'', ''cowsay'', ''sl'', ''exit'']"

definition HELP_LINES :: "string list" where
  "HELP_LINES =
     [''Files: ls, cd, pwd, cat, touch, mkdir, rm, mv, cp, find, stat, tree'',
      ''Text: grep, sort, uniq, wc, head, tail, cut, tr, sed'',
      ''Shell: alias, export, unset, env, printenv, history, type, which, clear'',
      ''System: date, uname, id, whoami, uptime, ps, df, free, hostname'',
      ''Network: ping, curl, wget, ssh, ip, ifconfig, netstat'',
      ''Dev: git, npm, npx, node, python3, make, docker'',
      ''Fun: fortune, cowsay, man, apropos, sl'',
      ''Features: pipes |, redirection > >>, variables $VAR, chaining &&'']"

section \<open>Tokens\<close>

definition push_token :: "string \<Rightarrow> string list" where
  "push_token current = (if current = [] then [] else [current])"

text \<open>The loop of \<open>tokenize\<close> from a place of the line on: the token begun, and the quotes that are open.\<close>

function tokenize_from :: "string \<Rightarrow> string \<Rightarrow> bool \<Rightarrow> bool \<Rightarrow> string list" where
  "tokenize_from [] current single double = push_token current"
| "tokenize_from (c # cs) current single double =
     (if c = CHR 0x5C \<and> \<not> single \<and> cs \<noteq> [] then tokenize_from (tl cs) (current @ [hd cs]) single double
      else if c = CHR 0x27 \<and> \<not> double then tokenize_from cs current (\<not> single) double
      else if c = CHR 0x22 \<and> \<not> single then tokenize_from cs current single (\<not> double)
      else if \<not> single \<and> \<not> double \<and> c = CHR ''&'' \<and> starts_with cs ''&'' then
        push_token current @ ''&&'' # tokenize_from (tl cs) [] single double
      else if \<not> single \<and> \<not> double \<and> c = CHR ''>'' then
        (if starts_with cs ''>'' then push_token current @ ''>>'' # tokenize_from (tl cs) [] single double
         else push_token current @ ''>'' # tokenize_from cs [] single double)
      else if \<not> single \<and> \<not> double \<and> (c = CHR ''|'' \<or> c = CHR '';'') then
        push_token current @ [c] # tokenize_from cs [] single double
      else if \<not> single \<and> \<not> double \<and> is_space c then push_token current @ tokenize_from cs [] single double
      else tokenize_from cs (current @ [c]) single double)"
  by pat_completeness auto
termination
  by (relation "measure (\<lambda>(s, _). length s)") auto

definition tokenize :: "string \<Rightarrow> string list" where
  "tokenize input = tokenize_from input [] False False"

text \<open>A variable's value; \<open>PWD\<close> and \<open>HOME\<close> have one also when they are unset.\<close>

type_synonym vars = "(string \<times> string) list"

definition variable :: "vars \<Rightarrow> int \<Rightarrow> string \<Rightarrow> string \<Rightarrow> string" where
  "variable env last_status cwd key =
     (if key = ''?'' then show_int last_status
      else if key = ''PWD'' then (case map_of env ''PWD'' of None \<Rightarrow> to_absolute cwd | Some v \<Rightarrow> v)
      else if key = ''HOME'' then (case map_of env ''HOME'' of None \<Rightarrow> HOME_DIR | Some v \<Rightarrow> v)
      else (case map_of env key of None \<Rightarrow> [] | Some v \<Rightarrow> v))"

text \<open>\<open>token.replace(/\$(\w+|\?|\{[^}]+\})/g, ...)\<close>, from left to right.\<close>

function expand_token :: "string \<Rightarrow> vars \<Rightarrow> int \<Rightarrow> string \<Rightarrow> string" where
  "expand_token [] env last_status cwd = []"
| "expand_token (c # cs) env last_status cwd =
     (let name = takeWhile word_char cs; braced = takeWhile (\<lambda>x. x \<noteq> CHR ''}'') (tl cs);
          after = drop (length braced) (tl cs)
      in if c \<noteq> CHR ''$'' then c # expand_token cs env last_status cwd
         else if name \<noteq> [] then
           variable env last_status cwd name @ expand_token (drop (length name) cs) env last_status cwd
         else if starts_with cs ''?'' then
           variable env last_status cwd ''?'' @ expand_token (tl cs) env last_status cwd
         else if starts_with cs ''{'' \<and> braced \<noteq> [] \<and> after \<noteq> [] then
           variable env last_status cwd braced @ expand_token (tl after) env last_status cwd
         else c # expand_token cs env last_status cwd)"
  by pat_completeness auto
termination
  by (relation "measure (\<lambda>(s, _). length s)") auto

fun split_groups :: "string \<Rightarrow> string list \<Rightarrow> string list \<Rightarrow> string list list" where
  "split_groups opr current [] = (if current = [] then [] else [current])"
| "split_groups opr current (t # ts) =
     (if t = opr then (if current = [] then [] else [current]) @ split_groups opr [] ts
      else split_groups opr (current @ [t]) ts)"

definition split_by_operator :: "string list \<Rightarrow> string \<Rightarrow> string list list" where
  "split_by_operator tokens opr = split_groups opr [] tokens"

record redirect =
  rd_path :: string
  rd_append :: bool

definition parse_redirection :: "string list \<Rightarrow> string list \<times> redirect option" where
  "parse_redirection tokens =
     (let front = takeWhile (\<lambda>t. t \<noteq> ''>'' \<and> t \<noteq> ''>>'') tokens; rest = drop (length front) tokens
      in case rest of
           [] \<Rightarrow> (tokens, None)
         | opr # after \<Rightarrow>
             (case after of
                [] \<Rightarrow> (front, None)
              | target # others \<Rightarrow>
                  if target = [] then (front, None)
                  else (front @ others, Some \<lparr>rd_path = target, rd_append = (opr = ''>>'')\<rparr>)))"

definition limit_output :: "output_line list \<Rightarrow> nat \<Rightarrow> output_line list" where
  "limit_output ls limit =
     (if length ls \<le> limit then ls
      else take limit ls @
        [\<lparr>ol_text = ''... ('' @ show_nat (length ls - limit) @ '' more lines truncated)'',
          ol_cls = Some ''text-zinc-500''\<rparr>])"

section \<open>Arithmetic\<close>

text \<open>
  The numbers are a parameter: how a literal reads (None is not a number), the operations, which results
  are finite, and the text of a number.
\<close>

record 'n arith =
  ar_read :: "string \<Rightarrow> 'n option"
  ar_add :: "'n \<Rightarrow> 'n \<Rightarrow> 'n"
  ar_sub :: "'n \<Rightarrow> 'n \<Rightarrow> 'n"
  ar_mul :: "'n \<Rightarrow> 'n \<Rightarrow> 'n"
  ar_div :: "'n \<Rightarrow> 'n \<Rightarrow> 'n"
  ar_rem :: "'n \<Rightarrow> 'n \<Rightarrow> 'n"
  ar_neg :: "'n \<Rightarrow> 'n"
  ar_zero :: "'n \<Rightarrow> bool"
  ar_finite :: "'n \<Rightarrow> bool"
  ar_show :: "'n \<Rightarrow> string"

abbreviation skip_spaces :: "string \<Rightarrow> string" where
  "skip_spaces s \<equiv> dropWhile is_space s"

fun scan_number :: "bool \<Rightarrow> string \<Rightarrow> string \<times> string" where
  "scan_number seen_dot [] = ([], [])"
| "scan_number seen_dot (c # cs) =
     (if c = CHR ''.'' then
        (if seen_dot then ([], c # cs) else let (t, r) = scan_number True cs in (c # t, r))
      else if is_digit c then let (t, r) = scan_number seen_dot cs in (c # t, r)
      else ([], c # cs))"

definition parse_number :: "'n arith \<Rightarrow> string \<Rightarrow> ('n \<times> string) option" where
  "parse_number ar s =
     (let (t, r) = scan_number False (skip_spaces s)
      in if t = [] then None else case ar_read ar t of None \<Rightarrow> None | Some v \<Rightarrow> Some (v, r))"

text \<open>
  The parser reads on from a place of the expression; its results are a value and the rest of the
  expression, or None where the code returns null. Its functions are the cases of one function:
  \<open>parseFactor\<close>, \<open>parseTerm\<close> and its loop, \<open>parseExpression\<close> and its loop.
\<close>

datatype 'n parser = Factor | Term | TermLoop 'n | Expression | ExpressionLoop 'n

function parse_with :: "'n arith \<Rightarrow> 'n parser \<Rightarrow> string \<Rightarrow> ('n \<times> string) option" where
  "parse_with ar Factor s =
     (case skip_spaces s of
        [] \<Rightarrow> parse_number ar []
      | c # cs \<Rightarrow>
          if c = CHR ''+'' then parse_with ar Factor cs
          else if c = CHR ''-'' then map_option (\<lambda>(v, r). (ar_neg ar v, r)) (parse_with ar Factor cs)
          else if c = CHR ''('' then
            (case parse_with ar Expression cs of
               None \<Rightarrow> None
             | Some (v, r) \<Rightarrow>
                 (case skip_spaces r of [] \<Rightarrow> None | d # r' \<Rightarrow> if d \<noteq> CHR '')'' then None else Some (v, r')))
          else parse_number ar (c # cs))"
| "parse_with ar Term s =
     (case parse_with ar Factor s of None \<Rightarrow> None | Some (v, r) \<Rightarrow> parse_with ar (TermLoop v) r)"
| "parse_with ar (TermLoop v) s =
     (case skip_spaces s of
        [] \<Rightarrow> Some (v, [])
      | c # cs \<Rightarrow>
          if c \<noteq> CHR ''*'' \<and> c \<noteq> CHR ''/'' \<and> c \<noteq> CHR ''%'' then Some (v, c # cs)
          else
            (case parse_with ar Factor cs of
               None \<Rightarrow> None
             | Some (w, r) \<Rightarrow>
                 if c \<noteq> CHR ''*'' \<and> ar_zero ar w then None
                 else parse_with ar
                   (TermLoop ((if c = CHR ''*'' then ar_mul else if c = CHR ''/'' then ar_div else ar_rem) ar v w)) r))"
| "parse_with ar Expression s =
     (case parse_with ar Term s of None \<Rightarrow> None | Some (v, r) \<Rightarrow> parse_with ar (ExpressionLoop v) r)"
| "parse_with ar (ExpressionLoop v) s =
     (case skip_spaces s of
        [] \<Rightarrow> Some (v, [])
      | c # cs \<Rightarrow>
          if c \<noteq> CHR ''+'' \<and> c \<noteq> CHR ''-'' then Some (v, c # cs)
          else
            (case parse_with ar Term cs of
               None \<Rightarrow> None
             | Some (w, r) \<Rightarrow>
                 parse_with ar (ExpressionLoop ((if c = CHR ''+'' then ar_add else ar_sub) ar v w)) r))"
  by pat_completeness auto

lemma length_skip: "length (skip_spaces s) \<le> length s"
  by (rule length_dropWhile_le)

lemma skip_less: "skip_spaces s = c # cs \<Longrightarrow> length cs < length s"
  using length_skip [of s] by simp

lemma scan_number_length: "scan_number d s = (t, r) \<Longrightarrow> length s = length t + length r"
  by (induction d s arbitrary: t r rule: scan_number.induct) (auto split: if_splits prod.splits)

lemma parse_number_length:
  assumes "parse_number ar s = Some (v, r)"
  shows "length r < length s"
proof -
  obtain t r' where t: "scan_number False (skip_spaces s) = (t, r')" by fastforce
  with assms have "t \<noteq> []" and "r' = r" by (auto simp: parse_number_def split: if_splits option.splits)
  with scan_number_length [OF t] length_skip [of s] show ?thesis by (cases t) auto
qed

text \<open>Each part of the parser but the loops consumes some text, so that it ends.\<close>

fun looping :: "'n parser \<Rightarrow> bool" where
  "looping (TermLoop v) = True"
| "looping (ExpressionLoop v) = True"
| "looping g = False"

lemma parse_with_length:
  "parse_with_dom (ar, g, s) \<Longrightarrow> parse_with ar g s = Some (v, r) \<Longrightarrow>
     length r < length s \<or> looping g \<and> length r \<le> length s"
proof (induction ar g s arbitrary: v r rule: parse_with.pinduct)
  case (1 ar s)
  show ?case
  proof (cases "skip_spaces s")
    case Nil
    with 1(1,5) show ?thesis by (auto simp: parse_with.psimps dest!: parse_number_length)
  next
    case (Cons c cs)
    note less = skip_less [OF Cons]
    consider "c = CHR ''+''" | "c = CHR ''-''" | "c = CHR ''(''" | "c \<noteq> CHR ''+''" "c \<noteq> CHR ''-''" "c \<noteq> CHR ''(''"
      by blast
    then show ?thesis
    proof cases
      case 4
      with 1(1,5) Cons have "parse_number ar (c # cs) = Some (v, r)" by (simp add: parse_with.psimps)
      with Cons length_skip [of s] show ?thesis by (auto dest!: parse_number_length)
    qed (use 1 Cons less in \<open>fastforce simp: parse_with.psimps split: option.splits list.splits if_splits
        dest: skip_less\<close>)+
  qed
next
  case (2 ar s)
  then show ?case by (fastforce simp: parse_with.psimps split: option.splits)
next
  case (3 ar w s)
  show ?case
  proof (cases "skip_spaces s")
    case (Cons c cs)
    show ?thesis
    proof (cases "c = CHR ''*'' \<or> c = CHR ''/'' \<or> c = CHR ''%''")
      case True
      then obtain w' r' where f: "parse_with ar Factor cs = Some (w', r')"
        and l: "parse_with ar (TermLoop ((if c = CHR ''*'' then ar_mul else if c = CHR ''/'' then ar_div else ar_rem)
          ar w w')) r' = Some (v, r)" and z: "\<not> (c \<noteq> CHR ''*'' \<and> ar_zero ar w')"
        using 3(1,4) Cons by (auto simp: parse_with.psimps split: option.splits if_splits)
      have "length r' < length cs" using 3(2) [OF Cons _ f] True by auto
      moreover have "length r \<le> length r'" using 3(3) [OF Cons _ f refl z l] True by auto
      ultimately show ?thesis using skip_less [OF Cons] by simp
    qed (use 3(1,4) Cons length_skip [of s] in \<open>auto simp: parse_with.psimps\<close>)
  qed (use 3(1,4) in \<open>simp add: parse_with.psimps del: dropWhile_eq_Nil_conv\<close>)
next
  case (4 ar s)
  then show ?case by (fastforce simp: parse_with.psimps split: option.splits)
next
  case (5 ar w s)
  show ?case
  proof (cases "skip_spaces s")
    case (Cons c cs)
    show ?thesis
    proof (cases "c = CHR ''+'' \<or> c = CHR ''-''")
      case True
      then obtain w' r' where f: "parse_with ar Term cs = Some (w', r')"
        and l: "parse_with ar (ExpressionLoop ((if c = CHR ''+'' then ar_add else ar_sub) ar w w')) r' = Some (v, r)"
        using 5(1,4) Cons by (auto simp: parse_with.psimps split: option.splits if_splits)
      have "length r' < length cs" using 5(2) [OF Cons _ f] True by auto
      moreover have "length r \<le> length r'" using 5(3) [OF Cons _ f refl l] True by auto
      ultimately show ?thesis using skip_less [OF Cons] by simp
    qed (use 5(1,4) Cons length_skip [of s] in \<open>auto simp: parse_with.psimps\<close>)
  qed (use 5(1,4) in \<open>simp add: parse_with.psimps del: dropWhile_eq_Nil_conv\<close>)
qed

termination parse_with
proof (relation "measures [\<lambda>(ar, g, s). length s,
    \<lambda>(ar, g, s). (case g of Expression \<Rightarrow> 2 | Term \<Rightarrow> 1 | _ \<Rightarrow> 0)]")
qed (auto dest!: parse_with_length skip_less)

declare parse_with.simps [simp del]

definition safe_eval_math :: "'n arith \<Rightarrow> string \<Rightarrow> string option" where
  "safe_eval_math ar expr =
     (case parse_with ar Expression expr of
        None \<Rightarrow> None
      | Some (v, r) \<Rightarrow> if skip_spaces r \<noteq> [] \<or> \<not> ar_finite ar v then None else Some (ar_show ar v))"

text \<open>
  What an expression means: the trees of expressions, the text of each with the parentheses that it needs,
  and its value; a division or a remainder by zero has none.
\<close>

datatype math =
    Num string | Pos math | Neg math | Add math math | Sub math math | Mul math math | Div math math
  | Rem math math

fun math_value :: "'n arith \<Rightarrow> math \<Rightarrow> 'n option" where
  "math_value ar (Num t) = ar_read ar t"
| "math_value ar (Pos e) = math_value ar e"
| "math_value ar (Neg e) = map_option (ar_neg ar) (math_value ar e)"
| "math_value ar (Add a b) = (case (math_value ar a, math_value ar b) of (Some v, Some w) \<Rightarrow> Some (ar_add ar v w) | _ \<Rightarrow> None)"
| "math_value ar (Sub a b) = (case (math_value ar a, math_value ar b) of (Some v, Some w) \<Rightarrow> Some (ar_sub ar v w) | _ \<Rightarrow> None)"
| "math_value ar (Mul a b) = (case (math_value ar a, math_value ar b) of (Some v, Some w) \<Rightarrow> Some (ar_mul ar v w) | _ \<Rightarrow> None)"
| "math_value ar (Div a b) =
     (case (math_value ar a, math_value ar b) of
        (Some v, Some w) \<Rightarrow> if ar_zero ar w then None else Some (ar_div ar v w) | _ \<Rightarrow> None)"
| "math_value ar (Rem a b) =
     (case (math_value ar a, math_value ar b) of
        (Some v, Some w) \<Rightarrow> if ar_zero ar w then None else Some (ar_rem ar v w) | _ \<Rightarrow> None)"

text \<open>The strength of the outermost operation: 0 for sums, 1 for products, 2 for what stands by itself.\<close>

fun level :: "math \<Rightarrow> nat" where
  "level (Add a b) = 0" | "level (Sub a b) = 0"
| "level (Mul a b) = 1" | "level (Div a b) = 1" | "level (Rem a b) = 1"
| "level e = 2"

definition bracket :: "bool \<Rightarrow> string \<Rightarrow> string" where
  "bracket b s = (if b then ''('' @ s @ '')'' else s)"

fun math_text :: "math \<Rightarrow> string" where
  "math_text (Num t) = t"
| "math_text (Pos e) = ''+'' @ bracket (level e < 2) (math_text e)"
| "math_text (Neg e) = ''-'' @ bracket (level e < 2) (math_text e)"
| "math_text (Add a b) = math_text a @ ''+'' @ bracket (level b < 1) (math_text b)"
| "math_text (Sub a b) = math_text a @ ''-'' @ bracket (level b < 1) (math_text b)"
| "math_text (Mul a b) = bracket (level a < 1) (math_text a) @ ''*'' @ bracket (level b < 2) (math_text b)"
| "math_text (Div a b) = bracket (level a < 1) (math_text a) @ ''/'' @ bracket (level b < 2) (math_text b)"
| "math_text (Rem a b) = bracket (level a < 1) (math_text a) @ ''%'' @ bracket (level b < 2) (math_text b)"

text \<open>Literals are digits with at most one point among them, which read as numbers.\<close>

definition literal :: "'n arith \<Rightarrow> string \<Rightarrow> bool" where
  "literal ar t = (t \<noteq> [] \<and> scan_number False t = (t, []) \<and> ar_read ar t \<noteq> None)"

fun literals :: "'n arith \<Rightarrow> math \<Rightarrow> bool" where
  "literals ar (Num t) = literal ar t"
| "literals ar (Pos e) = literals ar e"
| "literals ar (Neg e) = literals ar e"
| "literals ar (Add a b) = (literals ar a \<and> literals ar b)"
| "literals ar (Sub a b) = (literals ar a \<and> literals ar b)"
| "literals ar (Mul a b) = (literals ar a \<and> literals ar b)"
| "literals ar (Div a b) = (literals ar a \<and> literals ar b)"
| "literals ar (Rem a b) = (literals ar a \<and> literals ar b)"

text \<open>A text after which a number is over.\<close>

definition ends_number :: "string \<Rightarrow> bool" where
  "ends_number s = (case s of [] \<Rightarrow> True | c # cs \<Rightarrow> \<not> is_digit c \<and> c \<noteq> CHR ''.'')"

lemma scan_number_append:
  "scan_number d t = (t, []) \<Longrightarrow> ends_number r \<Longrightarrow> scan_number d (t @ r) = (t, r)"
proof (induction d t rule: scan_number.induct)
  case (1 d)
  then show ?case by (cases r) (auto simp: ends_number_def)
qed (auto split: if_splits prod.splits)

lemma scan_number_chars: "scan_number d t = (t, []) \<Longrightarrow> \<forall>c \<in> set t. is_digit c \<or> c = CHR ''.''"
  by (induction d t rule: scan_number.induct) (auto split: if_splits prod.splits)

lemma math_chars: "is_digit c \<or> c = CHR ''.'' \<Longrightarrow> \<not> is_space c \<and> c \<noteq> CHR ''+'' \<and> c \<noteq> CHR ''-'' \<and> c \<noteq> CHR ''(''"
  by (auto simp: is_digit_def is_space_def)

lemma parse_literal:
  assumes "literal ar t" and "ends_number r"
  shows "parse_with ar Factor (t @ r) = map_option (\<lambda>v. (v, r)) (ar_read ar t)"
proof -
  obtain c cs where t: "t = c # cs" using assms(1) by (cases t) (auto simp: literal_def)
  have scan: "scan_number False t = (t, [])" using assms(1) by (simp add: literal_def)
  then have c: "\<not> is_space c \<and> c \<noteq> CHR ''+'' \<and> c \<noteq> CHR ''-'' \<and> c \<noteq> CHR ''(''"
    using scan_number_chars [OF scan] math_chars [of c] by (simp add: t)
  have "parse_number ar (t @ r) = map_option (\<lambda>v. (v, r)) (ar_read ar t)"
    using scan_number_append [OF scan assms(2)] c t
    by (simp add: parse_number_def split: option.split)
  then show ?thesis using c t by (subst parse_with.simps) simp
qed

lemma parse_eqs:
  "parse_with ar Factor (CHR ''+'' # cs) = parse_with ar Factor cs"
  "parse_with ar Factor (CHR ''-'' # cs) = map_option (\<lambda>(v, r). (ar_neg ar v, r)) (parse_with ar Factor cs)"
  "parse_with ar Factor (CHR ''('' # cs) =
     (case parse_with ar Expression cs of
        None \<Rightarrow> None
      | Some (v, r) \<Rightarrow>
          (case skip_spaces r of [] \<Rightarrow> None | d # r' \<Rightarrow> if d \<noteq> CHR '')'' then None else Some (v, r')))"
  "parse_with ar (TermLoop v) (CHR ''*'' # cs) =
     (case parse_with ar Factor cs of None \<Rightarrow> None | Some (w, r) \<Rightarrow> parse_with ar (TermLoop (ar_mul ar v w)) r)"
  "parse_with ar (TermLoop v) (CHR ''/'' # cs) =
     (case parse_with ar Factor cs of
        None \<Rightarrow> None | Some (w, r) \<Rightarrow> if ar_zero ar w then None else parse_with ar (TermLoop (ar_div ar v w)) r)"
  "parse_with ar (TermLoop v) (CHR ''%'' # cs) =
     (case parse_with ar Factor cs of
        None \<Rightarrow> None | Some (w, r) \<Rightarrow> if ar_zero ar w then None else parse_with ar (TermLoop (ar_rem ar v w)) r)"
  "parse_with ar (ExpressionLoop v) (CHR ''+'' # cs) =
     (case parse_with ar Term cs of None \<Rightarrow> None | Some (w, r) \<Rightarrow> parse_with ar (ExpressionLoop (ar_add ar v w)) r)"
  "parse_with ar (ExpressionLoop v) (CHR ''-'' # cs) =
     (case parse_with ar Term cs of None \<Rightarrow> None | Some (w, r) \<Rightarrow> parse_with ar (ExpressionLoop (ar_sub ar v w)) r)"
  by (subst parse_with.simps; simp add: is_space_def split: option.split)+

lemma parse_ends:
  "parse_with ar (TermLoop v) [] = Some (v, [])" "parse_with ar (TermLoop v) (CHR ''+'' # s) = Some (v, CHR ''+'' # s)"
  "parse_with ar (TermLoop v) (CHR ''-'' # s) = Some (v, CHR ''-'' # s)"
  "parse_with ar (TermLoop v) (CHR '')'' # s) = Some (v, CHR '')'' # s)"
  "parse_with ar (ExpressionLoop v) [] = Some (v, [])"
  "parse_with ar (ExpressionLoop v) (CHR '')'' # s) = Some (v, CHR '')'' # s)"
  by (subst parse_with.simps; simp add: is_space_def)+

lemma ends_char [simp]: "ends_number (CHR ''+'' # s)" "ends_number (CHR ''-'' # s)" "ends_number (CHR ''*'' # s)"
  "ends_number (CHR ''/'' # s)" "ends_number (CHR ''%'' # s)" "ends_number (CHR '')'' # s)" "ends_number []"
  by (simp_all add: ends_number_def is_digit_def)

text \<open>A text that each part of the parser reads as a value.\<close>

definition reads_factor :: "'n arith \<Rightarrow> string \<Rightarrow> 'n option \<Rightarrow> bool" where
  "reads_factor ar s v = (\<forall>r. ends_number r \<longrightarrow> parse_with ar Factor (s @ r) = map_option (\<lambda>x. (x, r)) v)"

definition reads_term :: "'n arith \<Rightarrow> string \<Rightarrow> 'n option \<Rightarrow> bool" where
  "reads_term ar s v =
     (\<forall>r. ends_number r \<longrightarrow> parse_with ar Term (s @ r) = (case v of None \<Rightarrow> None | Some x \<Rightarrow> parse_with ar (TermLoop x) r))"

definition ends_term :: "string \<Rightarrow> bool" where
  "ends_term r = (r = [] \<or> hd r \<in> {CHR ''+'', CHR ''-'', CHR '')''})"

definition reads_expression :: "'n arith \<Rightarrow> string \<Rightarrow> 'n option \<Rightarrow> bool" where
  "reads_expression ar s v =
     (\<forall>r. ends_term r \<longrightarrow>
        parse_with ar Expression (s @ r) = (case v of None \<Rightarrow> None | Some x \<Rightarrow> parse_with ar (ExpressionLoop x) r))"

lemma ends_term_number: "ends_term r \<Longrightarrow> ends_number r"
  by (cases r) (auto simp: ends_term_def)

lemma loop_end: "ends_term r \<Longrightarrow> parse_with ar (TermLoop v) r = Some (v, r)"
  by (cases r) (auto simp: ends_term_def parse_ends)

lemma factor_term: "reads_factor ar s v \<Longrightarrow> reads_term ar s v"
  by (cases v) (simp_all add: reads_factor_def reads_term_def parse_with.simps(2))

lemma term_expression: "reads_term ar s v \<Longrightarrow> reads_expression ar s v"
  by (cases v) (simp_all add: reads_term_def reads_expression_def parse_with.simps(4) ends_term_number loop_end)

lemma expression_bracket:
  assumes "reads_expression ar s v"
  shows "reads_factor ar (''('' @ s @ '')'') v"
  unfolding reads_factor_def
proof (intro allI impI)
  fix r :: string
  have "parse_with ar Expression (s @ CHR '')'' # r) =
      (case v of None \<Rightarrow> None | Some x \<Rightarrow> parse_with ar (ExpressionLoop x) (CHR '')'' # r))"
    using assms unfolding reads_expression_def by (simp add: ends_term_def)
  then show "parse_with ar Factor ((''('' @ s @ '')'') @ r) = map_option (\<lambda>x. (x, r)) v"
    by (cases v) (simp_all add: parse_eqs parse_ends is_space_def)
qed

definition both :: "('n \<Rightarrow> 'n \<Rightarrow> 'n option) \<Rightarrow> 'n option \<Rightarrow> 'n option \<Rightarrow> 'n option" where
  "both f v w = (case (v, w) of (Some x, Some y) \<Rightarrow> f x y | _ \<Rightarrow> None)"

lemma term_product:
  assumes "reads_term ar s v" and "reads_factor ar t w"
  shows "reads_term ar (s @ ''*'' @ t) (both (\<lambda>x y. Some (ar_mul ar x y)) v w)"
    and "reads_term ar (s @ ''/'' @ t) (both (\<lambda>x y. if ar_zero ar y then None else Some (ar_div ar x y)) v w)"
    and "reads_term ar (s @ ''%'' @ t) (both (\<lambda>x y. if ar_zero ar y then None else Some (ar_rem ar x y)) v w)"
  using assms
  by (cases v; cases w; simp add: reads_term_def reads_factor_def both_def parse_eqs)+

lemma expression_sum:
  assumes "reads_expression ar s v" and "reads_term ar t w"
  shows "reads_expression ar (s @ ''+'' @ t) (both (\<lambda>x y. Some (ar_add ar x y)) v w)"
    and "reads_expression ar (s @ ''-'' @ t) (both (\<lambda>x y. Some (ar_sub ar x y)) v w)"
  using assms
  by (cases v; cases w;
      simp add: reads_expression_def reads_term_def both_def parse_eqs ends_term_number loop_end ends_term_def [of "_ # _"])+

lemma factor_signs:
  assumes "reads_factor ar s v"
  shows "reads_factor ar (''+'' @ s) v" and "reads_factor ar (''-'' @ s) (map_option (ar_neg ar) v)"
  using assms by (cases v; simp add: reads_factor_def parse_eqs)+

lemma math_value_both:
  "math_value ar (Add a b) = both (\<lambda>x y. Some (ar_add ar x y)) (math_value ar a) (math_value ar b)"
  "math_value ar (Sub a b) = both (\<lambda>x y. Some (ar_sub ar x y)) (math_value ar a) (math_value ar b)"
  "math_value ar (Mul a b) = both (\<lambda>x y. Some (ar_mul ar x y)) (math_value ar a) (math_value ar b)"
  "math_value ar (Div a b) =
     both (\<lambda>x y. if ar_zero ar y then None else Some (ar_div ar x y)) (math_value ar a) (math_value ar b)"
  "math_value ar (Rem a b) =
     both (\<lambda>x y. if ar_zero ar y then None else Some (ar_rem ar x y)) (math_value ar a) (math_value ar b)"
  by (simp_all add: both_def)

lemma parse_text:
  assumes "literals ar e"
  shows "reads_factor ar (bracket (level e < 2) (math_text e)) (math_value ar e) \<and>
    reads_term ar (bracket (level e < 1) (math_text e)) (math_value ar e) \<and>
    reads_expression ar (math_text e) (math_value ar e)"
proof -
  have from_factor: "reads_factor ar s v \<Longrightarrow> reads_factor ar s v \<and> reads_term ar s v \<and> reads_expression ar s v" for s v
    by (blast intro: factor_term term_expression)
  have from_term: "reads_term ar s v \<Longrightarrow>
      reads_factor ar (''('' @ s @ '')'') v \<and> reads_term ar s v \<and> reads_expression ar s v" for s v
    by (blast intro: term_expression expression_bracket)
  have from_expression: "reads_expression ar s v \<Longrightarrow>
      reads_factor ar (''('' @ s @ '')'') v \<and> reads_term ar (''('' @ s @ '')'') v \<and> reads_expression ar s v" for s v
    by (blast intro: factor_term expression_bracket)
  from assms show ?thesis
  proof (induction e)
    case (Num t)
    then have "reads_factor ar t (math_value ar (Num t))" by (simp add: reads_factor_def parse_literal)
    from from_factor [OF this] show ?case by (simp add: bracket_def)
  next
    case (Pos e)
    then show ?case using from_factor [OF factor_signs(1)] by (simp add: bracket_def [of False])
  next
    case (Neg e)
    then show ?case using from_factor [OF factor_signs(2)] by (simp add: bracket_def [of False])
  next
    case (Add a b)
    then show ?case using from_expression [OF expression_sum(1)]
      by (simp add: bracket_def [of True] math_value_both del: math_value.simps(4))
  next
    case (Sub a b)
    then show ?case using from_expression [OF expression_sum(2)]
      by (simp add: bracket_def [of True] math_value_both del: math_value.simps(5))
  next
    case (Mul a b)
    then show ?case using from_term [OF term_product(1)]
      by (simp add: bracket_def [of True] bracket_def [of False] math_value_both del: math_value.simps(6))
  next
    case (Div a b)
    then show ?case using from_term [OF term_product(2)]
      by (simp add: bracket_def [of True] bracket_def [of False] math_value_both del: math_value.simps(7))
  next
    case (Rem a b)
    then show ?case using from_term [OF term_product(3)]
      by (simp add: bracket_def [of True] bracket_def [of False] math_value_both del: math_value.simps(8))
  qed
qed

text \<open>
  C36: the calculator gives for the text of an expression the value of the expression, with the usual
  precedence and left to right, when it is finite; and no result when something is divided by zero.
\<close>

theorem safe_eval_math_value:
  assumes "literals ar e"
  shows "safe_eval_math ar (math_text e) =
    (case math_value ar e of None \<Rightarrow> None | Some v \<Rightarrow> if ar_finite ar v then Some (ar_show ar v) else None)"
proof -
  have "reads_expression ar (math_text e) (math_value ar e)" using parse_text [OF assms] by blast
  from this [unfolded reads_expression_def, rule_format, of "[]"]
  have "parse_with ar Expression (math_text e) =
      (case math_value ar e of None \<Rightarrow> None | Some x \<Rightarrow> parse_with ar (ExpressionLoop x) [])"
    by (simp add: ends_term_def)
  then show ?thesis by (simp add: safe_eval_math_def parse_ends split: option.split)
qed

text \<open>Whole numbers as an instance, with the quotient towards zero.\<close>

definition whole_numbers :: "int arith" where
  "whole_numbers =
     \<lparr>ar_read = (\<lambda>t. if t \<noteq> [] \<and> list_all is_digit t then Some (int (number_of t)) else None),
      ar_add = (+), ar_sub = (-), ar_mul = (*), ar_div = (\<lambda>a b. sgn a * sgn b * (\<bar>a\<bar> div \<bar>b\<bar>)),
      ar_rem = (\<lambda>a b. sgn a * (\<bar>a\<bar> mod \<bar>b\<bar>)), ar_neg = uminus, ar_zero = (\<lambda>a. a = 0),
      ar_finite = (\<lambda>a. True), ar_show = show_int\<rparr>"

lemma whole_fields [simp]:
  "ar_read whole_numbers = (\<lambda>t. if t \<noteq> [] \<and> list_all is_digit t then Some (int (number_of t)) else None)"
  "ar_add whole_numbers = (+)" "ar_sub whole_numbers = (-)" "ar_mul whole_numbers = (*)"
  "ar_zero whole_numbers = (\<lambda>a. a = 0)" "ar_finite whole_numbers = (\<lambda>a. True)" "ar_show whole_numbers = show_int"
  by (simp_all add: whole_numbers_def)

theorem safe_eval_math_value_witness:
  "safe_eval_math whole_numbers ''20-3-4*(1+2)'' = Some ''5''"
proof -
  let ?e = "Sub (Sub (Num ''20'') (Num ''3'')) (Mul (Num ''4'') (Add (Num ''1'') (Num ''2'')))"
  have line: "math_text ?e = ''20-3-4*(1+2)''" by (simp add: bracket_def)
  have "literals whole_numbers ?e" by (simp add: literal_def is_digit_def)
  moreover have "show_nat 5 = ''5''" by code_simp
  ultimately show ?thesis
    using safe_eval_math_value [of whole_numbers ?e] unfolding line
    by (simp add: is_digit_def number_of_def digit_value_def show_int_def)
qed

section \<open>Calendar and figures\<close>

definition month_names :: "string list" where
  "month_names =
     [''January'', ''February'', ''March'', ''April'', ''May'', ''June'', ''July'', ''August'', ''September'',
      ''October'', ''November'', ''December'']"

definition trim_end :: "string \<Rightarrow> string" where
  "trim_end s = rev (dropWhile is_space (rev s))"

fun calendar_rows :: "nat \<Rightarrow> nat \<Rightarrow> nat list \<Rightarrow> string \<Rightarrow> string list" where
  "calendar_rows first_day days_in_month [] row = []"
| "calendar_rows first_day days_in_month (d # ds) row =
     (let row = row @ pad_start 2 (show_nat d) @ '' ''
      in if (first_day + d) mod 7 = 0 \<or> d = days_in_month
         then trim_end row # calendar_rows first_day days_in_month ds []
         else calendar_rows first_day days_in_month ds row)"

text \<open>The month of a local time; the day 0 of the model's calendar was a Saturday.\<close>

definition format_calendar :: "int \<Rightarrow> string list" where
  "format_calendar local_now =
     (let days = nat (local_now + epoch_ms) div 86400000; (year, day) = civil_year days;
          (month, d) = month_of 0 (month_lengths year) day;
          first_day = (days - d + 6) mod 7; days_in_month = month_lengths year ! month;
          title = month_names ! month @ '' '' @ show_nat year
      in pad_start (10 + length title div 2) title # ''Su Mo Tu We Th Fr Sa'' #
         calendar_rows first_day days_in_month [1..<Suc days_in_month] (replicate (first_day * 3) (CHR '' '')))"

definition cowsay :: "string \<Rightarrow> string list" where
  "cowsay text =
     (let content = (if text = [] then ''Hello'' else text); n = utf16_length content + 2
      in [CHR '' '' # replicate n (CHR ''_''), ''< '' @ content @ '' >'', CHR '' '' # replicate n (CHR ''-''),
          ''        '' @ [CHR 0x5C], ''         '' @ [CHR 0x5C], ''          ^__^'',
          ''          (oo)'' @ [CHR 0x5C] @ ''_______'', ''          (__)'' @ [CHR 0x5C] @ ''       )'' @ [CHR 0x5C] @ ''/'' @ [CHR 0x5C],
          ''              ||----w |'', ''              ||     ||''])"

definition tokenize_alias :: "string \<Rightarrow> string list" where
  "tokenize_alias value = tokenize value"

definition get_command_candidates :: "vars \<Rightarrow> string list" where
  "get_command_candidates aliases = sort (remdups (COMMAND_LIST @ object_keys aliases))"

section \<open>What the parts of the shell's syntax promise\<close>

text \<open>A word with a backslash before every character is one token, whatever its characters.\<close>

definition escape_word :: "string \<Rightarrow> string" where
  "escape_word w = concat (map (\<lambda>c. [CHR 0x5C, c]) w)"

lemma escape_word_simps [simp]: "escape_word [] = []" "escape_word (c # w) = CHR 0x5C # c # escape_word w"
  by (simp_all add: escape_word_def)

lemma tokenize_escaped_word:
  "tokenize_from (escape_word w @ r) current False False = tokenize_from r (current @ w) False False"
  by (induction w arbitrary: current) simp_all

lemma tokenize_blank: "tokenize_from (CHR '' '' # r) current False False = push_token current @ tokenize_from r [] False False"
  by (simp add: is_space_def)

text \<open>
  Any words, with a backslash before each of their characters and blanks between them, are the tokens
  of the line they make.
\<close>

lemma tokenize_escaped:
  assumes "\<forall>w \<in> set ws. w \<noteq> []"
  shows "tokenize (join_with '' '' (map escape_word ws)) = ws"
  using assms
proof (induction ws)
  case (Cons w ws)
  then show ?case
  proof (cases ws)
    case Nil
    then show ?thesis
      using tokenize_escaped_word [of w "[]" "[]"] Cons.prems by (simp add: tokenize_def push_token_def)
  next
    case (Cons v vs)
    have "tokenize_from (escape_word w @ CHR '' '' # join_with '' '' (map escape_word ws)) [] False False =
        [w] @ tokenize_from (join_with '' '' (map escape_word ws)) [] False False"
      using \<open>\<forall>w \<in> set (w # ws). w \<noteq> []\<close>
      by (simp only: tokenize_escaped_word tokenize_blank) (simp add: push_token_def)
    then show ?thesis using Cons.IH Cons.prems Cons by (simp add: tokenize_def)
  qed
qed (simp add: tokenize_def push_token_def)

lemma tokenize_escaped_witness: "tokenize (join_with '' '' (map escape_word [''rm'', ''a b;c''])) = [''rm'', ''a b;c'']"
  by (rule tokenize_escaped) simp

text \<open>
  But an operator that was quoted or escaped is an operator again when the tokens are split: the tokens do
  not say how they were written.
\<close>

lemma quoted_operator_splits:
  "split_by_operator (tokenize (''echo '' @ sq @ ''a'' @ sq @ '' '' @ dq @ '';'' @ dq @ '' rm b'')) '';'' =
     [[''echo'', ''a''], [''rm'', ''b'']]"
  by (simp add: tokenize_def split_by_operator_def push_token_def is_space_def)

lemma limit_output_length: "length (limit_output ls limit) \<le> Suc limit \<and> take limit (limit_output ls limit) = take limit ls"
  by (auto simp: limit_output_def)

end
