(* ===== verification/ShellFiles.thy ===== *)
theory ShellFiles
  imports ShellSyntax FileSystemSpec
begin

text \<open>
  The commands of the landing page's shell that list and change files (\<open>web/src/app/page.tsx\<close>): \<open>pwd\<close>,
  \<open>cd\<close>, \<open>ls\<close>, \<open>cat\<close>, \<open>tree\<close>, \<open>mkdir\<close>, \<open>touch\<close>, \<open>rm\<close>, \<open>mv\<close>, \<open>cp\<close>, \<open>find\<close> and \<open>stat\<close>, and what all commands
  share. A command has its arguments, the lines of its standard input and the working directory; what it
  gives is its lines and its exit code, or nothing, where the stack overflows or the loop does not end.
\<close>

section \<open>The surroundings of the shell\<close>

text \<open>
  \<open>Number\<close> and what else the commands do with numbers: \<open>nb_whole\<close> is the conversion of \<open>slice\<close> (an infinite
  number is beyond the length of every list), \<open>nb_index\<close> the array index that a number is.
\<close>

record 'n numbers = "'n arith" +
  nb_num :: "nat \<Rightarrow> 'n"
  nb_le :: "'n \<Rightarrow> 'n \<Rightarrow> bool"
  nb_whole :: "'n \<Rightarrow> int"
  nb_index :: "'n \<Rightarrow> nat option"

text \<open>
  The clock and the time zone, the order of \<open>localeCompare\<close>, regular expressions (None for one that is
  malformed), the random choice of \<open>fortune\<close>, and numbers. During a command the clock stands still.
\<close>

record 'n surroundings =
  su_now :: int
  su_local :: "int \<Rightarrow> int"
  su_date_text :: "int \<Rightarrow> string"
  su_collate :: "string \<Rightarrow> string \<Rightarrow> bool"
  su_regex :: "string \<Rightarrow> bool \<Rightarrow> (string \<Rightarrow> bool) option"
  su_replace :: "string \<Rightarrow> bool \<Rightarrow> (string \<Rightarrow> string \<Rightarrow> string) option"
  su_pick :: "nat \<Rightarrow> nat"
  su_numbers :: "'n numbers"

text \<open>The refs of the component; the address of the home directory never changes.\<close>

record shell =
  sh_root :: nat
  sh_fs :: store
  sh_env :: vars
  sh_aliases :: vars

record command_result =
  cr_output :: "output_line list"
  cr_cwd :: string
  cr_exit :: int
  cr_clear :: bool

type_synonym shell_outcome = "output_line list \<times> int"

definition red :: "string option" where
  "red = Some ''text-red-400''"

definition error_line :: "string \<Rightarrow> output_line" where
  "error_line s = \<lparr>ol_text = s, ol_cls = red\<rparr>"

definition info_line :: "string \<Rightarrow> output_line" where
  "info_line s = \<lparr>ol_text = s, ol_cls = Some ''text-zinc-400''\<rparr>"

definition pale_line :: "string \<Rightarrow> output_line" where
  "pale_line s = \<lparr>ol_text = s, ol_cls = Some ''text-zinc-300''\<rparr>"

definition ok_lines :: "string list \<Rightarrow> output_line list" where
  "ok_lines ls = map (\<lambda>s. \<lparr>ol_text = s, ol_cls = None\<rparr>) ls"

definition code_of_lines :: "output_line list \<Rightarrow> int" where
  "code_of_lines ls = (if \<exists>l \<in> set ls. ol_cls l = red then 1 else 0)"

definition failed :: "string \<Rightarrow> shell_outcome" where
  "failed s = ([error_line s], 1)"

definition lines_of :: "string \<Rightarrow> string list" where
  "lines_of content = split_on (CHR 0x0A) content"

text \<open>\<open>args.filter((a) => !a.startsWith("-"))\<close>\<close>

definition operands :: "string list \<Rightarrow> string list" where
  "operands args = filter (\<lambda>a. \<not> starts_with a ''-'') args"

text \<open>A loop over the targets of a command that goes on after a failure.\<close>

fun for_each :: "('a \<Rightarrow> store \<Rightarrow> store \<times> shell_outcome) \<Rightarrow> 'a list \<Rightarrow> store \<Rightarrow> store \<times> shell_outcome" where
  "for_each f [] st = (st, [], 0)"
| "for_each f (x # xs) st =
     (let (st1, out1, c1) = f x st; (st2, out2, c2) = for_each f xs st1 in (st2, out1 @ out2, max c1 c2))"

definition report :: "string \<Rightarrow> store \<times> string option \<Rightarrow> store \<times> shell_outcome" where
  "report cmd r =
     (fst r, case snd r of None \<Rightarrow> ([], 0) | Some e \<Rightarrow> failed (cmd @ '': '' @ e))"

section \<open>Directories\<close>

definition pwd_command :: "string \<Rightarrow> shell_outcome" where
  "pwd_command cwd = (ok_lines [to_absolute cwd], 0)"

definition cd_command :: "shell \<Rightarrow> string \<Rightarrow> string list \<Rightarrow> string \<times> shell_outcome" where
  "cd_command sh cwd args =
     (case args of
        [] \<Rightarrow> (''~'', [], 0)
      | a # others \<Rightarrow>
          if a = [] \<or> a = ''~'' then (''~'', [], 0)
          else
            (case get_node (sh_fs sh) (sh_root sh) (resolve_path cwd a) of
               None \<Rightarrow> (cwd, failed (''cd: no such file or directory: '' @ a))
             | Some n \<Rightarrow>
                 if \<not> is_dir (sh_fs sh) n then (cwd, failed (''cd: not a directory: '' @ a))
                 else (resolve_path cwd a, [], 0)))"

definition display_name :: "store \<Rightarrow> string \<times> nat \<Rightarrow> string" where
  "display_name st e = (if is_dir st (snd e) then fst e @ ''/'' else fst e)"

definition node_size :: "fs_node \<Rightarrow> nat" where
  "node_size n = (case n of FileNode c t m \<Rightarrow> utf16_length c | DirNode cs t m \<Rightarrow> 512)"

definition long_line :: "(int \<Rightarrow> int) \<Rightarrow> bool \<Rightarrow> store \<Rightarrow> string \<times> nat \<Rightarrow> string" where
  "long_line local human st e =
     (let n = st ! snd e
      in node_mode n @ '' 1 developer staff '' @ pad_start 5 (format_size (node_size n) human) @ '' '' @
         format_date_short local (node_mtime n) @ '' '' @ display_name st e)"

definition cannot_access :: "string \<Rightarrow> string" where
  "cannot_access s = ''ls: cannot access '' @ quoted s @ '': No such file or directory''"

text \<open>\<open>listTarget\<close>; the flags are the letters of all options, \<open>many\<close> says that there are several targets.\<close>

definition list_target ::
  "'n surroundings \<Rightarrow> shell \<Rightarrow> string \<Rightarrow> bool \<Rightarrow> string \<Rightarrow> string option \<Rightarrow> output_line list" where
  "list_target su sh flags many target label =
     (let st = sh_fs sh
      in case get_node st (sh_root sh) target of
           None \<Rightarrow> [error_line (cannot_access (case label of None \<Rightarrow> target | Some l \<Rightarrow> l))]
         | Some a \<Rightarrow>
             (case label of None \<Rightarrow> [] | Some l \<Rightarrow> if l \<noteq> [] \<and> many then [info_line (l @ '':'')] else []) @
             (if \<not> is_dir st a then
                [pale_line (case label of None \<Rightarrow> last (split_on (CHR ''/'') target) | Some l \<Rightarrow> l)]
              else
                let hidden = CHR ''a'' \<in> set flags;
                    entries = (if hidden then [(''..'', a), (''.'', a)] else []) @
                      list_entries (su_collate su) st a hidden
                in if CHR ''l'' \<in> set flags then
                     map (\<lambda>e. pale_line (long_line (su_local su) (CHR ''h'' \<in> set flags) st e)) entries
                   else if CHR ''1'' \<in> set flags then map (\<lambda>e. pale_line (display_name st e)) entries
                   else [pale_line (join_with ''  '' (map (display_name st) entries))]))"

definition is_flag :: "string \<Rightarrow> bool" where
  "is_flag a = (starts_with a ''-'' \<and> a \<noteq> ''-'')"

definition ls_command :: "'n surroundings \<Rightarrow> shell \<Rightarrow> string \<Rightarrow> string list \<Rightarrow> shell_outcome" where
  "ls_command su sh cwd args =
     (let flags = concat (map tl (filter is_flag args)); targets = filter (\<lambda>a. \<not> is_flag a) args;
          out = (if targets = [] then list_target su sh flags False cwd None
            else concat (map (\<lambda>t. list_target su sh flags (1 < length targets) (resolve_path cwd t) (Some t)) targets))
      in (out, code_of_lines out))"

text \<open>\<open>cat\<close> without arguments copies its input.\<close>

definition cat_target :: "shell \<Rightarrow> string \<Rightarrow> string \<Rightarrow> shell_outcome" where
  "cat_target sh cwd arg =
     (case get_node (sh_fs sh) (sh_root sh) (resolve_path cwd arg) of
        None \<Rightarrow> failed (''cat: '' @ arg @ '': No such file or directory'')
      | Some a \<Rightarrow>
          (case sh_fs sh ! a of
             DirNode cs t m \<Rightarrow> failed (''cat: '' @ arg @ '': Is a directory'')
           | FileNode c t m \<Rightarrow> (ok_lines (lines_of c), 0)))"

definition cat_command :: "shell \<Rightarrow> string list \<Rightarrow> string \<Rightarrow> string list \<Rightarrow> shell_outcome" where
  "cat_command sh stdin cwd args =
     (if args = [] then (ok_lines stdin, 0)
      else snd (for_each (\<lambda>arg st. (st, cat_target sh cwd arg)) args (sh_fs sh)))"

section \<open>The tree of a directory\<close>

definition box_corner :: string where
  "box_corner = map char_of [226, 148, 148, 226, 148, 128, 226, 148, 128, 32 :: nat]"

definition box_tee :: string where
  "box_tee = map char_of [226, 148, 156, 226, 148, 128, 226, 148, 128, 32 :: nat]"

definition box_bar :: string where
  "box_bar = map char_of [226, 148, 130, 32, 32, 32 :: nat]"

text \<open>The nested \<open>walk\<close>, with the bound of \<open>clone_node\<close>.\<close>

function (sequential) tree_walk ::
    "(string \<Rightarrow> string \<Rightarrow> bool) \<Rightarrow> nat \<Rightarrow> store \<Rightarrow> nat \<Rightarrow> string \<Rightarrow> string list option"
  and tree_items ::
    "(string \<Rightarrow> string \<Rightarrow> bool) \<Rightarrow> nat \<Rightarrow> store \<Rightarrow> (string \<times> nat) list \<Rightarrow> string \<Rightarrow> string list option" where
  "tree_walk collate 0 st a lead = None"
| "tree_walk collate (Suc n) st a lead =
     (case st ! a of
        FileNode c t m \<Rightarrow> Some []
      | DirNode cs t m \<Rightarrow> tree_items collate n st (sort_by (entry_before collate st) (object_entries cs)) lead)"
| "tree_items collate n st [] lead = Some []"
| "tree_items collate n st (e # es) lead =
     (let line = lead @ (if es = [] then box_corner else box_tee) @ display_name st e;
          below = (if is_dir st (snd e)
            then tree_walk collate n st (snd e) (lead @ (if es = [] then ''    '' else box_bar)) else Some [])
      in case below of
           None \<Rightarrow> None
         | Some ls \<Rightarrow> map_option (\<lambda>rest. line # ls @ rest) (tree_items collate n st es lead))"
  by pat_completeness auto
termination
  by (relation "measures [\<lambda>x. case x of Inl (_, n, _) \<Rightarrow> n | Inr (_, n, _) \<Rightarrow> n,
      \<lambda>x. case x of Inl _ \<Rightarrow> 0 | Inr (_, _, _, es, _) \<Rightarrow> Suc (length es)]") auto

definition tree_command :: "'n surroundings \<Rightarrow> shell \<Rightarrow> string \<Rightarrow> string list \<Rightarrow> shell_outcome option" where
  "tree_command su sh cwd args =
     (let given = (case args of [] \<Rightarrow> [] | a # others \<Rightarrow> a); st = sh_fs sh
      in case get_node st (sh_root sh) (if given = [] then cwd else resolve_path cwd given) of
           None \<Rightarrow> Some (failed (''tree: '' @
             quoted (case args of [] \<Rightarrow> ''undefined'' | a # others \<Rightarrow> a) @ '': No such file or directory''))
         | Some a \<Rightarrow>
             if \<not> is_dir st a then Some (ok_lines [if given = [] then ''.'' else given], 0)
             else map_option (\<lambda>ls. (ok_lines (''.'' # ls), 0)) (tree_walk (su_collate su) (length st) st a []))"

section \<open>Changes\<close>

definition mkdir_target :: "'n surroundings \<Rightarrow> nat \<Rightarrow> string \<Rightarrow> bool \<Rightarrow> string \<Rightarrow> store \<Rightarrow> store \<times> shell_outcome" where
  "mkdir_target su root cwd recursive raw st =
     (let target = resolve_path cwd raw
      in if get_node st root target \<noteq> None then
           (st, if recursive then ([], 0)
             else failed (''mkdir: cannot create directory '' @ quoted raw @ '': File exists''))
         else report ''mkdir'' (make_dir_at root (su_now su) target recursive st))"

definition mkdir_command :: "'n surroundings \<Rightarrow> shell \<Rightarrow> string \<Rightarrow> string list \<Rightarrow> store \<times> shell_outcome" where
  "mkdir_command su sh cwd args =
     (if args = [] then (sh_fs sh, failed ''mkdir: missing operand'')
      else for_each (mkdir_target su (sh_root sh) cwd (''-p'' \<in> set args)) (filter (\<lambda>a. a \<noteq> ''-p'') args) (sh_fs sh))"

definition touch_target :: "'n surroundings \<Rightarrow> nat \<Rightarrow> string \<Rightarrow> string \<Rightarrow> store \<Rightarrow> store \<times> shell_outcome" where
  "touch_target su root cwd arg st =
     (let target = resolve_path cwd arg
      in case get_node st root target of
           Some a \<Rightarrow> (set_mtime a (su_now su) st, [], 0)
         | None \<Rightarrow> report ''touch'' (write_file root (su_now su) target [] False st))"

definition touch_command :: "'n surroundings \<Rightarrow> shell \<Rightarrow> string \<Rightarrow> string list \<Rightarrow> store \<times> shell_outcome" where
  "touch_command su sh cwd args =
     (if args = [] then (sh_fs sh, failed ''touch: missing file operand'')
      else for_each (touch_target su (sh_root sh) cwd) args (sh_fs sh))"

definition rm_target :: "nat \<Rightarrow> string \<Rightarrow> bool \<Rightarrow> bool \<Rightarrow> string \<Rightarrow> store \<Rightarrow> store \<times> shell_outcome" where
  "rm_target root cwd recursive force arg st =
     (let (st', r) = report ''rm'' (remove_node root (resolve_path cwd arg) recursive st)
      in (st', if force then ([], 0) else r))"

definition rm_command :: "shell \<Rightarrow> string \<Rightarrow> string list \<Rightarrow> store \<times> shell_outcome" where
  "rm_command sh cwd args =
     (let both = ''-rf'' \<in> set args \<or> ''-fr'' \<in> set args
      in if args = [] then (sh_fs sh, failed ''rm: missing operand'')
         else for_each (rm_target (sh_root sh) cwd (''-r'' \<in> set args \<or> both) (''-f'' \<in> set args \<or> both))
           (operands args) (sh_fs sh))"

definition mv_target :: "nat \<Rightarrow> string \<Rightarrow> string \<Rightarrow> string \<Rightarrow> store \<Rightarrow> store \<times> shell_outcome" where
  "mv_target root cwd dest src st = report ''mv'' (move_node root (resolve_path cwd src) dest st)"

definition mv_command :: "shell \<Rightarrow> string \<Rightarrow> string list \<Rightarrow> store \<times> shell_outcome" where
  "mv_command sh cwd args =
     (if length args < 2 then (sh_fs sh, failed ''mv: missing file operand'')
      else for_each (mv_target (sh_root sh) cwd (resolve_path cwd (last args))) (butlast args) (sh_fs sh))"

text \<open>The copies stop where the stack overflows; what was copied before stays.\<close>

fun cp_targets :: "nat \<Rightarrow> string \<Rightarrow> bool \<Rightarrow> string \<Rightarrow> string list \<Rightarrow> store \<Rightarrow> store \<times> shell_outcome option" where
  "cp_targets root cwd recursive dest [] st = (st, Some ([], 0))"
| "cp_targets root cwd recursive dest (src # srcs) st =
     (case copy_node root (resolve_path cwd src) dest recursive st of
        (st1, Overflow) \<Rightarrow> (st1, None)
      | (st1, Copied) \<Rightarrow> cp_targets root cwd recursive dest srcs st1
      | (st1, Refused_copy e) \<Rightarrow>
          (let (st2, r) = cp_targets root cwd recursive dest srcs st1
           in (st2, map_option (\<lambda>(out, c). (error_line (''cp: '' @ e) # out, 1)) r)))"

definition cp_command :: "shell \<Rightarrow> string \<Rightarrow> string list \<Rightarrow> store \<times> shell_outcome option" where
  "cp_command sh cwd args =
     (if length args < 2 then (sh_fs sh, Some (failed ''cp: missing file operand''))
      else let paths = operands args
           in cp_targets (sh_root sh) cwd (''-r'' \<in> set args \<or> ''-R'' \<in> set args)
                (resolve_path cwd (if paths = [] then [] else last paths)) (butlast paths) (sh_fs sh))"

section \<open>Searching\<close>

text \<open>The loop over the arguments of \<open>find\<close>: where to start, the pattern of names and the type.\<close>

record find_options =
  fo_start :: string
  fo_name :: "string option"
  fo_type :: "string option"

definition first_of :: "'a list \<Rightarrow> 'a option" where
  "first_of xs = (case xs of [] \<Rightarrow> None | x # xs' \<Rightarrow> Some x)"

function find_args :: "string list \<Rightarrow> find_options \<Rightarrow> find_options" where
  "find_args [] fo = fo"
| "find_args (a # others) fo =
     (if a = ''-name'' then find_args (drop 1 others) (fo\<lparr>fo_name := first_of others\<rparr>)
      else if a = ''-type'' then find_args (drop 1 others) (fo\<lparr>fo_type := first_of others\<rparr>)
      else find_args others (if starts_with a ''-'' then fo else fo\<lparr>fo_start := a\<rparr>))"
  by pat_completeness auto
termination find_args
  by (relation "measure (\<lambda>(others, fo). length others)") auto

definition found :: "find_options \<Rightarrow> store \<Rightarrow> string \<times> nat \<Rightarrow> bool" where
  "found fo st e =
     (\<not> (fo_type fo = Some ''f'' \<and> is_dir st (snd e)) \<and>
      \<not> (fo_type fo = Some ''d'' \<and> \<not> is_dir st (snd e)) \<and>
      (case fo_name fo of
         None \<Rightarrow> True
       | Some p \<Rightarrow> p = [] \<or> match_pattern (last (split_on (CHR ''/'') (fst e))) p))"

definition find_display :: "string \<Rightarrow> string \<Rightarrow> string" where
  "find_display start path =
     (let s = to_absolute start; p = to_absolute path in if p = s then ''.'' else replace_text s ''.'' p)"

definition find_command :: "shell \<Rightarrow> string \<Rightarrow> string list \<Rightarrow> shell_outcome option" where
  "find_command sh cwd args =
     (let fo = find_args args \<lparr>fo_start = ''.'', fo_name = None, fo_type = None\<rparr>; st = sh_fs sh;
          start = resolve_path cwd (fo_start fo)
      in case get_node st (sh_root sh) start of
           None \<Rightarrow> Some (failed (''find: '' @ quoted (fo_start fo) @ '': No such file or directory''))
         | Some a \<Rightarrow>
             map_option (\<lambda>es. (ok_lines (map (\<lambda>e. find_display start (fst e)) (filter (found fo st) es)), 0))
               (walk_tree (length st) st a start))"

definition stat_command :: "'n surroundings \<Rightarrow> shell \<Rightarrow> string \<Rightarrow> string list \<Rightarrow> shell_outcome" where
  "stat_command su sh cwd args =
     (case args of
        [] \<Rightarrow> failed ''stat: missing operand''
      | a # others \<Rightarrow>
          if a = [] then failed ''stat: missing operand''
          else
            (case get_node (sh_fs sh) (sh_root sh) (resolve_path cwd a) of
               None \<Rightarrow> failed (''stat: cannot stat '' @ quoted a)
             | Some b \<Rightarrow>
                 let n = sh_fs sh ! b; date = su_date_text su (node_mtime n)
                 in (ok_lines
                      [''  File: '' @ a,
                       ''  Size: '' @ show_nat (node_size n) @ ''        Blocks: 8          IO Block: 4096 '' @
                         (if is_dir (sh_fs sh) b then ''directory'' else ''regular file''),
                       ''Device: 00h/0d Inode: 0       Links: 1'',
                       ''Access: ('' @ node_mode n @ '')  Uid: ( 1000/ developer)   Gid: ( 1000/ developer)'',
                       ''Access: '' @ date, ''Modify: '' @ date, ''Change: '' @ date], 0)))"

end
