(* ===== verification/ShellText.thy ===== *)
theory ShellText
  imports ShellFiles
begin

text \<open>
  The commands of the landing page's shell that work on lines of text (\<open>web/src/app/page.tsx\<close>): \<open>grep\<close>,
  \<open>head\<close>, \<open>tail\<close>, \<open>wc\<close>, \<open>sort\<close>, \<open>uniq\<close>, \<open>cut\<close>, \<open>tr\<close> and \<open>sed\<close>. They read files, or their standard input.
\<close>

section \<open>Texts and their pieces\<close>

text \<open>
  The characters of a text; a character outside of the basic plane counts as one here, where the language
  sees two units.
\<close>

function units :: "string \<Rightarrow> string list" where
  "units [] = []"
| "units (c # cs) =
     (let n = (if code_of c < 192 then 0 else if code_of c < 224 then 1 else if code_of c < 240 then 2 else 3)
      in (c # take n cs) # units (drop n cs))"
  by pat_completeness auto
termination units
  by (relation "measure length") auto

text \<open>\<open>s.indexOf(p)\<close>, and \<open>s.split(p)\<close> for a separator of any length.\<close>

fun index_of :: "string \<Rightarrow> string \<Rightarrow> nat option" where
  "index_of p [] = (if p = [] then Some 0 else None)"
| "index_of p (c # cs) = (if starts_with (c # cs) p then Some 0 else map_option Suc (index_of p cs))"

function split_text :: "string \<Rightarrow> string \<Rightarrow> string list" where
  "split_text p s =
     (if p = [] then units s
      else case index_of p s of None \<Rightarrow> [s] | Some i \<Rightarrow> take i s # split_text p (drop (i + length p) s))"
  by pat_completeness auto

lemma index_of_bound: "index_of p s = Some i \<Longrightarrow> i + length p \<le> length s"
proof (induction p s arbitrary: i rule: index_of.induct)
  case (2 p c cs)
  show ?case
  proof (cases "starts_with (c # cs) p")
    case True
    then have "length p \<le> length (c # cs)" by (metis starts_with_iff length_append le_add1)
    with True 2 show ?thesis by simp
  qed (use 2 in auto)
qed (auto split: if_splits)

termination split_text
proof (relation "measure (\<lambda>(p, s). length s)")
  fix p s :: string and i
  assume "p \<noteq> []" and i: "index_of p s = Some i"
  then have "0 < length p" by simp
  with index_of_bound [OF i] have "length s - (i + length p) < length s" by linarith
  then show "((p, drop (i + length p) s), (p, s)) \<in> measure (\<lambda>(p, s). length s)" by simp
qed simp

declare split_text.simps [simp del]

text \<open>\<open>s.split(/\s+/)\<close>\<close>

function split_spaces :: "string \<Rightarrow> string list" where
  "split_spaces s =
     (let w = takeWhile (\<lambda>c. \<not> is_space c) s; r = drop (length w) s
      in if r = [] then [w] else w # split_spaces (dropWhile is_space r))"
  by pat_completeness auto
termination split_spaces
proof (relation "measure length")
  fix s w r :: string
  assume w: "w = takeWhile (\<lambda>c. \<not> is_space c) s" and r: "r = drop (length w) s" and "r \<noteq> []"
  have d: "r = dropWhile (\<lambda>c. \<not> is_space c) s" by (simp add: r w dropWhile_eq_drop)
  with \<open>r \<noteq> []\<close> have "is_space (hd r)" using hd_dropWhile [of "\<lambda>c. \<not> is_space c" s] by simp
  with \<open>r \<noteq> []\<close> have "length (dropWhile is_space r) < length r"
    by (cases r) (simp_all add: le_imp_less_Suc length_dropWhile_le)
  also have "length r \<le> length s" by (simp add: d length_dropWhile_le)
  finally show "(dropWhile is_space r, s) \<in> measure length" by simp
qed simp

declare split_spaces.simps [simp del]

section \<open>Reading files\<close>

definition content_at :: "shell \<Rightarrow> string \<Rightarrow> string \<Rightarrow> string option" where
  "content_at sh cwd name =
     (case get_node (sh_fs sh) (sh_root sh) (resolve_path cwd name) of
        None \<Rightarrow> None
      | Some a \<Rightarrow> (case sh_fs sh ! a of DirNode cs t m \<Rightarrow> None | FileNode c t m \<Rightarrow> Some c))"

text \<open>The lines of all files, or the first name that is no file.\<close>

fun read_files :: "shell \<Rightarrow> string \<Rightarrow> string list \<Rightarrow> string + string list" where
  "read_files sh cwd [] = Inr []"
| "read_files sh cwd (f # fs) =
     (case content_at sh cwd f of
        None \<Rightarrow> Inl f
      | Some c \<Rightarrow> (case read_files sh cwd fs of Inl g \<Rightarrow> Inl g | Inr ls \<Rightarrow> Inr (lines_of c @ ls)))"

definition with_lines ::
  "string \<Rightarrow> shell \<Rightarrow> string list \<Rightarrow> string \<Rightarrow> string list \<Rightarrow> (string list \<Rightarrow> string list) \<Rightarrow> shell_outcome" where
  "with_lines cmd sh stdin cwd files f =
     (case if files = [] then Inr stdin else read_files sh cwd files of
        Inl g \<Rightarrow> failed (cmd @ '': '' @ g @ '': No such file or directory'')
      | Inr ls \<Rightarrow> (ok_lines (f ls), 0))"

section \<open>grep\<close>

definition search_lines :: "(string \<Rightarrow> bool) \<Rightarrow> bool \<Rightarrow> string option \<Rightarrow> string list \<Rightarrow> output_line list" where
  "search_lines matches numbered label ls =
     map (\<lambda>(i, l). pale_line
         ((case label of None \<Rightarrow> [] | Some p \<Rightarrow> if p = [] then [] else p @ '':'') @
          (if numbered then show_nat (Suc i) @ '':'' else []) @ l))
       (filter (\<lambda>(i, l). matches l) (enumerate 0 ls))"

definition grep_file :: "(string \<Rightarrow> bool) \<Rightarrow> bool \<Rightarrow> store \<Rightarrow> string \<times> nat \<Rightarrow> output_line list" where
  "grep_file matches numbered st e =
     (case st ! snd e of
        DirNode cs t m \<Rightarrow> [] | FileNode c t m \<Rightarrow> search_lines matches numbered (Some (fst e)) (lines_of c))"

definition grep_target ::
  "(string \<Rightarrow> bool) \<Rightarrow> bool \<Rightarrow> bool \<Rightarrow> shell \<Rightarrow> string \<Rightarrow> string \<Rightarrow> output_line list option" where
  "grep_target matches numbered recursive sh cwd raw =
     (let target = resolve_path cwd raw; st = sh_fs sh
      in case get_node st (sh_root sh) target of
           None \<Rightarrow> Some [error_line (''grep: '' @ raw @ '': No such file or directory'')]
         | Some a \<Rightarrow>
             if \<not> is_dir st a then Some (grep_file matches numbered st (raw, a))
             else if recursive then
               map_option (\<lambda>es. concat (map (grep_file matches numbered st) es)) (walk_tree (length st) st a target)
             else Some [error_line (''grep: '' @ raw @ '': Is a directory'')])"

fun collect :: "('a \<Rightarrow> 'b list option) \<Rightarrow> 'a list \<Rightarrow> 'b list option" where
  "collect f [] = Some []"
| "collect f (x # xs) =
     (case f x of None \<Rightarrow> None | Some ys \<Rightarrow> map_option ((@) ys) (collect f xs))"

definition grep_command ::
  "'n surroundings \<Rightarrow> shell \<Rightarrow> string list \<Rightarrow> string \<Rightarrow> string list \<Rightarrow> shell_outcome option" where
  "grep_command su sh stdin cwd args =
     (case operands args of
        [] \<Rightarrow> Some ([error_line ''grep: missing search pattern''], 2)
      | p # targets \<Rightarrow>
          if p = [] then Some ([error_line ''grep: missing search pattern''], 2)
          else
            (case su_regex su p (''-i'' \<in> set args) of
               None \<Rightarrow> Some ([error_line ''grep: invalid regex''], 2)
             | Some matches \<Rightarrow>
                 map_option (\<lambda>out. (out, if out \<noteq> [] then 0 else 1))
                   (if targets = [] then Some (search_lines matches (''-n'' \<in> set args) None stdin)
                    else collect (grep_target matches (''-n'' \<in> set args) (''-r'' \<in> set args) sh cwd) targets)))"

section \<open>head and tail\<close>

text \<open>\<open>xs.slice(0, n)\<close> and \<open>xs.slice(n)\<close>\<close>

definition slice_to :: "int \<Rightarrow> 'a list \<Rightarrow> 'a list" where
  "slice_to n xs = (if 0 \<le> n then take (nat n) xs else take (length xs - nat (- n)) xs)"

definition slice_from :: "int \<Rightarrow> 'a list \<Rightarrow> 'a list" where
  "slice_from n xs = (if 0 \<le> n then drop (nat n) xs else drop (length xs - nat (- n)) xs)"

text \<open>The number after \<open>-n\<close>, which is 10 when there is none, and 0 when it is no number; and the files.\<close>

definition count_option :: "'n numbers \<Rightarrow> string list \<Rightarrow> int \<times> string list" where
  "count_option nb args =
     (let front = takeWhile (\<lambda>a. a \<noteq> ''-n'') args; after = drop (Suc (length front)) args
      in if ''-n'' \<notin> set args then (10, operands args)
         else (case after of
             [] \<Rightarrow> 10
           | n # others \<Rightarrow> (case ar_read nb n of None \<Rightarrow> 0 | Some v \<Rightarrow> nb_whole nb v),
           front @ drop 1 after))"

definition part_of_files ::
  "string \<Rightarrow> (string list \<Rightarrow> string list) \<Rightarrow> shell \<Rightarrow> string list \<Rightarrow> string \<Rightarrow> string list \<Rightarrow> shell_outcome" where
  "part_of_files cmd part sh stdin cwd files =
     (if files = [] then (ok_lines (part stdin), 0)
      else snd (for_each (\<lambda>f st. (st,
          case content_at sh cwd f of
            None \<Rightarrow> failed (cmd @ '': cannot open '' @ quoted f @ '' for reading'')
          | Some c \<Rightarrow> (ok_lines (part (lines_of c)), 0))) files (sh_fs sh)))"

definition head_command :: "'n surroundings \<Rightarrow> shell \<Rightarrow> string list \<Rightarrow> string \<Rightarrow> string list \<Rightarrow> shell_outcome" where
  "head_command su sh stdin cwd args =
     (case count_option (su_numbers su) args of (n, files) \<Rightarrow> part_of_files ''head'' (slice_to n) sh stdin cwd files)"

definition tail_command :: "'n surroundings \<Rightarrow> shell \<Rightarrow> string list \<Rightarrow> string \<Rightarrow> string list \<Rightarrow> shell_outcome" where
  "tail_command su sh stdin cwd args =
     (case count_option (su_numbers su) args of (n, files) \<Rightarrow> part_of_files ''tail'' (slice_from (- n)) sh stdin cwd files)"

section \<open>wc\<close>

definition word_count :: "string \<Rightarrow> nat" where
  "word_count content = (if trim content = [] then 0 else length (split_spaces (trim content)))"

definition summarize :: "string \<Rightarrow> string \<Rightarrow> string \<Rightarrow> output_line" where
  "summarize flags label content =
     (let number = (\<lambda>c n. if flags = [] \<or> c \<in> set flags then pad_start 7 (show_nat n) else [])
      in pale_line (join_with '' '' (filter (\<lambda>p. p \<noteq> [])
           [number (CHR ''l'') (length (lines_of content)), number (CHR ''w'') (word_count content),
            number (CHR ''c'') (utf16_length content), label])))"

definition wc_command :: "shell \<Rightarrow> string list \<Rightarrow> string \<Rightarrow> string list \<Rightarrow> shell_outcome" where
  "wc_command sh stdin cwd args =
     (let flags = concat (map tl (filter (\<lambda>a. starts_with a ''-'') args)); files = operands args
      in if files = [] then ([summarize flags [] (text_of_lines stdin)], 0)
         else let out = map (\<lambda>f. case content_at sh cwd f of
                  None \<Rightarrow> error_line (''wc: '' @ f @ '': No such file or directory'')
                | Some c \<Rightarrow> summarize flags f c) files
              in (out, code_of_lines out))"

section \<open>sort and uniq\<close>

text \<open>The comparator is at most 0; a difference that is no number counts as 0.\<close>

definition line_before :: "'n surroundings \<Rightarrow> bool \<Rightarrow> string \<Rightarrow> string \<Rightarrow> bool" where
  "line_before su numeric a b =
     (if numeric then
        (case (ar_read (su_numbers su) (trim a), ar_read (su_numbers su) (trim b)) of
           (Some x, Some y) \<Rightarrow> nb_le (su_numbers su) x y
         | _ \<Rightarrow> True)
      else su_collate su a b)"

definition sort_lines :: "'n surroundings \<Rightarrow> string list \<Rightarrow> string list \<Rightarrow> string list" where
  "sort_lines su args ls =
     (let sorted = sort_by (line_before su (''-n'' \<in> set args)) ls
      in if ''-r'' \<in> set args then rev sorted else sorted)"

definition sort_command :: "'n surroundings \<Rightarrow> shell \<Rightarrow> string list \<Rightarrow> string \<Rightarrow> string list \<Rightarrow> shell_outcome" where
  "sort_command su sh stdin cwd args = with_lines ''sort'' sh stdin cwd (operands args) (sort_lines su args)"

fun uniq_loop :: "(nat \<Rightarrow> string \<Rightarrow> string) \<Rightarrow> string \<Rightarrow> nat \<Rightarrow> string list \<Rightarrow> string list" where
  "uniq_loop f prev n [] = (if n = 0 then [] else [f n prev])"
| "uniq_loop f prev n (l # ls) =
     (if l = prev then uniq_loop f prev (Suc n) ls
      else (if n = 0 then [] else [f n prev]) @ uniq_loop f l 1 ls)"

definition counted_line :: "bool \<Rightarrow> nat \<Rightarrow> string \<Rightarrow> string" where
  "counted_line counting n l = (if counting then pad_start 7 (show_nat n) @ '' '' @ l else l)"

definition uniq_command :: "shell \<Rightarrow> string list \<Rightarrow> string \<Rightarrow> string list \<Rightarrow> shell_outcome" where
  "uniq_command sh stdin cwd args =
     with_lines ''uniq'' sh stdin cwd (operands args) (uniq_loop (counted_line (''-c'' \<in> set args)) [] 0)"

section \<open>cut, tr and sed\<close>

record cut_options =
  co_delim :: string
  co_fields :: "string option"
  co_files :: "string list"

function cut_args :: "string list \<Rightarrow> cut_options \<Rightarrow> cut_options" where
  "cut_args [] co = co"
| "cut_args (a # others) co =
     (if a = ''-d'' then
        cut_args (drop 1 others) (co\<lparr>co_delim := (case others of [] \<Rightarrow> [CHR 0x09] | d # others_left \<Rightarrow> d)\<rparr>)
      else if a = ''-f'' then cut_args (drop 1 others) (co\<lparr>co_fields := first_of others\<rparr>)
      else if starts_with a ''-'' then cut_args others co
      else cut_args others (co\<lparr>co_files := co_files co @ [a]\<rparr>))"
  by pat_completeness auto
termination cut_args
  by (relation "measure (\<lambda>(others, co). length others)") auto

text \<open>A field is the piece with the index \<open>Number(n) - 1\<close>, or empty.\<close>

definition cut_field :: "'n numbers \<Rightarrow> string list \<Rightarrow> string \<Rightarrow> string" where
  "cut_field nb parts n =
     (case ar_read nb n of
        None \<Rightarrow> []
      | Some v \<Rightarrow>
          (case nb_index nb (ar_sub nb v (nb_num nb 1)) of
             None \<Rightarrow> [] | Some i \<Rightarrow> if i < length parts then parts ! i else []))"

definition cut_line :: "'n numbers \<Rightarrow> string \<Rightarrow> string list \<Rightarrow> string \<Rightarrow> string" where
  "cut_line nb delim names l = join_with delim (map (cut_field nb (split_text delim l)) names)"

definition cut_command :: "'n surroundings \<Rightarrow> shell \<Rightarrow> string list \<Rightarrow> string \<Rightarrow> string list \<Rightarrow> shell_outcome" where
  "cut_command su sh stdin cwd args =
     (let co = cut_args args \<lparr>co_delim = [CHR 0x09], co_fields = None, co_files = []\<rparr>
      in case co_fields co of
           None \<Rightarrow> failed ''cut: missing -f list''
         | Some raw \<Rightarrow>
             if raw = [] then failed ''cut: missing -f list''
             else with_lines ''cut'' sh stdin cwd (co_files co)
               (map (cut_line (su_numbers su) (co_delim co) (split_on (CHR '','') raw))))"

definition tr_char :: "string list \<Rightarrow> string list \<Rightarrow> string \<Rightarrow> string" where
  "tr_char from to ch =
     (let i = length (takeWhile (\<lambda>c. c \<noteq> ch) from)
      in if ch \<notin> set from then ch else if i < length to then to ! i else if to = [] then [] else last to)"

definition tr_command :: "string list \<Rightarrow> string list \<Rightarrow> shell_outcome" where
  "tr_command stdin args =
     (case args of
        from # to # others \<Rightarrow> (ok_lines (map (\<lambda>l. concat (map (tr_char (units from) (units to)) (units l))) stdin), 0)
      | _ \<Rightarrow> failed ''tr: missing operand'')"

text \<open>
  \<open>expr.match(/^s(.)(.*)\1(.*)\1([gim]*)$/)\<close>: of the ways to split the text after the delimiter, the one with
  the longest pattern, and then with the longest replacement.
\<close>

definition sed_splits :: "string \<Rightarrow> string \<Rightarrow> (string \<times> string \<times> string) list" where
  "sed_splits d s =
     concat (map (\<lambda>i.
         if \<not> starts_with (drop i s) d then []
         else let r = drop (i + length d) s
              in concat (map (\<lambda>j.
                     if \<not> starts_with (drop j r) d then [] else [(take i s, take j r, drop (j + length d) r)])
                   (rev [0..<Suc (length r)])))
       (rev [0..<Suc (length s)]))"

definition sed_parts :: "string \<Rightarrow> (string \<times> string \<times> string) option" where
  "sed_parts expr =
     (case units expr of
        s # d # us \<Rightarrow>
          if s \<noteq> ''s'' \<or> list_ex line_end d then None
          else find (\<lambda>(p, r, f). \<not> list_ex line_end (p @ r) \<and> list_all (\<lambda>c. c \<in> set ''gim'') f)
                 (sed_splits d (concat us))
      | _ \<Rightarrow> None)"

definition sed_command :: "'n surroundings \<Rightarrow> string list \<Rightarrow> string list \<Rightarrow> shell_outcome" where
  "sed_command su stdin args =
     (case args of
        [] \<Rightarrow> failed ''sed: missing expression''
      | expr # others \<Rightarrow>
          if expr = [] then failed ''sed: missing expression''
          else
            (case sed_parts expr of
               None \<Rightarrow> failed ''sed: invalid expression''
             | Some (p, r, f) \<Rightarrow>
                 (case su_replace su p (CHR ''g'' \<in> set f) of
                    None \<Rightarrow> failed ''sed: invalid regex''
                  | Some replace \<Rightarrow> (ok_lines (map (\<lambda>l. replace l r) stdin), 0))))"

end
