(* ===== verification/ShellCommands.thy ===== *)
theory ShellCommands
  imports ShellText
begin

text \<open>
  The other commands of the landing page's shell (\<open>web/src/app/page.tsx\<close>): those on variables and aliases,
  those that print what they always print, \<open>seq\<close>, \<open>factor\<close> and arithmetic; and \<open>run_command_tokens\<close>, which
  chooses the command.
\<close>

section \<open>Variables and aliases\<close>

text \<open>\<open>word.split("=")\<close>, whose first piece is the key and whose others, joined again, are the value.\<close>

definition split_assignment :: "string \<Rightarrow> string \<times> string option" where
  "split_assignment w =
     (case split_on (CHR ''='') w of
        [] \<Rightarrow> ([], None)
      | k # vs \<Rightarrow> (k, if vs = [] then None else Some (join_with ''='' vs)))"

text \<open>The assignments before a command, \<open>/^[A-Za-z_][A-Za-z0-9_]*=.*/\<close>.\<close>

definition is_assignment :: "string \<Rightarrow> bool" where
  "is_assignment w = (is_valid_var_name (takeWhile word_char w) \<and> starts_with (dropWhile word_char w) ''='')"

fun assign_words :: "vars \<Rightarrow> string list \<Rightarrow> vars \<times> string list" where
  "assign_words env [] = (env, [])"
| "assign_words env (w # ws) =
     (if w = [] \<or> \<not> is_assignment w then (env, w # ws)
      else case split_assignment w of
             (k, v) \<Rightarrow>
               assign_words (if is_valid_var_name k then dict_put k (case v of None \<Rightarrow> [] | Some t \<Rightarrow> t) env else env) ws)"

definition value_of :: "vars \<Rightarrow> string \<Rightarrow> string" where
  "value_of d k = (case map_of d k of None \<Rightarrow> [] | Some v \<Rightarrow> v)"

definition history_command :: "string list \<Rightarrow> shell_outcome" where
  "history_command cmd_history =
     (ok_lines (map (\<lambda>(i, l). pad_start 4 (show_nat (Suc i)) @ ''  '' @ l) (enumerate 0 cmd_history)), 0)"

text \<open>\<open>value.replace(/^['"]|['"]$/g, "")\<close>\<close>

definition is_quote :: "char \<Rightarrow> bool" where
  "is_quote c = (c = CHR 0x22 \<or> c = CHR 0x27)"

definition unquote :: "string \<Rightarrow> string" where
  "unquote v =
     (let w = (if v \<noteq> [] \<and> is_quote (hd v) then tl v else v)
      in if w \<noteq> [] \<and> is_quote (last w) then butlast w else w)"

definition alias_command :: "vars \<Rightarrow> string list \<Rightarrow> vars \<times> shell_outcome" where
  "alias_command aliases args =
     (if args = [] then
        (aliases, ok_lines (map (\<lambda>(k, v). ''alias '' @ k @ ''='' @ quoted v) (object_entries aliases)), 0)
      else
        let assignment = trim (join_with '' '' args)
        in case index_of ''='' assignment of
             None \<Rightarrow> (aliases, failed ''alias: invalid assignment'')
           | Some i \<Rightarrow>
               let name = trim (take i assignment); v = trim (drop (Suc i) assignment)
               in if name = [] then (aliases, failed ''alias: invalid name'')
                  else (dict_put name (unquote v) aliases, [], 0))"

definition unalias_command :: "vars \<Rightarrow> string list \<Rightarrow> vars \<times> shell_outcome" where
  "unalias_command aliases args =
     (case args of
        [] \<Rightarrow> (aliases, failed ''unalias: usage: unalias name'')
      | a # others \<Rightarrow>
          if a = [] then (aliases, failed ''unalias: usage: unalias name'') else (dict_del a aliases, [], 0))"

definition sorted_env :: "(string \<Rightarrow> string \<Rightarrow> string) \<Rightarrow> vars \<Rightarrow> string list" where
  "sorted_env f env = map (\<lambda>k. f k (value_of env k)) (sort (object_keys env))"

fun export_words :: "string list \<Rightarrow> vars \<Rightarrow> vars" where
  "export_words [] env = env"
| "export_words (a # others) env =
     (case split_assignment a of
        (k, v) \<Rightarrow>
          export_words others
            (if \<not> is_valid_var_name k then env
             else dict_put k (case v of None \<Rightarrow> value_of env k | Some t \<Rightarrow> t) env))"

definition export_command :: "vars \<Rightarrow> string list \<Rightarrow> vars \<times> shell_outcome" where
  "export_command env args =
     (if args = [] then
        (env, ok_lines (sorted_env (\<lambda>k v. ''export '' @ k @ ''='' @ dq @ v @ dq) env), 0)
      else (export_words args env, [], 0))"

definition unset_command :: "vars \<Rightarrow> string list \<Rightarrow> vars \<times> shell_outcome" where
  "unset_command env args = (foldl (\<lambda>e a. dict_del a e) env args, [], 0)"

definition env_command :: "vars \<Rightarrow> shell_outcome" where
  "env_command env = (ok_lines (sorted_env (\<lambda>k v. k @ ''='' @ v) env), 0)"

definition which_line :: "vars \<Rightarrow> string \<Rightarrow> output_line" where
  "which_line aliases name =
     (if value_of aliases name \<noteq> [] then pale_line (name @ '' is aliased to '' @ quoted (value_of aliases name))
      else if name \<in> set COMMAND_LIST then pale_line (''/usr/bin/'' @ name)
      else error_line (name @ '' not found''))"

definition which_command :: "vars \<Rightarrow> string \<Rightarrow> string list \<Rightarrow> shell_outcome" where
  "which_command aliases cmd args =
     (if args = [] \<or> hd args = [] then failed (cmd @ '': missing operand'')
      else let out = map (which_line aliases) args in (out, code_of_lines out))"

definition ends_with :: "string \<Rightarrow> string \<Rightarrow> bool" where
  "ends_with s p = starts_with (rev s) (rev p)"

definition file_command :: "shell \<Rightarrow> string \<Rightarrow> string list \<Rightarrow> shell_outcome" where
  "file_command sh cwd args =
     (case args of
        [] \<Rightarrow> failed ''file: missing operand''
      | a # others \<Rightarrow>
          if a = [] then failed ''file: missing operand''
          else
            (case get_node (sh_fs sh) (sh_root sh) (resolve_path cwd a) of
               None \<Rightarrow> failed (''file: cannot open '' @ quoted a)
             | Some n \<Rightarrow>
                 (ok_lines [a @ '': '' @
                    (if is_dir (sh_fs sh) n then ''directory''
                     else if ends_with a ''.json'' then ''JSON text data'' else ''ASCII text'')], 0)))"

section \<open>What is always the same\<close>

definition first_or :: "string \<Rightarrow> string list \<Rightarrow> string" where
  "first_or d args = (case args of [] \<Rightarrow> d | a # others \<Rightarrow> a)"

definition grey_lines :: "string list \<Rightarrow> output_line list" where
  "grey_lines ls = map info_line ls"

definition help_command :: shell_outcome where
  "help_command = (info_line ''Available commands:'' # ok_lines HELP_LINES, 0)"

definition echo_command :: "string list \<Rightarrow> shell_outcome" where
  "echo_command args = (ok_lines [join_with '' '' (if first_or [] args = ''-n'' then tl args else args)], 0)"

definition whoami_command :: shell_outcome where
  "whoami_command = (ok_lines [''developer''], 0)"

definition id_command :: shell_outcome where
  "id_command = (ok_lines [''uid=1000(developer) gid=1000(developer) groups=1000(developer)''], 0)"

text \<open>\<open>toUTCString\<close>; the day 0 of the model's calendar was a Saturday.\<close>

definition utc_text :: "int \<Rightarrow> string" where
  "utc_text ms =
     (let secs = nat (ms + epoch_ms) div 1000; days = secs div 86400; r = secs mod 86400;
          (year, day) = civil_year days; (month, d) = month_of 0 (month_lengths year) day
      in [''Sun'', ''Mon'', ''Tue'', ''Wed'', ''Thu'', ''Fri'', ''Sat''] ! ((days + 6) mod 7) @ '', '' @
         pad 2 (Suc d) @ '' '' @ month_texts ! month @ '' '' @ pad 4 year @ '' '' @
         pad 2 (r div 3600) @ '':'' @ pad 2 (r div 60 mod 60) @ '':'' @ pad 2 (r mod 60) @ '' GMT'')"

definition date_command :: "'n surroundings \<Rightarrow> string list \<Rightarrow> shell_outcome" where
  "date_command su args =
     (ok_lines
       [if ''-I'' \<in> set args then take 10 (to_iso (su_now su))
        else if ''-R'' \<in> set args then utc_text (su_now su)
        else if ''-u'' \<in> set args then utc_text (su_now su)
        else su_date_text su (su_now su)], 0)"

definition uname_command :: shell_outcome where
  "uname_command = (ok_lines [''Linux tbd-dev 6.2.0-rc1 x86_64 GNU/Linux''], 0)"

definition hostname_command :: shell_outcome where
  "hostname_command = (ok_lines [''tbd-dev''], 0)"

definition uptime_command :: shell_outcome where
  "uptime_command = (ok_lines ['' 10:24:18 up 5 days,  3:12,  1 user,  load average: 0.12, 0.08, 0.03''], 0)"

definition ps_command :: shell_outcome where
  "ps_command =
     (ok_lines
       [''USER       PID %CPU %MEM    VSZ   RSS TTY      STAT START   TIME COMMAND'',
        ''developer  101  0.0  0.1  53284  4120 pts/0    S+   09:12   0:00 bash'',
        ''developer  202  0.1  0.3 158420 12400 pts/0    Sl   09:12   0:01 node dev-server''], 0)"

definition df_command :: "string list \<Rightarrow> shell_outcome" where
  "df_command args =
     (ok_lines
       (if ''-h'' \<in> set args then
          [''Filesystem      Size  Used Avail Use% Mounted on'',
           ''/dev/sda1        64G   12G   49G  20% /'',
           ''tmpfs           1.9G     0  1.9G   0% /dev/shm'']
        else
          [''Filesystem 1K-blocks Used Available Use% Mounted on'',
           ''/dev/sda1 67108864 12582912 51407232 20% /'']), 0)"

definition free_command :: shell_outcome where
  "free_command =
     (ok_lines
       [''              total        used        free      shared  buff/cache   available'',
        ''Mem:           3.8Gi       1.2Gi       1.4Gi       128Mi       1.2Gi       2.3Gi'',
        ''Swap:          2.0Gi          0B       2.0Gi''], 0)"

definition ifconfig_command :: shell_outcome where
  "ifconfig_command =
     (ok_lines
       [''eth0: flags=4163<UP,BROADCAST,RUNNING,MULTICAST>  mtu 1500'',
        ''        inet 192.168.1.42  netmask 255.255.255.0  broadcast 192.168.1.255'',
        ''        ether 02:42:ac:11:00:02  txqueuelen 1000  (Ethernet)''], 0)"

definition netstat_command :: shell_outcome where
  "netstat_command =
     (ok_lines
       [''Active Internet connections (w/o servers)'',
        ''Proto Recv-Q Send-Q Local Address           Foreign Address         State'',
        ''tcp        0      0 192.168.1.42:5173      93.184.216.34:https     ESTABLISHED''], 0)"

definition ping_command :: "string list \<Rightarrow> shell_outcome" where
  "ping_command args =
     (let host = first_or ''localhost'' args
      in (ok_lines
           [''PING '' @ host @ '' (93.184.216.34) 56(84) bytes of data.'',
            ''64 bytes from '' @ host @ '': icmp_seq=1 ttl=56 time=10.2 ms'',
            ''64 bytes from '' @ host @ '': icmp_seq=2 ttl=56 time=11.0 ms'',
            ''64 bytes from '' @ host @ '': icmp_seq=3 ttl=56 time=9.8 ms'',
            ''--- '' @ host @ '' ping statistics ---'',
            ''3 packets transmitted, 3 received, 0% packet loss, time 2002ms''], 0))"

definition curl_command :: "'n surroundings \<Rightarrow> string list \<Rightarrow> shell_outcome" where
  "curl_command su args =
     (let url = (case find (\<lambda>a. starts_with a ''http'') args of None \<Rightarrow> ''https://example.com'' | Some u \<Rightarrow> u)
      in (ok_lines
           (if ''-I'' \<in> set args \<or> ''-sI'' \<in> set args then
              [''HTTP/1.1 200 OK'', ''content-type: text/html; charset=UTF-8'', ''server: demo'',
               ''date: '' @ utc_text (su_now su)]
            else
              [''<!doctype html>'', ''<html>'', ''<head><title>'' @ url @ ''</title></head>'',
               ''<body>demo response</body>'', ''</html>'']), 0))"

definition wget_command :: "'n surroundings \<Rightarrow> string list \<Rightarrow> shell_outcome" where
  "wget_command su args =
     (let url = first_or ''https://example.com'' args; host = replace_text ''https://'' [] url
      in (ok_lines
           [''--'' @ utc_text (su_now su) @ ''--  '' @ url,
            ''Resolving '' @ host @ ''... 93.184.216.34'',
            ''Connecting to '' @ host @ ''... connected.'',
            ''HTTP request sent, awaiting response... 200 OK'',
            ''Length: 1256 (1.2K) [text/html]'',
            ''Saving to: '' @ quoted ''index.html'',
            [],
            ''index.html            100%[===================>]   1.23K  --.-KB/s    in 0s''], 0))"

definition ssh_command :: "string list \<Rightarrow> shell_outcome" where
  "ssh_command args =
     ([error_line (''ssh: connect to host '' @ first_or ''unknown'' args @ '' port 22: Connection refused'')], 255)"

definition git_command :: "string list \<Rightarrow> shell_outcome" where
  "git_command args =
     (let sub = first_or ''status'' args
      in (if sub = ''status'' then
            ok_lines
              [''On branch main'',
               ''Your branch is up to date with '' @ quoted ''origin/main'' @ ''.'',
               ''nothing to commit, working tree clean'']
          else if sub = ''log'' then
            ok_lines
              [''commit b2d4e6f (HEAD -> main)'', ''Author: Developer <dev@example.com>'',
               ''Date:   Thu May 9 10:11:12 2024 +0000'', [], ''    feat: initial portfolio'']
          else if sub = ''branch'' then ok_lines [''* main'']
          else if sub = ''diff'' then grey_lines [[]]
          else if sub \<in> {''add'', ''commit'', ''push'', ''pull''} then ok_lines [''(demo) command acknowledged'']
          else if sub = ''clone'' then
            ok_lines
              [''Cloning into '' @ quoted (last (split_on (CHR ''/'') (first_or ''repo'' (tl args)))) @ ''...'', ''done.'']
          else if sub = ''init'' then ok_lines [''Initialized empty Git repository in .git/'']
          else if sub = ''remote'' then
            ok_lines
              [''origin'' @ [CHR 0x09] @ ''https://github.com/user/portfolio.git (fetch)'',
               ''origin'' @ [CHR 0x09] @ ''https://github.com/user/portfolio.git (push)'']
          else grey_lines [''git: '' @ quoted sub @ '' not implemented in demo''], 0))"

definition arrow :: string where
  "arrow = map char_of [226, 158, 156 :: nat]"

definition tick :: string where
  "tick = map char_of [226, 156, 147 :: nat]"

definition npm_command :: "string list \<Rightarrow> shell_outcome" where
  "npm_command args =
     (let sub = first_or [] args; script = first_or [] (tl args)
      in (if sub = ''install'' then ok_lines [''added 42 packages in 2.1s'']
          else if sub = ''run'' \<and> script = ''dev'' then
            ok_lines
              [''VITE v5.0.0  ready in 124ms'', [], ''  '' @ arrow @ ''  Local:   http://localhost:5173/'',
               ''  '' @ arrow @ ''  Network: http://192.168.1.42:5173/'']
          else if sub = ''run'' \<and> script = ''build'' then
            ok_lines
              [''vite v5.0.0 building for production...'', ''dist/index.html  1.2 kB'', tick @ '' built in 1.1s'']
          else if sub = ''test'' then grey_lines [''0 failing'']
          else if sub = ''audit'' then grey_lines [''found 0 vulnerabilities'']
          else grey_lines [''npm: try '' @ quoted ''npm install'' @ '' or '' @ quoted ''npm run dev''], 0))"

definition npx_command :: "string list \<Rightarrow> shell_outcome" where
  "npx_command args =
     (ok_lines [''npx: installed 1 in 1.1s'', ''running '' @ first_or ''pkg'' args @ ''...''], 0)"

definition node_command :: "string list \<Rightarrow> shell_outcome" where
  "node_command args =
     (grey_lines
       (if first_or [] args = ''-e'' then [''(demo) node -e executed'']
        else [''Node.js v20.0.0 (demo)'', ''> this is a demo runtime'']), 0)"

definition python_command :: shell_outcome where
  "python_command = (grey_lines [''Python 3.12.0 (demo)'', ''>>> this is a demo runtime''], 0)"

definition make_command :: shell_outcome where
  "make_command = ([error_line ''make: *** No targets specified and no makefile found.  Stop.''], 2)"

definition docker_command :: "string list \<Rightarrow> shell_outcome" where
  "docker_command args =
     (let sub = first_or ''ps'' args
      in (if sub = ''ps'' then ok_lines [''CONTAINER ID   IMAGE     COMMAND   STATUS    PORTS   NAMES'']
          else if sub = ''images'' then
            ok_lines [''REPOSITORY   TAG       IMAGE ID       CREATED        SIZE'']
          else grey_lines [''docker '' @ sub @ '': command not executed in demo''], 0))"

definition yes_command :: "string list \<Rightarrow> shell_outcome" where
  "yes_command args = (ok_lines (replicate 25 (first_or ''y'' args)), 0)"

definition sl_command :: shell_outcome where
  "sl_command =
     (ok_lines
       [''     ====        ________                ___________ '',
        '' _D _|  |_______/        '' @ [CHR 0x5C] @ ''__I_I_____===__|_________| '',
        ''  |(_)---  |   H'' @ [CHR 0x5C] @ ''________/ |   |        =|___ ___|   '',
        ''  /     |  |   H  |  |     |   |         ||_| |_||    '',
        '' |      |  |   H  |__--------------------| [___] |    ''], 0)"

definition exit_command :: shell_outcome where
  "exit_command = (ok_lines [''logout'', ''Connection to demo closed.''], 0)"

section \<open>Numbers\<close>

text \<open>
  The loop of \<open>seq\<close>, up or down; the loops of \<open>factor\<close>, which divides by the divisor as long as it goes, and
  goes on to the next divisor. They end for some numbers only.
\<close>

partial_function (option) seq_lines :: "'n numbers \<Rightarrow> bool \<Rightarrow> 'n \<Rightarrow> 'n \<Rightarrow> string list option" where
  "seq_lines nb up i fin =
     (if (if up then nb_le nb i fin else nb_le nb fin i) then
        Option.bind (seq_lines nb up ((if up then ar_add else ar_sub) nb i (nb_num nb 1)) fin)
          (\<lambda>ls. Some (ar_show nb i # ls))
      else Some [])"

declare seq_lines.simps [code]

definition seq_command :: "'n numbers \<Rightarrow> string list \<Rightarrow> shell_outcome option" where
  "seq_command nb args =
     (let two = 2 \<le> length args;
          start = (if two then ar_read nb (hd args) else Some (nb_num nb 1));
          fin = (if two then ar_read nb (args ! 1) else if args = [] then Some (nb_num nb 1) else ar_read nb (hd args))
      in case (start, fin) of
           (Some a, Some b) \<Rightarrow> map_option (\<lambda>ls. (ok_lines ls, 0)) (seq_lines nb (nb_le nb a b) a b)
         | _ \<Rightarrow> Some (failed ''seq: invalid range''))"

partial_function (option) divide_out :: "'n numbers \<Rightarrow> 'n \<Rightarrow> 'n \<Rightarrow> ('n \<times> nat) option" where
  "divide_out nb divisor v =
     (if ar_zero nb (ar_rem nb v divisor) then
        Option.bind (divide_out nb divisor (ar_div nb v divisor)) (\<lambda>(w, n). Some (w, Suc n))
      else Some (v, 0))"

partial_function (option) factor_loop :: "'n numbers \<Rightarrow> 'n \<Rightarrow> 'n \<Rightarrow> 'n list option" where
  "factor_loop nb v divisor =
     (if \<not> nb_le nb v (nb_num nb 1) \<and> nb_le nb divisor v then
        Option.bind (divide_out nb divisor v) (\<lambda>(w, n).
          Option.bind (factor_loop nb w (ar_add nb divisor (nb_num nb 1))) (\<lambda>fs. Some (replicate n divisor @ fs)))
      else Some [])"

declare divide_out.simps [code] factor_loop.simps [code]

definition factor_command :: "'n numbers \<Rightarrow> string list \<Rightarrow> shell_outcome option" where
  "factor_command nb args =
     (case (if args = [] \<or> hd args = [] then None else ar_read nb (hd args)) of
        None \<Rightarrow> Some (failed ''factor: invalid number'')
      | Some v \<Rightarrow>
          map_option (\<lambda>fs. (ok_lines [ar_show nb v @ '': '' @ join_with '' '' (map (ar_show nb) fs)], 0))
            (factor_loop nb v (nb_num nb 2)))"

definition expr_command :: "'n numbers \<Rightarrow> string \<Rightarrow> string list \<Rightarrow> shell_outcome" where
  "expr_command nb cmd args =
     (case safe_eval_math (arith.truncate nb) (join_with '' '' args) of
        None \<Rightarrow> failed (cmd @ '': invalid expression'')
      | Some t \<Rightarrow> if t = [] then failed (cmd @ '': invalid expression'') else (ok_lines [t], 0))"

definition cal_command :: "'n surroundings \<Rightarrow> shell_outcome" where
  "cal_command su = (ok_lines (format_calendar (su_local su (su_now su))), 0)"

definition man_command :: "string list \<Rightarrow> shell_outcome" where
  "man_command args =
     (let topic = first_or [] args
      in if topic = [] then failed ''man: missing manual page''
         else if topic = ''ls'' then
           (ok_lines [''LS(1)'', ''NAME'', ''  ls - list directory contents'', ''SYNOPSIS'', ''  ls [OPTION]... [FILE]...''], 0)
         else (grey_lines [''No manual entry for '' @ topic], 0))"

definition apropos_command :: "string list \<Rightarrow> shell_outcome" where
  "apropos_command args =
     (let term = first_or [] args;
          names = concat (map (\<lambda>l. case split_text '': '' l of a # b # r \<Rightarrow> split_text '', '' b | _ \<Rightarrow> []) HELP_LINES);
          matches = filter (\<lambda>n. index_of term n \<noteq> None) names
      in if term = [] then failed ''apropos: missing keyword''
         else if matches = [] then (grey_lines [''nothing appropriate''], 0)
         else (ok_lines (map (\<lambda>m. m @ '' - demo command'') matches), 0))"

definition fortunes :: "string list" where
  "fortunes =
     [''Build small. Ship fast.'', ''Write tests for the edge cases.'', ''Keep latency low and feedback fast.'',
      ''Make it work, then make it right.'']"

text \<open>\<open>Math.floor(Math.random() * n)\<close> is below \<open>n\<close>.\<close>

definition fortune_command :: "'n surroundings \<Rightarrow> shell_outcome" where
  "fortune_command su = (ok_lines [fortunes ! (su_pick su (length fortunes) mod length fortunes)], 0)"

definition cowsay_command :: "string list \<Rightarrow> shell_outcome" where
  "cowsay_command args = (ok_lines (cowsay (join_with '' '' args)), 0)"

section \<open>The choice of the command\<close>

record call =
  cl_cmd :: string
  cl_args :: "string list"
  cl_stdin :: "string list"
  cl_cwd :: string
  cl_history :: "string list"

type_synonym handler = "call \<Rightarrow> shell \<Rightarrow> shell \<times> command_result option"

definition result_of :: "string \<Rightarrow> shell_outcome \<Rightarrow> command_result" where
  "result_of cwd r = \<lparr>cr_output = fst r, cr_cwd = cwd, cr_exit = snd r, cr_clear = False\<rparr>"

text \<open>A command that keeps the shell; one that may not return; those on files, variables and aliases.\<close>

definition prints :: "(call \<Rightarrow> shell \<Rightarrow> shell_outcome) \<Rightarrow> handler" where
  "prints f c sh = (sh, Some (result_of (cl_cwd c) (f c sh)))"

definition may_print :: "(call \<Rightarrow> shell \<Rightarrow> shell_outcome option) \<Rightarrow> handler" where
  "may_print f c sh = (sh, map_option (result_of (cl_cwd c)) (f c sh))"

definition on_files :: "(call \<Rightarrow> shell \<Rightarrow> store \<times> shell_outcome) \<Rightarrow> handler" where
  "on_files f c sh = (case f c sh of (st, r) \<Rightarrow> (sh\<lparr>sh_fs := st\<rparr>, Some (result_of (cl_cwd c) r)))"

definition on_env :: "(vars \<Rightarrow> string list \<Rightarrow> vars \<times> shell_outcome) \<Rightarrow> handler" where
  "on_env f c sh = (case f (sh_env sh) (cl_args c) of (d, r) \<Rightarrow> (sh\<lparr>sh_env := d\<rparr>, Some (result_of (cl_cwd c) r)))"

definition on_aliases :: "(vars \<Rightarrow> string list \<Rightarrow> vars \<times> shell_outcome) \<Rightarrow> handler" where
  "on_aliases f c sh =
     (case f (sh_aliases sh) (cl_args c) of (d, r) \<Rightarrow> (sh\<lparr>sh_aliases := d\<rparr>, Some (result_of (cl_cwd c) r)))"

definition clear_handler :: handler where
  "clear_handler c sh = (sh, Some ((result_of (cl_cwd c) ([], 0))\<lparr>cr_clear := True\<rparr>))"

definition cd_handler :: handler where
  "cd_handler c sh = (case cd_command sh (cl_cwd c) (cl_args c) of (cwd, r) \<Rightarrow> (sh, Some (result_of cwd r)))"

definition cp_handler :: handler where
  "cp_handler c sh =
     (case cp_command sh (cl_cwd c) (cl_args c) of
        (st, r) \<Rightarrow> (sh\<lparr>sh_fs := st\<rparr>, map_option (result_of (cl_cwd c)) r))"

text \<open>The cases of the switch.\<close>

definition commands :: "'n surroundings \<Rightarrow> (string \<times> handler) list" where
  "commands su =
     [(''help'', prints (\<lambda>c sh. help_command)),
      (''clear'', clear_handler),
      (''reset'', clear_handler),
      (''pwd'', prints (\<lambda>c sh. pwd_command (cl_cwd c))),
      (''cd'', cd_handler),
      (''ls'', prints (\<lambda>c sh. ls_command su sh (cl_cwd c) (cl_args c))),
      (''cat'', prints (\<lambda>c sh. cat_command sh (cl_stdin c) (cl_cwd c) (cl_args c))),
      (''echo'', prints (\<lambda>c sh. echo_command (cl_args c))),
      (''whoami'', prints (\<lambda>c sh. whoami_command)),
      (''id'', prints (\<lambda>c sh. id_command)),
      (''date'', prints (\<lambda>c sh. date_command su (cl_args c))),
      (''tree'', may_print (\<lambda>c sh. tree_command su sh (cl_cwd c) (cl_args c))),
      (''mkdir'', on_files (\<lambda>c sh. mkdir_command su sh (cl_cwd c) (cl_args c))),
      (''touch'', on_files (\<lambda>c sh. touch_command su sh (cl_cwd c) (cl_args c))),
      (''rm'', on_files (\<lambda>c sh. rm_command sh (cl_cwd c) (cl_args c))),
      (''mv'', on_files (\<lambda>c sh. mv_command sh (cl_cwd c) (cl_args c))),
      (''cp'', cp_handler),
      (''find'', may_print (\<lambda>c sh. find_command sh (cl_cwd c) (cl_args c))),
      (''stat'', prints (\<lambda>c sh. stat_command su sh (cl_cwd c) (cl_args c))),
      (''grep'', may_print (\<lambda>c sh. grep_command su sh (cl_stdin c) (cl_cwd c) (cl_args c))),
      (''head'', prints (\<lambda>c sh. head_command su sh (cl_stdin c) (cl_cwd c) (cl_args c))),
      (''tail'', prints (\<lambda>c sh. tail_command su sh (cl_stdin c) (cl_cwd c) (cl_args c))),
      (''wc'', prints (\<lambda>c sh. wc_command sh (cl_stdin c) (cl_cwd c) (cl_args c))),
      (''sort'', prints (\<lambda>c sh. sort_command su sh (cl_stdin c) (cl_cwd c) (cl_args c))),
      (''uniq'', prints (\<lambda>c sh. uniq_command sh (cl_stdin c) (cl_cwd c) (cl_args c))),
      (''cut'', prints (\<lambda>c sh. cut_command su sh (cl_stdin c) (cl_cwd c) (cl_args c))),
      (''tr'', prints (\<lambda>c sh. tr_command (cl_stdin c) (cl_args c))),
      (''sed'', prints (\<lambda>c sh. sed_command su (cl_stdin c) (cl_args c))),
      (''history'', prints (\<lambda>c sh. history_command (cl_history c))),
      (''alias'', on_aliases alias_command),
      (''unalias'', on_aliases unalias_command),
      (''export'', on_env export_command),
      (''unset'', on_env unset_command),
      (''env'', prints (\<lambda>c sh. env_command (sh_env sh))),
      (''printenv'', prints (\<lambda>c sh. env_command (sh_env sh))),
      (''which'', prints (\<lambda>c sh. which_command (sh_aliases sh) (cl_cmd c) (cl_args c))),
      (''type'', prints (\<lambda>c sh. which_command (sh_aliases sh) (cl_cmd c) (cl_args c))),
      (''file'', prints (\<lambda>c sh. file_command sh (cl_cwd c) (cl_args c))),
      (''uname'', prints (\<lambda>c sh. uname_command)),
      (''hostname'', prints (\<lambda>c sh. hostname_command)),
      (''uptime'', prints (\<lambda>c sh. uptime_command)),
      (''ps'', prints (\<lambda>c sh. ps_command)),
      (''df'', prints (\<lambda>c sh. df_command (cl_args c))),
      (''free'', prints (\<lambda>c sh. free_command)),
      (''ip'', prints (\<lambda>c sh. ifconfig_command)),
      (''ifconfig'', prints (\<lambda>c sh. ifconfig_command)),
      (''netstat'', prints (\<lambda>c sh. netstat_command)),
      (''ping'', prints (\<lambda>c sh. ping_command (cl_args c))),
      (''curl'', prints (\<lambda>c sh. curl_command su (cl_args c))),
      (''wget'', prints (\<lambda>c sh. wget_command su (cl_args c))),
      (''ssh'', prints (\<lambda>c sh. ssh_command (cl_args c))),
      (''git'', prints (\<lambda>c sh. git_command (cl_args c))),
      (''npm'', prints (\<lambda>c sh. npm_command (cl_args c))),
      (''npx'', prints (\<lambda>c sh. npx_command (cl_args c))),
      (''node'', prints (\<lambda>c sh. node_command (cl_args c))),
      (''python'', prints (\<lambda>c sh. python_command)),
      (''python3'', prints (\<lambda>c sh. python_command)),
      (''make'', prints (\<lambda>c sh. make_command)),
      (''docker'', prints (\<lambda>c sh. docker_command (cl_args c))),
      (''sleep'', prints (\<lambda>c sh. ([], 0))),
      (''true'', prints (\<lambda>c sh. ([], 0))),
      (''false'', prints (\<lambda>c sh. ([], 1))),
      (''yes'', prints (\<lambda>c sh. yes_command (cl_args c))),
      (''seq'', may_print (\<lambda>c sh. seq_command (su_numbers su) (cl_args c))),
      (''factor'', may_print (\<lambda>c sh. factor_command (su_numbers su) (cl_args c))),
      (''bc'', prints (\<lambda>c sh. expr_command (su_numbers su) (cl_cmd c) (cl_args c))),
      (''expr'', prints (\<lambda>c sh. expr_command (su_numbers su) (cl_cmd c) (cl_args c))),
      (''cal'', prints (\<lambda>c sh. cal_command su)),
      (''man'', prints (\<lambda>c sh. man_command (cl_args c))),
      (''apropos'', prints (\<lambda>c sh. apropos_command (cl_args c))),
      (''fortune'', prints (\<lambda>c sh. fortune_command su)),
      (''cowsay'', prints (\<lambda>c sh. cowsay_command (cl_args c))),
      (''sl'', prints (\<lambda>c sh. sl_command)),
      (''exit'', prints (\<lambda>c sh. exit_command))]"

definition run_command_tokens ::
  "'n surroundings \<Rightarrow> string list \<Rightarrow> string list \<Rightarrow> string list \<Rightarrow> string \<Rightarrow> shell \<Rightarrow> shell \<times> command_result option" where
  "run_command_tokens su cmd_history tokens stdin cwd sh =
     (case assign_words (sh_env sh) tokens of
        (env, words) \<Rightarrow>
          let sh1 = sh\<lparr>sh_env := env\<rparr>
          in if words = [] then (sh1, Some (result_of cwd ([], 0)))
             else
               (case map_of (commands su) (hd words) of
                  None \<Rightarrow> (sh1, Some (result_of cwd ([error_line (''command not found: '' @ hd words)], 127)))
                | Some h \<Rightarrow>
                    h \<lparr>cl_cmd = hd words, cl_args = tl words, cl_stdin = stdin, cl_cwd = cwd, cl_history = cmd_history\<rparr> sh1))"

end
