(* ===== verification/ShellSpec.thy ===== *)
theory ShellSpec
  imports ShellCommands FileSystemWalk
begin

text \<open>
  What the commands of the shell promise: each keeps the shell in order, ends, and keeps the file system
  sound unless it changes the home directory itself; what \<open>find\<close>, \<open>uniq\<close>, \<open>seq\<close> and \<open>factor\<close> compute; and how a
  line is parsed.
\<close>

section \<open>Loops over targets\<close>

lemma for_each_keeps:
  assumes "\<And>x st. x \<in> set xs \<Longrightarrow> P st \<Longrightarrow> P (fst (f x st))" and "P st"
  shows "P (fst (for_each f xs st))"
  using assms
proof (induction xs arbitrary: st)
  case (Cons x xs)
  obtain st1 out1 c1 where f: "f x st = (st1, out1, c1)" by (cases "f x st") auto
  obtain st2 out2 c2 where r: "for_each f xs st1 = (st2, out2, c2)" by (cases "for_each f xs st1") auto
  have "P (fst (for_each f xs st1))" using Cons f by (metis fst_conv list.set_intros)
  then show ?case by (simp add: f r)
qed simp

lemma for_each_in:
  "(\<And>x st. x \<in> set xs \<Longrightarrow> well_formed st root \<Longrightarrow> well_formed (fst (f x st)) root) \<Longrightarrow> well_formed st root \<Longrightarrow>
     well_formed (fst (for_each f xs st)) root"
  "(\<And>x st. x \<in> set xs \<Longrightarrow> sound st root \<Longrightarrow> sound (fst (f x st)) root) \<Longrightarrow> sound st root \<Longrightarrow>
     sound (fst (for_each f xs st)) root"
  by (rule for_each_keeps [where P = "\<lambda>st. well_formed st root"]; simp)
    (rule for_each_keeps [where P = "\<lambda>st. sound st root"]; simp)

lemma fst_let_prod: "fst (case x of (a, b) \<Rightarrow> (a, g b)) = fst x" "snd (case x of (a, b) \<Rightarrow> (a, g b)) = g (snd x)"
  by (simp_all split: prod.split)

lemma cp_targets_keeps:
  assumes "\<And>x st. x \<in> set xs \<Longrightarrow> P st \<Longrightarrow> P (fst (copy_node root (resolve_path cwd x) dest recursive st))" and "P st"
  shows "P (fst (cp_targets root cwd recursive dest xs st))"
  using assms
proof (induction xs arbitrary: st)
  case (Cons x xs)
  obtain st1 r where c: "copy_node root (resolve_path cwd x) dest recursive st = (st1, r)" by fastforce
  with Cons(2) [of x st] Cons(3) have "P st1" by simp
  with Cons(1) [OF Cons(2)] c show ?case by (cases r) (simp_all add: Let_def fst_let_prod)
qed simp

lemma cp_targets_ends:
  assumes "\<And>x st. x \<in> set xs \<Longrightarrow> P st \<Longrightarrow>
      P (fst (copy_node root (resolve_path cwd x) dest recursive st)) \<and>
      snd (copy_node root (resolve_path cwd x) dest recursive st) \<noteq> Overflow" and "P st"
  shows "snd (cp_targets root cwd recursive dest xs st) \<noteq> None"
  using assms
proof (induction xs arbitrary: st)
  case (Cons x xs)
  obtain st1 r where c: "copy_node root (resolve_path cwd x) dest recursive st = (st1, r)" by fastforce
  with Cons(2) [of x st] Cons(3) have "P st1" "r \<noteq> Overflow" by simp_all
  with Cons(1) [OF Cons(2)] c show ?case by (cases r) (simp_all add: Let_def fst_let_prod)
qed simp

section \<open>The shell stays in order\<close>

definition valid_env :: "vars \<Rightarrow> bool" where
  "valid_env env = (is_dict env \<and> (\<forall>k \<in> fst ` set env. is_valid_var_name k))"

definition shell_ok :: "shell \<Rightarrow> bool" where
  "shell_ok sh = (well_formed (sh_fs sh) (sh_root sh) \<and> valid_env (sh_env sh) \<and> is_dict (sh_aliases sh))"

definition keeps_order :: "handler \<Rightarrow> bool" where
  "keeps_order h = (\<forall>c sh. shell_ok sh \<longrightarrow> shell_ok (fst (h c sh)) \<and> sh_root (fst (h c sh)) = sh_root sh)"

lemma valid_put: "valid_env env \<Longrightarrow> is_valid_var_name k \<Longrightarrow> valid_env (dict_put k v env)"
  by (simp add: valid_env_def keys_dict_put)

lemma valid_del: "valid_env env \<Longrightarrow> valid_env (dict_del k env)"
  by (auto simp: valid_env_def dict_del_def is_dict_def distinct_map_filter)

lemma valid_assign: "valid_env env \<Longrightarrow> valid_env (fst (assign_words env ws))"
  by (induction env ws rule: assign_words.induct) (auto simp: valid_put split: prod.split)

lemma valid_export: "valid_env env \<Longrightarrow> valid_env (export_words others env)"
  by (induction others env rule: export_words.induct) (auto simp: valid_put split: prod.split)

lemma valid_unset: "valid_env env \<Longrightarrow> valid_env (foldl (\<lambda>e a. dict_del a e) env others)"
  by (induction others arbitrary: env) (simp_all add: valid_del)

lemma keeps_printing: "keeps_order (prints f)" "keeps_order (may_print g)" "keeps_order clear_handler"
  by (simp_all add: keeps_order_def prints_def may_print_def clear_handler_def)

lemma keeps_cd: "keeps_order cd_handler"
  by (simp add: keeps_order_def cd_handler_def split: prod.split)

lemma keeps_env: "keeps_order (on_env export_command)" "keeps_order (on_env unset_command)"
  by (auto simp: keeps_order_def on_env_def shell_ok_def export_command_def unset_command_def
      valid_export valid_unset split: prod.split)

lemma keeps_aliases: "keeps_order (on_aliases alias_command)" "keeps_order (on_aliases unalias_command)"
  by (auto simp: keeps_order_def on_aliases_def shell_ok_def alias_command_def unalias_command_def Let_def
      split: prod.split option.split list.split)

lemma keeps_files:
  fixes f :: "call \<Rightarrow> shell \<Rightarrow> store \<times> shell_outcome"
  assumes "\<And>c sh. well_formed (sh_fs sh) (sh_root sh) \<Longrightarrow> well_formed (fst (f c sh)) (sh_root sh)"
  shows "keeps_order (on_files f)"
  unfolding keeps_order_def
proof (intro allI impI)
  fix c :: call and sh :: shell
  assume ok: "shell_ok sh"
  obtain st r where f: "f c sh = (st, r)" by (cases "f c sh") blast
  have "well_formed st (sh_root sh)" using assms [of sh c] ok f by (simp add: shell_ok_def)
  with ok f show "shell_ok (fst (on_files f c sh)) \<and> sh_root (fst (on_files f c sh)) = sh_root sh"
    by (simp add: on_files_def shell_ok_def)
qed

lemma fst_report [simp]: "fst (report cmd r) = fst r"
  by (simp add: report_def)

lemma target_stores [simp]:
  "fst (mkdir_target su root cwd recursive raw st) =
     (if get_node st root (resolve_path cwd raw) \<noteq> None then st
      else fst (make_dir_at root (su_now su) (resolve_path cwd raw) recursive st))"
  "fst (touch_target su root cwd raw st) =
     (case get_node st root (resolve_path cwd raw) of
        Some a \<Rightarrow> set_mtime a (su_now su) st
      | None \<Rightarrow> fst (write_file root (su_now su) (resolve_path cwd raw) [] False st))"
  "fst (rm_target root cwd recursive force raw st) = fst (remove_node root (resolve_path cwd raw) recursive st)"
  "fst (mv_target root cwd dest raw st) = fst (move_node root (resolve_path cwd raw) dest st)"
  by (simp_all add: mkdir_target_def touch_target_def rm_target_def mv_target_def Let_def fst_let_prod split: option.split)

lemma keeps_mkdir: "keeps_order (on_files (\<lambda>c sh. mkdir_command su sh (cl_cwd c) (cl_args c)))"
  by (rule keeps_files) (auto simp: mkdir_command_def intro!: for_each_in(1) make_dir_well_formed)

lemma keeps_touch: "keeps_order (on_files (\<lambda>c sh. touch_command su sh (cl_cwd c) (cl_args c)))"
  by (rule keeps_files)
    (auto simp: touch_command_def intro!: for_each_in(1) write_file_well_formed well_formed_mtime split: option.split)

lemma keeps_rm: "keeps_order (on_files (\<lambda>c sh. rm_command sh (cl_cwd c) (cl_args c)))"
  by (rule keeps_files) (auto simp: rm_command_def Let_def intro!: for_each_in(1) remove_node_well_formed)

lemma keeps_mv: "keeps_order (on_files (\<lambda>c sh. mv_command sh (cl_cwd c) (cl_args c)))"
  by (rule keeps_files) (auto simp: mv_command_def intro!: for_each_in(1) move_node_well_formed)

lemma keeps_cp: "keeps_order cp_handler"
  unfolding keeps_order_def
proof (intro allI impI)
  fix c :: call and sh :: shell
  assume ok: "shell_ok sh"
  have "well_formed (fst (cp_command sh (cl_cwd c) (cl_args c))) (sh_root sh)"
    using ok by (auto simp: cp_command_def Let_def shell_ok_def intro!: cp_targets_keeps [where P = "\<lambda>st. well_formed st (sh_root sh)"] copy_node_well_formed)
  with ok show "shell_ok (fst (cp_handler c sh)) \<and> sh_root (fst (cp_handler c sh)) = sh_root sh"
    by (auto simp: cp_handler_def shell_ok_def split: prod.split)
qed

lemmas keeps = keeps_printing keeps_cd keeps_env keeps_aliases keeps_mkdir keeps_touch keeps_rm keeps_mv keeps_cp

lemma commands_keep_order: "\<forall>e \<in> set (commands su). keeps_order (snd e)"
  by (simp add: commands_def keeps)

lemma run_command_keeps:
  assumes "shell_ok sh"
  shows "shell_ok (fst (run_command_tokens su hist tokens stdin cwd sh)) \<and>
    sh_root (fst (run_command_tokens su hist tokens stdin cwd sh)) = sh_root sh"
proof -
  obtain env words where w: "assign_words (sh_env sh) tokens = (env, words)" by fastforce
  have ok: "shell_ok (sh\<lparr>sh_env := env\<rparr>)"
    using assms valid_assign [of "sh_env sh" tokens] w by (simp add: shell_ok_def)
  have "keeps_order h" if "map_of (commands su) (hd words) = Some h" for h
    using commands_keep_order map_of_SomeD [OF that] by fastforce
  then show ?thesis
    using ok unfolding keeps_order_def
    by (auto simp: run_command_tokens_def w Let_def split: option.split)
qed

section \<open>Sound stores, and commands that end\<close>

text \<open>A command that does not move the home directory and copies nothing to its very path.\<close>

definition avoids_home :: "string \<Rightarrow> string list \<Rightarrow> bool" where
  "avoids_home cwd words =
     (case words of
        [] \<Rightarrow> True
      | cmd # args \<Rightarrow>
          (cmd = ''mv'' \<longrightarrow> (\<forall>a \<in> set (butlast args). resolve_path cwd a \<noteq> ''~'')) \<and>
          (cmd = ''cp'' \<longrightarrow> operands args = [] \<or> resolve_path cwd (last (operands args)) \<noteq> ''~''))"

text \<open>On a sound store a command keeps it sound, and ends, unless it is one of the two with loops over numbers.\<close>

definition good_command :: "string \<Rightarrow> handler \<Rightarrow> bool" where
  "good_command n h =
     (\<forall>c sh. sound (sh_fs sh) (sh_root sh) \<longrightarrow> avoids_home (cl_cwd c) (n # cl_args c) \<longrightarrow>
        sound (sh_fs (fst (h c sh))) (sh_root sh) \<and> (n \<noteq> ''seq'' \<longrightarrow> n \<noteq> ''factor'' \<longrightarrow> snd (h c sh) \<noteq> None))"

lemma path_of_Nil: "path_of [] = ''~''"
  by (simp add: path_of_def)

lemma resolve_proper:
  obtains ps where "proper ps" and "resolve_path cwd t = path_of ps"
  using resolve_path_plain [of cwd t] by (auto simp: plain_def)

lemma get_node_below:
  assumes "sound st root" and "get_node st root path = Some a"
  shows "closed st \<and> a < length st \<and> unshared st a"
proof -
  obtain ps where "descend st root ps = Some a"
    using assms(2) by (auto simp: get_node_def split: list.splits if_splits)
  then have "unshared st a" using unshared_below [OF soundD(4) [OF assms(1)]] by blast
  then show ?thesis
    using assms get_node_bound [OF sound_well_formed [OF assms(1)]] soundD(1) by blast
qed

lemma walk_ends: "sound st root \<Longrightarrow> get_node st root path = Some a \<Longrightarrow> walk_tree (length st) st a base \<noteq> None"
  using get_node_below walk_sound by (metis option.distinct(1))

lemma tree_walk_ends:
  "closed st \<Longrightarrow> a < length st \<Longrightarrow> (\<And>ps. descend st a ps \<noteq> None \<Longrightarrow> length ps < n) \<Longrightarrow>
     tree_walk collate n st a lead \<noteq> None"
  "closed st \<Longrightarrow> \<forall>e \<in> set es. snd e < length st \<Longrightarrow>
     (\<And>e ps. e \<in> set es \<Longrightarrow> descend st (snd e) ps \<noteq> None \<Longrightarrow> length ps < n) \<Longrightarrow>
     tree_items collate n st es lead \<noteq> None"
proof (induction collate n st a lead and collate n st es lead rule: tree_walk_tree_items.induct)
  case (1 collate st a lead)
  have "length ([] :: string list) < 0" by (rule 1(3)) simp
  then show ?case by simp
next
  case (2 collate n st a lead)
  show ?case
  proof (cases "st ! a")
    case (DirNode cs t m)
    let ?es = "sort_by (entry_before collate st) (object_entries cs)"
    have cs: "is_dict cs" "\<forall>e \<in> set ?es. snd e < length st"
      using closedD [OF 2(2,3)] DirNode by simp_all
    have "length ps < n" if "e \<in> set ?es" "descend st (snd e) ps \<noteq> None" for e ps
    proof -
      have "child st a (fst e) = Some (snd e)"
        using that(1) cs(1) by (simp add: child_kids DirNode is_dict_def)
      then show ?thesis using 2(4) [of "fst e # ps"] that(2) by simp
    qed
    then show ?thesis using 2(1) [OF DirNode 2(2) cs(2)] DirNode by simp
  qed simp
next
  case (4 collate n st e es lead)
  let ?lead = "lead @ (if es = [] then ''    '' else box_bar)"
  have walk: "tree_walk collate n st (snd e) ?lead \<noteq> None" if "is_dir st (snd e)"
    by (rule 4(1) [OF refl that 4(3)]) (use 4(4) 4(5) [of e] in auto)
  let ?below = "if is_dir st (snd e) then tree_walk collate n st (snd e) ?lead else Some []"
  obtain ls where ls: "?below = Some ls" using walk by (cases "is_dir st (snd e)") auto
  have "tree_items collate n st es lead \<noteq> None"
    by (rule 4(2)) (use ls 4(3-5) in auto)
  then show ?case using ls by auto
qed simp_all

lemma tree_ends:
  assumes "sound st root" and "get_node st root path = Some a"
  shows "tree_walk collate (length st) st a lead \<noteq> None"
proof (rule tree_walk_ends(1))
  note below = get_node_below [OF assms]
  show "closed st" and "a < length st" using below by simp_all
  show "length ps < length st" if "descend st a ps \<noteq> None" for ps
    using that unshared_depth below by blast
qed

lemma good_prints: "good_command n (prints f)" "good_command n clear_handler" "good_command n cd_handler"
  "good_command n (on_env g)" "good_command n (on_aliases g)" "good_command ''seq'' (may_print k)"
  "good_command ''factor'' (may_print k)"
  by (auto simp: good_command_def prints_def may_print_def clear_handler_def cd_handler_def on_env_def
      on_aliases_def split: prod.split)

lemma good_may_print:
  "(\<And>c sh. sound (sh_fs sh) (sh_root sh) \<Longrightarrow> f c sh \<noteq> None) \<Longrightarrow> good_command n (may_print f)"
  by (simp add: good_command_def may_print_def)

lemma good_tree: "good_command n (may_print (\<lambda>c sh. tree_command su sh (cl_cwd c) (cl_args c)))"
  by (rule good_may_print) (use tree_ends in \<open>fastforce simp: tree_command_def Let_def split: option.split\<close>)

lemma good_find: "good_command n (may_print (\<lambda>c sh. find_command sh (cl_cwd c) (cl_args c)))"
  by (rule good_may_print) (use walk_ends in \<open>fastforce simp: find_command_def Let_def split: option.split\<close>)

lemma collect_ends: "(\<And>x. x \<in> set xs \<Longrightarrow> f x \<noteq> None) \<Longrightarrow> collect f xs \<noteq> None"
  by (induction xs) (auto split: option.split)

lemma good_grep: "good_command n (may_print (\<lambda>c sh. grep_command su sh (cl_stdin c) (cl_cwd c) (cl_args c)))"
proof (rule good_may_print)
  fix c :: call and sh :: shell
  assume sound: "sound (sh_fs sh) (sh_root sh)"
  have "grep_target m b r sh (cl_cwd c) t \<noteq> None" for m b r t
    using walk_ends [OF sound] by (auto simp: grep_target_def Let_def split: option.split)
  then have "collect (grep_target m b r sh (cl_cwd c)) ts \<noteq> None" for m b r ts
    by (intro collect_ends)
  then show "grep_command su sh (cl_stdin c) (cl_cwd c) (cl_args c) \<noteq> None"
    by (auto simp: grep_command_def split: list.split option.split)
qed

lemma good_files:
  fixes f :: "call \<Rightarrow> shell \<Rightarrow> store \<times> shell_outcome"
  assumes "\<And>c sh. sound (sh_fs sh) (sh_root sh) \<Longrightarrow> avoids_home (cl_cwd c) (n # cl_args c) \<Longrightarrow>
      sound (fst (f c sh)) (sh_root sh)"
  shows "good_command n (on_files f)"
  unfolding good_command_def
proof (intro allI impI)
  fix c :: call and sh :: shell
  assume s: "sound (sh_fs sh) (sh_root sh)" and a: "avoids_home (cl_cwd c) (n # cl_args c)"
  show "sound (sh_fs (fst (on_files f c sh))) (sh_root sh) \<and>
      (n \<noteq> ''seq'' \<longrightarrow> n \<noteq> ''factor'' \<longrightarrow> snd (on_files f c sh) \<noteq> None)"
    using assms [OF s a] by (cases "f c sh") (simp add: on_files_def)
qed

lemma resolved_sound:
  assumes "sound st root"
  shows "sound (fst (make_dir_at root now (resolve_path cwd t) recursive st)) root"
    and "sound (fst (write_file root now (resolve_path cwd t) content adding st)) root"
    and "sound (fst (remove_node root (resolve_path cwd t) recursive st)) root"
    and "resolve_path cwd t \<noteq> ''~'' \<Longrightarrow> sound (fst (move_node root (resolve_path cwd t) (resolve_path cwd u) st)) root"
    and "resolve_path cwd u \<noteq> ''~'' \<Longrightarrow>
      sound (fst (copy_node root (resolve_path cwd t) (resolve_path cwd u) recursive st)) root \<and>
      snd (copy_node root (resolve_path cwd t) (resolve_path cwd u) recursive st) \<noteq> Overflow"
proof -
  obtain ps where ps: "proper ps" "resolve_path cwd t = path_of ps" by (rule resolve_proper)
  obtain qs where qs: "proper qs" "resolve_path cwd u = path_of qs" by (rule resolve_proper)
  show "sound (fst (make_dir_at root now (resolve_path cwd t) recursive st)) root"
    and "sound (fst (write_file root now (resolve_path cwd t) content adding st)) root"
    and "sound (fst (remove_node root (resolve_path cwd t) recursive st)) root"
    unfolding ps(2) using assms ps(1) by (simp_all add: make_dir_sound write_file_sound remove_node_sound)
  show "sound (fst (move_node root (resolve_path cwd t) (resolve_path cwd u) st)) root"
    if "resolve_path cwd t \<noteq> ''~''"
    using that move_node_sound [OF assms ps(1) _ qs(1)] unfolding ps(2) qs(2) by (cases "ps = []") (simp_all add: path_of_Nil)
  show "sound (fst (copy_node root (resolve_path cwd t) (resolve_path cwd u) recursive st)) root \<and>
      snd (copy_node root (resolve_path cwd t) (resolve_path cwd u) recursive st) \<noteq> Overflow"
    if "resolve_path cwd u \<noteq> ''~''"
    using that copy_node_sound [OF assms ps(1) qs(1), of recursive] unfolding ps(2) qs(2)
    by (cases "qs = []") (simp_all add: path_of_Nil)
qed

lemma good_mkdir: "good_command n (on_files (\<lambda>c sh. mkdir_command su sh (cl_cwd c) (cl_args c)))"
  by (rule good_files) (auto simp: mkdir_command_def intro!: for_each_in(2) resolved_sound)

lemma good_touch: "good_command n (on_files (\<lambda>c sh. touch_command su sh (cl_cwd c) (cl_args c)))"
  by (rule good_files)
    (auto simp: touch_command_def intro!: for_each_in(2) resolved_sound set_mtime_view split: option.split)

lemma good_rm: "good_command n (on_files (\<lambda>c sh. rm_command sh (cl_cwd c) (cl_args c)))"
  by (rule good_files) (auto simp: rm_command_def Let_def intro!: for_each_in(2) resolved_sound)

lemma good_mv: "good_command ''mv'' (on_files (\<lambda>c sh. mv_command sh (cl_cwd c) (cl_args c)))"
  by (rule good_files) (auto simp: mv_command_def avoids_home_def intro!: for_each_in(2) resolved_sound(4))

lemma good_cp: "good_command ''cp'' cp_handler"
  unfolding good_command_def
proof (intro allI impI)
  fix c :: call and sh :: shell
  assume s: "sound (sh_fs sh) (sh_root sh)" and a: "avoids_home (cl_cwd c) (''cp'' # cl_args c)"
  let ?st = "sh_fs sh" and ?root = "sh_root sh"
  have "sound (fst (cp_command sh (cl_cwd c) (cl_args c))) ?root \<and> snd (cp_command sh (cl_cwd c) (cl_args c)) \<noteq> None"
  proof (cases "length (cl_args c) < 2 \<or> operands (cl_args c) = []")
    case True
    then show ?thesis using s by (auto simp: cp_command_def Let_def)
  next
    case False
    let ?u = "last (operands (cl_args c))"
    have u: "resolve_path (cl_cwd c) ?u \<noteq> ''~''" using a False by (simp add: avoids_home_def)
    note one = resolved_sound(5) [OF _ u]
    show ?thesis
      using s False one
        cp_targets_keeps [of "butlast (operands (cl_args c))" "\<lambda>st. sound st ?root" ?root "cl_cwd c" "resolve_path (cl_cwd c) ?u"]
        cp_targets_ends [of "butlast (operands (cl_args c))" "\<lambda>st. sound st ?root" ?root "cl_cwd c" "resolve_path (cl_cwd c) ?u"]
      by (simp add: cp_command_def Let_def)
  qed
  then show "sound (sh_fs (fst (cp_handler c sh))) ?root \<and> (''cp'' \<noteq> ''seq'' \<longrightarrow> ''cp'' \<noteq> ''factor'' \<longrightarrow> snd (cp_handler c sh) \<noteq> None)"
    by (auto simp: cp_handler_def split: prod.split)
qed

lemma commands_good: "\<forall>e \<in> set (commands su). good_command (fst e) (snd e)"
  by (simp add: commands_def good_prints good_tree good_find good_grep good_mkdir good_touch good_rm good_mv good_cp)

lemma handler_roots: "sh_root (fst (prints f c sh)) = sh_root sh" "sh_root (fst (may_print g c sh)) = sh_root sh"
  "sh_root (fst (clear_handler c sh)) = sh_root sh" "sh_root (fst (cd_handler c sh)) = sh_root sh"
  "sh_root (fst (on_env k c sh)) = sh_root sh" "sh_root (fst (on_aliases k c sh)) = sh_root sh"
  "sh_root (fst (on_files m c sh)) = sh_root sh" "sh_root (fst (cp_handler c sh)) = sh_root sh"
  by (simp_all add: prints_def may_print_def clear_handler_def cd_handler_def on_env_def on_aliases_def
      on_files_def cp_handler_def split: prod.split)

lemma commands_roots: "\<forall>e \<in> set (commands su). \<forall>c sh. sh_root (fst (snd e c sh)) = sh_root sh"
  by (simp add: commands_def handler_roots)

lemma commands_root: "map_of (commands su) n = Some h \<Longrightarrow> sh_root (fst (h c sh)) = sh_root sh"
  using commands_roots map_of_SomeD by fastforce

lemma run_command_sound:
  assumes "sound (sh_fs sh) (sh_root sh)" and "avoids_home cwd (snd (assign_words (sh_env sh) tokens))"
    and "snd (assign_words (sh_env sh) tokens) = [] \<or>
      hd (snd (assign_words (sh_env sh) tokens)) \<notin> {''seq'', ''factor''}"
    and "run_command_tokens su hist tokens stdin cwd sh = (sh', r)"
  shows "sound (sh_fs sh') (sh_root sh') \<and> sh_root sh' = sh_root sh \<and> r \<noteq> None"
proof -
  obtain env words where w: "assign_words (sh_env sh) tokens = (env, words)" by fastforce
  have good: "good_command (hd words) h" if "map_of (commands su) (hd words) = Some h" for h
    using commands_good map_of_SomeD [OF that] by fastforce
  show ?thesis
  proof (cases "words = [] \<or> map_of (commands su) (hd words) = None")
    case True
    then show ?thesis using assms(1,4) by (auto simp: run_command_tokens_def w Let_def split: if_splits)
  next
    case False
    then obtain h where h: "map_of (commands su) (hd words) = Some h" and words: "words \<noteq> []" by auto
    let ?sh = "sh\<lparr>sh_env := env\<rparr>"
    let ?c = "\<lparr>cl_cmd = hd words, cl_args = tl words, cl_stdin = stdin, cl_cwd = cwd, cl_history = hist\<rparr>"
    have run: "h ?c ?sh = (sh', r)"
      using assms(4) h words by (simp add: run_command_tokens_def w Let_def)
    have "sound (sh_fs (fst (h ?c ?sh))) (sh_root ?sh) \<and> snd (h ?c ?sh) \<noteq> None"
      using good [OF h, unfolded good_command_def, rule_format, of ?sh ?c] assms(1-3) words by (simp add: w)
    moreover have "sh_root (fst (h ?c ?sh)) = sh_root ?sh"
      using commands_root [OF h] by blast
    ultimately show ?thesis using run by simp
  qed
qed

end
