(* ===== verification/ShellResults.thy ===== *)
theory ShellResults
  imports ShellSpec
begin

text \<open>
  What \<open>find\<close>, \<open>uniq\<close>, \<open>seq\<close> and \<open>factor\<close> compute, how a line is parsed, and what some commands do against
  their purpose.
\<close>

section \<open>find\<close>

lemma replace_start: "p \<noteq> [] \<Longrightarrow> replace_text p r (p @ s) = r @ s"
  by (cases p) (simp_all add: starts_with_iff)

lemma to_absolute_home: "to_absolute (''~'' @ s) = HOME_DIR @ s"
  by (simp add: to_absolute_def)

lemma path_of_below: "path_of ps = ''~'' @ below ps"
  using path_of_append [of "[]" ps] by (simp add: path_of_Nil)

lemma find_display_below: "find_display (path_of qs) (path_of qs @ below ps) = ''.'' @ below ps"
proof -
  have abs: "to_absolute (path_of qs) = HOME_DIR @ below qs"
    "to_absolute (path_of qs @ below ps) = (HOME_DIR @ below qs) @ below ps"
    unfolding path_of_below append_assoc by (simp_all only: to_absolute_home append_assoc)
  have "HOME_DIR @ below qs \<noteq> []" by (simp add: HOME_DIR_def)
  from replace_start [OF this, of "''.''" "below ps"] show ?thesis
    unfolding find_display_def abs Let_def by simp
qed

text \<open>
  C37: \<open>find\<close> with a place to start lists it as a dot, and everything below it by its path from there, each
  exactly once.
\<close>

theorem find_lists_tree:
  assumes "sound (sh_fs sh) (sh_root sh)" and "\<not> starts_with t ''-''"
    and "resolve_path cwd t = path_of qs" and "proper qs" and "view_from (sh_fs sh) (sh_root sh) qs \<noteq> None"
  shows "\<exists>ls. find_command sh cwd [t] = Some (ok_lines ls, 0) \<and>
    set ls = {''.'' @ below ps | ps. view_from (sh_fs sh) (sh_root sh) (qs @ ps) \<noteq> None} \<and>
    length ls = card {ps. view_from (sh_fs sh) (sh_root sh) (qs @ ps) \<noteq> None}"
proof -
  let ?st = "sh_fs sh" and ?root = "sh_root sh"
  obtain a where a: "descend ?st ?root qs = Some a" using assms(5) by (auto simp: view_None)
  have node: "get_node ?st ?root (path_of qs) = Some a"
    using get_node_at [OF split_path_of [OF assms(4)], of ?st ?root] a by simp
  have view: "view_from ?st ?root (qs @ ps) = view_from ?st a ps" for ps
    by (simp add: view_from_def descend_append a)
  obtain xs where xs: "walk_tree (length ?st) ?st a (path_of qs) = Some xs"
    "fst ` set xs = {path_of qs @ below ps | ps. view_from ?st a ps \<noteq> None}"
    "length xs = card {ps. view_from ?st a ps \<noteq> None}"
    by (rule walk_sound [of ?st a "path_of qs"]) (use get_node_below [OF assms(1) node] in auto)
  let ?ls = "map (\<lambda>e. find_display (path_of qs) (fst e)) xs"
  have flags: "t \<noteq> ''-name''" "t \<noteq> ''-type''" using assms(2) by auto
  have "find_command sh cwd [t] = Some (ok_lines ?ls, 0)"
    using assms(2) flags xs(1) node by (simp add: find_command_def Let_def assms(3) found_def)
  moreover have "set ?ls = (\<lambda>p. find_display (path_of qs) p) ` (fst ` set xs)" by (simp add: image_image)
  then have "set ?ls = {''.'' @ below ps | ps. view_from ?st a ps \<noteq> None}"
    unfolding xs(2) by (auto simp only: find_display_below) (auto simp: find_display_below intro!: image_eqI)
  ultimately show ?thesis unfolding view using xs(3) by (metis length_map)
qed

text \<open>A shell over a home directory with one file.\<close>

definition small_shell :: shell where
  "small_shell = \<lparr>sh_root = snd one_file, sh_fs = fst one_file, sh_env = [], sh_aliases = []\<rparr>"

lemma resolve_here: "resolve_path ''~'' ''.'' = path_of []"
  by (simp add: resolve_path_alt path_parts_def split_path_def resolve_step.simps home_path_def)

theorem find_lists_tree_witness:
  "\<exists>ls. find_command small_shell ''~'' [''.''] = Some (ok_lines ls, 0) \<and>
     set ls = {''.'' @ below ps | ps. view_from (fst one_file) (snd one_file) ps \<noteq> None}"
proof -
  have "view_from (fst one_file) (snd one_file) [] \<noteq> None" by simp
  then show ?thesis
    using find_lists_tree [of small_shell "''.''" "''~''" "[]"] one_file_sound resolve_here
    by (auto simp: small_shell_def proper_def)
qed

section \<open>uniq\<close>

lemma uniq_loop_runs:
  "0 < n \<Longrightarrow> \<exists>rs. uniq_loop f p n ls = map (\<lambda>(n, l). f n l) rs \<and>
     concat (map (\<lambda>(n, l). replicate n l) rs) = replicate n p @ ls \<and> map snd rs = remdups_adj (p # ls) \<and>
     (\<forall>r \<in> set rs. 0 < fst r)"
proof (induction f p n ls rule: uniq_loop.induct)
  case (1 f p n)
  then show ?case by (intro exI [of _ "[(n, p)]"]) simp
next
  case (2 f p n l ls)
  show ?case
  proof (cases "l = p")
    case True
    with 2(1) [OF True] show ?thesis by (auto simp: replicate_app_Cons_same)
  next
    case False
    obtain rs where rs: "uniq_loop f l 1 ls = map (\<lambda>(n, l). f n l) rs"
      "concat (map (\<lambda>(n, l). replicate n l) rs) = replicate 1 l @ ls" "map snd rs = remdups_adj (l # ls)"
      "\<forall>r \<in> set rs. 0 < fst r"
      using 2(2) [OF False] by auto
    show ?thesis
      by (rule exI [of _ "(n, p) # rs"]) (use 2(3) False rs in simp)
  qed
qed

text \<open>
  C38: \<open>uniq\<close> prints one line for each run of equal lines, with its length when \<open>-c\<close> asks for it: the runs
  put together are the input, and no two runs of the same line follow each other.
\<close>

theorem uniq_runs:
  assumes "operands args = []"
  shows "\<exists>rs. uniq_command sh stdin cwd args =
      (ok_lines (map (\<lambda>(n, l). counted_line (''-c'' \<in> set args) n l) rs), 0) \<and>
    concat (map (\<lambda>(n, l). replicate n l) rs) = stdin \<and> map snd rs = remdups_adj stdin \<and> (\<forall>r \<in> set rs. 0 < fst r)"
proof (cases stdin)
  case Nil
  then show ?thesis
    using assms by (intro exI [of _ "[]"]) (simp add: uniq_command_def with_lines_def)
next
  case (Cons l ls)
  let ?f = "counted_line (''-c'' \<in> set args)"
  have "uniq_loop ?f [] 0 (l # ls) = uniq_loop ?f l 1 ls" by simp
  moreover obtain rs where "uniq_loop ?f l 1 ls = map (\<lambda>(n, l). ?f n l) rs"
    "concat (map (\<lambda>(n, l). replicate n l) rs) = replicate 1 l @ ls" "map snd rs = remdups_adj (l # ls)"
    "\<forall>r \<in> set rs. 0 < fst r"
    using uniq_loop_runs [of 1 ?f l ls] by auto
  ultimately show ?thesis
    using Cons assms by (intro exI [of _ rs]) (simp add: uniq_command_def with_lines_def del: uniq_loop.simps)
qed

theorem uniq_runs_witness:
  "\<exists>rs. uniq_command small_shell [''a'', ''a'', ''b''] ''~'' [''-c''] =
      (ok_lines (map (\<lambda>(n, l). counted_line True n l) rs), 0) \<and>
    concat (map (\<lambda>(n, l). replicate n l) rs) = [''a'', ''a'', ''b'']"
  using uniq_runs [of "[''-c'']" small_shell "[''a'', ''a'', ''b'']" "''~''"] by (auto simp: operands_def)

section \<open>seq and factor\<close>

text \<open>
  The numbers that are exact up to a bound, as IEEE numbers are up to \<open>2 ^ 53\<close>: \<open>num\<close> gives the number for an
  integer. Sums, differences and quotients by a positive number without remainder of such numbers are such
  numbers.
\<close>

definition exact_to :: "'n numbers \<Rightarrow> (int \<Rightarrow> 'n) \<Rightarrow> int \<Rightarrow> bool" where
  "exact_to nb num bound =
     ((\<forall>k \<le> 2. nb_num nb k = num (int k)) \<and>
      (\<forall>a b. \<bar>a\<bar> \<le> bound \<longrightarrow> \<bar>b\<bar> \<le> bound \<longrightarrow>
         nb_le nb (num a) (num b) = (a \<le> b) \<and> ar_show nb (num a) = show_int a \<and>
         (\<bar>a + b\<bar> \<le> bound \<longrightarrow> ar_add nb (num a) (num b) = num (a + b)) \<and>
         (\<bar>a - b\<bar> \<le> bound \<longrightarrow> ar_sub nb (num a) (num b) = num (a - b)) \<and>
         (b \<noteq> 0 \<longrightarrow> ar_zero nb (ar_rem nb (num a) (num b)) = (b dvd a)) \<and>
         (0 < b \<longrightarrow> b dvd a \<longrightarrow> ar_div nb (num a) (num b) = num (a div b))))"

lemma exactD:
  assumes "exact_to nb num bound"
  shows "k \<le> 2 \<Longrightarrow> nb_num nb k = num (int k)"
    and "\<bar>a\<bar> \<le> bound \<Longrightarrow> \<bar>b\<bar> \<le> bound \<Longrightarrow> nb_le nb (num a) (num b) = (a \<le> b)"
    and "\<bar>a\<bar> \<le> bound \<Longrightarrow> ar_show nb (num a) = show_int a"
    and "\<bar>a\<bar> \<le> bound \<Longrightarrow> \<bar>b\<bar> \<le> bound \<Longrightarrow> \<bar>a + b\<bar> \<le> bound \<Longrightarrow> ar_add nb (num a) (num b) = num (a + b)"
    and "\<bar>a\<bar> \<le> bound \<Longrightarrow> \<bar>b\<bar> \<le> bound \<Longrightarrow> \<bar>a - b\<bar> \<le> bound \<Longrightarrow> ar_sub nb (num a) (num b) = num (a - b)"
    and "\<bar>a\<bar> \<le> bound \<Longrightarrow> \<bar>b\<bar> \<le> bound \<Longrightarrow> b \<noteq> 0 \<Longrightarrow> ar_zero nb (ar_rem nb (num a) (num b)) = (b dvd a)"
    and "\<bar>a\<bar> \<le> bound \<Longrightarrow> \<bar>b\<bar> \<le> bound \<Longrightarrow> 0 < b \<Longrightarrow> b dvd a \<Longrightarrow> ar_div nb (num a) (num b) = num (a div b)"
  using assms unfolding exact_to_def by blast+

lemma seq_up:
  assumes "exact_to nb num bound" and "\<bar>a\<bar> \<le> bound" and "\<bar>b\<bar> < bound"
  shows "seq_lines nb True (num a) (num b) = Some (map show_int [a..b])"
  using assms(2)
proof (induction "nat (b + 1 - a)" arbitrary: a)
  case 0
  then have "\<not> a \<le> b" by simp
  with 0 assms(3) show ?case
    using exactD(2) [OF assms(1), of a b] by (subst seq_lines.simps) simp
next
  case (Suc n)
  then have ab: "a \<le> b" by simp
  have add: "ar_add nb (num a) (nb_num nb 1) = num (a + 1)"
    using exactD(1) [OF assms(1), of 1] exactD(4) [OF assms(1), of a 1] Suc(3) assms(3) ab by simp
  have "seq_lines nb True (num (a + 1)) (num b) = Some (map show_int [a + 1..b])"
    by (rule Suc(1)) (use Suc(2,3) assms(3) ab in auto)
  then show ?case
    using exactD(2) [OF assms(1), of a b] exactD(3) [OF assms(1), of a] Suc(3) assms(3) ab
    by (subst seq_lines.simps) (simp add: add upto_rec1 del: One_nat_def)
qed

lemma seq_down:
  assumes "exact_to nb num bound" and "\<bar>a\<bar> \<le> bound" and "\<bar>b\<bar> < bound"
  shows "seq_lines nb False (num a) (num b) = Some (map show_int (rev [b..a]))"
  using assms(2)
proof (induction "nat (a + 1 - b)" arbitrary: a)
  case 0
  then have "\<not> b \<le> a" by simp
  with 0 assms(3) show ?case
    using exactD(2) [OF assms(1), of b a] by (subst seq_lines.simps) simp
next
  case (Suc n)
  then have ab: "b \<le> a" by simp
  have sub: "ar_sub nb (num a) (nb_num nb 1) = num (a - 1)"
    using exactD(1) [OF assms(1), of 1] exactD(5) [OF assms(1), of a 1] Suc(3) assms(3) ab by simp
  have "seq_lines nb False (num (a - 1)) (num b) = Some (map show_int (rev [b..a - 1]))"
    by (rule Suc(1)) (use Suc(2,3) assms(3) ab in auto)
  then show ?case
    using exactD(2) [OF assms(1), of b a] exactD(3) [OF assms(1), of a] Suc(3) assms(3) ab
    by (subst seq_lines.simps) (simp add: sub upto_rec2 del: One_nat_def)
qed

text \<open>Whole numbers as an instance, and surroundings with it.\<close>

definition whole_kit :: "int numbers" where
  "whole_kit = arith.extend whole_numbers
     (numbers.fields int (\<le>) (\<lambda>i. i) (\<lambda>i. if 0 \<le> i then Some (nat i) else None))"

definition small_world :: "int surroundings" where
  "small_world =
     \<lparr>su_now = 0, su_local = (\<lambda>t. t), su_date_text = (\<lambda>t. []), su_collate = (\<lambda>a b. a \<le> b),
      su_regex = (\<lambda>p i. Some (\<lambda>l. index_of p l \<noteq> None)), su_replace = (\<lambda>p g. Some (\<lambda>l r. replace_text p r l)),
      su_pick = (\<lambda>n. 0), su_numbers = whole_kit\<rparr>"

lemma small_numbers [simp]: "su_numbers small_world = whole_kit"
  by (simp add: small_world_def)

lemma whole_kit_fields [simp]:
  "nb_num whole_kit = int" "nb_le whole_kit = (\<le>)" "nb_whole whole_kit = (\<lambda>i. i)"
  "ar_read whole_kit = ar_read whole_numbers" "ar_add whole_kit = (+)" "ar_sub whole_kit = (-)"
  "ar_show whole_kit = show_int" "ar_zero whole_kit = (\<lambda>a. a = 0)"
  "ar_div whole_kit = ar_div whole_numbers" "ar_rem whole_kit = ar_rem whole_numbers"
  by (simp_all add: whole_kit_def arith.extend_def numbers.fields_def whole_numbers_def)

lemma whole_kit_exact: "exact_to whole_kit (\<lambda>i. i) bound"
proof -
  have "sgn a * (\<bar>a\<bar> div b) = a div b" if "b dvd a" "0 < b" for a b :: int
  proof -
    obtain q where a: "a = b * q" using \<open>b dvd a\<close> by blast
    then have "\<bar>a\<bar> div b = \<bar>q\<bar>" using \<open>0 < b\<close> by (simp add: abs_mult)
    moreover have "sgn a = sgn q" using a \<open>0 < b\<close> by (simp add: sgn_mult)
    ultimately show ?thesis using a \<open>0 < b\<close> by (simp add: sgn_mult_abs)
  qed
  moreover have "(sgn a * (\<bar>a\<bar> mod \<bar>b\<bar>) = 0) = (b dvd a)" for a b :: int
    by (auto simp: sgn_eq_0_iff dvd_eq_mod_eq_0 [symmetric])
  ultimately show ?thesis by (simp add: exact_to_def) (simp add: whole_numbers_def)
qed

lemma whole_kit_digits: "ar_read whole_kit ''3'' = Some 3" "ar_read whole_kit ''1'' = Some 1" "ar_read whole_kit ''12'' = Some 12"
  "ar_read whole_kit ''0'' = Some 0"
  by (simp_all add: is_digit_def number_of_def digit_value_def)

text \<open>
  \<open>seq\<close> with two whole numbers prints all whole numbers from the first to the second, upwards or
  downwards, and ends.
\<close>

lemma seq_prints_range:
  assumes "exact_to (su_numbers su) num bound" and "ar_read (su_numbers su) s = Some (num a)"
    and "ar_read (su_numbers su) t = Some (num b)" and "\<bar>a\<bar> < bound" and "\<bar>b\<bar> < bound"
  shows "seq_command (su_numbers su) [s, t] =
    Some (ok_lines (map show_int (if a \<le> b then [a..b] else rev [b..a])), 0)"
  using assms(2-5) exactD(2) [OF assms(1), of a b] seq_up [OF assms(1), of a b] seq_down [OF assms(1), of a b]
  by (simp add: seq_command_def)

lemma seq_prints_range_witness:
  "seq_command whole_kit [''3'', ''1''] = Some (ok_lines [show_int 3, show_int 2, show_int 1], 0)"
proof -
  have "rev [1..3] = [3, 2, 1::int]" by (simp add: upto_rec1)
  then show ?thesis
    using seq_prints_range [of small_world "\<lambda>i. i" 10 "''3''" 3 "''1''" 1] whole_kit_exact whole_kit_digits(1,2)
    by simp
qed

text \<open>The inner loop of \<open>factor\<close> divides as often as it goes.\<close>

lemma divide_out_exact:
  assumes ex: "exact_to nb num bound" and d: "2 \<le> d" "d \<le> bound"
  shows "0 < v \<Longrightarrow> v \<le> bound \<Longrightarrow> \<exists>w k. divide_out nb (num d) (num v) = Some (num w, k) \<and>
    v = d ^ k * w \<and> \<not> d dvd w \<and> 0 < w"
proof (induction "nat v" arbitrary: v rule: less_induct)
  case less
  have zero: "ar_zero nb (ar_rem nb (num v) (num d)) = (d dvd v)"
    using exactD(6) [OF ex, of v d] d less by simp
  show ?case
  proof (cases "d dvd v")
    case True
    then obtain u where u: "v = d * u" by blast
    with less d have "0 < u" by (simp add: zero_less_mult_iff)
    with u d have "u < v" by simp
    obtain w k where w: "divide_out nb (num d) (num u) = Some (num w, k)" "u = d ^ k * w" "\<not> d dvd w" "0 < w"
      using less(1) [of u] \<open>0 < u\<close> \<open>u < v\<close> less(3) by auto
    have "ar_div nb (num v) (num d) = num u"
      using exactD(7) [OF ex, of v d] d less True u by simp
    then have "divide_out nb (num d) (num v) = Some (num w, Suc k)"
      using zero True w(1) by (subst divide_out.simps) simp
    moreover have "v = d ^ Suc k * w" using u w(2) by simp
    ultimately show ?thesis using w(3,4) by blast
  next
    case False
    then have "divide_out nb (num d) (num v) = Some (num v, 0)"
      using zero by (subst divide_out.simps) simp
    with False less(2) show ?thesis by force
  qed
qed

definition is_prime :: "int \<Rightarrow> bool" where
  "is_prime p = (1 < p \<and> (\<forall>d. 0 < d \<longrightarrow> d dvd p \<longrightarrow> d = 1 \<or> d = p))"

lemma factor_loop_exact:
  assumes ex: "exact_to nb num bound"
  shows "0 < v \<Longrightarrow> v < bound \<Longrightarrow> 2 \<le> d \<Longrightarrow> d \<le> bound \<Longrightarrow> (\<And>p. 1 < p \<Longrightarrow> p < d \<Longrightarrow> \<not> p dvd v) \<Longrightarrow>
    \<exists>fs. factor_loop nb (num v) (num d) = Some (map num fs) \<and> prod_list fs = v \<and> sorted fs \<and>
      (\<forall>p \<in> set fs. d \<le> p \<and> is_prime p)"
proof (induction "nat (v + 1 - d)" arbitrary: v d rule: less_induct)
  case less
  have one: "nb_num nb 1 = num 1" using exactD(1) [OF ex, of 1] by simp
  have guard: "nb_le nb (num v) (nb_num nb 1) = (v \<le> 1)" "nb_le nb (num d) (num v) = (d \<le> v)"
    using exactD(2) [OF ex, of v 1] exactD(2) [OF ex, of d v] less(2-5)
    unfolding one by simp_all
  show ?case
  proof (cases "1 < v \<and> d \<le> v")
    case True
    obtain w k where w: "divide_out nb (num d) (num v) = Some (num w, k)" "v = d ^ k * w" "\<not> d dvd w" "0 < w"
      using divide_out_exact [OF ex less(4,5), of v] less(2,3) by auto
    have wv: "w \<le> v" "w dvd v" using w(2,4) less(4) mult_right_mono [of 1 "d ^ k" w] by simp_all
    have next': "ar_add nb (num d) (nb_num nb 1) = num (d + 1)"
      unfolding one using exactD(4) [OF ex, of d 1] less True by simp
    have small: "\<not> p dvd w" if "1 < p" "p < d + 1" for p
      using that less(6) [of p] w(3) wv(2) dvd_trans by (cases "p = d") auto
    obtain fs where fs: "factor_loop nb (num w) (num (d + 1)) = Some (map num fs)" "prod_list fs = w" "sorted fs"
      "\<forall>p \<in> set fs. d + 1 \<le> p \<and> is_prime p"
      using less(1) [of w "d + 1"] wv(1) w(4) True less(3,4) small by auto
    have "is_prime d" if "0 < k"
      unfolding is_prime_def
    proof (intro conjI allI impI)
      fix e :: int assume "0 < e" "e dvd d"
      have "d dvd v" using w(2) that by (simp add: dvd_power)
      then have "e dvd v" using \<open>e dvd d\<close> dvd_trans by blast
      moreover have "e \<le> d" using \<open>e dvd d\<close> less(4) by (simp add: zdvd_imp_le)
      ultimately show "e = 1 \<or> e = d" using less(6) [of e] \<open>0 < e\<close> by fastforce
    qed (use less(4) in simp)
    then have "\<forall>p \<in> set (replicate k d @ fs). d \<le> p \<and> is_prime p" using fs(4) by auto
    moreover have "sorted (replicate k d @ fs)" using fs(3,4) by (auto simp: sorted_append)
    moreover have "prod_list (replicate k d @ fs) = v" using w(2) fs(2) by simp
    moreover have "factor_loop nb (num v) (num d) = Some (map num (replicate k d @ fs))"
      using guard True w(1) fs(1) next' by (subst factor_loop.simps) (simp del: One_nat_def)
    ultimately show ?thesis by blast
  next
    case False
    have "v = 1"
    proof (rule ccontr)
      assume "v \<noteq> 1"
      with False less(2) have "1 < v" "v < d" by auto
      with less(6) [of v] show False by simp
    qed
    with False guard show ?thesis
      by (intro exI [of _ "[]"]) (subst factor_loop.simps, simp)
  qed
qed

text \<open>
  C39: \<open>factor\<close> of one positive whole number below the bound of exact numbers prints its prime factors, each
  as often as it divides the number, in ascending order, and ends.
\<close>

theorem factor_prints_primes:
  assumes "exact_to (su_numbers su) num bound" and "ar_read (su_numbers su) t = Some (num n)" and "t \<noteq> []"
    and "0 < n" and "n < bound"
  shows "\<exists>fs. factor_command (su_numbers su) [t] =
      Some (ok_lines [show_int n @ '': '' @ join_with '' '' (map show_int fs)], 0) \<and>
    prod_list fs = n \<and> sorted fs \<and> (\<forall>p \<in> set fs. is_prime p)"
proof -
  let ?nb = "su_numbers su"
  obtain fs where fs: "factor_loop ?nb (num n) (num 2) = Some (map num fs)" "prod_list fs = n" "sorted fs"
    "\<forall>p \<in> set fs. 2 \<le> p \<and> is_prime p"
  proof (cases "2 \<le> bound")
    case True
    then show thesis using factor_loop_exact [OF assms(1,4,5), of 2] that by auto
  qed (use assms(4,5) in auto)
  have "\<bar>p\<bar> \<le> bound" if "p \<in> set fs" for p
  proof -
    have "p dvd n" using that fs(2) prod_list_dvd by blast
    then have "p \<le> n" using assms(4) by (simp add: zdvd_imp_le)
    with fs(4) that assms(5) show ?thesis by fastforce
  qed
  then have "map (ar_show ?nb \<circ> num) fs = map show_int fs"
    using exactD(3) [OF assms(1)] by simp
  then have "join_with '' '' (map (ar_show ?nb \<circ> num) fs) = join_with '' '' (map show_int fs)" by (rule arg_cong)
  moreover have "nb_num ?nb 2 = num 2" using exactD(1) [OF assms(1), of 2] by simp
  moreover have "ar_show ?nb (num n) = show_int n" using exactD(3) [OF assms(1), of n] assms(4,5) by simp
  ultimately have "factor_command ?nb [t] = Some (ok_lines [show_int n @ '': '' @ join_with '' '' (map show_int fs)], 0)"
    using assms(2,3) fs(1) by (simp add: factor_command_def)
  then show ?thesis using fs by blast
qed

theorem factor_prints_primes_witness:
  "\<exists>fs. factor_command whole_kit [''12''] = Some (ok_lines [show_int 12 @ '': '' @ join_with '' '' (map show_int fs)], 0) \<and>
    prod_list fs = 12 \<and> sorted fs \<and> (\<forall>p \<in> set fs. is_prime p)"
  using factor_prints_primes [of small_world "\<lambda>i. i" 100 "''12''" 12] whole_kit_exact whole_kit_digits(3) by simp

section \<open>How a line is parsed\<close>

text \<open>
  A line as the shell runs it: sequences of chains of pipelines of commands, each a list of words; and a line
  that says it, with a backslash before every character of its words.
\<close>

definition line_parts :: "string list \<Rightarrow> string list list list list" where
  "line_parts tokens =
     map (\<lambda>seq. map (\<lambda>seg. split_by_operator seg ''|'') (split_by_operator seq ''&&'')) (split_by_operator tokens '';'')"

fun between :: "'a \<Rightarrow> 'a list list \<Rightarrow> 'a list" where
  "between x [] = []"
| "between x [ys] = ys"
| "between x (ys # zs # rest) = ys @ x # between x (zs # rest)"

definition line_tokens :: "string list list list list \<Rightarrow> string list" where
  "line_tokens p = between '';'' (map (\<lambda>c. between ''&&'' (map (between ''|'') c)) p)"

definition operators :: "string list" where
  "operators = ['';'', ''&&'', ''|'', ''>'', ''>>'']"

definition show_token :: "string \<Rightarrow> string" where
  "show_token t = (if t \<in> set operators then t else escape_word t)"

definition show_line :: "string list list list list \<Rightarrow> string" where
  "show_line p = join_with '' '' (map show_token (line_tokens p))"

lemma tokenize_operator:
  assumes "t \<in> set operators"
  shows "tokenize_from (t @ CHR '' '' # r) [] False False = t # tokenize_from r [] False False"
    and "tokenize_from t [] False False = [t]"
proof -
  have "tokenize_from (t @ CHR '' '' # r) [] False False = t # tokenize_from r [] False False \<and>
      tokenize_from t [] False False = [t]"
    if "t = '';'' \<or> t = ''&&'' \<or> t = ''|'' \<or> t = ''>'' \<or> t = ''>>''" for r
    using that by (elim disjE) (simp_all add: push_token_def is_space_def)
  with assms show "tokenize_from (t @ CHR '' '' # r) [] False False = t # tokenize_from r [] False False"
    and "tokenize_from t [] False False = [t]" by (simp_all add: operators_def)
qed

lemma tokenize_token:
  assumes "t \<noteq> []"
  shows "tokenize_from (show_token t @ CHR '' '' # r) [] False False = t # tokenize_from r [] False False"
    and "tokenize_from (show_token t) [] False False = [t]"
proof -
  have "tokenize_from (escape_word t @ CHR '' '' # r) [] False False = t # tokenize_from r [] False False"
    unfolding tokenize_escaped_word tokenize_blank using assms by (simp add: push_token_def)
  moreover have "tokenize_from (escape_word t) [] False False = [t]"
    using tokenize_escaped_word [of t "[]" "[]"] assms by (simp add: push_token_def)
  ultimately show "tokenize_from (show_token t @ CHR '' '' # r) [] False False = t # tokenize_from r [] False False"
    and "tokenize_from (show_token t) [] False False = [t]"
    using tokenize_operator(1) [of t r] tokenize_operator(2) [of t] by (simp_all add: show_token_def del: tokenize_from.simps)
qed

lemma tokenize_tokens: "\<forall>t \<in> set ts. t \<noteq> [] \<Longrightarrow> tokenize (join_with '' '' (map show_token ts)) = ts"
  unfolding tokenize_def
proof (induction ts)
  case (Cons t ts)
  then show ?case
    using tokenize_token [of t] by (cases ts) simp_all
qed (simp add: push_token_def)

lemma split_groups_word: "x \<notin> set ys \<Longrightarrow> split_groups x cur (ys @ r) = split_groups x (cur @ ys) r"
  by (induction ys arbitrary: cur) auto

lemma split_between:
  assumes "\<forall>ys \<in> set yss. ys \<noteq> [] \<and> x \<notin> set ys"
  shows "split_by_operator (between x yss) x = yss"
  using assms unfolding split_by_operator_def
proof (induction x yss rule: between.induct)
  case (2 x ys)
  then show ?case using split_groups_word [of x ys "[]" "[]"] by simp
next
  case (3 x ys zs rest)
  then show ?case by (simp add: split_groups_word)
qed simp

lemma set_between: "set (between x yss) \<subseteq> insert x (\<Union>(set ` set yss))"
  by (induction x yss rule: between.induct) auto

lemma between_Nil: "\<forall>ys \<in> set yss. ys \<noteq> [] \<Longrightarrow> yss \<noteq> [] \<Longrightarrow> between x yss \<noteq> []"
  by (induction x yss rule: between.induct) auto

text \<open>Nothing is empty, and no word is one of the three operators that split.\<close>

definition word_ok :: "string \<Rightarrow> bool" where
  "word_ok w = (w \<noteq> [] \<and> w \<noteq> '';'' \<and> w \<noteq> ''&&'' \<and> w \<noteq> ''|'' \<and> CHR ''$'' \<notin> set w)"

definition line_ok :: "string list list list list \<Rightarrow> bool" where
  "line_ok p =
     (\<forall>chain \<in> set p. chain \<noteq> [] \<and> (\<forall>pipe \<in> set chain. pipe \<noteq> [] \<and> (\<forall>cmd \<in> set pipe. cmd \<noteq> [] \<and>
        (\<forall>w \<in> set cmd. word_ok w))))"

lemma expand_plain: "CHR ''$'' \<notin> set t \<Longrightarrow> expand_token t env st cwd = t"
  by (induction t) auto

lemma line_parts_tokens:
  assumes "line_ok p"
  shows "line_parts (line_tokens p) = p" and "\<forall>t \<in> set (line_tokens p). t \<noteq> [] \<and> CHR ''$'' \<notin> set t"
proof -
  have pipes: "between ''|'' pipe \<noteq> [] \<and> split_by_operator (between ''|'' pipe) ''|'' = pipe \<and>
      (\<forall>t \<in> set (between ''|'' pipe). t \<noteq> [] \<and> CHR ''$'' \<notin> set t \<and> t \<noteq> '';'' \<and> t \<noteq> ''&&'')"
    if "chain \<in> set p" "pipe \<in> set chain" for chain pipe
  proof -
    have ok: "pipe \<noteq> []" "\<And>cmd. cmd \<in> set pipe \<Longrightarrow> cmd \<noteq> [] \<and> (\<forall>w \<in> set cmd. word_ok w)"
      using assms that by (simp_all add: line_ok_def)
    then have "between ''|'' pipe \<noteq> []" by (intro between_Nil) auto
    moreover have "split_by_operator (between ''|'' pipe) ''|'' = pipe"
      using ok(2) by (intro split_between) (auto simp: word_ok_def)
    moreover have "t \<noteq> [] \<and> CHR ''$'' \<notin> set t \<and> t \<noteq> '';'' \<and> t \<noteq> ''&&''" if "t \<in> set (between ''|'' pipe)" for t
    proof -
      from that set_between [of "''|''" pipe] consider "t = ''|''" | cmd where "cmd \<in> set pipe" "t \<in> set cmd" by auto
      then show ?thesis using ok(2) by cases (auto simp: word_ok_def)
    qed
    ultimately show ?thesis by blast
  qed
  have chains: "between ''&&'' (map (between ''|'') chain) \<noteq> [] \<and>
      map (\<lambda>seg. split_by_operator seg ''|'') (split_by_operator (between ''&&'' (map (between ''|'') chain)) ''&&'') = chain \<and>
      (\<forall>t \<in> set (between ''&&'' (map (between ''|'') chain)). t \<noteq> [] \<and> CHR ''$'' \<notin> set t \<and> t \<noteq> '';'')"
    if "chain \<in> set p" for chain
  proof -
    note pipe = pipes [OF that]
    have "chain \<noteq> []" using assms that by (simp add: line_ok_def)
    then have "between ''&&'' (map (between ''|'') chain) \<noteq> []" using pipe by (intro between_Nil) auto
    moreover have "split_by_operator (between ''&&'' (map (between ''|'') chain)) ''&&'' = map (between ''|'') chain"
      using pipe by (intro split_between) auto
    then have "map (\<lambda>seg. split_by_operator seg ''|'') (split_by_operator (between ''&&'' (map (between ''|'') chain)) ''&&'') = chain"
      using pipe by (simp add: map_idI)
    moreover have "t \<noteq> [] \<and> CHR ''$'' \<notin> set t \<and> t \<noteq> '';''" if "t \<in> set (between ''&&'' (map (between ''|'') chain))" for t
      using that set_between [of "''&&''" "map (between ''|'') chain"] pipe by auto
    ultimately show ?thesis by blast
  qed
  have "split_by_operator (line_tokens p) '';'' = map (\<lambda>c. between ''&&'' (map (between ''|'') c)) p"
    unfolding line_tokens_def using chains by (intro split_between) auto
  then show "line_parts (line_tokens p) = p"
    using chains by (simp add: line_parts_def map_idI)
  show "\<forall>t \<in> set (line_tokens p). t \<noteq> [] \<and> CHR ''$'' \<notin> set t"
    using set_between [of "'';''" "map (\<lambda>c. between ''&&'' (map (between ''|'') c)) p"] chains
    unfolding line_tokens_def by auto
qed

text \<open>
  C13: any commands in pipelines, chains and sequences are what the shell reads from the line that says them
  with a backslash before every character of a word, as long as no word is empty, is one of the operators that
  split a line, or has a dollar sign: the backslash does not keep an operator from splitting the line
  (\<open>quoted_operator_splits\<close>), or a dollar sign from being expanded.
\<close>

theorem line_roundtrip:
  assumes "line_ok p"
  shows "line_parts (map (\<lambda>t. expand_token t env status cwd) (tokenize (show_line p))) = p"
proof -
  have "map (\<lambda>t. expand_token t env status cwd) (line_tokens p) = line_tokens p"
    using line_parts_tokens(2) [OF assms] by (simp add: map_idI expand_plain)
  then show ?thesis
    using line_parts_tokens [OF assms] by (simp add: show_line_def tokenize_tokens)
qed

theorem line_roundtrip_witness:
  "line_parts (map (\<lambda>t. expand_token t [] 0 ''~'') (tokenize (show_line [[[[''cat'', ''a b''], [''wc'']]], [[[''pwd'']], [[''ls'']]]]))) =
     [[[[''cat'', ''a b''], [''wc'']]], [[[''pwd'']], [[''ls'']]]]"
  by (rule line_roundtrip) (simp add: line_ok_def word_ok_def)

section \<open>What the commands do against their purpose\<close>

text \<open>
  The last zero lines are all lines, for \<open>slice(-0)\<close> is \<open>slice(0)\<close>; for other numbers \<open>tail\<close> does what its name says.
\<close>

lemma tail_count:
  assumes "ar_read (su_numbers su) t = Some v" and "nb_whole (su_numbers su) v = int n"
  shows "tail_command su sh stdin cwd [''-n'', t] = (ok_lines (if n = 0 then stdin else drop (length stdin - n) stdin), 0)"
  using assms by (simp add: tail_command_def count_option_def part_of_files_def slice_from_def)

text \<open>A range without an end is printed for ever.\<close>

lemma seq_endless: "(\<And>i. nb_le nb i end) \<Longrightarrow> seq_lines nb True a end = None"
proof -
  assume le: "\<And>i. nb_le nb i end"
  have "False" if "seq_lines nb True a end = Some ls" for a ls
  proof -
    have "u \<longrightarrow> e = end \<longrightarrow> m = nb \<longrightarrow> False" if "seq_lines m u i e = Some ls" for m u i e ls
      using that
    proof (rule seq_lines.raw_induct [where P = "\<lambda>m u i e ls. u \<longrightarrow> e = end \<longrightarrow> m = nb \<longrightarrow> False", rotated])
      fix f m u i e ls
      assume IH: "\<And>m u i e ls. f m u i e = Some ls \<Longrightarrow> u \<longrightarrow> e = end \<longrightarrow> m = nb \<longrightarrow> False"
        and step: "(if if u then nb_le m i e else nb_le m e i then
            Option.bind (f m u ((if u then ar_add else ar_sub) m i (nb_num m 1)) e) (\<lambda>ls. Some (ar_show m i # ls))
          else Some []) = Some ls"
      show "u \<longrightarrow> e = end \<longrightarrow> m = nb \<longrightarrow> False"
      proof (intro impI)
        assume "u" "e = end" "m = nb"
        with step le obtain ls' where "f nb True (ar_add nb i (nb_num nb 1)) end = Some ls'"
          by (auto simp: bind_eq_Some_conv)
        from IH [OF this] show False by simp
      qed
    qed
    with that show False by blast
  qed
  then show ?thesis by (cases "seq_lines nb True a end") auto
qed

text \<open>A file moved to its own path is gone.\<close>

lemma move_to_itself:
  assumes "sound st root" and "proper ps" and "ps \<noteq> []" and "view_from st root ps = Some (FileEntry c)"
  shows "snd (move_node root (path_of ps) (path_of ps) st) = None \<and>
    view_from (fst (move_node root (path_of ps) (path_of ps) st)) root ps = None"
proof -
  obtain d where "descend st root (butlast ps) = Some d" "is_dir st d"
    using assms(3,4) descend_snoc [OF assms(3), of st root] child_dir
    by (auto simp: view_from_def split: option.splits)
  then have "view_from st root (butlast ps) = Some DirEntry" by (auto simp: view_dir)
  then have "spec_move ps ps (view_from st root) = Some (\<lambda>qs. if prefix ps qs then None else view_from st root qs)"
    using assms(4) by (simp add: spec_move_def goal_path_def Let_def)
  then show ?thesis
    using move_node_implements [OF assms(1,2,3,2)] by (simp add: implements_def)
qed

end
