(* ===== verification/Terminal.thy ===== *)
theory Terminal
  imports ShellResults Platform
begin

text \<open>
  The terminal of the landing page (\<open>web/src/app/page.tsx\<close>): the demonstration that plays first, how a line
  is run (sequences, chains, pipelines, redirection), the keys, and what is rendered.
\<close>

section \<open>Running a line\<close>

record pipe =
  pp_cwd :: string
  pp_stdin :: "string list"
  pp_exit :: int
  pp_out :: "output_line list"
  pp_clear :: bool

definition alias_expanded :: "vars \<Rightarrow> string list \<Rightarrow> string list" where
  "alias_expanded aliases tokens =
     (case tokens of
        [] \<Rightarrow> []
      | t # ts \<Rightarrow> if value_of aliases t \<noteq> [] then tokenize_alias (value_of aliases t) @ ts else t # ts)"

text \<open>A redirection writes the lines to a file instead.\<close>

definition write_redirect ::
  "'n surroundings \<Rightarrow> redirect \<Rightarrow> string \<Rightarrow> output_line list \<Rightarrow> shell \<Rightarrow> shell \<times> shell_outcome" where
  "write_redirect su rd cwd out sh =
     (case write_file (sh_root sh) (su_now su) (resolve_path cwd (rd_path rd))
          (text_of_lines (map ol_text out) @ [CHR 0x0A]) (rd_append rd) (sh_fs sh) of
        (st, err) \<Rightarrow>
          (sh\<lparr>sh_fs := st\<rparr>, case err of None \<Rightarrow> ([], 0) | Some e \<Rightarrow> ([error_line (''redirect: '' @ e)], 1)))"

definition redirect_output ::
  "'n surroundings \<Rightarrow> redirect option \<Rightarrow> bool \<Rightarrow> command_result \<Rightarrow> shell \<Rightarrow> shell \<times> shell_outcome" where
  "redirect_output su rd final r sh =
     (let out = (if cr_clear r then [] else cr_output r)
      in case rd of
           None \<Rightarrow> (sh, out, cr_exit r)
         | Some d \<Rightarrow> if final then write_redirect su d (cr_cwd r) out sh else (sh, out, cr_exit r))"

text \<open>The commands of a pipeline; only the last one is redirected, and one that fails ends it.\<close>

fun run_pipeline ::
  "'n surroundings \<Rightarrow> string list \<Rightarrow> string list list \<Rightarrow> pipe \<Rightarrow> shell \<Rightarrow> shell \<times> pipe option" where
  "run_pipeline su cmd_history [] pp sh = (sh, Some pp)"
| "run_pipeline su cmd_history (part # parts) pp sh =
     (case parse_redirection part of
        (clean, rd) \<Rightarrow>
          (case run_command_tokens su cmd_history (alias_expanded (sh_aliases sh) clean) (pp_stdin pp) (pp_cwd pp) sh of
             (sh1, None) \<Rightarrow> (sh1, None)
           | (sh1, Some r) \<Rightarrow>
               (case redirect_output su rd (parts = []) r sh1 of
                  (sh2, out, c) \<Rightarrow>
                    let pp2 = \<lparr>pp_cwd = cr_cwd r, pp_stdin = map ol_text out, pp_exit = c, pp_out = out,
                          pp_clear = (pp_clear pp \<or> cr_clear r)\<rparr>
                    in if c \<noteq> 0 \<and> parts \<noteq> [] then (sh2, Some pp2) else run_pipeline su cmd_history parts pp2 sh2)))"

record line_run =
  lr_cwd :: string
  lr_exit :: int
  lr_out :: "output_line list"
  lr_clear :: bool

text \<open>A chain of segments goes on while they succeed; the sequences of a line run one after the other.\<close>

fun run_chain ::
  "'n surroundings \<Rightarrow> string list \<Rightarrow> string list list \<Rightarrow> line_run \<Rightarrow> shell \<Rightarrow> shell \<times> line_run option" where
  "run_chain su cmd_history [] lr sh = (sh, Some lr)"
| "run_chain su cmd_history (seg # segs) lr sh =
     (if seg = [] then run_chain su cmd_history segs lr sh
      else
        case run_pipeline su cmd_history (split_by_operator seg ''|'')
            \<lparr>pp_cwd = lr_cwd lr, pp_stdin = [], pp_exit = 0, pp_out = [], pp_clear = lr_clear lr\<rparr> sh of
          (sh1, None) \<Rightarrow> (sh1, None)
        | (sh1, Some pp) \<Rightarrow>
            let lr1 = \<lparr>lr_cwd = pp_cwd pp, lr_exit = pp_exit pp, lr_out = lr_out lr @ pp_out pp, lr_clear = pp_clear pp\<rparr>
            in if pp_exit pp \<noteq> 0 then (sh1, Some lr1) else run_chain su cmd_history segs lr1 sh1)"

fun run_sequences ::
  "'n surroundings \<Rightarrow> string list \<Rightarrow> string list list \<Rightarrow> line_run \<Rightarrow> shell \<Rightarrow> shell \<times> line_run option" where
  "run_sequences su cmd_history [] lr sh = (sh, Some lr)"
| "run_sequences su cmd_history (seq # seqs) lr sh =
     (case run_chain su cmd_history (split_by_operator seq ''&&'') lr sh of
        (sh1, None) \<Rightarrow> (sh1, None)
      | (sh1, Some lr1) \<Rightarrow> run_sequences su cmd_history seqs lr1 sh1)"

text \<open>
  \<open>runShell\<close>: the variables and aliases are copies that are put back at the end, so that a line that does
  not return leaves them as they were, but not the files. The last status is the one of the line before.
\<close>

definition run_shell ::
  "'n surroundings \<Rightarrow> string list \<Rightarrow> string \<Rightarrow> string \<Rightarrow> shell \<times> int \<Rightarrow> (shell \<times> int) \<times> command_result option" where
  "run_shell su cmd_history cwd input s =
     (case s of
        (sh, last_status) \<Rightarrow>
          let tokens = tokenize input;
              sh0 = sh\<lparr>sh_env := dict_put ''PWD'' (to_absolute cwd) (sh_env sh)\<rparr>;
              expanded = map (\<lambda>t. expand_token t (sh_env sh0) last_status cwd) tokens
          in if tokens = [] then (s, Some (result_of cwd ([], 0)))
             else
               case run_sequences su cmd_history (split_by_operator expanded '';'')
                   \<lparr>lr_cwd = cwd, lr_exit = 0, lr_out = [], lr_clear = False\<rparr> sh0 of
                 (sh1, None) \<Rightarrow> ((sh\<lparr>sh_fs := sh_fs sh1\<rparr>, last_status), None)
               | (sh1, Some lr) \<Rightarrow>
                   ((sh1\<lparr>sh_env := dict_put ''PWD'' (to_absolute (lr_cwd lr)) (sh_env sh1)\<rparr>, lr_exit lr),
                    Some \<lparr>cr_output = limit_output (lr_out lr) 300, cr_cwd = lr_cwd lr, cr_exit = lr_exit lr,
                      cr_clear = lr_clear lr\<rparr>))"

section \<open>The demonstration\<close>

record demo_line =
  dl_text :: string
  dl_cls :: string
  dl_delay :: nat
  dl_gap :: bool

definition play_sign :: string where
  "play_sign = map char_of [226, 143, 181 :: nat]"

definition DEMO_COMMAND :: string where
  "DEMO_COMMAND = ''git push origin main''"

definition demo :: "string \<Rightarrow> string \<Rightarrow> nat \<Rightarrow> demo_line" where
  "demo t cls delay = \<lparr>dl_text = t, dl_cls = cls, dl_delay = delay, dl_gap = False\<rparr>"

definition GIT_OUTPUT :: "demo_line list" where
  "GIT_OUTPUT =
     [demo ''Enumerating objects: 12, done.'' ''text-zinc-500'' 200,
      demo ''Compressing objects: 100% (8/8), done.'' ''text-zinc-500'' 150,
      demo ''Writing objects: 100% (12/12), 3.42 KiB, done.'' ''text-zinc-500'' 150,
      demo ''remote: Resolving deltas: 100% (3/3), done.'' ''text-zinc-500'' 200,
      demo ''To github.com:user/portfolio.git'' ''text-zinc-500'' 100,
      demo ''   a1f3c9e..b2d4e6f  main -> main'' ''text-zinc-400'' 100]"

definition BUILD_OUTPUT :: "demo_line list" where
  "BUILD_OUTPUT =
     [(demo (play_sign @ '' Webhook received '' @ mdash @ '' starting build...'') ''text-zinc-400'' 600)\<lparr>dl_gap := True\<rparr>,
      demo (play_sign @ '' Cloning repo...                          done'') ''text-zinc-400'' 500,
      demo (play_sign @ '' Installing dependencies (npm install)...  done  3.2s'') ''text-zinc-400'' 400,
      demo (play_sign @ '' Building project (npm run build)...       done 12.4s'') ''text-zinc-400'' 500,
      demo (tick @ '' Build succeeded'') ''text-brand-400'' 300,
      demo (play_sign @ '' Provisioning container...                 done  1.8s'') ''text-zinc-400'' 400,
      demo (play_sign @ '' Health check passed                             0.3s'') ''text-zinc-400'' 300,
      demo (tick @ '' Deployed'') ''text-brand-400'' 300]"

definition ALL_DEMO_LINES :: "demo_line list" where
  "ALL_DEMO_LINES = GIT_OUTPUT @ BUILD_OUTPUT"

section \<open>The state\<close>

record term_line =
  tl_text :: string
  tl_cls :: "string option"
  tl_prompt :: bool

datatype phase = Wait | Typing | Output | Interactive

record terminal =
  tm_phase :: phase
  tm_typed :: nat
  tm_visible :: nat
  tm_lines :: "term_line list"
  tm_input :: string
  tm_cwd :: string
  tm_commands :: "string list"
  tm_index :: int
  tm_shell :: shell
  tm_status :: int

definition first_shell :: shell where
  "first_shell =
     \<lparr>sh_root = snd initial_store, sh_fs = fst initial_store,
      sh_env = [(''HOME'', HOME_DIR), (''USER'', ''developer''), (''LOGNAME'', ''developer''), (''SHELL'', ''/bin/bash''),
        (''TERM'', ''xterm-256color''), (''LANG'', ''en_US.UTF-8''), (''EDITOR'', ''vim'')],
      sh_aliases = [(''ll'', ''ls -la'')]\<rparr>"

definition first_terminal :: terminal where
  "first_terminal =
     \<lparr>tm_phase = Wait, tm_typed = 0, tm_visible = 0, tm_lines = [], tm_input = [], tm_cwd = ''~/projects/portfolio'',
      tm_commands = [], tm_index = -1, tm_shell = first_shell, tm_status = 0\<rparr>"

text \<open>
  The timer of a phase and its delay (\<open>jitter\<close> is below 35), and what it does when it fires. The effects keep one
  timer at a time, for their clean-up clears the one before.
\<close>

definition timer_delay :: "nat \<Rightarrow> terminal \<Rightarrow> nat option" where
  "timer_delay jitter s =
     (case tm_phase s of
        Wait \<Rightarrow> Some 500
      | Typing \<Rightarrow> Some (if length DEMO_COMMAND \<le> tm_typed s then 350 else 40 + jitter)
      | Output \<Rightarrow>
          Some (if length ALL_DEMO_LINES \<le> tm_visible s then 600 else dl_delay (ALL_DEMO_LINES ! tm_visible s))
      | Interactive \<Rightarrow> None)"

definition timer_fires :: "terminal \<Rightarrow> terminal" where
  "timer_fires s =
     (case tm_phase s of
        Wait \<Rightarrow> s\<lparr>tm_phase := Typing\<rparr>
      | Typing \<Rightarrow>
          if length DEMO_COMMAND \<le> tm_typed s then s\<lparr>tm_phase := Output\<rparr> else s\<lparr>tm_typed := tm_typed s + 1\<rparr>
      | Output \<Rightarrow>
          if length ALL_DEMO_LINES \<le> tm_visible s then s\<lparr>tm_phase := Interactive\<rparr>
          else s\<lparr>tm_visible := tm_visible s + 1\<rparr>
      | Interactive \<Rightarrow> s)"

section \<open>Commands and keys\<close>

definition short_cwd :: "string \<Rightarrow> string" where
  "short_cwd cwd =
     (let parts = split_on (CHR ''/'') cwd
      in if cwd = ''~'' then ''~''
         else if length parts \<le> 2 then cwd
         else join_with ''/'' (drop (length parts - 2) parts))"

text \<open>When the line does not return, the files are all that changes.\<close>

definition handle_command :: "'n surroundings \<Rightarrow> string \<Rightarrow> terminal \<Rightarrow> terminal" where
  "handle_command su input s =
     (let trimmed = trim input
      in if trimmed = [] then s
         else
           case run_shell su (tm_commands s) (tm_cwd s) trimmed (tm_shell s, tm_status s) of
             ((sh, st), None) \<Rightarrow> s\<lparr>tm_shell := sh\<rparr>
           | ((sh, st), Some r) \<Rightarrow>
               s\<lparr>tm_lines := (if cr_clear r then []
                    else tm_lines s @
                      \<lparr>tl_text = short_cwd (tm_cwd s) @ '' $ '' @ trimmed, tl_cls = None, tl_prompt = True\<rparr> #
                      map (\<lambda>l. \<lparr>tl_text = ol_text l, tl_cls = ol_cls l, tl_prompt = False\<rparr>) (cr_output r)),
                 tm_cwd := cr_cwd r, tm_input := [], tm_commands := tm_commands s @ [trimmed], tm_index := -1,
                 tm_shell := sh, tm_status := st\<rparr>)"

definition arrow_up :: "terminal \<Rightarrow> terminal" where
  "arrow_up s =
     (let n = int (length (tm_commands s)); i = (if tm_index s = -1 then n - 1 else max 0 (tm_index s - 1))
      in if n = 0 then s else s\<lparr>tm_index := i, tm_input := tm_commands s ! nat i\<rparr>)"

definition arrow_down :: "terminal \<Rightarrow> terminal" where
  "arrow_down s =
     (let i = tm_index s + 1
      in if tm_index s = -1 then s
         else if int (length (tm_commands s)) \<le> i then s\<lparr>tm_index := -1, tm_input := []\<rparr>
         else s\<lparr>tm_index := i, tm_input := tm_commands s ! nat i\<rparr>)"

definition grey :: "string \<Rightarrow> term_line" where
  "grey t = \<lparr>tl_text = t, tl_cls = Some ''text-zinc-400'', tl_prompt = False\<rparr>"

definition complete_command :: "string \<Rightarrow> terminal \<Rightarrow> terminal" where
  "complete_command word s =
     (let cs = filter (\<lambda>c. starts_with c word) (get_command_candidates (sh_aliases (tm_shell s)))
      in if length cs = 1 then s\<lparr>tm_input := hd cs @ '' ''\<rparr>
         else s\<lparr>tm_lines := tm_lines s @ map grey cs\<rparr>)"

definition complete_path :: "'n surroundings \<Rightarrow> string list \<Rightarrow> terminal \<Rightarrow> terminal" where
  "complete_path su parts s =
     (let token = last parts; base = last (split_on (CHR ''/'') token);
          dir = take (length token - length base) token; st = sh_fs (tm_shell s)
      in case get_node st (sh_root (tm_shell s)) (resolve_path (tm_cwd s) (if dir = [] then ''.'' else dir)) of
           None \<Rightarrow> s
         | Some a \<Rightarrow>
             if \<not> is_dir st a then s
             else
               let matches = filter (\<lambda>n. starts_with n base)
                     (map (display_name st) (list_entries (su_collate su) st a False))
               in if length matches = 1 then s\<lparr>tm_input := join_with '' '' (butlast parts @ [dir @ hd matches])\<rparr>
                  else if 1 < length matches then s\<lparr>tm_lines := tm_lines s @ [grey (join_with ''  '' matches)]\<rparr>
                  else s)"

text \<open>\<open>at_end\<close>: the cursor is behind the last character.\<close>

definition tab_key :: "'n surroundings \<Rightarrow> bool \<Rightarrow> terminal \<Rightarrow> terminal" where
  "tab_key su at_end s =
     (let parts = split_spaces (tm_input s)
      in if \<not> at_end then s
         else if length parts \<le> 1 \<and> \<not> ends_with (tm_input s) '' '' then complete_command (last parts) s
         else complete_path su parts s)"

datatype terminal_event =
    TypeText string
  | EnterKey
  | ArrowUp
  | ArrowDown
  | ControlL
  | TabKey bool
  | OtherKey

fun handle_key_down :: "'n surroundings \<Rightarrow> terminal_event \<Rightarrow> terminal \<Rightarrow> terminal" where
  "handle_key_down su EnterKey s = handle_command su (tm_input s) s"
| "handle_key_down su ArrowUp s = arrow_up s"
| "handle_key_down su ArrowDown s = arrow_down s"
| "handle_key_down su ControlL s = s\<lparr>tm_lines := []\<rparr>"
| "handle_key_down su (TabKey at_end) s = tab_key su at_end s"
| "handle_key_down su e s = s"

fun terminal_handle :: "'n surroundings \<Rightarrow> terminal_event \<Rightarrow> terminal \<Rightarrow> terminal" where
  "terminal_handle su (TypeText t) s = s\<lparr>tm_input := t\<rparr>"
| "terminal_handle su e s = handle_key_down su e s"

section \<open>What is rendered\<close>

definition bullet :: string where
  "bullet = map char_of [226, 151, 143 :: nat]"

definition box_line :: string where
  "box_line = map char_of [226, 148, 128 :: nat]"

definition demo_view :: "demo_line list \<Rightarrow> 'e view" where
  "demo_view ls = Frag (map (\<lambda>l. El ''div'' [Txt ''  '', Txt (dl_text l)]) ls)"

definition live_view :: "'e view" where
  "live_view =
     El ''div'' [El ''span'' [Txt bullet], Txt '' '',
       El ''span'' [Txt ''Live at '', El ''span'' [Txt ''https://portfolio.dev.sdc.cpp'']]]"

definition term_line_view :: "term_line \<Rightarrow> 'e view" where
  "term_line_view l =
     El ''div''
       (if tl_prompt l then
          let ps = split_text '' $ '' (tl_text l)
          in [El ''span'' [Txt (hd ps @ '' $'')], Txt '' '', El ''span'' [Txt (join_with '' $ '' (tl ps))]]
        else [Txt (tl_text l)])"

definition terminal_view :: "terminal \<Rightarrow> terminal_event view" where
  "terminal_view s =
     El ''div''
      [El ''span'' [Txt ''~/projects/portfolio''],
       when_view (tm_phase s \<noteq> Interactive) (Frag
         [El ''div'' [El ''span'' [Txt (short_cwd (tm_cwd s) @ '' $'')], Txt '' '',
            El ''span'' [Txt (take (tm_typed s) DEMO_COMMAND)],
            when_view (tm_phase s = Typing \<or> tm_phase s = Wait) (El ''span'' [])],
          demo_view (take (tm_visible s) ALL_DEMO_LINES),
          when_view (length ALL_DEMO_LINES \<le> tm_visible s) live_view]),
       when_view (tm_phase s = Interactive) (Frag
         [El ''div'' [El ''span'' [Txt (short_cwd (tm_cwd s) @ '' $'')], Txt '' '', El ''span'' [Txt DEMO_COMMAND]],
          demo_view ALL_DEMO_LINES, live_view,
          El ''div'' [Txt (box_line @ box_line @ '' interactive terminal '' @ box_line @ '' type help for commands '' @
            box_line @ box_line)],
          Frag (map term_line_view (tm_lines s)),
          El ''div'' [El ''span'' [Txt (short_cwd (tm_cwd s) @ '' $'')], Inp ''text'' (tm_input s) [] TypeText]])]"

definition landing_page :: "nat \<Rightarrow> terminal \<Rightarrow> terminal_event view" where
  "landing_page year s =
     El ''div''
      [El ''nav'' [Lnk ''/'' [Txt ''tbd''], Lnk ''/login'' [Txt ''Sign in'']],
       El ''main''
        [El ''h1'' [El ''span'' [Txt ''Push to GitHub.''], El ''span'' [Txt ''Auto Build.''],
           El ''span'' [Txt ''Deployed @ dev.sdc.cpp'']],
         terminal_view s],
       El ''footer'' [El ''span'' [Txt ''tbd''],
         El ''span'' [Txt (map char_of [194, 169 :: nat] @ '' '' @ show_nat year @ '' SDC'')]]]"

text \<open>
  A step: the timer of the phase fires, or a key is pressed or text typed while the input field is on screen.
\<close>

inductive terminal_step :: "'n surroundings \<Rightarrow> terminal \<Rightarrow> terminal \<Rightarrow> bool" for su where
  timer: "timer_delay jitter s \<noteq> None \<Longrightarrow> terminal_step su s (timer_fires s)"
| event: "offers (terminal_view s) (TypeText t) \<Longrightarrow> e = TypeText t \<or> (\<forall>u. e \<noteq> TypeText u) \<Longrightarrow>
    terminal_step su s (terminal_handle su e s)"

section \<open>Every line keeps the shell in order\<close>

definition canonical :: "string \<Rightarrow> bool" where
  "canonical cwd = (\<exists>ps. plain ps \<and> cwd = path_of ps)"

lemma canonical_home: "canonical ''~''"
  unfolding canonical_def using plain_parts(1) path_of_Nil by metis

lemma canonical_resolve: "canonical (resolve_path cwd t)"
  using resolve_path_plain by (simp add: canonical_def)

text \<open>The working directory after a command is the one before, or a resolved path.\<close>

definition keeps_cwd :: "handler \<Rightarrow> bool" where
  "keeps_cwd h = (\<forall>c sh r. snd (h c sh) = Some r \<longrightarrow> canonical (cl_cwd c) \<longrightarrow> canonical (cr_cwd r))"

lemma handler_cwds: "keeps_cwd (prints f)" "keeps_cwd (may_print g)" "keeps_cwd clear_handler" "keeps_cwd (on_files k)"
  "keeps_cwd (on_env m)" "keeps_cwd (on_aliases m)" "keeps_cwd cp_handler" "keeps_cwd cd_handler"
  by (auto simp: keeps_cwd_def prints_def may_print_def clear_handler_def on_files_def on_env_def on_aliases_def
      cp_handler_def cd_handler_def cd_command_def result_of_def failed_def canonical_home canonical_resolve
      split: prod.splits list.splits if_splits option.splits)

lemma commands_cwd: "\<forall>e \<in> set (commands su). keeps_cwd (snd e)"
  by (simp add: commands_def handler_cwds)

lemma run_command_cwd:
  assumes "run_command_tokens su hist tokens stdin cwd sh = (sh', Some r)" and "canonical cwd"
  shows "canonical (cr_cwd r)"
proof -
  obtain env words where w: "assign_words (sh_env sh) tokens = (env, words)" by fastforce
  have "keeps_cwd h" if "map_of (commands su) (hd words) = Some h" for h
    using commands_cwd map_of_SomeD [OF that] by fastforce
  then have "canonical (cr_cwd r)" if "map_of (commands su) (hd words) = Some h" "words \<noteq> []" for h
    using assms that unfolding keeps_cwd_def
    by (simp add: run_command_tokens_def w Let_def) (metis call.select_convs(4) snd_conv)
  then show ?thesis
    using assms by (cases "map_of (commands su) (hd words)")
      (auto simp: run_command_tokens_def w Let_def result_of_def split: if_splits)
qed

lemma write_redirect_keeps:
  assumes "shell_ok sh"
  shows "shell_ok (fst (write_redirect su rd cwd out sh)) \<and> sh_root (fst (write_redirect su rd cwd out sh)) = sh_root sh"
  using assms write_file_well_formed [of "sh_fs sh" "sh_root sh"]
  by (auto simp: write_redirect_def shell_ok_def split: prod.split) (metis fst_conv)

lemma redirect_output_keeps:
  assumes "shell_ok sh"
  shows "shell_ok (fst (redirect_output su rd final r sh)) \<and> sh_root (fst (redirect_output su rd final r sh)) = sh_root sh"
  using write_redirect_keeps [OF assms] assms by (auto simp: redirect_output_def Let_def split: option.split)

definition run_ok :: "('a \<Rightarrow> string) \<Rightarrow> nat \<Rightarrow> shell \<times> 'a option \<Rightarrow> bool" where
  "run_ok f root x =
     (shell_ok (fst x) \<and> sh_root (fst x) = root \<and> (case snd x of None \<Rightarrow> True | Some y \<Rightarrow> canonical (f y)))"

lemma run_ok_simps [simp]:
  "run_ok f root (sh, None) = (shell_ok sh \<and> sh_root sh = root)"
  "run_ok f root (sh, Some y) = (shell_ok sh \<and> sh_root sh = root \<and> canonical (f y))"
  by (simp_all add: run_ok_def)

lemma run_pipeline_keeps:
  assumes "shell_ok sh" and "canonical (pp_cwd pp)"
  shows "run_ok pp_cwd (sh_root sh) (run_pipeline su hist parts pp sh)"
  using assms
proof (induction parts arbitrary: pp sh)
  case (Cons part parts)
  obtain clean rd where p: "parse_redirection part = (clean, rd)" by fastforce
  let ?tokens = "alias_expanded (sh_aliases sh) clean"
  obtain sh1 r where run: "run_command_tokens su hist ?tokens (pp_stdin pp) (pp_cwd pp) sh = (sh1, r)" by fastforce
  have ok1: "shell_ok sh1" "sh_root sh1 = sh_root sh"
    using run_command_keeps [OF Cons(2), of su hist ?tokens "pp_stdin pp" "pp_cwd pp"] by (simp_all add: run)
  show ?case
  proof (cases r)
    case None
    then show ?thesis by (simp add: p run ok1)
  next
    case (Some q)
    have cwd: "canonical (cr_cwd q)" using run_command_cwd run Some Cons(3) by blast
    obtain sh2 out c where out: "redirect_output su rd (parts = []) q sh1 = (sh2, out, c)"
      by (cases "redirect_output su rd (parts = []) q sh1") blast
    have ok2: "shell_ok sh2" "sh_root sh2 = sh_root sh"
      using redirect_output_keeps [OF ok1(1), of su rd "parts = []" q] ok1(2) unfolding out by simp_all
    show ?thesis
      using Cons(1) [OF ok2(1)] ok2 cwd by (simp add: p run Some out Let_def)
  qed
qed simp

lemma run_chain_keeps:
  assumes "shell_ok sh" and "canonical (lr_cwd lr)"
  shows "run_ok lr_cwd (sh_root sh) (run_chain su hist segs lr sh)"
  using assms
proof (induction segs arbitrary: lr sh)
  case (Cons seg segs)
  let ?pp = "\<lparr>pp_cwd = lr_cwd lr, pp_stdin = [], pp_exit = 0, pp_out = [], pp_clear = lr_clear lr\<rparr>"
  obtain sh1 r where run: "run_pipeline su hist (split_by_operator seg ''|'') ?pp sh = (sh1, r)" by fastforce
  have ok: "run_ok pp_cwd (sh_root sh) (sh1, r)"
    using run_pipeline_keeps [OF Cons(2), of ?pp su hist "split_by_operator seg ''|''"] Cons(3) unfolding run by simp
  then have ok1: "shell_ok sh1" "sh_root sh1 = sh_root sh" by (simp_all add: run_ok_def)
  show ?case
  proof (cases "seg = [] \<or> r = None")
    case True
    then show ?thesis using Cons(1) [OF Cons(2,3)] ok1 by (auto simp: run)
  next
    case False
    then obtain pp where r: "r = Some pp" by auto
    show ?thesis using Cons(1) [OF ok1(1)] False ok ok1 by (simp add: run r Let_def)
  qed
qed simp

lemma run_sequences_keeps:
  assumes "shell_ok sh" and "canonical (lr_cwd lr)"
  shows "run_ok lr_cwd (sh_root sh) (run_sequences su hist seqs lr sh)"
  using assms
proof (induction seqs arbitrary: lr sh)
  case (Cons seq seqs)
  obtain sh1 r where run: "run_chain su hist (split_by_operator seq ''&&'') lr sh = (sh1, r)" by fastforce
  have ok: "run_ok lr_cwd (sh_root sh) (sh1, r)"
    using run_chain_keeps [OF Cons(2,3), of su hist "split_by_operator seq ''&&''"] unfolding run by simp
  then have ok1: "shell_ok sh1" "sh_root sh1 = sh_root sh" by (simp_all add: run_ok_def)
  show ?case
    using Cons(1) [OF ok1(1)] ok ok1 by (cases r) (simp_all add: run)
qed simp

lemma valid_pwd: "is_valid_var_name ''PWD''"
  by (simp add: is_valid_var_name_def word_char_def is_alnum_def is_upper_def is_lower_def is_digit_def)

text \<open>What \<open>run_shell\<close> runs, and how it ends.\<close>

definition line_start :: "string \<Rightarrow> shell \<Rightarrow> shell" where
  "line_start cwd sh = sh\<lparr>sh_env := dict_put ''PWD'' (to_absolute cwd) (sh_env sh)\<rparr>"

definition line_words :: "string \<Rightarrow> string \<Rightarrow> shell \<Rightarrow> int \<Rightarrow> string list" where
  "line_words cwd input sh st = map (\<lambda>t. expand_token t (sh_env (line_start cwd sh)) st cwd) (tokenize input)"

lemma run_shell_cases:
  assumes "tokenize input \<noteq> []"
  shows "run_shell su hist cwd input (sh, st) =
    (case run_sequences su hist (split_by_operator (line_words cwd input sh st) '';'')
        \<lparr>lr_cwd = cwd, lr_exit = 0, lr_out = [], lr_clear = False\<rparr> (line_start cwd sh) of
       (sh1, None) \<Rightarrow> ((sh\<lparr>sh_fs := sh_fs sh1\<rparr>, st), None)
     | (sh1, Some lr) \<Rightarrow>
         ((line_start (lr_cwd lr) sh1, lr_exit lr),
          Some \<lparr>cr_output = limit_output (lr_out lr) 300, cr_cwd = lr_cwd lr, cr_exit = lr_exit lr, cr_clear = lr_clear lr\<rparr>))"
  using assms by (simp add: run_shell_def line_start_def line_words_def Let_def split: prod.split option.split)

lemma line_start_ok: "shell_ok sh \<Longrightarrow> shell_ok (line_start cwd sh)" "sh_root (line_start cwd sh) = sh_root sh"
  using valid_put [OF _ valid_pwd] by (simp_all add: shell_ok_def line_start_def)

lemma run_shell_keeps:
  assumes "shell_ok sh" and "canonical cwd"
  shows "shell_ok (fst (fst (run_shell su hist cwd input (sh, st)))) \<and>
    sh_root (fst (fst (run_shell su hist cwd input (sh, st)))) = sh_root sh \<and>
    (\<forall>q. snd (run_shell su hist cwd input (sh, st)) = Some q \<longrightarrow> canonical (cr_cwd q))"
proof (cases "tokenize input = []")
  case True
  then show ?thesis using assms by (auto simp: run_shell_def result_of_def)
next
  case False
  let ?lr = "\<lparr>lr_cwd = cwd, lr_exit = 0, lr_out = [], lr_clear = False\<rparr>"
  let ?seqs = "split_by_operator (line_words cwd input sh st) '';''"
  obtain sh1 r where run: "run_sequences su hist ?seqs ?lr (line_start cwd sh) = (sh1, r)" by fastforce
  have ok: "run_ok lr_cwd (sh_root sh) (sh1, r)"
    using run_sequences_keeps [where lr = ?lr and su = su and hist = hist and seqs = ?seqs, OF line_start_ok(1) [OF assms(1), of cwd]]
      assms(2) line_start_ok(2) [of cwd sh]
    unfolding run by simp
  then have ok1: "shell_ok sh1" "sh_root sh1 = sh_root sh" by (simp_all add: run_ok_def)
  have "shell_ok (sh\<lparr>sh_fs := sh_fs sh1\<rparr>)" using ok1(1,2) assms(1) by (simp add: shell_ok_def)
  then show ?thesis
    using ok ok1 line_start_ok by (cases r) (simp_all add: run_shell_cases [OF False] run)
qed

section \<open>The terminal\<close>

definition demo_counts :: "terminal \<Rightarrow> bool" where
  "demo_counts s =
     (case tm_phase s of
        Wait \<Rightarrow> tm_typed s = 0 \<and> tm_visible s = 0
      | Typing \<Rightarrow> tm_typed s \<le> length DEMO_COMMAND \<and> tm_visible s = 0
      | Output \<Rightarrow> tm_typed s = length DEMO_COMMAND \<and> tm_visible s \<le> length ALL_DEMO_LINES
      | Interactive \<Rightarrow> tm_typed s = length DEMO_COMMAND \<and> tm_visible s = length ALL_DEMO_LINES)"

definition terminal_ok :: "terminal \<Rightarrow> bool" where
  "terminal_ok s =
     (shell_ok (tm_shell s) \<and> canonical (tm_cwd s) \<and> demo_counts s \<and>
      -1 \<le> tm_index s \<and> tm_index s < int (length (tm_commands s)) \<and> (\<forall>c \<in> set (tm_commands s). trim c \<noteq> []) \<and>
      (tm_phase s \<noteq> Interactive \<longrightarrow> tm_lines s = [] \<and> tm_commands s = []))"

lemma trim_trim: "trim (trim t) = trim t"
proof -
  define u where "u = dropWhile is_space t"
  have trim: "trim t = rev (dropWhile is_space (rev u))" by (simp add: trim_def u_def)
  have first: "dropWhile is_space (trim t) = trim t"
  proof (cases "trim t")
    case (Cons c cs)
    have "prefix (trim t) u" unfolding trim by (metis rev_rev_ident suffix_dropWhile suffix_to_prefix)
    then have "u = c # drop 1 u" using Cons by (cases u) auto
    then have "\<not> is_space c" unfolding u_def by (metis hd_dropWhile list.distinct(1) list.sel(1))
    then show ?thesis by (simp add: Cons)
  qed simp
  have last: "dropWhile is_space (rev (trim t)) = rev (trim t)" unfolding trim by (simp add: dropWhile_idem)
  have "trim (trim t) = rev (dropWhile is_space (rev (dropWhile is_space (trim t))))" by (simp only: trim_def)
  then show ?thesis by (simp only: first last rev_rev_ident)
qed

lemma handle_command_ok:
  assumes "terminal_ok s" and "tm_phase s = Interactive"
  shows "terminal_ok (handle_command su input s)"
proof (cases "trim input = []")
  case False
  obtain sh st r where run: "run_shell su (tm_commands s) (tm_cwd s) (trim input) (tm_shell s, tm_status s) = ((sh, st), r)"
    by (metis prod.collapse)
  have "shell_ok (tm_shell s)" "canonical (tm_cwd s)" using assms(1) by (simp_all add: terminal_ok_def)
  from run_shell_keeps [OF this, of su "tm_commands s" "trim input" "tm_status s"]
  have ok: "shell_ok sh" "\<And>q. r = Some q \<Longrightarrow> canonical (cr_cwd q)" by (simp_all add: run)
  show ?thesis
  proof (cases r)
    case None
    then have "handle_command su input s = s\<lparr>tm_shell := sh\<rparr>" using False by (simp add: handle_command_def run)
    then show ?thesis using assms ok(1) by (simp add: terminal_ok_def demo_counts_def)
  next
    case (Some q)
    obtain ls where "handle_command su input s = s\<lparr>tm_lines := ls, tm_cwd := cr_cwd q, tm_input := [],
        tm_commands := tm_commands s @ [trim input], tm_index := -1, tm_shell := sh, tm_status := st\<rparr>"
      using False Some by (simp add: handle_command_def run Let_def)
    then show ?thesis using assms ok False Some by (auto simp: terminal_ok_def demo_counts_def trim_trim)
  qed
qed (use assms in \<open>simp add: handle_command_def\<close>)

text \<open>The other keys change the lines, the input and the index only.\<close>

lemma screen_ok:
  assumes "terminal_ok s" and "tm_phase s = Interactive" and "-1 \<le> i" and "i < int (length (tm_commands s))"
  shows "terminal_ok (s\<lparr>tm_lines := ls\<rparr>)" and "terminal_ok (s\<lparr>tm_input := t\<rparr>)"
    and "terminal_ok (s\<lparr>tm_index := i, tm_input := t\<rparr>)"
  using assms by (simp_all add: terminal_ok_def demo_counts_def)

lemma terminal_handle_ok:
  assumes "terminal_ok s" and "tm_phase s = Interactive"
  shows "terminal_ok (terminal_handle su e s)"
proof -
  have index: "-1 \<le> tm_index s" "tm_index s < int (length (tm_commands s))"
    using assms(1) by (simp_all add: terminal_ok_def)
  note screen = screen_ok(1,2) [OF assms order_refl] screen_ok(3) [OF assms]
  have path: "terminal_ok (complete_path su parts s)" for parts
    using assms(1) screen(1,2) by (simp add: complete_path_def Let_def split: option.split)
  have word: "terminal_ok (complete_command w s)" for w
    using screen(1,2) by (simp add: complete_command_def Let_def)
  show ?thesis
  proof (cases e)
    case EnterKey
    then show ?thesis using handle_command_ok [OF assms] by simp
  next
    case (TabKey b)
    then show ?thesis using path word assms(1) by (simp add: tab_key_def Let_def)
  next
    case ArrowUp
    then show ?thesis using screen(3) index assms(1) by (auto simp: arrow_up_def Let_def)
  next
    case ArrowDown
    then show ?thesis using screen(3) index assms(1) by (auto simp: arrow_down_def Let_def)
  qed (use screen assms in simp_all)
qed

lemma timer_ok:
  assumes "terminal_ok s" and "timer_delay jitter s \<noteq> None"
  shows "terminal_ok (timer_fires s)"
  using assms by (cases "tm_phase s") (auto simp: terminal_ok_def demo_counts_def timer_fires_def timer_delay_def)

lemma first_terminal_ok: "terminal_ok first_terminal"
proof -
  have "canonical ''~/projects/portfolio''"
    unfolding canonical_def
    by (rule exI [of _ "[''projects'', ''portfolio'']"]) (simp add: plain_def proper_def path_of_def)
  moreover have "shell_ok first_shell"
    using sound_well_formed [OF initial_store_sound]
    by (simp add: shell_ok_def first_shell_def valid_env_def is_dict_def is_valid_var_name_def word_char_def is_alnum_def
        is_upper_def is_lower_def is_digit_def)
  ultimately show ?thesis by (simp add: terminal_ok_def first_terminal_def demo_counts_def)
qed

lemma typing_interactive: "offers (terminal_view s) (TypeText t) \<Longrightarrow> tm_phase s = Interactive"
proof (rule ccontr)
  assume "tm_phase s \<noteq> Interactive"
  then have "\<not> offers (terminal_view s) (TypeText t)"
    by (auto simp: terminal_view_def offers_def live_view_def demo_view_def)
  moreover assume "offers (terminal_view s) (TypeText t)"
  ultimately show False by simp
qed

text \<open>
  C12: whatever is typed and whichever keys are pressed, the file system stays well formed and its root a
  directory, the variables are proper, the working directory is a resolved path, the place in the history of
  commands is one of its entries or none, no blank command is in it, and what is shown of the demonstration
  fits its phase. This is of the model, in which no file, command or variable has a name that every
  object inherits (\<open>constructor\<close>, \<open>toString\<close> and the like): with such a name the code can store a child that
  is no node.
\<close>

theorem terminal_reachable:
  assumes "(terminal_step su)\<^sup>*\<^sup>* first_terminal s"
  shows "terminal_ok s"
  using assms
proof induction
  case (step s s')
  from step(2,3) show ?case
    by cases (auto intro: timer_ok terminal_handle_ok dest: typing_interactive)
qed (rule first_terminal_ok)

theorem terminal_reachable_witness: "terminal_ok (timer_fires first_terminal)"
proof -
  have "terminal_step small_world first_terminal (timer_fires first_terminal)"
    by (rule terminal_step.timer [of 0]) (simp add: timer_delay_def first_terminal_def)
  then show ?thesis by (intro terminal_reachable [of small_world]) blast
qed

text \<open>How many times the timers still fire.\<close>

definition demo_left :: "terminal \<Rightarrow> nat" where
  "demo_left s =
     (let typing = length DEMO_COMMAND - tm_typed s; showing = length ALL_DEMO_LINES - tm_visible s
      in case tm_phase s of
           Wait \<Rightarrow> typing + showing + 3
         | Typing \<Rightarrow> typing + showing + 2
         | Output \<Rightarrow> showing + 1
         | Interactive \<Rightarrow> 0)"

text \<open>
  C40: the demonstration ends: in every state but the last there is a timer, each time one fires it is one step
  nearer to the end, and then the prompt is on screen.
\<close>

theorem demo_ends:
  "tm_phase ((timer_fires ^^ demo_left s) s) = Interactive \<and>
   (timer_delay jitter s = None) = (tm_phase s = Interactive) \<and>
   demo_left (timer_fires s) = demo_left s - 1 \<and> (demo_left s = 0) = (tm_phase s = Interactive)"
proof -
  have step: "demo_left (timer_fires s) = demo_left s - 1" for s
    by (cases "tm_phase s") (auto simp: demo_left_def timer_fires_def Let_def)
  have zero: "(demo_left s = 0) = (tm_phase s = Interactive)" for s
    by (cases "tm_phase s") (simp_all add: demo_left_def Let_def)
  have "tm_phase ((timer_fires ^^ n) s) = Interactive" if "demo_left s = n" for n
    using that
  proof (induction n arbitrary: s)
    case (Suc n)
    then show ?case using step [of s] by (simp add: funpow_swap1)
  qed (simp add: zero)
  moreover have "(timer_delay jitter s = None) = (tm_phase s = Interactive)"
    by (cases "tm_phase s") (simp_all add: timer_delay_def)
  ultimately show ?thesis using step zero by simp
qed

section \<open>Lines that end\<close>

text \<open>The commands that may break the tree, that may not end, and that change what others mean.\<close>

definition risky :: "string list" where
  "risky = [''mv'', ''cp'', ''seq'', ''factor'', ''alias'']"

definition quiet :: "string list \<Rightarrow> bool" where
  "quiet ts = (set ts \<inter> set risky = {})"

definition quiet_aliases :: "vars \<Rightarrow> bool" where
  "quiet_aliases d = (\<forall>v \<in> snd ` set d. quiet (tokenize v))"

definition good_shell :: "shell \<Rightarrow> bool" where
  "good_shell sh = (sound (sh_fs sh) (sh_root sh) \<and> quiet_aliases (sh_aliases sh))"

lemma quiet_simps [simp]: "quiet []" "quiet (ts @ us) = (quiet ts \<and> quiet us)"
  "quiet (t # ts) = (t \<notin> set risky \<and> quiet ts)"
  by (auto simp: quiet_def)

lemma quiet_subset: "quiet ts \<Longrightarrow> set us \<subseteq> set ts \<Longrightarrow> quiet us"
  by (auto simp: quiet_def)

lemma assign_words_subset: "set (snd (assign_words env ws)) \<subseteq> set ws"
  by (induction env ws rule: assign_words.induct) (auto split: prod.split)

definition shrinks_aliases :: "string \<Rightarrow> handler \<Rightarrow> bool" where
  "shrinks_aliases n h = (n \<noteq> ''alias'' \<longrightarrow> (\<forall>c sh. set (sh_aliases (fst (h c sh))) \<subseteq> set (sh_aliases sh)))"

lemma handler_aliases: "shrinks_aliases n (prints f)" "shrinks_aliases n (may_print g)" "shrinks_aliases n clear_handler"
  "shrinks_aliases n cd_handler" "shrinks_aliases n (on_files k)" "shrinks_aliases n (on_env m)"
  "shrinks_aliases n cp_handler" "shrinks_aliases n (on_aliases unalias_command)"
  "shrinks_aliases ''alias'' (on_aliases alias_command)"
  using set_dict_del
  by (auto simp: shrinks_aliases_def prints_def may_print_def clear_handler_def cd_handler_def on_files_def on_env_def
      cp_handler_def on_aliases_def unalias_command_def split: prod.splits list.splits if_splits)

lemma commands_aliases: "\<forall>e \<in> set (commands su). shrinks_aliases (fst e) (snd e)"
  by (simp add: commands_def handler_aliases)

lemma run_command_aliases:
  assumes "quiet tokens"
  shows "set (sh_aliases (fst (run_command_tokens su hist tokens stdin cwd sh))) \<subseteq> set (sh_aliases sh)"
proof -
  obtain env words where w: "assign_words (sh_env sh) tokens = (env, words)" by fastforce
  have "quiet words" using quiet_subset [OF assms assign_words_subset, of "sh_env sh"] by (simp add: w)
  then have "hd words \<noteq> ''alias''" if "words \<noteq> []"
    using that by (cases words) (simp_all add: risky_def)
  moreover have "shrinks_aliases (hd words) h" if "map_of (commands su) (hd words) = Some h" for h
    using commands_aliases map_of_SomeD [OF that] by fastforce
  ultimately have "set (sh_aliases (fst (h c (sh\<lparr>sh_env := env\<rparr>)))) \<subseteq> set (sh_aliases (sh\<lparr>sh_env := env\<rparr>))"
    if "map_of (commands su) (hd words) = Some h" "words \<noteq> []" for h c
    using that unfolding shrinks_aliases_def by blast
  then show ?thesis by (simp add: run_command_tokens_def w Let_def split: option.split)
qed

lemma run_command_good:
  assumes "good_shell sh" and "quiet tokens"
  shows "good_shell (fst (run_command_tokens su hist tokens stdin cwd sh)) \<and>
    snd (run_command_tokens su hist tokens stdin cwd sh) \<noteq> None"
proof -
  let ?words = "snd (assign_words (sh_env sh) tokens)"
  have "quiet ?words" using quiet_subset [OF assms(2) assign_words_subset] .
  then have "avoids_home cwd ?words" "?words = [] \<or> hd ?words \<notin> {''seq'', ''factor''}"
    by (cases ?words; simp add: avoids_home_def risky_def)+
  then have "sound (sh_fs (fst (run_command_tokens su hist tokens stdin cwd sh)))
      (sh_root (fst (run_command_tokens su hist tokens stdin cwd sh))) \<and>
      snd (run_command_tokens su hist tokens stdin cwd sh) \<noteq> None"
    using run_command_sound [OF _ _ _ surjective_pairing, of sh cwd tokens su hist stdin] assms(1)
    by (auto simp: good_shell_def)
  moreover have "quiet_aliases (sh_aliases (fst (run_command_tokens su hist tokens stdin cwd sh)))"
    using run_command_aliases [OF assms(2), of su hist stdin cwd sh] assms(1)
    by (auto simp: good_shell_def quiet_aliases_def)
  ultimately show ?thesis by (simp add: good_shell_def)
qed

lemma write_redirect_good:
  assumes "good_shell sh"
  shows "good_shell (fst (write_redirect su rd cwd out sh))"
  using assms resolved_sound(2) [of "sh_fs sh" "sh_root sh"]
  by (auto simp: write_redirect_def good_shell_def split: prod.split) (metis fst_conv)

lemma redirect_output_good: "good_shell sh \<Longrightarrow> good_shell (fst (redirect_output su rd final r sh))"
  using write_redirect_good by (auto simp: redirect_output_def Let_def split: option.split)

lemma redirection_subset: "set (fst (parse_redirection part)) \<subseteq> set part"
  by (auto simp: parse_redirection_def Let_def split: list.splits dest: set_takeWhileD)
    (metis in_set_dropD list.set_intros(1,2) dropWhile_eq_drop set_dropWhileD)+

lemma alias_expanded_quiet:
  assumes "quiet_aliases d" and "quiet ts"
  shows "quiet (alias_expanded d ts)"
proof (cases ts)
  case (Cons t us)
  show ?thesis
  proof (cases "map_of d t")
    case (Some v)
    then have "quiet (tokenize v)" using assms(1) map_of_SomeD [OF Some] by (force simp: quiet_aliases_def)
    then show ?thesis using assms(2) Cons Some by (simp add: alias_expanded_def value_of_def tokenize_alias_def)
  qed (use assms Cons in \<open>simp add: alias_expanded_def value_of_def\<close>)
qed (simp add: alias_expanded_def)

definition good_run :: "shell \<times> 'a option \<Rightarrow> bool" where
  "good_run x = (good_shell (fst x) \<and> snd x \<noteq> None)"

lemma good_runE:
  assumes "good_run x"
  obtains sh y where "x = (sh, Some y)" and "good_shell sh"
  using assms by (cases x) (auto simp: good_run_def)

lemma run_pipeline_good:
  assumes "good_shell sh" and "\<forall>part \<in> set parts. quiet part"
  shows "good_run (run_pipeline su hist parts pp sh)"
  using assms
proof (induction parts arbitrary: pp sh)
  case (Cons part parts)
  obtain clean rd where p: "parse_redirection part = (clean, rd)" by fastforce
  let ?tokens = "alias_expanded (sh_aliases sh) clean"
  obtain sh1 r where run: "run_command_tokens su hist ?tokens (pp_stdin pp) (pp_cwd pp) sh = (sh1, r)" by fastforce
  have "quiet ?tokens"
    using Cons(2,3) redirection_subset [of part] quiet_subset alias_expanded_quiet
    by (simp add: p good_shell_def) blast
  from run_command_good [OF Cons(2) this, of su hist "pp_stdin pp" "pp_cwd pp"]
  obtain q where q: "r = Some q" and ok1: "good_shell sh1" by (auto simp: run)
  obtain sh2 out c where out: "redirect_output su rd (parts = []) q sh1 = (sh2, out, c)"
    by (cases "redirect_output su rd (parts = []) q sh1") blast
  have "good_shell sh2" using redirect_output_good [OF ok1, of su rd "parts = []" q] by (simp add: out)
  then show ?case using Cons(1,3) by (simp add: p run q out Let_def good_run_def)
qed (simp add: good_run_def)

lemma split_groups_subset: "g \<in> set (split_groups x cur ts) \<Longrightarrow> set g \<subseteq> set cur \<union> set ts"
  by (induction x cur ts rule: split_groups.induct) (auto split: if_splits)

lemma split_quiet: "quiet ts \<Longrightarrow> \<forall>g \<in> set (split_by_operator ts x). quiet g"
  using split_groups_subset quiet_subset by (fastforce simp: split_by_operator_def)

lemma run_chain_good:
  assumes "good_shell sh" and "\<forall>seg \<in> set segs. quiet seg"
  shows "good_run (run_chain su hist segs lr sh)"
  using assms
proof (induction segs arbitrary: lr sh)
  case (Cons seg segs)
  let ?pp = "\<lparr>pp_cwd = lr_cwd lr, pp_stdin = [], pp_exit = 0, pp_out = [], pp_clear = lr_clear lr\<rparr>"
  have "good_run (run_pipeline su hist (split_by_operator seg ''|'') ?pp sh)"
    using Cons(2,3) split_quiet by (intro run_pipeline_good) auto
  then obtain sh1 pp where "run_pipeline su hist (split_by_operator seg ''|'') ?pp sh = (sh1, Some pp)" "good_shell sh1"
    by (rule good_runE)
  with Cons show ?case by (simp add: Let_def good_run_def)
qed (simp add: good_run_def)

lemma run_sequences_good:
  assumes "good_shell sh" and "\<forall>seq \<in> set seqs. quiet seq"
  shows "good_run (run_sequences su hist seqs lr sh)"
  using assms
proof (induction seqs arbitrary: lr sh)
  case (Cons seq seqs)
  have "good_run (run_chain su hist (split_by_operator seq ''&&'') lr sh)"
    using Cons(2,3) split_quiet by (intro run_chain_good) auto
  then obtain sh1 lr1 where "run_chain su hist (split_by_operator seq ''&&'') lr sh = (sh1, Some lr1)" "good_shell sh1"
    by (rule good_runE)
  with Cons show ?case by simp
qed (simp add: good_run_def)

text \<open>
  C11: a line without \<open>mv\<close>, \<open>cp\<close>, \<open>seq\<close>, \<open>factor\<close> and \<open>alias\<close> among its words, in a shell whose tree is sound and
  whose aliases do not stand for them either, ends, whatever its commands, pipes and redirections are; the tree
  stays sound, and it prints at most 301 lines. As in the whole model of the shell, names that every object
  inherits are left out: the code breaks on the command \<open>constructor\<close>, for which it finds an inherited function
  as the alias.
\<close>

theorem quiet_line_ends:
  assumes "sound (sh_fs sh) (sh_root sh)" and "quiet_aliases (sh_aliases sh)" and "quiet (line_words cwd input sh st)"
  shows "\<exists>sh' st' q. run_shell su hist cwd input (sh, st) = ((sh', st'), Some q) \<and>
    sound (sh_fs sh') (sh_root sh') \<and> quiet_aliases (sh_aliases sh') \<and> length (cr_output q) \<le> 301"
proof (cases "tokenize input = []")
  case True
  then show ?thesis using assms by (simp add: run_shell_def result_of_def)
next
  case False
  let ?lr = "\<lparr>lr_cwd = cwd, lr_exit = 0, lr_out = [], lr_clear = False\<rparr>"
  let ?seqs = "split_by_operator (line_words cwd input sh st) '';''"
  have "good_shell (line_start cwd sh)" using assms by (simp add: good_shell_def line_start_def)
  then have "good_run (run_sequences su hist ?seqs ?lr (line_start cwd sh))"
    using split_quiet [OF assms(3)] by (intro run_sequences_good)
  then obtain sh1 lr where run: "run_sequences su hist ?seqs ?lr (line_start cwd sh) = (sh1, Some lr)" and "good_shell sh1"
    by (rule good_runE)
  moreover have "length (limit_output (lr_out lr) 300) \<le> 301"
    using limit_output_length [of "lr_out lr" 300] by simp
  ultimately show ?thesis
    by (simp add: run_shell_cases [OF False] good_shell_def line_start_def)
qed

theorem quiet_line_ends_witness:
  "\<exists>sh' st' q. run_shell small_world [] ''~'' ''pwd|cat'' (small_shell, 0) = ((sh', st'), Some q) \<and>
    sound (sh_fs sh') (sh_root sh') \<and> quiet_aliases (sh_aliases sh') \<and> length (cr_output q) \<le> 301"
proof -
  have "tokenize ''pwd|cat'' = [''pwd'', ''|'', ''cat'']"
    by (simp add: tokenize_def push_token_def is_space_def)
  then have "line_words ''~'' ''pwd|cat'' small_shell 0 = [''pwd'', ''|'', ''cat'']"
    by (simp add: line_words_def)
  then have "quiet (line_words ''~'' ''pwd|cat'' small_shell 0)"
    by (simp add: risky_def)
  then show ?thesis
    using one_file_sound by (intro quiet_line_ends) (simp_all add: small_shell_def quiet_aliases_def)
qed

end
