(* ===== verification/Spec2Isabelle.thy ===== *)
theory Spec2Isabelle
  imports Prelude Platform Encoding ApiTypes ApiClient Utils Sso OidcRoutes AuthContext LogStream
    Widgets Navigation SignIn PageKit AuditPage VlansPage UsersPage QuotasPage PoliciesPage DateTime
    ProjectKit ProjectData ProjectOverview ProjectDeploys ProjectBuilds ProjectEnvironments
    ProjectMembers ProjectSettings ProjectPage SecretsPage DeployPage AccountPage
    StudentsPage StudentDetailPage ProjectListPage TemplateGallery DashboardPage OverviewPages
    JsNumber JsObject FileSystem FileSystemWalk FileSystemSpec
    ShellSyntax ShellFiles ShellText ShellCommands ShellSpec ShellResults Terminal
begin

text \<open>
  The web client of the \<open>tbd\<close> platform (\<open>src/web/src\<close>, TypeScript and React), which signs students
  and staff on, shows their projects and deploys, and lets staff and faculty administer the
  platform. This theory imports the whole development and holds the properties that span parts.

  \<^bold>\<open>Parts and how they interact.\<close> Every page and the session context talk to the platform's API
  through \<open>lib/api.ts\<close>. Signing on by the identity provider starts at the login route, comes back
  to the callback route, and hands the session token to a client page, which gives it to the session
  context. The layouts read the context's user to admit a visitor, to choose what the sidebar lists
  and to redirect. The pages keep their own state, run effects when their dependencies change, and
  change it again when the answers of the API arrive, in any order.

  \<^bold>\<open>Theories.\<close>
  \<^item> \<open>Prelude\<close>: strings as JavaScript has them, paging arithmetic.
  \<^item> \<open>Platform\<close>: JSON values, exceptions, what React renders (\<open>view\<close>), which events a view offers, and
    the runs of a page: a \<open>world\<close> is a state with the requests in flight; \<open>wstep\<close> lets any of them be
    answered, \<open>fstep\<close> the oldest only. Its locales \<open>world_invariant\<close> and \<open>fetch_page\<close> hold what
    invariants and fetching pages share.
  \<^item> \<open>Encoding\<close>: percent encoding, \<open>URLSearchParams\<close>, base64.
  \<^item> \<open>ApiTypes\<close> (\<open>lib/types.ts\<close>), \<open>ApiClient\<close> (\<open>lib/api.ts\<close>), \<open>Utils\<close> (\<open>lib/utils.ts\<close>).
  \<^item> \<open>Sso\<close> (\<open>lib/sso.ts\<close>), \<open>OidcRoutes\<close> (\<open>app/api/auth/oidc\<close>), \<open>SignIn\<close> (\<open>app/login\<close>,
    \<open>app/auth/sso-bridge\<close>), \<open>AuthContext\<close> (\<open>contexts/auth.tsx\<close>).
  \<^item> \<open>LogStream\<close> (\<open>hooks/useLogStream.ts\<close>), \<open>Widgets\<close> (status badge, pipeline, error boundary, dialogs),
    \<open>Navigation\<close> (sidebar, shell, layouts).
  \<^item> \<open>PageKit\<close>: what the listing pages share, with the locale \<open>saving_page\<close>; \<open>AuditPage\<close>,
    \<open>VlansPage\<close>, \<open>UsersPage\<close>, \<open>QuotasPage\<close>, \<open>PoliciesPage\<close>: the pages under \<open>app/admin\<close>, \<open>app/staff\<close> and
    \<open>app/faculty\<close> of these names.
  \<^item> \<open>ProjectKit\<close>, \<open>ProjectData\<close> (the container), \<open>ProjectOverview\<close>, \<open>ProjectDeploys\<close>, \<open>ProjectBuilds\<close>,
    \<open>ProjectEnvironments\<close>, \<open>ProjectMembers\<close>, \<open>ProjectSettings\<close> (with \<open>DateTime\<close>) and \<open>ProjectPage\<close>, their
    composition: \<open>app/dashboard/[projectId]/page.tsx\<close>. \<open>SecretsPage\<close> and \<open>DeployPage\<close>: the project's
    secrets and the page of one deploy, \<open>app/dashboard/[projectId]/secrets\<close> and \<open>.../deploys/[deployId]\<close>.
  \<^item> \<open>AccountPage\<close>: \<open>app/settings\<close>; \<open>StudentsPage\<close>, \<open>ProjectListPage\<close>: \<open>students\<close>, \<open>projects\<close> and \<open>tags\<close>
    under \<open>app/staff\<close> and \<open>app/faculty\<close>, with what the API answers to their requests.
  \<^item> \<open>StudentDetailPage\<close>: the pages of one student (\<open>students/[id]\<close>); \<open>OverviewPages\<close>: the first pages of
    staff, faculty and administration, with the concurrent calls of a fetch as separate requests;
    \<open>DashboardPage\<close> and \<open>TemplateGallery\<close>: \<open>app/dashboard/page.tsx\<close> and the gallery it opens
    (\<open>components/template-gallery.tsx\<close>), in one machine.
  \<^item> \<open>JsNumber\<close>, \<open>JsObject\<close>: rounding and decimals of numbers, the order of an object's entries, sorting.
    \<open>FileSystem\<close>, \<open>ShellSyntax\<close>, \<open>ShellFiles\<close>, \<open>ShellText\<close>, \<open>ShellCommands\<close>, \<open>Terminal\<close>: the landing page
    (\<open>app/page.tsx\<close>), a terminal with a shell over a tree of files in memory: the tree and its
    operations; reading a line and arithmetic; the commands on files, on lines of text, and the others;
    running a line, the timed demonstration, the keys and the view. \<open>FileSystemWalk\<close>, \<open>FileSystemSpec\<close>,
    \<open>ShellSpec\<close> and \<open>ShellResults\<close> hold what is proved of them.

  \<^bold>\<open>How a page corresponds to its code.\<close> The record of a page has one field per \<open>useState\<close>; an event is
  a handler of its view; \<open>..._handle\<close> is what runs up to the first \<open>await\<close>, and gives the requests
  sent; \<open>..._resume\<close> is what runs when the answer arrives. A request carries the values its closure
  captured. A view is the rendered tree without its styling; a step may only take an event that the
  view of the current state offers.

  \<^bold>\<open>What the lemmas show.\<close> Client and encodings: what is sent is what the server reads. Sign-on: a
  session only for a complete flow, the token handed over unchanged, the cookies cleared. Context:
  the user on screen is one the server answered for. Pages: at most one change at a time, only for
  those who may, and what is listed answers the filters on screen when answers arrive in order. Shell:
  with a view of the store as a map from paths to files and directories, every operation refines the
  one on maps, and every command keeps a sound tree sound, but for the copy onto the home directory.
  Several theorems exhibit runs in which the code fails to do what it means to do.

  \<^bold>\<open>Bounds.\<close> The page size is the code's 25. Strings are lists of bytes (text in UTF-8). Numbers of the
  API are integers, as all its number fields are but a rate; quotients of the charts are rounded as
  IEEE 754 does (\<open>JsNumber\<close>). The recursions over the tree of files
  (\<open>clone_node\<close>, \<open>walk_tree\<close>, \<open>tree_walk\<close>) have the number of nodes as the bound of their depth, which is
  enough for every tree without sharing; beyond it the tree has a cycle and the code overflows the
  stack, which is the value \<open>None\<close>. \<open>seq_lines\<close>, \<open>divide_out\<close> and \<open>factor_loop\<close> may run for ever and are partial
  functions. All other functions terminate.

  \<^bold>\<open>Parameters.\<close> The API's and the provider's answers, SHA-256, random bytes, \<open>JSON.parse\<close>, date
  formatting, \<open>Number\<close> and its arithmetic in the shell, regular expressions of \<open>grep\<close> and \<open>sed\<close>, the locale's order of
  texts, the clock and the dates of the days before today (\<open>iso_day\<close>, for the first loop of
  \<open>getDeployActivity\<close>, which counts days back in local time and takes their dates in UTC) are arguments;
  hypotheses on them are stated with the theorems.

  \<^bold>\<open>Not modelled.\<close> Styling, and the batching of React's renders: state updates between two awaits are
  one step. Names that objects inherit (\<open>constructor\<close>, \<open>toString\<close>), as variables, aliases and files of the
  shell: with one of these the plain objects of the code find a function that is no value, alias or
  node, so what is proved of the shell is for all other names. The root layout and the version routes, which hold fonts, metadata
  and a constant. The other repositories' parts (the API and workers in Python, templates,
  infrastructure) are not in this language, or copied to users; of the API, what the pages rely on is
  modelled beside the page: the checks on the stored deploys before each operation on one, but not what
  the host of the containers answers; who may change the members of a project; what an update sets of a
  project, which the switches of its settings follow; which project an import may create.
\<close>

section \<open>Signing on, end to end\<close>

text \<open>
  C1: the sign-on as a whole: when the provider and the API do their part, the session token that
  the API issued ends up in the browser's store and in the header of the request for the account,
  and the account that answers that request is the user on screen; with the result \<open>ok\<close> that
  \<open>applySession\<close> then has, the hand-off page replaces its own address by the path that the login
  kept, its redirect parameter when that begins with a slash and the dashboard otherwise, and shows no
  error. \<open>r\<close> is the response of the login route, \<open>r'\<close> that of the callback.
\<close>

theorem sign_on_end_to_end:
  assumes conf: "sso_configured env"
    and start: "r = login_get sha256 env discovery u state nonce randoms"
    and given: "state \<noteq> []" "nonce \<noteq> []" "randoms \<noteq> []" "code \<noteq> []"
    and returned: "search_params_of u' = [(''code'', code), (''state'', state)]"
    and tokens: "\<forall>x. exchange_code_result (exchange x) = Inr tokens"
      "field tokens ''id_token'' = Some (JStr id_token)" "id_token \<noteq> []"
    and claims: "decode_id_token_claims json_parse id_token = Some claims"
      "field claims ''nonce'' = Some (JStr nonce)"
    and swapped: "\<forall>b. swap b = Inr \<lparr>an_ok = True, an_status = 200, an_json = Inr data\<rparr>"
      "field data ''access_token'' = Some (JStr t)" "t \<noteq> []"
    and answer: "callback_get json_parse env u' (jar_of r) exchange swap = Some r'"
    and opened: "auth_handle api (CallApplySession t) s = (s1, [(w, rq)])"
    and replied: "auth_settle api (w, rq) (MeReply (Inr me)) s1 = (s2, cs, d)"
  shows "(\<exists>hash path ok. rd_location r' = u_origin u' @ ''/auth/sso-bridge'' @ hash \<and>
       bridge_mount hash = Bridge_apply t path \<and> d = ApplyDone ok \<and>
       bridge_resume path ok = (Some (login_redirect_param u), [])) \<and>
    bearer_of rq = Some (''Bearer '' @ t) \<and>
    get_token True (as_storage s2) = Some t \<and> as_user s2 = Some me \<and> cs = []"
proof -
  have "callback_outcome json_parse env u' (jar_of r) exchange swap =
      Session t (login_redirect_param u)"
    using oidc_flow_completes [OF conf start given returned _ tokens(2,3) claims _ swapped(2,3)]
      tokens(1) swapped(1) by blast
  with answer have "rd_location r' =
      u_origin u' @ ''/auth/sso-bridge'' @ (CHR ''#'' # bridge_fragment t (login_redirect_param u))"
    by (auto simp: callback_get_def)
  moreover have "starts_with (login_redirect_param u) ''/''"
    by (simp add: login_redirect_param_def Let_def)
  then have "bridge_mount (CHR ''#'' # bridge_fragment t (login_redirect_param u)) =
      Bridge_apply t (login_redirect_param u)"
    by (simp add: bridge_reads_fragment swapped(3))
  moreover have rq: "w = ApplyMe \<and> rq = build_request api (Some t) auth_me \<and>
      get_token True (as_storage s1) = Some t"
    using opened by (auto simp: apply_session_def send_def get_token_def set_token_def)
  moreover have "bearer_of (build_request api (Some t) auth_me) = Some (''Bearer '' @ t)"
    using swapped(3) by (simp add: bearer_of_def build_request_headers)
  moreover have "get_token True (as_storage s2) = Some t \<and> as_user s2 = Some me \<and>
      d = ApplyDone True \<and> cs = []"
    using replied rq by (auto simp: get_token_def)
  moreover have "bridge_resume (login_redirect_param u) True = (Some (login_redirect_param u), [])"
    by simp
  ultimately show ?thesis by blast
qed

theorem sign_on_end_to_end_witness:
  "\<exists>(s2 :: auth_state) r' hash path ok.
     callback_get sample_json_parse sample_env sample_callback_url
       (jar_of (login_get (\<lambda>_. replicate 32 7) sample_env (Inl NotAnError) sample_login_url ''st'' ''n''
          (replicate 32 255))) sample_exchange sample_swap = Some r' \<and>
     rd_location r' = u_origin sample_callback_url @ ''/auth/sso-bridge'' @ hash \<and>
     bridge_mount hash = Bridge_apply ''jwt'' path \<and>
     bridge_resume path ok = (Some (login_redirect_param sample_login_url), []) \<and>
     as_user s2 = Some sample_user \<and> get_token True (as_storage s2) = Some ''jwt''"
proof -
  let ?r = "login_get (\<lambda>_. replicate 32 7) sample_env (Inl NotAnError) sample_login_url ''st'' ''n''
      (replicate 32 255)"
  have ret: "search_params_of sample_callback_url = [(''code'', ''c1''), (''state'', ''st'')]"
    by code_simp
  have dec: "decode_id_token_claims sample_json_parse ''h.e30.s'' = Some (JObj [(''nonce'', JStr ''n'')])"
    by code_simp
  have ex: "\<forall>x. exchange_code_result (sample_exchange x) = Inr (JObj [(''id_token'', JStr ''h.e30.s'')])"
    by (simp add: sample_exchange_def exchange_code_result_def)
  have sw: "\<forall>b. sample_swap b =
      Inr \<lparr>an_ok = True, an_status = 200, an_json = Inr (JObj [(''access_token'', JStr ''jwt'')])\<rparr>"
    by (simp add: sample_swap_def)
  have f: "field (JObj [(''id_token'', JStr ''h.e30.s'')]) ''id_token'' = Some (JStr ''h.e30.s'')"
    "field (JObj [(''nonce'', JStr ''n'')]) ''nonce'' = Some (JStr ''n'')"
    "field (JObj [(''access_token'', JStr ''jwt'')]) ''access_token'' = Some (JStr ''jwt'')"
    by (simp_all add: field_def)
  obtain r' where r': "callback_get sample_json_parse sample_env sample_callback_url (jar_of ?r)
      sample_exchange sample_swap = Some r'"
    using oidc_flow_completes [OF sample_configured refl _ _ _ _ ret _ f(1) _ dec f(2) _ f(3)] ex sw
    by (force simp: callback_get_def)
  obtain s1 w rq where o: "auth_handle None (CallApplySession ''jwt'') (auth_initial Map.empty) =
      (s1, [(w, rq)])"
    by (simp add: apply_session_def send_def Let_def)
  obtain s2 cs d where s2: "auth_settle None (w, rq) (MeReply (Inr sample_user)) s1 = (s2, cs, d)"
    by (metis prod_cases3)
  from sign_on_end_to_end [OF sample_configured refl _ _ _ _ ret ex f(1) _ dec f(2) sw f(3) _ r' o s2]
  show ?thesis using r' by (auto simp del: bridge_resume.simps)
qed

section \<open>A failure of the server, on a page\<close>

text \<open>
  What the audit page shows of a first request that the server refuses: with a JSON body whose
  detail is a text, that text; but a body that is no JSON under an empty status text (as over
  HTTP/2, whose responses have none) reads as an empty listing, with no trace of the failure.
\<close>

lemma refused_listing_on_page:
  assumes "\<not> rs_ok res" and "request_result (Inr res) = Inl e"
    and "audit_resume c (Inl e) audit_initial = (s, cs)"
  shows "(\<forall>body m. rs_json res = Inr body \<and> field body ''detail'' = Some (JStr m) \<and> m \<noteq> [] \<longrightarrow>
       m \<in> set (texts (staff_audit_view locale_string s))) \<and>
    ((\<exists>x. rs_json res = Inl x) \<and> rs_status_text res = [] \<longrightarrow>
       texts (staff_audit_view locale_string s) =
       texts (staff_audit_view locale_string (fst (audit_resume c
         (Inr \<lparr>ls_items = [], ls_total = 0\<rparr>) audit_initial))))"
proof -
  have e: "e = ApiErr (rs_status res) (error_detail res)"
    using assms(1,2) by (simp add: request_result_def handle_response_def)
  have s: "s = audit_initial\<lparr>ad_error := Some (to_js_string (error_detail res)), ad_loading := False\<rparr>"
    using assms(3) e by simp
  have "\<forall>body m. rs_json res = Inr body \<and> field body ''detail'' = Some (JStr m) \<and> m \<noteq> [] \<longrightarrow>
       m \<in> set (texts (staff_audit_view locale_string s))"
  proof (intro allI impI)
    fix body m
    assume a: "rs_json res = Inr body \<and> field body ''detail'' = Some (JStr m) \<and> m \<noteq> []"
    then have "body \<noteq> JNull" by (auto simp: field_def)
    with a have "to_js_string (error_detail res) = m" by (simp add: error_detail_def)
    with a s show "m \<in> set (texts (staff_audit_view locale_string s))"
      by (simp add: staff_audit_view_def has_error_def truthy_def)
  qed
  moreover have "(\<exists>x. rs_json res = Inl x) \<and> rs_status_text res = [] \<longrightarrow>
       texts (staff_audit_view locale_string s) =
       texts (staff_audit_view locale_string (fst (audit_resume c
         (Inr \<lparr>ls_items = [], ls_total = 0\<rparr>) audit_initial)))"
  proof
    assume "(\<exists>x. rs_json res = Inl x) \<and> rs_status_text res = []"
    then have "to_js_string (error_detail res) = []" by (auto simp: error_detail_def)
    with s show "texts (staff_audit_view locale_string s) =
       texts (staff_audit_view locale_string (fst (audit_resume c
         (Inr \<lparr>ls_items = [], ls_total = 0\<rparr>) audit_initial)))"
      by (simp add: staff_audit_view_def has_error_def truthy_def audit_initial_def audit_title_def
          audit_filters_def labelled_def)
  qed
  ultimately show ?thesis by (rule conjI)
qed

definition bad_gateway :: http_response where
  "bad_gateway = \<lparr>rs_status = 502, rs_status_text = [], rs_json = Inl (JsErr ''Unexpected token'')\<rparr>"

lemma refused_listing_on_page_witness:
  "\<exists>s. request_result (Inr bad_gateway) = Inl (ApiErr 502 (JStr [])) \<and>
     audit_resume (audit_query audit_initial) (Inl (ApiErr 502 (JStr []))) audit_initial = (s, []) \<and>
     ''No audit entries found.'' \<in> set (texts (staff_audit_view (\<lambda>d. d) s))"
proof -
  have bad: "\<not> rs_ok bad_gateway" by (simp add: rs_ok_def bad_gateway_def)
  have q: "request_result (Inr bad_gateway) = Inl (ApiErr 502 (JStr []))"
    by (simp add: request_result_def handle_response_def rs_ok_def bad_gateway_def error_detail_def)
  obtain s where r: "audit_resume (audit_query audit_initial) (Inl (ApiErr 502 (JStr []))) audit_initial = (s, [])"
    by simp
  have "texts (staff_audit_view (\<lambda>d. d) s) =
       texts (staff_audit_view (\<lambda>d. d) (fst (audit_resume (audit_query audit_initial)
         (Inr \<lparr>ls_items = [], ls_total = 0\<rparr>) audit_initial)))"
    using refused_listing_on_page [OF bad q r] by (simp add: bad_gateway_def)
  moreover have "''No audit entries found.'' \<in> set (texts (staff_audit_view (\<lambda>d. d)
      (fst (audit_resume (audit_query audit_initial) (Inr \<lparr>ls_items = [], ls_total = 0\<rparr>) audit_initial))))"
    by (simp add: staff_audit_view_def has_error_def audit_initial_def)
  ultimately have "''No audit entries found.'' \<in> set (texts (staff_audit_view (\<lambda>d. d) s))"
    by (simp only:)
  with q r show ?thesis by (intro exI conjI)
qed

end
